(* ===== verification/Prelude.thy ===== *)
theory Prelude
  imports Main "HOL-Library.Word" "HOL-Library.Finite_Map" "HOL-Library.List_Lexorder"
    "HOL-Library.Char_ord"
begin

text \<open>
  What every component shares: the fallible computations of the source (Rust's
  \<open>Result\<close> with its \<open>?\<close> operator, loops that stop at the first error,
  \<open>collect::<Result<Vec<_>>>()\<close>), the string operations of its standard library on
  UTF-8 byte strings, and the small list operations (\<open>find\<close>, \<open>position\<close>, first-wins
  removal of duplicates). A Rust string is a HOL \<open>string\<close>: the list of its UTF-8 bytes,
  so \<open>length\<close> is Rust's \<open>str::len\<close> and the order is Rust's byte order.
\<close>

named_theorems result_simps "rewriting of fallible computations"
named_theorems string_simps "rewriting of the string operations"

section \<open>Fallible computations\<close>

type_synonym u32 = "32 word"
type_synonym u64 = "64 word"

text \<open>The \<open>?\<close> operator: stop with the error or go on with the value.\<close>

definition and_then :: "'e + 'a \<Rightarrow> ('a \<Rightarrow> 'e + 'b) \<Rightarrow> 'e + 'b" where
  "and_then x f = (case x of Inl e \<Rightarrow> Inl e | Inr a \<Rightarrow> f a)"

text \<open>\<open>if !b { return Err(e) }\<close>.\<close>

definition ensure :: "bool \<Rightarrow> 'e \<Rightarrow> 'e + unit" where
  "ensure b e = (if b then Inr () else Inl e)"

text \<open>\<open>Option::ok_or\<close> and \<open>Result::map_err\<close>.\<close>

definition ok_or :: "'a option \<Rightarrow> 'e \<Rightarrow> 'e + 'a" where
  "ok_or x e = (case x of None \<Rightarrow> Inl e | Some a \<Rightarrow> Inr a)"

definition map_err :: "('e \<Rightarrow> 'f) \<Rightarrow> 'e + 'a \<Rightarrow> 'f + 'a" where
  "map_err f x = (case x of Inl e \<Rightarrow> Inl (f e) | Inr a \<Rightarrow> Inr a)"

definition is_ok :: "'e + 'a \<Rightarrow> bool" where
  "is_ok x = (case x of Inl _ \<Rightarrow> False | Inr _ \<Rightarrow> True)"

text \<open>\<open>Result::ok\<close>.\<close>

definition ok :: "'e + 'a \<Rightarrow> 'a option" where
  "ok x = (case x of Inl _ \<Rightarrow> None | Inr a \<Rightarrow> Some a)"

text \<open>A \<open>for\<close> loop whose body may return an error.\<close>

fun for_each :: "('a \<Rightarrow> 'e + unit) \<Rightarrow> 'a list \<Rightarrow> 'e + unit" where
  "for_each f [] = Inr ()"
| "for_each f (x # xs) = and_then (f x) (\<lambda>_. for_each f xs)"

text \<open>A \<open>for\<close> loop that also carries a state.\<close>

fun fold_each :: "('a \<Rightarrow> 's \<Rightarrow> 'e + 's) \<Rightarrow> 'a list \<Rightarrow> 's \<Rightarrow> 'e + 's" where
  "fold_each f [] s = Inr s"
| "fold_each f (x # xs) s = and_then (f x s) (fold_each f xs)"

text \<open>\<open>iter().map(f).collect::<Result<Vec<_>>>()\<close>.\<close>

fun traverse :: "('a \<Rightarrow> 'e + 'b) \<Rightarrow> 'a list \<Rightarrow> 'e + 'b list" where
  "traverse f [] = Inr []"
| "traverse f (x # xs) = and_then (f x) (\<lambda>y. and_then (traverse f xs) (\<lambda>ys. Inr (y # ys)))"

lemma and_then_simps [simp]:
  "and_then (Inl e) f = Inl e"
  "and_then (Inr a) f = f a"
  by (simp_all add: and_then_def)

lemma and_then_Inr_iff [result_simps]:
  "and_then x f = Inr b \<longleftrightarrow> (\<exists>a. x = Inr a \<and> f a = Inr b)"
  by (cases x) simp_all

lemma and_then_cong [fundef_cong]:
  "x = y \<Longrightarrow> (\<And>a. y = Inr a \<Longrightarrow> f a = g a) \<Longrightarrow> and_then x f = and_then y g"
  by (cases y) simp_all

lemma ensure_Inr_iff [result_simps]: "ensure b e = Inr u \<longleftrightarrow> b"
  by (simp add: ensure_def)

lemma ensure_simps [simp]: "ensure True e = Inr ()" "ensure False e = Inl e"
  by (simp_all add: ensure_def)

lemma ok_or_simps [simp]: "ok_or (Some a) e = Inr a" "ok_or None e = Inl e"
  by (simp_all add: ok_or_def)

lemma ok_or_Inr_iff [result_simps]: "ok_or x e = Inr a \<longleftrightarrow> x = Some a"
  by (cases x) simp_all

lemma map_err_simps [simp]: "map_err f (Inr a) = Inr a" "map_err f (Inl e) = Inl (f e)"
  by (simp_all add: map_err_def)

lemma map_err_Inr_iff [result_simps]: "map_err f x = Inr a \<longleftrightarrow> x = Inr a"
  by (cases x) simp_all

lemma ok_simps [simp]: "ok (Inr a) = Some a" "ok (Inl e) = None"
  by (simp_all add: ok_def)

lemma ok_Some_iff [result_simps]: "ok x = Some a \<longleftrightarrow> x = Inr a"
  by (cases x) simp_all

lemma case_option_False_iff [result_simps]:
  "(case x of None \<Rightarrow> False | Some a \<Rightarrow> P a) \<longleftrightarrow> (\<exists>a. x = Some a \<and> P a)"
  by (cases x) simp_all

lemma is_ok_simps [simp]: "is_ok (Inr a)" "\<not> is_ok (Inl e)"
  by (simp_all add: is_ok_def)

lemma is_ok_iff [result_simps]: "is_ok x \<longleftrightarrow> (\<exists>a. x = Inr a)"
  by (cases x) simp_all

lemma for_each_Inr_iff [result_simps]:
  "for_each f xs = Inr u \<longleftrightarrow> (\<forall>x \<in> set xs. f x = Inr ())"
  by (induction xs) (auto simp: result_simps)

lemma traverse_Inr_iff [result_simps]:
  "traverse f xs = Inr ys \<longleftrightarrow> list_all2 (\<lambda>x y. f x = Inr y) xs ys"
  by (induction xs arbitrary: ys) (auto simp: result_simps list_all2_Cons1)

lemma traverse_set:
  assumes "traverse f xs = Inr ys"
  shows "y \<in> set ys \<longleftrightarrow> (\<exists>x \<in> set xs. f x = Inr y)"
  using assms
  by (induction xs arbitrary: ys) (auto simp: and_then_Inr_iff)

lemma traverse_length: "traverse f xs = Inr ys \<Longrightarrow> length ys = length xs"
  by (auto simp: traverse_Inr_iff dest: list_all2_lengthD)

lemma fold_each_append:
  "fold_each f (xs @ ys) s = and_then (fold_each f xs s) (fold_each f ys)"
proof (induction xs arbitrary: s)
  case (Cons x xs)
  show ?case by (cases "f x s") (simp_all add: Cons.IH)
qed simp

text \<open>The invariant rule for such a loop.\<close>

lemma fold_each_invariant:
  assumes "fold_each f xs s = Inr t" and "P s"
    and "\<And>x s s'. x \<in> set xs \<Longrightarrow> P s \<Longrightarrow> f x s = Inr s' \<Longrightarrow> P s'"
  shows "P t"
  using assms
proof (induction xs arbitrary: s)
  case (Cons x xs)
  then obtain s' where "f x s = Inr s'" "fold_each f xs s' = Inr t"
    by (auto simp: and_then_Inr_iff)
  with Cons show ?case by (meson list.set_intros)
qed simp

section \<open>Lists\<close>

text \<open>\<open>iter().position(p)\<close>.\<close>

fun position :: "('a \<Rightarrow> bool) \<Rightarrow> 'a list \<Rightarrow> nat option" where
  "position p [] = None"
| "position p (x # xs) = (if p x then Some 0 else map_option Suc (position p xs))"

text \<open>\<open>let mut seen = HashSet::new(); items.retain(|x| seen.insert(x.clone()))\<close>.\<close>

fun retain_first :: "'a set \<Rightarrow> 'a list \<Rightarrow> 'a list" where
  "retain_first seen [] = []"
| "retain_first seen (x # xs) =
     (if x \<in> seen then retain_first seen xs else x # retain_first (insert x seen) xs)"

text \<open>\<open>Vec::dedup\<close>: consecutive equal elements collapse to the first.\<close>

fun dedup :: "'a list \<Rightarrow> 'a list" where
  "dedup [] = []"
| "dedup [x] = [x]"
| "dedup (x # y # xs) = (if x = y then dedup (y # xs) else x # dedup (y # xs))"

definition nth_opt :: "'a list \<Rightarrow> nat \<Rightarrow> 'a option" where
  "nth_opt xs i = (if i < length xs then Some (xs ! i) else None)"

definition last_opt :: "'a list \<Rightarrow> 'a option" where
  "last_opt xs = (if xs = [] then None else Some (last xs))"

lemma nth_opt_Cons_0 [simp]: "nth_opt (x # xs) 0 = Some x"
  by (simp add: nth_opt_def)

lemma nth_opt_Cons_Suc [simp]: "nth_opt (x # xs) (Suc i) = nth_opt xs i"
  by (simp add: nth_opt_def)

lemma nth_opt_Nil [simp]: "nth_opt [] i = None"
  by (simp add: nth_opt_def)

lemma nth_opt_Some_iff: "nth_opt xs i = Some x \<longleftrightarrow> i < length xs \<and> xs ! i = x"
  by (auto simp: nth_opt_def)

lemma position_None_iff: "position p xs = None \<longleftrightarrow> (\<forall>x \<in> set xs. \<not> p x)"
  by (induction xs) auto

lemma position_Some_D:
  "position p xs = Some i \<Longrightarrow> i < length xs \<and> p (xs ! i) \<and> (\<forall>j < i. \<not> p (xs ! j))"
proof (induction xs arbitrary: i)
  case (Cons x xs)
  show ?case
  proof (cases "p x")
    case True
    with Cons.prems show ?thesis by simp
  next
    case False
    with Cons.prems obtain k where k: "position p xs = Some k" "i = Suc k" by auto
    with Cons.IH [of k] False show ?thesis
      by (auto simp: less_Suc_eq_0_disj)
  qed
qed simp

lemma set_retain_first: "set (retain_first seen xs) = set xs - seen"
  by (induction xs arbitrary: seen) auto

lemma distinct_retain_first: "distinct (retain_first seen xs)"
  by (induction xs arbitrary: seen) (auto simp: set_retain_first)

lemma retain_first_id: "distinct xs \<Longrightarrow> set xs \<inter> seen = {} \<Longrightarrow> retain_first seen xs = xs"
  by (induction xs arbitrary: seen) auto

lemma set_dedup [simp]: "set (dedup xs) = set xs"
  by (induction xs rule: dedup.induct) auto

lemma dedup_Nil_iff [simp]: "dedup xs = [] \<longleftrightarrow> xs = []"
  by (metis set_dedup set_empty)

lemma dedup_sorted_distinct:
  "sorted xs \<Longrightarrow> sorted (dedup xs) \<and> distinct (dedup (xs :: 'a :: linorder list))"
  by (induction xs rule: dedup.induct) auto

lemma sort_Nil_iff [simp]: "sort xs = [] \<longleftrightarrow> xs = []"
  by (metis set_empty set_sort)

lemma find_Some_D: "List.find p xs = Some x \<Longrightarrow> x \<in> set xs \<and> p x"
  by (auto simp: find_Some_iff)

lemma find_unique:
  assumes "distinct (map k xs)" and "x \<in> set xs"
  shows "List.find (\<lambda>y. k y = k x) xs = Some x"
  using assms
  by (induction xs) (auto simp: rev_image_eqI)

lemma find_cong_set: "(\<And>x. x \<in> set xs \<Longrightarrow> p x = q x) \<Longrightarrow> List.find p xs = List.find q xs"
  by (induction xs) auto

section \<open>Strings\<close>

fun split_on :: "'a \<Rightarrow> 'a list \<Rightarrow> 'a list list" where
  "split_on d [] = [[]]"
| "split_on d (c # cs) =
     (if c = d then [] # split_on d cs
      else (case split_on d cs of [] \<Rightarrow> [[c]] | w # ws \<Rightarrow> (c # w) # ws))"

fun join_with :: "'a \<Rightarrow> 'a list list \<Rightarrow> 'a list" where
  "join_with d [] = []"
| "join_with d [w] = w"
| "join_with d (w # v # ws) = w @ d # join_with d (v # ws)"

fun contains_str :: "'a list \<Rightarrow> 'a list \<Rightarrow> bool" where
  "contains_str p [] = (p = [])"
| "contains_str p (c # cs) = (take (length p) (c # cs) = p \<or> contains_str p cs)"

definition starts_with :: "'a list \<Rightarrow> 'a list \<Rightarrow> bool" where
  "starts_with p s = (take (length p) s = p)"

definition ends_with :: "'a list \<Rightarrow> 'a list \<Rightarrow> bool" where
  "ends_with p s = starts_with (rev p) (rev s)"

definition strip_prefix :: "'a list \<Rightarrow> 'a list \<Rightarrow> 'a list option" where
  "strip_prefix p s = (if starts_with p s then Some (drop (length p) s) else None)"

definition strip_suffix :: "'a list \<Rightarrow> 'a list \<Rightarrow> 'a list option" where
  "strip_suffix p s = (if ends_with p s then Some (take (length s - length p) s) else None)"

text \<open>
  \<open>str::trim().is_empty()\<close>: every character has the Unicode property White_Space, read
  off the UTF-8 encoding (U+0009 to U+000D, U+0020, U+0085, U+00A0, U+1680, U+2000 to U+200A,
  U+2028, U+2029, U+202F, U+205F, U+3000).
\<close>

definition ascii_space :: "nat \<Rightarrow> bool" where
  "ascii_space a = ((9 \<le> a \<and> a \<le> 13) \<or> a = 32)"

definition wide_space :: "nat \<Rightarrow> nat \<Rightarrow> nat \<Rightarrow> bool" where
  "wide_space a b c =
     ((a = 0xE1 \<and> b = 0x9A \<and> c = 0x80)
    \<or> (a = 0xE2 \<and> b = 0x80 \<and> ((0x80 \<le> c \<and> c \<le> 0x8A) \<or> c = 0xA8 \<or> c = 0xA9 \<or> c = 0xAF))
    \<or> (a = 0xE2 \<and> b = 0x81 \<and> c = 0x9F)
    \<or> (a = 0xE3 \<and> b = 0x80 \<and> c = 0x80))"

fun blank_bytes :: "nat list \<Rightarrow> bool" where
  "blank_bytes [] = True"
| "blank_bytes (a # bs) =
     (if ascii_space a then blank_bytes bs
      else (case bs of
        [] \<Rightarrow> False
      | b # cs \<Rightarrow>
          (if a = 0xC2 \<and> (b = 0x85 \<or> b = 0xA0) then blank_bytes cs
           else (case cs of [] \<Rightarrow> False | c # ds \<Rightarrow> wide_space a b c \<and> blank_bytes ds))))"

definition is_blank :: "string \<Rightarrow> bool" where
  "is_blank s = blank_bytes (map of_char s)"

text \<open>
  \<open>std::str::from_utf8\<close>: the well-formed byte sequences of the Unicode standard
  (table 3-7), as Rust checks them.
\<close>

definition cont_byte :: "nat \<Rightarrow> bool" where
  "cont_byte b = (0x80 \<le> b \<and> b \<le> 0xBF)"

definition lead2_ok :: "nat \<Rightarrow> nat \<Rightarrow> bool" where
  "lead2_ok a b = (0xC2 \<le> a \<and> a \<le> 0xDF \<and> cont_byte b)"

definition lead3_ok :: "nat \<Rightarrow> nat \<Rightarrow> nat \<Rightarrow> bool" where
  "lead3_ok a b c =
     (0xE0 \<le> a \<and> a \<le> 0xEF \<and> cont_byte b \<and> cont_byte c
      \<and> (a = 0xE0 \<longrightarrow> 0xA0 \<le> b) \<and> (a = 0xED \<longrightarrow> b \<le> 0x9F))"

definition lead4_ok :: "nat \<Rightarrow> nat \<Rightarrow> nat \<Rightarrow> nat \<Rightarrow> bool" where
  "lead4_ok a b c d =
     (0xF0 \<le> a \<and> a \<le> 0xF4 \<and> cont_byte b \<and> cont_byte c \<and> cont_byte d
      \<and> (a = 0xF0 \<longrightarrow> 0x90 \<le> b) \<and> (a = 0xF4 \<longrightarrow> b \<le> 0x8F))"

text \<open>One encoded character is consumed at a time.\<close>

definition utf8_step :: "nat list \<Rightarrow> nat list option" where
  "utf8_step s =
     (case s of
        [] \<Rightarrow> None
      | a # bs \<Rightarrow>
          (if a < 0x80 then Some bs
           else (case bs of
             [] \<Rightarrow> None
           | b # cs \<Rightarrow>
               (if lead2_ok a b then Some cs
                else (case cs of
                  [] \<Rightarrow> None
                | c # ds \<Rightarrow>
                    (if lead3_ok a b c then Some ds
                     else (case ds of
                       [] \<Rightarrow> None
                     | d # es \<Rightarrow> (if lead4_ok a b c d then Some es else None))))))))"

lemma utf8_step_length: "utf8_step s = Some t \<Longrightarrow> length t < length s"
  by (auto simp: utf8_step_def split: list.splits if_splits)

function utf8_bytes :: "nat list \<Rightarrow> bool" where
  "utf8_bytes s =
     (if s = [] then True
      else (case utf8_step s of None \<Rightarrow> False | Some rest \<Rightarrow> utf8_bytes rest))"
  by pat_completeness auto
termination
  by (relation "measure length") (auto dest: utf8_step_length)

declare utf8_bytes.simps [simp del]

definition valid_utf8 :: "string \<Rightarrow> bool" where
  "valid_utf8 s = utf8_bytes (map of_char s)"

text \<open>\<open>to_string()\<close> of an unsigned integer: its decimal digits.\<close>

fun digits_of :: "nat \<Rightarrow> nat list" where
  "digits_of n = (if n < 10 then [n] else digits_of (n div 10) @ [n mod 10])"

declare digits_of.simps [simp del]

definition show_nat :: "nat \<Rightarrow> string" where
  "show_nat n = map (\<lambda>d. char_of (48 + d)) (digits_of n)"

definition show_u64 :: "u64 \<Rightarrow> string" where
  "show_u64 w = show_nat (unat w)"

lemma split_on_nonempty [simp]: "split_on d cs \<noteq> []"
  by (cases cs) (auto split: list.splits)

lemma join_split [string_simps]: "join_with d (split_on d cs) = cs"
proof (induction cs)
  case (Cons c cs)
  obtain w ws where "split_on d cs = w # ws"
    by (cases "split_on d cs") auto
  with Cons show ?case by (cases ws) auto
qed simp

lemma split_on_no_delim: "w \<in> set (split_on d cs) \<Longrightarrow> d \<notin> set w"
  by (induction cs arbitrary: w) (auto split: if_splits list.splits)

lemma split_on_word: "d \<notin> set w \<Longrightarrow> split_on d w = [w]"
  by (induction w) auto

lemma split_on_append: "d \<notin> set w \<Longrightarrow> split_on d (w @ d # cs) = w # split_on d cs"
  by (induction w) auto

lemma split_join [string_simps]:
  "ws \<noteq> [] \<Longrightarrow> \<forall>w \<in> set ws. d \<notin> set w \<Longrightarrow> split_on d (join_with d ws) = ws"
  by (induction d ws rule: join_with.induct) (simp_all add: split_on_word split_on_append)

lemma starts_with_append [simp]: "starts_with p (p @ s)"
  by (simp add: starts_with_def)

lemma starts_with_iff: "starts_with p s \<longleftrightarrow> (\<exists>t. s = p @ t)"
  unfolding starts_with_def by (metis append_take_drop_id append_eq_conv_conj)

lemma starts_with_singleton [simp]: "starts_with [c] s \<longleftrightarrow> (\<exists>t. s = c # t)"
  by (auto simp: starts_with_iff)

lemma ends_with_iff: "ends_with p s \<longleftrightarrow> (\<exists>t. s = t @ p)"
proof
  assume "ends_with p s"
  then obtain t where "rev s = rev p @ t"
    by (auto simp: ends_with_def starts_with_iff)
  then have "s = rev t @ p"
    by (metis rev_append rev_rev_ident)
  then show "\<exists>t. s = t @ p" by blast
qed (auto simp: ends_with_def starts_with_iff)

lemma strip_prefix_Some_iff [string_simps]: "strip_prefix p s = Some t \<longleftrightarrow> s = p @ t"
  by (auto simp: strip_prefix_def starts_with_iff)

lemma strip_suffix_Some_iff [string_simps]: "strip_suffix p s = Some t \<longleftrightarrow> s = t @ p"
  by (auto simp: strip_suffix_def ends_with_iff)

lemma contains_str_iff: "contains_str p s \<longleftrightarrow> (\<exists>a b. s = a @ p @ b)"
proof (induction s)
  case (Cons c cs)
  show ?case
  proof
    assume "contains_str p (c # cs)"
    then consider "starts_with p (c # cs)" | "contains_str p cs"
      by (auto simp: starts_with_def)
    then show "\<exists>a b. c # cs = a @ p @ b"
    proof cases
      case 1
      then show ?thesis by (metis starts_with_iff append_Nil)
    next
      case 2
      then show ?thesis using Cons.IH by (metis append_Cons)
    qed
  next
    assume "\<exists>a b. c # cs = a @ p @ b"
    then obtain a b where ab: "c # cs = a @ p @ b" by blast
    show "contains_str p (c # cs)"
    proof (cases a)
      case Nil
      with ab have "starts_with p (c # cs)" by (simp add: starts_with_iff)
      then show ?thesis by (simp add: starts_with_def)
    next
      case (Cons x a')
      with ab have "cs = a' @ p @ b" by simp
      then show ?thesis using Cons.IH by auto
    qed
  qed
qed simp

lemma contains_singleton [simp]: "contains_str [c] s \<longleftrightarrow> c \<in> set s"
  by (auto simp: contains_str_iff in_set_conv_decomp)

text \<open>An ASCII byte is never part of a longer encoding, so cutting at one keeps both sides valid.\<close>

lemma utf8_step_append_ascii:
  assumes "utf8_step (xs @ k # ys) = Some r" "k < 0x80" "xs \<noteq> []"
  shows "\<exists>xs'. r = xs' @ k # ys \<and> utf8_step xs = Some xs'"
proof -
  have k: "\<not> lead2_ok a k" "\<not> lead3_ok a k c" "\<not> lead3_ok a b k" "\<not> lead4_ok a k c d"
    "\<not> lead4_ok a b k d" "\<not> lead4_ok a b c k" for a b c d
    using assms(2) by (auto simp: lead2_ok_def lead3_ok_def lead4_ok_def cont_byte_def)
  obtain a bs where xs: "xs = a # bs" using assms(3) by (cases xs) auto
  show ?thesis
  proof (cases "a < 0x80")
    case True
    with assms(1) xs show ?thesis by (simp add: utf8_step_def)
  next
    case False
    note step = assms(1) [unfolded xs utf8_step_def append.simps list.case if_not_P [OF False]]
    consider "bs = []" | b where "bs = [b]" | b c where "bs = [b, c]" | b c d es where "bs = b # c # d # es"
      by (metis neq_Nil_conv)
    then show ?thesis
    proof cases
      case 4
      with step False xs show ?thesis by (auto simp: utf8_step_def split: if_splits)
    qed (use step False xs k assms(2) in \<open>auto simp: utf8_step_def split: if_splits list.splits\<close>)
  qed
qed

lemma utf8_bytes_cut:
  "utf8_bytes (xs @ k # ys) \<Longrightarrow> k < 0x80 \<Longrightarrow> utf8_bytes xs \<and> utf8_bytes ys"
proof (induction xs rule: length_induct)
  case (1 xs)
  show ?case
  proof (cases "xs = []")
    case True
    have "utf8_step (k # ys) = Some ys" using "1.prems"(2) by (simp add: utf8_step_def)
    then show ?thesis
      using "1.prems"(1) True utf8_bytes.simps [of "k # ys"] utf8_bytes.simps [of "[]"] by simp
  next
    case False
    from "1.prems"(1) obtain r where r: "utf8_step (xs @ k # ys) = Some r" "utf8_bytes r"
      using utf8_bytes.simps [of "xs @ k # ys"] by (auto split: option.splits)
    obtain xs' where xs': "r = xs' @ k # ys" "utf8_step xs = Some xs'"
      using utf8_step_append_ascii [OF r(1) "1.prems"(2) False] by blast
    then have "utf8_bytes xs' \<and> utf8_bytes ys"
      using "1.IH" r(2) "1.prems"(2) utf8_step_length by blast
    with xs'(2) False show ?thesis using utf8_bytes.simps [of xs] by simp
  qed
qed

lemma valid_utf8_split_on:
  assumes "valid_utf8 s" "of_char d < (0x80 :: nat)" "w \<in> set (split_on d s)"
  shows "valid_utf8 w"
  using assms
proof (induction "split_on d s" arbitrary: s)
  case (Cons v vs)
  show ?case
  proof (cases "d \<in> set s")
    case True
    then obtain a b where ab: "s = a @ d # b" "d \<notin> set a" by (metis split_list_first)
    then have split: "split_on d s = a # split_on d b" by (simp add: split_on_append)
    have "utf8_bytes (map of_char a @ of_char d # map of_char b)"
      using Cons.prems(1) ab by (simp add: valid_utf8_def)
    from utf8_bytes_cut [OF this Cons.prems(2)]
    have "valid_utf8 a" "valid_utf8 b" by (simp_all add: valid_utf8_def)
    with Cons.hyps Cons.prems split show ?thesis by auto
  next
    case False
    then show ?thesis using Cons.prems by (simp add: split_on_word)
  qed
qed simp

lemma digits_of_bound: "d \<in> set (digits_of n) \<Longrightarrow> d < 10"
proof (induction n rule: digits_of.induct)
  case (1 n)
  then show ?case
    by (subst (asm) (2) digits_of.simps) (auto split: if_splits)
qed

fun value_of_digits :: "nat \<Rightarrow> nat list \<Rightarrow> nat" where
  "value_of_digits acc [] = acc"
| "value_of_digits acc (d # ds) = value_of_digits (10 * acc + d) ds"

lemma value_of_digits_append:
  "value_of_digits acc (xs @ ys) = value_of_digits (value_of_digits acc xs) ys"
  by (induction xs arbitrary: acc) auto

lemma value_of_digits_of: "value_of_digits 0 (digits_of n) = n"
proof (induction n rule: digits_of.induct)
  case (1 n)
  show ?case
    by (subst digits_of.simps) (use 1 in \<open>simp add: value_of_digits_append\<close>)
qed

lemma show_nat_inject: "show_nat m = show_nat n \<longleftrightarrow> m = n"
proof
  assume eq: "show_nat m = show_nat n"
  have inj: "inj_on (\<lambda>d::nat. char_of (48 + d) :: char) {..<10}"
  proof (rule inj_onI)
    fix x y :: nat
    assume "x \<in> {..<10}" "y \<in> {..<10}" "(char_of (48 + x) :: char) = char_of (48 + y)"
    then have "(of_char (char_of (48 + x)) :: nat) = of_char (char_of (48 + y))" by simp
    with \<open>x \<in> _\<close> \<open>y \<in> _\<close> show "x = y"
      by (simp add: of_char_of)
  qed
  have "digits_of m = digits_of n"
  proof (rule map_inj_on)
    show "map (\<lambda>d. char_of (48 + d) :: char) (digits_of m) = map (\<lambda>d. char_of (48 + d)) (digits_of n)"
      using eq by (simp add: show_nat_def)
    show "inj_on (\<lambda>d. char_of (48 + d) :: char) (set (digits_of m) \<union> set (digits_of n))"
      by (rule inj_on_subset [OF inj]) (auto dest: digits_of_bound)
  qed
  then show "m = n" by (metis value_of_digits_of)
qed simp

lemma show_u64_inject [simp]: "show_u64 v = show_u64 w \<longleftrightarrow> v = w"
  by (simp add: show_u64_def show_nat_inject word_unat_eq_iff)

end
