(* ===== verification/Admin_Path.thy ===== *)
theory Admin_Path
  imports Prelude
begin

text \<open>
  \<open>crates/tellurion-core/src/control_admin_path.rs\<close>: canonical control-plane paths and
  the anchored segment patterns that policies are written in. A pattern is a list of literal
  segments, one-segment wildcards and at most one final wildcard for the remainder. The
  section on the pattern algebra shows that the three structural tests of the code (cover,
  overlap, intersection) decide the inclusion, the meeting and the intersection of the sets
  of paths the patterns match; the locale \<open>pattern_language\<close> states that contract for the
  delegation checks, which only use it through the interpretation at the end.
\<close>

section \<open>Canonical paths\<close>

datatype control_path_error =
    InvalidUtf8
  | OutsideApplicationRoot
  | EncodedComponent
  | InvalidSeparator
  | RepeatedSeparator
  | DotSegment
  | TrailingSeparator
  | InvalidHierarchy
  | InvalidPattern

record canonical_control_path =
  cp_value :: string
  cp_segments :: "string list"

definition strip_application_root :: "string \<Rightarrow> string \<Rightarrow> control_path_error + string" where
  "strip_application_root raw_path application_root =
     (if application_root = [] \<or> application_root = ''/'' then Inr raw_path
      else if \<not> starts_with ''/'' application_root
              \<or> ends_with ''/'' application_root
              \<or> contains_str ''%'' application_root
              \<or> contains_str [CHR 0x5C] application_root
      then Inl OutsideApplicationRoot
      else (case strip_prefix application_root raw_path of
              Some path \<Rightarrow>
                if starts_with ''/'' path then Inr path else Inl OutsideApplicationRoot
            | None \<Rightarrow> Inl OutsideApplicationRoot))"

definition validate_unambiguous_path :: "string \<Rightarrow> control_path_error + unit" where
  "validate_unambiguous_path path =
     (if \<not> starts_with ''/'' path then Inl InvalidHierarchy
      else if contains_str ''%'' path then Inl EncodedComponent
      else if contains_str [CHR 0x5C] path then Inl InvalidSeparator
      else if contains_str ''//'' path then Inl RepeatedSeparator
      else if 1 < length path \<and> ends_with ''/'' path then Inl TrailingSeparator
      else if list_ex (\<lambda>segment. segment = ''.'' \<or> segment = ''..'')
                (split_on CHR ''/'' (drop 1 path)) then Inl DotSegment
      else Inr ())"

definition validate_hierarchy :: "string list \<Rightarrow> control_path_error + unit" where
  "validate_hierarchy segments =
     (if length segments < 3 \<or> segments ! 0 \<noteq> ''_control'' \<or> segments ! 1 \<noteq> ''v1''
      then Inl InvalidHierarchy
      else if segments ! 2 = ''platform'' \<or> segments ! 2 = ''tenants'' then Inr ()
      else Inl InvalidHierarchy)"

definition canonicalize_control_path ::
  "string \<Rightarrow> string \<Rightarrow> control_path_error + canonical_control_path" where
  "canonicalize_control_path raw_path application_root =
     and_then (ensure (valid_utf8 raw_path) InvalidUtf8) (\<lambda>_.
     and_then (strip_application_root raw_path application_root) (\<lambda>path.
     and_then (validate_unambiguous_path path) (\<lambda>_.
     let segments = split_on CHR ''/'' (drop 1 path) in
     and_then (validate_hierarchy segments) (\<lambda>_.
     Inr \<lparr>cp_value = path, cp_segments = segments\<rparr>))))"

definition validate_inert_legacy_pattern :: "string \<Rightarrow> control_path_error + unit" where
  "validate_inert_legacy_pattern pattern =
     (if starts_with ''/'' pattern then Inr () else Inl InvalidPattern)"

section \<open>Compiled patterns\<close>

datatype pattern_segment = Literal string | One | Remainder

type_synonym compiled_pattern = "pattern_segment list"

fun compile_segments :: "string list \<Rightarrow> control_path_error + compiled_pattern" where
  "compile_segments [] = Inr []"
| "compile_segments (segment # rest) =
     and_then
       (if segment = ''*'' then Inr One
        else if segment = ''**'' then
          (if rest = [] then Inr Remainder else Inl InvalidPattern)
        else if contains_str ''*'' segment \<or> segment = [] then Inl InvalidPattern
        else Inr (Literal segment))
       (\<lambda>compiled. and_then (compile_segments rest) (\<lambda>cs. Inr (compiled # cs)))"

definition compile_pattern :: "string \<Rightarrow> control_path_error + compiled_pattern" where
  "compile_pattern pattern =
     and_then (map_err (\<lambda>_. InvalidPattern) (validate_unambiguous_path pattern)) (\<lambda>_.
     let raw_segments = split_on CHR ''/'' (drop 1 pattern) in
     if length raw_segments < 3 \<or> raw_segments ! 0 \<noteq> ''_control'' \<or> raw_segments ! 1 \<noteq> ''v1''
        \<or> raw_segments ! 2 \<notin> {''platform'', ''tenants'', ''*'', ''**''}
     then Inl InvalidPattern
     else compile_segments raw_segments)"

fun segments_match :: "compiled_pattern \<Rightarrow> string list \<Rightarrow> bool" where
  "segments_match [] path = (path = [])"
| "segments_match (Remainder # _) path = True"
| "segments_match (One # ps) path =
     (case path of [] \<Rightarrow> False | _ # xs \<Rightarrow> segments_match ps xs)"
| "segments_match (Literal expected # ps) path =
     (case path of [] \<Rightarrow> False | actual # xs \<Rightarrow> actual = expected \<and> segments_match ps xs)"

definition pattern_matches :: "compiled_pattern \<Rightarrow> canonical_control_path \<Rightarrow> bool" where
  "pattern_matches p path = segments_match p (cp_segments path)"

fun pattern_covers :: "compiled_pattern \<Rightarrow> compiled_pattern \<Rightarrow> bool" where
  "pattern_covers [] other = (other = [])"
| "pattern_covers (segment # ps) [] = (segment = Remainder)"
| "pattern_covers (segment # ps) (other_segment # qs) =
     (case (segment, other_segment) of
        (Remainder, _) \<Rightarrow> True
      | (One, Literal _) \<Rightarrow> pattern_covers ps qs
      | (One, One) \<Rightarrow> pattern_covers ps qs
      | (Literal left, Literal right) \<Rightarrow> left = right \<and> pattern_covers ps qs
      | _ \<Rightarrow> False)"

fun pattern_overlaps :: "compiled_pattern \<Rightarrow> compiled_pattern \<Rightarrow> bool" where
  "pattern_overlaps (Remainder # _) _ = True"
| "pattern_overlaps _ (Remainder # _) = True"
| "pattern_overlaps (p # ps) (q # qs) =
     (case (p, q) of
        (Literal left, Literal right) \<Rightarrow>
          (if left \<noteq> right then False else pattern_overlaps ps qs)
      | _ \<Rightarrow> pattern_overlaps ps qs)"
| "pattern_overlaps [] [] = True"
| "pattern_overlaps _ _ = False"

fun pattern_intersection :: "compiled_pattern \<Rightarrow> compiled_pattern \<Rightarrow> compiled_pattern option" where
  "pattern_intersection (Remainder # _) (q # qs) = Some (q # qs)"
| "pattern_intersection (p # ps) (Remainder # _) = Some (p # ps)"
| "pattern_intersection (Literal left # ps) (Literal right # qs) =
     (if left \<noteq> right then None
      else map_option ((#) (Literal left)) (pattern_intersection ps qs))"
| "pattern_intersection (Literal v # ps) (One # qs) =
     map_option ((#) (Literal v)) (pattern_intersection ps qs)"
| "pattern_intersection (One # ps) (Literal v # qs) =
     map_option ((#) (Literal v)) (pattern_intersection ps qs)"
| "pattern_intersection (One # ps) (One # qs) =
     map_option ((#) One) (pattern_intersection ps qs)"
| "pattern_intersection [] [] = Some []"
| "pattern_intersection [] (Remainder # _) = Some []"
| "pattern_intersection (Remainder # _) [] = Some []"
| "pattern_intersection [] (_ # _) = None"
| "pattern_intersection (_ # _) [] = None"

section \<open>What canonicalization establishes\<close>

definition plain_segment :: "string \<Rightarrow> bool" where
  "plain_segment s \<longleftrightarrow>
     s \<noteq> [] \<and> s \<noteq> ''.'' \<and> s \<noteq> ''..'' \<and> CHR ''/'' \<notin> set s \<and> CHR ''%'' \<notin> set s
     \<and> CHR 0x5C \<notin> set s"

lemma set_split_on: "w \<in> set (split_on d cs) \<Longrightarrow> set w \<subseteq> set cs"
proof (induction cs arbitrary: w)
  case (Cons c cs)
  obtain v vs where v: "split_on d cs = v # vs"
    by (cases "split_on d cs") auto
  have "set v \<subseteq> set cs" by (rule Cons.IH) (simp add: v)
  moreover have "set u \<subseteq> set cs" if "u \<in> set vs" for u
    using Cons.IH [of u] that by (simp add: v)
  ultimately show ?case using Cons.prems v by (auto split: if_splits)
qed simp

lemma split_on_empty_piece:
  assumes "[] \<in> set (split_on d cs)"
  shows "cs = [] \<or> starts_with [d] cs \<or> ends_with [d] cs \<or> contains_str [d, d] cs"
proof -
  obtain us vs where uv: "split_on d cs = us @ [] # vs"
    using assms by (metis split_list)
  have "cs = join_with d (us @ [] # vs)" by (metis join_split uv)
  moreover have "join_with d (us @ [] # vs) = [] \<or> starts_with [d] (join_with d (us @ [] # vs))
      \<or> ends_with [d] (join_with d (us @ [] # vs)) \<or> contains_str [d, d] (join_with d (us @ [] # vs))"
  proof (induction us)
    case Nil
    show ?case by (cases vs) auto
  next
    case (Cons u us)
    obtain w ws where w: "us @ [] # vs = w # ws" by (cases "us @ [] # vs") auto
    let ?rest = "join_with d (w # ws)"
    have eq: "join_with d ((u # us) @ [] # vs) = u @ d # ?rest" using w by simp
    from Cons.IH consider "?rest = []" | "starts_with [d] ?rest" | "ends_with [d] ?rest"
      | "contains_str [d, d] ?rest" by (auto simp: w)
    then show ?case
    proof cases
      case 1
      then show ?thesis unfolding eq by (auto simp: ends_with_iff)
    next
      case 2
      then obtain t where "?rest = d # t" by auto
      then have "contains_str [d, d] (u @ d # ?rest)" unfolding contains_str_iff by fastforce
      then show ?thesis unfolding eq by blast
    next
      case 3
      then obtain t where "?rest = t @ [d]" by (auto simp: ends_with_iff)
      then have "u @ d # ?rest = (u @ d # t) @ [d]" by simp
      then show ?thesis unfolding eq ends_with_iff by blast
    next
      case 4
      then obtain a b where "?rest = a @ [d, d] @ b" by (auto simp: contains_str_iff)
      then have "u @ d # ?rest = (u @ d # a) @ [d, d] @ b" by simp
      then show ?thesis unfolding eq contains_str_iff by blast
    qed
  qed
  ultimately show ?thesis by simp
qed

text \<open>An accepted absolute path longer than \<open>/\<close> is exactly its list of plain segments.\<close>

lemma unambiguous_segments:
  assumes "validate_unambiguous_path path = Inr ()" and "path \<noteq> ''/''"
  shows "path = CHR ''/'' # join_with CHR ''/'' (split_on CHR ''/'' (drop 1 path))"
    and "\<forall>s \<in> set (split_on CHR ''/'' (drop 1 path)). plain_segment s"
proof -
  from assms(1) obtain t where t: "path = CHR ''/'' # t"
    and noperc: "CHR ''%'' \<notin> set path" and nobs: "CHR 0x5C \<notin> set path"
    and nodbl: "\<not> contains_str ''//'' path"
    and notrail: "\<not> (1 < length path \<and> ends_with ''/'' path)"
    and nodot: "\<not> list_ex (\<lambda>s. s = ''.'' \<or> s = ''..'') (split_on CHR ''/'' (drop 1 path))"
    by (auto simp: validate_unambiguous_path_def split: if_splits)
  show "path = CHR ''/'' # join_with CHR ''/'' (split_on CHR ''/'' (drop 1 path))"
    by (simp add: t string_simps)
  have tne: "t \<noteq> []" using assms(2) t by simp
  show "\<forall>s \<in> set (split_on CHR ''/'' (drop 1 path)). plain_segment s"
  proof
    fix s assume s: "s \<in> set (split_on CHR ''/'' (drop 1 path))"
    then have "set s \<subseteq> set t" using set_split_on t by force
    moreover have "CHR ''/'' \<notin> set s" using s split_on_no_delim by metis
    moreover have "s \<noteq> []"
    proof
      assume "s = []"
      with s t have "[] \<in> set (split_on CHR ''/'' t)" by simp
      from split_on_empty_piece [OF this] tne
      consider "starts_with ''/'' t" | "ends_with ''/'' t" | "contains_str ''//'' t" by auto
      then show False
      proof cases
        case 1
        then have "contains_str ''//'' path" by (auto simp: t starts_with_def)
        with nodbl show False by simp
      next
        case 2
        then obtain v where "t = v @ ''/''" by (auto simp: ends_with_iff)
        then have "ends_with ''/'' path" unfolding t ends_with_iff by (metis append_Cons)
        with notrail tne show False by (simp add: t)
      next
        case 3
        then have "contains_str ''//'' path" by (simp add: t)
        with nodbl show False by simp
      qed
    qed
    moreover have "s \<noteq> ''.''" "s \<noteq> ''..''" using nodot s by (auto simp: list_ex_iff)
    ultimately show "plain_segment s"
      using noperc nobs by (auto simp: plain_segment_def t)
  qed
qed


definition canonical_segments :: "string list \<Rightarrow> bool" where
  "canonical_segments segs \<longleftrightarrow>
     3 \<le> length segs \<and> segs ! 0 = ''_control'' \<and> segs ! 1 = ''v1''
     \<and> (segs ! 2 = ''platform'' \<or> segs ! 2 = ''tenants'') \<and> (\<forall>s \<in> set segs. plain_segment s)"

lemma canonicalize_Inr_D:
  assumes "canonicalize_control_path raw root = Inr p"
  shows "strip_application_root raw root = Inr (cp_value p)"
    and "validate_unambiguous_path (cp_value p) = Inr ()"
    and "cp_segments p = split_on CHR ''/'' (drop 1 (cp_value p))"
    and "cp_value p = CHR ''/'' # join_with CHR ''/'' (cp_segments p)"
    and "canonical_segments (cp_segments p)"
    and "valid_utf8 raw"
proof -
  from assms show un: "validate_unambiguous_path (cp_value p) = Inr ()"
    and "strip_application_root raw root = Inr (cp_value p)"
    and segs: "cp_segments p = split_on CHR ''/'' (drop 1 (cp_value p))"
    and "valid_utf8 raw"
    by (auto simp: canonicalize_control_path_def result_simps Let_def)
  from assms have h: "validate_hierarchy (cp_segments p) = Inr ()"
    by (auto simp: canonicalize_control_path_def result_simps Let_def)
  have "cp_value p \<noteq> ''/''"
  proof
    assume "cp_value p = ''/''"
    with segs have "cp_segments p = [[]]" by simp
    with h show False by (simp add: validate_hierarchy_def)
  qed
  note u = unambiguous_segments [OF un this, folded segs]
  show "cp_value p = CHR ''/'' # join_with CHR ''/'' (cp_segments p)" by (rule u(1))
  show "canonical_segments (cp_segments p)"
    using h u(2) by (auto simp: validate_hierarchy_def canonical_segments_def not_less split: if_splits)
qed

lemma canonical_value_eq_iff:
  assumes "canonicalize_control_path raw root = Inr p" "canonicalize_control_path raw' root' = Inr q"
  shows "cp_value p = cp_value q \<longleftrightarrow> cp_segments p = cp_segments q"
  using canonicalize_Inr_D(3,4) [OF assms(1)] canonicalize_Inr_D(3,4) [OF assms(2)] by metis

lemma canonicalize_root_only: "canonicalize_control_path raw [] = Inr p \<Longrightarrow> cp_value p = raw"
  by (drule canonicalize_Inr_D(1)) (simp add: strip_application_root_def)

text \<open>What is left after the application root is still valid UTF-8.\<close>

lemma canonical_utf8:
  assumes "canonicalize_control_path raw root = Inr p"
  shows "valid_utf8 (cp_value p)"
proof -
  note d = canonicalize_Inr_D [OF assms]
  from d(1) consider "cp_value p = raw" | "raw = root @ cp_value p"
    by (auto simp: strip_application_root_def string_simps split: if_splits option.splits)
  then show ?thesis
  proof cases
    case 2
    obtain t where t: "cp_value p = CHR ''/'' # t" using d(4) by blast
    have "utf8_bytes (map of_char root @ of_char (CHR ''/'') # map of_char t)"
      using d(6) 2 t by (simp add: valid_utf8_def)
    from utf8_bytes_cut [OF this] have "utf8_bytes (map of_char t)" by simp
    then show ?thesis
      using utf8_bytes.simps [of "47 # map of_char t"] by (simp add: t valid_utf8_def utf8_step_def)
  qed (use d(6) in simp)
qed

text \<open>Re-canonicalizing what was accepted changes nothing.\<close>

lemma canonicalize_idem:
  assumes "canonicalize_control_path raw root = Inr p"
  shows "canonicalize_control_path (cp_value p) [] = Inr p"
proof -
  note d = canonicalize_Inr_D [OF assms(1)]
  have "validate_hierarchy (cp_segments p) = Inr ()"
    using d(5) by (auto simp: validate_hierarchy_def canonical_segments_def)
  with canonical_utf8 [OF assms] d(2,3) show ?thesis
    by (simp add: canonicalize_control_path_def strip_application_root_def Let_def)
qed

section \<open>The pattern algebra\<close>

text \<open>A compiled pattern holds the remainder wildcard at its end at most.\<close>

fun wf_pattern :: "compiled_pattern \<Rightarrow> bool" where
  "wf_pattern [] = True"
| "wf_pattern (Remainder # ps) = (ps = [])"
| "wf_pattern (_ # ps) = wf_pattern ps"

lemma compile_segments_wf: "compile_segments segs = Inr p \<Longrightarrow> wf_pattern p"
  by (induction segs arbitrary: p) (auto simp: result_simps split: if_splits)

lemma compile_pattern_wf: "compile_pattern pattern = Inr p \<Longrightarrow> wf_pattern p"
  by (auto simp: compile_pattern_def result_simps Let_def dest: compile_segments_wf split: if_splits)

lemma compile_segments_length: "compile_segments segs = Inr p \<Longrightarrow> length p = length segs"
  by (induction segs arbitrary: p) (auto simp: result_simps split: if_splits)

fun sample_path :: "compiled_pattern \<Rightarrow> string list" where
  "sample_path [] = []"
| "sample_path (Remainder # ps) = []"
| "sample_path (One # ps) = ''x'' # sample_path ps"
| "sample_path (Literal s # ps) = s # sample_path ps"

lemma sample_path_matches: "segments_match p (sample_path p)"
  by (induction p rule: sample_path.induct) auto

lemma covers_sound:
  "pattern_covers p q \<Longrightarrow> segments_match q path \<Longrightarrow> wf_pattern q \<Longrightarrow> segments_match p path"
proof (induction p q arbitrary: path rule: pattern_covers.induct)
  case (3 segment ps other_segment qs)
  then show ?case
    by (cases segment; cases other_segment) (auto split: list.splits)
qed (auto split: list.splits)

lemma covers_complete:
  assumes "wf_pattern p" "wf_pattern q" "\<forall>path. segments_match q path \<longrightarrow> segments_match p path"
  shows "pattern_covers p q"
  using assms
proof (induction p arbitrary: q)
  case Nil
  show ?case
  proof (cases q)
    case (Cons a qs)
    have "sample_path q = []"
      using Nil.prems(3) sample_path_matches [of q] by simp
    with Cons have "a = Remainder" by (cases a) auto
    with Cons have "segments_match q [''x'']" by simp
    with Nil.prems(3) show ?thesis by fastforce
  qed simp
next
  case (Cons segment ps)
  note prems = Cons.prems and IH = Cons.IH
  show ?case
  proof (cases q)
    case Nil
    then have "segments_match (segment # ps) []" using prems(3) by simp
    with Nil show ?thesis by (cases segment) auto
  next
  case (Cons other_segment qs)
  note [simp] = Cons
  show ?thesis
  proof (cases "segment = Remainder")
    case False
    have tails: "segments_match ps xs" if "segments_match qs xs" "other_segment \<noteq> Remainder" for xs
    proof (cases other_segment)
      case (Literal l)
      with that prems(3) have "segments_match (segment # ps) (l # xs)" by simp
      with False show ?thesis by (cases segment) auto
    next
      case One
      with that prems(3) have "segments_match (segment # ps) (s # xs)" for s by simp
      with False show ?thesis by (cases segment) auto
    qed (use that in simp)
    have "other_segment \<noteq> Remainder"
    proof
      assume "other_segment = Remainder"
      then have "segments_match (segment # ps) []" using prems(3) by simp
      with False show False by (cases segment) auto
    qed
    then have lit: "l = r" if "segment = Literal l" "other_segment = Literal r" for l r
    proof -
      have "segments_match (segment # ps) (r # sample_path qs)"
        using spec [OF prems(3), of "r # sample_path qs"] sample_path_matches [of qs] that by simp
      with that show ?thesis by simp
    qed
    have lone: False if "segment = Literal l" "other_segment = One" for l
    proof -
      have "segments_match (segment # ps) ((l @ ''x'') # sample_path qs)"
        using spec [OF prems(3), of "(l @ ''x'') # sample_path qs"] sample_path_matches [of qs] that
        by simp
      with that show False by simp
    qed
    have wf: "wf_pattern ps" "wf_pattern qs"
      using prems(1,2) False \<open>other_segment \<noteq> Remainder\<close>
      by (cases segment; cases other_segment; simp)+
    have all: "\<forall>xs. segments_match qs xs \<longrightarrow> segments_match ps xs"
      using tails \<open>other_segment \<noteq> Remainder\<close> by blast
    have tail: "pattern_covers ps qs" by (rule IH [OF wf all])
    show ?thesis
    proof (cases segment)
      case (Literal l)
      then obtain r where r: "other_segment = Literal r"
        using lone [OF Literal] \<open>other_segment \<noteq> Remainder\<close> by (cases other_segment) blast+
      then have "l = r" by (rule lit [OF Literal])
      with Literal r tail show ?thesis by simp
    next
      case One
      with tail \<open>other_segment \<noteq> Remainder\<close> show ?thesis by (cases other_segment) simp_all
    qed simp
  qed simp
  qed
qed

lemma covers_iff_inclusion:
  assumes "wf_pattern p" "wf_pattern q"
  shows "pattern_covers p q \<longleftrightarrow> (\<forall>path. segments_match q path \<longrightarrow> segments_match p path)"
  using covers_sound covers_complete assms by blast

lemma intersection_Some:
  assumes "pattern_intersection p q = Some r" "wf_pattern p" "wf_pattern q"
  shows "wf_pattern r \<and> (\<forall>path. segments_match r path \<longleftrightarrow> segments_match p path \<and> segments_match q path)"
  using assms
proof (induction p q arbitrary: r rule: pattern_intersection.induct)
qed (auto split: list.splits if_splits)

lemma intersection_None:
  assumes "pattern_intersection p q = None" "wf_pattern p" "wf_pattern q"
  shows "\<not> (segments_match p path \<and> segments_match q path)"
  using assms
proof (induction p q arbitrary: path rule: pattern_intersection.induct)
qed (auto split: list.splits if_splits)

lemma overlaps_iff_intersection:
  assumes "wf_pattern p" "wf_pattern q"
  shows "pattern_overlaps p q \<longleftrightarrow> pattern_intersection p q \<noteq> None"
  using assms
proof (induction p q rule: pattern_intersection.induct)
qed (auto split: if_splits)

lemma overlaps_iff_common_path:
  assumes "wf_pattern p" "wf_pattern q"
  shows "pattern_overlaps p q \<longleftrightarrow> (\<exists>path. segments_match p path \<and> segments_match q path)"
proof (cases "pattern_intersection p q")
  case None
  then show ?thesis
    using overlaps_iff_intersection [OF assms] intersection_None [OF _ assms] by auto
next
  case (Some r)
  then show ?thesis
    using overlaps_iff_intersection [OF assms] intersection_Some [OF _ assms] sample_path_matches
    by (metis option.discI)
qed


section \<open>The contract the delegation checks rely on\<close>

locale pattern_language =
  fixes wf :: "'p \<Rightarrow> bool"
    and matches :: "'p \<Rightarrow> 'x \<Rightarrow> bool"
    and covers :: "'p \<Rightarrow> 'p \<Rightarrow> bool"
    and overlaps :: "'p \<Rightarrow> 'p \<Rightarrow> bool"
    and meet :: "'p \<Rightarrow> 'p \<Rightarrow> 'p option"
  assumes covers_iff: "wf p \<Longrightarrow> wf q \<Longrightarrow> covers p q \<longleftrightarrow> (\<forall>x. matches q x \<longrightarrow> matches p x)"
    and overlaps_iff: "wf p \<Longrightarrow> wf q \<Longrightarrow> overlaps p q \<longleftrightarrow> (\<exists>x. matches p x \<and> matches q x)"
    and meet_wf: "wf p \<Longrightarrow> wf q \<Longrightarrow> meet p q = Some r \<Longrightarrow> wf r"
    and meet_Some: "wf p \<Longrightarrow> wf q \<Longrightarrow> meet p q = Some r \<Longrightarrow>
      matches r x \<longleftrightarrow> matches p x \<and> matches q x"
    and meet_None: "wf p \<Longrightarrow> wf q \<Longrightarrow> meet p q = None \<Longrightarrow> \<not> (matches p x \<and> matches q x)"
begin

lemma covers_matches: "covers p q \<Longrightarrow> wf p \<Longrightarrow> wf q \<Longrightarrow> matches q x \<Longrightarrow> matches p x"
  by (simp add: covers_iff)

lemma covers_refl: "wf p \<Longrightarrow> covers p p"
  by (simp add: covers_iff)

lemma covers_trans: "covers p q \<Longrightarrow> covers q r \<Longrightarrow> wf p \<Longrightarrow> wf q \<Longrightarrow> wf r \<Longrightarrow> covers p r"
  by (simp add: covers_iff)

lemma meet_exists:
  assumes "wf p" "wf q" "matches p x" "matches q x"
  obtains r where "meet p q = Some r" "wf r" "matches r x"
proof (cases "meet p q")
  case None
  from meet_None [OF assms(1,2) this] assms(3,4) show ?thesis by blast
next
  case (Some r)
  with that meet_wf [OF assms(1,2) Some] meet_Some [OF assms(1,2) Some] assms(3,4)
  show ?thesis by blast
qed

lemma meet_covered:
  assumes "wf p" "wf q" "meet p q = Some r"
  shows "covers p r \<and> covers q r"
proof -
  have "wf r" by (rule meet_wf [OF assms])
  with assms(1,2) meet_Some [OF assms] show ?thesis by (simp add: covers_iff)
qed

text \<open>A path in a denied region and in a candidate is reported by the overlap test.\<close>

lemma reached_is_reported:
  assumes "wf d" "wf e" "wf q" "matches d x" "matches e x" "matches q x"
  shows "\<exists>r. meet d e = Some r \<and> overlaps r q"
proof -
  obtain r where r: "meet d e = Some r" "wf r" "matches r x"
    by (rule meet_exists [OF assms(1,2,4,5)])
  have "overlaps r q" unfolding overlaps_iff [OF r(2) assms(3)] using r(3) assms(6) by blast
  with r(1) show ?thesis by blast
qed

end

interpretation admin_pattern: pattern_language wf_pattern segments_match pattern_covers
    pattern_overlaps pattern_intersection
proof unfold_locales
  fix p q r :: compiled_pattern and x :: "string list"
  assume wf: "wf_pattern p" "wf_pattern q"
  show "pattern_covers p q \<longleftrightarrow> (\<forall>x. segments_match q x \<longrightarrow> segments_match p x)"
    by (rule covers_iff_inclusion [OF wf])
  show "pattern_overlaps p q \<longleftrightarrow> (\<exists>x. segments_match p x \<and> segments_match q x)"
    by (rule overlaps_iff_common_path [OF wf])
  show "\<not> (segments_match p x \<and> segments_match q x)" if "pattern_intersection p q = None"
    by (rule intersection_None [OF that wf])
  assume "pattern_intersection p q = Some r"
  note r = intersection_Some [OF this wf]
  from r show "wf_pattern r" by blast
  from r show "segments_match r x \<longleftrightarrow> segments_match p x \<and> segments_match q x" by blast
qed


section \<open>Properties\<close>

text \<open>
  Canonicalization accepts a raw request path only when it is one unambiguous spelling: what
  is left after the application root is the absolute path of its plain segments (none empty, a dot
  segment, or holding an escape, a backslash or a separator), in the hierarchy
  \<open>/_control/v1/platform\<close> or \<open>/_control/v1/tenants\<close>; canonicalizing the result again
  gives the result.
\<close>

lemma canonical_path_is_unambiguous:
  assumes "canonicalize_control_path raw root = Inr p"
  shows "strip_application_root raw root = Inr (cp_value p)
    \<and> cp_value p = CHR ''/'' # join_with CHR ''/'' (cp_segments p)
    \<and> canonical_segments (cp_segments p)
    \<and> canonicalize_control_path (cp_value p) [] = Inr p"
  using canonicalize_Inr_D [OF assms] canonicalize_idem [OF assms] by blast

lemma canonical_path_is_unambiguous_example:
  "strip_application_root ''/app/_control/v1/tenants/acme'' ''/app'' = Inr ''/_control/v1/tenants/acme''
   \<and> canonicalize_control_path ''/_control/v1/tenants/acme'' []
     = Inr \<lparr>cp_value = ''/_control/v1/tenants/acme'',
            cp_segments = [''_control'', ''v1'', ''tenants'', ''acme'']\<rparr>"
proof -
  have "canonicalize_control_path ''/app/_control/v1/tenants/acme'' ''/app''
     = Inr \<lparr>cp_value = ''/_control/v1/tenants/acme'',
            cp_segments = [''_control'', ''v1'', ''tenants'', ''acme'']\<rparr>"
    by code_simp
  from canonical_path_is_unambiguous [OF this] show ?thesis by simp
qed

text \<open>
  C32. The three structural tests on compiled patterns decide the sets of paths the patterns
  match: \<open>covers\<close> is inclusion, \<open>overlaps\<close> is having a common path, and
  \<open>intersection\<close> is a pattern for exactly the common paths, or nothing when there are none.
\<close>

theorem pattern_algebra_is_exact:
  assumes "compile_pattern s = Inr p" "compile_pattern t = Inr q"
  shows "pattern_covers p q = (\<forall>path. segments_match q path \<longrightarrow> segments_match p path)
    \<and> pattern_overlaps p q = (\<exists>path. segments_match p path \<and> segments_match q path)
    \<and> (case pattern_intersection p q of
         None \<Rightarrow> \<forall>path. \<not> (segments_match p path \<and> segments_match q path)
       | Some r \<Rightarrow> \<forall>path. segments_match r path = (segments_match p path \<and> segments_match q path))"
proof -
  note wf = compile_pattern_wf [OF assms(1)] compile_pattern_wf [OF assms(2)]
  show ?thesis
    using admin_pattern.covers_iff [OF wf] admin_pattern.overlaps_iff [OF wf]
      admin_pattern.meet_Some [OF wf] admin_pattern.meet_None [OF wf]
    by (simp split: option.split)
qed

theorem pattern_algebra_is_exact_witness:
  "\<exists>p q. compile_pattern ''/_control/v1/tenants/*/catalogs'' = Inr p
     \<and> compile_pattern ''/_control/v1/tenants/acme/**'' = Inr q
     \<and> pattern_overlaps p q
     \<and> (\<exists>path. segments_match p path \<and> segments_match q path)"
proof -
  let ?p = "[Literal ''_control'', Literal ''v1'', Literal ''tenants'', One, Literal ''catalogs'']"
  let ?q = "[Literal ''_control'', Literal ''v1'', Literal ''tenants'', Literal ''acme'', Remainder]"
  have c: "compile_pattern ''/_control/v1/tenants/*/catalogs'' = Inr ?p"
    "compile_pattern ''/_control/v1/tenants/acme/**'' = Inr ?q" by code_simp+
  have "pattern_overlaps ?p ?q" by simp
  with pattern_algebra_is_exact [OF c] c show ?thesis by blast
qed

end
