(* ===== verification/Control_Path.thy ===== *)
theory Control_Path
  imports Admin_Path
begin

text \<open>
  \<open>crates/tellurion-core/src/control_path.rs\<close>: the decoding of request paths and the
  second pattern language, the one of the server's request checkpoint. The last section
  relates the two languages: a pattern that the delegation side compiles means the same
  paths to the checkpoint, and an accepted canonical path decodes to its own segments.
\<close>

section \<open>Percent-decoding\<close>

text \<open>\<open>(byte as char).to_digit(16)\<close>.\<close>

definition hex_digit :: "char \<Rightarrow> nat option" where
  "hex_digit c =
     (let n = of_char c :: nat in
      if 48 \<le> n \<and> n \<le> 57 then Some (n - 48)
      else if 65 \<le> n \<and> n \<le> 70 then Some (n - 55)
      else if 97 \<le> n \<and> n \<le> 102 then Some (n - 87)
      else None)"

definition hex_pair :: "string \<Rightarrow> char option" where
  "hex_pair s =
     (case s of
        h # l # _ \<Rightarrow>
          (case (hex_digit h, hex_digit l) of
             (Some high, Some low) \<Rightarrow> Some (char_of (16 * high + low))
           | _ \<Rightarrow> None)
      | _ \<Rightarrow> None)"

fun percent_decode :: "string \<Rightarrow> string" where
  "percent_decode [] = []"
| "percent_decode (c # cs) =
     (case (if c = CHR ''%'' then hex_pair cs else None) of
        Some b \<Rightarrow> b # percent_decode (drop 2 cs)
      | None \<Rightarrow> c # percent_decode cs)"

definition decode_segment :: "string \<Rightarrow> string option" where
  "decode_segment raw_segment =
     (let decoded = percent_decode raw_segment in
      if valid_utf8 decoded then Some decoded else None)"

fun all_some :: "'a option list \<Rightarrow> 'a list option" where
  "all_some [] = Some []"
| "all_some (x # xs) =
     (case x of None \<Rightarrow> None | Some a \<Rightarrow> map_option ((#) a) (all_some xs))"

definition decoded_segments :: "string \<Rightarrow> string list option" where
  "decoded_segments raw_path =
     (let trimmed = (case strip_prefix ''/'' raw_path of Some t \<Rightarrow> t | None \<Rightarrow> raw_path) in
      if trimmed = [] then Some []
      else all_some (map decode_segment (split_on CHR ''/'' trimmed)))"

section \<open>Checkpoint patterns\<close>

datatype checkpoint_segment = CLiteral string | AnySegment | AnySuffix

type_synonym path_pattern = "checkpoint_segment list"

text \<open>Why a declared pattern is refused.\<close>

datatype path_pattern_error =
    PatternNotAbsolute string
  | PatternEmptySegment string
  | PatternDotSegment string
  | PatternSuffixNotLast string
  | PatternMixedWildcard string string

fun path_pattern_segments ::
  "string \<Rightarrow> string list \<Rightarrow> path_pattern_error + path_pattern" where
  "path_pattern_segments pattern [] = Inr []"
| "path_pattern_segments pattern (raw_segment # rest) =
     and_then
       (if raw_segment = [] then Inl (PatternEmptySegment pattern)
        else if raw_segment = ''.'' \<or> raw_segment = ''..'' then Inl (PatternDotSegment pattern)
        else if raw_segment = ''*'' then Inr AnySegment
        else if raw_segment = ''**'' then
          (if rest \<noteq> [] then Inl (PatternSuffixNotLast pattern) else Inr AnySuffix)
        else if contains_str ''*'' raw_segment then Inl (PatternMixedWildcard pattern raw_segment)
        else Inr (CLiteral raw_segment))
       (\<lambda>compiled. and_then (path_pattern_segments pattern rest) (\<lambda>cs. Inr (compiled # cs)))"

definition path_pattern_compile :: "string \<Rightarrow> path_pattern_error + path_pattern" where
  "path_pattern_compile pattern =
     (case strip_prefix ''/'' pattern of
        None \<Rightarrow> Inl (PatternNotAbsolute pattern)
      | Some body \<Rightarrow>
          (if body = [] then Inr []
           else path_pattern_segments pattern (split_on CHR ''/'' body)))"

fun path_pattern_matches :: "path_pattern \<Rightarrow> string list \<Rightarrow> bool" where
  "path_pattern_matches [] path = (path = [])"
| "path_pattern_matches (AnySuffix # _) path = True"
| "path_pattern_matches (AnySegment # ps) path =
     (case path of [] \<Rightarrow> False | _ # xs \<Rightarrow> path_pattern_matches ps xs)"
| "path_pattern_matches (CLiteral literal # ps) path =
     (case path of [] \<Rightarrow> False | actual # xs \<Rightarrow> actual = literal \<and> path_pattern_matches ps xs)"

section \<open>Properties of decoding\<close>

lemma percent_decode_id: "CHR ''%'' \<notin> set s \<Longrightarrow> percent_decode s = s"
  by (induction s rule: percent_decode.induct) auto

lemma all_some_length: "all_some xs = Some ys \<Longrightarrow> length ys = length xs"
  by (induction xs arbitrary: ys) (auto split: option.splits)

lemma all_some_map: "(\<And>x. x \<in> set xs \<Longrightarrow> f x = Some x) \<Longrightarrow> all_some (map f xs) = Some xs"
  by (induction xs) auto

text \<open>An escape never adds a segment: the raw path alone fixes how many there are.\<close>

lemma decoded_segments_length:
  assumes "decoded_segments (CHR ''/'' # t) = Some segs" "t \<noteq> []"
  shows "length segs = length (split_on CHR ''/'' t)"
  using assms by (auto simp: decoded_segments_def strip_prefix_def starts_with_def dest!: all_some_length)

section \<open>The two languages agree\<close>

fun to_checkpoint :: "pattern_segment \<Rightarrow> checkpoint_segment" where
  "to_checkpoint (Literal s) = CLiteral s"
| "to_checkpoint One = AnySegment"
| "to_checkpoint Remainder = AnySuffix"

lemma checkpoint_segments_agree:
  assumes "compile_segments segs = Inr p" "\<forall>s \<in> set segs. plain_segment s"
  shows "path_pattern_segments pattern segs = Inr (map to_checkpoint p)"
  using assms
  by (induction segs arbitrary: p) (auto simp: result_simps plain_segment_def split: if_splits)

lemma checkpoint_matches_agree:
  "path_pattern_matches (map to_checkpoint p) path = segments_match p path"
  by (induction p path rule: segments_match.induct) (auto split: list.splits)

lemma compile_pattern_agree:
  assumes "compile_pattern pattern = Inr p"
  shows "path_pattern_compile pattern = Inr (map to_checkpoint p)"
proof -
  from assms have un: "validate_unambiguous_path pattern = Inr ()"
    and len: "3 \<le> length (split_on CHR ''/'' (drop 1 pattern))"
    and segs: "compile_segments (split_on CHR ''/'' (drop 1 pattern)) = Inr p"
    by (auto simp: compile_pattern_def result_simps Let_def split: if_splits)
  have ne: "pattern \<noteq> ''/''" using len by auto
  note plain = unambiguous_segments [OF un ne]
  from plain(1) obtain t where t: "pattern = CHR ''/'' # t" by blast
  with ne have "t \<noteq> []" by simp
  with t checkpoint_segments_agree [OF segs plain(2)] show ?thesis
    by (simp add: path_pattern_compile_def strip_prefix_def starts_with_def)
qed

lemma decoded_canonical:
  assumes "canonicalize_control_path raw root = Inr p"
  shows "decoded_segments (cp_value p) = Some (cp_segments p)"
proof -
  note d = canonicalize_Inr_D [OF assms(1)]
  let ?t = "join_with CHR ''/'' (cp_segments p)"
  have val: "cp_value p = CHR ''/'' # ?t" by (rule d(4))
  have segs: "cp_segments p = split_on CHR ''/'' ?t"
    using d(3) val by simp
  have tne: "?t \<noteq> []"
    using d(5) segs by (auto simp: canonical_segments_def)
  have "valid_utf8 ?t"
    using canonical_utf8 [OF assms] utf8_bytes_cut [of "[]" 47 "map of_char ?t"]
    by (simp add: val valid_utf8_def)
  then have "decode_segment s = Some s" if "s \<in> set (cp_segments p)" for s
    using valid_utf8_split_on [of ?t "CHR ''/''" s] that d(5) segs
    by (auto simp: decode_segment_def percent_decode_id canonical_segments_def plain_segment_def)
  then have "all_some (map decode_segment (cp_segments p)) = Some (cp_segments p)"
    by (rule all_some_map)
  with tne segs show ?thesis
    by (simp add: decoded_segments_def val strip_prefix_def starts_with_def)
qed


section \<open>Properties\<close>

text \<open>
  The request checkpoint and the delegation checks read one policy the same way: a pattern the
  delegation side compiles is also accepted by the checkpoint's compiler, an accepted canonical
  path decodes to its own segments, and the two matchers give the same answer on it.
\<close>

lemma two_pattern_engines_agree:
  assumes "compile_pattern pattern = Inr p" "canonicalize_control_path raw root = Inr path"
  shows "\<exists>q segs. path_pattern_compile pattern = Inr q
    \<and> decoded_segments (cp_value path) = Some segs
    \<and> path_pattern_matches q segs = pattern_matches p path"
  using compile_pattern_agree [OF assms(1)] decoded_canonical [OF assms(2)]
  by (simp add: checkpoint_matches_agree pattern_matches_def)

lemma two_pattern_engines_agree_example:
  "\<exists>q segs. path_pattern_compile ''/_control/v1/tenants/*/settings'' = Inr q
    \<and> decoded_segments ''/_control/v1/tenants/acme/settings'' = Some segs
    \<and> path_pattern_matches q segs"
proof -
  have c: "compile_pattern ''/_control/v1/tenants/*/settings''
      = Inr [Literal ''_control'', Literal ''v1'', Literal ''tenants'', One, Literal ''settings'']"
    and p: "canonicalize_control_path ''/_control/v1/tenants/acme/settings'' []
      = Inr \<lparr>cp_value = ''/_control/v1/tenants/acme/settings'',
             cp_segments = [''_control'', ''v1'', ''tenants'', ''acme'', ''settings'']\<rparr>"
    by code_simp+
  from two_pattern_engines_agree [OF c p] show ?thesis
    by (simp add: pattern_matches_def)
qed

end
