(* ===== verification/App_Config.thy ===== *)
theory App_Config
  imports Prelude
begin

text \<open>
  The declarations of \<open>crates/tellurion-core/src/config.rs\<close> that the control plane edits
  and reads: tenants, catalogs, collections, their settings, profiles, storages, bearer tokens,
  trusted issuers and policy roles; and \<open>AppConfig::validate\<close>, the referential checks over
  the whole document. The type parameter \<open>'x\<close> is the content of the fields that no modelled
  operation looks into (it is only stored, copied and compared). The record \<open>config_env\<close>
  collects the checks of \<open>validate\<close> that are not modelled here (server and cache numbers, URL
  syntax, metadata blocks, colour maps, tile and 3D shapes, grants, webhooks) as predicates.
\<close>

section \<open>Declarations\<close>

record admission_decl =
  ad_queue_capacity :: "u32 option"
  ad_queue_deadline_ms :: "u64 option"
  ad_weight :: "u32 option"

record batch_decl =
  ba_max_bytes :: "u64 option"
  ba_max_items :: "u64 option"
  ba_chunk_items :: "u32 option"

record 'x settings_decl =
  set_tile_caps :: "'x option"
  set_cache_ttl_s :: "u64 option"
  set_slow_request_ms :: "u64 option"
  set_stac :: "'x option"
  set_tile_properties :: "string list option"
  set_colormap :: "'x option"
  set_max_request_body_bytes :: "u64 option"
  set_tile_vertex_budget :: "u64 option"
  set_items_vertex_budget :: "u64 option"
  set_page_max_bytes :: "u64 option"
  set_max_asset_bytes :: "u64 option"
  set_asset_media_types :: "string list option"
  set_protocols :: "'x option"
  set_profile :: "string option"
  set_admission :: "admission_decl option"
  set_batch :: "batch_decl option"
  set_final_keys :: "string list"

definition default_settings :: "'x settings_decl" where
  "default_settings =
     \<lparr>set_tile_caps = None, set_cache_ttl_s = None, set_slow_request_ms = None, set_stac = None,
      set_tile_properties = None, set_colormap = None, set_max_request_body_bytes = None,
      set_tile_vertex_budget = None, set_items_vertex_budget = None, set_page_max_bytes = None,
      set_max_asset_bytes = None, set_asset_media_types = None, set_protocols = None,
      set_profile = None, set_admission = None, set_batch = None, set_final_keys = []\<rparr>"

definition SETTINGS_KEY_NAMES :: "string list" where
  "SETTINGS_KEY_NAMES =
     [''tile_caps'', ''cache_ttl_s'', ''slow_request_ms'', ''stac'', ''tile_properties'',
      ''colormap'', ''max_request_body_bytes'', ''tile_vertex_budget'', ''items_vertex_budget'',
      ''page_max_bytes'', ''max_asset_bytes'', ''asset_media_types'', ''admission'', ''batch'',
      ''protocols'']"

record 'x profile_decl =
  prof_id :: string
  prof_settings :: "'x settings_decl"

record 'x tenant_decl =
  tn_id :: string
  tn_external :: "string option"
  tn_settings :: "'x settings_decl"

record visibility_decl =
  vis_public :: bool
  vis_shared_with :: "string list"

record 'x catalog_decl =
  ct_id :: string
  ct_external :: "string option"
  ct_tenant :: string
  ct_settings :: "'x settings_decl"
  ct_visibility :: visibility_decl

record routing_decl =
  ro_features :: "string list option"
  ro_tiles :: "string list option"
  ro_maps :: "string list option"
  ro_write :: "string list option"
  ro_index :: "string list option"
  ro_search :: "string list option"

record 'x collection_decl =
  cl_id :: string
  cl_external :: "string option"
  cl_catalog :: string
  cl_storage :: string
  cl_routing :: routing_decl
  cl_settings :: "'x settings_decl"
  cl_visibility :: visibility_decl
  cl_object_store :: "string option"
  cl_rest :: 'x

record storage_decl =
  st_id :: string
  st_driver :: string
  st_url_env :: string
  st_pool_size :: "u64 option"

record 'x object_store_decl =
  os_id :: string
  os_profile :: 'x

datatype registry_backend = File | Relational

record registry_config =
  rg_lazy :: bool
  rg_backend :: registry_backend
  rg_storage :: "string option"
  rg_implementation :: "string option"

record 'x bearer_token_decl =
  bt_token :: string
  bt_token_env :: "string option"
  bt_tenants :: "string list"
  bt_roles :: "(string \<times> string list) list"
  bt_claims :: 'x
  bt_platform_admin :: bool
  bt_principal :: "string option"

record 'x oidc_config =
  oi_issuer :: string
  oi_audience :: string
  oi_rest :: 'x

record 'x auth_config =
  au_bearer_tokens :: "'x bearer_token_decl list"
  au_oidc :: "'x oidc_config option"
  au_trusted_issuers :: "'x oidc_config list"
  au_browser :: "'x option"

record 'x role_decl =
  rd_name :: string
  rd_grants :: "'x list"

record 'x tenant_policy_decl =
  tp_tenant :: string
  tp_roles :: "'x role_decl list"

record 'x policy_config =
  pc_roles :: "'x role_decl list"
  pc_tenant_policies :: "'x tenant_policy_decl list"

record 'x app_config =
  cfg_storages :: "storage_decl list"
  cfg_object_stores :: "'x object_store_decl list"
  cfg_tenants :: "'x tenant_decl list"
  cfg_catalogs :: "'x catalog_decl list"
  cfg_collections :: "'x collection_decl list"
  cfg_profiles :: "'x profile_decl list"
  cfg_settings :: "'x settings_decl"
  cfg_auth :: "'x auth_config"
  cfg_registry :: registry_config
  cfg_policy :: "'x policy_config"
  cfg_rest :: 'x

definition tenant_external_id :: "'x tenant_decl \<Rightarrow> string" where
  "tenant_external_id t = (case tn_external t of Some e \<Rightarrow> e | None \<Rightarrow> tn_id t)"

definition catalog_external_id :: "'x catalog_decl \<Rightarrow> string" where
  "catalog_external_id c = (case ct_external c of Some e \<Rightarrow> e | None \<Rightarrow> ct_id c)"

definition collection_external_id :: "'x collection_decl \<Rightarrow> string" where
  "collection_external_id c = (case cl_external c of Some e \<Rightarrow> e | None \<Rightarrow> cl_id c)"

definition find_tenant :: "'x app_config \<Rightarrow> string \<Rightarrow> 'x tenant_decl option" where
  "find_tenant cfg i = List.find (\<lambda>t. tn_id t = i) (cfg_tenants cfg)"

definition find_catalog :: "'x app_config \<Rightarrow> string \<Rightarrow> 'x catalog_decl option" where
  "find_catalog cfg i = List.find (\<lambda>c. ct_id c = i) (cfg_catalogs cfg)"

definition find_collection :: "'x app_config \<Rightarrow> string \<Rightarrow> 'x collection_decl option" where
  "find_collection cfg i = List.find (\<lambda>c. cl_id c = i) (cfg_collections cfg)"

section \<open>Reasons for refusing a document\<close>

datatype level = Platform_Level | Profile_Level string | Tenant_Level string
  | Catalog_Level string | Collection_Level string

text \<open>
  The messages of \<open>Error::Config\<close>, one constructor per kind of message with the names the
  message quotes.
\<close>

datatype config_reason =
    Unmodelled_Check string
  | Duplicate_Id string string
  | Reused_Internal_Id string
  | Duplicate_External string string string
  | Reserved_External string string
  | Unknown_Reference string string string string
  | Bad_Setting level string string
  | Bad_Profile string string
  | Bad_Registry string
  | Bad_Pool string
  | Bad_Lane string string string
  | Bad_Token string
  | Final_Override level string string
  | Bad_Policy string string

section \<open>The checks of the document\<close>

record 'x config_env =
  env_head_ok :: "'x app_config \<Rightarrow> bool"
  env_stac_ok :: "'x \<Rightarrow> bool"
  env_colormap_ok :: "'x \<Rightarrow> bool"
  env_object_store_ok :: "'x object_store_decl \<Rightarrow> bool"
  env_collection_shape_ok :: "'x collection_decl \<Rightarrow> bool"
  env_styles_ok :: "'x app_config \<Rightarrow> bool"
  env_issuers_ok :: "'x auth_config \<Rightarrow> bool"
  env_grant_ok :: "'x app_config \<Rightarrow> string option \<Rightarrow> 'x \<Rightarrow> bool"
  env_webhooks_ok :: "'x app_config \<Rightarrow> bool"

fun collect_profile_ids :: "string set \<Rightarrow> 'x profile_decl list \<Rightarrow> config_reason + string set" where
  "collect_profile_ids ids [] = Inr ids"
| "collect_profile_ids ids (p # ps) =
     (if prof_id p \<in> ids then Inl (Duplicate_Id ''profile'' (prof_id p))
      else collect_profile_ids (insert (prof_id p) ids) ps)"

fun check_final_keys :: "level \<Rightarrow> string set \<Rightarrow> string list \<Rightarrow> config_reason + unit" where
  "check_final_keys lvl seen [] = Inr ()"
| "check_final_keys lvl seen (key # keys) =
     (if key \<notin> set SETTINGS_KEY_NAMES then Inl (Bad_Setting lvl key ''unknown final key'')
      else if key \<in> seen then Inl (Bad_Setting lvl key ''final declared twice'')
      else check_final_keys lvl (insert key seen) keys)"

fun check_tile_properties :: "level \<Rightarrow> string set \<Rightarrow> string list \<Rightarrow> config_reason + unit" where
  "check_tile_properties lvl seen [] = Inr ()"
| "check_tile_properties lvl seen (p # ps) =
     (if p = [] then Inl (Bad_Setting lvl ''tile_properties'' ''empty column name'')
      else if p \<in> seen then Inl (Bad_Setting lvl p ''column declared twice'')
      else check_tile_properties lvl (insert p seen) ps)"

definition validate_tile_properties :: "level \<Rightarrow> string list \<Rightarrow> config_reason + unit" where
  "validate_tile_properties lvl tile_properties = check_tile_properties lvl {} tile_properties"

definition validate_settings ::
  "'x config_env \<Rightarrow> level \<Rightarrow> 'x settings_decl \<Rightarrow> string set \<Rightarrow> bool \<Rightarrow> config_reason + unit" where
  "validate_settings env lvl s known_profile_ids admission_allowed =
     and_then (case set_profile s of
         None \<Rightarrow> Inr ()
       | Some p \<Rightarrow> ensure (p \<in> known_profile_ids) (Bad_Setting lvl p ''unknown profile'')) (\<lambda>_.
     and_then (check_final_keys lvl {} (set_final_keys s)) (\<lambda>_.
     and_then (ensure (set_slow_request_ms s \<noteq> Some 0) (Bad_Setting lvl ''slow_request_ms'' ''must be greater than 0'')) (\<lambda>_.
     and_then (case set_admission s of
         None \<Rightarrow> Inr ()
       | Some a \<Rightarrow>
           and_then (ensure admission_allowed (Bad_Setting lvl ''admission'' ''not honored at this level'')) (\<lambda>_.
           ensure (ad_weight a \<noteq> Some 0) (Bad_Setting lvl ''admission.weight'' ''must be greater than 0''))) (\<lambda>_.
     and_then (ensure (set_max_request_body_bytes s \<noteq> Some 0)
         (Bad_Setting lvl ''max_request_body_bytes'' ''must be greater than 0'')) (\<lambda>_.
     and_then (ensure (set_tile_vertex_budget s \<noteq> Some 0)
         (Bad_Setting lvl ''tile_vertex_budget'' ''must be greater than 0'')) (\<lambda>_.
     and_then (ensure (set_items_vertex_budget s \<noteq> Some 0)
         (Bad_Setting lvl ''items_vertex_budget'' ''must be greater than 0'')) (\<lambda>_.
     and_then (ensure (set_page_max_bytes s \<noteq> Some 0) (Bad_Setting lvl ''page_max_bytes'' ''must be greater than 0'')) (\<lambda>_.
     and_then (ensure (set_max_asset_bytes s \<noteq> Some 0) (Bad_Setting lvl ''max_asset_bytes'' ''must be greater than 0'')) (\<lambda>_.
     and_then (case set_batch s of
         None \<Rightarrow> Inr ()
       | Some b \<Rightarrow>
           and_then (ensure (ba_max_bytes b \<noteq> Some 0) (Bad_Setting lvl ''batch.max_bytes'' ''must be greater than 0'')) (\<lambda>_.
           and_then (ensure (ba_max_items b \<noteq> Some 0) (Bad_Setting lvl ''batch.max_items'' ''must be greater than 0'')) (\<lambda>_.
           ensure (ba_chunk_items b \<noteq> Some 0) (Bad_Setting lvl ''batch.chunk_items'' ''must be greater than 0'')))) (\<lambda>_.
     and_then (case set_stac s of
         None \<Rightarrow> Inr ()
       | Some stac \<Rightarrow> ensure (env_stac_ok env stac) (Bad_Setting lvl ''stac'' ''bad shape'')) (\<lambda>_.
     and_then (case set_tile_properties s of
         None \<Rightarrow> Inr ()
       | Some ps \<Rightarrow> validate_tile_properties lvl ps) (\<lambda>_.
     (case set_colormap s of
         None \<Rightarrow> Inr ()
       | Some colormap \<Rightarrow>
           ensure (env_colormap_ok env colormap) (Bad_Setting lvl ''colormap'' ''bad shape''))))))))))))))"

fun validate_profiles ::
  "'x config_env \<Rightarrow> string set \<Rightarrow> 'x profile_decl list \<Rightarrow> config_reason + unit" where
  "validate_profiles env known [] = Inr ()"
| "validate_profiles env known (p # ps) =
     and_then (ensure (set_profile (prof_settings p) = None) (Bad_Profile (prof_id p) ''references a profile'')) (\<lambda>_.
     and_then (ensure (set_final_keys (prof_settings p) = []) (Bad_Profile (prof_id p) ''declares final keys'')) (\<lambda>_.
     and_then (validate_settings env (Profile_Level (prof_id p)) (prof_settings p) known False) (\<lambda>_.
     validate_profiles env known ps)))"

fun collect_storage_ids :: "string set \<Rightarrow> storage_decl list \<Rightarrow> config_reason + string set" where
  "collect_storage_ids ids [] = Inr ids"
| "collect_storage_ids ids (s # ss) =
     (if st_id s \<in> ids then Inl (Duplicate_Id ''storage'' (st_id s))
      else if st_pool_size s = Some 0 then Inl (Bad_Pool (st_id s))
      else collect_storage_ids (insert (st_id s) ids) ss)"

fun collect_object_store_ids ::
  "'x config_env \<Rightarrow> string set \<Rightarrow> 'x object_store_decl list \<Rightarrow> config_reason + string set" where
  "collect_object_store_ids env ids [] = Inr ids"
| "collect_object_store_ids env ids (s # ss) =
     (if os_id s \<in> ids then Inl (Duplicate_Id ''object_store'' (os_id s))
      else if \<not> env_object_store_ok env s then Inl (Unmodelled_Check (os_id s))
      else collect_object_store_ids env (insert (os_id s) ids) ss)"

definition validate_registry_choice ::
  "'x app_config \<Rightarrow> string set \<Rightarrow> config_reason + unit" where
  "validate_registry_choice cfg storage_ids =
     (if rg_backend (cfg_registry cfg) = Relational then
        and_then (case rg_storage (cfg_registry cfg) of
            Some storage \<Rightarrow> ensure (storage \<in> storage_ids) (Bad_Registry ''storage is not declared'')
          | None \<Rightarrow> Inl (Bad_Registry ''storage is not set'')) (\<lambda>_.
        and_then (ensure (rg_implementation (cfg_registry cfg) \<noteq> Some [])
            (Bad_Registry ''implementation is empty'')) (\<lambda>_.
        ensure (cfg_tenants cfg = [] \<and> cfg_catalogs cfg = [] \<and> cfg_collections cfg = [])
          (Bad_Registry ''resources declared in two places'')))
      else Inr ())"

definition RESERVED_TENANT_SEGMENTS :: "string list" where
  "RESERVED_TENANT_SEGMENTS = [''metrics'', ''ui'', ''api'', ''healthz'', ''readyz'']"

fun check_tenants ::
  "'x config_env \<Rightarrow> string set \<Rightarrow> string set \<Rightarrow> string set \<Rightarrow> 'x tenant_decl list \<Rightarrow>
   config_reason + unit" where
  "check_tenants env known ids exts [] = Inr ()"
| "check_tenants env known ids exts (t # ts) =
     and_then (validate_settings env (Tenant_Level (tn_id t)) (tn_settings t) known True) (\<lambda>_.
     and_then (ensure (tn_id t \<notin> ids) (Duplicate_Id ''tenant'' (tn_id t))) (\<lambda>_.
     and_then (ensure (tenant_external_id t \<notin> exts)
       (Duplicate_External ''tenant'' (tenant_external_id t) [])) (\<lambda>_.
     and_then (ensure (tenant_external_id t \<notin> set RESERVED_TENANT_SEGMENTS)
       (Reserved_External (tn_id t) (tenant_external_id t))) (\<lambda>_.
     check_tenants env known (insert (tn_id t) ids) (insert (tenant_external_id t) exts) ts))))"

definition validate_tenant_declarations ::
  "'x config_env \<Rightarrow> 'x tenant_decl list \<Rightarrow> string set \<Rightarrow> config_reason + unit" where
  "validate_tenant_declarations env tenants known = check_tenants env known {} {} tenants"

definition validate_lane_routing ::
  "string \<Rightarrow> string \<Rightarrow> string list \<Rightarrow> string set \<Rightarrow> config_reason + unit" where
  "validate_lane_routing collection_id lane routing storage_ids =
     and_then (ensure (routing \<noteq> []) (Bad_Lane collection_id lane ''no storage entries'')) (\<lambda>_.
     for_each (\<lambda>storage_id.
       ensure (storage_id \<in> storage_ids) (Unknown_Reference lane collection_id ''storage'' storage_id)) routing)"

text \<open>A lane that is not declared is not checked; \<open>write\<close> and \<open>index\<close> name one storage.\<close>

definition check_lane ::
  "string \<Rightarrow> string \<Rightarrow> bool \<Rightarrow> string list option \<Rightarrow> string set \<Rightarrow> config_reason + unit" where
  "check_lane collection_id lane single routing storage_ids =
     (case routing of
        None \<Rightarrow> Inr ()
      | Some r \<Rightarrow>
          and_then (validate_lane_routing collection_id lane r storage_ids) (\<lambda>_.
          ensure (single \<longrightarrow> length r = 1) (Bad_Lane collection_id lane ''must name exactly one storage'')))"

fun check_catalogs ::
  "'x config_env \<Rightarrow> string set \<Rightarrow> string set \<Rightarrow> string set \<Rightarrow> (string \<times> string) set \<Rightarrow> string set \<Rightarrow>
   'x catalog_decl list \<Rightarrow> config_reason + (string set \<times> string set)" where
  "check_catalogs env known tenant_ids ids exts internal_ids [] = Inr (ids, internal_ids)"
| "check_catalogs env known tenant_ids ids exts internal_ids (c # cs) =
     and_then (validate_settings env (Catalog_Level (ct_id c)) (ct_settings c) known False) (\<lambda>_.
     and_then (ensure (ct_id c \<notin> ids) (Duplicate_Id ''catalog'' (ct_id c))) (\<lambda>_.
     and_then (ensure (ct_id c \<notin> internal_ids) (Reused_Internal_Id (ct_id c))) (\<lambda>_.
     and_then (ensure (ct_tenant c \<in> tenant_ids)
       (Unknown_Reference ''catalog'' (ct_id c) ''tenant'' (ct_tenant c))) (\<lambda>_.
     and_then (ensure ((ct_tenant c, catalog_external_id c) \<notin> exts)
       (Duplicate_External ''catalog'' (catalog_external_id c) (ct_tenant c))) (\<lambda>_.
     and_then (for_each (\<lambda>t. ensure (t \<in> tenant_ids) (Unknown_Reference ''catalog'' (ct_id c) ''shared tenant'' t))
       (vis_shared_with (ct_visibility c))) (\<lambda>_.
     check_catalogs env known tenant_ids (insert (ct_id c) ids)
       (insert (ct_tenant c, catalog_external_id c) exts) (insert (ct_id c) internal_ids) cs))))))"

fun check_collections ::
  "'x config_env \<Rightarrow> string set \<Rightarrow> string set \<Rightarrow> string set \<Rightarrow> string set \<Rightarrow> string set \<Rightarrow> string set \<Rightarrow>
   (string \<times> string) set \<Rightarrow> string set \<Rightarrow> 'x collection_decl list \<Rightarrow> config_reason + unit" where
  "check_collections env known tenant_ids storage_ids object_store_ids catalog_ids ids exts
     internal_ids [] = Inr ()"
| "check_collections env known tenant_ids storage_ids object_store_ids catalog_ids ids exts
     internal_ids (c # cs) =
     and_then (validate_settings env (Collection_Level (cl_id c)) (cl_settings c) known False) (\<lambda>_.
     and_then (ensure (cl_id c \<notin> ids) (Duplicate_Id ''collection'' (cl_id c))) (\<lambda>_.
     and_then (ensure (cl_id c \<notin> internal_ids) (Reused_Internal_Id (cl_id c))) (\<lambda>_.
     and_then (ensure (cl_storage c \<in> storage_ids)
       (Unknown_Reference ''collection'' (cl_id c) ''storage'' (cl_storage c))) (\<lambda>_.
     and_then (case cl_object_store c of
         None \<Rightarrow> Inr ()
       | Some o' \<Rightarrow> ensure (o' \<in> object_store_ids)
           (Unknown_Reference ''collection'' (cl_id c) ''object_store'' o')) (\<lambda>_.
     and_then (ensure (cl_catalog c \<in> catalog_ids)
       (Unknown_Reference ''collection'' (cl_id c) ''catalog'' (cl_catalog c))) (\<lambda>_.
     and_then (ensure ((cl_catalog c, collection_external_id c) \<notin> exts)
       (Duplicate_External ''collection'' (collection_external_id c) (cl_catalog c))) (\<lambda>_.
     and_then (for_each (\<lambda>t. ensure (t \<in> tenant_ids) (Unknown_Reference ''collection'' (cl_id c) ''shared tenant'' t))
       (vis_shared_with (cl_visibility c))) (\<lambda>_.
     and_then (check_lane (cl_id c) ''features'' False (ro_features (cl_routing c)) storage_ids) (\<lambda>_.
     and_then (check_lane (cl_id c) ''tiles'' False (ro_tiles (cl_routing c)) storage_ids) (\<lambda>_.
     and_then (check_lane (cl_id c) ''maps'' False (ro_maps (cl_routing c)) storage_ids) (\<lambda>_.
     and_then (check_lane (cl_id c) ''write'' True (ro_write (cl_routing c)) storage_ids) (\<lambda>_.
     and_then (check_lane (cl_id c) ''index'' True (ro_index (cl_routing c)) storage_ids) (\<lambda>_.
     and_then (check_lane (cl_id c) ''search'' False (ro_search (cl_routing c)) storage_ids) (\<lambda>_.
     and_then (ensure (env_collection_shape_ok env c) (Unmodelled_Check (cl_id c))) (\<lambda>_.
     check_collections env known tenant_ids storage_ids object_store_ids catalog_ids
       (insert (cl_id c) ids) (insert (cl_catalog c, collection_external_id c) exts)
       (insert (cl_id c) internal_ids) cs)))))))))))))))"

definition validate_catalogs_and_collections ::
  "'x config_env \<Rightarrow> string set \<Rightarrow> string set \<Rightarrow> string set \<Rightarrow> 'x catalog_decl list \<Rightarrow>
   'x collection_decl list \<Rightarrow> string set \<Rightarrow> string set \<Rightarrow> config_reason + unit" where
  "validate_catalogs_and_collections env tenant_ids storage_ids object_store_ids catalogs
     collections internal_ids known =
     and_then (check_catalogs env known tenant_ids {} {} internal_ids catalogs)
       (\<lambda>(catalog_ids, internal_ids').
     check_collections env known tenant_ids storage_ids object_store_ids catalog_ids {} {}
       internal_ids' collections)"


text \<open>Every bearer token entry names exactly one source of its secret and at least one tenant.\<close>

definition check_token_source ::
  "'x bearer_token_decl \<Rightarrow> string set \<Rightarrow> string set \<Rightarrow> config_reason + (string set \<times> string set)" where
  "check_token_source e seen_tokens seen_envs =
     (case (bt_token e, bt_token_env e) of
        ([], None) \<Rightarrow> Inl (Bad_Token ''neither token_env nor an inline token'')
      | (_ # _, Some _) \<Rightarrow> Inl (Bad_Token ''both token_env and an inline token'')
      | ([], Some name) \<Rightarrow>
          (if is_blank name then Inl (Bad_Token ''token_env must not be empty'')
           else if name \<in> seen_envs then Inl (Bad_Token ''two entries read one token_env'')
           else Inr (seen_tokens, insert name seen_envs))
      | (c # cs, None) \<Rightarrow>
          (if c # cs \<in> seen_tokens then Inl (Bad_Token ''duplicate token entry'')
           else Inr (insert (c # cs) seen_tokens, seen_envs)))"

fun check_bearer_tokens ::
  "string set \<Rightarrow> string set \<Rightarrow> 'x bearer_token_decl list \<Rightarrow> config_reason + unit" where
  "check_bearer_tokens seen_tokens seen_envs [] = Inr ()"
| "check_bearer_tokens seen_tokens seen_envs (e # es) =
     and_then (check_token_source e seen_tokens seen_envs) (\<lambda>(tokens, envs).
     and_then (ensure (bt_tenants e \<noteq> []) (Bad_Token ''must authorize at least one tenant'')) (\<lambda>_.
     and_then (for_each (\<lambda>(t, _).
       ensure (t \<in> set (bt_tenants e)) (Bad_Token ''role in a tenant it is not a member of''))
       (bt_roles e)) (\<lambda>_.
     check_bearer_tokens tokens envs es)))"

section \<open>Final settings keys\<close>

text \<open>
  The keys an ancestor level pinned, with the level that pinned them, in key order (the source's
  \<open>BTreeMap\<close>); the first pin of a key is kept.
\<close>

type_synonym finalized_by = "(string \<times> level) list"

fun entry_or_insert :: "string \<Rightarrow> level \<Rightarrow> finalized_by \<Rightarrow> finalized_by" where
  "entry_or_insert k v [] = [(k, v)]"
| "entry_or_insert k v ((k', v') # m) =
     (if k = k' then (k', v') # m
      else if k < k' then (k, v) # (k', v') # m
      else (k', v') # entry_or_insert k v m)"

fun finalized_here :: "finalized_by \<Rightarrow> string list \<Rightarrow> level \<Rightarrow> finalized_by" where
  "finalized_here inherited [] lvl = inherited"
| "finalized_here inherited (key # keys) lvl =
     finalized_here (entry_or_insert key lvl inherited) keys lvl"

definition settings_declares_key :: "'x settings_decl \<Rightarrow> string \<Rightarrow> bool" where
  "settings_declares_key d key =
     (if key = ''tile_caps'' then set_tile_caps d \<noteq> None
      else if key = ''cache_ttl_s'' then set_cache_ttl_s d \<noteq> None
      else if key = ''slow_request_ms'' then set_slow_request_ms d \<noteq> None
      else if key = ''stac'' then set_stac d \<noteq> None
      else if key = ''tile_properties'' then set_tile_properties d \<noteq> None
      else if key = ''colormap'' then set_colormap d \<noteq> None
      else if key = ''max_request_body_bytes'' then set_max_request_body_bytes d \<noteq> None
      else if key = ''tile_vertex_budget'' then set_tile_vertex_budget d \<noteq> None
      else if key = ''items_vertex_budget'' then set_items_vertex_budget d \<noteq> None
      else if key = ''page_max_bytes'' then set_page_max_bytes d \<noteq> None
      else if key = ''max_asset_bytes'' then set_max_asset_bytes d \<noteq> None
      else if key = ''asset_media_types'' then set_asset_media_types d \<noteq> None
      else if key = ''admission'' then set_admission d \<noteq> None
      else if key = ''batch'' then set_batch d \<noteq> None
      else if key = ''protocols'' then set_protocols d \<noteq> None
      else False)"

definition profile_settings :: "'x profile_decl list \<Rightarrow> string \<Rightarrow> 'x settings_decl option" where
  "profile_settings profiles i =
     map_option prof_settings (List.find (\<lambda>p. prof_id p = i) (rev profiles))"

definition settings_provides_key ::
  "'x settings_decl \<Rightarrow> string \<Rightarrow> 'x profile_decl list \<Rightarrow> bool" where
  "settings_provides_key d key profiles =
     (if settings_declares_key d key then True
      else (case set_profile d of
          Some profile_id \<Rightarrow>
            (case profile_settings profiles profile_id of
               Some p \<Rightarrow> settings_declares_key p key
             | None \<Rightarrow> False)
        | None \<Rightarrow> False))"

fun check_no_final_override ::
  "level \<Rightarrow> 'x settings_decl \<Rightarrow> finalized_by \<Rightarrow> 'x profile_decl list \<Rightarrow> config_reason + unit" where
  "check_no_final_override lvl d [] profiles = Inr ()"
| "check_no_final_override lvl d ((key, declared_by) # m) profiles =
     (if settings_provides_key d key profiles
      then Inl (Final_Override lvl key (case declared_by of Tenant_Level i \<Rightarrow> i | Catalog_Level i \<Rightarrow> i | _ \<Rightarrow> []))
      else check_no_final_override lvl d m profiles)"

fun check_tenant_finality ::
  "finalized_by \<Rightarrow> 'x profile_decl list \<Rightarrow> (string, finalized_by) fmap \<Rightarrow> 'x tenant_decl list \<Rightarrow>
   config_reason + (string, finalized_by) fmap" where
  "check_tenant_finality platform_final profiles acc [] = Inr acc"
| "check_tenant_finality platform_final profiles acc (t # ts) =
     and_then (check_no_final_override (Tenant_Level (tn_id t)) (tn_settings t) platform_final profiles) (\<lambda>_.
     check_tenant_finality platform_final profiles
       (fmupd (tn_id t)
         (finalized_here platform_final (set_final_keys (tn_settings t)) (Tenant_Level (tn_id t))) acc) ts)"

definition inherited_final ::
  "finalized_by \<Rightarrow> (string, finalized_by) fmap \<Rightarrow> string \<Rightarrow> finalized_by" where
  "inherited_final platform_final acc parent =
     (case fmlookup acc parent of Some f \<Rightarrow> f | None \<Rightarrow> platform_final)"

fun check_catalog_finality ::
  "finalized_by \<Rightarrow> 'x profile_decl list \<Rightarrow> (string, finalized_by) fmap \<Rightarrow>
   (string, finalized_by) fmap \<Rightarrow> 'x catalog_decl list \<Rightarrow> config_reason + (string, finalized_by) fmap" where
  "check_catalog_finality platform_final profiles tenant_final acc [] = Inr acc"
| "check_catalog_finality platform_final profiles tenant_final acc (c # cs) =
     (let inherited = inherited_final platform_final tenant_final (ct_tenant c) in
     and_then (check_no_final_override (Catalog_Level (ct_id c)) (ct_settings c) inherited profiles) (\<lambda>_.
     check_catalog_finality platform_final profiles tenant_final
       (fmupd (ct_id c)
         (finalized_here inherited (set_final_keys (ct_settings c)) (Catalog_Level (ct_id c))) acc) cs))"

definition validate_settings_finality ::
  "'x settings_decl \<Rightarrow> 'x tenant_decl list \<Rightarrow> 'x catalog_decl list \<Rightarrow> 'x collection_decl list \<Rightarrow>
   'x profile_decl list \<Rightarrow> config_reason + unit" where
  "validate_settings_finality platform tenants catalogs collections profiles =
     (let platform_final = finalized_here [] (set_final_keys platform) Platform_Level in
     and_then (check_tenant_finality platform_final profiles fmempty tenants) (\<lambda>tenant_final.
     and_then (check_catalog_finality platform_final profiles tenant_final fmempty catalogs)
       (\<lambda>catalog_final.
     for_each (\<lambda>c. check_no_final_override (Collection_Level (cl_id c)) (cl_settings c)
       (inherited_final platform_final catalog_final (cl_catalog c)) profiles) collections)))"

section \<open>Policy roles and the whole document\<close>

fun check_roles ::
  "'x config_env \<Rightarrow> 'x app_config \<Rightarrow> string option \<Rightarrow> string set \<Rightarrow> 'x role_decl list \<Rightarrow>
   config_reason + unit" where
  "check_roles env cfg owner seen [] = Inr ()"
| "check_roles env cfg owner seen (r # rs) =
     and_then (ensure (rd_name r \<noteq> []) (Bad_Policy ''role name must not be empty'' [])) (\<lambda>_.
     and_then (ensure (rd_name r \<notin> seen) (Bad_Policy ''duplicate role name'' (rd_name r))) (\<lambda>_.
     and_then (for_each (\<lambda>g. ensure (env_grant_ok env cfg owner g) (Bad_Policy ''grant'' (rd_name r)))
       (rd_grants r)) (\<lambda>_.
     check_roles env cfg owner (insert (rd_name r) seen) rs)))"

fun check_tenant_policies ::
  "'x config_env \<Rightarrow> 'x app_config \<Rightarrow> string set \<Rightarrow> 'x tenant_policy_decl list \<Rightarrow>
   config_reason + unit" where
  "check_tenant_policies env cfg seen [] = Inr ()"
| "check_tenant_policies env cfg seen (p # ps) =
     and_then (ensure (tp_tenant p \<notin> seen) (Bad_Policy ''two documents for tenant'' (tp_tenant p))) (\<lambda>_.
     and_then (check_roles env cfg (Some (tp_tenant p)) {} (tp_roles p)) (\<lambda>_.
     check_tenant_policies env cfg (insert (tp_tenant p) seen) ps))"

definition validate_policy :: "'x config_env \<Rightarrow> 'x app_config \<Rightarrow> config_reason + unit" where
  "validate_policy env cfg =
     and_then (check_roles env cfg None {} (pc_roles (cfg_policy cfg))) (\<lambda>_.
     check_tenant_policies env cfg {} (pc_tenant_policies (cfg_policy cfg)))"

definition validate_tenant_references ::
  "'x app_config \<Rightarrow> string set \<Rightarrow> config_reason + unit" where
  "validate_tenant_references cfg tenant_ids =
     and_then (for_each (\<lambda>e. for_each (\<lambda>t.
         ensure (t \<in> tenant_ids) (Bad_Token ''references unknown tenant'')) (bt_tenants e))
       (au_bearer_tokens (cfg_auth cfg))) (\<lambda>_.
     for_each (\<lambda>p. ensure (tp_tenant p \<in> tenant_ids) (Bad_Policy ''unknown tenant'' (tp_tenant p)))
       (pc_tenant_policies (cfg_policy cfg)))"

definition app_config_validate :: "'x config_env \<Rightarrow> 'x app_config \<Rightarrow> config_reason + unit" where
  "app_config_validate env cfg =
     and_then (ensure (env_head_ok env cfg) (Unmodelled_Check ''server and cache'')) (\<lambda>_.
     and_then (collect_profile_ids {} (cfg_profiles cfg)) (\<lambda>known.
     and_then (validate_profiles env known (cfg_profiles cfg)) (\<lambda>_.
     and_then (validate_settings env Platform_Level (cfg_settings cfg) known True) (\<lambda>_.
     and_then (collect_storage_ids {} (cfg_storages cfg)) (\<lambda>storage_ids.
     and_then (collect_object_store_ids env {} (cfg_object_stores cfg)) (\<lambda>object_store_ids.
     and_then (validate_registry_choice cfg storage_ids) (\<lambda>_.
     and_then (validate_tenant_declarations env (cfg_tenants cfg) known) (\<lambda>_.
     let tenant_ids = set (map tn_id (cfg_tenants cfg)) in
     and_then (validate_catalogs_and_collections env tenant_ids storage_ids object_store_ids
       (cfg_catalogs cfg) (cfg_collections cfg) tenant_ids known) (\<lambda>_.
     and_then (ensure (env_styles_ok env cfg) (Unmodelled_Check ''processes and styles'')) (\<lambda>_.
     and_then (check_bearer_tokens {} {} (au_bearer_tokens (cfg_auth cfg))) (\<lambda>_.
     and_then (ensure (env_issuers_ok env (cfg_auth cfg)) (Unmodelled_Check ''issuers'')) (\<lambda>_.
     and_then (validate_settings_finality (cfg_settings cfg) (cfg_tenants cfg) (cfg_catalogs cfg)
       (cfg_collections cfg) (cfg_profiles cfg)) (\<lambda>_.
     and_then (validate_policy env cfg) (\<lambda>_.
     and_then (if rg_backend (cfg_registry cfg) = File
       then validate_tenant_references cfg tenant_ids else Inr ()) (\<lambda>_.
     ensure (env_webhooks_ok env cfg) (Unmodelled_Check ''webhooks''))))))))))))))))"

end
