(* ===== verification/Control_Scope.thy ===== *)
theory Control_Scope
  imports App_Config
begin

text \<open>
  \<open>control_model.rs\<close>, first part: principals, the four levels a control-plane
  resource lives at and the ancestor relation on them, the text key a resource is versioned
  under, and the check that a scope names existing resources; with the errors of
  \<open>error.rs\<close> the control plane returns. The locale \<open>ancestor_order\<close> is what
  authorization and delegation use of the relation: a tree order.
\<close>

section \<open>Errors\<close>

text \<open>
  The messages of \<open>Error::ControlValidation\<close>: those whose quoted names matter, and
  \<open>Refused\<close> with the subject and the reason for the others. \<open>Storage\<close> is the error of
  the database driver, \<open>Corrupt\<close> the configuration error of a stored number out of range.
\<close>

datatype control_reason =
    Empty_Issuer string
  | Empty_Subject string
  | Unknown_Resource string string
  | Misplaced_Resource string string string string
  | Bad_Path_Policy string string
  | Duplicate_Entry string string
  | Missing_Entity string
  | Refused string

datatype core_error =
    Config config_reason
  | ControlValidation control_reason
  | ControlEventOrder u64 u32 u64 u32
  | ControlUninitialized
  | ControlRevisionConflict u64 u64
  | ControlIdempotencyConflict string
  | ControlIdempotencyAuthorizationConflict string
  | ControlEntityVersionConflict string string string
  | Storage string
  | Corrupt string

section \<open>Principals\<close>

record principal_identity =
  pr_issuer :: string
  pr_subject :: string

definition principal_validate :: "principal_identity \<Rightarrow> string \<Rightarrow> core_error + unit" where
  "principal_validate p ctxt =
     (if is_blank (pr_issuer p) then Inl (ControlValidation (Empty_Issuer ctxt))
      else if is_blank (pr_subject p) then Inl (ControlValidation (Empty_Subject ctxt))
      else Inr ())"

section \<open>Scopes\<close>

datatype control_scope =
    Platform
  | Tenant (scope_tenant: string)
  | Catalog (scope_tenant: string) (scope_catalog: string)
  | Collection (scope_tenant: string) (scope_catalog: string) (scope_collection: string)

fun scope_contains :: "control_scope \<Rightarrow> control_scope \<Rightarrow> bool" where
  "scope_contains Platform _ = True"
| "scope_contains (Tenant t) candidate =
     (case candidate of
        Tenant t' \<Rightarrow> t = t'
      | Catalog t' _ \<Rightarrow> t = t'
      | Collection t' _ _ \<Rightarrow> t = t'
      | Platform \<Rightarrow> False)"
| "scope_contains (Catalog t c) candidate =
     (case candidate of
        Catalog t' c' \<Rightarrow> t = t' \<and> c = c'
      | Collection t' c' _ \<Rightarrow> t = t' \<and> c = c'
      | _ \<Rightarrow> False)"
| "scope_contains (Collection t c k) candidate =
     (case candidate of
        Collection t' c' k' \<Rightarrow> t = t' \<and> c = c' \<and> k = k'
      | _ \<Rightarrow> False)"

definition scope_covers :: "control_scope \<Rightarrow> control_scope \<Rightarrow> bool" where
  "scope_covers s other = scope_contains s other"

fun resource_key :: "control_scope \<Rightarrow> string" where
  "resource_key Platform = ''platform''"
| "resource_key (Tenant t) = ''tenant/'' @ t"
| "resource_key (Catalog t c) = ''tenant/'' @ t @ ''/catalog/'' @ c"
| "resource_key (Collection t c k) =
     ''tenant/'' @ t @ ''/catalog/'' @ c @ ''/collection/'' @ k"

definition the_tenant :: "'x app_config \<Rightarrow> string \<Rightarrow> core_error + 'x tenant_decl" where
  "the_tenant cfg t = ok_or (find_tenant cfg t) (ControlValidation (Unknown_Resource ''tenant'' t))"

definition the_catalog :: "'x app_config \<Rightarrow> string \<Rightarrow> core_error + 'x catalog_decl" where
  "the_catalog cfg c = ok_or (find_catalog cfg c) (ControlValidation (Unknown_Resource ''catalog'' c))"

definition the_collection :: "'x app_config \<Rightarrow> string \<Rightarrow> core_error + 'x collection_decl" where
  "the_collection cfg k =
     ok_or (find_collection cfg k) (ControlValidation (Unknown_Resource ''collection'' k))"

fun scope_validate_against :: "control_scope \<Rightarrow> 'x app_config \<Rightarrow> core_error + unit" where
  "scope_validate_against Platform cfg = Inr ()"
| "scope_validate_against (Tenant t) cfg = and_then (the_tenant cfg t) (\<lambda>_. Inr ())"
| "scope_validate_against (Catalog t c) cfg =
     and_then (the_tenant cfg t) (\<lambda>_.
     and_then (the_catalog cfg c) (\<lambda>catalog.
     ensure (ct_tenant catalog = t)
       (ControlValidation (Misplaced_Resource ''catalog'' c (ct_tenant catalog) t))))"
| "scope_validate_against (Collection t c k) cfg =
     and_then (the_tenant cfg t) (\<lambda>_.
     and_then (the_catalog cfg c) (\<lambda>catalog.
     and_then (ensure (ct_tenant catalog = t)
       (ControlValidation (Misplaced_Resource ''catalog'' c (ct_tenant catalog) t))) (\<lambda>_.
     and_then (the_collection cfg k) (\<lambda>collection.
     ensure (cl_catalog collection = c)
       (ControlValidation (Misplaced_Resource ''collection'' k (cl_catalog collection) c))))))"

section \<open>The ancestor order\<close>

locale ancestor_order =
  fixes above :: "'s \<Rightarrow> 's \<Rightarrow> bool" and root :: 's
  assumes above_refl: "above s s"
    and above_trans: "above s t \<Longrightarrow> above t u \<Longrightarrow> above s u"
    and above_antisym: "above s t \<Longrightarrow> above t s \<Longrightarrow> s = t"
    and above_linear: "above s u \<Longrightarrow> above t u \<Longrightarrow> above s t \<or> above t s"
    and root_above: "above root s"
begin

lemma common_descendant_iff: "(\<exists>u. above s u \<and> above t u) \<longleftrightarrow> above s t \<or> above t s"
  using above_refl above_linear by blast

lemma above_root_iff: "above s root \<longleftrightarrow> s = root"
  using above_antisym root_above above_refl by blast

lemma chain_total: "above a s \<Longrightarrow> above b s \<Longrightarrow> above c s \<Longrightarrow> above a b \<Longrightarrow> above a c \<or> above c b"
  using above_linear above_trans by blast

end

lemma scope_contains_refl [simp]: "scope_contains s s"
  by (cases s) auto

lemma scope_contains_trans: "scope_contains s t \<Longrightarrow> scope_contains t u \<Longrightarrow> scope_contains s u"
  by (cases s; cases t; cases u) auto

lemma scope_contains_antisym: "scope_contains s t \<Longrightarrow> scope_contains t s \<Longrightarrow> s = t"
  by (cases s; cases t) auto

lemma scope_contains_linear:
  "scope_contains s u \<Longrightarrow> scope_contains t u \<Longrightarrow> scope_contains s t \<or> scope_contains t s"
  by (cases s; cases t; cases u) auto

interpretation scope: ancestor_order scope_contains Platform
  by unfold_locales
    (auto intro: scope_contains_trans scope_contains_antisym dest: scope_contains_linear)

section \<open>Resource keys\<close>

text \<open>The identifiers a scope is made of.\<close>

fun scope_ids :: "control_scope \<Rightarrow> string list" where
  "scope_ids Platform = []"
| "scope_ids (Tenant t) = [t]"
| "scope_ids (Catalog t c) = [t, c]"
| "scope_ids (Collection t c k) = [t, c, k]"

definition plain_ids :: "control_scope \<Rightarrow> bool" where
  "plain_ids s \<longleftrightarrow> (\<forall>i \<in> set (scope_ids s). CHR ''/'' \<notin> set i)"

lemma append_slash_inject:
  assumes "CHR ''/'' \<notin> set a" "CHR ''/'' \<notin> set a'"
  shows "a @ CHR ''/'' # b = a' @ CHR ''/'' # b' \<longleftrightarrow> a = a' \<and> b = b'"
  using assms by (induction a arbitrary: a') (case_tac [!] a', auto)

lemma append_slash_plain:
  assumes "CHR ''/'' \<notin> set a"
  shows "a \<noteq> b @ CHR ''/'' # c" "b @ CHR ''/'' # c \<noteq> a"
  using assms by auto

lemma resource_key_inject:
  assumes "plain_ids s" "plain_ids s'"
  shows "resource_key s = resource_key s' \<longleftrightarrow> s = s'"
  using assms
  by (cases s; cases s') (auto simp: plain_ids_def append_slash_inject append_slash_plain)

lemma resource_key_collides: "resource_key (Tenant ''a/catalog/b'') = resource_key (Catalog ''a'' ''b'')"
  by simp

section \<open>Scopes of a document\<close>

lemma validate_against_tenant:
  "scope_validate_against s cfg = Inr () \<Longrightarrow> s \<noteq> Platform \<Longrightarrow>
   \<exists>d. find_tenant cfg (scope_tenant s) = Some d"
  by (cases s) (auto simp: the_tenant_def result_simps)

lemma validate_against_ancestor:
  assumes "scope_validate_against s cfg = Inr ()" "scope_contains a s"
  shows "scope_validate_against a cfg = Inr ()"
  using assms
  by (cases a; cases s) (auto simp: the_tenant_def the_catalog_def the_collection_def result_simps)

end
