(* ===== verification/Path_Policy.thy ===== *)
theory Path_Policy
  imports Control_Path Control_Scope
begin

text \<open>
  \<open>control_model.rs\<close>: role bindings and path policies with their validation; and from
  \<open>control_admin_policy.rs\<close> the compiled form of a policy, the built-in role templates and
  the path envelope of a scope that a policy must stay inside.
\<close>

section \<open>Bindings and policies\<close>

record role_binding =
  rb_principal :: principal_identity
  rb_role :: string
  rb_scope :: control_scope

datatype policy_effect = Allow | Deny

record 'x policy_condition =
  pd_kind :: string
  pd_config :: 'x

record 'x path_policy =
  pp_id :: string
  pp_role :: "string option"
  pp_scope :: "control_scope option"
  pp_effect :: policy_effect
  pp_methods :: "string list"
  pp_patterns :: "string list"
  pp_roles :: "string list"
  pp_conditions :: "'x policy_condition list"

definition path_policy_new ::
  "string \<Rightarrow> string \<Rightarrow> control_scope \<Rightarrow> policy_effect \<Rightarrow> string list \<Rightarrow> string list \<Rightarrow>
   'x path_policy" where
  "path_policy_new i role scope effect methods patterns =
     \<lparr>pp_id = i, pp_role = Some role, pp_scope = Some scope, pp_effect = effect,
      pp_methods = methods, pp_patterns = patterns, pp_roles = [role], pp_conditions = []\<rparr>"

definition path_policy_legacy ::
  "string \<Rightarrow> policy_effect \<Rightarrow> string list \<Rightarrow> string list \<Rightarrow> 'x policy_condition list \<Rightarrow>
   'x path_policy" where
  "path_policy_legacy i effect methods patterns conditions =
     \<lparr>pp_id = i, pp_role = None, pp_scope = None, pp_effect = effect, pp_methods = methods,
      pp_patterns = patterns, pp_roles = [], pp_conditions = conditions\<rparr>"

definition upper_or_dash :: "char \<Rightarrow> bool" where
  "upper_or_dash c = (let n = of_char c :: nat in (65 \<le> n \<and> n \<le> 90) \<or> n = 45)"

definition valid_method :: "string \<Rightarrow> bool" where
  "valid_method m = (m \<noteq> [] \<and> list_all upper_or_dash m)"

definition roles_agree :: "'x path_policy \<Rightarrow> bool" where
  "roles_agree p =
     (case pp_role p of
        None \<Rightarrow> True
      | Some role \<Rightarrow> pp_roles p = [] \<or> (length (pp_roles p) = 1 \<and> pp_roles p ! 0 = role))"

definition refuse :: "'x path_policy \<Rightarrow> string \<Rightarrow> core_error" where
  "refuse p what = ControlValidation (Bad_Path_Policy (pp_id p) what)"

definition compile_statement_patterns :: "'x path_policy \<Rightarrow> core_error + compiled_pattern list" where
  "compile_statement_patterns p =
     (if pp_role p = None then
        and_then (for_each (\<lambda>pattern.
            map_err (\<lambda>_. refuse p ''anchored pattern'') (validate_inert_legacy_pattern pattern))
          (pp_patterns p)) (\<lambda>_. Inr [])
      else traverse (\<lambda>pattern. map_err (\<lambda>_. refuse p ''anchored pattern'') (compile_pattern pattern))
          (pp_patterns p))"

definition path_policy_validate :: "'x path_policy \<Rightarrow> core_error + compiled_pattern list" where
  "path_policy_validate p =
     and_then (ensure (\<not> is_blank (pp_id p)) (refuse p ''id'')) (\<lambda>_.
     and_then (ensure (pp_methods p \<noteq> []) (refuse p ''methods'')) (\<lambda>_.
     and_then (ensure (pp_patterns p \<noteq> []) (refuse p ''patterns'')) (\<lambda>_.
     and_then (for_each (\<lambda>m. ensure (valid_method m) (refuse p ''method'')) (pp_methods p)) (\<lambda>_.
     and_then (ensure (\<not> (case pp_role p of None \<Rightarrow> False | Some r \<Rightarrow> is_blank r)) (refuse p ''role'')) (\<lambda>_.
     and_then (for_each (\<lambda>r. ensure (\<not> is_blank r) (refuse p ''role names'')) (pp_roles p)) (\<lambda>_.
     and_then (ensure (roles_agree p) (refuse p ''role representations disagree'')) (\<lambda>_.
     and_then (ensure ((pp_role p \<noteq> None) = (pp_scope p \<noteq> None)) (refuse p ''role and scope'')) (\<lambda>_.
     and_then (compile_statement_patterns p) (\<lambda>compiled_patterns.
     and_then (for_each (\<lambda>pattern. and_then
         (map_err (\<lambda>_. refuse p ''checkpoint pattern'') (path_pattern_compile pattern)) (\<lambda>_. Inr ()))
       (pp_patterns p)) (\<lambda>_.
     and_then (for_each (\<lambda>c. ensure (\<not> is_blank (pd_kind c)) (refuse p ''condition kind''))
       (pp_conditions p)) (\<lambda>_.
     Inr compiled_patterns)))))))))))"

section \<open>Compiled statements\<close>

record compiled_policy_statement =
  cs_id :: string
  cs_role :: string
  cs_scope :: control_scope
  cs_effect :: policy_effect
  cs_methods :: "string list"
  cs_patterns :: "compiled_pattern list"
  cs_has_conditions :: bool

definition statement_matches :: "compiled_policy_statement \<Rightarrow> canonical_control_path \<Rightarrow> bool" where
  "statement_matches s path = list_ex (\<lambda>pattern. pattern_matches pattern path) (cs_patterns s)"

definition statement_covers :: "compiled_policy_statement \<Rightarrow> compiled_pattern \<Rightarrow> bool" where
  "statement_covers s candidate = list_ex (\<lambda>pattern. pattern_covers pattern candidate) (cs_patterns s)"

definition compile_policy_statement :: "'x path_policy \<Rightarrow> core_error + compiled_policy_statement" where
  "compile_policy_statement p =
     and_then (path_policy_validate p) (\<lambda>patterns.
     and_then (ok_or (pp_role p) (ControlValidation (Refused ''legacy policy is not executable''))) (\<lambda>role.
     and_then (ok_or (pp_scope p) (ControlValidation (Refused ''legacy policy is not executable''))) (\<lambda>scope.
     Inr \<lparr>cs_id = pp_id p, cs_role = role, cs_scope = scope, cs_effect = pp_effect p,
          cs_methods = pp_methods p, cs_patterns = patterns,
          cs_has_conditions = (pp_conditions p \<noteq> [])\<rparr>)))"

section \<open>The built-in roles\<close>

definition ALL_METHODS :: "string list" where
  "ALL_METHODS = [''GET'', ''HEAD'', ''POST'', ''PUT'', ''PATCH'', ''DELETE'']"

definition READ_METHODS :: "string list" where
  "READ_METHODS = [''GET'', ''HEAD'']"

definition WRITE_METHODS :: "string list" where
  "WRITE_METHODS = [''POST'', ''PUT'', ''PATCH'', ''DELETE'']"

definition READ_UPDATE_METHODS :: "string list" where
  "READ_UPDATE_METHODS = [''GET'', ''HEAD'', ''PUT'', ''PATCH'']"

definition RESOURCE_METHODS :: "string list" where
  "RESOURCE_METHODS = [''GET'', ''HEAD'', ''PUT'', ''PATCH'', ''DELETE'']"

definition LIST_CREATE_METHODS :: "string list" where
  "LIST_CREATE_METHODS = [''GET'', ''HEAD'', ''POST'']"

definition POST_METHOD :: "string list" where
  "POST_METHOD = [''POST'']"

record builtin_policy_template =
  bp_id :: string
  bp_role :: string
  bp_methods :: "string list"
  bp_pattern :: string

definition BUILT_IN_POLICY_TEMPLATES :: "builtin_policy_template list" where
  "BUILT_IN_POLICY_TEMPLATES =
     [\<lparr>bp_id = ''builtin:sysadmin:all'', bp_role = ''sysadmin'',
         bp_methods = ALL_METHODS, bp_pattern = ''/_control/v1/**''\<rparr>,
      \<lparr>bp_id = ''builtin:tenant-admin:settings'', bp_role = ''tenant_admin'',
         bp_methods = READ_UPDATE_METHODS, bp_pattern = ''/_control/v1/tenants/*/settings''\<rparr>,
      \<lparr>bp_id = ''builtin:tenant-admin:effective-settings'', bp_role = ''tenant_admin'',
         bp_methods = READ_METHODS, bp_pattern = ''/_control/v1/tenants/*/effective-settings''\<rparr>,
      \<lparr>bp_id = ''builtin:tenant-admin:catalog-list'', bp_role = ''tenant_admin'',
         bp_methods = LIST_CREATE_METHODS, bp_pattern = ''/_control/v1/tenants/*/catalogs''\<rparr>,
      \<lparr>bp_id = ''builtin:tenant-admin:collection-moves'', bp_role = ''tenant_admin'',
         bp_methods = POST_METHOD, bp_pattern = ''/_control/v1/tenants/*/collection-moves''\<rparr>,
      \<lparr>bp_id = ''builtin:tenant-admin:catalog-lifecycle'', bp_role = ''tenant_admin'',
         bp_methods = RESOURCE_METHODS, bp_pattern = ''/_control/v1/tenants/*/catalogs/*''\<rparr>,
      \<lparr>bp_id = ''builtin:tenant-admin:principals'', bp_role = ''tenant_admin'',
         bp_methods = ALL_METHODS, bp_pattern = ''/_control/v1/tenants/*/principals/**''\<rparr>,
      \<lparr>bp_id = ''builtin:tenant-admin:role-bindings'', bp_role = ''tenant_admin'',
         bp_methods = ALL_METHODS, bp_pattern = ''/_control/v1/tenants/*/role-bindings/**''\<rparr>,
      \<lparr>bp_id = ''builtin:tenant-admin:policies'', bp_role = ''tenant_admin'',
         bp_methods = ALL_METHODS, bp_pattern = ''/_control/v1/tenants/*/policies/**''\<rparr>,
      \<lparr>bp_id = ''builtin:catalog-admin:settings'', bp_role = ''catalog_admin'',
         bp_methods = READ_UPDATE_METHODS, bp_pattern = ''/_control/v1/tenants/*/catalogs/*/settings''\<rparr>,
      \<lparr>bp_id = ''builtin:catalog-admin:metadata'', bp_role = ''catalog_admin'',
         bp_methods = READ_UPDATE_METHODS, bp_pattern = ''/_control/v1/tenants/*/catalogs/*/metadata''\<rparr>,
      \<lparr>bp_id = ''builtin:catalog-admin:visibility'', bp_role = ''catalog_admin'',
         bp_methods = READ_UPDATE_METHODS, bp_pattern = ''/_control/v1/tenants/*/catalogs/*/visibility''\<rparr>,
      \<lparr>bp_id = ''builtin:catalog-admin:styles'', bp_role = ''catalog_admin'',
         bp_methods = ALL_METHODS, bp_pattern = ''/_control/v1/tenants/*/catalogs/*/styles/**''\<rparr>,
      \<lparr>bp_id = ''builtin:catalog-admin:collection-list'', bp_role = ''catalog_admin'',
         bp_methods = LIST_CREATE_METHODS, bp_pattern = ''/_control/v1/tenants/*/catalogs/*/collections''\<rparr>,
      \<lparr>bp_id = ''builtin:catalog-admin:collection-lifecycle'', bp_role = ''catalog_admin'',
         bp_methods = RESOURCE_METHODS, bp_pattern = ''/_control/v1/tenants/*/catalogs/*/collections/*''\<rparr>,
      \<lparr>bp_id = ''builtin:catalog-admin:role-bindings'', bp_role = ''catalog_admin'',
         bp_methods = ALL_METHODS, bp_pattern = ''/_control/v1/tenants/*/catalogs/*/role-bindings/**''\<rparr>,
      \<lparr>bp_id = ''builtin:catalog-admin:policies'', bp_role = ''catalog_admin'',
         bp_methods = ALL_METHODS, bp_pattern = ''/_control/v1/tenants/*/catalogs/*/policies/**''\<rparr>,
      \<lparr>bp_id = ''builtin:collection-editor:assets'', bp_role = ''collection_editor'',
         bp_methods = ALL_METHODS, bp_pattern = ''/_control/v1/tenants/*/catalogs/*/collections/*/assets/**''\<rparr>,
      \<lparr>bp_id = ''builtin:collection-editor:data'', bp_role = ''collection_editor'',
         bp_methods = ALL_METHODS, bp_pattern = ''/_control/v1/tenants/*/catalogs/*/collections/*/data/**''\<rparr>,
      \<lparr>bp_id = ''builtin:collection-editor:items'', bp_role = ''collection_editor'',
         bp_methods = ALL_METHODS, bp_pattern = ''/_control/v1/tenants/*/catalogs/*/collections/*/items/**''\<rparr>,
      \<lparr>bp_id = ''builtin:collection-editor:metadata'', bp_role = ''collection_editor'',
         bp_methods = ALL_METHODS, bp_pattern = ''/_control/v1/tenants/*/catalogs/*/collections/*/metadata/**''\<rparr>,
      \<lparr>bp_id = ''builtin:collection-editor:styles'', bp_role = ''collection_editor'',
         bp_methods = ALL_METHODS, bp_pattern = ''/_control/v1/tenants/*/catalogs/*/collections/*/styles/**''\<rparr>,
      \<lparr>bp_id = ''builtin:publisher:catalog-visibility'', bp_role = ''publisher'',
         bp_methods = WRITE_METHODS, bp_pattern = ''/_control/v1/tenants/*/catalogs/*/visibility''\<rparr>,
      \<lparr>bp_id = ''builtin:publisher:collection-visibility'', bp_role = ''publisher'',
         bp_methods = WRITE_METHODS, bp_pattern = ''/_control/v1/tenants/*/catalogs/*/collections/*/visibility''\<rparr>,
      \<lparr>bp_id = ''builtin:publisher:publication'', bp_role = ''publisher'',
         bp_methods = WRITE_METHODS, bp_pattern = ''/_control/v1/tenants/*/catalogs/*/collections/*/publication''\<rparr>,
      \<lparr>bp_id = ''builtin:viewer:read'', bp_role = ''viewer'',
         bp_methods = READ_METHODS, bp_pattern = ''/_control/v1/**''\<rparr>]"

definition builtin_policy :: "builtin_policy_template \<Rightarrow> unit path_policy" where
  "builtin_policy t =
     path_policy_new (bp_id t) (bp_role t) Platform Allow (bp_methods t) [bp_pattern t]"

definition compile_builtin_policy_templates :: "core_error + compiled_policy_statement list" where
  "compile_builtin_policy_templates =
     traverse (\<lambda>t. compile_policy_statement (builtin_policy t)) BUILT_IN_POLICY_TEMPLATES"

definition validate_builtin_policy_templates :: "core_error + unit" where
  "validate_builtin_policy_templates = and_then compile_builtin_policy_templates (\<lambda>_. Inr ())"

section \<open>The envelope of a scope\<close>

definition tenant_external :: "'x app_config \<Rightarrow> string \<Rightarrow> string option" where
  "tenant_external cfg i = map_option tenant_external_id (find_tenant cfg i)"

definition catalog_external :: "'x app_config \<Rightarrow> string \<Rightarrow> string option" where
  "catalog_external cfg i = map_option catalog_external_id (find_catalog cfg i)"

definition collection_external :: "'x app_config \<Rightarrow> string \<Rightarrow> string option" where
  "collection_external cfg i = map_option collection_external_id (find_collection cfg i)"

fun scope_envelope :: "control_scope \<Rightarrow> 'x app_config \<Rightarrow> string option" where
  "scope_envelope Platform cfg = Some ''/_control/v1/**''"
| "scope_envelope (Tenant t) cfg =
     (case tenant_external cfg t of
        None \<Rightarrow> None
      | Some te \<Rightarrow> Some (''/_control/v1/tenants/'' @ te @ ''/**''))"
| "scope_envelope (Catalog t c) cfg =
     (case tenant_external cfg t of
        None \<Rightarrow> None
      | Some te \<Rightarrow>
          (case catalog_external cfg c of
             None \<Rightarrow> None
           | Some ce \<Rightarrow> Some (''/_control/v1/tenants/'' @ te @ ''/catalogs/'' @ ce @ ''/**'')))"
| "scope_envelope (Collection t c k) cfg =
     (case tenant_external cfg t of
        None \<Rightarrow> None
      | Some te \<Rightarrow>
          (case catalog_external cfg c of
             None \<Rightarrow> None
           | Some ce \<Rightarrow>
               (case collection_external cfg k of
                  None \<Rightarrow> None
                | Some ke \<Rightarrow>
                    Some (''/_control/v1/tenants/'' @ te @ ''/catalogs/'' @ ce
                          @ ''/collections/'' @ ke @ ''/**''))))"

text \<open>\<open>scope_envelope(..).and_then(|p| CompiledPathPattern::compile(&p).ok())\<close>.\<close>

definition compiled_envelope :: "control_scope \<Rightarrow> 'x app_config \<Rightarrow> compiled_pattern option" where
  "compiled_envelope scope cfg =
     (case scope_envelope scope cfg of
        None \<Rightarrow> None
      | Some pattern \<Rightarrow> ok (compile_pattern pattern))"

definition policy_within_scope :: "'x path_policy \<Rightarrow> 'x app_config \<Rightarrow> bool" where
  "policy_within_scope p cfg =
     (case pp_scope p of
        None \<Rightarrow> True
      | Some scope \<Rightarrow>
          (case compiled_envelope scope cfg of
             None \<Rightarrow> False
           | Some envelope \<Rightarrow>
               list_all (\<lambda>pattern.
                 case compile_pattern pattern of
                   Inl _ \<Rightarrow> False
                 | Inr compiled \<Rightarrow> pattern_covers envelope compiled) (pp_patterns p)))"

section \<open>What validation establishes\<close>

definition wf_statement :: "compiled_policy_statement \<Rightarrow> bool" where
  "wf_statement s \<longleftrightarrow>
     \<not> is_blank (cs_id s) \<and> \<not> is_blank (cs_role s) \<and> cs_methods s \<noteq> [] \<and> cs_patterns s \<noteq> []
     \<and> (\<forall>m \<in> set (cs_methods s). valid_method m) \<and> (\<forall>p \<in> set (cs_patterns s). wf_pattern p)"

lemma path_policy_validate_D:
  assumes "path_policy_validate p = Inr compiled"
  shows "\<not> is_blank (pp_id p)" "pp_methods p \<noteq> []" "pp_patterns p \<noteq> []"
    "\<forall>m \<in> set (pp_methods p). valid_method m"
    "\<forall>r. pp_role p = Some r \<longrightarrow> \<not> is_blank r"
    "(pp_role p \<noteq> None) = (pp_scope p \<noteq> None)"
    "compile_statement_patterns p = Inr compiled"
    "\<forall>pattern \<in> set (pp_patterns p). \<exists>q. path_pattern_compile pattern = Inr q"
proof -
  note v = assms [unfolded path_policy_validate_def and_then_Inr_iff ensure_Inr_iff for_each_Inr_iff
    map_err_Inr_iff]
  show "\<not> is_blank (pp_id p)" "pp_methods p \<noteq> []" "pp_patterns p \<noteq> []"
    "\<forall>m \<in> set (pp_methods p). valid_method m"
    "(pp_role p \<noteq> None) = (pp_scope p \<noteq> None)"
    using v by blast+
  show "\<forall>r. pp_role p = Some r \<longrightarrow> \<not> is_blank r"
    using v by (auto split: option.splits)
  show "compile_statement_patterns p = Inr compiled"
    "\<forall>pattern \<in> set (pp_patterns p). \<exists>q. path_pattern_compile pattern = Inr q"
    using v by auto
qed

lemma compile_statement_patterns_D:
  assumes "compile_statement_patterns p = Inr compiled" "pp_role p \<noteq> None"
  shows "traverse compile_pattern (pp_patterns p) = Inr compiled"
  using assms by (auto simp: compile_statement_patterns_def traverse_Inr_iff map_err_Inr_iff)

lemma compile_policy_statement_D:
  assumes "compile_policy_statement p = Inr s"
  shows "wf_statement s" "cs_id s = pp_id p" "pp_role p = Some (cs_role s)"
    "pp_scope p = Some (cs_scope s)" "cs_effect s = pp_effect p" "cs_methods s = pp_methods p"
    "traverse compile_pattern (pp_patterns p) = Inr (cs_patterns s)"
    "path_policy_validate p = Inr (cs_patterns s)"
    "cs_has_conditions s = (pp_conditions p \<noteq> [])"
proof -
  from assms obtain patterns role scope where
    v: "path_policy_validate p = Inr patterns" and r: "pp_role p = Some role"
    and sc: "pp_scope p = Some scope"
    and s: "s = \<lparr>cs_id = pp_id p, cs_role = role, cs_scope = scope, cs_effect = pp_effect p,
          cs_methods = pp_methods p, cs_patterns = patterns,
          cs_has_conditions = (pp_conditions p \<noteq> [])\<rparr>"
    unfolding compile_policy_statement_def by (auto simp: result_simps)
  note d = path_policy_validate_D [OF v]
  have tr: "traverse compile_pattern (pp_patterns p) = Inr patterns"
    by (rule compile_statement_patterns_D [OF d(7)]) (simp add: r)
  have "patterns \<noteq> []" using traverse_length [OF tr] d(3) by auto
  moreover have "\<forall>q \<in> set patterns. wf_pattern q"
    using traverse_set [OF tr] compile_pattern_wf by blast
  ultimately show "wf_statement s" using d(1,2,4,5) r by (simp add: wf_statement_def s)
  from tr show "traverse compile_pattern (pp_patterns p) = Inr (cs_patterns s)" by (simp add: s)
qed (use assms in \<open>auto simp: compile_policy_statement_def result_simps\<close>)

lemma validated_compiles:
  assumes "path_policy_validate p = Inr compiled" "pp_role p \<noteq> None"
  shows "\<exists>s. compile_policy_statement p = Inr s"
  using assms path_policy_validate_D(6) [OF assms(1)]
  by (auto simp: compile_policy_statement_def result_simps)

lemma compiled_envelope_wf: "compiled_envelope scope cfg = Some e \<Longrightarrow> wf_pattern e"
  by (auto simp: compiled_envelope_def ok_Some_iff compile_pattern_wf split: option.splits)

text \<open>
  The built-in templates are well formed, so that starting up never fails on them; this is what
  they compile to, evaluated once.
\<close>

definition builtin_statement ::
  "string \<Rightarrow> string \<Rightarrow> string list \<Rightarrow> compiled_pattern \<Rightarrow> compiled_policy_statement" where
  "builtin_statement i role methods rest =
     \<lparr>cs_id = i, cs_role = role, cs_scope = Platform, cs_effect = Allow, cs_methods = methods,
      cs_patterns = [Literal ''_control'' # Literal ''v1'' # rest], cs_has_conditions = False\<rparr>"

definition builtin_statements :: "compiled_policy_statement list" where
  "builtin_statements =
     [builtin_statement ''builtin:sysadmin:all'' ''sysadmin'' ALL_METHODS
        [Remainder],
      builtin_statement ''builtin:tenant-admin:settings'' ''tenant_admin'' READ_UPDATE_METHODS
        [Literal ''tenants'', One, Literal ''settings''],
      builtin_statement ''builtin:tenant-admin:effective-settings'' ''tenant_admin'' READ_METHODS
        [Literal ''tenants'', One, Literal ''effective-settings''],
      builtin_statement ''builtin:tenant-admin:catalog-list'' ''tenant_admin'' LIST_CREATE_METHODS
        [Literal ''tenants'', One, Literal ''catalogs''],
      builtin_statement ''builtin:tenant-admin:collection-moves'' ''tenant_admin'' POST_METHOD
        [Literal ''tenants'', One, Literal ''collection-moves''],
      builtin_statement ''builtin:tenant-admin:catalog-lifecycle'' ''tenant_admin'' RESOURCE_METHODS
        [Literal ''tenants'', One, Literal ''catalogs'', One],
      builtin_statement ''builtin:tenant-admin:principals'' ''tenant_admin'' ALL_METHODS
        [Literal ''tenants'', One, Literal ''principals'', Remainder],
      builtin_statement ''builtin:tenant-admin:role-bindings'' ''tenant_admin'' ALL_METHODS
        [Literal ''tenants'', One, Literal ''role-bindings'', Remainder],
      builtin_statement ''builtin:tenant-admin:policies'' ''tenant_admin'' ALL_METHODS
        [Literal ''tenants'', One, Literal ''policies'', Remainder],
      builtin_statement ''builtin:catalog-admin:settings'' ''catalog_admin'' READ_UPDATE_METHODS
        [Literal ''tenants'', One, Literal ''catalogs'', One, Literal ''settings''],
      builtin_statement ''builtin:catalog-admin:metadata'' ''catalog_admin'' READ_UPDATE_METHODS
        [Literal ''tenants'', One, Literal ''catalogs'', One, Literal ''metadata''],
      builtin_statement ''builtin:catalog-admin:visibility'' ''catalog_admin'' READ_UPDATE_METHODS
        [Literal ''tenants'', One, Literal ''catalogs'', One, Literal ''visibility''],
      builtin_statement ''builtin:catalog-admin:styles'' ''catalog_admin'' ALL_METHODS
        [Literal ''tenants'', One, Literal ''catalogs'', One, Literal ''styles'', Remainder],
      builtin_statement ''builtin:catalog-admin:collection-list'' ''catalog_admin'' LIST_CREATE_METHODS
        [Literal ''tenants'', One, Literal ''catalogs'', One, Literal ''collections''],
      builtin_statement ''builtin:catalog-admin:collection-lifecycle'' ''catalog_admin'' RESOURCE_METHODS
        [Literal ''tenants'', One, Literal ''catalogs'', One, Literal ''collections'', One],
      builtin_statement ''builtin:catalog-admin:role-bindings'' ''catalog_admin'' ALL_METHODS
        [Literal ''tenants'', One, Literal ''catalogs'', One, Literal ''role-bindings'', Remainder],
      builtin_statement ''builtin:catalog-admin:policies'' ''catalog_admin'' ALL_METHODS
        [Literal ''tenants'', One, Literal ''catalogs'', One, Literal ''policies'', Remainder],
      builtin_statement ''builtin:collection-editor:assets'' ''collection_editor'' ALL_METHODS
        [Literal ''tenants'', One, Literal ''catalogs'', One, Literal ''collections'', One, Literal ''assets'', Remainder],
      builtin_statement ''builtin:collection-editor:data'' ''collection_editor'' ALL_METHODS
        [Literal ''tenants'', One, Literal ''catalogs'', One, Literal ''collections'', One, Literal ''data'', Remainder],
      builtin_statement ''builtin:collection-editor:items'' ''collection_editor'' ALL_METHODS
        [Literal ''tenants'', One, Literal ''catalogs'', One, Literal ''collections'', One, Literal ''items'', Remainder],
      builtin_statement ''builtin:collection-editor:metadata'' ''collection_editor'' ALL_METHODS
        [Literal ''tenants'', One, Literal ''catalogs'', One, Literal ''collections'', One, Literal ''metadata'', Remainder],
      builtin_statement ''builtin:collection-editor:styles'' ''collection_editor'' ALL_METHODS
        [Literal ''tenants'', One, Literal ''catalogs'', One, Literal ''collections'', One, Literal ''styles'', Remainder],
      builtin_statement ''builtin:publisher:catalog-visibility'' ''publisher'' WRITE_METHODS
        [Literal ''tenants'', One, Literal ''catalogs'', One, Literal ''visibility''],
      builtin_statement ''builtin:publisher:collection-visibility'' ''publisher'' WRITE_METHODS
        [Literal ''tenants'', One, Literal ''catalogs'', One, Literal ''collections'', One, Literal ''visibility''],
      builtin_statement ''builtin:publisher:publication'' ''publisher'' WRITE_METHODS
        [Literal ''tenants'', One, Literal ''catalogs'', One, Literal ''collections'', One, Literal ''publication''],
      builtin_statement ''builtin:viewer:read'' ''viewer'' READ_METHODS
        [Remainder]]"

lemma builtin_compiled [code]: "compile_builtin_policy_templates = Inr builtin_statements"
  by code_simp

end
