(* ===== verification/Control_Snapshot.thy ===== *)
theory Control_Snapshot
  imports Path_Policy
begin

text \<open>
  The persisted state of the control plane: \<open>ControlSnapshot\<close> with its validation and
  \<open>VersionedControlSnapshot\<close> (\<open>control_model.rs\<close>), and the immutable authorization
  view \<open>ValidatedControlSnapshot\<close> compiled from a validated snapshot
  (\<open>control_admin_policy.rs\<close>). The lemmas say what validation establishes and that the
  compiled view always exists for a validated snapshot.
\<close>

section \<open>Snapshots\<close>

record 'x control_snapshot =
  sn_config :: "'x app_config"
  sn_bindings :: "role_binding list"
  sn_policies :: "'x path_policy list"
  sn_tombstones :: "control_scope list"

definition validate_durable_bearer_token_sources :: "'x app_config \<Rightarrow> core_error + unit" where
  "validate_durable_bearer_token_sources cfg =
     (if list_ex (\<lambda>e. bt_token e \<noteq> []) (au_bearer_tokens (cfg_auth cfg))
      then Inl (ControlValidation (Refused ''inline bearer token''))
      else Inr ())"

fun check_policies ::
  "'x app_config \<Rightarrow> string set \<Rightarrow> 'x path_policy list \<Rightarrow> core_error + unit" where
  "check_policies cfg policy_ids [] = Inr ()"
| "check_policies cfg policy_ids (policy # rest) =
     and_then (path_policy_validate policy) (\<lambda>_.
     and_then (case pp_scope policy of
         None \<Rightarrow> Inr ()
       | Some scope \<Rightarrow>
           and_then (scope_validate_against scope cfg) (\<lambda>_.
           ensure (policy_within_scope policy cfg) (refuse policy ''outside its effective scope''))) (\<lambda>_.
     and_then (ensure (pp_id policy \<notin> policy_ids)
       (ControlValidation (Duplicate_Entry ''path policy'' (pp_id policy)))) (\<lambda>_.
     check_policies cfg (insert (pp_id policy) policy_ids) rest)))"

fun check_bindings ::
  "'x app_config \<Rightarrow> role_binding set \<Rightarrow> role_binding list \<Rightarrow> core_error + unit" where
  "check_bindings cfg bindings [] = Inr ()"
| "check_bindings cfg bindings (binding # rest) =
     and_then (principal_validate (rb_principal binding) ''role binding'') (\<lambda>_.
     and_then (ensure (\<not> is_blank (rb_role binding)) (ControlValidation (Refused ''role binding role''))) (\<lambda>_.
     and_then (scope_validate_against (rb_scope binding) cfg) (\<lambda>_.
     and_then (ensure (binding \<notin> bindings)
       (ControlValidation (Duplicate_Entry (rb_role binding) (resource_key (rb_scope binding))))) (\<lambda>_.
     check_bindings cfg (insert binding bindings) rest))))"

fun check_tombstones ::
  "'x app_config \<Rightarrow> control_scope set \<Rightarrow> control_scope list \<Rightarrow> core_error + unit" where
  "check_tombstones cfg tombstones [] = Inr ()"
| "check_tombstones cfg tombstones (scope # rest) =
     and_then (scope_validate_against scope cfg) (\<lambda>_.
     and_then (ensure (scope \<notin> tombstones)
       (ControlValidation (Duplicate_Entry ''tombstone'' (resource_key scope)))) (\<lambda>_.
     check_tombstones cfg (insert scope tombstones) rest))"

definition snapshot_validate ::
  "'x config_env \<Rightarrow> 'x control_snapshot \<Rightarrow> core_error + unit" where
  "snapshot_validate env sn =
     and_then (map_err Config (app_config_validate env (sn_config sn))) (\<lambda>_.
     and_then (validate_durable_bearer_token_sources (sn_config sn)) (\<lambda>_.
     and_then validate_builtin_policy_templates (\<lambda>_.
     and_then (check_policies (sn_config sn) {} (sn_policies sn)) (\<lambda>_.
     and_then (check_bindings (sn_config sn) {} (sn_bindings sn)) (\<lambda>_.
     check_tombstones (sn_config sn) {} (sn_tombstones sn))))))"

section \<open>The compiled authorization view\<close>

record 'x validated_control_snapshot =
  vs_source :: "'x control_snapshot"
  vs_config :: "'x app_config"
  vs_bindings :: "role_binding list"
  vs_policies :: "compiled_policy_statement list"

definition snapshot_validated ::
  "'x config_env \<Rightarrow> 'x control_snapshot \<Rightarrow> core_error + 'x validated_control_snapshot" where
  "snapshot_validated env sn =
     and_then (snapshot_validate env sn) (\<lambda>_.
     and_then compile_builtin_policy_templates (\<lambda>builtin.
     and_then (traverse compile_policy_statement
         (filter (\<lambda>p. pp_role p \<noteq> None) (sn_policies sn))) (\<lambda>policies.
     Inr \<lparr>vs_source = sn, vs_config = sn_config sn, vs_bindings = sn_bindings sn,
          vs_policies = builtin @ policies\<rparr>)))"

definition owns_tenant_identifier ::
  "'x validated_control_snapshot \<Rightarrow> string \<Rightarrow> string \<Rightarrow> bool" where
  "owns_tenant_identifier v tenant_id external_id =
     list_ex (\<lambda>t. tn_id t = tenant_id \<and> tenant_external_id t = external_id)
       (cfg_tenants (vs_config v))"

definition owns_catalog_identifier ::
  "'x validated_control_snapshot \<Rightarrow> string \<Rightarrow> string \<Rightarrow> string \<Rightarrow> bool" where
  "owns_catalog_identifier v tenant_id catalog_id external_id =
     list_ex (\<lambda>c. ct_id c = catalog_id \<and> ct_tenant c = tenant_id \<and> catalog_external_id c = external_id)
       (cfg_catalogs (vs_config v))"

definition owns_collection_identifier ::
  "'x validated_control_snapshot \<Rightarrow> string \<Rightarrow> string \<Rightarrow> string \<Rightarrow> bool" where
  "owns_collection_identifier v catalog_id collection_id external_id =
     list_ex (\<lambda>c. cl_id c = collection_id \<and> cl_catalog c = catalog_id
                \<and> collection_external_id c = external_id)
       (cfg_collections (vs_config v))"

section \<open>Versioned snapshots\<close>

text \<open>
  The last three fields are the ones \<open>serde\<close> skips: a deserialized value has them empty,
  so that authority can only come from a value made by \<open>new\<close>.
\<close>

type_synonym entity_versions = "(string, string) fmap"

record 'x versioned_control_snapshot =
  vc_snapshot :: "'x control_snapshot"
  vc_revision :: u64
  vc_entity_versions :: entity_versions
  vc_validated :: "'x validated_control_snapshot option"
  vc_validated_revision :: "u64 option"
  vc_validated_entity_versions :: "entity_versions option"

definition versioned_new ::
  "'x config_env \<Rightarrow> 'x control_snapshot \<Rightarrow> u64 \<Rightarrow> entity_versions \<Rightarrow>
   core_error + 'x versioned_control_snapshot" where
  "versioned_new env sn revision versions =
     and_then (snapshot_validated env sn) (\<lambda>validated.
     Inr \<lparr>vc_snapshot = sn, vc_revision = revision, vc_entity_versions = versions,
          vc_validated = Some validated, vc_validated_revision = Some revision,
          vc_validated_entity_versions = Some versions\<rparr>)"

definition validated_state ::
  "'x versioned_control_snapshot \<Rightarrow>
   core_error + ('x validated_control_snapshot \<times> u64 \<times> entity_versions)" where
  "validated_state v =
     (let invalid = ControlValidation (Refused ''not constructed through validation'') in
     and_then (ok_or (vc_validated v) invalid) (\<lambda>validated.
     and_then (ok_or (vc_validated_revision v) invalid) (\<lambda>revision.
     and_then (ok_or (vc_validated_entity_versions v) invalid) (\<lambda>versions.
     Inr (validated, revision, versions)))))"

definition validated_snapshot ::
  "'x versioned_control_snapshot \<Rightarrow> core_error + 'x validated_control_snapshot" where
  "validated_snapshot v = and_then (validated_state v) (\<lambda>(validated, _, _). Inr validated)"

section \<open>What validation establishes\<close>

lemma check_policies_iff:
  "check_policies cfg seen ps = Inr () \<longleftrightarrow>
     (\<forall>p \<in> set ps. is_ok (path_policy_validate p)
        \<and> (\<forall>s. pp_scope p = Some s \<longrightarrow> scope_validate_against s cfg = Inr () \<and> policy_within_scope p cfg))
     \<and> distinct (map pp_id ps) \<and> pp_id ` set ps \<inter> seen = {}"
  by (induction ps arbitrary: seen) (auto simp: result_simps split: option.splits)

lemma check_bindings_iff:
  "check_bindings cfg seen bs = Inr () \<longleftrightarrow>
     (\<forall>b \<in> set bs. principal_validate (rb_principal b) ''role binding'' = Inr ()
        \<and> \<not> is_blank (rb_role b) \<and> scope_validate_against (rb_scope b) cfg = Inr ())
     \<and> distinct bs \<and> set bs \<inter> seen = {}"
  by (induction bs arbitrary: seen) (auto simp: result_simps)

lemma check_tombstones_iff:
  "check_tombstones cfg seen ts = Inr () \<longleftrightarrow>
     (\<forall>s \<in> set ts. scope_validate_against s cfg = Inr ()) \<and> distinct ts \<and> set ts \<inter> seen = {}"
  by (induction ts arbitrary: seen) (auto simp: result_simps)

lemma builtin_ok [simp]: "validate_builtin_policy_templates = Inr ()"
  by (simp add: validate_builtin_policy_templates_def builtin_compiled)

lemma snapshot_validate_iff:
  "snapshot_validate env sn = Inr () \<longleftrightarrow>
     app_config_validate env (sn_config sn) = Inr ()
     \<and> validate_durable_bearer_token_sources (sn_config sn) = Inr ()
     \<and> check_policies (sn_config sn) {} (sn_policies sn) = Inr ()
     \<and> check_bindings (sn_config sn) {} (sn_bindings sn) = Inr ()
     \<and> check_tombstones (sn_config sn) {} (sn_tombstones sn) = Inr ()"
  by (auto simp: snapshot_validate_def result_simps)

text \<open>Compiling the authorization view adds no failure of its own.\<close>

lemma traverse_total: "(\<And>x. x \<in> set xs \<Longrightarrow> \<exists>y. f x = Inr y) \<Longrightarrow> \<exists>ys. traverse f xs = Inr ys"
  by (induction xs) (auto, metis and_then_simps(2))

lemma snapshot_validated_total:
  assumes "snapshot_validate env sn = Inr ()"
  obtains policies where
    "traverse compile_policy_statement (filter (\<lambda>p. pp_role p \<noteq> None) (sn_policies sn)) = Inr policies"
    "snapshot_validated env sn = Inr \<lparr>vs_source = sn, vs_config = sn_config sn,
       vs_bindings = sn_bindings sn, vs_policies = builtin_statements @ policies\<rparr>"
proof -
  have "\<exists>s. compile_policy_statement p = Inr s" if "p \<in> set (sn_policies sn)" "pp_role p \<noteq> None" for p
  proof -
    have "is_ok (path_policy_validate p)"
      using assms that(1) by (simp add: snapshot_validate_iff check_policies_iff)
    with that(2) validated_compiles show ?thesis by (auto simp: is_ok_iff)
  qed
  then have "\<exists>y. compile_policy_statement p = Inr y"
    if "p \<in> set (filter (\<lambda>p. pp_role p \<noteq> None) (sn_policies sn))" for p
    using that by auto
  then obtain policies where
    "traverse compile_policy_statement (filter (\<lambda>p. pp_role p \<noteq> None) (sn_policies sn)) = Inr policies"
    using traverse_total by metis
  with that show thesis
    by (simp add: snapshot_validated_def assms builtin_compiled)
qed

lemma snapshot_validated_D:
  assumes "snapshot_validated env sn = Inr v"
  shows "snapshot_validate env sn = Inr ()" "vs_source v = sn" "vs_config v = sn_config sn"
    "vs_bindings v = sn_bindings sn"
    "\<exists>policies. traverse compile_policy_statement
        (filter (\<lambda>p. pp_role p \<noteq> None) (sn_policies sn)) = Inr policies
      \<and> vs_policies v = builtin_statements @ policies"
proof -
  have "is_ok (snapshot_validate env sn)"
    using assms by (auto simp: snapshot_validated_def and_then_Inr_iff is_ok_iff)
  then show val: "snapshot_validate env sn = Inr ()" by (auto simp: is_ok_iff)
  obtain policies where p: "traverse compile_policy_statement
      (filter (\<lambda>p. pp_role p \<noteq> None) (sn_policies sn)) = Inr policies"
    and "snapshot_validated env sn = Inr \<lparr>vs_source = sn, vs_config = sn_config sn,
       vs_bindings = sn_bindings sn, vs_policies = builtin_statements @ policies\<rparr>"
    by (rule snapshot_validated_total [OF val])
  then have v: "v = \<lparr>vs_source = sn, vs_config = sn_config sn,
       vs_bindings = sn_bindings sn, vs_policies = builtin_statements @ policies\<rparr>"
    using assms by simp
  show "vs_source v = sn" "vs_config v = sn_config sn" "vs_bindings v = sn_bindings sn"
    by (simp_all add: v)
  show "\<exists>policies. traverse compile_policy_statement
        (filter (\<lambda>p. pp_role p \<noteq> None) (sn_policies sn)) = Inr policies
      \<and> vs_policies v = builtin_statements @ policies"
    using p by (simp add: v)
qed

lemma snapshot_validated_iff: "(\<exists>v. snapshot_validated env sn = Inr v) \<longleftrightarrow> snapshot_validate env sn = Inr ()"
  by (blast elim: snapshot_validated_total dest: snapshot_validated_D(1))

lemma builtin_wf: "s \<in> set builtin_statements \<Longrightarrow> wf_statement s"
proof -
  assume "s \<in> set builtin_statements"
  then obtain t where "compile_policy_statement (builtin_policy t) = Inr s"
    using traverse_set [OF builtin_compiled [unfolded compile_builtin_policy_templates_def]] by blast
  then show "wf_statement s" by (rule compile_policy_statement_D(1))
qed

text \<open>Where a statement of the compiled view comes from.\<close>

lemma validated_statement_cases:
  assumes "snapshot_validated env sn = Inr v" "s \<in> set (vs_policies v)"
  obtains (builtin) "s \<in> set builtin_statements"
  | (policy) p where "p \<in> set (sn_policies sn)" "compile_policy_statement p = Inr s"
proof -
  obtain policies where p: "traverse compile_policy_statement
      (filter (\<lambda>p. pp_role p \<noteq> None) (sn_policies sn)) = Inr policies"
    and v: "vs_policies v = builtin_statements @ policies"
    using snapshot_validated_D(5) [OF assms(1)] by blast
  from assms(2) v consider "s \<in> set builtin_statements" | "s \<in> set policies" by auto
  then show thesis
  proof cases
    case 1
    then show thesis by (rule builtin)
  next
    case 2
    then obtain q where "q \<in> set (filter (\<lambda>p. pp_role p \<noteq> None) (sn_policies sn))"
      "compile_policy_statement q = Inr s"
      using traverse_set [OF p] by blast
    with policy show thesis by auto
  qed
qed

lemma validated_statement_wf:
  assumes "snapshot_validated env sn = Inr v" "s \<in> set (vs_policies v)"
  shows "wf_statement s"
  using assms
  by (cases rule: validated_statement_cases) (auto simp: builtin_wf compile_policy_statement_D(1))

lemma versioned_new_state:
  "versioned_new env sn revision versions = Inr v \<Longrightarrow>
   \<exists>validated. snapshot_validated env sn = Inr validated
     \<and> validated_state v = Inr (validated, revision, versions) \<and> vc_snapshot v = sn
     \<and> vc_revision v = revision \<and> vc_entity_versions v = versions"
  by (auto simp: versioned_new_def validated_state_def result_simps Let_def)

end
