(* ===== verification/Samples.thy ===== *)
theory Samples
  imports Control_Snapshot
begin

text \<open>
  A small deployment on which the witnesses of the development evaluate the model: one
  tenant with two catalogs and a collection, a system administrator, a tenant administrator and a
  deny policy on one route. Everything the model leaves abstract is instantiated by the checks that
  accept and by \<open>unit\<close> contents.
\<close>

definition sample_env :: "unit config_env" where
  "sample_env =
     \<lparr>env_head_ok = \<lambda>_. True, env_stac_ok = \<lambda>_. True, env_colormap_ok = \<lambda>_. True,
      env_object_store_ok = \<lambda>_. True, env_collection_shape_ok = \<lambda>_. True,
      env_styles_ok = \<lambda>_. True, env_issuers_ok = \<lambda>_. True, env_grant_ok = \<lambda>_ _ _. True,
      env_webhooks_ok = \<lambda>_. True\<rparr>"

definition sample_tenant :: "string \<Rightarrow> string \<Rightarrow> unit tenant_decl" where
  "sample_tenant i external =
     \<lparr>tn_id = i, tn_external = Some external, tn_settings = default_settings\<rparr>"

definition sample_catalog :: "string \<Rightarrow> string \<Rightarrow> unit catalog_decl" where
  "sample_catalog i tenant =
     \<lparr>ct_id = i, ct_external = None, ct_tenant = tenant, ct_settings = default_settings,
      ct_visibility = \<lparr>vis_public = True, vis_shared_with = []\<rparr>\<rparr>"

definition sample_routing :: routing_decl where
  "sample_routing = \<lparr>ro_features = None, ro_tiles = None, ro_maps = None, ro_write = None,
     ro_index = None, ro_search = None\<rparr>"

definition sample_collection :: "string \<Rightarrow> string \<Rightarrow> unit collection_decl" where
  "sample_collection i catalog =
     \<lparr>cl_id = i, cl_external = None, cl_catalog = catalog, cl_storage = ''pg'',
      cl_routing = sample_routing, cl_settings = default_settings,
      cl_visibility = \<lparr>vis_public = True, vis_shared_with = []\<rparr>, cl_object_store = None,
      cl_rest = ()\<rparr>"

definition sample_config :: "unit app_config" where
  "sample_config =
     \<lparr>cfg_storages = [\<lparr>st_id = ''pg'', st_driver = ''postgis'', st_url_env = ''PG_URL'', st_pool_size = None\<rparr>],
      cfg_object_stores = [],
      cfg_tenants = [sample_tenant ''t1'' ''acme''],
      cfg_catalogs = [sample_catalog ''c1'' ''t1'', sample_catalog ''c2'' ''t1''],
      cfg_collections = [sample_collection ''k1'' ''c1''],
      cfg_profiles = [], cfg_settings = default_settings,
      cfg_auth = \<lparr>au_bearer_tokens = [], au_oidc = None, au_trusted_issuers = [], au_browser = None\<rparr>,
      cfg_registry = \<lparr>rg_lazy = False, rg_backend = File, rg_storage = None, rg_implementation = None\<rparr>,
      cfg_policy = \<lparr>pc_roles = [], pc_tenant_policies = []\<rparr>, cfg_rest = ()\<rparr>"

definition sample_principal :: "string \<Rightarrow> principal_identity" where
  "sample_principal s = \<lparr>pr_issuer = ''https://idp'', pr_subject = s\<rparr>"

definition sample_binding :: "string \<Rightarrow> string \<Rightarrow> control_scope \<Rightarrow> role_binding" where
  "sample_binding who role scope =
     \<lparr>rb_principal = sample_principal who, rb_role = role, rb_scope = scope\<rparr>"

definition sample_deny :: "unit path_policy" where
  "sample_deny = path_policy_new ''no-purge'' ''tenant_admin'' (Tenant ''t1'') Deny [''DELETE'']
     [''/_control/v1/tenants/acme/catalogs/*'']"

definition sample_snapshot :: "unit control_snapshot" where
  "sample_snapshot =
     \<lparr>sn_config = sample_config,
      sn_bindings = [sample_binding ''root'' ''sysadmin'' Platform,
                     sample_binding ''ann'' ''tenant_admin'' (Tenant ''t1'')],
      sn_policies = [sample_deny], sn_tombstones = []\<rparr>"

definition sample_deny_statement :: compiled_policy_statement where
  "sample_deny_statement =
     \<lparr>cs_id = ''no-purge'', cs_role = ''tenant_admin'', cs_scope = Tenant ''t1'', cs_effect = Deny,
      cs_methods = [''DELETE''],
      cs_patterns = [[Literal ''_control'', Literal ''v1'', Literal ''tenants'', Literal ''acme'',
                      Literal ''catalogs'', One]],
      cs_has_conditions = False\<rparr>"

definition sample_view :: "unit validated_control_snapshot" where
  "sample_view =
     \<lparr>vs_source = sample_snapshot, vs_config = sample_config, vs_bindings = sn_bindings sample_snapshot,
      vs_policies = builtin_statements @ [sample_deny_statement]\<rparr>"

lemma sample_config_valid: "app_config_validate sample_env sample_config = Inr ()"
  by code_simp

lemma sample_valid [simp]: "snapshot_validate sample_env sample_snapshot = Inr ()"
  by code_simp

lemma sample_deny_compiled: "compile_policy_statement sample_deny = Inr sample_deny_statement"
  by code_simp

lemma sample_validated [simp]: "snapshot_validated sample_env sample_snapshot = Inr sample_view"
proof -
  have p: "sn_policies sample_snapshot = [sample_deny]" "pp_role sample_deny \<noteq> None"
    by (simp_all add: sample_snapshot_def sample_deny_def path_policy_new_def)
  have "sn_config sample_snapshot = sample_config" by (simp add: sample_snapshot_def)
  with p show ?thesis
    by (simp add: snapshot_validated_def builtin_compiled sample_deny_compiled sample_view_def)
qed

end
