(* ===== verification/Control_Evaluate.thy ===== *)
theory Control_Evaluate
  imports Samples
begin

text \<open>
  \<open>control_admin_policy.rs\<close>: the default-deny evaluation of a control request, once as
  the fast decision and once as the explanation that lists the matching statements. An
  abstract specification (some applicable unconditional allow, no applicable deny) is shown to be
  what both compute.
\<close>

section \<open>Requests and decisions\<close>

record 'x authenticated_subject =
  as_principal :: principal_identity
  as_claims :: 'x

record control_request_context =
  rq_method :: string
  rq_canonical_path :: string
  rq_route_template :: string
  rq_scope :: control_scope

datatype control_decision = Decision_Allow | Decision_Deny

record control_evaluation =
  ev_decision :: control_decision
  ev_effective_scope :: control_scope
  ev_evaluated_roles :: "string list"
  ev_matched_allows :: "string list"
  ev_matched_denies :: "string list"

definition denied :: "control_scope \<Rightarrow> control_evaluation" where
  "denied scope =
     \<lparr>ev_decision = Decision_Deny, ev_effective_scope = scope, ev_evaluated_roles = [],
      ev_matched_allows = [], ev_matched_denies = []\<rparr>"

definition canonical_request_path :: "control_request_context \<Rightarrow> canonical_control_path option" where
  "canonical_request_path request =
     (case ok (canonicalize_control_path (rq_canonical_path request) []) of
        None \<Rightarrow> None
      | Some path \<Rightarrow> if cp_value path = rq_canonical_path request then Some path else None)"

text \<open>The filters of the two loops.\<close>

definition applicable_bindings ::
  "principal_identity \<Rightarrow> control_scope \<Rightarrow> role_binding list \<Rightarrow> role_binding list" where
  "applicable_bindings who scope bindings =
     filter (\<lambda>b. scope_contains (rb_scope b) scope)
       (filter (\<lambda>b. rb_principal b = who) bindings)"

definition applicable_policies ::
  "role_binding \<Rightarrow> control_request_context \<Rightarrow> canonical_control_path \<Rightarrow>
   compiled_policy_statement list \<Rightarrow> compiled_policy_statement list" where
  "applicable_policies binding request path policies =
     filter (\<lambda>p. statement_matches p path)
       (filter (\<lambda>p. list_ex (\<lambda>m. m = rq_method request) (cs_methods p))
         (filter (\<lambda>p. scope_contains (cs_scope p) (rq_scope request))
           (filter (\<lambda>p. cs_role p = rb_role binding) policies)))"

text \<open>
  The fast path: a deny returns at once (\<open>None\<close>), an unconditional allow sets the flag.
\<close>

fun scan_policies :: "compiled_policy_statement list \<Rightarrow> bool \<Rightarrow> bool option" where
  "scan_policies [] allowed = Some allowed"
| "scan_policies (p # ps) allowed =
     (case cs_effect p of
        Deny \<Rightarrow> None
      | Allow \<Rightarrow> scan_policies ps (if \<not> cs_has_conditions p then True else allowed))"

fun scan_bindings ::
  "control_request_context \<Rightarrow> canonical_control_path \<Rightarrow> compiled_policy_statement list \<Rightarrow>
   role_binding list \<Rightarrow> bool \<Rightarrow> bool option" where
  "scan_bindings request path policies [] allowed = Some allowed"
| "scan_bindings request path policies (b # bs) allowed =
     (case scan_policies (applicable_policies b request path policies) allowed of
        None \<Rightarrow> None
      | Some allowed' \<Rightarrow> scan_bindings request path policies bs allowed')"

definition authorize_control_canonical ::
  "'y authenticated_subject \<Rightarrow> control_request_context \<Rightarrow> 'x validated_control_snapshot \<Rightarrow>
   canonical_control_path \<Rightarrow> control_decision" where
  "authorize_control_canonical subject request snapshot path =
     (if cp_value path \<noteq> rq_canonical_path request then Decision_Deny
      else (case scan_bindings request path (vs_policies snapshot)
                (applicable_bindings (as_principal subject) (rq_scope request) (vs_bindings snapshot))
                False of
              None \<Rightarrow> Decision_Deny
            | Some allowed \<Rightarrow> if allowed then Decision_Allow else Decision_Deny))"

definition authorize_control ::
  "'y authenticated_subject \<Rightarrow> control_request_context \<Rightarrow> 'x validated_control_snapshot \<Rightarrow>
   control_decision" where
  "authorize_control subject request snapshot =
     (case canonical_request_path request of
        None \<Rightarrow> Decision_Deny
      | Some path \<Rightarrow> authorize_control_canonical subject request snapshot path)"

text \<open>The explanation collects the identifiers, then sorts them and removes duplicates.\<close>

record evaluation_lists =
  el_allows :: "string list"
  el_denies :: "string list"
  el_roles :: "string list"

fun collect_policies :: "compiled_policy_statement list \<Rightarrow> evaluation_lists \<Rightarrow> evaluation_lists" where
  "collect_policies [] acc = acc"
| "collect_policies (p # ps) acc =
     collect_policies ps
       (case cs_effect p of
          Allow \<Rightarrow> if \<not> cs_has_conditions p then acc\<lparr>el_allows := el_allows acc @ [cs_id p]\<rparr> else acc
        | Deny \<Rightarrow> acc\<lparr>el_denies := el_denies acc @ [cs_id p]\<rparr>)"

fun collect_bindings ::
  "control_request_context \<Rightarrow> canonical_control_path \<Rightarrow> compiled_policy_statement list \<Rightarrow>
   role_binding list \<Rightarrow> evaluation_lists \<Rightarrow> evaluation_lists" where
  "collect_bindings request path policies [] acc = acc"
| "collect_bindings request path policies (b # bs) acc =
     collect_bindings request path policies bs
       (collect_policies (applicable_policies b request path policies)
         (acc\<lparr>el_roles := el_roles acc @ [rb_role b]\<rparr>))"

definition explain_control_canonical ::
  "'y authenticated_subject \<Rightarrow> control_request_context \<Rightarrow> 'x validated_control_snapshot \<Rightarrow>
   canonical_control_path \<Rightarrow> control_evaluation" where
  "explain_control_canonical subject request snapshot path =
     (if cp_value path \<noteq> rq_canonical_path request then denied (rq_scope request)
      else
        let acc = collect_bindings request path (vs_policies snapshot)
              (applicable_bindings (as_principal subject) (rq_scope request) (vs_bindings snapshot))
              \<lparr>el_allows = [], el_denies = [], el_roles = []\<rparr>;
            allows = dedup (sort (el_allows acc));
            denies = dedup (sort (el_denies acc));
            roles = dedup (sort (el_roles acc))
        in \<lparr>ev_decision = (if denies = [] \<and> allows \<noteq> [] then Decision_Allow else Decision_Deny),
            ev_effective_scope = rq_scope request, ev_evaluated_roles = roles,
            ev_matched_allows = allows, ev_matched_denies = denies\<rparr>)"

definition explain_control ::
  "'y authenticated_subject \<Rightarrow> control_request_context \<Rightarrow> 'x validated_control_snapshot \<Rightarrow>
   control_evaluation" where
  "explain_control subject request snapshot =
     (case canonical_request_path request of
        None \<Rightarrow> denied (rq_scope request)
      | Some path \<Rightarrow> explain_control_canonical subject request snapshot path)"

section \<open>The abstract decision\<close>

text \<open>
  The statements that bear on a request, as a set: those of a role the principal is bound to at
  an ancestor of the resource, whose own scope is an ancestor too, and whose methods and patterns
  match. Order and multiplicity do not appear in it.
\<close>

definition applies ::
  "principal_identity \<Rightarrow> control_request_context \<Rightarrow> canonical_control_path \<Rightarrow> role_binding \<Rightarrow>
   compiled_policy_statement \<Rightarrow> bool" where
  "applies who request path b p \<longleftrightarrow>
     rb_principal b = who \<and> scope_contains (rb_scope b) (rq_scope request)
     \<and> cs_role p = rb_role b \<and> scope_contains (cs_scope p) (rq_scope request)
     \<and> rq_method request \<in> set (cs_methods p)
     \<and> (\<exists>q \<in> set (cs_patterns p). segments_match q (cp_segments path))"

definition bearing_statements ::
  "principal_identity \<Rightarrow> control_request_context \<Rightarrow> canonical_control_path \<Rightarrow>
   role_binding set \<Rightarrow> compiled_policy_statement set \<Rightarrow> compiled_policy_statement set" where
  "bearing_statements who request path bindings policies =
     {p \<in> policies. \<exists>b \<in> bindings. applies who request path b p}"

definition grants :: "compiled_policy_statement \<Rightarrow> bool" where
  "grants p \<longleftrightarrow> cs_effect p = Allow \<and> \<not> cs_has_conditions p"

definition spec_allows :: "compiled_policy_statement set \<Rightarrow> bool" where
  "spec_allows bearing \<longleftrightarrow> (\<exists>p \<in> bearing. grants p) \<and> (\<forall>p \<in> bearing. cs_effect p = Allow)"

definition bearing ::
  "'y authenticated_subject \<Rightarrow> control_request_context \<Rightarrow> 'x validated_control_snapshot \<Rightarrow>
   canonical_control_path \<Rightarrow> compiled_policy_statement set" where
  "bearing subject request snapshot path =
     bearing_statements (as_principal subject) request path (set (vs_bindings snapshot))
       (set (vs_policies snapshot))"

section \<open>The code computes it\<close>

lemma not_deny_iff: "e \<noteq> Deny \<longleftrightarrow> e = Allow"
  by (cases e) simp_all

lemma spec_allows_alt:
  "spec_allows B \<longleftrightarrow> \<not> (\<exists>p \<in> B. cs_effect p = Deny) \<and> (\<exists>p \<in> B. grants p)"
  by (auto simp: spec_allows_def not_deny_iff [symmetric])

lemma scan_policies_iff:
  "scan_policies ps allowed =
     (if \<exists>p \<in> set ps. cs_effect p = Deny then None else Some (allowed \<or> (\<exists>p \<in> set ps. grants p)))"
  by (induction ps arbitrary: allowed) (auto simp: grants_def split: policy_effect.splits)

lemma scan_bindings_iff:
  "scan_bindings request path policies bs allowed =
     (if \<exists>b \<in> set bs. \<exists>p \<in> set (applicable_policies b request path policies). cs_effect p = Deny
      then None
      else Some (allowed \<or> (\<exists>b \<in> set bs. \<exists>p \<in> set (applicable_policies b request path policies). grants p)))"
  by (induction bs arbitrary: allowed) (auto simp: scan_policies_iff)

lemma applicable_iff:
  "(\<exists>b \<in> set (applicable_bindings who (rq_scope request) bindings).
      \<exists>p \<in> set (applicable_policies b request path policies). P p) \<longleftrightarrow>
   (\<exists>p \<in> bearing_statements who request path (set bindings) (set policies). P p)"
  by (auto simp: applicable_bindings_def applicable_policies_def bearing_statements_def applies_def
      statement_matches_def pattern_matches_def list_ex_iff)

lemma collect_policies_sets:
  "set (el_allows (collect_policies ps acc)) = set (el_allows acc) \<union> cs_id ` {p \<in> set ps. grants p}"
  "set (el_denies (collect_policies ps acc)) = set (el_denies acc) \<union> cs_id ` {p \<in> set ps. cs_effect p = Deny}"
  "el_roles (collect_policies ps acc) = el_roles acc"
  by (induction ps arbitrary: acc) (auto simp: grants_def split: policy_effect.splits)

lemma collect_bindings_sets:
  "set (el_allows (collect_bindings request path policies bs acc)) =
     set (el_allows acc) \<union> {cs_id p | p. \<exists>b \<in> set bs. p \<in> set (applicable_policies b request path policies) \<and> grants p}"
  "set (el_denies (collect_bindings request path policies bs acc)) =
     set (el_denies acc) \<union> {cs_id p | p. \<exists>b \<in> set bs. p \<in> set (applicable_policies b request path policies) \<and> cs_effect p = Deny}"
  "set (el_roles (collect_bindings request path policies bs acc)) = set (el_roles acc) \<union> rb_role ` set bs"
  by (induction bs arbitrary: acc) (auto simp: collect_policies_sets)

lemma authorize_canonical_iff:
  "authorize_control_canonical subject request snapshot path = Decision_Allow \<longleftrightarrow>
     cp_value path = rq_canonical_path request \<and> spec_allows (bearing subject request snapshot path)"
proof -
  let ?B = "applicable_bindings (as_principal subject) (rq_scope request) (vs_bindings snapshot)"
  let ?has = "\<lambda>P. \<exists>b \<in> set ?B. \<exists>p \<in> set (applicable_policies b request path (vs_policies snapshot)). P p"
  have "authorize_control_canonical subject request snapshot path = Decision_Allow \<longleftrightarrow>
      cp_value path = rq_canonical_path request \<and> \<not> ?has (\<lambda>p. cs_effect p = Deny) \<and> ?has grants"
    by (simp add: authorize_control_canonical_def scan_bindings_iff)
  also have "\<dots> \<longleftrightarrow> cp_value path = rq_canonical_path request
      \<and> spec_allows (bearing subject request snapshot path)"
    unfolding applicable_iff bearing_def spec_allows_alt by blast
  finally show ?thesis .
qed

lemma explain_lists:
  assumes "cp_value path = rq_canonical_path request"
    and ev: "ev = explain_control_canonical subject request snapshot path"
  shows "set (ev_matched_allows ev) = cs_id ` {p \<in> bearing subject request snapshot path. grants p}"
    and "set (ev_matched_denies ev) = cs_id ` {p \<in> bearing subject request snapshot path. cs_effect p = Deny}"
    and "set (ev_evaluated_roles ev) = rb_role ` {b \<in> set (vs_bindings snapshot).
           rb_principal b = as_principal subject \<and> scope_contains (rb_scope b) (rq_scope request)}"
    and "ev_effective_scope ev = rq_scope request"
  using assms(1) unfolding ev explain_control_canonical_def Let_def bearing_def
  by (auto simp: collect_bindings_sets applicable_bindings_def applicable_policies_def
      bearing_statements_def applies_def statement_matches_def pattern_matches_def list_ex_iff)

lemma explain_decision:
  "ev_decision (explain_control_canonical subject request snapshot path) =
   authorize_control_canonical subject request snapshot path"
proof (cases "cp_value path = rq_canonical_path request")
  case False
  then show ?thesis
    by (simp add: explain_control_canonical_def authorize_control_canonical_def denied_def)
next
  case True
  let ?ev = "explain_control_canonical subject request snapshot path"
  have "ev_decision ?ev = Decision_Allow \<longleftrightarrow>
      set (ev_matched_denies ?ev) = {} \<and> set (ev_matched_allows ?ev) \<noteq> {}"
    using True by (simp add: explain_control_canonical_def Let_def)
  also have "\<dots> \<longleftrightarrow> spec_allows (bearing subject request snapshot path)"
    unfolding explain_lists [OF True refl] spec_allows_alt by blast
  also have "\<dots> \<longleftrightarrow> authorize_control_canonical subject request snapshot path = Decision_Allow"
    using True by (simp add: authorize_canonical_iff)
  finally show ?thesis by (metis control_decision.exhaust)
qed

lemma canonical_request_path_D:
  "canonical_request_path request = Some path \<Longrightarrow>
   canonicalize_control_path (rq_canonical_path request) [] = Inr path
   \<and> cp_value path = rq_canonical_path request"
  by (auto simp: canonical_request_path_def ok_Some_iff split: option.splits if_splits)


section \<open>Properties\<close>

text \<open>
  C4. Default deny and deny overrides: a request is allowed exactly when its path is canonical,
  some unconditional allow statement bears on it and no deny statement does. Which statements bear
  is a set, so neither the order nor the repetition of bindings and policies matters.
\<close>

theorem authorize_decides_bearing_statements:
  "authorize_control subject request snapshot = Decision_Allow \<longleftrightarrow>
     (\<exists>path. canonical_request_path request = Some path
        \<and> (\<exists>p \<in> bearing subject request snapshot path. grants p)
        \<and> bearing subject request snapshot path \<inter> {p. cs_effect p = Deny} = {})"
proof (cases "canonical_request_path request")
  case None
  then show ?thesis by (simp add: authorize_control_def)
next
  case (Some path)
  with canonical_request_path_D [OF Some] show ?thesis
    by (auto simp: authorize_control_def authorize_canonical_iff spec_allows_alt)
qed

text \<open>
  The explanation is faithful to the decision: it reports the decision \<open>authorize\<close>
  takes, the identifiers of exactly the bearing unconditional allows and of exactly the bearing
  denies, sorted and without duplicates, for the scope of the request.
\<close>

definition explains ::
  "control_evaluation \<Rightarrow> compiled_policy_statement set \<Rightarrow> control_scope \<Rightarrow> bool" where
  "explains ev statements scope \<longleftrightarrow>
     set (ev_matched_allows ev) = cs_id ` {p \<in> statements. grants p}
     \<and> set (ev_matched_denies ev) = cs_id ` {p \<in> statements. cs_effect p = Deny}
     \<and> sorted_wrt (<) (ev_matched_allows ev) \<and> sorted_wrt (<) (ev_matched_denies ev)
     \<and> sorted_wrt (<) (ev_evaluated_roles ev) \<and> ev_effective_scope ev = scope"

lemma explain_is_faithful:
  "ev_decision (explain_control subject request snapshot) = authorize_control subject request snapshot
   \<and> explains (explain_control subject request snapshot)
       (case canonical_request_path request of
          None \<Rightarrow> {} | Some path \<Rightarrow> bearing subject request snapshot path) (rq_scope request)"
proof (cases "canonical_request_path request")
  case None
  then show ?thesis
    by (simp add: explain_control_def authorize_control_def denied_def explains_def)
next
  case (Some path)
  then have v: "cp_value path = rq_canonical_path request" by (simp add: canonical_request_path_D)
  have "sorted_wrt (<) (dedup (sort xs))" for xs :: "string list"
    using dedup_sorted_distinct [of "sort xs"] by (simp add: strict_sorted_iff)
  with v have "sorted_wrt (<) (ev_matched_allows (explain_control_canonical subject request snapshot path))"
    "sorted_wrt (<) (ev_matched_denies (explain_control_canonical subject request snapshot path))"
    "sorted_wrt (<) (ev_evaluated_roles (explain_control_canonical subject request snapshot path))"
    by (simp_all add: explain_control_canonical_def Let_def)
  with explain_lists [OF v refl, where subject = subject and snapshot = snapshot] Some
    explain_decision [of subject request snapshot path]
  show ?thesis
    by (simp add: explain_control_def authorize_control_def explains_def)
qed

end
