(* ===== verification/Delegation.thy ===== *)
theory Delegation
  imports Control_Evaluate
begin

text \<open>
  \<open>control_admin_policy.rs\<close>: what a principal may hand on. A policy or a role binding may
  be delegated only inside the delegator's own allows and outside its own denies, and a binding may
  be removed only by a principal who holds everything the binding's denies block. The results of
  the last section state that these structural checks on patterns and scopes imply it for every
  request: nobody hands on, or frees, an authority they do not have themselves.
\<close>

section \<open>The checks\<close>

datatype delegation_error =
    LegacyStatement
  | InvalidStatement
  | OutsideAllowEnvelope
  | IntersectsExplicitDeny

definition narrower_scope :: "control_scope \<Rightarrow> control_scope \<Rightarrow> control_scope option" where
  "narrower_scope left right =
     (if scope_contains left right then Some right
      else if scope_contains right left then Some left
      else None)"

definition scopes_overlap :: "control_scope \<Rightarrow> control_scope \<Rightarrow> bool" where
  "scopes_overlap left right = (scope_contains left right \<or> scope_contains right left)"

definition deny_reaches ::
  "role_binding \<Rightarrow> compiled_policy_statement \<Rightarrow> control_scope \<Rightarrow> compiled_pattern \<Rightarrow>
   'x app_config \<Rightarrow> bool" where
  "deny_reaches binding policy delegated_scope delegated_pattern cfg =
     (case narrower_scope (rb_scope binding) (cs_scope policy) of
        None \<Rightarrow> False
      | Some effective_scope \<Rightarrow>
          (if \<not> scopes_overlap effective_scope delegated_scope then False
           else (case compiled_envelope effective_scope cfg of
                   None \<Rightarrow> False
                 | Some scope_pattern \<Rightarrow>
                     list_ex (\<lambda>deny_pattern.
                       case pattern_intersection deny_pattern scope_pattern of
                         None \<Rightarrow> False
                       | Some deny \<Rightarrow> pattern_overlaps deny delegated_pattern)
                     (cs_patterns policy))))"

definition actor_has_overlapping_deny ::
  "principal_identity \<Rightarrow> control_scope \<Rightarrow> string \<Rightarrow> compiled_pattern \<Rightarrow>
   'x validated_control_snapshot \<Rightarrow> bool" where
  "actor_has_overlapping_deny actor delegated_scope method delegated_pattern snapshot =
     list_ex (\<lambda>binding.
       list_ex (\<lambda>policy. deny_reaches binding policy delegated_scope delegated_pattern (vs_config snapshot))
         (filter (\<lambda>p. list_ex (\<lambda>m. m = method) (cs_methods p))
           (filter (\<lambda>p. cs_effect p = Deny)
             (filter (\<lambda>p. cs_role p = rb_role binding) (vs_policies snapshot)))))
     (filter (\<lambda>b. rb_principal b = actor) (vs_bindings snapshot))"

definition delegation_covered ::
  "role_binding list \<Rightarrow> compiled_policy_statement list \<Rightarrow> control_scope \<Rightarrow> string \<Rightarrow>
   compiled_pattern \<Rightarrow> bool" where
  "delegation_covered bindings policies scope method pattern =
     list_ex (\<lambda>binding. list_ex (\<lambda>p.
         cs_effect p = Allow \<and> \<not> cs_has_conditions p \<and> cs_role p = rb_role binding
         \<and> scope_contains (cs_scope p) scope \<and> list_ex (\<lambda>m. m = method) (cs_methods p)
         \<and> statement_covers p pattern) policies) bindings"

definition check_delegated_pair ::
  "principal_identity \<Rightarrow> role_binding list \<Rightarrow> control_scope \<Rightarrow> 'x validated_control_snapshot \<Rightarrow>
   string \<Rightarrow> compiled_pattern \<Rightarrow> delegation_error + unit" where
  "check_delegated_pair actor allow_bindings scope snapshot method pattern =
     and_then (ensure (delegation_covered allow_bindings (vs_policies snapshot) scope method pattern)
       OutsideAllowEnvelope) (\<lambda>_.
     ensure (\<not> actor_has_overlapping_deny actor scope method pattern snapshot)
       IntersectsExplicitDeny)"

definition validate_delegated_policy_against ::
  "'y authenticated_subject \<Rightarrow> 'x path_policy \<Rightarrow> 'x validated_control_snapshot \<Rightarrow>
   delegation_error + unit" where
  "validate_delegated_policy_against actor delegated snapshot =
     and_then (ok_or (pp_scope delegated) LegacyStatement) (\<lambda>delegated_scope.
     and_then (map_err (\<lambda>_. InvalidStatement)
       (scope_validate_against delegated_scope (vs_config snapshot))) (\<lambda>_.
     and_then (ensure (\<not> (pp_role delegated = None \<or> pp_methods delegated = [] \<or> pp_patterns delegated = []))
       InvalidStatement) (\<lambda>_.
     and_then (map_err (\<lambda>_. InvalidStatement) (traverse compile_pattern (pp_patterns delegated)))
       (\<lambda>delegated_patterns.
     and_then (ok_or (compiled_envelope delegated_scope (vs_config snapshot)) InvalidStatement)
       (\<lambda>envelope.
     and_then (ensure (\<not> list_ex (\<lambda>p. \<not> pattern_covers envelope p) delegated_patterns)
       OutsideAllowEnvelope) (\<lambda>_.
     let allow_bindings = applicable_bindings (as_principal actor) delegated_scope (vs_bindings snapshot) in
     and_then (ensure (allow_bindings \<noteq> []) OutsideAllowEnvelope) (\<lambda>_.
     for_each (\<lambda>method.
       for_each (\<lambda>pattern.
         check_delegated_pair (as_principal actor) allow_bindings delegated_scope snapshot method pattern)
         delegated_patterns)
       (pp_methods delegated))))))))"

definition validate_delegated_policy ::
  "'x config_env \<Rightarrow> 'y authenticated_subject \<Rightarrow> 'x path_policy \<Rightarrow> 'x control_snapshot \<Rightarrow>
   delegation_error + unit" where
  "validate_delegated_policy env actor delegated sn =
     and_then (map_err (\<lambda>_. InvalidStatement) (snapshot_validated env sn)) (\<lambda>validated.
     validate_delegated_policy_against actor delegated validated)"

definition check_bound_target ::
  "principal_identity \<Rightarrow> role_binding list \<Rightarrow> role_binding \<Rightarrow> compiled_pattern \<Rightarrow>
   'x validated_control_snapshot \<Rightarrow> 'x validated_control_snapshot \<Rightarrow>
   compiled_policy_statement \<Rightarrow> delegation_error + unit" where
  "check_bound_target actor actor_bindings delegated delegated_envelope authority target_snapshot target =
     (if \<not> scope_contains (rb_scope delegated) (cs_scope target)
         \<and> \<not> scope_contains (cs_scope target) (rb_scope delegated)
      then Inr ()
      else
        let effective_scope =
              (if scope_contains (rb_scope delegated) (cs_scope target) then cs_scope target
               else rb_scope delegated) in
        and_then
          (if effective_scope = rb_scope delegated then Inr delegated_envelope
           else ok_or (compiled_envelope effective_scope (vs_config target_snapshot)) InvalidStatement)
          (\<lambda>envelope.
        for_each (\<lambda>method.
          for_each (\<lambda>target_pattern.
            case pattern_intersection target_pattern envelope of
              None \<Rightarrow> Inr ()
            | Some effective_pattern \<Rightarrow>
                check_delegated_pair actor actor_bindings effective_scope authority method effective_pattern)
            (cs_patterns target))
          (cs_methods target)))"

definition validate_role_binding_delegation ::
  "'x config_env \<Rightarrow> principal_identity \<Rightarrow> role_binding \<Rightarrow> 'x control_snapshot \<Rightarrow>
   'x control_snapshot \<Rightarrow> delegation_error + unit" where
  "validate_role_binding_delegation env actor delegated authority_sn target_sn =
     and_then (map_err (\<lambda>_. InvalidStatement) (snapshot_validated env authority_sn)) (\<lambda>authority.
     and_then (map_err (\<lambda>_. InvalidStatement) (snapshot_validated env target_sn)) (\<lambda>target_snapshot.
     and_then (map_err (\<lambda>_. InvalidStatement)
       (scope_validate_against (rb_scope delegated) (vs_config target_snapshot))) (\<lambda>_.
     and_then (ensure (\<not> is_blank (rb_role delegated)) InvalidStatement) (\<lambda>_.
     and_then (ok_or (compiled_envelope (rb_scope delegated) (vs_config target_snapshot)) InvalidStatement)
       (\<lambda>envelope.
     let actor_bindings = applicable_bindings actor (rb_scope delegated) (vs_bindings authority) in
     and_then (ensure (actor_bindings \<noteq> []) OutsideAllowEnvelope) (\<lambda>_.
     for_each (check_bound_target actor actor_bindings delegated envelope authority target_snapshot)
       (filter (\<lambda>p. cs_effect p = Allow \<and> \<not> cs_has_conditions p)
         (filter (\<lambda>p. cs_role p = rb_role delegated) (vs_policies target_snapshot)))))))))"

definition validate_delegated_role_binding ::
  "'x config_env \<Rightarrow> principal_identity \<Rightarrow> role_binding \<Rightarrow> 'x control_snapshot \<Rightarrow>
   delegation_error + unit" where
  "validate_delegated_role_binding env actor delegated sn =
     validate_role_binding_delegation env actor delegated sn sn"

definition removal_covered ::
  "role_binding list \<Rightarrow> 'x validated_control_snapshot \<Rightarrow> control_scope \<Rightarrow> string \<Rightarrow>
   compiled_pattern \<Rightarrow> bool" where
  "removal_covered bindings authority effective_scope method effective_pattern =
     list_ex (\<lambda>binding.
       list_ex (\<lambda>policy.
         case narrower_scope (rb_scope binding) (cs_scope policy) of
           None \<Rightarrow> False
         | Some actor_scope \<Rightarrow>
             (if \<not> scope_contains actor_scope effective_scope then False
              else (case compiled_envelope actor_scope (vs_config authority) of
                      None \<Rightarrow> False
                    | Some actor_scope_pattern \<Rightarrow>
                        list_ex (\<lambda>actor_pattern.
                          case pattern_intersection actor_pattern actor_scope_pattern of
                            None \<Rightarrow> False
                          | Some covered \<Rightarrow> pattern_covers covered effective_pattern)
                        (cs_patterns policy))))
       (filter (\<lambda>p. cs_role p = rb_role binding \<and> cs_effect p = Allow \<and> \<not> cs_has_conditions p
                  \<and> list_ex (\<lambda>m. m = method) (cs_methods p)) (vs_policies authority)))
     bindings"

definition check_freed_target ::
  "principal_identity \<Rightarrow> role_binding list \<Rightarrow> role_binding \<Rightarrow> 'x validated_control_snapshot \<Rightarrow>
   compiled_policy_statement \<Rightarrow> delegation_error + unit" where
  "check_freed_target actor actor_bindings removed authority denied_policy =
     (case narrower_scope (rb_scope removed) (cs_scope denied_policy) of
        None \<Rightarrow> Inr ()
      | Some effective_scope \<Rightarrow>
          and_then (ok_or (compiled_envelope effective_scope (vs_config authority)) InvalidStatement)
            (\<lambda>scope_pattern.
          for_each (\<lambda>method.
            for_each (\<lambda>denied_pattern.
              case pattern_intersection denied_pattern scope_pattern of
                None \<Rightarrow> Inr ()
              | Some effective_pattern \<Rightarrow>
                  and_then (ensure (removal_covered actor_bindings authority effective_scope method effective_pattern)
                    OutsideAllowEnvelope) (\<lambda>_.
                  ensure (\<not> actor_has_overlapping_deny actor effective_scope method effective_pattern authority)
                    IntersectsExplicitDeny))
              (cs_patterns denied_policy))
            (cs_methods denied_policy)))"

definition validate_role_binding_removal ::
  "'x config_env \<Rightarrow> principal_identity \<Rightarrow> role_binding \<Rightarrow> 'x control_snapshot \<Rightarrow>
   delegation_error + unit" where
  "validate_role_binding_removal env actor removed authority_sn =
     and_then (map_err (\<lambda>_. InvalidStatement) (snapshot_validated env authority_sn)) (\<lambda>authority.
     and_then (map_err (\<lambda>_. InvalidStatement)
       (scope_validate_against (rb_scope removed) (vs_config authority))) (\<lambda>_.
     and_then (ensure (\<not> is_blank (rb_role removed)) InvalidStatement) (\<lambda>_.
     for_each (check_freed_target actor
         (filter (\<lambda>b. rb_principal b = actor) (vs_bindings authority)) removed authority)
       (filter (\<lambda>p. cs_effect p = Deny)
         (filter (\<lambda>p. cs_role p = rb_role removed) (vs_policies authority))))))"

section \<open>Where a request is\<close>

text \<open>
  The request checkpoint resolves the scope of a request from its path, so the path lies in the
  envelope of that scope and of every scope above it.
\<close>

fun scope_ancestors :: "control_scope \<Rightarrow> control_scope list" where
  "scope_ancestors Platform = [Platform]"
| "scope_ancestors (Tenant t) = [Platform, Tenant t]"
| "scope_ancestors (Catalog t c) = [Platform, Tenant t, Catalog t c]"
| "scope_ancestors (Collection t c k) = [Platform, Tenant t, Catalog t c, Collection t c k]"

lemma scope_ancestors_iff: "e \<in> set (scope_ancestors s) \<longleftrightarrow> scope_contains e s"
  by (cases s; cases e) auto

definition inside_envelope :: "'x app_config \<Rightarrow> string list \<Rightarrow> control_scope \<Rightarrow> bool" where
  "inside_envelope cfg segs e =
     (case compiled_envelope e cfg of None \<Rightarrow> False | Some env \<Rightarrow> segments_match env segs)"

definition path_located :: "'x app_config \<Rightarrow> control_scope \<Rightarrow> string list \<Rightarrow> bool" where
  "path_located cfg s segs = list_all (inside_envelope cfg segs) (scope_ancestors s)"

lemma path_located_D:
  assumes "path_located cfg s segs" "scope_contains e s"
  obtains env where "compiled_envelope e cfg = Some env" "wf_pattern env" "segments_match env segs"
proof -
  have "inside_envelope cfg segs e"
    using assms by (simp add: path_located_def list_all_iff scope_ancestors_iff)
  then show thesis
    using that compiled_envelope_wf by (auto simp: inside_envelope_def split: option.splits)
qed

section \<open>Nothing is handed on that the delegator does not have\<close>

lemma narrower_scope_D:
  assumes "narrower_scope a b = Some n"
  shows "scope_contains a n" "scope_contains b n" "n = a \<or> n = b"
  using assms by (auto simp: narrower_scope_def split: if_splits)

lemma narrower_scope_exists:
  assumes "scope_contains a s" "scope_contains b s"
  obtains n where "narrower_scope a b = Some n" "scope_contains n s"
proof (cases "scope_contains a b")
  case True
  with that [of b] assms show thesis by (simp add: narrower_scope_def)
next
  case False
  with scope.above_linear [OF assms] have "scope_contains b a" by simp
  with False that [of a] assms show thesis by (simp add: narrower_scope_def)
qed

lemma applies_D:
  assumes "applies who request path b p"
  shows "rb_principal b = who" "scope_contains (rb_scope b) (rq_scope request)"
    "cs_role p = rb_role b" "scope_contains (cs_scope p) (rq_scope request)"
    "rq_method request \<in> set (cs_methods p)"
    "\<exists>q \<in> set (cs_patterns p). segments_match q (cp_segments path)"
  using assms by (simp_all add: applies_def)

lemma wf_statement_pattern: "wf_statement p \<Longrightarrow> q \<in> set (cs_patterns p) \<Longrightarrow> wf_pattern q"
  by (simp add: wf_statement_def)

text \<open>A deny of the actor that bears on a located request is found by the overlap test.\<close>

lemma deny_is_reported:
  assumes "applies who request path b p" and "cs_effect p = Deny"
    and "b \<in> set (vs_bindings snapshot)" "p \<in> set (vs_policies snapshot)" "wf_statement p"
    and "path_located (vs_config snapshot) (rq_scope request) (cp_segments path)"
    and "scope_contains scope (rq_scope request)"
    and "wf_pattern pattern" "segments_match pattern (cp_segments path)"
  shows "actor_has_overlapping_deny who scope (rq_method request) pattern snapshot"
proof -
  note ap = applies_D [OF assms(1)]
  obtain n where n: "narrower_scope (rb_scope b) (cs_scope p) = Some n"
    "scope_contains n (rq_scope request)"
    by (rule narrower_scope_exists [OF ap(2,4)])
  obtain env where env: "compiled_envelope n (vs_config snapshot) = Some env" "wf_pattern env"
    "segments_match env (cp_segments path)"
    by (rule path_located_D [OF assms(6) n(2)])
  obtain q where q: "q \<in> set (cs_patterns p)" "segments_match q (cp_segments path)"
    using ap(6) by blast
  obtain r where r: "pattern_intersection q env = Some r" "pattern_overlaps r pattern"
    using admin_pattern.reached_is_reported [OF wf_statement_pattern [OF assms(5) q(1)] env(2)
        assms(8) q(2) env(3) assms(9)] by blast
  have "scopes_overlap n scope"
    unfolding scopes_overlap_def by (rule scope.above_linear [OF n(2) assms(7)])
  with n(1) env(1) r q(1) have "deny_reaches b p scope pattern (vs_config snapshot)"
    by (auto simp: deny_reaches_def list_ex_iff intro!: bexI [of _ q])
  with assms(2,3,4) ap show ?thesis
    unfolding actor_has_overlapping_deny_def by (auto simp: list_ex_iff)
qed

lemma no_overlapping_deny:
  assumes "snapshot_validated env sn = Inr snapshot"
    and "\<not> actor_has_overlapping_deny (as_principal actor) scope (rq_method request) pattern snapshot"
    and "path_located (vs_config snapshot) (rq_scope request) (cp_segments path)"
    and "scope_contains scope (rq_scope request)"
    and "wf_pattern pattern" "segments_match pattern (cp_segments path)"
  shows "\<forall>p \<in> bearing actor request snapshot path. cs_effect p = Allow"
proof
  fix p assume "p \<in> bearing actor request snapshot path"
  then obtain b where b: "applies (as_principal actor) request path b p"
    "b \<in> set (vs_bindings snapshot)" "p \<in> set (vs_policies snapshot)"
    by (auto simp: bearing_def bearing_statements_def)
  have "cs_effect p \<noteq> Deny"
    using deny_is_reported [OF b(1) _ b(2,3) validated_statement_wf [OF assms(1) b(3)] assms(3-6)]
      assms(2) by blast
  then show "cs_effect p = Allow" by (simp add: not_deny_iff)
qed

lemma covered_is_granted:
  assumes "delegation_covered (applicable_bindings who upper (vs_bindings snapshot))
      (vs_policies snapshot) scope (rq_method request) pattern"
    and "snapshot_validated env sn = Inr snapshot" "as_principal actor = who"
    and "scope_contains upper (rq_scope request)" "scope_contains scope (rq_scope request)"
    and "wf_pattern pattern" "segments_match pattern (cp_segments path)"
  shows "\<exists>p \<in> bearing actor request snapshot path. grants p"
proof -
  from assms(1) obtain b p q where b: "b \<in> set (vs_bindings snapshot)" "rb_principal b = who"
      "scope_contains (rb_scope b) upper"
    and p: "p \<in> set (vs_policies snapshot)" "grants p" "cs_role p = rb_role b"
      "scope_contains (cs_scope p) scope" "rq_method request \<in> set (cs_methods p)"
    and q: "q \<in> set (cs_patterns p)" "pattern_covers q pattern"
    by (auto simp: delegation_covered_def applicable_bindings_def statement_covers_def list_ex_iff
        grants_def)
  have "wf_pattern q"
    by (rule wf_statement_pattern [OF validated_statement_wf [OF assms(2) p(1)] q(1)])
  then have "segments_match q (cp_segments path)"
    by (rule admin_pattern.covers_matches [OF q(2) _ assms(6,7)])
  moreover have "scope_contains (rb_scope b) (rq_scope request)"
    by (rule scope_contains_trans [OF b(3) assms(4)])
  moreover have "scope_contains (cs_scope p) (rq_scope request)"
    by (rule scope_contains_trans [OF p(4) assms(5)])
  ultimately have "applies who request path b p"
    using b p q(1) by (auto simp: applies_def)
  with b(1) p(1,2) assms(3) show ?thesis
    by (auto simp: bearing_def bearing_statements_def)
qed

lemma checked_pair_allows:
  assumes "check_delegated_pair (as_principal actor)
      (applicable_bindings (as_principal actor) upper (vs_bindings snapshot)) scope snapshot
      (rq_method request) pattern = Inr ()"
    and "snapshot_validated env sn = Inr snapshot"
    and "scope_contains upper (rq_scope request)" "scope_contains scope (rq_scope request)"
    and "path_located (vs_config snapshot) (rq_scope request) (cp_segments path)"
    and "wf_pattern pattern" "segments_match pattern (cp_segments path)"
  shows "spec_allows (bearing actor request snapshot path)"
proof -
  have c: "delegation_covered (applicable_bindings (as_principal actor) upper (vs_bindings snapshot))
      (vs_policies snapshot) scope (rq_method request) pattern"
    and d: "\<not> actor_has_overlapping_deny (as_principal actor) scope (rq_method request) pattern snapshot"
    using assms(1) by (auto simp: check_delegated_pair_def result_simps)
  show ?thesis
    unfolding spec_allows_def
    using covered_is_granted [OF c assms(2) refl assms(3,4,6,7)]
      no_overlapping_deny [OF assms(2) d assms(5,4,6,7)] by blast
qed

lemma delegated_policy_sound:
  assumes "validate_delegated_policy_against actor delegated snapshot = Inr ()"
    and "snapshot_validated env sn = Inr snapshot"
    and "pp_scope delegated = Some scope" "scope_contains scope (rq_scope request)"
    and "rq_method request \<in> set (pp_methods delegated)"
    and "raw \<in> set (pp_patterns delegated)" "compile_pattern raw = Inr pattern"
      "segments_match pattern (cp_segments path)"
    and "path_located (vs_config snapshot) (rq_scope request) (cp_segments path)"
  shows "spec_allows (bearing actor request snapshot path)"
proof -
  from assms(1,3) obtain patterns where tr: "traverse compile_pattern (pp_patterns delegated) = Inr patterns"
    and all: "\<forall>m \<in> set (pp_methods delegated). \<forall>p \<in> set patterns.
      check_delegated_pair (as_principal actor)
        (applicable_bindings (as_principal actor) scope (vs_bindings snapshot)) scope snapshot m p = Inr ()"
    unfolding validate_delegated_policy_against_def Let_def and_then_Inr_iff for_each_Inr_iff
      map_err_Inr_iff ok_or_Inr_iff by force
  have "pattern \<in> set patterns" using traverse_set [OF tr] assms(6,7) by blast
  with all assms(5) have "check_delegated_pair (as_principal actor)
      (applicable_bindings (as_principal actor) scope (vs_bindings snapshot)) scope snapshot
      (rq_method request) pattern = Inr ()" by blast
  from checked_pair_allows [OF this assms(2,4,4,9) _ assms(8)] compile_pattern_wf [OF assms(7)]
  show ?thesis by blast
qed

text \<open>
  A role binding: whatever the new binding grants of a located request, through any statement of
  the target snapshot, its delegator is allowed by the authority snapshot.
\<close>

lemma delegated_binding_sound:
  assumes "validate_role_binding_delegation env (as_principal actor) delegated authority_sn target_sn = Inr ()"
    and "snapshot_validated env authority_sn = Inr authority"
    and "snapshot_validated env target_sn = Inr target"
    and "p \<in> set (vs_policies target)" "grants p"
    and "applies (rb_principal delegated) request path delegated p"
    and "path_located (vs_config authority) (rq_scope request) (cp_segments path)"
    and "path_located (vs_config target) (rq_scope request) (cp_segments path)"
  shows "spec_allows (bearing actor request authority path)"
proof -
  note ap = applies_D [OF assms(6)]
  let ?bs = "applicable_bindings (as_principal actor) (rb_scope delegated) (vs_bindings authority)"
  from assms(1) obtain envelope where
    envelope: "compiled_envelope (rb_scope delegated) (vs_config target) = Some envelope"
    and checked: "check_bound_target (as_principal actor) ?bs delegated envelope authority target p = Inr ()"
    using assms(4,5) ap(3)
    unfolding validate_role_binding_delegation_def assms(2,3) map_err_simps and_then_simps Let_def
      and_then_Inr_iff for_each_Inr_iff map_err_Inr_iff ok_or_Inr_iff grants_def by force
  define e where "e = (if scope_contains (rb_scope delegated) (cs_scope p) then cs_scope p
     else rb_scope delegated)"
  have e: "scope_contains e (rq_scope request)" using ap(2,4) by (simp add: e_def)
  have skip: "\<not> (\<not> scope_contains (rb_scope delegated) (cs_scope p)
       \<and> \<not> scope_contains (cs_scope p) (rb_scope delegated))"
    using scope.above_linear [OF ap(2,4)] by blast
  from checked obtain env where
    env: "(if e = rb_scope delegated then Inr envelope
      else ok_or (compiled_envelope e (vs_config target)) InvalidStatement) = Inr env"
    and pairs: "\<forall>m \<in> set (cs_methods p). \<forall>q \<in> set (cs_patterns p).
      (case pattern_intersection q env of None \<Rightarrow> Inr ()
       | Some r \<Rightarrow> check_delegated_pair (as_principal actor) ?bs e authority m r) = Inr ()"
    unfolding check_bound_target_def Let_def if_not_P [OF skip] e_def [symmetric]
      and_then_Inr_iff for_each_Inr_iff by blast
  have env': "compiled_envelope e (vs_config target) = Some env"
    using env envelope by (auto simp: ok_or_Inr_iff split: if_splits)
  have wf_env: "wf_pattern env" and in_env: "segments_match env (cp_segments path)"
    using path_located_D [OF assms(8) e] env' by auto
  obtain q where q: "q \<in> set (cs_patterns p)" "segments_match q (cp_segments path)"
    using ap(6) by blast
  have wf_q: "wf_pattern q"
    by (rule wf_statement_pattern [OF validated_statement_wf [OF assms(3,4)] q(1)])
  obtain r where r: "pattern_intersection q env = Some r" "wf_pattern r" "segments_match r (cp_segments path)"
    by (rule admin_pattern.meet_exists [OF wf_q wf_env q(2) in_env])
  have "check_delegated_pair (as_principal actor) ?bs e authority (rq_method request) r = Inr ()"
    using pairs ap(5) q(1) r(1) by (auto split: option.splits)
  from checked_pair_allows [OF this assms(2) ap(2) e assms(7) r(2,3)] show ?thesis .
qed

text \<open>A removal: whatever a deny of the removed binding blocked, its remover is allowed.\<close>

lemma removal_covered_granted:
  assumes "removal_covered (filter (\<lambda>b. rb_principal b = as_principal actor) (vs_bindings authority))
      authority scope (rq_method request) pattern"
    and "snapshot_validated env sn = Inr authority"
    and "scope_contains scope (rq_scope request)"
    and "wf_pattern pattern" "segments_match pattern (cp_segments path)"
  shows "\<exists>p \<in> bearing actor request authority path. grants p"
proof -
  from assms(1) obtain b p n env q r where
    b: "b \<in> set (vs_bindings authority)" "rb_principal b = as_principal actor"
    and p: "p \<in> set (vs_policies authority)" "grants p" "cs_role p = rb_role b"
      "rq_method request \<in> set (cs_methods p)"
    and n: "narrower_scope (rb_scope b) (cs_scope p) = Some n" "scope_contains n scope"
    and env: "compiled_envelope n (vs_config authority) = Some env"
    and q: "q \<in> set (cs_patterns p)" "pattern_intersection q env = Some r" "pattern_covers r pattern"
    by (auto simp: removal_covered_def list_ex_iff grants_def case_option_False_iff split: if_splits)
  have wf_q: "wf_pattern q"
    by (rule wf_statement_pattern [OF validated_statement_wf [OF assms(2) p(1)] q(1)])
  note wf_env = compiled_envelope_wf [OF env]
  have wf_r: "wf_pattern r" by (rule admin_pattern.meet_wf [OF wf_q wf_env q(2)])
  have "segments_match r (cp_segments path)"
    by (rule admin_pattern.covers_matches [OF q(3) wf_r assms(4,5)])
  then have "segments_match q (cp_segments path)"
    using admin_pattern.meet_Some [OF wf_q wf_env q(2)] by blast
  moreover have "scope_contains (rb_scope b) (rq_scope request)" "scope_contains (cs_scope p) (rq_scope request)"
    using narrower_scope_D [OF n(1)] n(2) assms(3) scope_contains_trans by blast+
  ultimately have "applies (as_principal actor) request path b p"
    using b p q(1) by (auto simp: applies_def)
  with b(1) p(1,2) show ?thesis by (auto simp: bearing_def bearing_statements_def)
qed

lemma removed_binding_sound:
  assumes "validate_role_binding_removal env (as_principal actor) removed sn = Inr ()"
    and "snapshot_validated env sn = Inr authority"
    and "p \<in> set (vs_policies authority)" "cs_effect p = Deny"
    and "applies (rb_principal removed) request path removed p"
    and "path_located (vs_config authority) (rq_scope request) (cp_segments path)"
  shows "spec_allows (bearing actor request authority path)"
proof -
  note ap = applies_D [OF assms(5)]
  let ?bs = "filter (\<lambda>b. rb_principal b = as_principal actor) (vs_bindings authority)"
  have checked: "check_freed_target (as_principal actor) ?bs removed authority p = Inr ()"
    using assms(1,3,4) ap(3)
    unfolding validate_role_binding_removal_def assms(2) map_err_simps and_then_simps
      and_then_Inr_iff for_each_Inr_iff by auto
  obtain e where e: "narrower_scope (rb_scope removed) (cs_scope p) = Some e"
    "scope_contains e (rq_scope request)"
    by (rule narrower_scope_exists [OF ap(2,4)])
  obtain env where env: "compiled_envelope e (vs_config authority) = Some env" "wf_pattern env"
    "segments_match env (cp_segments path)"
    by (rule path_located_D [OF assms(6) e(2)])
  obtain q where q: "q \<in> set (cs_patterns p)" "segments_match q (cp_segments path)"
    using ap(6) by blast
  have wf_q: "wf_pattern q"
    by (rule wf_statement_pattern [OF validated_statement_wf [OF assms(2,3)] q(1)])
  obtain r where r: "pattern_intersection q env = Some r" "wf_pattern r" "segments_match r (cp_segments path)"
    by (rule admin_pattern.meet_exists [OF wf_q env(2) q(2) env(3)])
  have "removal_covered ?bs authority e (rq_method request) r
      \<and> \<not> actor_has_overlapping_deny (as_principal actor) e (rq_method request) r authority"
    using checked ap(5) q(1)
    by (auto simp: check_freed_target_def e(1) env(1) and_then_Inr_iff for_each_Inr_iff ensure_Inr_iff
        dest!: bspec [of _ _ "rq_method request"] bspec [of _ _ q] simp: r(1))
  then show ?thesis
    unfolding spec_allows_def
    using removal_covered_granted [OF _ assms(2) e(2) r(2,3)]
      no_overlapping_deny [OF assms(2) _ assms(6) e(2) r(2,3)] by blast
qed


section \<open>Properties\<close>

lemma spec_allows_authorized:
  assumes "canonical_request_path request = Some path"
    and "spec_allows (bearing subject request snapshot path)"
  shows "authorize_control subject request snapshot = Decision_Allow"
  using assms canonical_request_path_D [OF assms(1)]
  by (simp add: authorize_control_def authorize_canonical_iff)

definition sample_actor :: "string \<Rightarrow> unit authenticated_subject" where
  "sample_actor who = \<lparr>as_principal = sample_principal who, as_claims = ()\<rparr>"

definition sample_request :: "string \<Rightarrow> string \<Rightarrow> control_scope \<Rightarrow> control_request_context" where
  "sample_request method path scope =
     \<lparr>rq_method = method, rq_canonical_path = path, rq_route_template = path, rq_scope = scope\<rparr>"

text \<open>
  C1. No escalation through policies: when an actor may delegate a policy, every request inside
  its scope with one of its methods and a path one of its patterns matches is one the actor is
  allowed to make, under all allows and denies of the snapshot.
\<close>

theorem delegated_policy_never_escalates:
  assumes "validate_delegated_policy env actor delegated sn = Inr ()"
    and "snapshot_validated env sn = Inr view"
    and "canonical_request_path request = Some path"
    and "path_located (vs_config view) (rq_scope request) (cp_segments path)"
    and "pp_scope delegated = Some scope" "scope_contains scope (rq_scope request)"
    and "rq_method request \<in> set (pp_methods delegated)"
    and "raw \<in> set (pp_patterns delegated)" "compile_pattern raw = Inr pattern"
      "pattern_matches pattern path"
  shows "authorize_control actor request view = Decision_Allow"
proof -
  have "validate_delegated_policy_against actor delegated view = Inr ()"
    using assms(1,2) by (simp add: validate_delegated_policy_def)
  from delegated_policy_sound [OF this assms(2,5-9) assms(10) [unfolded pattern_matches_def] assms(4)]
  show ?thesis by (rule spec_allows_authorized [OF assms(3)])
qed

theorem delegated_policy_never_escalates_witness:
  "authorize_control (sample_actor ''ann'')
     (sample_request ''GET'' ''/_control/v1/tenants/acme/settings'' (Tenant ''t1'')) sample_view
   = Decision_Allow"
proof -
  let ?delegated = "path_policy_new ''read'' ''reader'' (Tenant ''t1'') Allow [''GET'']
     [''/_control/v1/tenants/acme/settings''] :: unit path_policy"
  let ?segs = "[''_control'', ''v1'', ''tenants'', ''acme'', ''settings'']"
  let ?pattern = "map Literal ?segs"
  have v: "validate_delegated_policy sample_env (sample_actor ''ann'') ?delegated sample_snapshot = Inr ()"
    by code_simp
  have p: "canonical_request_path (sample_request ''GET'' ''/_control/v1/tenants/acme/settings'' (Tenant ''t1''))
      = Some \<lparr>cp_value = ''/_control/v1/tenants/acme/settings'', cp_segments = ?segs\<rparr>"
    and l: "path_located (vs_config sample_view) (rq_scope (sample_request ''GET''
        ''/_control/v1/tenants/acme/settings'' (Tenant ''t1'')))
        (cp_segments \<lparr>cp_value = ''/_control/v1/tenants/acme/settings'', cp_segments = ?segs\<rparr>)"
    and c: "compile_pattern ''/_control/v1/tenants/acme/settings'' = Inr ?pattern"
    by code_simp+
  show ?thesis
    by (rule delegated_policy_never_escalates [OF v sample_validated p l, where scope = "Tenant ''t1''"
        and raw = "''/_control/v1/tenants/acme/settings''", OF _ _ _ _ c])
      (simp_all add: path_policy_new_def sample_request_def pattern_matches_def)
qed

text \<open>
  C2. No escalation through role bindings: when an actor may delegate a binding, every request
  the new binding is granted by a statement of the target snapshot is one the actor itself is
  allowed to make under the authority snapshot.
\<close>

theorem delegated_binding_never_escalates:
  assumes "validate_role_binding_delegation env (as_principal actor) delegated authority_sn target_sn = Inr ()"
    and "snapshot_validated env authority_sn = Inr authority"
    and "snapshot_validated env target_sn = Inr target_view"
    and "canonical_request_path request = Some path"
    and "path_located (vs_config authority) (rq_scope request) (cp_segments path)"
    and "path_located (vs_config target_view) (rq_scope request) (cp_segments path)"
    and "p \<in> set (vs_policies target_view)" "grants p"
    and "applies (rb_principal delegated) request path delegated p"
  shows "authorize_control actor request authority = Decision_Allow"
  by (rule spec_allows_authorized [OF assms(4)
      delegated_binding_sound [OF assms(1-3,7-9,5,6)]])

theorem delegated_binding_never_escalates_witness:
  "authorize_control (sample_actor ''root'')
     (sample_request ''GET'' ''/_control/v1/tenants/acme/settings'' (Tenant ''t1'')) sample_view
   = Decision_Allow"
proof -
  let ?segs = "[''_control'', ''v1'', ''tenants'', ''acme'', ''settings'']"
  let ?req = "sample_request ''GET'' ''/_control/v1/tenants/acme/settings'' (Tenant ''t1'')"
  let ?path = "\<lparr>cp_value = ''/_control/v1/tenants/acme/settings'', cp_segments = ?segs\<rparr>"
  let ?b = "sample_binding ''eve'' ''viewer'' (Tenant ''t1'')"
  let ?p = "builtin_statement ''builtin:viewer:read'' ''viewer'' READ_METHODS [Remainder]"
  have v: "validate_role_binding_delegation sample_env (as_principal (sample_actor ''root'')) ?b
      sample_snapshot sample_snapshot = Inr ()" by code_simp
  have p: "canonical_request_path ?req = Some ?path"
    and l: "path_located (vs_config sample_view) (rq_scope ?req) (cp_segments ?path)"
    by code_simp+
  have m: "?p \<in> set (vs_policies sample_view)" "grants ?p"
    by (simp_all add: sample_view_def builtin_statements_def grants_def builtin_statement_def)
  have a: "applies (rb_principal ?b) ?req ?path ?b ?p"
    by (simp add: applies_def sample_binding_def sample_request_def builtin_statement_def READ_METHODS_def)
  show ?thesis
    by (rule delegated_binding_never_escalates [OF v sample_validated sample_validated p l l m a])
qed

text \<open>
  C3. Removing a binding frees nothing the remover lacks: every request that a deny of the
  removed binding blocks is one its remover is allowed to make.
\<close>

theorem removed_binding_frees_only_own_authority:
  assumes "validate_role_binding_removal env (as_principal actor) removed sn = Inr ()"
    and "snapshot_validated env sn = Inr view"
    and "canonical_request_path request = Some path"
    and "path_located (vs_config view) (rq_scope request) (cp_segments path)"
    and "p \<in> set (vs_policies view)" "cs_effect p = Deny"
    and "applies (rb_principal removed) request path removed p"
  shows "authorize_control actor request view = Decision_Allow"
  by (rule spec_allows_authorized [OF assms(3) removed_binding_sound [OF assms(1,2,5-7,4)]])

theorem removed_binding_frees_only_own_authority_witness:
  "authorize_control (sample_actor ''root'')
     (sample_request ''DELETE'' ''/_control/v1/tenants/acme/catalogs/c1'' (Catalog ''t1'' ''c1'')) sample_view
   = Decision_Allow"
proof -
  let ?segs = "[''_control'', ''v1'', ''tenants'', ''acme'', ''catalogs'', ''c1'']"
  let ?req = "sample_request ''DELETE'' ''/_control/v1/tenants/acme/catalogs/c1'' (Catalog ''t1'' ''c1'')"
  let ?b = "sample_binding ''ann'' ''tenant_admin'' (Tenant ''t1'')"
  let ?path = "\<lparr>cp_value = ''/_control/v1/tenants/acme/catalogs/c1'', cp_segments = ?segs\<rparr>"
  have v: "validate_role_binding_removal sample_env (as_principal (sample_actor ''root'')) ?b
      sample_snapshot = Inr ()" by code_simp
  have p: "canonical_request_path ?req = Some ?path"
    by code_simp
  have l: "path_located (vs_config sample_view) (rq_scope ?req) (cp_segments ?path)"
    by code_simp
  have a: "applies (rb_principal ?b) ?req ?path ?b sample_deny_statement"
    by (simp add: applies_def sample_binding_def sample_request_def sample_deny_statement_def)
  show ?thesis
    by (rule removed_binding_frees_only_own_authority [OF v sample_validated p l _ _ a])
      (simp_all add: sample_view_def sample_deny_statement_def)
qed

section \<open>A tenant name the overlap test cannot express\<close>

text \<open>
  External identifiers are not restricted to characters a pattern segment can hold. With a tenant
  named \<open>a*b\<close> the envelope of its scope does not compile, the overlap test skips the deny
  (\<open>?\<close> inside the \<open>filter_map\<close>), and an actor hands on a policy for a request it is
  itself denied. The same snapshot with the tenant named \<open>ab\<close> refuses the delegation. This is
  why the properties above ask for \<open>path_located\<close>.
\<close>

definition odd_snapshot :: "string \<Rightarrow> unit control_snapshot" where
  "odd_snapshot external =
     \<lparr>sn_config = sample_config\<lparr>cfg_tenants := [sample_tenant ''t1'' external]\<rparr>,
      sn_bindings = [sample_binding ''mia'' ''ops'' Platform, sample_binding ''mia'' ''auditor'' (Tenant ''t1'')],
      sn_policies =
        [path_policy_new ''p1'' ''ops'' Platform Allow [''GET''] [''/_control/v1/**''],
         path_policy_new ''p2'' ''auditor'' Platform Deny [''GET''] [''/_control/v1/tenants/*/settings'']],
      sn_tombstones = []\<rparr>"

definition odd_delegated :: "unit path_policy" where
  "odd_delegated = path_policy_new ''p3'' ''x'' Platform Allow [''GET''] [''/_control/v1/**'']"

lemma deny_check_skips_uncompilable_envelope:
  "validate_delegated_policy sample_env (sample_actor ''mia'') odd_delegated (odd_snapshot ''a*b'') = Inr ()
   \<and> (case snapshot_validated sample_env (odd_snapshot ''a*b'') of
        Inl _ \<Rightarrow> False
      | Inr view \<Rightarrow> authorize_control (sample_actor ''mia'')
          (sample_request ''GET'' ''/_control/v1/tenants/a*b/settings'' (Tenant ''t1'')) view = Decision_Deny)
   \<and> validate_delegated_policy sample_env (sample_actor ''mia'') odd_delegated (odd_snapshot ''ab'')
       = Inl IntersectsExplicitDeny"
  by (intro conjI; code_simp)

end
