(* ===== verification/Change_Set.thy ===== *)
theory Change_Set
  imports Control_Snapshot
begin

text \<open>
  \<open>control_model.rs\<close>: the operations of a control changeset, the changeset with its
  validation, and the records the stores produce from one: commits, ordered change events with
  their cursors, audit contexts. Cursors are ordered as the source derives it, by revision and
  then by ordinal; the type is made an instance of the library's linear orders, so that the page
  check is stated with \<open>sorted_wrt\<close>.
\<close>

section \<open>Operations\<close>

datatype 'x control_operation =
    ReplacePlatformSettings "'x app_config"
  | SetPlatformSettings "'x settings_decl"
  | SetTenantSettings string "'x settings_decl"
  | SetCatalogSettings string string "'x settings_decl"
  | PutTenant "'x tenant_decl"
  | PutCatalog "'x catalog_decl"
  | PutCollection "'x collection_decl"
  | TombstoneResource control_scope
  | PermanentlyDeleteResource control_scope
  | PutRoleBinding role_binding
  | DeleteRoleBinding principal_identity control_scope string
  | PutPathPolicy "'x path_policy"
  | DeletePathPolicy string

record 'x versioned_control_operation =
  vo_expected_entity_version :: "string option"
  vo_operation :: "'x control_operation"

record 'x control_change_set =
  ch_idempotency_key :: "string option"
  ch_operations :: "'x versioned_control_operation list"

fun is_settings_edit :: "'x control_operation \<Rightarrow> bool" where
  "is_settings_edit (SetPlatformSettings _) = True"
| "is_settings_edit (SetTenantSettings _ _) = True"
| "is_settings_edit (SetCatalogSettings _ _ _) = True"
| "is_settings_edit _ = False"

definition option_blank :: "string option \<Rightarrow> bool" where
  "option_blank s = (case s of None \<Rightarrow> False | Some v \<Rightarrow> is_blank v)"

definition validate_operation :: "'x versioned_control_operation \<Rightarrow> core_error + unit" where
  "validate_operation v =
     (if is_settings_edit (vo_operation v) \<and> vo_expected_entity_version v = None
      then Inl (ControlValidation (Refused ''settings edit requires an expected entity version''))
      else if option_blank (vo_expected_entity_version v)
      then Inl (ControlValidation (Refused ''expected entity version must not be empty''))
      else (case vo_operation v of
              PutPathPolicy policy \<Rightarrow> and_then (path_policy_validate policy) (\<lambda>_. Inr ())
            | _ \<Rightarrow> Inr ()))"

definition change_set_validate :: "'x control_change_set \<Rightarrow> core_error + unit" where
  "change_set_validate changes =
     (if ch_operations changes = []
      then Inl (ControlValidation (Refused ''changeset must contain at least one operation''))
      else if option_blank (ch_idempotency_key changes)
      then Inl (ControlValidation (Refused ''idempotency key must not be empty''))
      else for_each validate_operation (ch_operations changes))"

section \<open>Commits, events and audit\<close>

record control_commit =
  co_revision :: u64
  co_changed_resources :: "string list"
  co_replayed :: bool

record control_event =
  ve_revision :: u64
  ve_ordinal :: u32
  ve_changed_resources :: "string list"

datatype control_event_cursor = Cursor (cur_revision: u64) (cur_ordinal: u32)

record audit_request_context =
  ar_method :: string
  ar_canonical_path :: string
  ar_correlation_id :: string

datatype bootstrap_outcome = Bootstrapped u64 | AlreadyInitialized u64

definition event_cursor :: "control_event \<Rightarrow> control_event_cursor" where
  "event_cursor e = Cursor (ve_revision e) (ve_ordinal e)"

instantiation control_event_cursor :: linorder
begin

definition less_control_event_cursor :: "control_event_cursor \<Rightarrow> control_event_cursor \<Rightarrow> bool" where
  "less_control_event_cursor a b =
     (cur_revision a < cur_revision b
      \<or> (cur_revision a = cur_revision b \<and> cur_ordinal a < cur_ordinal b))"

definition less_eq_control_event_cursor :: "control_event_cursor \<Rightarrow> control_event_cursor \<Rightarrow> bool" where
  "less_eq_control_event_cursor a b =
     (cur_revision a < cur_revision b
      \<or> (cur_revision a = cur_revision b \<and> cur_ordinal a \<le> cur_ordinal b))"

instance
proof
  fix x y z :: control_event_cursor
  show "(x < y) = (x \<le> y \<and> \<not> y \<le> x)"
    unfolding less_control_event_cursor_def less_eq_control_event_cursor_def by auto
  show "x \<le> x" unfolding less_eq_control_event_cursor_def by simp
  show "x \<le> y \<Longrightarrow> y \<le> z \<Longrightarrow> x \<le> z"
    unfolding less_eq_control_event_cursor_def by auto
  show "x \<le> y \<Longrightarrow> y \<le> x \<Longrightarrow> x = y"
    unfolding less_eq_control_event_cursor_def by (auto intro: control_event_cursor.expand)
  show "x \<le> y \<or> y \<le> x" unfolding less_eq_control_event_cursor_def by auto
qed

end

fun check_event_page ::
  "control_event_cursor \<Rightarrow> control_event list \<Rightarrow> core_error + unit" where
  "check_event_page previous [] = Inr ()"
| "check_event_page previous (event # events) =
     (let current = event_cursor event in
      if current \<le> previous
      then Inl (ControlEventOrder (cur_revision previous) (cur_ordinal previous)
                  (ve_revision event) (ve_ordinal event))
      else check_event_page current events)"

definition validate_control_event_page ::
  "control_event_cursor option \<Rightarrow> control_event list \<Rightarrow> core_error + unit" where
  "validate_control_event_page after events =
     check_event_page (case after of Some c \<Rightarrow> c | None \<Rightarrow> Cursor 0 0) events"

lemma check_event_page_iff:
  "check_event_page previous events = Inr () \<longleftrightarrow> sorted_wrt (<) (previous # map event_cursor events)"
proof (induction events arbitrary: previous)
  case (Cons event events)
  then show ?case
    by (auto simp: Let_def not_le intro: less_trans)
qed simp

lemma event_page_iff:
  "validate_control_event_page after events = Inr () \<longleftrightarrow>
     sorted_wrt (<) ((case after of Some c \<Rightarrow> c | None \<Rightarrow> Cursor 0 0) # map event_cursor events)"
  by (simp add: validate_control_event_page_def check_event_page_iff)

text \<open>The first event out of order is the one that is reported.\<close>

lemma check_event_page_Inl:
  "check_event_page previous events = Inl e \<Longrightarrow>
   \<exists>good bad rest. events = good @ bad # rest
     \<and> sorted_wrt (<) (previous # map event_cursor good)
     \<and> event_cursor bad \<le> last (previous # map event_cursor good)"
proof (induction events arbitrary: previous)
  case (Cons event events)
  show ?case
  proof (cases "event_cursor event \<le> previous")
    case True
    then show ?thesis by (intro exI [of _ "[]"] exI [of _ event] exI [of _ events]) simp
  next
    case False
    with Cons.prems have "check_event_page (event_cursor event) events = Inl e" by (simp add: Let_def)
    then obtain good bad rest where "events = good @ bad # rest"
      "sorted_wrt (<) (event_cursor event # map event_cursor good)"
      "event_cursor bad \<le> last (event_cursor event # map event_cursor good)"
      using Cons.IH by blast
    with False show ?thesis
      by (intro exI [of _ "event # good"] exI [of _ bad] exI [of _ rest]) (auto simp: not_le)
  qed
qed simp

lemma change_set_validate_iff:
  "change_set_validate changes = Inr () \<longleftrightarrow>
     ch_operations changes \<noteq> [] \<and> \<not> option_blank (ch_idempotency_key changes)
     \<and> (\<forall>v \<in> set (ch_operations changes). validate_operation v = Inr ())"
  by (simp add: change_set_validate_def for_each_Inr_iff)

end
