(* ===== verification/Config_Integrity.thy ===== *)
theory Config_Integrity
  imports Samples
begin

text \<open>
  What an accepted configuration document satisfies (\<open>AppConfig::validate\<close> of
  \<open>config.rs\<close>): identifiers are unique, also across kinds, external identifiers are
  unique under their parent, references resolve, and no level provides a settings key that a level
  above it declared final.
\<close>

section \<open>Identifiers and references\<close>

definition tenants_ok :: "'x tenant_decl list \<Rightarrow> bool" where
  "tenants_ok ts \<longleftrightarrow>
     distinct (map tn_id ts) \<and> distinct (map tenant_external_id ts)
     \<and> (\<forall>t \<in> set ts. tenant_external_id t \<notin> set RESERVED_TENANT_SEGMENTS)"

definition catalogs_ok :: "string set \<Rightarrow> 'x catalog_decl list \<Rightarrow> bool" where
  "catalogs_ok tenant_ids cs \<longleftrightarrow>
     distinct (map ct_id cs) \<and> distinct (map (\<lambda>c. (ct_tenant c, catalog_external_id c)) cs)
     \<and> (\<forall>c \<in> set cs. ct_tenant c \<in> tenant_ids \<and> ct_id c \<notin> tenant_ids
          \<and> set (vis_shared_with (ct_visibility c)) \<subseteq> tenant_ids)"

definition collections_ok ::
  "string set \<Rightarrow> string set \<Rightarrow> string set \<Rightarrow> 'x collection_decl list \<Rightarrow> bool" where
  "collections_ok tenant_ids catalog_ids storage_ids cs \<longleftrightarrow>
     distinct (map cl_id cs) \<and> distinct (map (\<lambda>c. (cl_catalog c, collection_external_id c)) cs)
     \<and> (\<forall>c \<in> set cs. cl_catalog c \<in> catalog_ids \<and> cl_storage c \<in> storage_ids
          \<and> cl_id c \<notin> tenant_ids \<union> catalog_ids
          \<and> set (vis_shared_with (cl_visibility c)) \<subseteq> tenant_ids)"

definition well_formed_config :: "'x app_config \<Rightarrow> bool" where
  "well_formed_config cfg \<longleftrightarrow>
     tenants_ok (cfg_tenants cfg)
     \<and> catalogs_ok (tn_id ` set (cfg_tenants cfg)) (cfg_catalogs cfg)
     \<and> collections_ok (tn_id ` set (cfg_tenants cfg)) (ct_id ` set (cfg_catalogs cfg))
         (st_id ` set (cfg_storages cfg)) (cfg_collections cfg)"

lemma check_tenants_D:
  "check_tenants env known ids exts ts = Inr () \<Longrightarrow>
   tenants_ok ts \<and> tn_id ` set ts \<inter> ids = {} \<and> tenant_external_id ` set ts \<inter> exts = {}"
proof (induction ts arbitrary: ids exts)
  case Nil
  then show ?case by (simp add: tenants_ok_def)
next
  case (Cons t ts)
  then have "tn_id t \<notin> ids" "tenant_external_id t \<notin> exts"
    "tenant_external_id t \<notin> set RESERVED_TENANT_SEGMENTS"
    and "check_tenants env known (insert (tn_id t) ids) (insert (tenant_external_id t) exts) ts = Inr ()"
    by (auto simp: and_then_Inr_iff ensure_Inr_iff)
  moreover note Cons.IH [OF this(4)]
  ultimately show ?case by (auto simp: tenants_ok_def)
qed

lemma check_catalogs_D:
  "check_catalogs env known tenant_ids ids exts internal_ids cs = Inr (ids', internal_ids') \<Longrightarrow>
   tenant_ids \<subseteq> internal_ids \<Longrightarrow>
   catalogs_ok tenant_ids cs \<and> ct_id ` set cs \<inter> ids = {}
   \<and> (\<lambda>c. (ct_tenant c, catalog_external_id c)) ` set cs \<inter> exts = {}
   \<and> ids' = ids \<union> ct_id ` set cs \<and> internal_ids' = internal_ids \<union> ct_id ` set cs"
proof (induction cs arbitrary: ids exts internal_ids)
  case Nil
  then show ?case by (simp add: catalogs_ok_def)
next
  case (Cons c cs)
  from Cons.prems(1) have h: "ct_id c \<notin> ids" "ct_id c \<notin> internal_ids" "ct_tenant c \<in> tenant_ids"
    "(ct_tenant c, catalog_external_id c) \<notin> exts"
    "\<forall>t \<in> set (vis_shared_with (ct_visibility c)). t \<in> tenant_ids"
    and r: "check_catalogs env known tenant_ids (insert (ct_id c) ids)
       (insert (ct_tenant c, catalog_external_id c) exts) (insert (ct_id c) internal_ids) cs
       = Inr (ids', internal_ids')"
    by (auto simp: and_then_Inr_iff ensure_Inr_iff for_each_Inr_iff)
  have sub: "tenant_ids \<subseteq> insert (ct_id c) internal_ids" using Cons.prems(2) by blast
  have new: "ct_id c \<notin> tenant_ids" using h(2) Cons.prems(2) by blast
  from Cons.IH [OF r sub] new h show ?case
    by (auto simp: catalogs_ok_def)
qed

lemma check_collections_D:
  "check_collections env known tenant_ids storage_ids object_store_ids catalog_ids ids exts
     internal_ids cs = Inr () \<Longrightarrow> tenant_ids \<union> catalog_ids \<subseteq> internal_ids \<Longrightarrow>
   collections_ok tenant_ids catalog_ids storage_ids cs \<and> cl_id ` set cs \<inter> ids = {}
   \<and> (\<lambda>c. (cl_catalog c, collection_external_id c)) ` set cs \<inter> exts = {}"
proof (induction cs arbitrary: ids exts internal_ids)
  case Nil
  then show ?case by (simp add: collections_ok_def)
next
  case (Cons c cs)
  from Cons.prems(1) have h: "cl_id c \<notin> ids" "cl_id c \<notin> internal_ids" "cl_storage c \<in> storage_ids"
    "cl_catalog c \<in> catalog_ids" "(cl_catalog c, collection_external_id c) \<notin> exts"
    "\<forall>t \<in> set (vis_shared_with (cl_visibility c)). t \<in> tenant_ids"
    and r: "check_collections env known tenant_ids storage_ids object_store_ids catalog_ids
       (insert (cl_id c) ids) (insert (cl_catalog c, collection_external_id c) exts)
       (insert (cl_id c) internal_ids) cs = Inr ()"
    unfolding check_collections.simps and_then_Inr_iff ensure_Inr_iff for_each_Inr_iff by blast+
  have sub: "tenant_ids \<union> catalog_ids \<subseteq> insert (cl_id c) internal_ids"
    using Cons.prems(2) by blast
  have new: "cl_id c \<notin> tenant_ids \<union> catalog_ids" using h(2) Cons.prems(2) by blast
  from Cons.IH [OF r sub] new h show ?case
    by (auto simp: collections_ok_def)
qed

lemma collect_storage_ids_D:
  "collect_storage_ids ids ss = Inr ids' \<Longrightarrow>
   ids' = ids \<union> st_id ` set ss \<and> distinct (map st_id ss) \<and> st_id ` set ss \<inter> ids = {}"
  by (induction ss arbitrary: ids) (auto split: if_splits)

lemma app_config_validate_D:
  assumes "app_config_validate env cfg = Inr ()"
  obtains known where
    "validate_tenant_declarations env (cfg_tenants cfg) known = Inr ()"
    "validate_settings_finality (cfg_settings cfg) (cfg_tenants cfg) (cfg_catalogs cfg)
       (cfg_collections cfg) (cfg_profiles cfg) = Inr ()"
    "\<exists>storage_ids object_store_ids. collect_storage_ids {} (cfg_storages cfg) = Inr storage_ids
      \<and> validate_catalogs_and_collections env (set (map tn_id (cfg_tenants cfg))) storage_ids
          object_store_ids (cfg_catalogs cfg) (cfg_collections cfg)
          (set (map tn_id (cfg_tenants cfg))) known = Inr ()"
  using assms unfolding app_config_validate_def Let_def and_then_Inr_iff
  by (clarsimp simp del: set_map) (rule that, assumption+, blast)

lemma accepted_config_well_formed:
  assumes "app_config_validate env cfg = Inr ()"
  shows "well_formed_config cfg"
proof -
  obtain known storage_ids object_store_ids where
    t: "validate_tenant_declarations env (cfg_tenants cfg) known = Inr ()"
    and s: "collect_storage_ids {} (cfg_storages cfg) = Inr storage_ids"
    and c: "validate_catalogs_and_collections env (set (map tn_id (cfg_tenants cfg))) storage_ids
          object_store_ids (cfg_catalogs cfg) (cfg_collections cfg)
          (set (map tn_id (cfg_tenants cfg))) known = Inr ()"
    using app_config_validate_D [OF assms] by metis
  have st: "storage_ids = st_id ` set (cfg_storages cfg)"
    using collect_storage_ids_D [OF s] by simp
  let ?T = "tn_id ` set (cfg_tenants cfg)"
  from c obtain catalog_ids internal_ids where
    cat: "check_catalogs env known ?T {} {} ?T (cfg_catalogs cfg) = Inr (catalog_ids, internal_ids)"
    and col: "check_collections env known ?T storage_ids object_store_ids catalog_ids {} {}
      internal_ids (cfg_collections cfg) = Inr ()"
    by (auto simp: validate_catalogs_and_collections_def and_then_Inr_iff)
  note cat' = check_catalogs_D [OF cat subset_refl]
  have "?T \<union> catalog_ids \<subseteq> internal_ids" using cat' by auto
  from check_collections_D [OF col this] cat' st
    check_tenants_D [OF t [unfolded validate_tenant_declarations_def]]
  show ?thesis by (simp add: well_formed_config_def)
qed

text \<open>
  The routing lanes of a collection and its object store. A lane that is declared names storages, and \<open>write\<close> and
  \<open>index\<close> name one.
\<close>

definition lane_ok :: "string set \<Rightarrow> bool \<Rightarrow> string list option \<Rightarrow> bool" where
  "lane_ok storage_ids single lane \<longleftrightarrow>
     (case lane of None \<Rightarrow> True | Some r \<Rightarrow> r \<noteq> [] \<and> set r \<subseteq> storage_ids \<and> (single \<longrightarrow> length r = 1))"

definition routing_ok :: "string set \<Rightarrow> routing_decl \<Rightarrow> bool" where
  "routing_ok storage_ids r \<longleftrightarrow>
     lane_ok storage_ids False (ro_features r) \<and> lane_ok storage_ids False (ro_tiles r) \<and> lane_ok storage_ids False (ro_maps r)
     \<and> lane_ok storage_ids True (ro_write r) \<and> lane_ok storage_ids True (ro_index r) \<and> lane_ok storage_ids False (ro_search r)"

definition stores_ok :: "string set \<Rightarrow> string set \<Rightarrow> 'x collection_decl list \<Rightarrow> bool" where
  "stores_ok storage_ids object_store_ids cs \<longleftrightarrow>
     (\<forall>c \<in> set cs. routing_ok storage_ids (cl_routing c) \<and> set_option (cl_object_store c) \<subseteq> object_store_ids)"

lemma check_lane_iff: "check_lane collection_id lane single routing storage_ids = Inr u \<longleftrightarrow> lane_ok storage_ids single routing"
  by (auto simp: check_lane_def validate_lane_routing_def lane_ok_def result_simps split: option.split)

lemma object_store_iff:
  "(case store of None \<Rightarrow> Inr () | Some o' \<Rightarrow> ensure (o' \<in> ids) (e o')) = Inr u \<longleftrightarrow> set_option store \<subseteq> ids"
  by (auto simp: result_simps split: option.split)

lemma check_collections_stores:
  "check_collections env known tenant_ids storage_ids object_store_ids catalog_ids ids exts internal_ids cs = Inr () \<Longrightarrow>
     stores_ok storage_ids object_store_ids cs"
proof (induction cs arbitrary: ids exts internal_ids)
  case (Cons c cs)
  from Cons.prems have "routing_ok storage_ids (cl_routing c) \<and> set_option (cl_object_store c) \<subseteq> object_store_ids"
    unfolding check_collections.simps and_then_Inr_iff check_lane_iff object_store_iff routing_ok_def by blast
  moreover from Cons.prems have "stores_ok storage_ids object_store_ids cs"
    unfolding check_collections.simps and_then_Inr_iff by (blast intro: Cons.IH)
  ultimately show ?case by (simp add: stores_ok_def)
qed (simp add: stores_ok_def)

lemma collect_object_store_ids_D: "collect_object_store_ids env ids ss = Inr ids' \<Longrightarrow> ids' = ids \<union> os_id ` set ss"
  by (induction ss arbitrary: ids) (auto split: if_splits)

lemma accepted_config_stores:
  assumes "app_config_validate env cfg = Inr ()"
  shows "stores_ok (st_id ` set (cfg_storages cfg)) (os_id ` set (cfg_object_stores cfg)) (cfg_collections cfg)"
proof -
  from assms obtain storage_ids object_store_ids known where
    s: "collect_storage_ids {} (cfg_storages cfg) = Inr storage_ids"
      "collect_object_store_ids env {} (cfg_object_stores cfg) = Inr object_store_ids"
    and c: "validate_catalogs_and_collections env (set (map tn_id (cfg_tenants cfg))) storage_ids object_store_ids
          (cfg_catalogs cfg) (cfg_collections cfg) (set (map tn_id (cfg_tenants cfg))) known = Inr ()"
    unfolding app_config_validate_def Let_def and_then_Inr_iff by (clarsimp simp del: set_map)
  from c have "stores_ok storage_ids object_store_ids (cfg_collections cfg)"
    by (auto simp: validate_catalogs_and_collections_def and_then_Inr_iff intro: check_collections_stores)
  with collect_storage_ids_D [OF s(1)] collect_object_store_ids_D [OF s(2)] show ?thesis by simp
qed

section \<open>Lookups in an accepted document\<close>

lemma find_tenant_iff:
  assumes "well_formed_config cfg"
  shows "find_tenant cfg i = Some t \<longleftrightarrow> t \<in> set (cfg_tenants cfg) \<and> tn_id t = i"
  using assms find_unique [of tn_id "cfg_tenants cfg" t]
  by (auto simp: find_tenant_def well_formed_config_def tenants_ok_def dest: find_Some_D)

lemma find_catalog_iff:
  assumes "well_formed_config cfg"
  shows "find_catalog cfg i = Some c \<longleftrightarrow> c \<in> set (cfg_catalogs cfg) \<and> ct_id c = i"
  using assms find_unique [of ct_id "cfg_catalogs cfg" c]
  by (auto simp: find_catalog_def well_formed_config_def catalogs_ok_def dest: find_Some_D)

lemma find_collection_iff:
  assumes "well_formed_config cfg"
  shows "find_collection cfg i = Some k \<longleftrightarrow> k \<in> set (cfg_collections cfg) \<and> cl_id k = i"
  using assms find_unique [of cl_id "cfg_collections cfg" k]
  by (auto simp: find_collection_def well_formed_config_def collections_ok_def dest: find_Some_D)

section \<open>Final settings keys\<close>

lemma fst_entry_or_insert: "fst ` set (entry_or_insert k v m) = insert k (fst ` set m)"
  by (induction k v m rule: entry_or_insert.induct) auto

lemma fst_finalized_here: "fst ` set (finalized_here m keys lvl) = fst ` set m \<union> set keys"
  by (induction m keys lvl rule: finalized_here.induct) (auto simp: fst_entry_or_insert)

lemma check_no_final_override_iff:
  "check_no_final_override lvl d m profiles = Inr () \<longleftrightarrow>
     (\<forall>key \<in> fst ` set m. \<not> settings_provides_key d key profiles)"
  by (induction lvl d m profiles rule: check_no_final_override.induct) auto

lemma check_tenant_finality_D:
  "check_tenant_finality pf profiles acc ts = Inr acc' \<Longrightarrow> distinct (map tn_id ts) \<Longrightarrow>
   (\<forall>t \<in> set ts. (\<forall>key \<in> fst ` set pf. \<not> settings_provides_key (tn_settings t) key profiles)
      \<and> fmlookup acc' (tn_id t)
          = Some (finalized_here pf (set_final_keys (tn_settings t)) (Tenant_Level (tn_id t))))
   \<and> (\<forall>i. i \<notin> tn_id ` set ts \<longrightarrow> fmlookup acc' i = fmlookup acc i)"
proof (induction ts arbitrary: acc)
  case (Cons t ts)
  then have "check_no_final_override (Tenant_Level (tn_id t)) (tn_settings t) pf profiles = Inr ()"
    and r: "check_tenant_finality pf profiles (fmupd (tn_id t)
      (finalized_here pf (set_final_keys (tn_settings t)) (Tenant_Level (tn_id t))) acc) ts = Inr acc'"
    by (auto simp: and_then_Inr_iff)
  with Cons.IH [OF r] Cons.prems(2) show ?case
    by (auto simp: check_no_final_override_iff)
qed simp

lemma check_catalog_finality_D:
  "check_catalog_finality pf profiles tf acc cs = Inr acc' \<Longrightarrow> distinct (map ct_id cs) \<Longrightarrow>
   (\<forall>c \<in> set cs.
      (\<forall>key \<in> fst ` set (inherited_final pf tf (ct_tenant c)). \<not> settings_provides_key (ct_settings c) key profiles)
      \<and> fmlookup acc' (ct_id c)
          = Some (finalized_here (inherited_final pf tf (ct_tenant c)) (set_final_keys (ct_settings c))
                   (Catalog_Level (ct_id c))))
   \<and> (\<forall>i. i \<notin> ct_id ` set cs \<longrightarrow> fmlookup acc' i = fmlookup acc i)"
proof (induction cs arbitrary: acc)
  case (Cons c cs)
  then have "check_no_final_override (Catalog_Level (ct_id c)) (ct_settings c)
      (inherited_final pf tf (ct_tenant c)) profiles = Inr ()"
    and r: "check_catalog_finality pf profiles tf (fmupd (ct_id c)
      (finalized_here (inherited_final pf tf (ct_tenant c)) (set_final_keys (ct_settings c))
        (Catalog_Level (ct_id c))) acc) cs = Inr acc'"
    by (auto simp: and_then_Inr_iff Let_def)
  with Cons.IH [OF r] Cons.prems(2) show ?case
    by (auto simp: check_no_final_override_iff)
qed simp

text \<open>
  The final keys of the chain platform, tenant, catalog above a declaration, and what respecting
  them means for a whole document.
\<close>

definition respects_final ::
  "'x app_config \<Rightarrow> string set \<Rightarrow> 'x settings_decl \<Rightarrow> bool" where
  "respects_final cfg keys s \<longleftrightarrow> (\<forall>key \<in> keys. \<not> settings_provides_key s key (cfg_profiles cfg))"

definition final_keys_respected :: "'x app_config \<Rightarrow> bool" where
  "final_keys_respected cfg \<longleftrightarrow>
     (let F = (\<lambda>s. set (set_final_keys s)); P = F (cfg_settings cfg) in
      (\<forall>t \<in> set (cfg_tenants cfg).
         respects_final cfg P (tn_settings t)
         \<and> (\<forall>c \<in> set (cfg_catalogs cfg). ct_tenant c = tn_id t \<longrightarrow>
              respects_final cfg (P \<union> F (tn_settings t)) (ct_settings c)
              \<and> (\<forall>k \<in> set (cfg_collections cfg). cl_catalog k = ct_id c \<longrightarrow>
                   respects_final cfg (P \<union> F (tn_settings t) \<union> F (ct_settings c)) (cl_settings k)))))"

lemma accepted_config_respects_final:
  assumes "app_config_validate env cfg = Inr ()"
  shows "final_keys_respected cfg"
proof -
  have wf: "distinct (map tn_id (cfg_tenants cfg))" "distinct (map ct_id (cfg_catalogs cfg))"
    using accepted_config_well_formed [OF assms]
    by (auto simp: well_formed_config_def tenants_ok_def catalogs_ok_def)
  let ?pf = "finalized_here [] (set_final_keys (cfg_settings cfg)) Platform_Level"
  have pf: "fst ` set ?pf = set (set_final_keys (cfg_settings cfg))"
    by (simp add: fst_finalized_here)
  obtain tf cf where
    t: "check_tenant_finality ?pf (cfg_profiles cfg) fmempty (cfg_tenants cfg) = Inr tf"
    and c: "check_catalog_finality ?pf (cfg_profiles cfg) tf fmempty (cfg_catalogs cfg) = Inr cf"
    and k: "\<forall>k \<in> set (cfg_collections cfg). check_no_final_override (Collection_Level (cl_id k))
        (cl_settings k) (inherited_final ?pf cf (cl_catalog k)) (cfg_profiles cfg) = Inr ()"
    using app_config_validate_D [OF assms]
    unfolding validate_settings_finality_def Let_def and_then_Inr_iff for_each_Inr_iff by metis
  note t' = check_tenant_finality_D [OF t wf(1)] and c' = check_catalog_finality_D [OF c wf(2)]
  let ?P = "set (set_final_keys (cfg_settings cfg))"
  have tenant_keys: "fst ` set (inherited_final ?pf tf (tn_id t)) = ?P \<union> set (set_final_keys (tn_settings t))"
    if "t \<in> set (cfg_tenants cfg)" for t
    using t' that by (simp add: inherited_final_def fst_finalized_here)
  have catalog_keys: "fst ` set (inherited_final ?pf cf (ct_id c))
      = fst ` set (inherited_final ?pf tf (ct_tenant c)) \<union> set (set_final_keys (ct_settings c))"
    if "c \<in> set (cfg_catalogs cfg)" for c
    using c' that by (simp add: inherited_final_def fst_finalized_here)
  show ?thesis
    unfolding final_keys_respected_def Let_def
  proof (intro ballI conjI impI)
    fix t assume tn: "t \<in> set (cfg_tenants cfg)"
    with t' pf show "respects_final cfg ?P (tn_settings t)" by (auto simp: respects_final_def)
    fix c assume ct: "c \<in> set (cfg_catalogs cfg)" "ct_tenant c = tn_id t"
    then have "\<forall>key \<in> fst ` set (inherited_final ?pf tf (tn_id t)).
        \<not> settings_provides_key (ct_settings c) key (cfg_profiles cfg)"
      using c' by metis
    then show "respects_final cfg (?P \<union> set (set_final_keys (tn_settings t))) (ct_settings c)"
      unfolding tenant_keys [OF tn] respects_final_def .
    fix k assume cl: "k \<in> set (cfg_collections cfg)" "cl_catalog k = ct_id c"
    then have "\<forall>key \<in> fst ` set (inherited_final ?pf cf (ct_id c)).
        \<not> settings_provides_key (cl_settings k) key (cfg_profiles cfg)"
      using k by (auto simp: check_no_final_override_iff)
    with catalog_keys [OF ct(1)] tenant_keys [OF tn] ct(2)
    show "respects_final cfg (?P \<union> set (set_final_keys (tn_settings t)) \<union> set (set_final_keys (ct_settings c)))
        (cl_settings k)"
      by (simp add: respects_final_def)
  qed
qed

section \<open>Properties\<close>

text \<open>
  C30. Referential integrity of an accepted document: identifiers of tenants, catalogs and
  collections are unique, also across kinds, external identifiers are unique under their parent and
  those of tenants never a reserved path segment, and every reference resolves: the owner of a catalog and of a
  collection, the tenants they are shared with, a collection's storage and object store, and the storages its routing
  lanes name, which are at least one per declared lane and exactly one for writing and for the index.
\<close>

theorem accepted_document_has_integrity:
  assumes "app_config_validate env cfg = Inr ()"
  shows "tenants_ok (cfg_tenants cfg)
    \<and> catalogs_ok (tn_id ` set (cfg_tenants cfg)) (cfg_catalogs cfg)
    \<and> collections_ok (tn_id ` set (cfg_tenants cfg)) (ct_id ` set (cfg_catalogs cfg))
        (st_id ` set (cfg_storages cfg)) (cfg_collections cfg)
    \<and> stores_ok (st_id ` set (cfg_storages cfg)) (os_id ` set (cfg_object_stores cfg)) (cfg_collections cfg)"
  using accepted_config_well_formed [OF assms] accepted_config_stores [OF assms] by (simp add: well_formed_config_def)

theorem accepted_document_has_integrity_witness:
  "tenants_ok (cfg_tenants sample_config) \<and> distinct (map ct_id (cfg_catalogs sample_config))
   \<and> stores_ok (st_id ` set (cfg_storages sample_config)) (os_id ` set (cfg_object_stores sample_config)) (cfg_collections sample_config)"
  using accepted_document_has_integrity [OF sample_config_valid] by (simp add: catalogs_ok_def)

text \<open>
  Final settings keys: in an accepted document no tenant, catalog or collection provides,
  itself or through the profile it names, a settings key that the platform or one of its owners
  declared final.
\<close>

lemma accepted_document_respects_final_keys:
  assumes "app_config_validate env cfg = Inr ()"
    and "t \<in> set (cfg_tenants cfg)" "c \<in> set (cfg_catalogs cfg)" "ct_tenant c = tn_id t"
    and "k \<in> set (cfg_collections cfg)" "cl_catalog k = ct_id c"
    and "key \<in> set (set_final_keys (cfg_settings cfg)) \<union> set (set_final_keys (tn_settings t))
      \<union> set (set_final_keys (ct_settings c))"
  shows "\<not> settings_provides_key (cl_settings k) key (cfg_profiles cfg)
    \<and> (key \<notin> set (set_final_keys (ct_settings c)) \<longrightarrow> \<not> settings_provides_key (ct_settings c) key (cfg_profiles cfg))"
  using accepted_config_respects_final [OF assms(1)] assms(2-)
  unfolding final_keys_respected_def Let_def respects_final_def by blast

definition pinned_config :: "unit app_config" where
  "pinned_config = sample_config
     \<lparr>cfg_settings := default_settings\<lparr>set_cache_ttl_s := Some 60, set_final_keys := [''cache_ttl_s'']\<rparr>\<rparr>"

lemma accepted_document_respects_final_keys_example:
  "app_config_validate sample_env pinned_config = Inr ()
   \<and> \<not> settings_provides_key (cl_settings (sample_collection ''k1'' ''c1'')) ''cache_ttl_s'' []"
proof -
  have v: "app_config_validate sample_env pinned_config = Inr ()" by code_simp
  have "\<not> settings_provides_key (cl_settings (sample_collection ''k1'' ''c1'')) ''cache_ttl_s'' (cfg_profiles pinned_config)"
    using accepted_document_respects_final_keys [OF v, of "sample_tenant ''t1'' ''acme''"
        "sample_catalog ''c1'' ''t1''" "sample_collection ''k1'' ''c1''" "''cache_ttl_s''"]
    by (simp add: pinned_config_def sample_config_def sample_tenant_def sample_catalog_def
        sample_collection_def)
  with v show ?thesis by (simp add: pinned_config_def sample_config_def)
qed

end
