(* ===== verification/Control_Route.thy ===== *)
theory Control_Route
  imports Delegation Change_Set Config_Integrity
begin

text \<open>
  \<open>control_admin_policy.rs\<close>: the closed catalogue of typed control routes, the registry that
  maps a route template to its contract, and the resolution of the scope a canonical path is in. The
  last sections show that registering routes never fails, that the template a path was verified
  against fixes the level of the scope the path resolves to, and that a resolved path lies in the
  envelope of its scope, which is what the delegation results ask of a request.
\<close>

section \<open>Routes\<close>

datatype control_route_descriptor =
    PlatformOverview
  | PlatformEffectiveSettings
  | PlatformAudit
  | PlatformSettings
  | PlatformBatchImport
  | Tenants
  | TenantRoute
  | TenantPermanentDelete
  | TenantSettings
  | TenantCatalogs
  | TenantCollectionMove
  | CatalogRoute
  | CatalogPermanentDelete
  | CatalogSettings
  | CatalogCollections
  | CollectionRoute
  | CollectionPermanentDelete
  | CollectionMetadata
  | CollectionAsset
  | PlatformPathPolicy
  | CollectionPathPolicy
  | PlatformRoleBindings
  | PlatformRoleBinding

primrec route_template :: "control_route_descriptor \<Rightarrow> string" where
  "route_template PlatformOverview =
     ''/_control/v1/platform/overview''"
| "route_template PlatformEffectiveSettings =
     ''/_control/v1/platform/effective-settings''"
| "route_template PlatformAudit =
     ''/_control/v1/platform/audit''"
| "route_template PlatformSettings =
     ''/_control/v1/platform/settings''"
| "route_template PlatformBatchImport =
     ''/_control/v1/platform/import''"
| "route_template Tenants =
     ''/_control/v1/tenants''"
| "route_template TenantRoute =
     ''/_control/v1/tenants/{tenant}''"
| "route_template TenantPermanentDelete =
     ''/_control/v1/tenants/{tenant}/permanent-delete''"
| "route_template TenantSettings =
     ''/_control/v1/tenants/{tenant}/settings''"
| "route_template TenantCatalogs =
     ''/_control/v1/tenants/{tenant}/catalogs''"
| "route_template TenantCollectionMove =
     ''/_control/v1/tenants/{tenant}/collection-moves''"
| "route_template CatalogRoute =
     ''/_control/v1/tenants/{tenant}/catalogs/{catalog}''"
| "route_template CatalogPermanentDelete =
     ''/_control/v1/tenants/{tenant}/catalogs/{catalog}/permanent-delete''"
| "route_template CatalogSettings =
     ''/_control/v1/tenants/{tenant}/catalogs/{catalog}/settings''"
| "route_template CatalogCollections =
     ''/_control/v1/tenants/{tenant}/catalogs/{catalog}/collections''"
| "route_template CollectionRoute =
     ''/_control/v1/tenants/{tenant}/catalogs/{catalog}/collections/{collection}''"
| "route_template CollectionPermanentDelete =
     ''/_control/v1/tenants/{tenant}/catalogs/{catalog}/collections/{collection}/permanent-delete''"
| "route_template CollectionMetadata =
     ''/_control/v1/tenants/{tenant}/catalogs/{catalog}/collections/{collection}/metadata''"
| "route_template CollectionAsset =
     ''/_control/v1/tenants/{tenant}/catalogs/{catalog}/collections/{collection}/assets/{asset}''"
| "route_template PlatformPathPolicy =
     ''/_control/v1/platform/policies/{policy}''"
| "route_template CollectionPathPolicy =
     ''/_control/v1/tenants/{tenant}/catalogs/{catalog}/collections/{collection}/policies/{policy}''"
| "route_template PlatformRoleBindings =
     ''/_control/v1/platform/role-bindings''"
| "route_template PlatformRoleBinding =
     ''/_control/v1/platform/role-bindings/{binding}''"

definition ALL_ROUTES :: "control_route_descriptor list" where
  "ALL_ROUTES =
     [PlatformOverview, PlatformEffectiveSettings, PlatformAudit, PlatformSettings, PlatformBatchImport, Tenants, TenantRoute, TenantPermanentDelete, TenantSettings,
      TenantCatalogs, TenantCollectionMove, CatalogRoute, CatalogPermanentDelete, CatalogSettings, CatalogCollections, CollectionRoute, CollectionPermanentDelete, CollectionMetadata, CollectionAsset, PlatformPathPolicy, CollectionPathPolicy, PlatformRoleBindings, PlatformRoleBinding]"

datatype control_middleware_error =
    InvalidPath control_path_error
  | UnmatchedRoute
  | Resolution
  | NonCanonicalIdentifier
  | WrongCheckpointKind
  | InvalidCorrelationId
  | InvalidSnapshot
  | MutationIntentMismatch
  | Denied control_evaluation

definition is_placeholder :: "string \<Rightarrow> bool" where
  "is_placeholder segment =
     (case strip_prefix ''{'' segment of
        None \<Rightarrow> False
      | Some value \<Rightarrow>
          (case strip_suffix ''}'' value of
             None \<Rightarrow> False
           | Some name \<Rightarrow> name \<noteq> [] \<and> \<not> (CHR ''{'' \<in> set name \<or> CHR ''}'' \<in> set name)))"

definition nth_is :: "string list \<Rightarrow> nat \<Rightarrow> (string \<Rightarrow> bool) \<Rightarrow> bool" where
  "nth_is segments i p = (case nth_opt segments i of None \<Rightarrow> False | Some s \<Rightarrow> p s)"

definition validate_template_structure ::
  "canonical_control_path \<Rightarrow> control_middleware_error + unit" where
  "validate_template_structure template =
     (let segments = cp_segments template in
      if list_ex (\<lambda>s. (contains_str ''{'' s \<or> contains_str ''}'' s) \<and> \<not> is_placeholder s) segments
      then Inl UnmatchedRoute
      else if segments ! 2 = ''tenants''
              \<and> (nth_is segments 4 is_placeholder
                 \<or> (nth_opt segments 4 = Some ''catalogs'' \<and> nth_is segments 6 is_placeholder))
      then Inl UnmatchedRoute
      else Inr ())"

type_synonym control_route_registry =
  "(string, canonical_control_path \<times> control_route_descriptor) fmap"

fun register_routes ::
  "control_route_descriptor list \<Rightarrow> control_route_registry \<Rightarrow>
   control_middleware_error + control_route_registry" where
  "register_routes [] registered = Inr registered"
| "register_routes (d # ds) registered =
     and_then (map_err (\<lambda>_. UnmatchedRoute) (canonicalize_control_path (route_template d) []))
       (\<lambda>canonical.
     and_then (validate_template_structure canonical) (\<lambda>_.
     register_routes ds (fmupd (route_template d) (canonical, d) registered)))"

definition registry_new ::
  "control_route_descriptor list \<Rightarrow> control_middleware_error + control_route_registry" where
  "registry_new descriptors = register_routes descriptors fmempty"

definition segment_matches_template :: "string \<Rightarrow> string \<Rightarrow> bool" where
  "segment_matches_template actual expected = (is_placeholder expected \<or> actual = expected)"

definition registry_verify ::
  "control_route_registry \<Rightarrow> canonical_control_path \<Rightarrow> string \<Rightarrow>
   control_middleware_error + control_route_descriptor" where
  "registry_verify registry canonical template =
     and_then (ok_or (fmlookup registry template) UnmatchedRoute) (\<lambda>(t, descriptor).
     if length (cp_segments canonical) \<noteq> length (cp_segments t) then Inl UnmatchedRoute
     else if list_all (\<lambda>(actual, expected). segment_matches_template actual expected)
               (zip (cp_segments canonical) (cp_segments t))
     then Inr descriptor
     else Inl UnmatchedRoute)"

section \<open>The scope of a path\<close>

definition resolve_snapshot_scope ::
  "canonical_control_path \<Rightarrow> 'x validated_control_snapshot \<Rightarrow> control_middleware_error + control_scope" where
  "resolve_snapshot_scope canonical snapshot =
     (let segments = cp_segments canonical; cfg = vs_config snapshot in
      if segments ! 2 = ''platform'' \<or> length segments = 3 then Inr Platform
      else
        and_then (ok_or (List.find (\<lambda>t. tenant_external_id t = segments ! 3) (cfg_tenants cfg)) Resolution)
          (\<lambda>tenant.
        if length segments \<le> 5 \<or> nth_opt segments 4 \<noteq> Some ''catalogs'' then Inr (Tenant (tn_id tenant))
        else
          and_then (ok_or (List.find (\<lambda>c. ct_tenant c = tn_id tenant \<and> catalog_external_id c = segments ! 5)
              (cfg_catalogs cfg)) Resolution) (\<lambda>catalog.
          if length segments \<le> 7 \<or> nth_opt segments 6 \<noteq> Some ''collections''
          then Inr (Catalog (tn_id tenant) (ct_id catalog))
          else
            and_then (ok_or (List.find (\<lambda>k. cl_catalog k = ct_id catalog
                \<and> collection_external_id k = segments ! 7) (cfg_collections cfg)) Resolution) (\<lambda>collection.
            Inr (Collection (tn_id tenant) (ct_id catalog) (cl_id collection))))))"

section \<open>Registering and verifying\<close>

text \<open>The segments of each template, evaluated once.\<close>

definition template_path :: "control_route_descriptor \<Rightarrow> canonical_control_path" where
  "template_path d = \<lparr>cp_value = route_template d,
     cp_segments = split_on CHR ''/'' (drop 1 (route_template d))\<rparr>"

lemma all_routes: "d \<in> set ALL_ROUTES"
  by (cases d) (simp_all add: ALL_ROUTES_def)

lemma templates_evaluated:
  "list_all (\<lambda>d. canonicalize_control_path (route_template d) [] = Inr (template_path d)
     \<and> validate_template_structure (template_path d) = Inr ()) ALL_ROUTES"
  by code_simp

lemma template_registers:
  "canonicalize_control_path (route_template d) [] = Inr (template_path d)"
  "validate_template_structure (template_path d) = Inr ()"
  using templates_evaluated all_routes [of d] by (simp_all add: list_all_iff)

lemma register_routes_Cons:
  "register_routes (d # ds) registered
     = register_routes ds (fmupd (route_template d) (template_path d, d) registered)"
  by (simp add: template_registers)

definition registered_by :: "control_route_descriptor set \<Rightarrow> control_route_registry \<Rightarrow> bool" where
  "registered_by ds reg \<longleftrightarrow>
     (\<forall>t p d. fmlookup reg t = Some (p, d) \<longrightarrow> t = route_template d \<and> p = template_path d \<and> d \<in> ds)"

lemma register_routes_ok:
  "registered_by D registered \<Longrightarrow>
   \<exists>reg. register_routes ds registered = Inr reg \<and> registered_by (D \<union> set ds) reg"
proof (induction ds arbitrary: registered D)
  case (Cons d ds)
  then have "registered_by (insert d D) (fmupd (route_template d) (template_path d, d) registered)"
    by (auto simp: registered_by_def)
  from Cons.IH [OF this] show ?case by (simp add: register_routes_Cons del: register_routes.simps)
qed simp

lemma registry_new_ok: "\<exists>reg. registry_new ds = Inr reg \<and> registered_by (set ds) reg"
  using register_routes_ok [of "{}" fmempty ds] by (simp add: registry_new_def registered_by_def)

lemma registry_verify_D:
  assumes "registry_new ds = Inr reg" "registry_verify reg canonical template = Inr d"
  shows "template = route_template d" "d \<in> set ds"
    "list_all2 segment_matches_template (cp_segments canonical) (cp_segments (template_path d))"
proof -
  from assms(1) have reg: "registered_by (set ds) reg" using registry_new_ok [of ds] by auto
  from assms(2) obtain t where l: "fmlookup reg template = Some (t, d)"
    and m: "length (cp_segments canonical) = length (cp_segments t)"
      "list_all (\<lambda>(actual, expected). segment_matches_template actual expected)
         (zip (cp_segments canonical) (cp_segments t))"
    by (auto simp: registry_verify_def and_then_Inr_iff ok_or_Inr_iff split: if_splits)
  from reg l have t: "template = route_template d" "t = template_path d" "d \<in> set ds"
    by (auto simp: registered_by_def)
  then show "template = route_template d" "d \<in> set ds" by simp_all
  from m t show "list_all2 segment_matches_template (cp_segments canonical) (cp_segments (template_path d))"
    by (simp add: list_all2_iff list_all_iff)
qed

section \<open>The level of a route\<close>

datatype scope_level = At_Platform | At_Tenant | At_Catalog | At_Collection

fun level_of :: "control_scope \<Rightarrow> scope_level" where
  "level_of Platform = At_Platform"
| "level_of (Tenant _) = At_Tenant"
| "level_of (Catalog _ _) = At_Catalog"
| "level_of (Collection _ _ _) = At_Collection"

text \<open>The level the segments of a template stand for, read off its literal segments alone.\<close>

definition template_level :: "string list \<Rightarrow> scope_level" where
  "template_level segs =
     (if nth_opt segs 2 = Some ''platform'' \<or> length segs = 3 then At_Platform
      else if length segs \<le> 5 \<or> nth_opt segs 4 \<noteq> Some ''catalogs'' then At_Tenant
      else if length segs \<le> 7 \<or> nth_opt segs 6 \<noteq> Some ''collections'' then At_Catalog
      else At_Collection)"

lemma resolve_level:
  assumes "resolve_snapshot_scope canonical snapshot = Inr s" "3 \<le> length (cp_segments canonical)"
  shows "level_of s = template_level (cp_segments canonical)"
proof -
  have n: "nth_opt (cp_segments canonical) 2 = Some x \<longleftrightarrow> cp_segments canonical ! 2 = x" for x
    using assms(2) by (auto simp: nth_opt_def)
  show ?thesis
    using assms(1) unfolding template_level_def n resolve_snapshot_scope_def Let_def
    by (auto simp: and_then_Inr_iff ok_or_Inr_iff split: if_splits)
qed

text \<open>Every template fixes the segments that decide the level: none of them is a placeholder.\<close>

definition fixed_at :: "string list \<Rightarrow> nat \<Rightarrow> bool" where
  "fixed_at segs i = (case nth_opt segs i of None \<Rightarrow> True | Some s \<Rightarrow> \<not> is_placeholder s)"

definition level_fixed :: "string list \<Rightarrow> bool" where
  "level_fixed segs \<longleftrightarrow>
     fixed_at segs 2 \<and> (nth_opt segs 2 = Some ''platform'' \<or> (fixed_at segs 4 \<and> fixed_at segs 6))"

lemma templates_fixed:
  "list_all (\<lambda>d. level_fixed (cp_segments (template_path d))) ALL_ROUTES"
  by code_simp

lemma matching_keeps_fixed:
  assumes "list_all2 segment_matches_template segs tmpl" "fixed_at tmpl i"
  shows "nth_opt segs i = nth_opt tmpl i"
proof (cases "i < length tmpl")
  case True
  have "segment_matches_template (segs ! i) (tmpl ! i)"
    using list_all2_nthD2 [OF assms(1) True] .
  with assms True list_all2_lengthD [OF assms(1)] show ?thesis
    by (simp add: nth_opt_def fixed_at_def segment_matches_template_def)
next
  case False
  with list_all2_lengthD [OF assms(1)] show ?thesis by (simp add: nth_opt_def)
qed

lemma matching_keeps_level:
  assumes "list_all2 segment_matches_template segs tmpl" "level_fixed tmpl"
  shows "template_level segs = template_level tmpl"
  using matching_keeps_fixed [OF assms(1)] assms(2) list_all2_lengthD [OF assms(1)]
  by (auto simp: template_level_def level_fixed_def)

definition route_level :: "control_route_descriptor \<Rightarrow> scope_level" where
  "route_level d = template_level (cp_segments (template_path d))"

lemma verified_route_level:
  assumes "registry_new ds = Inr reg" "registry_verify reg canonical template = Inr d"
    and "resolve_snapshot_scope canonical snapshot = Inr s" "canonical_segments (cp_segments canonical)"
  shows "level_of s = route_level d"
proof -
  have fixed: "level_fixed (cp_segments (template_path d))"
    using templates_fixed all_routes [of d] by (simp_all add: list_all_iff)
  have "3 \<le> length (cp_segments canonical)" using assms(4) by (simp add: canonical_segments_def)
  from resolve_level [OF assms(3) this] matching_keeps_level [OF registry_verify_D(3) [OF assms(1,2)] fixed]
  show ?thesis by (simp add: route_level_def)
qed

section \<open>A resolved path is in the envelope of its scope\<close>

lemma compiled_prefix_matches:
  assumes "compile_segments (ws @ [''**'']) = Inr env"
  shows "segments_match env (ws @ rest)"
  using assms
proof (induction ws arbitrary: env)
  case Nil
  then show ?case by (auto simp: and_then_Inr_iff)
next
  case (Cons w ws)
  from Cons.prems obtain c cs where c: "env = c # cs" "compile_segments (ws @ [''**'']) = Inr cs"
    "c = One \<or> c = Literal w"
    by (auto simp: and_then_Inr_iff split: if_splits)
  from Cons.IH [OF c(2)] c(1,3) show ?case by auto
qed

text \<open>The envelope of a scope is the pattern of these segments followed by \<open>**\<close>.\<close>

lemma envelope_contains:
  assumes "compile_pattern (CHR ''/'' # join_with CHR ''/'' (ws @ [''**''])) = Inr env"
    and "\<forall>w \<in> set ws. CHR ''/'' \<notin> set w"
  shows "segments_match env (ws @ rest)"
proof -
  have "split_on CHR ''/'' (join_with CHR ''/'' (ws @ [''**''])) = ws @ [''**'']"
    by (rule split_join) (use assms(2) in auto)
  with assms(1) have "compile_segments (ws @ [''**'']) = Inr env"
    by (auto simp: compile_pattern_def and_then_Inr_iff Let_def split: if_splits)
  then show ?thesis by (rule compiled_prefix_matches)
qed

text \<open>What the resolution found: the public names of the path are those of the resolved resources.\<close>

fun scope_names :: "control_scope \<Rightarrow> 'x app_config \<Rightarrow> string list option" where
  "scope_names Platform cfg = Some []"
| "scope_names (Tenant t) cfg = map_option (\<lambda>te. [''tenants'', te]) (tenant_external cfg t)"
| "scope_names (Catalog t c) cfg =
     (case (tenant_external cfg t, catalog_external cfg c) of
        (Some te, Some ce) \<Rightarrow> Some [''tenants'', te, ''catalogs'', ce] | _ \<Rightarrow> None)"
| "scope_names (Collection t c k) cfg =
     (case (tenant_external cfg t, catalog_external cfg c, collection_external cfg k) of
        (Some te, Some ce, Some ke) \<Rightarrow> Some [''tenants'', te, ''catalogs'', ce, ''collections'', ke]
      | _ \<Rightarrow> None)"

lemma scope_envelope_names:
  "scope_names s cfg = Some ns \<Longrightarrow>
   scope_envelope s cfg = Some (CHR ''/'' # join_with CHR ''/'' ((''_control'' # ''v1'' # ns) @ [''**'']))"
  by (cases s) (auto split: option.splits)

lemma named_prefix_inside:
  assumes "scope_names e cfg = Some ns" "segs = ''_control'' # ''v1'' # ns @ rest"
    and "\<forall>w \<in> set segs. CHR ''/'' \<notin> set w" "compiled_envelope e cfg \<noteq> None"
  shows "inside_envelope cfg segs e"
proof -
  from assms(1,4) obtain env where env: "compiled_envelope e cfg = Some env"
    and c: "compile_pattern (CHR ''/'' # join_with CHR ''/'' ((''_control'' # ''v1'' # ns) @ [''**''])) = Inr env"
    by (auto simp: compiled_envelope_def scope_envelope_names ok_Some_iff)
  have "\<forall>w \<in> set (''_control'' # ''v1'' # ns). CHR ''/'' \<notin> set w" using assms(2,3) by auto
  from envelope_contains [OF c this, of rest] env assms(2) show ?thesis
    by (simp add: inside_envelope_def)
qed

lemma find_by_tenant_external:
  assumes "well_formed_config cfg" "List.find (\<lambda>t. tenant_external_id t = x) (cfg_tenants cfg) = Some t"
  shows "tenant_external cfg (tn_id t) = Some x"
  using find_tenant_iff [OF assms(1)] find_Some_D [OF assms(2)]
  by (auto simp: tenant_external_def)

lemma find_by_catalog_external:
  assumes "well_formed_config cfg"
    "List.find (\<lambda>c. ct_tenant c = i \<and> catalog_external_id c = x) (cfg_catalogs cfg) = Some c"
  shows "catalog_external cfg (ct_id c) = Some x"
  using find_catalog_iff [OF assms(1)] find_Some_D [OF assms(2)]
  by (auto simp: catalog_external_def)

lemma find_by_collection_external:
  assumes "well_formed_config cfg"
    "List.find (\<lambda>k. cl_catalog k = i \<and> collection_external_id k = x) (cfg_collections cfg) = Some k"
  shows "collection_external cfg (cl_id k) = Some x"
  using find_collection_iff [OF assms(1)] find_Some_D [OF assms(2)]
  by (auto simp: collection_external_def)

text \<open>The path of a resolved scope starts with the public names of each of its ancestors.\<close>

definition names_prefix :: "'x app_config \<Rightarrow> string list \<Rightarrow> control_scope \<Rightarrow> bool" where
  "names_prefix cfg segs e \<longleftrightarrow>
     (case scope_names e cfg of
        None \<Rightarrow> False
      | Some ns \<Rightarrow> take (2 + length ns) segs = ''_control'' # ''v1'' # ns)"

lemma names_prefix_D:
  assumes "names_prefix cfg segs e"
  shows "\<exists>ns rest. scope_names e cfg = Some ns \<and> segs = ''_control'' # ''v1'' # ns @ rest"
proof -
  from assms obtain ns where "scope_names e cfg = Some ns" "take (2 + length ns) segs = ''_control'' # ''v1'' # ns"
    by (auto simp: names_prefix_def split: option.splits)
  then show ?thesis by (metis append_Cons append_take_drop_id)
qed

lemma resolve_cases:
  assumes "resolve_snapshot_scope canonical snapshot = Inr s"
    and "cp_segments canonical = ''_control'' # ''v1'' # c # r"
  obtains (platform) "s = Platform"
  | (tenant) t te r' where "s = Tenant (tn_id t)" "r = te # r'" "c \<noteq> ''platform''"
      "List.find (\<lambda>t. tenant_external_id t = te) (cfg_tenants (vs_config snapshot)) = Some t"
  | (catalog) t k te ce r' where "s = Catalog (tn_id t) (ct_id k)" "c \<noteq> ''platform''"
      "r = te # ''catalogs'' # ce # r'"
      "List.find (\<lambda>t. tenant_external_id t = te) (cfg_tenants (vs_config snapshot)) = Some t"
      "List.find (\<lambda>k. ct_tenant k = tn_id t \<and> catalog_external_id k = ce) (cfg_catalogs (vs_config snapshot)) = Some k"
  | (collection) t k l te ce le r' where "s = Collection (tn_id t) (ct_id k) (cl_id l)" "c \<noteq> ''platform''"
      "r = te # ''catalogs'' # ce # ''collections'' # le # r'"
      "List.find (\<lambda>t. tenant_external_id t = te) (cfg_tenants (vs_config snapshot)) = Some t"
      "List.find (\<lambda>k. ct_tenant k = tn_id t \<and> catalog_external_id k = ce) (cfg_catalogs (vs_config snapshot)) = Some k"
      "List.find (\<lambda>l. cl_catalog l = ct_id k \<and> collection_external_id l = le)
         (cfg_collections (vs_config snapshot)) = Some l"
proof (cases "c = ''platform'' \<or> r = []")
  case True
  with assms show thesis by (auto simp: resolve_snapshot_scope_def Let_def intro: platform)
next
  case False
  then obtain te r1 where r: "r = te # r1" "c \<noteq> ''platform''" by (cases r) auto
  note res = assms(1) [unfolded resolve_snapshot_scope_def assms(2) Let_def r]
  from res r(2) obtain t where t:
    "List.find (\<lambda>t. tenant_external_id t = te) (cfg_tenants (vs_config snapshot)) = Some t"
    by (auto simp: and_then_Inr_iff ok_or_Inr_iff)
  show thesis
  proof (cases "\<exists>ce r2. r1 = ''catalogs'' # ce # r2")
    case False
    then have "length r1 \<le> 1 \<or> nth_opt r1 0 \<noteq> Some ''catalogs''"
      by (cases r1; cases "tl r1") auto
    then have "s = Tenant (tn_id t)"
      using res r(2) t by (auto simp: nth_opt_def split: if_splits)
    with r t show thesis by (intro tenant) auto
  next
    case True
    then obtain ce r2 where r1: "r1 = ''catalogs'' # ce # r2" by blast
    from res r(2) t r1 obtain k where k:
      "List.find (\<lambda>k. ct_tenant k = tn_id t \<and> catalog_external_id k = ce) (cfg_catalogs (vs_config snapshot)) = Some k"
      by (auto simp: and_then_Inr_iff ok_or_Inr_iff nth_opt_def)
    show thesis
    proof (cases "\<exists>le r3. r2 = ''collections'' # le # r3")
      case False
      then have "length r2 \<le> 1 \<or> nth_opt r2 0 \<noteq> Some ''collections''"
        by (cases r2; cases "tl r2") auto
      then have "s = Catalog (tn_id t) (ct_id k)"
        using res r(2) t k r1 by (auto simp: nth_opt_def split: if_splits)
      with r r1 t k show thesis by (intro catalog) auto
    next
      case True
      then obtain le r3 where r2: "r2 = ''collections'' # le # r3" by blast
      from res r(2) t k r1 r2 obtain l where l:
        "List.find (\<lambda>l. cl_catalog l = ct_id k \<and> collection_external_id l = le)
         (cfg_collections (vs_config snapshot)) = Some l"
        "s = Collection (tn_id t) (ct_id k) (cl_id l)"
        by (auto simp: and_then_Inr_iff ok_or_Inr_iff nth_opt_def)
      with r r1 r2 t k show thesis by (intro collection) auto
    qed
  qed
qed

lemma resolved_names:
  assumes "resolve_snapshot_scope canonical snapshot = Inr s"
    and "canonical_segments (cp_segments canonical)"
    and "well_formed_config (vs_config snapshot)" "scope_contains e s"
  shows "names_prefix (vs_config snapshot) (cp_segments canonical) e"
proof -
  from assms(2) obtain c r where segs: "cp_segments canonical = ''_control'' # ''v1'' # c # r"
    and c: "c = ''platform'' \<or> c = ''tenants''"
    by (cases "cp_segments canonical" rule: list.exhaust;
        cases "tl (cp_segments canonical)"; cases "tl (tl (cp_segments canonical))")
      (auto simp: canonical_segments_def)
  let ?cfg = "vs_config snapshot"
  from assms(1) segs show ?thesis
  proof (cases rule: resolve_cases)
    case platform
    with assms(4) scope.above_root_iff have "e = Platform" by blast
    with segs show ?thesis by (simp add: names_prefix_def)
  next
    case (tenant t te r')
    have "tenant_external ?cfg (tn_id t) = Some te" by (rule find_by_tenant_external [OF assms(3) tenant(4)])
    moreover have "e = Platform \<or> e = Tenant (tn_id t)" using assms(4) tenant(1) by (cases e) auto
    moreover have "c = ''tenants''" using c tenant(3) by simp
    ultimately show ?thesis using segs tenant(2) by (elim disjE) (simp_all add: names_prefix_def)
  next
    case (catalog t k te ce r')
    have "tenant_external ?cfg (tn_id t) = Some te" by (rule find_by_tenant_external [OF assms(3) catalog(4)])
    moreover have "catalog_external ?cfg (ct_id k) = Some ce"
      by (rule find_by_catalog_external [OF assms(3) catalog(5)])
    moreover have "e = Platform \<or> e = Tenant (tn_id t) \<or> e = Catalog (tn_id t) (ct_id k)"
      using assms(4) catalog(1) by (cases e) auto
    moreover have "c = ''tenants''" using c catalog(2) by simp
    ultimately show ?thesis using segs catalog(3) by (elim disjE) (simp_all add: names_prefix_def)
  next
    case (collection t k l te ce le r')
    have "tenant_external ?cfg (tn_id t) = Some te" by (rule find_by_tenant_external [OF assms(3) collection(4)])
    moreover have "catalog_external ?cfg (ct_id k) = Some ce"
      by (rule find_by_catalog_external [OF assms(3) collection(5)])
    moreover have "collection_external ?cfg (cl_id l) = Some le"
      by (rule find_by_collection_external [OF assms(3) collection(6)])
    moreover have "e = Platform \<or> e = Tenant (tn_id t) \<or> e = Catalog (tn_id t) (ct_id k)
        \<or> e = Collection (tn_id t) (ct_id k) (cl_id l)"
      using assms(4) collection(1) by (cases e) auto
    moreover have "c = ''tenants''" using c collection(2) by simp
    ultimately show ?thesis using segs collection(3) by (elim disjE) (simp_all add: names_prefix_def)
  qed
qed

lemma resolved_path_located:
  assumes "resolve_snapshot_scope canonical snapshot = Inr s"
    and "canonical_segments (cp_segments canonical)" "well_formed_config (vs_config snapshot)"
    and "\<forall>e \<in> set (scope_ancestors s). compiled_envelope e (vs_config snapshot) \<noteq> None"
  shows "path_located (vs_config snapshot) s (cp_segments canonical)"
proof -
  have noslash: "\<forall>w \<in> set (cp_segments canonical). CHR ''/'' \<notin> set w"
    using assms(2) by (auto simp: canonical_segments_def plain_segment_def)
  have "inside_envelope (vs_config snapshot) (cp_segments canonical) e"
    if e: "e \<in> set (scope_ancestors s)" for e
  proof -
    have "scope_contains e s" using e by (simp only: scope_ancestors_iff)
    from names_prefix_D [OF resolved_names [OF assms(1-3) this]] obtain ns rest where
      n: "scope_names e (vs_config snapshot) = Some ns" "cp_segments canonical = ''_control'' # ''v1'' # ns @ rest"
      by blast
    from assms(4) e have "compiled_envelope e (vs_config snapshot) \<noteq> None" by blast
    from named_prefix_inside [OF n noslash this] show ?thesis .
  qed
  then show ?thesis by (simp add: path_located_def list_all_iff)
qed

section \<open>Properties\<close>

text \<open>
  Registering any list of the route descriptors succeeds, and a path verified against a
  registered template resolves, in any snapshot in which it resolves at all, to a scope of the level
  the route stands for: caller-chosen names in the path cannot move it to another level.
\<close>

lemma verified_route_fixes_scope_level:
  assumes "registry_verify reg path template = Inr d" "registry_new ds = Inr reg"
    and "canonicalize_control_path raw root = Inr path"
    and "resolve_snapshot_scope path snapshot = Inr s"
  shows "level_of s = route_level d \<and> template = route_template d \<and> d \<in> set ds"
  using verified_route_level [OF assms(2,1,4) canonicalize_Inr_D(5) [OF assms(3)]]
    registry_verify_D [OF assms(2,1)] by blast

lemma verified_route_fixes_scope_level_example:
  "\<exists>reg path. registry_new [CatalogSettings] = Inr reg
     \<and> canonicalize_control_path ''/_control/v1/tenants/acme/catalogs/c1/settings'' [] = Inr path
     \<and> resolve_snapshot_scope path sample_view = Inr (Catalog ''t1'' ''c1'')
     \<and> route_level CatalogSettings = At_Catalog"
proof -
  let ?path = "\<lparr>cp_value = ''/_control/v1/tenants/acme/catalogs/c1/settings'',
     cp_segments = [''_control'', ''v1'', ''tenants'', ''acme'', ''catalogs'', ''c1'', ''settings'']\<rparr>"
  let ?reg = "fmupd (route_template CatalogSettings) (template_path CatalogSettings, CatalogSettings) fmempty"
  have p: "canonicalize_control_path ''/_control/v1/tenants/acme/catalogs/c1/settings'' [] = Inr ?path"
    and s: "resolve_snapshot_scope ?path sample_view = Inr (Catalog ''t1'' ''c1'')"
    by code_simp+
  have r: "registry_new [CatalogSettings] = Inr ?reg"
    unfolding registry_new_def register_routes_Cons by simp
  have "registry_verify ?reg ?path (route_template CatalogSettings) = Inr CatalogSettings"
    by code_simp
  from verified_route_fixes_scope_level [OF this r p s] p s r show ?thesis
    by (metis level_of.simps(3))
qed

text \<open>
  A path the checkpoint resolved lies in the compiled envelope of its scope and of every
  scope above it, in an accepted configuration whose envelopes compile: the delegation results above
  apply to every request the checkpoint resolves.
\<close>

lemma resolved_request_is_located:
  assumes "snapshot_validated env sn = Inr view"
    and "canonicalize_control_path raw root = Inr path"
    and "resolve_snapshot_scope path view = Inr s"
    and "\<forall>e \<in> set (scope_ancestors s). compiled_envelope e (vs_config view) \<noteq> None"
  shows "path_located (vs_config view) s (cp_segments path)"
proof (rule resolved_path_located [OF assms(3) canonicalize_Inr_D(5) [OF assms(2)] _ assms(4)])
  have "app_config_validate env (vs_config view) = Inr ()"
    using snapshot_validated_D(1,3) [OF assms(1)] by (simp add: snapshot_validate_iff)
  then show "well_formed_config (vs_config view)" by (rule accepted_config_well_formed)
qed

lemma resolved_request_is_located_example:
  "path_located sample_config (Catalog ''t1'' ''c1'')
     [''_control'', ''v1'', ''tenants'', ''acme'', ''catalogs'', ''c1'', ''settings'']"
proof -
  let ?path = "\<lparr>cp_value = ''/_control/v1/tenants/acme/catalogs/c1/settings'',
     cp_segments = [''_control'', ''v1'', ''tenants'', ''acme'', ''catalogs'', ''c1'', ''settings'']\<rparr>"
  have p: "canonicalize_control_path ''/_control/v1/tenants/acme/catalogs/c1/settings'' [] = Inr ?path"
    and s: "resolve_snapshot_scope ?path sample_view = Inr (Catalog ''t1'' ''c1'')"
    and e: "\<forall>e \<in> set (scope_ancestors (Catalog ''t1'' ''c1'')).
      compiled_envelope e (vs_config sample_view) \<noteq> None"
    by code_simp+
  from resolved_request_is_located [OF sample_validated p s e] show ?thesis
    by (simp add: sample_view_def)
qed

end
