(* ===== verification/Fingerprint.thy ===== *)
theory Fingerprint
  imports Control_Evaluate Change_Set "HOL-Library.Multiset"
begin

text \<open>
  \<open>control_admin_policy.rs\<close>: the byte strings the control plane hashes. Every component is
  framed with its length, so that neighbouring components cannot be confused; the changeset is
  rendered as canonical JSON. The hash itself (the \<open>sha2\<close> crate), the serialization of a
  changeset to a JSON value and the escaping of a JSON string (the \<open>serde_json\<close> crate) are
  parameters, the fields of \<open>digest_env\<close>.
\<close>

section \<open>Framing\<close>

text \<open>\<open>(n as u64).to_be_bytes()\<close>.\<close>

fun be_bytes :: "nat \<Rightarrow> nat \<Rightarrow> string" where
  "be_bytes 0 n = []"
| "be_bytes (Suc k) n = be_bytes k (n div 256) @ [char_of (n mod 256)]"

definition frame :: "string \<Rightarrow> string" where
  "frame component = be_bytes 8 (unat (of_nat (length component) :: u64)) @ component"

definition frames :: "string list \<Rightarrow> string" where
  "frames components = concat (map frame components)"

fun scope_components :: "control_scope \<Rightarrow> string list" where
  "scope_components Platform = [''platform'']"
| "scope_components (Tenant t) = [''tenant'', t]"
| "scope_components (Catalog t c) = [''catalog'', t, c]"
| "scope_components (Collection t c k) = [''collection'', t, c, k]"

section \<open>Canonical JSON\<close>

datatype json =
    JNull
  | JBool bool
  | JNumber string
  | JString string
  | JArray "json list"
  | JObject "(string \<times> json) list"

record 'x digest_env =
  dg_sha256_hex :: "string \<Rightarrow> string"
  dg_to_value :: "'x control_change_set \<Rightarrow> json option"
  dg_write_string :: "string \<Rightarrow> string option"

definition write_entry :: "(string \<Rightarrow> string option) \<Rightarrow> string \<times> string option \<Rightarrow> string option" where
  "write_entry esc entry =
     (case (esc (fst entry), snd entry) of
        (Some k, Some v) \<Rightarrow> Some (k @ '':'' @ v)
      | _ \<Rightarrow> None)"

text \<open>
  The entries of an object are sorted by key before they are written (keys of a JSON object are
  distinct); members are rendered first here and sorted with their text, which is the same order.
\<close>

fun write_canonical_json :: "(string \<Rightarrow> string option) \<Rightarrow> json \<Rightarrow> string option" where
  "write_canonical_json esc JNull = Some ''null''"
| "write_canonical_json esc (JBool b) = Some (if b then ''true'' else ''false'')"
| "write_canonical_json esc (JNumber n) = Some n"
| "write_canonical_json esc (JString s) = esc s"
| "write_canonical_json esc (JArray vs) =
     map_option (\<lambda>ws. ''['' @ join_with CHR '','' ws @ '']'')
       (all_some (map (write_canonical_json esc) vs))"
| "write_canonical_json esc (JObject es) =
     map_option (\<lambda>ws. ''{'' @ join_with CHR '','' ws @ ''}'')
       (all_some (map (write_entry esc)
         (sort_key fst (map (\<lambda>(k, v). (k, write_canonical_json esc v)) es))))"

section \<open>Targets and fingerprints\<close>

definition role_binding_preimage :: "role_binding \<Rightarrow> string" where
  "role_binding_preimage b =
     ''tellurion-role-binding-v1''
     @ frames ([pr_issuer (rb_principal b), pr_subject (rb_principal b), rb_role b]
         @ scope_components (rb_scope b))"

definition role_binding_target_id :: "'x digest_env \<Rightarrow> role_binding \<Rightarrow> string" where
  "role_binding_target_id dg b = dg_sha256_hex dg (role_binding_preimage b)"

definition request_preimage ::
  "'y authenticated_subject \<Rightarrow> control_request_context \<Rightarrow> string \<Rightarrow> string" where
  "request_preimage subject request changes_json =
     ''tellurion-control-request-v1''
     @ frames ([pr_issuer (as_principal subject), pr_subject (as_principal subject),
                rq_route_template request, rq_method request, rq_canonical_path request]
         @ scope_components (rq_scope request) @ [changes_json])"

definition control_request_fingerprint ::
  "'x digest_env \<Rightarrow> 'y authenticated_subject \<Rightarrow> control_request_context \<Rightarrow> 'x control_change_set \<Rightarrow>
   string option" where
  "control_request_fingerprint dg subject request changes =
     (case dg_to_value dg changes of
        None \<Rightarrow> None
      | Some value \<Rightarrow>
          (case write_canonical_json (dg_write_string dg) value of
             None \<Rightarrow> None
           | Some canonical \<Rightarrow> Some (dg_sha256_hex dg (request_preimage subject request canonical))))"

section \<open>Frames determine their components\<close>

definition short :: "string \<Rightarrow> bool" where
  "short s \<longleftrightarrow> length s < 2 ^ 64"

lemma length_be_bytes [simp]: "length (be_bytes k n) = k"
  by (induction k arbitrary: n) auto

lemma be_bytes_inject: "m < 256 ^ k \<Longrightarrow> n < 256 ^ k \<Longrightarrow> be_bytes k m = be_bytes k n \<longleftrightarrow> m = n"
proof (induction k arbitrary: m n)
  case (Suc k)
  have "m div 256 < 256 ^ k" "n div 256 < 256 ^ k"
    using Suc.prems by (simp_all add: less_mult_imp_div_less mult.commute)
  note IH = Suc.IH [OF this]
  have c: "(char_of (m mod 256) :: char) = char_of (n mod 256) \<longleftrightarrow> m mod 256 = n mod 256"
    by (metis mod_mod_trivial of_char_of)
  show ?case unfolding be_bytes.simps append1_eq_conv IH c
    by (metis div_mult_mod_eq)
qed simp

lemma frame_append_inject:
  assumes "short a" "short b"
  shows "frame a @ xs = frame b @ ys \<longleftrightarrow> a = b \<and> xs = ys"
proof
  assume eq: "frame a @ xs = frame b @ ys"
  have u: "unat (of_nat (length s) :: u64) = length s" if "short s" for s
    using that by (simp add: short_def unat_of_nat)
  have fr: "frame s @ zs = be_bytes 8 (length s) @ (s @ zs)" if "short s" for s zs
    by (simp only: frame_def u [OF that] append_assoc)
  have "be_bytes 8 (length a) = be_bytes 8 (length b)" and r: "a @ xs = b @ ys"
    using eq unfolding fr [OF assms(1)] fr [OF assms(2)]
    using append_eq_append_conv [of "be_bytes 8 (length a)" "be_bytes 8 (length b)"] length_be_bytes by metis+
  moreover have "length a < 256 ^ 8" "length b < 256 ^ 8" using assms by (simp_all add: short_def)
  ultimately have "length a = length b" using be_bytes_inject by blast
  with r show "a = b \<and> xs = ys" by simp
next
  show "frame a @ xs = frame b @ ys" if "a = b \<and> xs = ys" using that by blast
qed

lemma frame_nonempty [simp]: "frame a \<noteq> []"
  unfolding frame_def using length_be_bytes [of 8] by (metis append_is_Nil_conv list.size(3) zero_neq_numeral)

lemma frames_inject:
  "\<forall>a \<in> set as. short a \<Longrightarrow> \<forall>b \<in> set bs. short b \<Longrightarrow> frames as = frames bs \<longleftrightarrow> as = bs"
proof (induction as arbitrary: bs)
  case Nil
  then show ?case by (cases bs) (auto simp: frames_def)
next
  case (Cons a as)
  show ?case
  proof (cases bs)
    case Nil
    then show ?thesis by (simp add: frames_def)
  next
    case (Cons b bs')
    with Cons.prems have "frames (a # as) = frames bs \<longleftrightarrow> a = b \<and> frames as = frames bs'"
      by (simp add: frames_def frame_append_inject)
    with Cons.IH [of bs'] Cons.prems Cons show ?thesis by auto
  qed
qed

lemma scope_components_inject:
  "scope_components s @ xs = scope_components s' @ ys \<Longrightarrow> length xs = length ys \<Longrightarrow> s = s' \<and> xs = ys"
  by (cases s; cases s') auto

definition short_binding :: "role_binding \<Rightarrow> bool" where
  "short_binding b \<longleftrightarrow> short (pr_issuer (rb_principal b)) \<and> short (pr_subject (rb_principal b))
     \<and> short (rb_role b) \<and> (\<forall>c \<in> set (scope_components (rb_scope b)). short c)"

lemma role_binding_preimage_inject:
  assumes "short_binding a" "short_binding b"
  shows "role_binding_preimage a = role_binding_preimage b \<longleftrightarrow> a = b"
proof
  assume eq: "role_binding_preimage a = role_binding_preimage b"
  then have "[pr_issuer (rb_principal a), pr_subject (rb_principal a), rb_role a] @ scope_components (rb_scope a)
      = [pr_issuer (rb_principal b), pr_subject (rb_principal b), rb_role b] @ scope_components (rb_scope b)"
    unfolding role_binding_preimage_def same_append_eq
    by (subst (asm) frames_inject) (use assms in \<open>auto simp: short_binding_def\<close>)
  then show "a = b"
    using scope_components_inject [of "rb_scope a" "[]" "rb_scope b" "[]"]
    by (simp add: role_binding.equality principal_identity.equality)
qed simp

definition short_request ::
  "'y authenticated_subject \<Rightarrow> control_request_context \<Rightarrow> string \<Rightarrow> bool" where
  "short_request subject request changes_json \<longleftrightarrow>
     short (pr_issuer (as_principal subject)) \<and> short (pr_subject (as_principal subject))
     \<and> short (rq_route_template request) \<and> short (rq_method request)
     \<and> short (rq_canonical_path request) \<and> short changes_json
     \<and> (\<forall>c \<in> set (scope_components (rq_scope request)). short c)"

lemma request_preimage_inject:
  assumes "short_request s r j" "short_request s' r' j'"
  shows "request_preimage s r j = request_preimage s' r' j' \<longleftrightarrow>
    as_principal s = as_principal s' \<and> r = r' \<and> j = j'"
proof
  assume eq: "request_preimage s r j = request_preimage s' r' j'"
  then have e: "[pr_issuer (as_principal s), pr_subject (as_principal s), rq_route_template r,
        rq_method r, rq_canonical_path r] @ scope_components (rq_scope r) @ [j]
      = [pr_issuer (as_principal s'), pr_subject (as_principal s'), rq_route_template r',
        rq_method r', rq_canonical_path r'] @ scope_components (rq_scope r') @ [j']"
    unfolding request_preimage_def same_append_eq
    by (subst (asm) frames_inject) (use assms in \<open>auto simp: short_request_def\<close>)
  then have "rq_scope r = rq_scope r' \<and> [j] = [j']"
    using scope_components_inject [of "rq_scope r" "[j]" "rq_scope r'" "[j']"] by simp
  with e show "as_principal s = as_principal s' \<and> r = r' \<and> j = j'"
    by (simp add: control_request_context.equality principal_identity.equality)
qed (auto simp: request_preimage_def)

section \<open>Canonical JSON does not depend on member order\<close>

text \<open>Two objects with the same members, nested objects included.\<close>

inductive same_json :: "json \<Rightarrow> json \<Rightarrow> bool" where
  same_leaf: "same_json v v"
| same_array: "list_all2 same_json vs ws \<Longrightarrow> same_json (JArray vs) (JArray ws)"
| same_object: "list_all2 (\<lambda>e f. fst e = fst f \<and> same_json (snd e) (snd f)) es fs \<Longrightarrow> mset fs = mset gs \<Longrightarrow>
    distinct (map fst es) \<Longrightarrow> same_json (JObject es) (JObject gs)"

lemma sort_key_unique:
  assumes "mset xs = mset ys" "distinct (map fst xs)"
  shows "sort_key fst xs = sort_key fst (ys :: ('a :: linorder \<times> 'b) list)"
proof (rule map_sorted_distinct_set_unique [where f = fst])
  have sets: "set ys = set xs" using assms(1) by (metis set_mset_mset)
  have dy: "distinct (map fst ys)"
    using assms by (metis mset_eq_imp_distinct_iff mset_map)
  show "inj_on fst (set (sort_key fst xs) \<union> set (sort_key fst ys))"
    using assms(2) sets by (simp add: distinct_map)
  have ds: "distinct (map fst (sort_key fst zs))" if "distinct (map fst zs)" for zs :: "('a \<times> 'b) list"
    using that by (simp add: distinct_map)
  show "distinct (map fst (sort_key fst xs))" by (rule ds [OF assms(2)])
  show "distinct (map fst (sort_key fst ys))" by (rule ds [OF dy])
  show "set (sort_key fst xs) = set (sort_key fst ys)" using sets by simp
qed simp_all

lemma same_json_write:
  "same_json v w \<Longrightarrow> write_canonical_json esc v = write_canonical_json esc w"
proof (induction rule: same_json.induct)
  case (same_array vs ws)
  then have "map (write_canonical_json esc) vs = map (write_canonical_json esc) ws"
    by (induction rule: list_all2_induct) auto
  then show ?case by simp
next
  case (same_object es fs gs)
  let ?r = "\<lambda>(k, v). (k, write_canonical_json esc v)"
  from same_object.IH have r: "map ?r es = map ?r fs \<and> map fst es = map fst fs"
    by (induction rule: list_all2_induct) auto
  have "mset (map ?r es) = mset (map ?r gs)"
    unfolding conjunct1 [OF r] mset_map same_object.hyps(1) by (rule refl)
  moreover have "distinct (map fst (map ?r es))"
    using same_object.hyps(2) by (simp add: comp_def split_def)
  ultimately have "sort_key fst (map ?r es) = sort_key fst (map ?r gs)" by (rule sort_key_unique)
  then show ?case by simp
qed simp

section \<open>Properties\<close>

text \<open>
  The bytes that are hashed determine what they stand for, as long as every component is
  shorter than 2 to the 64: two role bindings with the same preimage are the same binding, and two
  requests with the same preimage have the same principal, request context and changeset text.
  Equal identifiers or fingerprints of different values are collisions of the hash itself.
\<close>

lemma hashed_preimages_are_unambiguous:
  assumes "short_binding a" "short_binding b" "short_request s r j" "short_request s' r' j'"
  shows "(role_binding_preimage a = role_binding_preimage b \<longleftrightarrow> a = b)
    \<and> (request_preimage s r j = request_preimage s' r' j' \<longleftrightarrow>
         as_principal s = as_principal s' \<and> r = r' \<and> j = j')"
  using role_binding_preimage_inject [OF assms(1,2)] request_preimage_inject [OF assms(3,4)] by blast

lemma hashed_preimages_are_unambiguous_example:
  "role_binding_preimage (sample_binding ''ab'' ''c'' Platform)
     \<noteq> role_binding_preimage (sample_binding ''a'' ''bc'' Platform)"
proof -
  let ?s = "\<lparr>as_principal = sample_principal ''ab'', as_claims = ()\<rparr>"
  let ?r = "\<lparr>rq_method = ''PUT'', rq_canonical_path = [], rq_route_template = [], rq_scope = Platform\<rparr>"
  have a: "short_binding (sample_binding ''ab'' ''c'' Platform)"
    and b: "short_binding (sample_binding ''a'' ''bc'' Platform)"
    by (simp_all add: short_binding_def short_def sample_binding_def sample_principal_def)
  have r: "short_request ?s ?r []"
    by (simp add: short_request_def short_def sample_principal_def)
  from hashed_preimages_are_unambiguous [OF a b r r] show ?thesis
    by (simp add: sample_binding_def)
qed

text \<open>
  Canonical JSON is canonical: a changeset whose JSON objects list their members in another
  order, at any depth, is written to the same bytes, so a replay that only reorders members has the
  same fingerprint.
\<close>

lemma canonical_json_ignores_member_order:
  assumes "same_json v w" "dg_to_value dg changes = Some v" "dg_to_value dg changes' = Some w"
  shows "control_request_fingerprint dg subject request changes
     = control_request_fingerprint dg subject request changes'"
  using same_json_write [OF assms(1)] assms(2,3) by (simp add: control_request_fingerprint_def)

definition sample_digest :: "(unit control_change_set \<Rightarrow> json option) \<Rightarrow> unit digest_env" where
  "sample_digest to_value =
     \<lparr>dg_sha256_hex = \<lambda>s. s, dg_to_value = to_value, dg_write_string = \<lambda>s. Some ([CHR 0x22] @ s @ [CHR 0x22])\<rparr>"

lemma canonical_json_ignores_member_order_example:
  "\<exists>v w. v \<noteq> w \<and> (let dg = sample_digest (\<lambda>c. Some (if ch_operations c = [] then v else w));
       subject = \<lparr>as_principal = sample_principal ''ann'', as_claims = ()\<rparr>;
       request = \<lparr>rq_method = ''PUT'', rq_canonical_path = [], rq_route_template = [], rq_scope = Platform\<rparr>;
       none = \<lparr>ch_idempotency_key = None, ch_operations = []\<rparr>;
       one = \<lparr>ch_idempotency_key = None, ch_operations =
         [\<lparr>vo_expected_entity_version = None, vo_operation = DeletePathPolicy ''p''\<rparr>]\<rparr>
     in control_request_fingerprint dg subject request none = control_request_fingerprint dg subject request one)"
proof -
  let ?v = "JObject [(''a'', JNull), (''b'', JBool True)]" and ?w = "JObject [(''b'', JBool True), (''a'', JNull)]"
  have vw: "same_json ?v ?w"
    by (rule same_object [where fs = "[(''a'', JNull), (''b'', JBool True)]"]) (simp_all add: same_leaf)
  show ?thesis
    unfolding Let_def
    by (intro exI [of _ ?v] exI [of _ ?w] conjI canonical_json_ignores_member_order [OF vw])
      (simp_all add: sample_digest_def)
qed

end
