(* ===== verification/Mutation_Authority.thy ===== *)
theory Mutation_Authority
  imports Control_Route Fingerprint
begin

text \<open>
  \<open>control_admin_policy.rs\<close>: which changeset a route may carry, and the authorization of a
  mutation, whose result \<open>AuthorizedControlMutation\<close> ties one principal, request,
  changeset and versioned snapshot together.
\<close>

section \<open>What a route may carry\<close>

text \<open>A creation names a resource that is absent, or repeats an identical one with an idempotency key.\<close>

definition create_or_replay ::
  "'t option \<Rightarrow> 't \<Rightarrow> 'x control_change_set \<Rightarrow> control_middleware_error + bool" where
  "create_or_replay current candidate changes =
     (case current of
        None \<Rightarrow> Inr False
      | Some current' \<Rightarrow>
          (if ch_idempotency_key changes \<noteq> None \<and> current' = candidate then Inr True
           else Inl MutationIntentMismatch))"

definition catalog_of_tenant :: "'x validated_control_snapshot \<Rightarrow> string \<Rightarrow> string \<Rightarrow> bool" where
  "catalog_of_tenant snapshot tenant_id catalog_id =
     list_ex (\<lambda>c. ct_id c = catalog_id \<and> ct_tenant c = tenant_id) (cfg_catalogs (vs_config snapshot))"

definition tenant_collection_move_or_replay ::
  "control_scope \<Rightarrow> 'x collection_decl \<Rightarrow> 'x validated_control_snapshot \<Rightarrow> 'x control_change_set \<Rightarrow>
   control_middleware_error + bool" where
  "tenant_collection_move_or_replay resolved_scope candidate snapshot changes =
     (case resolved_scope of
        Tenant tenant_id \<Rightarrow>
          (case find_collection (vs_config snapshot) (cl_id candidate) of
             None \<Rightarrow> Inl MutationIntentMismatch
           | Some current \<Rightarrow>
               (if \<not> catalog_of_tenant snapshot tenant_id (cl_catalog current)
                   \<or> \<not> catalog_of_tenant snapshot tenant_id (cl_catalog candidate)
                then Inl MutationIntentMismatch
                else if current = candidate
                then (if ch_idempotency_key changes \<noteq> None then Inr True else Inl MutationIntentMismatch)
                else if cl_catalog current = cl_catalog candidate then Inl MutationIntentMismatch
                else if candidate = current\<lparr>cl_catalog := cl_catalog candidate\<rparr> then Inr False
                else Inl MutationIntentMismatch))
      | _ \<Rightarrow> Inl MutationIntentMismatch)"

text \<open>The creating routes, which return at once.\<close>

definition create_intent ::
  "control_route_descriptor \<Rightarrow> string \<Rightarrow> control_scope \<Rightarrow> 'x validated_control_snapshot \<Rightarrow>
   'x control_change_set \<Rightarrow> 'x control_operation \<Rightarrow> (control_middleware_error + bool) option" where
  "create_intent descriptor method resolved_scope snapshot changes operation =
     (if method \<noteq> ''POST'' then None
      else (case operation of
        PutTenant candidate \<Rightarrow>
          (if descriptor = Tenants then
             Some (if resolved_scope \<noteq> Platform then Inl MutationIntentMismatch
               else create_or_replay (find_tenant (vs_config snapshot) (tn_id candidate)) candidate changes)
           else None)
      | PutCatalog candidate \<Rightarrow>
          (if descriptor = TenantCatalogs then
             Some (if resolved_scope \<noteq> Tenant (ct_tenant candidate) then Inl MutationIntentMismatch
               else create_or_replay (find_catalog (vs_config snapshot) (ct_id candidate)) candidate changes)
           else None)
      | PutCollection candidate \<Rightarrow>
          (if descriptor = CatalogCollections then
             Some (if \<not> (case resolved_scope of Catalog _ c \<Rightarrow> cl_catalog candidate = c | _ \<Rightarrow> False)
               then Inl MutationIntentMismatch
               else create_or_replay (find_collection (vs_config snapshot) (cl_id candidate)) candidate changes)
           else if descriptor = TenantCollectionMove then
             Some (tenant_collection_move_or_replay resolved_scope candidate snapshot changes)
           else None)
      | _ \<Rightarrow> None))"

definition put_or_patch :: "string \<Rightarrow> bool" where
  "put_or_patch method = (method = ''PUT'' \<or> method = ''PATCH'')"

definition target_is :: "canonical_control_path \<Rightarrow> string \<Rightarrow> bool" where
  "target_is canonical name = (last_opt (cp_segments canonical) = Some name)"

text \<open>The other routes: does the one operation fit the route, the method and the path?\<close>

definition intent_matches ::
  "'x digest_env \<Rightarrow> control_route_descriptor \<Rightarrow> string \<Rightarrow> canonical_control_path \<Rightarrow> control_scope \<Rightarrow>
   'x validated_control_snapshot \<Rightarrow> 'x versioned_control_operation \<Rightarrow> bool" where
  "intent_matches dg descriptor method canonical resolved_scope snapshot operation =
     (let expected = vo_expected_entity_version operation \<noteq> None; segments = cp_segments canonical in
      case vo_operation operation of
        SetPlatformSettings _ \<Rightarrow>
          descriptor = PlatformSettings \<and> put_or_patch method \<and> expected
      | SetTenantSettings tenant _ \<Rightarrow>
          descriptor = TenantSettings \<and> put_or_patch method \<and> expected
          \<and> level_of resolved_scope = At_Tenant \<and> nth_opt segments 3 = Some tenant
      | SetCatalogSettings tenant catalog _ \<Rightarrow>
          descriptor = CatalogSettings \<and> put_or_patch method \<and> expected
          \<and> level_of resolved_scope = At_Catalog \<and> nth_opt segments 3 = Some tenant
          \<and> nth_opt segments 5 = Some catalog
      | PutTenant tenant \<Rightarrow>
          descriptor = TenantRoute \<and> method = ''PUT'' \<and> resolved_scope = Tenant (tn_id tenant)
      | PutCatalog catalog \<Rightarrow>
          descriptor = CatalogRoute \<and> method = ''PUT''
          \<and> resolved_scope = Catalog (ct_tenant catalog) (ct_id catalog)
      | PutCollection collection \<Rightarrow>
          descriptor = CollectionRoute \<and> method = ''PUT''
          \<and> (case resolved_scope of
               Collection _ c k \<Rightarrow> cl_id collection = k \<and> cl_catalog collection = c
             | _ \<Rightarrow> False)
      | TombstoneResource scope \<Rightarrow>
          descriptor \<in> {TenantRoute, CatalogRoute, CollectionRoute} \<and> method = ''DELETE''
          \<and> scope = resolved_scope
      | PermanentlyDeleteResource scope \<Rightarrow>
          descriptor \<in> {TenantPermanentDelete, CatalogPermanentDelete, CollectionPermanentDelete}
          \<and> method = ''DELETE'' \<and> scope = resolved_scope \<and> expected
          \<and> scope \<in> set (sn_tombstones (vs_source snapshot))
      | PutPathPolicy policy \<Rightarrow>
          descriptor \<in> {PlatformPathPolicy, CollectionPathPolicy} \<and> method = ''PUT''
          \<and> pp_scope policy = Some resolved_scope \<and> target_is canonical (pp_id policy)
      | DeletePathPolicy i \<Rightarrow>
          descriptor \<in> {PlatformPathPolicy, CollectionPathPolicy} \<and> method = ''DELETE''
          \<and> target_is canonical i
          \<and> list_ex (\<lambda>p. pp_id p = i \<and> pp_scope p = Some resolved_scope) (sn_policies (vs_source snapshot))
      | PutRoleBinding binding \<Rightarrow>
          descriptor = PlatformRoleBindings \<and> method = ''POST'' \<and> rb_scope binding = resolved_scope
      | DeleteRoleBinding who scope role \<Rightarrow>
          descriptor = PlatformRoleBinding \<and> method = ''DELETE'' \<and> scope = resolved_scope
          \<and> target_is canonical (role_binding_target_id dg
               \<lparr>rb_principal = who, rb_role = role, rb_scope = scope\<rparr>)
      | ReplacePlatformSettings _ \<Rightarrow> False)"

definition validate_mutation_intent ::
  "'x digest_env \<Rightarrow> control_route_descriptor \<Rightarrow> string \<Rightarrow> canonical_control_path \<Rightarrow> control_scope \<Rightarrow>
   'x validated_control_snapshot \<Rightarrow> 'x control_change_set \<Rightarrow> control_middleware_error + bool" where
  "validate_mutation_intent dg descriptor method canonical resolved_scope snapshot changes =
     (if method \<notin> {''POST'', ''PUT'', ''PATCH'', ''DELETE''} then Inl MutationIntentMismatch
      else if descriptor = PlatformBatchImport then
        (if method = ''POST'' \<and> resolved_scope = Platform \<and> is_ok (change_set_validate changes)
         then Inr False else Inl MutationIntentMismatch)
      else (case ch_operations changes of
        [operation] \<Rightarrow>
          (case create_intent descriptor method resolved_scope snapshot changes (vo_operation operation) of
             Some result \<Rightarrow> result
           | None \<Rightarrow>
               (if intent_matches dg descriptor method canonical resolved_scope snapshot operation
                then Inr False else Inl MutationIntentMismatch))
      | _ \<Rightarrow> Inl MutationIntentMismatch))"

section \<open>The authorization of a mutation\<close>

record 'x authorized_control_mutation =
  au_request_fingerprint :: string
  au_replay_only :: bool
  au_principal :: principal_identity
  au_effective_scope :: control_scope
  au_decision_context :: control_evaluation
  au_audit_request :: audit_request_context
  au_snapshot_revision :: u64
  au_authoritative_snapshot :: "'x control_snapshot"
  au_authoritative_entity_versions :: entity_versions
  au_changes :: "'x control_change_set"

definition validate_intent ::
  "'x authorized_control_mutation \<Rightarrow> 'x control_change_set \<Rightarrow> core_error + unit" where
  "validate_intent authorization changes =
     ensure (au_changes authorization = changes)
       (ControlValidation (Refused ''authorization does not match the submitted changeset''))"

definition validate_authoritative_state ::
  "'x authorized_control_mutation \<Rightarrow> 'x control_snapshot \<Rightarrow> entity_versions \<Rightarrow> core_error + unit" where
  "validate_authoritative_state authorization snapshot versions =
     ensure (au_authoritative_snapshot authorization = snapshot
             \<and> au_authoritative_entity_versions authorization = versions)
       (ControlValidation (Refused ''authorization does not match authoritative store state''))"

definition authorize_control_mutation_canonical ::
  "'x digest_env \<Rightarrow> 'y authenticated_subject \<Rightarrow> control_request_context \<Rightarrow> audit_request_context \<Rightarrow>
   'x versioned_control_snapshot \<Rightarrow> 'x control_change_set \<Rightarrow> canonical_control_path \<Rightarrow> bool \<Rightarrow>
   control_evaluation + 'x authorized_control_mutation" where
  "authorize_control_mutation_canonical dg subject request audit_request snapshot changes path replay_only =
     (case validated_state snapshot of
        Inl _ \<Rightarrow> Inl (denied (rq_scope request))
      | Inr (validated, snapshot_revision, versions) \<Rightarrow>
          if \<not> is_ok (change_set_validate changes) then Inl (denied (rq_scope request))
          else if ar_method audit_request \<noteq> rq_method request
                  \<or> ar_canonical_path audit_request \<noteq> rq_canonical_path request
                  \<or> is_blank (ar_correlation_id audit_request)
          then Inl (denied (rq_scope request))
          else if cp_value path \<noteq> rq_canonical_path request then Inl (denied (rq_scope request))
          else
            let decision_context = explain_control_canonical subject request validated path in
            if ev_decision decision_context \<noteq> Decision_Allow then Inl decision_context
            else (case control_request_fingerprint dg subject request changes of
                    None \<Rightarrow> Inl (denied (rq_scope request))
                  | Some request_fingerprint \<Rightarrow>
                      Inr \<lparr>au_request_fingerprint = request_fingerprint, au_replay_only = replay_only,
                           au_principal = as_principal subject, au_effective_scope = rq_scope request,
                           au_decision_context = decision_context, au_audit_request = audit_request,
                           au_snapshot_revision = snapshot_revision,
                           au_authoritative_snapshot = vs_source validated,
                           au_authoritative_entity_versions = versions, au_changes = changes\<rparr>))"

definition authorize_control_mutation_from_context ::
  "'x digest_env \<Rightarrow> 'y authenticated_subject \<Rightarrow> control_request_context \<Rightarrow> audit_request_context \<Rightarrow>
   'x versioned_control_snapshot \<Rightarrow> 'x control_change_set \<Rightarrow>
   control_evaluation + 'x authorized_control_mutation" where
  "authorize_control_mutation_from_context dg subject request audit_request snapshot changes =
     (case canonical_request_path request of
        None \<Rightarrow> Inl (denied (rq_scope request))
      | Some path \<Rightarrow>
          authorize_control_mutation_canonical dg subject request audit_request snapshot changes path False)"

definition authorize_control_mutation ::
  "'x digest_env \<Rightarrow> 'y authenticated_subject \<Rightarrow> string \<Rightarrow> string \<Rightarrow> string \<Rightarrow> control_route_registry \<Rightarrow>
   string \<Rightarrow> 'x versioned_control_snapshot \<Rightarrow> 'x control_change_set \<Rightarrow> string \<Rightarrow>
   control_middleware_error + 'x authorized_control_mutation" where
  "authorize_control_mutation dg subject method raw_path template registry application_root
     snapshot changes correlation_id =
     (if method = ''GET'' \<or> method = ''HEAD'' then Inl WrongCheckpointKind
      else if is_blank correlation_id then Inl InvalidCorrelationId
      else
        and_then (map_err InvalidPath (canonicalize_control_path raw_path application_root)) (\<lambda>path.
        and_then (registry_verify registry path template) (\<lambda>descriptor.
        and_then (map_err (\<lambda>_. InvalidSnapshot) (validated_snapshot snapshot)) (\<lambda>validated.
        and_then (resolve_snapshot_scope path validated) (\<lambda>scope.
        and_then (validate_mutation_intent dg descriptor method path scope validated changes) (\<lambda>replay_only.
        map_err Denied
          (authorize_control_mutation_canonical dg subject
            \<lparr>rq_method = method, rq_canonical_path = cp_value path, rq_route_template = template,
             rq_scope = scope\<rparr>
            \<lparr>ar_method = method, ar_canonical_path = cp_value path, ar_correlation_id = correlation_id\<rparr>
            snapshot changes path replay_only)))))))"

end
