(* ===== verification/Apply_Changes.thy ===== *)
theory Apply_Changes
  imports Mutation_Authority
begin

text \<open>
  \<open>control_model.rs\<close>: the application of an authorized changeset to a snapshot. Every
  operation is checked against the authorized scope and the expected entity version and applied to a
  candidate snapshot; the candidate is validated as a whole; policies, bindings and removals are
  checked against the authority snapshot; and the versions of the changed resources move to the new
  revision. Sets are those of the source (\<open>BTreeSet\<close>, iterated in order). The source
  visits the changed policies in the arbitrary order of a hash set; the model takes the order of
  first occurrence, which can only change which of several errors is reported.
\<close>

section \<open>Where an operation lands\<close>

definition settings_scope ::
  "'x control_snapshot \<Rightarrow> string \<Rightarrow> string option \<Rightarrow> core_error + control_scope" where
  "settings_scope sn tenant_ext catalog_ext =
     and_then (ok_or (List.find (\<lambda>t. tenant_external_id t = tenant_ext) (cfg_tenants (sn_config sn)))
       (ControlValidation (Refused ''settings edit references an unknown tenant''))) (\<lambda>tenant.
     case catalog_ext of
       None \<Rightarrow> Inr (Tenant (tn_id tenant))
     | Some ext \<Rightarrow>
         and_then (ok_or (List.find (\<lambda>c. ct_tenant c = tn_id tenant \<and> catalog_external_id c = ext)
             (cfg_catalogs (sn_config sn)))
           (ControlValidation (Refused ''settings edit references an unknown catalog''))) (\<lambda>catalog.
         Inr (Catalog (tn_id tenant) (ct_id catalog))))"

definition stable_settings_scope ::
  "'x control_snapshot \<Rightarrow> 'x control_snapshot \<Rightarrow> string \<Rightarrow> string option \<Rightarrow> core_error + control_scope" where
  "stable_settings_scope authority candidate tenant_ext catalog_ext =
     and_then (settings_scope authority tenant_ext catalog_ext) (\<lambda>a.
     and_then (settings_scope candidate tenant_ext catalog_ext) (\<lambda>c.
     if a \<noteq> c then Inl (ControlValidation (Refused ''settings edit target changed''))
     else Inr a))"

definition catalog_resource_key :: "'x control_snapshot \<Rightarrow> string \<Rightarrow> string option" where
  "catalog_resource_key sn catalog_id =
     map_option (\<lambda>c. resource_key (Catalog (ct_tenant c) (ct_id c))) (find_catalog (sn_config sn) catalog_id)"

definition collection_resource_key :: "'x control_snapshot \<Rightarrow> string \<Rightarrow> string option" where
  "collection_resource_key sn collection_id =
     (case find_collection (sn_config sn) collection_id of
        None \<Rightarrow> None
      | Some k \<Rightarrow>
          map_option (\<lambda>c. resource_key (Collection (ct_tenant c) (ct_id c) (cl_id k)))
            (find_catalog (sn_config sn) (cl_catalog k)))"

definition catalog_of_collection ::
  "'x app_config \<Rightarrow> 'x collection_decl \<Rightarrow> core_error + 'x catalog_decl" where
  "catalog_of_collection cfg k =
     ok_or (find_catalog cfg (cl_catalog k))
       (ControlValidation (Misplaced_Resource ''collection'' (cl_id k) ''unknown catalog'' (cl_catalog k)))"

definition collection_scope :: "'x app_config \<Rightarrow> 'x collection_decl \<Rightarrow> core_error + control_scope" where
  "collection_scope cfg k =
     and_then (catalog_of_collection cfg k) (\<lambda>c.
     Inr (Collection (ct_tenant c) (ct_id c) (cl_id k)))"

definition binding_key :: "principal_identity \<Rightarrow> control_scope \<Rightarrow> string \<Rightarrow> string" where
  "binding_key who scope role =
     ''role-binding/'' @ resource_key scope @ ''/'' @ role @ ''/'' @ pr_issuer who @ ''/'' @ pr_subject who"

definition operation_key :: "'x control_operation \<Rightarrow> 'x control_snapshot \<Rightarrow> core_error + string" where
  "operation_key operation sn =
     (case operation of
        ReplacePlatformSettings _ \<Rightarrow> Inr ''platform''
      | SetPlatformSettings _ \<Rightarrow> Inr ''platform''
      | SetTenantSettings tenant _ \<Rightarrow>
          and_then (settings_scope sn tenant None) (\<lambda>s. Inr (resource_key s))
      | SetCatalogSettings tenant catalog _ \<Rightarrow>
          and_then (settings_scope sn tenant (Some catalog)) (\<lambda>s. Inr (resource_key s))
      | PutTenant tenant \<Rightarrow> Inr (''tenant/'' @ tn_id tenant)
      | PutCatalog catalog \<Rightarrow> Inr (''tenant/'' @ ct_tenant catalog @ ''/catalog/'' @ ct_id catalog)
      | PutCollection collection \<Rightarrow>
          and_then (catalog_of_collection (sn_config sn) collection) (\<lambda>c.
          Inr (''tenant/'' @ ct_tenant c @ ''/catalog/'' @ ct_id c @ ''/collection/'' @ cl_id collection))
      | TombstoneResource scope \<Rightarrow> Inr (resource_key scope)
      | PermanentlyDeleteResource scope \<Rightarrow> Inr (resource_key scope)
      | PutRoleBinding b \<Rightarrow> Inr (binding_key (rb_principal b) (rb_scope b) (rb_role b))
      | DeleteRoleBinding who scope role \<Rightarrow> Inr (binding_key who scope role)
      | PutPathPolicy policy \<Rightarrow> Inr (''path-policy/'' @ pp_id policy)
      | DeletePathPolicy i \<Rightarrow> Inr (''path-policy/'' @ i))"

definition operation_expected_key ::
  "'x control_operation \<Rightarrow> 'x control_snapshot \<Rightarrow> 'x control_snapshot \<Rightarrow> core_error + string" where
  "operation_expected_key operation authority candidate =
     (case operation of
        PutCatalog catalog \<Rightarrow>
          (case catalog_resource_key authority (ct_id catalog) of
             Some key \<Rightarrow> Inr key
           | None \<Rightarrow> operation_key operation candidate)
      | PutCollection collection \<Rightarrow>
          (case collection_resource_key authority (cl_id collection) of
             Some key \<Rightarrow> Inr key
           | None \<Rightarrow> operation_key operation candidate)
      | _ \<Rightarrow> operation_key operation candidate)"

definition put_catalog_scopes :: "'x catalog_decl \<Rightarrow> 'x control_snapshot \<Rightarrow> control_scope list" where
  "put_catalog_scopes catalog authority =
     (case find_catalog (sn_config authority) (ct_id catalog) of
        None \<Rightarrow> [Tenant (ct_tenant catalog)]
      | Some existing \<Rightarrow>
          (if ct_tenant existing = ct_tenant catalog
           then [Catalog (ct_tenant existing) (ct_id existing)]
           else [Catalog (ct_tenant existing) (ct_id existing), Tenant (ct_tenant catalog)]))"

definition put_collection_scopes ::
  "'x collection_decl \<Rightarrow> 'x control_snapshot \<Rightarrow> 'x control_snapshot \<Rightarrow> core_error + control_scope list" where
  "put_collection_scopes collection authority candidate =
     and_then (catalog_of_collection (sn_config candidate) collection) (\<lambda>candidate_catalog.
     let candidate_parent = Catalog (ct_tenant candidate_catalog) (ct_id candidate_catalog) in
     case find_collection (sn_config authority) (cl_id collection) of
       None \<Rightarrow> Inr [candidate_parent]
     | Some existing \<Rightarrow>
         and_then (catalog_of_collection (sn_config authority) existing) (\<lambda>existing_catalog.
         let existing_scope =
               Collection (ct_tenant existing_catalog) (ct_id existing_catalog) (cl_id existing) in
         if cl_catalog existing = cl_catalog collection then Inr [existing_scope]
         else Inr [existing_scope, candidate_parent]))"

definition put_policy_scopes ::
  "'x path_policy \<Rightarrow> 'x control_snapshot \<Rightarrow> core_error + control_scope list" where
  "put_policy_scopes policy authority =
     and_then (ok_or (pp_scope policy) (ControlValidation (Refused ''path policy requires an explicit scope'')))
       (\<lambda>candidate_scope.
     case List.find (\<lambda>p. pp_id p = pp_id policy) (sn_policies authority) of
       None \<Rightarrow> Inr [candidate_scope]
     | Some existing \<Rightarrow>
         let existing_scope = (case pp_scope existing of Some s \<Rightarrow> s | None \<Rightarrow> Platform) in
         if existing_scope = candidate_scope then Inr [candidate_scope]
         else Inr [existing_scope, candidate_scope])"

definition operation_scopes ::
  "'x control_operation \<Rightarrow> 'x control_snapshot \<Rightarrow> 'x control_snapshot \<Rightarrow> core_error + control_scope list" where
  "operation_scopes operation authority candidate =
     (case operation of
        ReplacePlatformSettings _ \<Rightarrow> Inr [Platform]
      | SetPlatformSettings _ \<Rightarrow> Inr [Platform]
      | SetTenantSettings tenant _ \<Rightarrow>
          and_then (stable_settings_scope authority candidate tenant None) (\<lambda>s. Inr [s])
      | SetCatalogSettings tenant catalog _ \<Rightarrow>
          and_then (stable_settings_scope authority candidate tenant (Some catalog)) (\<lambda>s. Inr [s])
      | PutTenant tenant \<Rightarrow>
          Inr [case find_tenant (sn_config authority) (tn_id tenant) of
                 None \<Rightarrow> Platform
               | Some existing \<Rightarrow> Tenant (tn_id existing)]
      | PutCatalog catalog \<Rightarrow> Inr (put_catalog_scopes catalog authority)
      | PutCollection collection \<Rightarrow> put_collection_scopes collection authority candidate
      | TombstoneResource scope \<Rightarrow> Inr [scope]
      | PermanentlyDeleteResource scope \<Rightarrow> Inr [scope]
      | DeleteRoleBinding _ scope _ \<Rightarrow> Inr [scope]
      | PutRoleBinding b \<Rightarrow> Inr [rb_scope b]
      | PutPathPolicy policy \<Rightarrow> put_policy_scopes policy authority
      | DeletePathPolicy i \<Rightarrow>
          (case List.find (\<lambda>p. pp_id p = i) (sn_policies authority) of
             None \<Rightarrow> Inl (ControlValidation (Unknown_Resource ''path policy'' i))
           | Some p \<Rightarrow>
               (case pp_scope p of
                  None \<Rightarrow> Inl (ControlValidation (Unknown_Resource ''path policy'' i))
                | Some s \<Rightarrow> Inr [s])))"

section \<open>Moving a collection\<close>

definition collection_control_anchor ::
  "'x app_config \<Rightarrow> 'x collection_decl \<Rightarrow> core_error + string" where
  "collection_control_anchor cfg k =
     and_then (catalog_of_collection cfg k) (\<lambda>catalog.
     and_then (ok_or (find_tenant cfg (ct_tenant catalog))
       (ControlValidation (Misplaced_Resource ''catalog'' (ct_id catalog) ''unknown tenant'' (ct_tenant catalog))))
       (\<lambda>tenant.
     Inr (''/_control/v1/tenants/'' @ tenant_external_id tenant @ ''/catalogs/''
          @ catalog_external_id catalog @ ''/collections/'' @ collection_external_id k)))"

definition cannot_preserve :: "string \<Rightarrow> core_error" where
  "cannot_preserve pattern = ControlValidation (Bad_Path_Policy pattern ''collection move cannot preserve'')"

text \<open>A pattern that does not start with the old anchor survives only when both envelopes cover it.\<close>

definition rewrite_covered :: "string \<Rightarrow> string \<Rightarrow> string \<Rightarrow> core_error + string" where
  "rewrite_covered pattern old_anchor new_anchor =
     and_then (map_err (\<lambda>_. cannot_preserve pattern) (compile_pattern pattern)) (\<lambda>compiled.
     and_then (map_err (\<lambda>_. ControlValidation (Refused ''invalid old collection policy envelope''))
       (compile_pattern (old_anchor @ ''/**''))) (\<lambda>old_envelope.
     and_then (map_err (\<lambda>_. ControlValidation (Refused ''invalid new collection policy envelope''))
       (compile_pattern (new_anchor @ ''/**''))) (\<lambda>new_envelope.
     if pattern_covers old_envelope compiled \<and> pattern_covers new_envelope compiled
     then Inr pattern
     else Inl (cannot_preserve pattern))))"

definition rewrite_collection_policy_pattern ::
  "string \<Rightarrow> string \<Rightarrow> string \<Rightarrow> core_error + string" where
  "rewrite_collection_policy_pattern pattern old_anchor new_anchor =
     (if old_anchor = new_anchor then Inr pattern
      else (case strip_prefix old_anchor pattern of
        Some suffix \<Rightarrow>
          (if suffix = [] \<or> starts_with ''/'' suffix then Inr (new_anchor @ suffix)
           else rewrite_covered pattern old_anchor new_anchor)
      | None \<Rightarrow> rewrite_covered pattern old_anchor new_anchor))"

definition rewrite_policy ::
  "control_scope \<Rightarrow> control_scope \<Rightarrow> string \<Rightarrow> string \<Rightarrow> 'x path_policy \<Rightarrow> core_error + 'x path_policy" where
  "rewrite_policy old_scope new_scope old_anchor new_anchor policy =
     (if pp_scope policy \<noteq> Some old_scope then Inr policy
      else
        and_then (traverse (\<lambda>p. rewrite_collection_policy_pattern p old_anchor new_anchor) (pp_patterns policy))
          (\<lambda>patterns.
        Inr (policy\<lparr>pp_scope := Some new_scope, pp_patterns := patterns\<rparr>)))"

definition replace_scope :: "control_scope \<Rightarrow> control_scope \<Rightarrow> control_scope \<Rightarrow> control_scope" where
  "replace_scope old_scope new_scope scope = (if scope = old_scope then new_scope else scope)"

definition migrate_collection_control_state ::
  "'x control_snapshot \<Rightarrow> 'x collection_decl \<Rightarrow> core_error + 'x control_snapshot" where
  "migrate_collection_control_state sn candidate =
     (case find_collection (sn_config sn) (cl_id candidate) of
        None \<Rightarrow> Inr sn
      | Some current \<Rightarrow>
          (if cl_catalog current = cl_catalog candidate then Inr sn
           else
             and_then (collection_scope (sn_config sn) current) (\<lambda>old_scope.
             and_then (collection_scope (sn_config sn) candidate) (\<lambda>new_scope.
             and_then (collection_control_anchor (sn_config sn) current) (\<lambda>old_anchor.
             and_then (collection_control_anchor (sn_config sn) candidate) (\<lambda>new_anchor.
             and_then (traverse (rewrite_policy old_scope new_scope old_anchor new_anchor) (sn_policies sn))
               (\<lambda>policies.
             Inr (sn\<lparr>sn_bindings := retain_first {}
                       (map (\<lambda>b. b\<lparr>rb_scope := replace_scope old_scope new_scope (rb_scope b)\<rparr>) (sn_bindings sn)),
                     sn_policies := policies,
                     sn_tombstones := retain_first {}
                       (map (replace_scope old_scope new_scope) (sn_tombstones sn))\<rparr>))))))))"

section \<open>Applying one operation\<close>

fun update_first :: "('a \<Rightarrow> bool) \<Rightarrow> ('a \<Rightarrow> 'a) \<Rightarrow> 'a list \<Rightarrow> 'a list" where
  "update_first p f [] = []"
| "update_first p f (x # xs) = (if p x then f x # xs else x # update_first p f xs)"

definition upsert_by_id :: "('a \<Rightarrow> string) \<Rightarrow> 'a \<Rightarrow> 'a list \<Rightarrow> 'a list" where
  "upsert_by_id key candidate items =
     (case position (\<lambda>item. key item = key candidate) items of
        Some index \<Rightarrow> items[index := candidate]
      | None \<Rightarrow> items @ [candidate])"

definition permanently_delete :: "'x app_config \<Rightarrow> control_scope \<Rightarrow> core_error + 'x app_config" where
  "permanently_delete cfg scope =
     and_then (scope_validate_against scope cfg) (\<lambda>_.
     case scope of
       Platform \<Rightarrow> Inl (ControlValidation (Refused ''the platform scope cannot be permanently deleted''))
     | Tenant t \<Rightarrow> Inr (cfg\<lparr>cfg_tenants := filter (\<lambda>d. tn_id d \<noteq> t) (cfg_tenants cfg)\<rparr>)
     | Catalog _ c \<Rightarrow> Inr (cfg\<lparr>cfg_catalogs := filter (\<lambda>d. ct_id d \<noteq> c) (cfg_catalogs cfg)\<rparr>)
     | Collection _ _ k \<Rightarrow> Inr (cfg\<lparr>cfg_collections := filter (\<lambda>d. cl_id d \<noteq> k) (cfg_collections cfg)\<rparr>))"

definition map_config :: "('x app_config \<Rightarrow> 'x app_config) \<Rightarrow> 'x control_snapshot \<Rightarrow> 'x control_snapshot" where
  "map_config f sn = sn\<lparr>sn_config := f (sn_config sn)\<rparr>"

definition delete_role_binding ::
  "'x control_snapshot \<Rightarrow> principal_identity \<Rightarrow> control_scope \<Rightarrow> string \<Rightarrow> core_error + 'x control_snapshot" where
  "delete_role_binding sn who scope role =
     and_then (principal_validate who ''role binding deletion'') (\<lambda>_.
     and_then (scope_validate_against scope (sn_config sn)) (\<lambda>_.
     and_then (ensure (\<not> is_blank role) (ControlValidation (Refused ''role binding deletion role''))) (\<lambda>_.
     Inr (sn\<lparr>sn_bindings := filter (\<lambda>b. rb_principal b \<noteq> who \<or> rb_scope b \<noteq> scope \<or> rb_role b \<noteq> role)
            (sn_bindings sn)\<rparr>))))"

definition apply_operation ::
  "'x control_snapshot \<Rightarrow> 'x control_operation \<Rightarrow> core_error + 'x control_snapshot" where
  "apply_operation sn operation =
     (case operation of
        ReplacePlatformSettings config \<Rightarrow> Inr (sn\<lparr>sn_config := config\<rparr>)
      | SetPlatformSettings settings \<Rightarrow> Inr (map_config (\<lambda>c. c\<lparr>cfg_settings := settings\<rparr>) sn)
      | SetTenantSettings tenant settings \<Rightarrow>
          and_then (settings_scope sn tenant None) (\<lambda>s.
          Inr (map_config (\<lambda>c. c\<lparr>cfg_tenants := update_first (\<lambda>t. tn_id t = scope_tenant s)
            (\<lambda>t. t\<lparr>tn_settings := settings\<rparr>) (cfg_tenants c)\<rparr>) sn))
      | SetCatalogSettings tenant catalog settings \<Rightarrow>
          and_then (settings_scope sn tenant (Some catalog)) (\<lambda>s.
          Inr (map_config (\<lambda>c. c\<lparr>cfg_catalogs := update_first (\<lambda>d. ct_id d = scope_catalog s)
            (\<lambda>d. d\<lparr>ct_settings := settings\<rparr>) (cfg_catalogs c)\<rparr>) sn))
      | PutTenant tenant \<Rightarrow>
          Inr (map_config (\<lambda>c. c\<lparr>cfg_tenants := upsert_by_id tn_id tenant (cfg_tenants c)\<rparr>) sn)
      | PutCatalog catalog \<Rightarrow>
          Inr (map_config (\<lambda>c. c\<lparr>cfg_catalogs := upsert_by_id ct_id catalog (cfg_catalogs c)\<rparr>) sn)
      | PutCollection collection \<Rightarrow>
          Inr (map_config (\<lambda>c. c\<lparr>cfg_collections := upsert_by_id cl_id collection (cfg_collections c)\<rparr>) sn)
      | TombstoneResource scope \<Rightarrow>
          and_then (scope_validate_against scope (sn_config sn)) (\<lambda>_.
          Inr (if scope \<in> set (sn_tombstones sn) then sn
               else sn\<lparr>sn_tombstones := sn_tombstones sn @ [scope]\<rparr>))
      | PermanentlyDeleteResource scope \<Rightarrow>
          and_then (permanently_delete (sn_config sn) scope) (\<lambda>config.
          Inr (sn\<lparr>sn_config := config, sn_tombstones := filter (\<lambda>t. t \<noteq> scope) (sn_tombstones sn)\<rparr>))
      | PutRoleBinding binding \<Rightarrow>
          Inr (if binding \<in> set (sn_bindings sn) then sn
               else sn\<lparr>sn_bindings := sn_bindings sn @ [binding]\<rparr>)
      | DeleteRoleBinding who scope role \<Rightarrow> delete_role_binding sn who scope role
      | PutPathPolicy policy \<Rightarrow>
          Inr (sn\<lparr>sn_policies := upsert_by_id pp_id policy (sn_policies sn)\<rparr>)
      | DeletePathPolicy i \<Rightarrow>
          and_then (ensure (\<not> is_blank i) (ControlValidation (Refused ''path policy deletion id''))) (\<lambda>_.
          Inr (sn\<lparr>sn_policies := filter (\<lambda>p. pp_id p \<noteq> i) (sn_policies sn)\<rparr>)))"

section \<open>The loop over the operations\<close>

record 'x apply_state =
  as_snapshot :: "'x control_snapshot"
  as_changed :: "string set"
  as_version_targets :: "string set"
  as_obsolete_versions :: "string set"
  as_touched_catalogs :: "string set"
  as_touched_collections :: "string set"

definition check_deletion ::
  "'x control_snapshot \<Rightarrow> 'x versioned_control_operation \<Rightarrow> core_error + unit" where
  "check_deletion authority v =
     (case vo_operation v of
        PermanentlyDeleteResource scope \<Rightarrow>
          (if scope \<notin> set (sn_tombstones authority)
           then Inl (ControlValidation (Refused ''must be tombstoned before permanent deletion''))
           else if vo_expected_entity_version v = None
           then Inl (ControlValidation (Refused ''permanent deletion requires an expected entity version''))
           else Inr ())
      | _ \<Rightarrow> Inr ())"

definition check_expected_version ::
  "entity_versions \<Rightarrow> string \<Rightarrow> string option \<Rightarrow> core_error + unit" where
  "check_expected_version versions key expected =
     (case expected of
        None \<Rightarrow> Inr ()
      | Some e \<Rightarrow>
          let current = (case fmlookup versions key of Some c \<Rightarrow> c | None \<Rightarrow> ''0'') in
          if current \<noteq> e then Inl (ControlEntityVersionConflict key e current) else Inr ())"

definition note_operation :: "'x control_operation \<Rightarrow> string \<Rightarrow> 'x apply_state \<Rightarrow> 'x apply_state" where
  "note_operation operation key s =
     (case operation of
        PutCatalog catalog \<Rightarrow> s\<lparr>as_touched_catalogs := insert (ct_id catalog) (as_touched_catalogs s)\<rparr>
      | PutCollection collection \<Rightarrow>
          s\<lparr>as_touched_collections := insert (cl_id collection) (as_touched_collections s)\<rparr>
      | PermanentlyDeleteResource _ \<Rightarrow>
          s\<lparr>as_changed := insert key (as_changed s),
            as_obsolete_versions := insert key (as_obsolete_versions s)\<rparr>
      | _ \<Rightarrow>
          s\<lparr>as_changed := insert key (as_changed s),
            as_version_targets := insert key (as_version_targets s)\<rparr>)"

definition apply_one ::
  "control_scope \<Rightarrow> 'x control_snapshot \<Rightarrow> entity_versions \<Rightarrow> 'x versioned_control_operation \<Rightarrow>
   'x apply_state \<Rightarrow> core_error + 'x apply_state" where
  "apply_one effective_scope authority versions v s =
     and_then (check_deletion authority v) (\<lambda>_.
     and_then (operation_scopes (vo_operation v) authority (as_snapshot s)) (\<lambda>scopes.
     and_then (for_each (\<lambda>scope. ensure (scope_contains effective_scope scope)
         (ControlValidation (Misplaced_Resource ''scope'' (resource_key effective_scope)
            ''does not contain'' (resource_key scope)))) scopes) (\<lambda>_.
     and_then (operation_expected_key (vo_operation v) authority (as_snapshot s)) (\<lambda>key.
     and_then (check_expected_version versions key (vo_expected_entity_version v)) (\<lambda>_.
     and_then (case vo_operation v of
         PutCollection collection \<Rightarrow> migrate_collection_control_state (as_snapshot s) collection
       | _ \<Rightarrow> Inr (as_snapshot s)) (\<lambda>migrated.
     and_then (apply_operation migrated (vo_operation v)) (\<lambda>applied.
     Inr (note_operation (vo_operation v) key (s\<lparr>as_snapshot := applied\<rparr>)))))))))"

section \<open>The checks on the result\<close>

definition deny_preserves :: "'x path_policy \<Rightarrow> 'x path_policy \<Rightarrow> bool" where
  "deny_preserves candidate previous =
     (if pp_effect candidate \<noteq> Deny \<or> pp_role candidate \<noteq> pp_role previous
         \<or> \<not> list_all (\<lambda>m. m \<in> set (pp_methods candidate)) (pp_methods previous)
      then False
      else (case (pp_scope candidate, pp_scope previous) of
        (Some candidate_scope, Some previous_scope) \<Rightarrow>
          (if \<not> scope_contains candidate_scope previous_scope then False
           else (case (path_policy_validate candidate, path_policy_validate previous) of
             (Inr candidate_patterns, Inr previous_patterns) \<Rightarrow>
               list_all (\<lambda>p. list_ex (\<lambda>c. pattern_covers c p) candidate_patterns) previous_patterns
           | _ \<Rightarrow> False))
      | _ \<Rightarrow> False))"

definition find_policy :: "'x control_snapshot \<Rightarrow> string \<Rightarrow> 'x path_policy option" where
  "find_policy sn i = List.find (\<lambda>p. pp_id p = i) (sn_policies sn)"

definition exceeds :: "string \<Rightarrow> delegation_error \<Rightarrow> core_error" where
  "exceeds what e =
     ControlValidation (Bad_Path_Policy what
       (case e of
          LegacyStatement \<Rightarrow> ''LegacyStatement''
        | InvalidStatement \<Rightarrow> ''InvalidStatement''
        | OutsideAllowEnvelope \<Rightarrow> ''OutsideAllowEnvelope''
        | IntersectsExplicitDeny \<Rightarrow> ''IntersectsExplicitDeny''))"

definition changed_policy_id :: "'x control_operation \<Rightarrow> string option" where
  "changed_policy_id operation =
     (case operation of
        PutPathPolicy policy \<Rightarrow> Some (pp_id policy)
      | DeletePathPolicy i \<Rightarrow> Some i
      | _ \<Rightarrow> None)"

definition check_changed_policy ::
  "'x config_env \<Rightarrow> principal_identity \<Rightarrow> 'x control_snapshot \<Rightarrow> 'x control_snapshot \<Rightarrow> string \<Rightarrow>
   core_error + unit" where
  "check_changed_policy env who authority snapshot i =
     (let actor = \<lparr>as_principal = who, as_claims = ()\<rparr> in
      and_then (case find_policy snapshot i of
          None \<Rightarrow> Inr ()
        | Some policy \<Rightarrow>
            map_err (exceeds ''path policy delegation'') (validate_delegated_policy env actor policy authority)) (\<lambda>_.
      case List.find (\<lambda>p. pp_id p = i \<and> pp_effect p = Deny) (sn_policies authority) of
        None \<Rightarrow> Inr ()
      | Some previous_deny \<Rightarrow>
          (if (case find_policy snapshot i of None \<Rightarrow> False | Some c \<Rightarrow> deny_preserves c previous_deny)
           then Inr ()
           else map_err (exceeds ''path policy deny removal'')
             (validate_delegated_policy env actor (previous_deny\<lparr>pp_effect := Allow\<rparr>) authority))))"

definition check_put_binding ::
  "'x config_env \<Rightarrow> principal_identity \<Rightarrow> 'x control_snapshot \<Rightarrow> 'x control_snapshot \<Rightarrow>
   'x control_operation \<Rightarrow> core_error + unit" where
  "check_put_binding env who authority snapshot operation =
     (case operation of
        PutRoleBinding binding \<Rightarrow>
          map_err (exceeds ''role binding delegation'')
            (validate_role_binding_delegation env who binding authority snapshot)
      | _ \<Rightarrow> Inr ())"

definition check_deleted_binding ::
  "'x config_env \<Rightarrow> principal_identity \<Rightarrow> 'x control_snapshot \<Rightarrow> 'x control_operation \<Rightarrow>
   core_error + unit" where
  "check_deleted_binding env who authority operation =
     (case operation of
        DeleteRoleBinding p scope role \<Rightarrow>
          (case List.find (\<lambda>b. rb_principal b = p \<and> rb_scope b = scope \<and> rb_role b = role)
              (sn_bindings authority) of
             None \<Rightarrow> Inr ()
           | Some removed \<Rightarrow>
               map_err (exceeds ''role binding deny removal'')
                 (validate_role_binding_removal env who removed authority))
      | _ \<Rightarrow> Inr ())"

section \<open>Versions of the changed resources\<close>

record transitions =
  tr_changed :: "string set"
  tr_targets :: "string set"
  tr_obsolete :: "string set"

definition record_resource_transition ::
  "string option \<Rightarrow> string option \<Rightarrow> transitions \<Rightarrow> transitions" where
  "record_resource_transition previous current t =
     (let t1 = (case previous of
            None \<Rightarrow> t
          | Some p \<Rightarrow>
              t\<lparr>tr_changed := insert p (tr_changed t),
                tr_obsolete := (if current \<noteq> Some p then insert p (tr_obsolete t) else tr_obsolete t)\<rparr>)
      in (case current of
            None \<Rightarrow> t1
          | Some c \<Rightarrow> t1\<lparr>tr_changed := insert c (tr_changed t1), tr_targets := insert c (tr_targets t1)\<rparr>))"

definition record_collection ::
  "'x control_snapshot \<Rightarrow> 'x control_snapshot \<Rightarrow> string \<Rightarrow> transitions \<Rightarrow> transitions" where
  "record_collection authority snapshot collection_id =
     record_resource_transition (collection_resource_key authority collection_id)
       (collection_resource_key snapshot collection_id)"

definition record_catalog ::
  "'x control_snapshot \<Rightarrow> 'x control_snapshot \<Rightarrow> string \<Rightarrow> transitions \<Rightarrow> transitions" where
  "record_catalog authority snapshot catalog_id t =
     (let previous = catalog_resource_key authority catalog_id;
          current = catalog_resource_key snapshot catalog_id;
          t1 = record_resource_transition previous current t in
      if \<not> (previous \<noteq> None \<and> current \<noteq> None \<and> previous \<noteq> current) then t1
      else fold (record_collection authority snapshot)
        (sorted_list_of_set (set (map cl_id (filter (\<lambda>k. cl_catalog k = catalog_id)
          (cfg_collections (sn_config authority) @ cfg_collections (sn_config snapshot)))))) t1)"

definition update_versions :: "u64 \<Rightarrow> transitions \<Rightarrow> entity_versions \<Rightarrow> entity_versions" where
  "update_versions revision t versions =
     fold (\<lambda>resource. fmupd resource (show_u64 revision)) (sorted_list_of_set (tr_targets t))
       (fold fmdrop (sorted_list_of_set (tr_obsolete t)) versions)"

section \<open>The whole changeset\<close>

record 'x applied_control_change_set =
  ac_snapshot :: "'x control_snapshot"
  ac_entity_versions :: entity_versions
  ac_changed_resources :: "string list"

definition initial_state :: "'x control_snapshot \<Rightarrow> 'x apply_state" where
  "initial_state sn = \<lparr>as_snapshot = sn, as_changed = {}, as_version_targets = {},
     as_obsolete_versions = {}, as_touched_catalogs = {}, as_touched_collections = {}\<rparr>"

definition all_transitions :: "'x control_snapshot \<Rightarrow> 'x apply_state \<Rightarrow> transitions" where
  "all_transitions authority s =
     fold (record_collection authority (as_snapshot s)) (sorted_list_of_set (as_touched_collections s))
       (fold (record_catalog authority (as_snapshot s)) (sorted_list_of_set (as_touched_catalogs s))
         \<lparr>tr_changed = as_changed s, tr_targets = as_version_targets s, tr_obsolete = as_obsolete_versions s\<rparr>)"

definition check_result ::
  "'x config_env \<Rightarrow> principal_identity \<Rightarrow> 'x control_snapshot \<Rightarrow> 'x control_snapshot \<Rightarrow>
   'x control_operation list \<Rightarrow> core_error + unit" where
  "check_result env who authority snapshot operations =
     and_then (for_each (check_changed_policy env who authority snapshot)
       (retain_first {} (List.map_filter changed_policy_id operations))) (\<lambda>_.
     and_then (for_each (check_put_binding env who authority snapshot) operations) (\<lambda>_.
     for_each (check_deleted_binding env who authority) operations))"

definition apply_control_changes ::
  "'x config_env \<Rightarrow> 'x control_snapshot \<Rightarrow> entity_versions \<Rightarrow> u64 \<Rightarrow> 'x authorized_control_mutation \<Rightarrow>
   'x control_change_set \<Rightarrow> core_error + 'x applied_control_change_set" where
  "apply_control_changes env snapshot versions revision authorization changes =
     and_then (change_set_validate changes) (\<lambda>_.
     and_then (validate_intent authorization changes) (\<lambda>_.
     and_then (ensure (revision \<noteq> 0) (ControlValidation (Refused ''control revision must be positive''))) (\<lambda>_.
     and_then (ensure (au_snapshot_revision authorization = revision - 1)
       (ControlRevisionConflict (au_snapshot_revision authorization) (revision - 1))) (\<lambda>_.
     and_then (snapshot_validate env snapshot) (\<lambda>_.
     and_then (validate_authoritative_state authorization snapshot versions) (\<lambda>_.
     and_then (fold_each (apply_one (au_effective_scope authorization) snapshot versions)
       (ch_operations changes) (initial_state snapshot)) (\<lambda>s.
     and_then (snapshot_validate env (as_snapshot s)) (\<lambda>_.
     and_then (check_result env (au_principal authorization) snapshot (as_snapshot s)
       (map vo_operation (ch_operations changes))) (\<lambda>_.
     let t = all_transitions snapshot s in
     Inr \<lparr>ac_snapshot = as_snapshot s, ac_entity_versions = update_versions revision t versions,
          ac_changed_resources = sorted_list_of_set (tr_changed t)\<rparr>)))))))))"

record 'x control_preview =
  pv_base_revision :: u64
  pv_prospective_revision :: u64
  pv_changed_resources :: "string list"
  pv_entity_versions :: entity_versions
  pv_prospective_snapshot :: "'x control_snapshot"

definition preview_control_changes ::
  "'x config_env \<Rightarrow> 'x versioned_control_snapshot \<Rightarrow> 'x authorized_control_mutation \<Rightarrow>
   'x control_change_set \<Rightarrow> core_error + 'x control_preview" where
  "preview_control_changes env snapshot authorization changes =
     and_then (ensure (vc_revision snapshot \<noteq> -1)
       (ControlValidation (Refused ''control revision cannot advance past the maximum''))) (\<lambda>_.
     let prospective = vc_revision snapshot + 1 in
     and_then (apply_control_changes env (vc_snapshot snapshot) (vc_entity_versions snapshot) prospective
       authorization changes) (\<lambda>applied.
     Inr \<lparr>pv_base_revision = vc_revision snapshot, pv_prospective_revision = prospective,
          pv_changed_resources = ac_changed_resources applied,
          pv_entity_versions = fmap_of_list (List.map_filter
            (\<lambda>r. map_option (Pair r) (fmlookup (ac_entity_versions applied) r))
            (ac_changed_resources applied)),
          pv_prospective_snapshot = ac_snapshot applied\<rparr>))"

end
