(* ===== verification/Apply_Facts.thy ===== *)
theory Apply_Facts
  imports Apply_Changes
begin

text \<open>
  What a successful application of a changeset guarantees: the result is a valid snapshot, every
  expected entity version was the current one, and exactly the reported resources change version, to
  the new revision or to none.
\<close>

section \<open>Reading a successful application\<close>

lemma apply_control_changes_D:
  assumes "apply_control_changes env sn versions revision auth changes = Inr a"
  obtains s where
    "change_set_validate changes = Inr ()" "au_changes auth = changes" "revision \<noteq> 0"
    "au_snapshot_revision auth = revision - 1" "snapshot_validate env sn = Inr ()"
    "au_authoritative_snapshot auth = sn" "au_authoritative_entity_versions auth = versions"
    "fold_each (apply_one (au_effective_scope auth) sn versions) (ch_operations changes)
       (initial_state sn) = Inr s"
    "snapshot_validate env (as_snapshot s) = Inr ()"
    "check_result env (au_principal auth) sn (as_snapshot s) (map vo_operation (ch_operations changes)) = Inr ()"
    "ac_snapshot a = as_snapshot s"
    "ac_entity_versions a = update_versions revision (all_transitions sn s) versions"
    "ac_changed_resources a = sorted_list_of_set (tr_changed (all_transitions sn s))"
  using assms unfolding apply_control_changes_def Let_def and_then_Inr_iff ensure_Inr_iff
    validate_intent_def validate_authoritative_state_def
  by clarsimp

lemma apply_one_D:
  assumes "apply_one S authority versions v s = Inr s'"
  obtains scopes key migrated applied where
    "check_deletion authority v = Inr ()"
    "operation_scopes (vo_operation v) authority (as_snapshot s) = Inr scopes"
    "\<forall>scope \<in> set scopes. scope_contains S scope"
    "operation_expected_key (vo_operation v) authority (as_snapshot s) = Inr key"
    "check_expected_version versions key (vo_expected_entity_version v) = Inr ()"
    "(case vo_operation v of
        PutCollection collection \<Rightarrow> migrate_collection_control_state (as_snapshot s) collection
      | _ \<Rightarrow> Inr (as_snapshot s)) = Inr migrated"
    "apply_operation migrated (vo_operation v) = Inr applied"
    "s' = note_operation (vo_operation v) key (s\<lparr>as_snapshot := applied\<rparr>)"
  using assms unfolding apply_one_def and_then_Inr_iff for_each_Inr_iff ensure_Inr_iff
  by (elim exE conjE) (rule that, auto)

lemma note_operation_snapshot [simp]: "as_snapshot (note_operation op key s) = as_snapshot s"
  by (cases op) (simp_all add: note_operation_def)

lemma fold_each_step:
  assumes "fold_each f xs s = Inr t" "x \<in> set xs"
  shows "\<exists>s1 s2. f x s1 = Inr s2"
  using assms by (induction xs arbitrary: s) (auto simp: and_then_Inr_iff)

section \<open>Versions\<close>

definition tr_ok :: "transitions \<Rightarrow> bool" where
  "tr_ok t \<longleftrightarrow> finite (tr_targets t) \<and> finite (tr_obsolete t) \<and> tr_changed t = tr_targets t \<union> tr_obsolete t"

lemma record_transition_ok: "tr_ok t \<Longrightarrow> tr_ok (record_resource_transition p c t)"
  by (cases p; cases c) (auto simp: record_resource_transition_def tr_ok_def)

lemma record_collections_ok: "tr_ok t \<Longrightarrow> tr_ok (fold (record_collection a sn) ks t)"
  by (induction ks arbitrary: t) (auto simp: record_collection_def record_transition_ok)

lemma record_catalogs_ok: "tr_ok t \<Longrightarrow> tr_ok (fold (record_catalog a sn) cs t)"
  by (induction cs arbitrary: t)
    (auto simp: record_catalog_def Let_def record_transition_ok record_collections_ok)

definition state_ok :: "'x apply_state \<Rightarrow> bool" where
  "state_ok s \<longleftrightarrow> tr_ok \<lparr>tr_changed = as_changed s, tr_targets = as_version_targets s,
     tr_obsolete = as_obsolete_versions s\<rparr>"

lemma note_operation_ok: "state_ok s \<Longrightarrow> state_ok (note_operation op key (s\<lparr>as_snapshot := sn\<rparr>))"
  by (cases op) (auto simp: note_operation_def state_ok_def tr_ok_def)

lemma applied_state_ok:
  assumes "fold_each (apply_one S authority versions) ops (initial_state sn) = Inr s"
  shows "state_ok s"
  using assms
proof (rule fold_each_invariant)
  show "state_ok (initial_state sn)" by (simp add: state_ok_def tr_ok_def initial_state_def)
  show "state_ok s2" if "state_ok s1" "apply_one S authority versions v s1 = Inr s2" for v s1 s2
    using that by (elim apply_one_D) (simp add: note_operation_ok)
qed

lemma all_transitions_ok: "state_ok s \<Longrightarrow> tr_ok (all_transitions authority s)"
  by (simp add: all_transitions_def state_ok_def record_collections_ok record_catalogs_ok)

lemma lookup_fold_fmupd:
  "fmlookup (fold (\<lambda>r. fmupd r v) rs m) k = (if k \<in> set rs then Some v else fmlookup m k)"
  by (induction rs arbitrary: m) auto

lemma lookup_fold_fmdrop:
  "fmlookup (fold fmdrop rs m) k = (if k \<in> set rs then None else fmlookup m k)"
  by (induction rs arbitrary: m) auto

lemma lookup_update_versions:
  assumes "tr_ok t"
  shows "fmlookup (update_versions revision t versions) k =
    (if k \<in> tr_targets t then Some (show_u64 revision)
     else if k \<in> tr_obsolete t then None
     else fmlookup versions k)"
  using assms by (simp add: update_versions_def tr_ok_def lookup_fold_fmupd lookup_fold_fmdrop)

lemma applied_versions:
  assumes "apply_control_changes env sn versions revision auth changes = Inr a"
  shows "sorted (ac_changed_resources a) \<and> distinct (ac_changed_resources a)
    \<and> (\<forall>k. (k \<in> set (ac_changed_resources a) \<longrightarrow>
             fmlookup (ac_entity_versions a) k \<in> {None, Some (show_u64 revision)})
         \<and> (k \<notin> set (ac_changed_resources a) \<longrightarrow>
             fmlookup (ac_entity_versions a) k = fmlookup versions k))"
proof -
  from assms obtain s where
    f: "fold_each (apply_one (au_effective_scope auth) sn versions) (ch_operations changes)
       (initial_state sn) = Inr s"
    and v: "ac_entity_versions a = update_versions revision (all_transitions sn s) versions"
    and c: "ac_changed_resources a = sorted_list_of_set (tr_changed (all_transitions sn s))"
    by (rule apply_control_changes_D)
  have ok: "tr_ok (all_transitions sn s)" by (rule all_transitions_ok [OF applied_state_ok [OF f]])
  then have "finite (tr_changed (all_transitions sn s))" by (simp add: tr_ok_def)
  with ok show ?thesis
    unfolding c v lookup_update_versions [OF ok] by (auto simp: tr_ok_def)
qed

section \<open>Preview\<close>

lemma preview_iff:
  assumes "vc_revision v \<noteq> -1"
  shows "preview_control_changes env v auth changes =
    map_sum id (\<lambda>a. \<lparr>pv_base_revision = vc_revision v, pv_prospective_revision = vc_revision v + 1,
       pv_changed_resources = ac_changed_resources a,
       pv_entity_versions = fmap_of_list (List.map_filter
         (\<lambda>r. map_option (Pair r) (fmlookup (ac_entity_versions a) r)) (ac_changed_resources a)),
       pv_prospective_snapshot = ac_snapshot a\<rparr>)
      (apply_control_changes env (vc_snapshot v) (vc_entity_versions v) (vc_revision v + 1) auth changes)"
  using assms
  by (cases "apply_control_changes env (vc_snapshot v) (vc_entity_versions v) (vc_revision v + 1) auth changes")
    (simp_all add: preview_control_changes_def Let_def)

lemma fmlookup_map_filter:
  "fmlookup (fmap_of_list (List.map_filter (\<lambda>r. map_option (Pair r) (fmlookup m r)) rs)) k
     = (if k \<in> set rs then fmlookup m k else None)"
  by (induction rs) (auto simp: map_filter_simps fmlookup_of_list split: option.splits)

end
