(* ===== verification/Control_Store.thy ===== *)
theory Control_Store
  imports Apply_Facts
begin

text \<open>
  \<open>control_store.rs\<close>: the persistence contract of the control plane and the store that
  keeps everything in memory under one lock, with bootstrap, optimistic transactions, idempotent
  replay, the ordered feed of change events and the audit trail. A call takes the lock for its whole
  body, so calls are atomic steps on the state; the clock is an argument. An error leaves the state
  as it was: the code changes it only after the last call that can fail.

  The locale \<open>control_feed\<close> is what the consumer of the feed relies on; the in-memory store
  provides it here, the SQLite store in its own theory.
\<close>

section \<open>Shared by all stores\<close>

record control_audit_record =
  ca_revision :: u64
  ca_actor :: principal_identity
  ca_request :: audit_request_context
  ca_idempotency_key :: "string option"
  ca_changed_resources :: "string list"
  ca_recorded_at_unix_ms :: u64
  ca_applying_instance :: string

datatype control_bootstrap_mode = RequireInitialSysadmin | AllowEmptyPlatform

definition principal_is_reachable :: "'x auth_config \<Rightarrow> principal_identity \<Rightarrow> bool" where
  "principal_is_reachable auth who =
     (list_ex (\<lambda>i. oi_issuer i = pr_issuer who)
        ((case au_oidc auth of None \<Rightarrow> [] | Some i \<Rightarrow> [i]) @ au_trusted_issuers auth)
      \<or> (pr_issuer who = ''urn:tellurion:static''
         \<and> list_ex (\<lambda>t. bt_principal t = Some (pr_subject who)) (au_bearer_tokens auth)))"

definition validate_control_bootstrap_seed ::
  "'x control_snapshot \<Rightarrow> control_bootstrap_mode \<Rightarrow> core_error + unit" where
  "validate_control_bootstrap_seed seed mode =
     (if mode = AllowEmptyPlatform
         \<or> list_ex (\<lambda>b. rb_role b = ''sysadmin'' \<and> rb_scope b = Platform
             \<and> principal_is_reachable (cfg_auth (sn_config seed)) (rb_principal b)) (sn_bindings seed)
      then Inr ()
      else Inl (ControlValidation (Refused ''initialization requires a reachable platform sysadmin'')))"

definition validate_actor :: "principal_identity \<Rightarrow> core_error + unit" where
  "validate_actor actor =
     ensure (\<not> (is_blank (pr_issuer actor) \<or> is_blank (pr_subject actor)))
       (ControlValidation (Refused ''control actor issuer and subject must not be empty''))"

definition validate_request :: "audit_request_context \<Rightarrow> core_error + unit" where
  "validate_request request =
     ensure (\<not> (is_blank (ar_method request) \<or> \<not> starts_with ''/'' (ar_canonical_path request)
               \<or> is_blank (ar_correlation_id request)))
       (ControlValidation (Refused ''audit request method, canonical path, and correlation id are required''))"

definition validate_limit :: "u32 \<Rightarrow> core_error + unit" where
  "validate_limit limit =
     ensure (limit \<noteq> 0) (ControlValidation (Refused ''control page limit must be greater than zero''))"

definition bootstrap_request :: audit_request_context where
  "bootstrap_request = \<lparr>ar_method = ''BOOTSTRAP'', ar_canonical_path = ''/_control/v1/platform'',
     ar_correlation_id = ''bootstrap''\<rparr>"

section \<open>The in-memory store\<close>

type_synonym 'x idempotency_table = "(string, 'x control_change_set \<times> control_commit \<times> string) fmap"

record 'x control_state =
  ms_snapshot :: "'x control_snapshot option"
  ms_revision :: u64
  ms_entity_versions :: entity_versions
  ms_events :: "control_event list"
  ms_audit :: "control_audit_record list"
  ms_idempotency :: "'x idempotency_table"

definition empty_store :: "'x control_state" where
  "empty_store = \<lparr>ms_snapshot = None, ms_revision = 0, ms_entity_versions = fmempty,
     ms_events = [], ms_audit = [], ms_idempotency = fmempty\<rparr>"

definition IN_MEMORY_INSTANCE :: string where
  "IN_MEMORY_INSTANCE = ''in-memory-control-store''"

definition mem_bootstrap ::
  "'x config_env \<Rightarrow> u64 \<Rightarrow> 'x control_snapshot \<Rightarrow> principal_identity \<Rightarrow> control_bootstrap_mode \<Rightarrow>
   'x control_state \<Rightarrow> core_error + (bootstrap_outcome \<times> 'x control_state)" where
  "mem_bootstrap env now seed actor mode s =
     (if ms_snapshot s \<noteq> None then Inr (AlreadyInitialized (ms_revision s), s)
      else
        and_then (snapshot_validate env seed) (\<lambda>_.
        and_then (validate_actor actor) (\<lambda>_.
        and_then (validate_control_bootstrap_seed seed mode) (\<lambda>_.
        Inr (Bootstrapped 1,
          s\<lparr>ms_revision := 1, ms_snapshot := Some seed,
            ms_events := ms_events s @
              [\<lparr>ve_revision = 1, ve_ordinal = 0, ve_changed_resources = [''snapshot'']\<rparr>],
            ms_audit := ms_audit s @
              [\<lparr>ca_revision = 1, ca_actor = actor, ca_request = bootstrap_request,
                ca_idempotency_key = None, ca_changed_resources = [''snapshot''],
                ca_recorded_at_unix_ms = now, ca_applying_instance = IN_MEMORY_INSTANCE\<rparr>]\<rparr>)))))"

definition mem_current_revision :: "'x control_state \<Rightarrow> u64 option" where
  "mem_current_revision s = map_option (\<lambda>_. ms_revision s) (ms_snapshot s)"

definition mem_load_snapshot ::
  "'x config_env \<Rightarrow> 'x control_state \<Rightarrow> core_error + 'x versioned_control_snapshot" where
  "mem_load_snapshot env s =
     and_then (ok_or (ms_snapshot s) ControlUninitialized) (\<lambda>snapshot.
     versioned_new env snapshot (ms_revision s) (ms_entity_versions s))"

text \<open>A recorded key answers the request, by a replay or by a conflict.\<close>

definition mem_replay ::
  "'x control_state \<Rightarrow> 'x authorized_control_mutation \<Rightarrow> 'x control_change_set \<Rightarrow>
   (core_error + control_commit) option" where
  "mem_replay s authorization changes =
     (case ch_idempotency_key changes of
        None \<Rightarrow> None
      | Some key \<Rightarrow>
          (case fmlookup (ms_idempotency s) key of
             None \<Rightarrow> None
           | Some (recorded_changes, recorded_commit, request_fingerprint) \<Rightarrow>
               Some (if recorded_changes \<noteq> changes then Inl (ControlIdempotencyConflict key)
                 else if request_fingerprint \<noteq> au_request_fingerprint authorization
                 then Inl (ControlIdempotencyAuthorizationConflict key)
                 else Inr (recorded_commit\<lparr>co_replayed := True\<rparr>))))"

definition mem_commit ::
  "u64 \<Rightarrow> u64 \<Rightarrow> 'x authorized_control_mutation \<Rightarrow> 'x control_change_set \<Rightarrow>
   'x applied_control_change_set \<Rightarrow> 'x control_state \<Rightarrow> control_commit \<times> 'x control_state" where
  "mem_commit now revision authorization changes applied s =
     (let commit = \<lparr>co_revision = revision, co_changed_resources = ac_changed_resources applied,
            co_replayed = False\<rparr> in
      (commit,
       s\<lparr>ms_snapshot := Some (ac_snapshot applied),
         ms_entity_versions := ac_entity_versions applied,
         ms_revision := revision,
         ms_events := ms_events s @ [\<lparr>ve_revision = revision, ve_ordinal = 0,
           ve_changed_resources = ac_changed_resources applied\<rparr>],
         ms_audit := ms_audit s @ [\<lparr>ca_revision = revision, ca_actor = au_principal authorization,
           ca_request = au_audit_request authorization, ca_idempotency_key = ch_idempotency_key changes,
           ca_changed_resources = ac_changed_resources applied, ca_recorded_at_unix_ms = now,
           ca_applying_instance = IN_MEMORY_INSTANCE\<rparr>],
         ms_idempotency := (case ch_idempotency_key changes of
             None \<Rightarrow> ms_idempotency s
           | Some key \<Rightarrow> fmupd key (changes, commit, au_request_fingerprint authorization) (ms_idempotency s))\<rparr>))"

definition mem_transact ::
  "'x config_env \<Rightarrow> u64 \<Rightarrow> 'x authorized_control_mutation \<Rightarrow> 'x control_change_set \<Rightarrow>
   'x control_state \<Rightarrow> core_error + (control_commit \<times> 'x control_state)" where
  "mem_transact env now authorization changes s =
     and_then (validate_actor (au_principal authorization)) (\<lambda>_.
     and_then (validate_request (au_audit_request authorization)) (\<lambda>_.
     and_then (change_set_validate changes) (\<lambda>_.
     and_then (validate_intent authorization changes) (\<lambda>_.
     case mem_replay s authorization changes of
       Some answer \<Rightarrow> and_then answer (\<lambda>commit. Inr (commit, s))
     | None \<Rightarrow>
         if au_replay_only authorization
         then Inl (ControlIdempotencyAuthorizationConflict
                (case ch_idempotency_key changes of Some key \<Rightarrow> key | None \<Rightarrow> []))
         else
           and_then (ok_or (ms_snapshot s) ControlUninitialized) (\<lambda>current.
           and_then (ensure (au_snapshot_revision authorization = ms_revision s)
             (ControlRevisionConflict (au_snapshot_revision authorization) (ms_revision s))) (\<lambda>_.
           and_then (ensure (ms_revision s \<noteq> -1)
             (ControlValidation (Refused ''control revision overflow''))) (\<lambda>_.
           and_then (apply_control_changes env current (ms_entity_versions s) (ms_revision s + 1)
             authorization changes) (\<lambda>applied.
           Inr (mem_commit now (ms_revision s + 1) authorization changes applied s)))))))))"

definition mem_changes_since ::
  "control_event_cursor option \<Rightarrow> u32 \<Rightarrow> 'x control_state \<Rightarrow> core_error + control_event list" where
  "mem_changes_since after limit s =
     and_then (validate_limit limit) (\<lambda>_.
     Inr (take (unat limit) (filter (\<lambda>e. case after of None \<Rightarrow> True | Some c \<Rightarrow> event_cursor e > c)
       (ms_events s))))"

definition mem_audit_since :: "u64 \<Rightarrow> u32 \<Rightarrow> 'x control_state \<Rightarrow> core_error + control_audit_record list" where
  "mem_audit_since after limit s =
     and_then (validate_limit limit) (\<lambda>_.
     Inr (take (unat limit) (filter (\<lambda>r. ca_revision r > after) (ms_audit s))))"

end
