(* ===== verification/Control_Feed.thy ===== *)
theory Control_Feed
  imports Change_Set
begin

text \<open>
  The contract of the feed of change events that every control store gives its consumer
  (\<open>ControlStore::current_revision\<close> and \<open>changes_since\<close>), as a locale: every revision
  appears once and in order, the feed only grows, and a page is the first part of what follows the
  cursor. The consumer's reasoning about gaps is done here once, over any store that keeps it.
\<close>

section \<open>Revisions in order\<close>

definition numbered :: "u64 \<Rightarrow> control_event_cursor list" where
  "numbered r = map (\<lambda>n. Cursor (of_nat n) 0) [1..<Suc (unat r)]"

lemma unat_next: "r \<noteq> -1 \<Longrightarrow> unat (r + 1 :: u64) = Suc (unat r)"
  by (simp add: add.commute add_eq_0_iff unatSuc)

lemma less_next: "r \<noteq> -1 \<Longrightarrow> (r :: u64) < r + 1"
  by (simp add: word_less_nat_alt unat_next)

lemma le_next_iff: "r \<noteq> -1 \<Longrightarrow> (k :: u64) \<le> r + 1 \<longleftrightarrow> k \<le> r \<or> k = r + 1"
  by (auto simp: word_le_nat_alt unat_next le_Suc_eq word_unat_eq_iff)

lemma numbered_next: "r \<noteq> -1 \<Longrightarrow> numbered (r + 1) = numbered r @ [Cursor (r + 1) 0]"
  by (simp add: numbered_def unat_next)

lemma numbered_0 [simp]: "numbered 0 = []" and numbered_1 [simp]: "numbered 1 = [Cursor 1 0]"
  by (simp_all add: numbered_def)

lemma numbered_length: "map event_cursor es = numbered r \<Longrightarrow> length es = unat r"
  by (drule arg_cong [where f = length]) (simp add: numbered_def)

lemma numbered_nth:
  assumes "map event_cursor es = numbered r" "i < length es"
  shows "event_cursor (es ! i) = Cursor (of_nat (Suc i)) 0"
proof -
  have "event_cursor (es ! i) = numbered r ! i" using assms by (metis nth_map)
  then show ?thesis
    using numbered_length [OF assms(1)] assms(2) by (simp add: numbered_def del: upt_Suc)
qed

lemma cursor_less_start: "Cursor l o' < Cursor n 0 \<longleftrightarrow> l < n"
  by (auto simp: less_control_event_cursor_def)

text \<open>What follows a cursor of revision \<open>l\<close> is the feed without its first \<open>l\<close> events.\<close>

lemma numbered_after:
  assumes "map event_cursor es = numbered r" "l \<le> r"
  shows "filter (\<lambda>e. Cursor l o' < event_cursor e) es = drop (unat l) es"
proof -
  have small: "unat (of_nat (Suc i) :: u64) = Suc i" if "i < length es" for i
  proof -
    have "Suc i \<le> unat r" using that numbered_length [OF assms(1)] by simp
    also have "unat r < 2 ^ LENGTH(64)" by (rule unsigned_less)
    finally have "Suc i < 2 ^ LENGTH(64)" .
    then show ?thesis by (simp add: unat_of_nat del: of_nat_Suc)
  qed
  have le: "unat l \<le> length es" using assms by (simp add: numbered_length word_le_nat_alt)
  have after: "Cursor l o' < event_cursor (es ! i) \<longleftrightarrow> unat l \<le> i" if "i < length es" for i
    unfolding numbered_nth [OF assms(1) that] cursor_less_start word_less_nat_alt small [OF that] by auto
  have "filter (\<lambda>e. Cursor l o' < event_cursor e) (take (unat l) es) = []"
    unfolding filter_empty_conv using after le by (auto simp: in_set_conv_nth)
  moreover have "filter (\<lambda>e. Cursor l o' < event_cursor e) (drop (unat l) es) = drop (unat l) es"
    unfolding filter_id_conv using after le by (auto simp: in_set_conv_nth)
  ultimately show ?thesis
    using filter_append [of _ "take (unat l) es" "drop (unat l) es"] by simp
qed

section \<open>The contract\<close>

locale control_feed =
  fixes good :: "'s \<Rightarrow> bool" and moves :: "'s \<Rightarrow> 's \<Rightarrow> bool"
    and revision :: "'s \<Rightarrow> u64 option" and feed :: "'s \<Rightarrow> control_event list"
    and page :: "control_event_cursor option \<Rightarrow> u32 \<Rightarrow> 's \<Rightarrow> core_error + control_event list"
  assumes good_moves: "good s \<Longrightarrow> moves s t \<Longrightarrow> good t"
    and moves_revision: "good s \<Longrightarrow> moves s t \<Longrightarrow> revision s = Some r \<Longrightarrow> \<exists>q. revision t = Some q \<and> r \<le> q"
    and moves_feed: "good s \<Longrightarrow> moves s t \<Longrightarrow> \<exists>es. feed t = feed s @ es"
    and feed_numbered: "good s \<Longrightarrow> revision s = Some r \<Longrightarrow> map event_cursor (feed s) = numbered r"
    and page_feed: "good s \<Longrightarrow> revision s = Some r \<Longrightarrow> cur_revision c \<le> r \<Longrightarrow> limit \<noteq> 0 \<Longrightarrow>
      page (Some c) limit s = Inr (take (unat limit) (filter (\<lambda>e. c < event_cursor e) (feed s)))"
begin

lemma page_after:
  assumes "good s" "revision s = Some r" "l \<le> r" "limit \<noteq> 0"
  shows "page (Some (Cursor l n)) limit s = Inr (take (unat limit) (drop (unat l) (feed s)))"
  using page_feed [OF assms(1,2) _ assms(4), of "Cursor l n"] assms(3)
    numbered_after [OF feed_numbered [OF assms(1,2)] assms(3)] by simp

text \<open>A run of the store, as its consumer meets it at its successive calls.\<close>

lemma run_good:
  assumes "good (run 0)" "\<And>i. moves (run i) (run (Suc i))"
  shows "good (run i)"
  by (induction i) (use assms good_moves in blast)+

lemma run_revision:
  assumes "good (run 0)" "\<And>i. moves (run i) (run (Suc i))" "revision (run i) = Some r" "i \<le> j"
  shows "\<exists>q. revision (run j) = Some q \<and> r \<le> q"
  using assms(4)
proof (induction rule: dec_induct)
  case base
  from assms(3) show ?case by simp
next
  case (step n)
  from step.IH obtain q where q: "revision (run n) = Some q" "r \<le> q" by blast
  from moves_revision [OF run_good [OF assms(1,2)] assms(2) q(1)] q(2) show ?case
    by (meson order_trans)
qed

end

end
