(* ===== verification/Control_Consumer.thy ===== *)
theory Control_Consumer
  imports Control_Feed
begin

text \<open>
  \<open>control_runtime.rs\<close> and \<open>control_consumer.rs\<close> of the server: the counters a replica
  reports, one refresh of a replica from the durable feed, and the pacing of the refresh loop. A
  refresh makes several calls to the store, and other replicas may commit between them, so the
  answers of the store are functions of the call number. Activating a candidate is the closure the
  code takes as argument. The loop over the pages has no bound of its own in the code; it is a
  partial function here, and that it returns is a theorem.
\<close>

section \<open>Runtime status\<close>

record control_runtime_status =
  rs_store_revision :: u64
  rs_applied_revision :: u64
  rs_last_successful_refresh_unix_ms :: u64
  rs_poll_failures :: u64
  rs_activation_failures :: u64

record control_runtime_snapshot =
  rt_store_revision :: u64
  rt_applied_revision :: u64
  rt_lag :: u64
  rt_last_successful_refresh_unix_ms :: "u64 option"
  rt_poll_failures :: u64
  rt_activation_failures :: u64

definition runtime_status_new :: "u64 \<Rightarrow> control_runtime_status" where
  "runtime_status_new initial =
     \<lparr>rs_store_revision = initial, rs_applied_revision = initial,
      rs_last_successful_refresh_unix_ms = 0, rs_poll_failures = 0, rs_activation_failures = 0\<rparr>"

definition observe_store_revision :: "u64 \<Rightarrow> control_runtime_status \<Rightarrow> control_runtime_status" where
  "observe_store_revision r s = s\<lparr>rs_store_revision := r\<rparr>"

definition observe_applied_revision :: "u64 \<Rightarrow> control_runtime_status \<Rightarrow> control_runtime_status" where
  "observe_applied_revision r s = s\<lparr>rs_applied_revision := r\<rparr>"

definition record_refresh_success :: "u64 \<Rightarrow> control_runtime_status \<Rightarrow> control_runtime_status" where
  "record_refresh_success unix_ms s = s\<lparr>rs_last_successful_refresh_unix_ms := max unix_ms 1\<rparr>"

definition record_poll_failure :: "control_runtime_status \<Rightarrow> control_runtime_status" where
  "record_poll_failure s = s\<lparr>rs_poll_failures := rs_poll_failures s + 1\<rparr>"

definition record_activation_failure :: "control_runtime_status \<Rightarrow> control_runtime_status" where
  "record_activation_failure s = s\<lparr>rs_activation_failures := rs_activation_failures s + 1\<rparr>"

definition saturating_sub :: "u64 \<Rightarrow> u64 \<Rightarrow> u64" where
  "saturating_sub a b = (if b \<le> a then a - b else 0)"

definition runtime_snapshot :: "control_runtime_status \<Rightarrow> control_runtime_snapshot" where
  "runtime_snapshot s =
     \<lparr>rt_store_revision = rs_store_revision s, rt_applied_revision = rs_applied_revision s,
      rt_lag = saturating_sub (rs_store_revision s) (rs_applied_revision s),
      rt_last_successful_refresh_unix_ms =
        (if rs_last_successful_refresh_unix_ms s \<noteq> 0 then Some (rs_last_successful_refresh_unix_ms s) else None),
      rt_poll_failures = rs_poll_failures s, rt_activation_failures = rs_activation_failures s\<rparr>"

section \<open>Reading the feed\<close>

definition EVENT_PAGE_SIZE :: u32 where
  "EVENT_PAGE_SIZE = 1000"

definition saturating_inc :: "u64 \<Rightarrow> u64" where
  "saturating_inc r = (if r = -1 then -1 else r + 1)"

text \<open>The loop over the events of a page: the last revision seen, and whether a gap was met.\<close>

fun scan_events :: "u64 \<Rightarrow> control_event list \<Rightarrow> u64 \<times> bool" where
  "scan_events last_revision [] = (last_revision, False)"
| "scan_events last_revision (event # events) =
     (if ve_revision event > saturating_inc last_revision then (last_revision, True)
      else scan_events (max last_revision (ve_revision event)) events)"

partial_function (option) consume ::
  "(nat \<Rightarrow> control_event_cursor option \<Rightarrow> u32 \<Rightarrow> core_error + control_event list) \<Rightarrow> u64 \<Rightarrow> nat \<Rightarrow>
   control_event_cursor \<Rightarrow> u64 \<Rightarrow> (core_error + (u64 \<times> bool)) option" where
  "consume pages store_revision call cursor last_revision =
     (if last_revision < store_revision then
        (case pages call (Some cursor) EVENT_PAGE_SIZE of
           Inl e \<Rightarrow> Some (Inl e)
         | Inr events \<Rightarrow>
             (case validate_control_event_page (Some cursor) events of
                Inl e \<Rightarrow> Some (Inl e)
              | Inr _ \<Rightarrow>
                  if events = [] then Some (Inr (last_revision, True))
                  else if snd (scan_events last_revision events)
                  then Some (Inr (fst (scan_events last_revision events), True))
                  else consume pages store_revision (Suc call) (event_cursor (last events))
                         (fst (scan_events last_revision events))))
      else Some (Inr (last_revision, False)))"

section \<open>One refresh\<close>

datatype refresh_outcome = NoChange | Applied u64
datatype refresh_failure = Poll_Failure | Activation_Failure

record 'x store_answers =
  sa_current_revision :: "core_error + u64 option"
  sa_changes_since :: "nat \<Rightarrow> control_event_cursor option \<Rightarrow> u32 \<Rightarrow> core_error + control_event list"
  sa_load_snapshot :: "core_error + 'x versioned_control_snapshot"

definition refresh_once ::
  "'x store_answers \<Rightarrow> ('x versioned_control_snapshot \<Rightarrow> bool) \<Rightarrow> u64 \<Rightarrow> control_runtime_status \<Rightarrow>
   ((refresh_failure + refresh_outcome) \<times> control_runtime_status) option" where
  "refresh_once store activate applied_revision status =
     (case sa_current_revision store of
        Inl _ \<Rightarrow> Some (Inl Poll_Failure, status)
      | Inr None \<Rightarrow> Some (Inl Poll_Failure, status)
      | Inr (Some store_revision) \<Rightarrow>
          (let status = observe_store_revision store_revision status in
           if store_revision \<le> applied_revision then Some (Inr NoChange, status)
           else
             (case consume (sa_changes_since store) store_revision 0 (Cursor applied_revision (-1))
                     applied_revision of
                None \<Rightarrow> None
              | Some (Inl _) \<Rightarrow> Some (Inl Poll_Failure, status)
              | Some (Inr _) \<Rightarrow>
                  (case sa_load_snapshot store of
                     Inl _ \<Rightarrow> Some (Inl Poll_Failure, status)
                   | Inr candidate \<Rightarrow>
                       if activate candidate
                       then Some (Inr (Applied (vc_revision candidate)),
                              observe_applied_revision (vc_revision candidate) status)
                       else Some (Inl Activation_Failure, status)))))"

section \<open>The pace of the loop\<close>

text \<open>A \<open>Duration\<close> is its number of nanoseconds; \<open>saturating_mul\<close> and
  \<open>saturating_add\<close> stop at \<open>Duration::MAX\<close>, division rounds down.\<close>

definition DURATION_MAX :: nat where
  "DURATION_MAX = (2 ^ 64 - 1) * 10 ^ 9 + 999999999"

definition from_secs :: "nat \<Rightarrow> nat" where
  "from_secs n = n * 10 ^ 9"

definition duration_mul :: "nat \<Rightarrow> u32 \<Rightarrow> nat" where
  "duration_mul d k = min DURATION_MAX (d * unat k)"

definition duration_add :: "nat \<Rightarrow> nat \<Rightarrow> nat" where
  "duration_add d e = min DURATION_MAX (d + e)"

definition jittered :: "nat \<Rightarrow> u64 \<Rightarrow> nat" where
  "jittered base entropy =
     (let percent = (ucast ((entropy * 37) mod 11) :: u32) in
      duration_add base (duration_mul base percent div 100))"

definition retry_interval :: "nat \<Rightarrow> u32 \<Rightarrow> u64 \<Rightarrow> nat" where
  "retry_interval base consecutive_failures entropy =
     (let multiplier = push_bit (unat (min consecutive_failures 5)) 1;
          backoff = min (duration_mul base multiplier) (from_secs 30) in
      jittered backoff entropy)"

record refresh_loop =
  lp_applied_revision :: u64
  lp_consecutive_failures :: u32
  lp_poll_sequence :: u64
  lp_status :: control_runtime_status

definition saturating_inc32 :: "u32 \<Rightarrow> u32" where
  "saturating_inc32 n = (if n = -1 then -1 else n + 1)"

definition loop_result ::
  "u64 \<Rightarrow> refresh_failure + refresh_outcome \<Rightarrow> control_runtime_status \<Rightarrow> refresh_loop \<Rightarrow> refresh_loop" where
  "loop_result now result status l =
     (case result of
        Inr (Applied revision) \<Rightarrow>
          l\<lparr>lp_applied_revision := revision, lp_consecutive_failures := 0,
            lp_status := record_refresh_success now status\<rparr>
      | Inr NoChange \<Rightarrow>
          l\<lparr>lp_consecutive_failures := 0, lp_status := record_refresh_success now status\<rparr>
      | Inl Poll_Failure \<Rightarrow>
          l\<lparr>lp_consecutive_failures := saturating_inc32 (lp_consecutive_failures l),
            lp_status := record_poll_failure status\<rparr>
      | Inl Activation_Failure \<Rightarrow>
          l\<lparr>lp_consecutive_failures := saturating_inc32 (lp_consecutive_failures l),
            lp_status := record_activation_failure status\<rparr>)"

text \<open>One round of \<open>run_refresh_loop\<close>: the state it leaves and the time it sleeps.\<close>

definition refresh_round ::
  "'x store_answers \<Rightarrow> ('x versioned_control_snapshot \<Rightarrow> bool) \<Rightarrow> nat \<Rightarrow> u64 \<Rightarrow> u64 \<Rightarrow> refresh_loop \<Rightarrow>
   (refresh_loop \<times> nat) option" where
  "refresh_round store activate poll_interval jitter_seed now l =
     (case refresh_once store activate (lp_applied_revision l) (lp_status l) of
        None \<Rightarrow> None
      | Some (result, status) \<Rightarrow>
          (let l = loop_result now result status l;
               l = l\<lparr>lp_poll_sequence := lp_poll_sequence l + 1\<rparr> in
           Some (l, retry_interval poll_interval (lp_consecutive_failures l)
             (xor (xor jitter_seed (lp_applied_revision l)) (lp_poll_sequence l)))))"

section \<open>The loop over the pages returns\<close>

definition cursor_rank :: "control_event_cursor \<Rightarrow> nat" where
  "cursor_rank c = unat (cur_revision c) * 2 ^ 32 + unat (cur_ordinal c)"

lemma cursor_rank_bound: "cursor_rank c < 2 ^ 96"
proof -
  have "unat (cur_revision c) < 2 ^ 64" and o: "unat (cur_ordinal c) < 2 ^ 32"
    using unsigned_less [of "cur_revision c"] unsigned_less [of "cur_ordinal c"] by simp_all
  then have "(unat (cur_revision c) + 1) * 2 ^ 32 \<le> (2 ^ 64 * 2 ^ 32 :: nat)" by (intro mult_le_mono1) simp
  with o show ?thesis by (simp add: cursor_rank_def)
qed

lemma cursor_rank_less:
  assumes "c < d"
  shows "cursor_rank c < cursor_rank d"
proof -
  have o: "unat (cur_ordinal c) < 2 ^ 32" using unsigned_less [of "cur_ordinal c"] by simp
  show ?thesis
  proof (cases "cur_revision c = cur_revision d")
    case True
    with assms show ?thesis by (simp add: cursor_rank_def less_control_event_cursor_def word_less_nat_alt)
  next
    case False
    with assms have "unat (cur_revision c) + 1 \<le> unat (cur_revision d)"
      by (simp add: less_control_event_cursor_def word_less_nat_alt)
    then have "(unat (cur_revision c) + 1) * 2 ^ 32 \<le> unat (cur_revision d) * 2 ^ 32" by (rule mult_le_mono1)
    with o show ?thesis by (simp add: cursor_rank_def)
  qed
qed

lemma page_advances:
  assumes "validate_control_event_page (Some c) events = Inr u" "events \<noteq> []"
  shows "c < event_cursor (last events)"
proof -
  have "sorted_wrt (<) (c # map event_cursor events)" using assms(1) event_page_iff [of "Some c" events] by simp
  then have "\<forall>d \<in> set (map event_cursor events). c < d" by simp
  with assms(2) show ?thesis by simp
qed

lemma consume_returns: "\<exists>r. consume pages store_revision call cursor last_revision = Some r"
proof (induction "2 ^ 96 - cursor_rank cursor" arbitrary: call cursor last_revision rule: less_induct)
  case less
  show ?case
  proof (cases "last_revision < store_revision")
    case False
    then show ?thesis by (simp add: consume.simps)
  next
    case True
    show ?thesis
    proof (cases "pages call (Some cursor) EVENT_PAGE_SIZE")
      case (Inl e)
      with True show ?thesis by (simp add: consume.simps [of pages store_revision call])
    next
      case (Inr events)
      note step = consume.simps [of pages store_revision call cursor last_revision]
      show ?thesis
      proof (cases "validate_control_event_page (Some cursor) events")
        case (Inl e)
        with True Inr show ?thesis by (simp add: step)
      next
        case (Inr u)
        note valid = this
        show ?thesis
        proof (cases "events = [] \<or> snd (scan_events last_revision events)")
          case True
          with \<open>last_revision < store_revision\<close> \<open>pages call (Some cursor) EVENT_PAGE_SIZE = Inr events\<close> valid
          show ?thesis by (auto simp: step)
        next
          case False
          then have "cursor_rank cursor < cursor_rank (event_cursor (last events))"
            using page_advances [OF valid] cursor_rank_less by blast
          with cursor_rank_bound [of cursor] cursor_rank_bound [of "event_cursor (last events)"]
          have "2 ^ 96 - cursor_rank (event_cursor (last events)) < 2 ^ 96 - cursor_rank cursor" by linarith
          from less [OF this] False \<open>last_revision < store_revision\<close>
            \<open>pages call (Some cursor) EVENT_PAGE_SIZE = Inr events\<close> valid
          show ?thesis by (simp add: step)
        qed
      qed
    qed
  qed
qed

section \<open>No gap over a store that keeps the contract\<close>

fun consecutive :: "u64 \<Rightarrow> control_event list \<Rightarrow> bool" where
  "consecutive l [] = True"
| "consecutive l (e # es) = (l \<noteq> -1 \<and> event_cursor e = Cursor (l + 1) 0 \<and> consecutive (l + 1) es)"

lemma consecutive_take: "consecutive l es \<Longrightarrow> consecutive l (take n es)"
  by (induction es arbitrary: l n) (auto simp: take_Cons split: nat.splits)

lemma consecutive_valid: "consecutive l es \<Longrightarrow> check_event_page (Cursor l n) es = Inr ()"
proof (induction es arbitrary: l n)
  case (Cons e es)
  then have "\<not> Cursor (l + 1) 0 \<le> Cursor l n"
    using less_next [of l] by (auto simp: less_eq_control_event_cursor_def)
  with Cons show ?case by (simp add: Let_def)
qed simp

lemma consecutive_scan:
  "consecutive l es \<Longrightarrow> es \<noteq> [] \<Longrightarrow>
   \<exists>q. scan_events l es = (q, False) \<and> event_cursor (last es) = Cursor q 0 \<and> l < q"
proof (induction es arbitrary: l)
  case (Cons e es)
  then have l: "l \<noteq> -1" and e: "event_cursor e = Cursor (l + 1) 0" and c: "consecutive (l + 1) es" by simp_all
  from e have r: "ve_revision e = l + 1" by (simp add: event_cursor_def)
  have less: "l < l + 1" by (rule less_next [OF l])
  then have step: "scan_events l (e # es) = scan_events (l + 1) es"
    using l r less by (simp add: saturating_inc_def max_def less_imp_le)
  show ?case
  proof (cases "es = []")
    case True
    with step e less show ?thesis by simp
  next
    case False
    from Cons.IH [OF c False] obtain q where "scan_events (l + 1) es = (q, False)"
      "event_cursor (last es) = Cursor q 0" "l + 1 < q" by blast
    with step False less show ?thesis by (auto intro: less_trans)
  qed
qed simp

lemma numbered_consecutive:
  assumes "map event_cursor es = numbered r" "l \<le> r"
  shows "consecutive l (drop (unat l) es)"
  using assms(2)
proof (induction "unat r - unat l" arbitrary: l)
  case 0
  then have "l = r" by (simp add: word_le_nat_alt word_unat_eq_iff)
  then show ?case by (simp add: numbered_length [OF assms(1)])
next
  case (Suc d)
  have "l < r" using Suc by (simp add: word_less_nat_alt)
  then have l: "l \<noteq> -1" using word_order.extremum_strict by auto
  then have u: "unat (l + 1) = Suc (unat l)" by (rule unat_next)
  have i: "unat l < length es"
    using \<open>l < r\<close> by (simp add: numbered_length [OF assms(1)] word_less_nat_alt)
  then have split: "drop (unat l) es = es ! unat l # drop (Suc (unat l)) es" by (simp add: Cons_nth_drop_Suc)
  have "event_cursor (es ! unat l) = Cursor (of_nat (Suc (unat l))) 0" by (rule numbered_nth [OF assms(1) i])
  then have c: "event_cursor (es ! unat l) = Cursor (l + 1) 0" by (simp add: add.commute)
  have "l + 1 \<le> r" using \<open>l < r\<close> by (simp add: word_le_nat_alt word_less_nat_alt u)
  moreover have "d = unat r - unat (l + 1)" using Suc(2) u by simp
  ultimately have "consecutive (l + 1) (drop (unat (l + 1)) es)" using Suc(1) by blast
  with l c split u show ?case by simp
qed

context control_feed
begin

lemma consume_complete:
  assumes "good (run 0)" "\<And>i. moves (run i) (run (Suc i))"
    and "revision (run first) = Some target" "first \<le> call"
  shows "\<exists>q. consume (\<lambda>i c n. page c n (run i)) target call (Cursor l n) l = Some (Inr (q, False))
    \<and> target \<le> q"
  using assms(4)
proof (induction "unat target - unat l" arbitrary: call l n rule: less_induct)
  case less
  note step = consume.simps [of _ target call "Cursor l n" l]
  show ?case
  proof (cases "l < target")
    case False
    then show ?thesis by (simp add: step)
  next
    case True
    from run_revision [OF assms(1,2,3) less.prems] obtain r where
      r: "revision (run call) = Some r" "target \<le> r" by blast
    have good: "good (run call)" by (rule run_good [OF assms(1,2)])
    note num = feed_numbered [OF good r(1)]
    have "l \<le> r" using True r(2) by simp
    let ?es = "take (unat EVENT_PAGE_SIZE) (drop (unat l) (feed (run call)))"
    have page: "page (Some (Cursor l n)) EVENT_PAGE_SIZE (run call) = Inr ?es"
      by (rule page_after [OF good r(1) \<open>l \<le> r\<close>]) (simp add: EVENT_PAGE_SIZE_def)
    have con: "consecutive l ?es" by (rule consecutive_take [OF numbered_consecutive [OF num \<open>l \<le> r\<close>]])
    have "?es \<noteq> []"
      using True r(2) by (simp add: EVENT_PAGE_SIZE_def numbered_length [OF num] word_le_nat_alt word_less_nat_alt)
    from consecutive_scan [OF con this] obtain q where
      q: "scan_events l ?es = (q, False)" "event_cursor (last ?es) = Cursor q 0" "l < q" by blast
    have "unat target - unat q < unat target - unat l" using True q(3) by (simp add: word_less_nat_alt)
    from less.hyps [OF this, of "Suc call" 0] less.prems True page \<open>?es \<noteq> []\<close> q
      consecutive_valid [OF con, of n]
    show ?thesis by (simp add: step validate_control_event_page_def)
  qed
qed

end

section \<open>The pace\<close>

lemma jittered_bounds:
  assumes "base \<le> from_secs 30"
  shows "base \<le> jittered base entropy" "10 * jittered base entropy \<le> 11 * base"
proof -
  let ?p = "ucast ((entropy * 37) mod 11) :: u32"
  have "unat ?p = take_bit 32 (unat ((entropy * 37) mod 11))" by (simp add: unsigned_ucast_eq)
  also have "\<dots> \<le> unat ((entropy * 37) mod 11)" by (rule take_bit_nat_less_eq_self)
  also have "\<dots> \<le> 10" by (simp add: unat_mod_distrib)
  finally have p: "unat ?p \<le> 10" .
  then have "base * unat ?p \<le> base * 10" by (rule mult_le_mono2)
  then have "duration_mul base ?p \<le> base * 10" unfolding duration_mul_def by linarith
  then have d: "duration_mul base ?p div 100 \<le> base div 10" by linarith
  have "base + base div 10 \<le> DURATION_MAX" using assms by (simp add: from_secs_def DURATION_MAX_def)
  with d have "jittered base entropy = base + duration_mul base ?p div 100"
    by (simp add: jittered_def duration_add_def Let_def)
  with d show "base \<le> jittered base entropy" "10 * jittered base entropy \<le> 11 * base" by simp_all
qed

lemma multiplier_value: "unat (push_bit (unat (min n 5 :: u32)) (1 :: u32)) = 2 ^ min (unat n) 5"
proof -
  have m: "unat (min n 5 :: u32) = min (unat n) 5"
    by (simp add: min_def word_le_nat_alt)
  have "min (unat n) 5 \<in> {0, 1, 2, 3, 4, 5}" by (cases "unat n \<le> 5") (auto simp: min_def le_Suc_eq numeral_eq_Suc)
  then show ?thesis unfolding m by auto
qed

lemma backoff_value:
  fixes n :: u32
  shows "min (duration_mul base (push_bit (unat (min n 5)) 1)) (from_secs 30)
    = min (base * 2 ^ min (unat n) 5) (from_secs 30)"
proof -
  have "from_secs 30 \<le> DURATION_MAX" by (simp add: from_secs_def DURATION_MAX_def)
  then show ?thesis unfolding duration_mul_def multiplier_value by linarith
qed

lemma retry_interval_bounds:
  shows "min (base * 2 ^ min (unat n) 5) (from_secs 30) \<le> retry_interval base n entropy"
    "10 * retry_interval base n entropy \<le> 11 * min (base * 2 ^ min (unat n) 5) (from_secs 30)"
  using jittered_bounds [of "min (base * 2 ^ min (unat n) 5) (from_secs 30)" entropy]
  unfolding retry_interval_def Let_def backoff_value by simp_all

end
