(* ===== verification/Store_Invariant.thy ===== *)
theory Store_Invariant
  imports Control_Store Control_Consumer
begin

text \<open>
  The in-memory store as a state machine: its steps are the successful calls of any of its clients.
  The invariant of the reachable states, by rule induction: the stored snapshot is valid, the events
  and the audit trail are the numbered history of the revisions, and every recorded idempotency key
  stands for a commit of the history. From it: idempotent replay, optimistic concurrency, and the
  contract of the event feed, stated as a locale and interpreted on the store.
\<close>

section \<open>What a successful call does\<close>

lemma mem_bootstrap_cases:
  assumes "mem_bootstrap env now seed actor mode s = Inr (out, t)"
  obtains (already) "t = s" "ms_snapshot s \<noteq> None" "out = AlreadyInitialized (ms_revision s)"
  | (fresh) "ms_snapshot s = None" "out = Bootstrapped 1" "snapshot_validate env seed = Inr ()"
      "validate_control_bootstrap_seed seed mode = Inr ()"
      "t = s\<lparr>ms_revision := 1, ms_snapshot := Some seed,
            ms_events := ms_events s @
              [\<lparr>ve_revision = 1, ve_ordinal = 0, ve_changed_resources = [''snapshot'']\<rparr>],
            ms_audit := ms_audit s @
              [\<lparr>ca_revision = 1, ca_actor = actor, ca_request = bootstrap_request,
                ca_idempotency_key = None, ca_changed_resources = [''snapshot''],
                ca_recorded_at_unix_ms = now, ca_applying_instance = IN_MEMORY_INSTANCE\<rparr>]\<rparr>"
proof (cases "ms_snapshot s")
  case None
  with assms fresh show ?thesis by (auto simp: mem_bootstrap_def and_then_Inr_iff)
next
  case (Some sn)
  with assms already show ?thesis by (auto simp: mem_bootstrap_def)
qed

lemma mem_transact_cases:
  assumes "mem_transact env now auth changes s = Inr (c, t)"
  obtains (replay) key recorded where "t = s" "c = recorded\<lparr>co_replayed := True\<rparr>"
      "ch_idempotency_key changes = Some key"
      "fmlookup (ms_idempotency s) key = Some (changes, recorded, au_request_fingerprint auth)"
  | (fresh) sn applied where "ms_snapshot s = Some sn" "au_snapshot_revision auth = ms_revision s"
      "ms_revision s \<noteq> -1" "mem_replay s auth changes = None" "\<not> au_replay_only auth"
      "apply_control_changes env sn (ms_entity_versions s) (ms_revision s + 1) auth changes = Inr applied"
      "(c, t) = mem_commit now (ms_revision s + 1) auth changes applied s"
proof (cases "mem_replay s auth changes")
  case (Some answer)
  with assms have "answer = Inr c" "t = s"
    by (auto simp: mem_transact_def and_then_Inr_iff)
  with Some replay show ?thesis
    by (auto simp: mem_replay_def split: option.splits prod.splits if_splits)
next
  case None
  with assms fresh show ?thesis
    by (auto simp: mem_transact_def and_then_Inr_iff ok_or_Inr_iff ensure_Inr_iff split: if_splits)
qed

section \<open>The state machine\<close>

inductive mem_step :: "'x config_env \<Rightarrow> 'x control_state \<Rightarrow> 'x control_state \<Rightarrow> bool" for env where
  Bootstrap_Step: "mem_bootstrap env now seed actor mode s = Inr (out, t) \<Longrightarrow> mem_step env s t"
| Transact_Step: "mem_transact env now auth changes s = Inr (c, t) \<Longrightarrow> mem_step env s t"

inductive_cases mem_stepE: "mem_step env s t"

definition mem_reachable :: "'x config_env \<Rightarrow> 'x control_state \<Rightarrow> bool" where
  "mem_reachable env s = (mem_step env)\<^sup>*\<^sup>* empty_store s"

definition commit_event :: "control_commit \<Rightarrow> control_event" where
  "commit_event c = \<lparr>ve_revision = co_revision c, ve_ordinal = 0, ve_changed_resources = co_changed_resources c\<rparr>"

definition keys_recorded :: "'x control_state \<Rightarrow> bool" where
  "keys_recorded s \<longleftrightarrow>
     (\<forall>key changes c fp. fmlookup (ms_idempotency s) key = Some (changes, c, fp) \<longrightarrow>
        ch_idempotency_key changes = Some key \<and> \<not> co_replayed c \<and> commit_event c \<in> set (ms_events s))"

definition versions_recorded :: "'x control_state \<Rightarrow> bool" where
  "versions_recorded s \<longleftrightarrow>
     (\<forall>k v. fmlookup (ms_entity_versions s) k = Some v \<longrightarrow>
        (\<exists>r. 1 < r \<and> r \<le> ms_revision s \<and> v = show_u64 r))"

definition history_recorded :: "'x control_state \<Rightarrow> bool" where
  "history_recorded s \<longleftrightarrow>
     map event_cursor (ms_events s) = numbered (ms_revision s)
     \<and> map (\<lambda>r. (ca_revision r, ca_changed_resources r)) (ms_audit s)
         = map (\<lambda>e. (ve_revision e, ve_changed_resources e)) (ms_events s)"

definition store_ok :: "'x config_env \<Rightarrow> 'x control_state \<Rightarrow> bool" where
  "store_ok env s \<longleftrightarrow>
     (case ms_snapshot s of
        None \<Rightarrow> s = empty_store
      | Some sn \<Rightarrow> snapshot_validate env sn = Inr () \<and> 1 \<le> ms_revision s)
     \<and> history_recorded s \<and> keys_recorded s \<and> versions_recorded s"

section \<open>The invariant\<close>

lemma empty_ok [simp]: "store_ok env empty_store"
  by (simp add: store_ok_def empty_store_def history_recorded_def keys_recorded_def versions_recorded_def)

lemma bootstrap_ok:
  assumes "store_ok env s" "mem_bootstrap env now seed actor mode s = Inr (out, t)"
  shows "store_ok env t"
  using assms(2)
proof (cases rule: mem_bootstrap_cases)
  case already
  with assms(1) show ?thesis by simp
next
  case fresh
  with assms(1) have "s = empty_store" by (simp add: store_ok_def)
  with fresh show ?thesis
    by (simp add: store_ok_def empty_store_def history_recorded_def keys_recorded_def versions_recorded_def
        event_cursor_def)
qed

lemma commit_ok:
  assumes "store_ok env s" "ms_snapshot s = Some sn" "ms_revision s \<noteq> -1" "mem_replay s auth changes = None"
    and "apply_control_changes env sn (ms_entity_versions s) (ms_revision s + 1) auth changes = Inr applied"
    and "(c, t) = mem_commit now (ms_revision s + 1) auth changes applied s"
  shows "store_ok env t"
proof -
  have t: "t = snd (mem_commit now (ms_revision s + 1) auth changes applied s)" using assms(6) by (metis snd_conv)
  note def = mem_commit_def Let_def
  have valid: "snapshot_validate env (ac_snapshot applied) = Inr ()"
    using assms(5) by (rule apply_control_changes_D) simp
  have "history_recorded t"
    using assms(1,3) by (simp add: t def store_ok_def history_recorded_def numbered_next event_cursor_def)
  moreover have "keys_recorded t"
  proof -
    from assms(1) have "keys_recorded s" by (simp add: store_ok_def)
    then show ?thesis
      by (cases "ch_idempotency_key changes") (auto simp: t def keys_recorded_def commit_event_def)
  qed
  moreover have "versions_recorded t"
    unfolding versions_recorded_def
  proof (intro allI impI)
    fix k v assume v: "fmlookup (ms_entity_versions t) k = Some v"
    then have "v = show_u64 (ms_revision s + 1) \<or> fmlookup (ms_entity_versions s) k = Some v"
      using applied_versions [OF assms(5)]
      by (cases "k \<in> set (ac_changed_resources applied)") (auto simp: t def)
    moreover have "1 < ms_revision s + 1"
      using assms(1-3) less_next [of "ms_revision s"] by (auto simp: store_ok_def)
    ultimately show "\<exists>r. 1 < r \<and> r \<le> ms_revision t \<and> v = show_u64 r"
      using assms(1,3) by (auto simp: t def store_ok_def versions_recorded_def le_next_iff)
  qed
  moreover have "1 \<le> ms_revision s + 1"
    using assms(1-3) less_next [of "ms_revision s"] by (auto simp: store_ok_def)
  ultimately show ?thesis using valid by (simp add: store_ok_def t def)
qed

lemma transact_ok:
  assumes "store_ok env s" "mem_transact env now auth changes s = Inr (c, t)"
  shows "store_ok env t"
  using assms(2)
proof (cases rule: mem_transact_cases)
  case replay
  with assms(1) show ?thesis by simp
next
  case fresh
  then show ?thesis using commit_ok [OF assms(1)] by blast
qed

lemma step_ok: "mem_step env s t \<Longrightarrow> store_ok env s \<Longrightarrow> store_ok env t"
  by (induction rule: mem_step.induct) (auto dest: bootstrap_ok transact_ok)

lemma steps_ok: "(mem_step env)\<^sup>*\<^sup>* s t \<Longrightarrow> store_ok env s \<Longrightarrow> store_ok env t"
  by (induction rule: rtranclp_induct) (auto dest: step_ok)

lemma reachable_ok: "mem_reachable env s \<Longrightarrow> store_ok env s"
  unfolding mem_reachable_def by (erule steps_ok) simp

section \<open>Steps only extend\<close>

definition extends :: "'x control_state \<Rightarrow> 'x control_state \<Rightarrow> bool" where
  "extends s t \<longleftrightarrow>
     (ms_snapshot s \<noteq> None \<longrightarrow> ms_snapshot t \<noteq> None \<and> ms_revision s \<le> ms_revision t)
     \<and> (\<exists>es. ms_events t = ms_events s @ es) \<and> (\<exists>as. ms_audit t = ms_audit s @ as)
     \<and> (\<forall>k v. fmlookup (ms_idempotency s) k = Some v \<longrightarrow> fmlookup (ms_idempotency t) k = Some v)"

lemma extends_refl [simp]: "extends s s"
  by (simp add: extends_def)

lemma extends_trans: "extends s t \<Longrightarrow> extends t u \<Longrightarrow> extends s u"
  unfolding extends_def by (auto intro: order_trans)

lemma replay_None: "mem_replay s auth changes = None \<Longrightarrow> ch_idempotency_key changes = Some key \<Longrightarrow>
    fmlookup (ms_idempotency s) key = None"
  by (auto simp: mem_replay_def split: option.splits)

lemma fresh_extends:
  assumes "ms_snapshot s = Some sn" "ms_revision s \<noteq> -1" "mem_replay s auth changes = None"
    and "(c, t) = mem_commit now (ms_revision s + 1) auth changes applied s"
  shows "extends s t" and "co_revision c = ms_revision s + 1" and "ms_revision t = ms_revision s + 1"
    and "\<not> co_replayed c" and "ms_snapshot t = Some (ac_snapshot applied)"
    and "commit_event c = last (ms_events t)" and "ms_events t = ms_events s @ [commit_event c]"
    and "ch_idempotency_key changes = Some key \<Longrightarrow>
      fmlookup (ms_idempotency t) key = Some (changes, c, au_request_fingerprint auth)"
  using assms less_next [of "ms_revision s"] replay_None [OF assms(3)]
  by (auto simp: mem_commit_def Let_def extends_def commit_event_def split: option.splits)

lemma step_extends: "mem_step env s t \<Longrightarrow> extends s t"
proof (erule mem_stepE)
  fix now seed actor mode out assume "mem_bootstrap env now seed actor mode s = Inr (out, t)"
  then show "extends s t" by (cases rule: mem_bootstrap_cases) (simp_all add: extends_def)
next
  fix now auth changes c assume "mem_transact env now auth changes s = Inr (c, t)"
  then show "extends s t"
  proof (cases rule: mem_transact_cases)
    case fresh
    then show ?thesis using fresh_extends(1) by blast
  qed simp
qed

lemma steps_extend: "(mem_step env)\<^sup>*\<^sup>* s t \<Longrightarrow> extends s t"
  by (induction rule: rtranclp_induct) (auto dest: step_extends intro: extends_trans)

section \<open>The feed of the in-memory store\<close>

lemma mem_page:
  "limit \<noteq> 0 \<Longrightarrow> mem_changes_since (Some c) limit s
     = Inr (take (unat limit) (filter (\<lambda>e. c < event_cursor e) (ms_events s)))"
  by (simp add: mem_changes_since_def validate_limit_def)

interpretation mem: control_feed "store_ok env" "(mem_step env)\<^sup>*\<^sup>*" mem_current_revision ms_events mem_changes_since
proof
  fix s t r assume ok: "store_ok env s" and st: "(mem_step env)\<^sup>*\<^sup>* s t"
  show "store_ok env t" using steps_ok [OF st ok] .
  show "\<exists>es. ms_events t = ms_events s @ es" using steps_extend [OF st] by (simp add: extends_def)
  assume "mem_current_revision s = Some r"
  then show "\<exists>q. mem_current_revision t = Some q \<and> r \<le> q"
    using steps_extend [OF st] by (auto simp: extends_def mem_current_revision_def)
next
  fix s r assume "store_ok env s" "mem_current_revision s = Some r"
  then show "map event_cursor (ms_events s) = numbered r"
    by (auto simp: store_ok_def history_recorded_def mem_current_revision_def)
qed (rule mem_page)

end
