(* ===== verification/Sqlite_Store.thy ===== *)
theory Sqlite_Store
  imports Store_Invariant "HOL-Library.Product_Lexorder"
begin

text \<open>
  \<open>crates/tellurion-control-sqlite/src/store.rs\<close>: the durable store. A table is a finite map
  from its primary key (\<open>migrations/001_control_store.sql\<close>) to the other columns; INSERT fails
  on an existing key, on a failed CHECK and on a missing referenced row; SELECT reads the rows in the
  order the statement asks for. A writing operation runs in one immediate transaction on its own
  copy of the database: an error rolls back, so it returns no new database. The feed and the audit
  trail are one SELECT each. Loading the snapshot is three SELECTs: inside the transaction of
  \<open>transact\<close> they see one database, but \<open>SqliteControlStore::load_snapshot\<close> opens a connection
  and runs them outside any transaction, so each may see what was committed before it ran
  (\<open>sq_load_snapshot_over\<close>). Integers are SQLite's signed 64-bit integers. The JSON texts are those of serde, the parameter \<open>sqlite_codec\<close>.
\<close>

section \<open>Texts and integers\<close>

record 'x sqlite_codec =
  js_snapshot :: "'x control_snapshot \<Rightarrow> string option"
  un_snapshot :: "string \<Rightarrow> 'x control_snapshot option"
  js_changes :: "'x control_change_set \<Rightarrow> string option"
  un_changes :: "string \<Rightarrow> 'x control_change_set option"
  js_stored_commit :: "control_commit \<times> string option \<Rightarrow> string option"
  un_stored_commit :: "string \<Rightarrow> (control_commit \<times> string option) option"
  un_plain_commit :: "string \<Rightarrow> control_commit option"
  js_actor :: "principal_identity \<Rightarrow> string option"
  un_actor :: "string \<Rightarrow> principal_identity option"
  js_request :: "audit_request_context \<Rightarrow> string option"
  un_request :: "string \<Rightarrow> audit_request_context option"
  js_strings :: "string list \<Rightarrow> string option"
  un_strings :: "string \<Rightarrow> string list option"
  js_config :: "'x app_config \<Rightarrow> string option"
  js_tenant :: "'x tenant_decl \<Rightarrow> string option"
  js_catalog :: "'x catalog_decl \<Rightarrow> string option"
  js_collection :: "'x collection_decl \<Rightarrow> string option"
  js_role :: "'x role_decl \<Rightarrow> string option"
  js_binding :: "role_binding \<Rightarrow> string option"
  js_policy :: "'x path_policy \<Rightarrow> string option"
  js_scope :: "control_scope \<Rightarrow> string option"

definition json_text :: "('a \<Rightarrow> string option) \<Rightarrow> 'a \<Rightarrow> core_error + string" where
  "json_text js a = ok_or (js a) (Storage ''json'')"

definition from_json :: "(string \<Rightarrow> 'a option) \<Rightarrow> string \<Rightarrow> core_error + 'a" where
  "from_json un t = ok_or (un t) (Storage ''json'')"

definition to_i64 :: "u64 \<Rightarrow> core_error + int" where
  "to_i64 v = (if unat v < 2 ^ 63 then Inr (uint v) else Inl (Corrupt ''unsigned integer''))"

definition to_u64 :: "int \<Rightarrow> core_error + u64" where
  "to_u64 v = (if 0 \<le> v then Inr (of_int v) else Inl (Corrupt ''negative integer''))"

definition to_u32 :: "int \<Rightarrow> core_error + u32" where
  "to_u32 v = (if 0 \<le> v \<and> v < 2 ^ 32 then Inr (of_int v) else Inl (Corrupt ''outbox ordinal''))"

section \<open>The database\<close>

record audit_row =
  aw_actor_json :: string
  aw_request_json :: string
  aw_idempotency_key :: "string option"
  aw_changed_resources_json :: string
  aw_recorded_at_unix_ms :: int
  aw_applying_instance :: string

record sqlite_db =
  db_revisions :: "(int, string \<times> int) fmap"
  db_state :: "int option"
  db_resources :: "(string, string \<times> string) fmap"
  db_role_bindings :: "(string \<times> string \<times> string \<times> string, string) fmap"
  db_path_policies :: "(string, string) fmap"
  db_tombstones :: "(string, string) fmap"
  db_entity_versions :: "(string, string) fmap"
  db_audit :: "(int, audit_row) fmap"
  db_outbox :: "(int \<times> int, string) fmap"
  db_idempotency :: "(string, string \<times> string) fmap"

definition migrated_db :: sqlite_db where
  "migrated_db = \<lparr>db_revisions = fmempty, db_state = None, db_resources = fmempty,
     db_role_bindings = fmempty, db_path_policies = fmempty, db_tombstones = fmempty,
     db_entity_versions = fmempty, db_audit = fmempty, db_outbox = fmempty, db_idempotency = fmempty\<rparr>"

definition insert_row :: "'k \<Rightarrow> 'r \<Rightarrow> ('k, 'r) fmap \<Rightarrow> core_error + ('k, 'r) fmap" where
  "insert_row k r table =
     (case fmlookup table k of
        Some _ \<Rightarrow> Inl (Storage ''UNIQUE constraint failed'')
      | None \<Rightarrow> Inr (fmupd k r table))"

text \<open>CHECK and REFERENCES.\<close>

definition check_row :: "bool \<Rightarrow> core_error + unit" where
  "check_row b = ensure b (Storage ''constraint failed'')"

section \<open>Reading\<close>

definition sq_current_revision :: "sqlite_db \<Rightarrow> core_error + u64 option" where
  "sq_current_revision db =
     (case db_state db of
        None \<Rightarrow> Inr None
      | Some r \<Rightarrow> and_then (to_u64 r) (\<lambda>v. Inr (Some v)))"

text \<open>The rows of the version table are read into a map under the same keys.\<close>

definition sq_load_snapshot_over ::
  "'x config_env \<Rightarrow> 'x sqlite_codec \<Rightarrow> sqlite_db \<Rightarrow> sqlite_db \<Rightarrow> sqlite_db \<Rightarrow>
   core_error + 'x versioned_control_snapshot" where
  "sq_load_snapshot_over env cd db_first db_second db_third =
     and_then (sq_current_revision db_first) (\<lambda>current.
     and_then (ok_or current ControlUninitialized) (\<lambda>revision.
     and_then (to_i64 revision) (\<lambda>key.
     and_then (ok_or (fmlookup (db_revisions db_second) key) (Storage ''no rows'')) (\<lambda>(snapshot_json, _).
     and_then (from_json (un_snapshot cd) snapshot_json) (\<lambda>snapshot.
     and_then (snapshot_validate env snapshot) (\<lambda>_.
     versioned_new env snapshot revision (db_entity_versions db_third)))))))"

definition sq_load_snapshot ::
  "'x config_env \<Rightarrow> 'x sqlite_codec \<Rightarrow> sqlite_db \<Rightarrow> core_error + 'x versioned_control_snapshot" where
  "sq_load_snapshot env cd db = sq_load_snapshot_over env cd db db db"

definition load_idempotency ::
  "'x sqlite_codec \<Rightarrow> string \<Rightarrow> sqlite_db \<Rightarrow>
   core_error + ('x control_change_set \<times> control_commit \<times> string option) option" where
  "load_idempotency cd key db =
     (case fmlookup (db_idempotency db) key of
        None \<Rightarrow> Inr None
      | Some (changes_json, commit_json) \<Rightarrow>
          and_then (from_json (un_changes cd) changes_json) (\<lambda>changes.
          case un_stored_commit cd commit_json of
            Some (commit, fingerprint) \<Rightarrow> Inr (Some (changes, commit, fingerprint))
          | None \<Rightarrow>
              and_then (from_json (un_plain_commit cd) commit_json) (\<lambda>commit.
              Inr (Some (changes, commit, None)))))"

definition event_of_row :: "'x sqlite_codec \<Rightarrow> (int \<times> int) \<times> string \<Rightarrow> core_error + control_event" where
  "event_of_row cd row =
     and_then (to_u64 (fst (fst row))) (\<lambda>revision.
     and_then (to_u32 (snd (fst row))) (\<lambda>ordinal.
     and_then (from_json (un_strings cd) (snd row)) (\<lambda>changed.
     Inr \<lparr>ve_revision = revision, ve_ordinal = ordinal, ve_changed_resources = changed\<rparr>)))"

text \<open>The rows of a table in the order of its key.\<close>

definition ordered_rows :: "('k :: linorder, 'r) fmap \<Rightarrow> ('k \<times> 'r) list" where
  "ordered_rows table =
     List.map_filter (\<lambda>k. map_option (Pair k) (fmlookup table k)) (sorted_list_of_set (fset (fmdom table)))"

definition sq_changes_since ::
  "'x sqlite_codec \<Rightarrow> control_event_cursor option \<Rightarrow> u32 \<Rightarrow> sqlite_db \<Rightarrow> core_error + control_event list" where
  "sq_changes_since cd after limit db =
     and_then (validate_limit limit) (\<lambda>_.
     let cursor = (case after of Some c \<Rightarrow> c | None \<Rightarrow> Cursor 0 0) in
     and_then (to_i64 (cur_revision cursor)) (\<lambda>revision.
     traverse (event_of_row cd)
       (take (unat limit)
         (filter (\<lambda>row. fst (fst row) > revision
                    \<or> (fst (fst row) = revision \<and> snd (fst row) > uint (cur_ordinal cursor)))
           (ordered_rows (db_outbox db))))))"

definition audit_of_row :: "'x sqlite_codec \<Rightarrow> int \<times> audit_row \<Rightarrow> core_error + control_audit_record" where
  "audit_of_row cd row =
     and_then (to_u64 (fst row)) (\<lambda>revision.
     and_then (from_json (un_actor cd) (aw_actor_json (snd row))) (\<lambda>actor.
     and_then (from_json (un_request cd) (aw_request_json (snd row))) (\<lambda>request.
     and_then (from_json (un_strings cd) (aw_changed_resources_json (snd row))) (\<lambda>changed.
     and_then (to_u64 (aw_recorded_at_unix_ms (snd row))) (\<lambda>recorded_at.
     Inr \<lparr>ca_revision = revision, ca_actor = actor, ca_request = request,
          ca_idempotency_key = aw_idempotency_key (snd row), ca_changed_resources = changed,
          ca_recorded_at_unix_ms = recorded_at,
          ca_applying_instance = aw_applying_instance (snd row)\<rparr>)))))"

definition sq_audit_since ::
  "'x sqlite_codec \<Rightarrow> u64 \<Rightarrow> u32 \<Rightarrow> sqlite_db \<Rightarrow> core_error + control_audit_record list" where
  "sq_audit_since cd after limit db =
     and_then (validate_limit limit) (\<lambda>_.
     and_then (to_i64 after) (\<lambda>revision.
     traverse (audit_of_row cd)
       (take (unat limit) (filter (\<lambda>row. fst row > revision) (ordered_rows (db_audit db))))))"

section \<open>Writing\<close>

definition insert_revision ::
  "'x sqlite_codec \<Rightarrow> u64 \<Rightarrow> 'x control_snapshot \<Rightarrow> u64 \<Rightarrow> sqlite_db \<Rightarrow> core_error + sqlite_db" where
  "insert_revision cd revision snapshot recorded_at db =
     and_then (to_i64 revision) (\<lambda>r.
     and_then (json_text (js_snapshot cd) snapshot) (\<lambda>text.
     and_then (to_i64 recorded_at) (\<lambda>at.
     and_then (check_row (r > 0 \<and> at \<ge> 0)) (\<lambda>_.
     and_then (insert_row r (text, at) (db_revisions db)) (\<lambda>t.
     Inr (db\<lparr>db_revisions := t\<rparr>))))))"

definition insert_state :: "u64 \<Rightarrow> sqlite_db \<Rightarrow> core_error + sqlite_db" where
  "insert_state revision db =
     and_then (to_i64 revision) (\<lambda>r.
     and_then (check_row (fmlookup (db_revisions db) r \<noteq> None)) (\<lambda>_.
     case db_state db of
       Some _ \<Rightarrow> Inl (Storage ''UNIQUE constraint failed'')
     | None \<Rightarrow> Inr (db\<lparr>db_state := Some r\<rparr>)))"

text \<open>UPDATE touches the singleton row when it is there.\<close>

definition update_state :: "u64 \<Rightarrow> sqlite_db \<Rightarrow> core_error + sqlite_db" where
  "update_state revision db =
     and_then (to_i64 revision) (\<lambda>r.
     and_then (check_row (db_state db = None \<or> fmlookup (db_revisions db) r \<noteq> None)) (\<lambda>_.
     Inr (db\<lparr>db_state := map_option (\<lambda>_. r) (db_state db)\<rparr>)))"

definition insert_event :: "'x sqlite_codec \<Rightarrow> u64 \<Rightarrow> u32 \<Rightarrow> string list \<Rightarrow> sqlite_db \<Rightarrow> core_error + sqlite_db" where
  "insert_event cd revision ordinal changed db =
     and_then (to_i64 revision) (\<lambda>r.
     and_then (json_text (js_strings cd) changed) (\<lambda>text.
     and_then (check_row (fmlookup (db_revisions db) r \<noteq> None)) (\<lambda>_.
     and_then (insert_row (r, uint ordinal) text (db_outbox db)) (\<lambda>t.
     Inr (db\<lparr>db_outbox := t\<rparr>)))))"

definition insert_audit ::
  "'x sqlite_codec \<Rightarrow> u64 \<Rightarrow> principal_identity \<Rightarrow> audit_request_context \<Rightarrow> string option \<Rightarrow> string list \<Rightarrow>
   u64 \<Rightarrow> string \<Rightarrow> sqlite_db \<Rightarrow> core_error + sqlite_db" where
  "insert_audit cd revision actor request key changed recorded_at applying_instance db =
     and_then (to_i64 revision) (\<lambda>r.
     and_then (json_text (js_actor cd) actor) (\<lambda>actor_json.
     and_then (json_text (js_request cd) request) (\<lambda>request_json.
     and_then (json_text (js_strings cd) changed) (\<lambda>changed_json.
     and_then (to_i64 recorded_at) (\<lambda>at.
     and_then (check_row (fmlookup (db_revisions db) r \<noteq> None \<and> at \<ge> 0)) (\<lambda>_.
     and_then (insert_row r
       \<lparr>aw_actor_json = actor_json, aw_request_json = request_json, aw_idempotency_key = key,
        aw_changed_resources_json = changed_json, aw_recorded_at_unix_ms = at,
        aw_applying_instance = applying_instance\<rparr> (db_audit db)) (\<lambda>t.
     Inr (db\<lparr>db_audit := t\<rparr>))))))))"

definition insert_resource ::
  "string \<Rightarrow> string \<Rightarrow> string option \<Rightarrow> (string, string \<times> string) fmap \<Rightarrow>
   core_error + (string, string \<times> string) fmap" where
  "insert_resource key kind text table =
     and_then (ok_or text (Storage ''json'')) (\<lambda>resource_json.
     insert_row key (kind, resource_json) table)"

definition insert_config_resources ::
  "'x sqlite_codec \<Rightarrow> 'x app_config \<Rightarrow> core_error + (string, string \<times> string) fmap" where
  "insert_config_resources cd cfg =
     and_then (insert_resource ''platform'' ''platform'' (js_config cd cfg) fmempty) (\<lambda>t0.
     and_then (fold_each (\<lambda>tenant. insert_resource (''tenant/'' @ tn_id tenant) ''tenant'' (js_tenant cd tenant))
       (cfg_tenants cfg) t0) (\<lambda>t1.
     and_then (fold_each (\<lambda>catalog. insert_resource
         (''tenant/'' @ ct_tenant catalog @ ''/catalog/'' @ ct_id catalog) ''catalog'' (js_catalog cd catalog))
       (cfg_catalogs cfg) t1) (\<lambda>t2.
     and_then (fold_each (\<lambda>collection t.
         and_then (catalog_of_collection cfg collection) (\<lambda>catalog.
         insert_resource (''tenant/'' @ ct_tenant catalog @ ''/catalog/'' @ ct_id catalog @ ''/collection/''
             @ cl_id collection) ''collection'' (js_collection cd collection) t))
       (cfg_collections cfg) t2) (\<lambda>t3.
     and_then (fold_each (\<lambda>role. insert_resource (''role/platform/'' @ rd_name role) ''role'' (js_role cd role))
       (pc_roles (cfg_policy cfg)) t3) (\<lambda>t4.
     fold_each (\<lambda>tenant_policy.
         fold_each (\<lambda>role. insert_resource (''role/tenant/'' @ tp_tenant tenant_policy @ ''/'' @ rd_name role)
             ''role'' (js_role cd role)) (tp_roles tenant_policy))
       (pc_tenant_policies (cfg_policy cfg)) t4)))))"

definition replace_current_resources ::
  "'x sqlite_codec \<Rightarrow> 'x control_snapshot \<Rightarrow> sqlite_db \<Rightarrow> core_error + sqlite_db" where
  "replace_current_resources cd snapshot db =
     and_then (insert_config_resources cd (sn_config snapshot)) (\<lambda>resources.
     and_then (fold_each (\<lambda>b t.
         and_then (json_text (js_binding cd) b) (\<lambda>text.
         insert_row (pr_issuer (rb_principal b), pr_subject (rb_principal b), rb_role b,
           resource_key (rb_scope b)) text t)) (sn_bindings snapshot) fmempty) (\<lambda>bindings.
     and_then (fold_each (\<lambda>p t.
         and_then (json_text (js_policy cd) p) (\<lambda>text. insert_row (pp_id p) text t))
       (sn_policies snapshot) fmempty) (\<lambda>policies.
     and_then (fold_each (\<lambda>scope t.
         and_then (json_text (js_scope cd) scope) (\<lambda>text. insert_row (resource_key scope) text t))
       (sn_tombstones snapshot) fmempty) (\<lambda>tombstones.
     Inr (db\<lparr>db_resources := resources, db_role_bindings := bindings, db_path_policies := policies,
            db_tombstones := tombstones\<rparr>)))))"

text \<open>Cleared, then refilled from a map: no insertion can meet an existing key.\<close>

definition replace_entity_versions :: "entity_versions \<Rightarrow> sqlite_db \<Rightarrow> sqlite_db" where
  "replace_entity_versions versions db = db\<lparr>db_entity_versions := versions\<rparr>"

section \<open>The operations\<close>

definition SQLITE_INSTANCE :: string where
  "SQLITE_INSTANCE = ''sqlite-control-store''"

definition sq_bootstrap ::
  "'x config_env \<Rightarrow> 'x sqlite_codec \<Rightarrow> u64 \<Rightarrow> 'x control_snapshot \<Rightarrow> principal_identity \<Rightarrow>
   control_bootstrap_mode \<Rightarrow> sqlite_db \<Rightarrow> core_error + (bootstrap_outcome \<times> sqlite_db)" where
  "sq_bootstrap env cd now seed actor mode db =
     and_then (sq_current_revision db) (\<lambda>current.
     case current of
       Some revision \<Rightarrow> Inr (AlreadyInitialized revision, db)
     | None \<Rightarrow>
         and_then (snapshot_validate env seed) (\<lambda>_.
         and_then (validate_actor actor) (\<lambda>_.
         and_then (validate_control_bootstrap_seed seed mode) (\<lambda>_.
         and_then (insert_revision cd 1 seed now db) (\<lambda>db1.
         and_then (insert_state 1 db1) (\<lambda>db2.
         and_then (replace_current_resources cd seed db2) (\<lambda>db3.
         and_then (insert_event cd 1 0 [''snapshot''] db3) (\<lambda>db4.
         and_then (insert_audit cd 1 actor bootstrap_request None [''snapshot''] now SQLITE_INSTANCE db4) (\<lambda>db5.
         Inr (Bootstrapped 1, db5))))))))))"

definition insert_idempotency ::
  "'x sqlite_codec \<Rightarrow> string \<Rightarrow> 'x control_change_set \<Rightarrow> control_commit \<Rightarrow> string \<Rightarrow> sqlite_db \<Rightarrow>
   core_error + sqlite_db" where
  "insert_idempotency cd key changes commit fingerprint db =
     and_then (json_text (js_changes cd) changes) (\<lambda>changes_json.
     and_then (json_text (js_stored_commit cd) (commit, Some fingerprint)) (\<lambda>commit_json.
     and_then (insert_row key (changes_json, commit_json) (db_idempotency db)) (\<lambda>t.
     Inr (db\<lparr>db_idempotency := t\<rparr>))))"

definition sq_commit ::
  "'x sqlite_codec \<Rightarrow> u64 \<Rightarrow> u64 \<Rightarrow> 'x authorized_control_mutation \<Rightarrow> 'x control_change_set \<Rightarrow>
   'x applied_control_change_set \<Rightarrow> sqlite_db \<Rightarrow> core_error + (control_commit \<times> sqlite_db)" where
  "sq_commit cd now revision authorization changes applied db =
     and_then (insert_revision cd revision (ac_snapshot applied) now db) (\<lambda>db1.
     and_then (update_state revision db1) (\<lambda>db2.
     and_then (replace_current_resources cd (ac_snapshot applied) db2) (\<lambda>db3.
     let db4 = replace_entity_versions (ac_entity_versions applied) db3 in
     and_then (insert_event cd revision 0 (ac_changed_resources applied) db4) (\<lambda>db5.
     and_then (insert_audit cd revision (au_principal authorization) (au_audit_request authorization)
       (ch_idempotency_key changes) (ac_changed_resources applied) now SQLITE_INSTANCE db5) (\<lambda>db6.
     let commit = \<lparr>co_revision = revision, co_changed_resources = ac_changed_resources applied,
           co_replayed = False\<rparr> in
     and_then (case ch_idempotency_key changes of
         None \<Rightarrow> Inr db6
       | Some key \<Rightarrow> insert_idempotency cd key changes commit (au_request_fingerprint authorization) db6) (\<lambda>db7.
     Inr (commit, db7)))))))"

definition sq_transact ::
  "'x config_env \<Rightarrow> 'x sqlite_codec \<Rightarrow> u64 \<Rightarrow> 'x authorized_control_mutation \<Rightarrow> 'x control_change_set \<Rightarrow>
   sqlite_db \<Rightarrow> core_error + (control_commit \<times> sqlite_db)" where
  "sq_transact env cd now authorization changes db =
     and_then (validate_actor (au_principal authorization)) (\<lambda>_.
     and_then (validate_request (au_audit_request authorization)) (\<lambda>_.
     and_then (change_set_validate changes) (\<lambda>_.
     and_then (validate_intent authorization changes) (\<lambda>_.
     and_then (case ch_idempotency_key changes of
         None \<Rightarrow> Inr None
       | Some key \<Rightarrow> load_idempotency cd key db) (\<lambda>recorded.
     case recorded of
       Some (recorded_changes, recorded_commit, request_fingerprint) \<Rightarrow>
         (let key = (case ch_idempotency_key changes of Some key \<Rightarrow> key | None \<Rightarrow> []) in
          if recorded_changes \<noteq> changes then Inl (ControlIdempotencyConflict key)
          else if request_fingerprint \<noteq> Some (au_request_fingerprint authorization)
          then Inl (ControlIdempotencyAuthorizationConflict key)
          else Inr (recorded_commit\<lparr>co_replayed := True\<rparr>, db))
     | None \<Rightarrow>
         if au_replay_only authorization
         then Inl (ControlIdempotencyAuthorizationConflict
                (case ch_idempotency_key changes of Some key \<Rightarrow> key | None \<Rightarrow> []))
         else
           and_then (sq_load_snapshot env cd db) (\<lambda>versioned.
           and_then (ensure (vc_revision versioned = au_snapshot_revision authorization)
             (ControlRevisionConflict (au_snapshot_revision authorization) (vc_revision versioned))) (\<lambda>_.
           and_then (ensure (au_snapshot_revision authorization \<noteq> -1)
             (ControlValidation (Refused ''control revision overflow''))) (\<lambda>_.
           and_then (apply_control_changes env (vc_snapshot versioned) (vc_entity_versions versioned)
             (au_snapshot_revision authorization + 1) authorization changes) (\<lambda>applied.
           sq_commit cd now (au_snapshot_revision authorization + 1) authorization changes applied db)))))))))"

end
