(* ===== verification/Sqlite_Refinement.thy ===== *)
theory Sqlite_Refinement
  imports Sqlite_Store
begin

text \<open>
  The SQLite store implements the in-memory store: a relation between the tables and the abstract
  state, and one simulation lemma per operation. A successful call has the result of the abstract
  call and keeps the relation; a failing call fails like the abstract one, or with an error of the
  database driver, of the JSON library or of an integer that does not fit, and changes nothing. What
  is proved of the reachable abstract states then holds of the reachable databases, the contract of
  the feed included. The parameter of the refinement is that reading back a written JSON text gives
  the value that was written (\<open>codec_ok\<close>).
\<close>

section \<open>The relation\<close>

definition reads_back :: "('a \<Rightarrow> string option) \<Rightarrow> (string \<Rightarrow> 'a option) \<Rightarrow> bool" where
  "reads_back js un \<longleftrightarrow> (\<forall>a t. js a = Some t \<longrightarrow> un t = Some a)"

definition codec_ok :: "'x sqlite_codec \<Rightarrow> bool" where
  "codec_ok cd \<longleftrightarrow> reads_back (js_snapshot cd) (un_snapshot cd) \<and> reads_back (js_changes cd) (un_changes cd)
     \<and> reads_back (js_stored_commit cd) (un_stored_commit cd) \<and> reads_back (js_actor cd) (un_actor cd)
     \<and> reads_back (js_request cd) (un_request cd) \<and> reads_back (js_strings cd) (un_strings cd)"

definition event_row :: "'x sqlite_codec \<Rightarrow> (int \<times> int) \<times> string \<Rightarrow> control_event \<Rightarrow> bool" where
  "event_row cd row e \<longleftrightarrow> fst row = (uint (ve_revision e), uint (ve_ordinal e))
     \<and> un_strings cd (snd row) = Some (ve_changed_resources e)"

definition audit_row_of :: "'x sqlite_codec \<Rightarrow> int \<times> audit_row \<Rightarrow> control_audit_record \<Rightarrow> bool" where
  "audit_row_of cd row r \<longleftrightarrow> fst row = uint (ca_revision r)
     \<and> un_actor cd (aw_actor_json (snd row)) = Some (ca_actor r)
     \<and> un_request cd (aw_request_json (snd row)) = Some (ca_request r)
     \<and> aw_idempotency_key (snd row) = ca_idempotency_key r
     \<and> un_strings cd (aw_changed_resources_json (snd row)) = Some (ca_changed_resources r)
     \<and> aw_recorded_at_unix_ms (snd row) = uint (ca_recorded_at_unix_ms r)
     \<and> aw_applying_instance (snd row) = SQLITE_INSTANCE"

definition key_row ::
  "'x sqlite_codec \<Rightarrow> ('x control_change_set \<times> control_commit \<times> string) option \<Rightarrow>
   (string \<times> string) option \<Rightarrow> bool" where
  "key_row cd recorded row \<longleftrightarrow>
     (case (recorded, row) of
        (None, None) \<Rightarrow> True
      | (Some (changes, commit, fingerprint), Some (changes_json, commit_json)) \<Rightarrow>
          un_changes cd changes_json = Some changes
          \<and> un_stored_commit cd commit_json = Some (commit, Some fingerprint)
      | _ \<Rightarrow> False)"

definition state_row :: "'x sqlite_codec \<Rightarrow> sqlite_db \<Rightarrow> 'x control_state \<Rightarrow> bool" where
  "state_row cd db s \<longleftrightarrow>
     (case ms_snapshot s of
        None \<Rightarrow> db_state db = None
      | Some sn \<Rightarrow> db_state db = Some (uint (ms_revision s)) \<and> unat (ms_revision s) < 2 ^ 63
          \<and> (\<exists>text at. fmlookup (db_revisions db) (uint (ms_revision s)) = Some (text, at)
               \<and> un_snapshot cd text = Some sn))"

definition represents :: "'x sqlite_codec \<Rightarrow> sqlite_db \<Rightarrow> 'x control_state \<Rightarrow> bool" where
  "represents cd db s \<longleftrightarrow>
     state_row cd db s \<and> db_entity_versions db = ms_entity_versions s
     \<and> (\<exists>rows. db_outbox db = fmap_of_list rows \<and> list_all2 (event_row cd) rows (ms_events s))
     \<and> (\<exists>rows. db_audit db = fmap_of_list rows \<and> list_all2 (audit_row_of cd) rows (ms_audit s))
     \<and> (\<forall>key. key_row cd (fmlookup (ms_idempotency s) key) (fmlookup (db_idempotency db) key))"

lemma migrated_represents: "represents cd migrated_db empty_store"
  by (simp add: represents_def migrated_db_def empty_store_def state_row_def key_row_def fmap_of_list_simps)

section \<open>Texts, integers and rows\<close>

lemma json_text_D: "json_text js a = Inr t \<Longrightarrow> reads_back js un \<Longrightarrow> un t = Some a"
  by (simp add: json_text_def result_simps reads_back_def)

lemma to_i64_D: "to_i64 v = Inr r \<Longrightarrow> r = uint v \<and> unat v < 2 ^ 63"
  by (simp add: to_i64_def split: if_splits)

lemma to_u64_int [simp]: "to_u64 (uint v) = Inr v"
  by (simp add: to_u64_def)

lemma to_u32_int [simp]: "to_u32 (uint v) = Inr v"
proof -
  have "uint v < 2 ^ LENGTH(32)" by (rule unsigned_less)
  then show ?thesis by (simp add: to_u32_def)
qed

lemma insert_row_D: "insert_row k r table = Inr t \<Longrightarrow> fmlookup table k = None \<and> t = fmupd k r table"
  by (simp add: insert_row_def split: option.splits)

lemma insert_row_list:
  assumes "insert_row k r (fmap_of_list rows) = Inr t"
  shows "t = fmap_of_list (rows @ [(k, r)])"
proof (rule fmap_ext)
  fix x
  have none: "map_of rows k = None" and t: "t = fmupd k r (fmap_of_list rows)"
    using insert_row_D [OF assms] unfolding fmlookup_of_list by blast+
  show "fmlookup t x = fmlookup (fmap_of_list (rows @ [(k, r)])) x"
    unfolding t fmlookup_of_list fmupd_lookup map_of_append map_add_def using none
    by (cases "k = x") (auto split: option.split)
qed

section \<open>Reading\<close>

lemma current_revision_represents:
  assumes "represents cd db s"
  shows "sq_current_revision db = Inr (mem_current_revision s)"
  using assms by (auto simp: represents_def state_row_def sq_current_revision_def mem_current_revision_def
      split: option.splits)

lemma load_represents:
  assumes "represents cd db s" "store_ok env s"
  shows "sq_load_snapshot env cd db = mem_load_snapshot env s"
proof (cases "ms_snapshot s")
  case None
  then show ?thesis
    using current_revision_represents [OF assms(1)]
    by (simp add: sq_load_snapshot_def sq_load_snapshot_over_def mem_load_snapshot_def mem_current_revision_def)
next
  case (Some sn)
  with assms(1) obtain body at where r: "unat (ms_revision s) < 2 ^ 63"
    "fmlookup (db_revisions db) (uint (ms_revision s)) = Some (body, at)" "un_snapshot cd body = Some sn"
    by (auto simp: represents_def state_row_def)
  have "snapshot_validate env sn = Inr ()" using assms(2) Some by (simp add: store_ok_def)
  moreover have "db_entity_versions db = ms_entity_versions s" using assms(1) by (simp add: represents_def)
  ultimately show ?thesis
    using Some r current_revision_represents [OF assms(1)]
    by (simp add: sq_load_snapshot_def sq_load_snapshot_over_def mem_load_snapshot_def mem_current_revision_def to_i64_def from_json_def)
qed

lemma idempotency_represents:
  assumes "represents cd db s"
  shows "load_idempotency cd key db =
    Inr (map_option (\<lambda>(ch, c, fp). (ch, c, Some fp)) (fmlookup (ms_idempotency s) key))"
proof -
  have "key_row cd (fmlookup (ms_idempotency s) key) (fmlookup (db_idempotency db) key)"
    using assms by (simp add: represents_def)
  then show ?thesis
    by (auto simp: key_row_def load_idempotency_def from_json_def split: option.splits prod.splits)
qed

text \<open>The rows of the outbox come back in order.\<close>

lemma ordered_rows_list:
  fixes rows :: "('k :: linorder \<times> 'r) list"
  assumes "sorted_wrt (<) (map fst rows)"
  shows "ordered_rows (fmap_of_list rows) = rows"
proof -
  have d: "sorted (map fst rows)" "distinct (map fst rows)" using assms by (simp_all add: strict_sorted_iff)
  have dom: "fset (fmdom (fmap_of_list rows)) = set (map fst rows)"
    by (simp add: fmdom_fmap_of_list fset_of_list.rep_eq)
  have "sorted_list_of_set (set (map fst rows)) = map fst rows"
    using d by (intro sorted_list_of_set.idem_if_sorted_distinct)
  moreover have "List.map_filter (\<lambda>k. map_option (Pair k) (fmlookup (fmap_of_list rows) k)) (map fst rows) = rows"
  proof -
    have "map_option (Pair (fst row)) (fmlookup (fmap_of_list rows) (fst row)) = Some row" if "row \<in> set rows" for row
    proof -
      have "map_of rows (fst row) = Some (snd row)" using that d(2) by (intro map_of_is_SomeI) simp_all
      then show ?thesis by (simp add: fmlookup_of_list)
    qed
    then have "List.map_filter (\<lambda>k. map_option (Pair k) (fmlookup (fmap_of_list rows) k)) (map fst xs) = xs"
      if "set xs \<subseteq> set rows" for xs
      using that by (induction xs) (auto simp: map_filter_simps)
    then show ?thesis by blast
  qed
  ultimately show ?thesis unfolding ordered_rows_def dom by simp
qed

lemma event_rows_sorted:
  assumes "list_all2 (event_row cd) rows es" "map event_cursor es = numbered r"
  shows "sorted_wrt (<) (map fst rows)" and "\<forall>e \<in> set es. ve_ordinal e = 0"
proof -
  have len: "length rows = length es" using assms(1) by (rule list_all2_lengthD)
  have small: "uint (of_nat (Suc i) :: u64) = int (Suc i)" if "i < length es" for i
  proof -
    have "Suc i \<le> unat r" using that numbered_length [OF assms(2)] by simp
    also have "unat r < 2 ^ LENGTH(64)" by (rule unsigned_less)
    finally have "unat (of_nat (Suc i) :: u64) = Suc i" by (simp add: unat_of_nat del: of_nat_Suc)
    then show ?thesis by (metis uint_nat)
  qed
  have key: "fst (rows ! i) = (int (Suc i), 0)" if "i < length es" for i
  proof -
    have "event_row cd (rows ! i) (es ! i)" using assms(1) that len by (simp add: list_all2_conv_all_nth)
    moreover have "ve_revision (es ! i) = of_nat (Suc i)" "ve_ordinal (es ! i) = 0"
      using numbered_nth [OF assms(2) that] by (simp_all add: event_cursor_def del: of_nat_Suc)
    ultimately show ?thesis using small [OF that] by (simp add: event_row_def del: of_nat_Suc)
  qed
  then show "sorted_wrt (<) (map fst rows)"
    by (simp add: sorted_wrt_iff_nth_less len less_prod_def)
  show "\<forall>e \<in> set es. ve_ordinal e = 0"
  proof
    fix e assume "e \<in> set es"
    then obtain i where "i < length es" "e = es ! i" by (auto simp: in_set_conv_nth)
    then show "ve_ordinal e = 0" using numbered_nth [OF assms(2)] by (simp add: event_cursor_def)
  qed
qed

lemma rows_traverse:
  "list_all2 (event_row cd) rows es \<Longrightarrow> traverse (event_of_row cd) rows = Inr es"
  unfolding traverse_Inr_iff
  by (erule list_all2_mono) (simp add: event_row_def event_of_row_def from_json_def)

lemma filter_rows:
  assumes "list_all2 R xs ys" "\<And>x y. R x y \<Longrightarrow> y \<in> set ys \<Longrightarrow> p x = q y"
  shows "list_all2 R (filter p xs) (filter q ys)"
  using assms by (induction rule: list_all2_induct) auto

lemma changes_represents:
  assumes "represents cd db s" "store_ok env s" "unat (cur_revision c) < 2 ^ 63"
  shows "sq_changes_since cd (Some c) limit db = mem_changes_since (Some c) limit s"
proof -
  from assms(1) obtain rows where rows: "db_outbox db = fmap_of_list rows"
    "list_all2 (event_row cd) rows (ms_events s)" by (auto simp: represents_def)
  have num: "map event_cursor (ms_events s) = numbered (ms_revision s)"
    using assms(2) by (simp add: store_ok_def history_recorded_def)
  note sorted = event_rows_sorted [OF rows(2) num]
  let ?p = "\<lambda>row. fst (fst row) > uint (cur_revision c)
      \<or> (fst (fst row) = uint (cur_revision c) \<and> snd (fst row) > uint (cur_ordinal c))"
  have "list_all2 (event_row cd) (filter ?p rows) (filter (\<lambda>e. event_cursor e > c) (ms_events s))"
  proof (rule filter_rows [OF rows(2)])
    fix row e assume "event_row cd row e" "e \<in> set (ms_events s)"
    then show "?p row = (event_cursor e > c)"
      by (simp add: event_row_def event_cursor_def less_control_event_cursor_def word_less_def
          word_uint_eq_iff eq_commute)
  qed
  then have "list_all2 (event_row cd) (take (unat limit) (filter ?p rows))
      (take (unat limit) (filter (\<lambda>e. event_cursor e > c) (ms_events s)))"
    by (rule list_all2_takeI)
  from rows_traverse [OF this] assms(3) show ?thesis
    unfolding sq_changes_since_def mem_changes_since_def rows(1) ordered_rows_list [OF sorted(1)]
    by (simp add: to_i64_def Let_def)
qed

section \<open>Writing\<close>

lemma insert_revision_D:
  assumes "insert_revision cd r sn now db = Inr db'" "codec_ok cd"
  shows "\<exists>body. db' = db\<lparr>db_revisions := fmupd (uint r) (body, uint now) (db_revisions db)\<rparr>
    \<and> un_snapshot cd body = Some sn \<and> unat r < 2 ^ 63"
proof -
  from assms(2) have "reads_back (js_snapshot cd) (un_snapshot cd)" by (simp add: codec_ok_def)
  with assms(1) show ?thesis
    unfolding insert_revision_def and_then_Inr_iff
    by (auto dest!: to_i64_D insert_row_D dest: json_text_D)
qed

lemma insert_event_D:
  assumes "insert_event cd r n changed db = Inr db'" "codec_ok cd"
    and "db_outbox db = fmap_of_list rows" "list_all2 (event_row cd) rows es"
  shows "\<exists>rows'. db' = db\<lparr>db_outbox := fmap_of_list rows'\<rparr>
    \<and> list_all2 (event_row cd) rows' (es @ [\<lparr>ve_revision = r, ve_ordinal = n, ve_changed_resources = changed\<rparr>])"
proof -
  have rb: "reads_back (js_strings cd) (un_strings cd)" using assms(2) by (simp add: codec_ok_def)
  from assms(1) obtain body t where body: "json_text (js_strings cd) changed = Inr body"
    and t: "insert_row (uint r, uint n) body (fmap_of_list rows) = Inr t" and db': "db' = db\<lparr>db_outbox := t\<rparr>"
    unfolding insert_event_def and_then_Inr_iff assms(3) [symmetric] by (auto dest!: to_i64_D)
  from insert_row_list [OF t] db' assms(4) json_text_D [OF body rb] show ?thesis
    by (intro exI [of _ "rows @ [((uint r, uint n), body)]"]) (simp add: list_all2_appendI event_row_def)
qed

lemma insert_audit_D:
  assumes "insert_audit cd r actor request key changed now SQLITE_INSTANCE db = Inr db'" "codec_ok cd"
    and "db_audit db = fmap_of_list rows" "list_all2 (audit_row_of cd) rows rs"
  shows "\<exists>rows'. db' = db\<lparr>db_audit := fmap_of_list rows'\<rparr>
    \<and> list_all2 (audit_row_of cd) rows' (rs @ [\<lparr>ca_revision = r, ca_actor = actor, ca_request = request,
         ca_idempotency_key = key, ca_changed_resources = changed, ca_recorded_at_unix_ms = now,
         ca_applying_instance = x\<rparr>])"
proof -
  have rb: "reads_back (js_strings cd) (un_strings cd)" "reads_back (js_actor cd) (un_actor cd)"
    "reads_back (js_request cd) (un_request cd)" using assms(2) by (simp_all add: codec_ok_def)
  from assms(1) obtain a q c t where body: "json_text (js_actor cd) actor = Inr a"
    "json_text (js_request cd) request = Inr q" "json_text (js_strings cd) changed = Inr c"
    and t: "insert_row (uint r) \<lparr>aw_actor_json = a, aw_request_json = q, aw_idempotency_key = key,
        aw_changed_resources_json = c, aw_recorded_at_unix_ms = uint now,
        aw_applying_instance = SQLITE_INSTANCE\<rparr> (fmap_of_list rows) = Inr t"
    and db': "db' = db\<lparr>db_audit := t\<rparr>"
    unfolding insert_audit_def and_then_Inr_iff assms(3) [symmetric] by (auto dest!: to_i64_D)
  from insert_row_list [OF t] db' assms(4) json_text_D [OF body(1) rb(2)] json_text_D [OF body(2) rb(3)]
    json_text_D [OF body(3) rb(1)]
  show ?thesis
    by (intro exI [of _ "rows @ [(uint r, \<lparr>aw_actor_json = a, aw_request_json = q, aw_idempotency_key = key,
        aw_changed_resources_json = c, aw_recorded_at_unix_ms = uint now,
        aw_applying_instance = SQLITE_INSTANCE\<rparr>)]"]) (simp add: list_all2_appendI audit_row_of_def)
qed

lemma replace_resources_D:
  "replace_current_resources cd sn db = Inr db' \<Longrightarrow>
   \<exists>r b p t. db' = db\<lparr>db_resources := r, db_role_bindings := b, db_path_policies := p, db_tombstones := t\<rparr>"
  unfolding replace_current_resources_def and_then_Inr_iff by auto

lemma insert_idempotency_D:
  assumes "insert_idempotency cd key ch c fp db = Inr db'" "codec_ok cd"
  shows "\<exists>cj mj. db' = db\<lparr>db_idempotency := fmupd key (cj, mj) (db_idempotency db)\<rparr>
    \<and> un_changes cd cj = Some ch \<and> un_stored_commit cd mj = Some (c, Some fp)"
proof -
  have "reads_back (js_changes cd) (un_changes cd)" "reads_back (js_stored_commit cd) (un_stored_commit cd)"
    using assms(2) by (simp_all add: codec_ok_def)
  with assms(1) show ?thesis
    unfolding insert_idempotency_def and_then_Inr_iff
    by (auto dest!: insert_row_D dest: json_text_D)
qed

section \<open>Simulation\<close>

lemma commit_simulated:
  assumes "represents cd db s" "codec_ok cd" "ms_snapshot s = Some sn"
    and "sq_commit cd now r auth ch applied db = Inr (c, db')"
  shows "represents cd db' (snd (mem_commit now r auth ch applied s))"
    and "c = fst (mem_commit now r auth ch applied s)"
proof -
  let ?c = "\<lparr>co_revision = r, co_changed_resources = ac_changed_resources applied, co_replayed = False\<rparr>"
  let ?s = "snd (mem_commit now r auth ch applied s)"
  from assms(4) obtain db1 db2 db3 db5 db6 where
    1: "insert_revision cd r (ac_snapshot applied) now db = Inr db1" and
    2: "update_state r db1 = Inr db2" and
    3: "replace_current_resources cd (ac_snapshot applied) db2 = Inr db3" and
    5: "insert_event cd r 0 (ac_changed_resources applied) (replace_entity_versions (ac_entity_versions applied) db3) = Inr db5" and
    6: "insert_audit cd r (au_principal auth) (au_audit_request auth) (ch_idempotency_key ch)
         (ac_changed_resources applied) now SQLITE_INSTANCE db5 = Inr db6" and
    7: "(case ch_idempotency_key ch of None \<Rightarrow> Inr db6
         | Some key \<Rightarrow> insert_idempotency cd key ch ?c (au_request_fingerprint auth) db6) = Inr db'" and
    c: "c = ?c"
    unfolding sq_commit_def Let_def and_then_Inr_iff by auto
  from assms(1) obtain orows arows where
    o0: "db_outbox db = fmap_of_list orows" "list_all2 (event_row cd) orows (ms_events s)" and
    a0: "db_audit db = fmap_of_list arows" "list_all2 (audit_row_of cd) arows (ms_audit s)" and
    st: "db_state db = Some (uint (ms_revision s))" and
    ks: "\<forall>key. key_row cd (fmlookup (ms_idempotency s) key) (fmlookup (db_idempotency db) key)"
    using assms(3) by (auto simp: represents_def state_row_def)
  from insert_revision_D [OF 1 assms(2)] obtain body where
    d1: "db1 = db\<lparr>db_revisions := fmupd (uint r) (body, uint now) (db_revisions db)\<rparr>"
    and b: "un_snapshot cd body = Some (ac_snapshot applied)" "unat r < 2 ^ 63" by blast
  from 2 st d1 have d2: "db2 = db1\<lparr>db_state := Some (uint r)\<rparr>"
    by (auto simp: update_state_def and_then_Inr_iff dest!: to_i64_D)
  from replace_resources_D [OF 3] obtain x1 x2 x3 x4 where
    d3: "db3 = db2\<lparr>db_resources := x1, db_role_bindings := x2, db_path_policies := x3, db_tombstones := x4\<rparr>"
    by blast
  let ?db4 = "replace_entity_versions (ac_entity_versions applied) db3"
  have "db_outbox ?db4 = fmap_of_list orows" by (simp add: replace_entity_versions_def d3 d2 d1 o0)
  from insert_event_D [OF 5 assms(2) this o0(2)] obtain orows' where
    d5: "db5 = ?db4\<lparr>db_outbox := fmap_of_list orows'\<rparr>" "list_all2 (event_row cd) orows' (ms_events ?s)"
    by (auto simp: mem_commit_def Let_def)
  have "db_audit db5 = fmap_of_list arows" by (simp add: replace_entity_versions_def d5 d3 d2 d1 a0)
  from insert_audit_D [OF 6 assms(2) this a0(2), of IN_MEMORY_INSTANCE] obtain arows' where
    d6: "db6 = db5\<lparr>db_audit := fmap_of_list arows'\<rparr>" "list_all2 (audit_row_of cd) arows' (ms_audit ?s)"
    by (auto simp: mem_commit_def Let_def)
  have same: "db_state db6 = Some (uint r)" "db_entity_versions db6 = ac_entity_versions applied"
    "fmlookup (db_revisions db6) (uint r) = Some (body, uint now)"
    "db_outbox db6 = fmap_of_list orows'" "db_audit db6 = fmap_of_list arows'" "db_idempotency db6 = db_idempotency db"
    by (simp_all add: d6 d5 d3 d2 d1 replace_entity_versions_def)
  have keys: "(\<forall>key. key_row cd (fmlookup (ms_idempotency ?s) key) (fmlookup (db_idempotency db') key))
      \<and> db_state db' = db_state db6 \<and> db_entity_versions db' = db_entity_versions db6
      \<and> db_revisions db' = db_revisions db6 \<and> db_outbox db' = db_outbox db6 \<and> db_audit db' = db_audit db6"
  proof (cases "ch_idempotency_key ch")
    case None
    with 7 ks same show ?thesis by (simp add: mem_commit_def Let_def)
  next
    case (Some key)
    with 7 insert_idempotency_D [of cd key ch ?c "au_request_fingerprint auth" db6 db'] assms(2) obtain cj mj where
      "db' = db6\<lparr>db_idempotency := fmupd key (cj, mj) (db_idempotency db6)\<rparr>" "un_changes cd cj = Some ch"
      "un_stored_commit cd mj = Some (?c, Some (au_request_fingerprint auth))" by auto
    with Some ks same show ?thesis by (auto simp: mem_commit_def Let_def key_row_def)
  qed
  have m: "ms_snapshot ?s = Some (ac_snapshot applied)" "ms_revision ?s = r"
    "ms_entity_versions ?s = ac_entity_versions applied"
    by (simp_all add: mem_commit_def Let_def)
  show "represents cd db' ?s"
    unfolding represents_def state_row_def m using keys same b d5(2) d6(2) by auto
  show "c = fst (mem_commit now r auth ch applied s)" by (simp add: c mem_commit_def Let_def)
qed

lemma bootstrap_simulated:
  assumes "represents cd db s" "codec_ok cd" "store_ok env s"
    and "sq_bootstrap env cd now seed actor mode db = Inr (out, db')"
  obtains t where "mem_bootstrap env now seed actor mode s = Inr (out, t)" "represents cd db' t"
proof (cases "ms_snapshot s")
  case (Some sn)
  with assms(4) current_revision_represents [OF assms(1)] have "out = AlreadyInitialized (ms_revision s)" "db' = db"
    by (auto simp: sq_bootstrap_def mem_current_revision_def)
  with Some assms(1) that show ?thesis by (simp add: mem_bootstrap_def)
next
  case None
  then have cur: "sq_current_revision db = Inr None"
    using current_revision_represents [OF assms(1)] by (simp add: mem_current_revision_def)
  have s: "s = empty_store" using assms(3) None by (simp add: store_ok_def)
  from assms(4) cur obtain db1 db2 db3 db4 where
    v: "snapshot_validate env seed = Inr ()" "validate_actor actor = Inr ()"
      "validate_control_bootstrap_seed seed mode = Inr ()" and
    1: "insert_revision cd 1 seed now db = Inr db1" and
    2: "insert_state 1 db1 = Inr db2" and
    3: "replace_current_resources cd seed db2 = Inr db3" and
    4: "insert_event cd 1 0 [''snapshot''] db3 = Inr db4" and
    5: "insert_audit cd 1 actor bootstrap_request None [''snapshot''] now SQLITE_INSTANCE db4 = Inr db'" and
    out: "out = Bootstrapped 1"
    unfolding sq_bootstrap_def by (auto simp: and_then_Inr_iff)
  from assms(1) have o0: "db_outbox db = fmap_of_list []" and a0: "db_audit db = fmap_of_list []"
    and ev: "db_entity_versions db = fmempty"
    by (auto simp: represents_def s empty_store_def)
  have kr: "key_row cd None (fmlookup (db_idempotency db) key)" for key
    using assms(1) by (simp add: represents_def s empty_store_def)
  have "fmlookup (db_idempotency db) key = None" for key
    using kr [of key] by (cases "fmlookup (db_idempotency db) key") (simp_all add: key_row_def)
  then have ks: "\<forall>key. fmlookup (db_idempotency db) key = None" by blast
  from insert_revision_D [OF 1 assms(2)] obtain body where
    d1: "db1 = db\<lparr>db_revisions := fmupd 1 (body, uint now) (db_revisions db)\<rparr>"
    and b: "un_snapshot cd body = Some seed" by auto
  from 2 have d2: "db2 = db1\<lparr>db_state := Some 1\<rparr>"
    by (auto simp: insert_state_def and_then_Inr_iff dest!: to_i64_D split: option.splits)
  from replace_resources_D [OF 3] obtain x1 x2 x3 x4 where
    d3: "db3 = db2\<lparr>db_resources := x1, db_role_bindings := x2, db_path_policies := x3, db_tombstones := x4\<rparr>"
    by blast
  have "db_outbox db3 = fmap_of_list []" by (simp add: d3 d2 d1 o0)
  from insert_event_D [OF 4 assms(2) this list.rel_intros(1)] obtain orows where
    d4: "db4 = db3\<lparr>db_outbox := fmap_of_list orows\<rparr>"
      "list_all2 (event_row cd) orows [\<lparr>ve_revision = 1, ve_ordinal = 0, ve_changed_resources = [''snapshot'']\<rparr>]"
    by auto
  have "db_audit db4 = fmap_of_list []" by (simp add: d4 d3 d2 d1 a0)
  from insert_audit_D [OF 5 assms(2) this list.rel_intros(1), of IN_MEMORY_INSTANCE] obtain arows where
    d5: "db' = db4\<lparr>db_audit := fmap_of_list arows\<rparr>"
      "list_all2 (audit_row_of cd) arows [\<lparr>ca_revision = 1, ca_actor = actor, ca_request = bootstrap_request,
         ca_idempotency_key = None, ca_changed_resources = [''snapshot''], ca_recorded_at_unix_ms = now,
         ca_applying_instance = IN_MEMORY_INSTANCE\<rparr>]"
    by auto
  let ?t = "empty_store\<lparr>ms_revision := 1, ms_snapshot := Some seed,
      ms_events := [\<lparr>ve_revision = 1, ve_ordinal = 0, ve_changed_resources = [''snapshot'']\<rparr>],
      ms_audit := [\<lparr>ca_revision = 1, ca_actor = actor, ca_request = bootstrap_request,
         ca_idempotency_key = None, ca_changed_resources = [''snapshot''], ca_recorded_at_unix_ms = now,
         ca_applying_instance = IN_MEMORY_INSTANCE\<rparr>]\<rparr>"
  have "mem_bootstrap env now seed actor mode s = Inr (out, ?t)"
    using v by (simp add: s out mem_bootstrap_def empty_store_def)
  moreover have "represents cd db' ?t"
    using b d4(2) d5(2) ev ks
    by (auto simp: represents_def state_row_def d5(1) d4(1) d3 d2 d1 empty_store_def key_row_def)
  ultimately show ?thesis by (rule that)
qed

lemma transact_simulated:
  assumes "represents cd db s" "codec_ok cd" "store_ok env s"
    and "sq_transact env cd now auth ch db = Inr (c, db')"
  obtains t where "mem_transact env now auth ch s = Inr (c, t)" "represents cd db' t"
proof -
  from assms(4) have v: "validate_actor (au_principal auth) = Inr ()" "validate_request (au_audit_request auth) = Inr ()"
    "change_set_validate ch = Inr ()" "validate_intent auth ch = Inr ()"
    unfolding sq_transact_def and_then_Inr_iff by auto
  note idem = idempotency_represents [OF assms(1)]
  show ?thesis
  proof (cases "mem_replay s auth ch")
    case (Some answer)
    then obtain key ch' c' fp where k: "ch_idempotency_key ch = Some key"
      "fmlookup (ms_idempotency s) key = Some (ch', c', fp)"
      by (auto simp: mem_replay_def split: option.splits)
    with assms(4) v have "ch' = ch" "fp = au_request_fingerprint auth" "c = c'\<lparr>co_replayed := True\<rparr>" "db' = db"
      by (auto simp: sq_transact_def idem Let_def split: if_splits)
    with k v that [of s] assms(1) show ?thesis by (simp add: mem_transact_def mem_replay_def)
  next
    case None
    then have rec: "(case ch_idempotency_key ch of None \<Rightarrow> Inr None | Some key \<Rightarrow> load_idempotency cd key db) = Inr None"
      by (auto simp: mem_replay_def idem split: option.splits)
    from assms(4) obtain w applied where w: "sq_load_snapshot env cd db = Inr w"
      "vc_revision w = au_snapshot_revision auth" "au_snapshot_revision auth \<noteq> -1" "\<not> au_replay_only auth"
      "apply_control_changes env (vc_snapshot w) (vc_entity_versions w) (au_snapshot_revision auth + 1) auth ch
        = Inr applied"
      "sq_commit cd now (au_snapshot_revision auth + 1) auth ch applied db = Inr (c, db')"
      unfolding sq_transact_def by (auto simp: v rec and_then_Inr_iff ensure_Inr_iff split: if_splits)
    from w(1) load_represents [OF assms(1,3)] obtain sn where sn: "ms_snapshot s = Some sn" "vc_snapshot w = sn"
      "vc_revision w = ms_revision s" "vc_entity_versions w = ms_entity_versions s"
      by (auto simp: mem_load_snapshot_def versioned_new_def and_then_Inr_iff ok_or_Inr_iff)
    have r: "ms_revision s = au_snapshot_revision auth" using w(2) sn(3) by simp
    note sim = commit_simulated [OF assms(1,2) sn(1) w(6)]
    have "mem_transact env now auth ch s
        = Inr (mem_commit now (au_snapshot_revision auth + 1) auth ch applied s)"
      using v None w(3,4,5) sn by (simp add: mem_transact_def r)
    then show ?thesis
      using that [of "snd (mem_commit now (au_snapshot_revision auth + 1) auth ch applied s)"] sim by simp
  qed
qed

section \<open>Errors\<close>

fun driver_error :: "core_error \<Rightarrow> bool" where
  "driver_error (Storage _) = True"
| "driver_error (Corrupt _) = True"
| "driver_error _ = False"

definition driver_only :: "core_error + 'a \<Rightarrow> bool" where
  "driver_only x \<longleftrightarrow> (\<forall>e. x = Inl e \<longrightarrow> driver_error e)"

named_theorems driver_intros "computations that only fail in the driver"

lemma driver_only_Inr [driver_intros]: "driver_only (Inr a)"
  by (simp add: driver_only_def)

lemma driver_only_and_then [driver_intros]:
  "driver_only x \<Longrightarrow> (\<And>a. driver_only (f a)) \<Longrightarrow> driver_only (and_then x f)"
  by (cases x) (auto simp: driver_only_def)

lemma driver_only_fold [driver_intros]:
  "(\<And>x t. x \<in> set xs \<Longrightarrow> driver_only (f x t)) \<Longrightarrow> driver_only (fold_each f xs t)"
  by (induction xs arbitrary: t) (auto intro: driver_intros)

lemma driver_only_basic [driver_intros]:
  "driver_only (to_i64 v)" "driver_only (json_text js a)" "driver_only (insert_row k r t)"
  "driver_only (check_row b)" "driver_only (ok_or x (Storage m))"
  by (auto simp: driver_only_def to_i64_def json_text_def insert_row_def check_row_def ensure_def ok_or_def
      split: option.splits if_splits)

lemma driver_only_writes [driver_intros]:
  "driver_only (insert_revision cd r sn now db)" "driver_only (insert_state r db)"
  "driver_only (update_state r db)" "driver_only (insert_event cd r n changed db)"
  "driver_only (insert_audit cd r actor request key changed now i db)"
  "driver_only (insert_resource k kind t table)" "driver_only (insert_idempotency cd k ch c fp db)"
proof -
  have "driver_only (case db_state db of Some x \<Rightarrow> Inl (Storage ''UNIQUE constraint failed'')
      | None \<Rightarrow> Inr (db\<lparr>db_state := Some v\<rparr>))" for v
    by (simp add: driver_only_def split: option.split)
  then show "driver_only (insert_state r db)" unfolding insert_state_def by (intro driver_intros)
qed (unfold insert_revision_def update_state_def insert_event_def insert_audit_def insert_resource_def
    insert_idempotency_def, (intro driver_intros)+)

lemma driver_only_replace:
  assumes "well_formed_config (sn_config sn)"
  shows "driver_only (replace_current_resources cd sn db)"
proof -
  have "driver_only (catalog_of_collection (sn_config sn) k)" if "k \<in> set (cfg_collections (sn_config sn))" for k
  proof -
    have "cl_catalog k \<in> ct_id ` set (cfg_catalogs (sn_config sn))"
      using assms that by (simp add: well_formed_config_def collections_ok_def)
    then obtain c where "find_catalog (sn_config sn) (cl_catalog k) = Some c"
      using find_catalog_iff [OF assms] by fastforce
    then show ?thesis by (simp add: catalog_of_collection_def driver_only_def)
  qed
  then show ?thesis
    unfolding replace_current_resources_def insert_config_resources_def by (intro driver_intros)
qed

lemma driver_only_commit:
  assumes "well_formed_config (sn_config (ac_snapshot applied))"
  shows "driver_only (sq_commit cd now r auth ch applied db)"
proof -
  have "driver_only (case ch_idempotency_key ch of None \<Rightarrow> Inr db6
      | Some key \<Rightarrow> insert_idempotency cd key ch c fp db6)" for db6 c fp
    by (cases "ch_idempotency_key ch") (auto intro: driver_intros)
  then show ?thesis
    unfolding sq_commit_def Let_def by (intro driver_intros driver_only_replace [OF assms])
qed

lemma and_then_error:
  "and_then x f = Inl e \<Longrightarrow> (\<And>a. f a = Inl e \<Longrightarrow> P \<or> g a = Inl e) \<Longrightarrow> P \<or> and_then x g = Inl e"
  by (cases x) auto

lemma transact_error:
  assumes "represents cd db s" "store_ok env s" "sq_transact env cd now auth ch db = Inl e"
  shows "driver_error e \<or> mem_transact env now auth ch s = Inl e"
  using assms(3) unfolding sq_transact_def mem_transact_def
proof (elim and_then_error)
  note idem = idempotency_represents [OF assms(1)]
  let ?rest = "\<lambda>a. case a of
       Some (recorded_changes, recorded_commit, request_fingerprint) \<Rightarrow>
         (let key = (case ch_idempotency_key ch of Some key \<Rightarrow> key | None \<Rightarrow> []) in
          if recorded_changes \<noteq> ch then Inl (ControlIdempotencyConflict key)
          else if request_fingerprint \<noteq> Some (au_request_fingerprint auth)
          then Inl (ControlIdempotencyAuthorizationConflict key)
          else Inr (recorded_commit\<lparr>co_replayed := True\<rparr>, db))
     | None \<Rightarrow>
         if au_replay_only auth
         then Inl (ControlIdempotencyAuthorizationConflict
                (case ch_idempotency_key ch of Some key \<Rightarrow> key | None \<Rightarrow> []))
         else
           and_then (sq_load_snapshot env cd db) (\<lambda>versioned.
           and_then (ensure (vc_revision versioned = au_snapshot_revision auth)
             (ControlRevisionConflict (au_snapshot_revision auth) (vc_revision versioned))) (\<lambda>_.
           and_then (ensure (au_snapshot_revision auth \<noteq> -1)
             (ControlValidation (Refused ''control revision overflow''))) (\<lambda>_.
           and_then (apply_control_changes env (vc_snapshot versioned) (vc_entity_versions versioned)
             (au_snapshot_revision auth + 1) auth ch) (\<lambda>applied.
           sq_commit cd now (au_snapshot_revision auth + 1) auth ch applied db))))"
  assume e: "and_then (case ch_idempotency_key ch of None \<Rightarrow> Inr None | Some key \<Rightarrow> load_idempotency cd key db)
      ?rest = Inl e"
  show "driver_error e \<or> (case mem_replay s auth ch of
       Some answer \<Rightarrow> and_then answer (\<lambda>commit. Inr (commit, s))
     | None \<Rightarrow>
         if au_replay_only auth
         then Inl (ControlIdempotencyAuthorizationConflict
                (case ch_idempotency_key ch of Some key \<Rightarrow> key | None \<Rightarrow> []))
         else
           and_then (ok_or (ms_snapshot s) ControlUninitialized) (\<lambda>current.
           and_then (ensure (au_snapshot_revision auth = ms_revision s)
             (ControlRevisionConflict (au_snapshot_revision auth) (ms_revision s))) (\<lambda>_.
           and_then (ensure (ms_revision s \<noteq> -1)
             (ControlValidation (Refused ''control revision overflow''))) (\<lambda>_.
           and_then (apply_control_changes env current (ms_entity_versions s) (ms_revision s + 1)
             auth ch) (\<lambda>applied.
           Inr (mem_commit now (ms_revision s + 1) auth ch applied s)))))) = Inl e"
  proof (cases "mem_replay s auth ch")
    case (Some answer)
    then obtain key ch' c' fp where k: "ch_idempotency_key ch = Some key"
      "fmlookup (ms_idempotency s) key = Some (ch', c', fp)"
      by (auto simp: mem_replay_def split: option.splits)
    with e show ?thesis by (auto simp: mem_replay_def idem Let_def split: if_splits)
  next
    case None
    then have rec: "(case ch_idempotency_key ch of None \<Rightarrow> Inr None | Some key \<Rightarrow> load_idempotency cd key db) = Inr None"
      by (auto simp: mem_replay_def idem split: option.splits)
    show ?thesis
    proof (cases "ms_snapshot s")
      case None
      with e rec \<open>mem_replay s auth ch = None\<close> load_represents [OF assms(1,2)] show ?thesis
        by (auto simp: mem_load_snapshot_def split: if_splits)
    next
      case (Some sn)
      have valid: "snapshot_validate env sn = Inr ()" using assms(2) Some by (simp add: store_ok_def)
      from snapshot_validated_total [OF valid] obtain view where "snapshot_validated env sn = Inr view" by blast
      then obtain w where w: "sq_load_snapshot env cd db = Inr w" "vc_snapshot w = sn"
        "vc_revision w = ms_revision s" "vc_entity_versions w = ms_entity_versions s"
        using Some load_represents [OF assms(1,2)] by (simp add: mem_load_snapshot_def versioned_new_def)
      have commit: "driver_error e" if "apply_control_changes env sn (ms_entity_versions s) (ms_revision s + 1) auth ch
          = Inr applied" "sq_commit cd now (ms_revision s + 1) auth ch applied db = Inl e" for applied
      proof -
        have "snapshot_validate env (ac_snapshot applied) = Inr ()"
          using that(1) by (rule apply_control_changes_D) simp
        then have "well_formed_config (sn_config (ac_snapshot applied))"
          using accepted_config_well_formed by (auto simp: snapshot_validate_iff)
        from driver_only_commit [OF this] that(2) show ?thesis by (auto simp: driver_only_def)
      qed
      show ?thesis
      proof (cases "ms_revision s = au_snapshot_revision auth")
        case False
        with e rec w Some \<open>mem_replay s auth ch = None\<close> show ?thesis by (auto split: if_splits)
      next
        case True
        with e rec w Some \<open>mem_replay s auth ch = None\<close> commit show ?thesis
          by (cases "apply_control_changes env sn (ms_entity_versions s) (au_snapshot_revision auth + 1) auth ch")
            (auto simp: ensure_def split: if_splits)
      qed
    qed
  qed
qed

section \<open>The database as a state machine\<close>

inductive sq_step :: "'x config_env \<Rightarrow> 'x sqlite_codec \<Rightarrow> sqlite_db \<Rightarrow> sqlite_db \<Rightarrow> bool" for env cd where
  Sq_Bootstrap: "sq_bootstrap env cd now seed actor mode db = Inr (out, db') \<Longrightarrow> sq_step env cd db db'"
| Sq_Transact: "sq_transact env cd now auth changes db = Inr (c, db') \<Longrightarrow> sq_step env cd db db'"

inductive_cases sq_stepE: "sq_step env cd db db'"

definition sq_good :: "'x config_env \<Rightarrow> 'x sqlite_codec \<Rightarrow> sqlite_db \<Rightarrow> bool" where
  "sq_good env cd db \<longleftrightarrow> codec_ok cd \<and> (\<exists>s. represents cd db s \<and> store_ok env s)"

lemma step_simulated:
  assumes "sq_step env cd db db'" "codec_ok cd" "represents cd db s" "store_ok env s"
  obtains t where "mem_step env s t" "represents cd db' t"
  using assms(1)
proof (rule sq_stepE)
  fix now seed actor mode out assume "sq_bootstrap env cd now seed actor mode db = Inr (out, db')"
  from bootstrap_simulated [OF assms(3,2,4) this] Bootstrap_Step that show ?thesis by metis
next
  fix now auth ch c assume "sq_transact env cd now auth ch db = Inr (c, db')"
  from transact_simulated [OF assms(3,2,4) this] Transact_Step that show ?thesis by metis
qed

lemma steps_simulated:
  assumes "(sq_step env cd)\<^sup>*\<^sup>* db db'" "codec_ok cd" "represents cd db s" "store_ok env s"
  shows "\<exists>t. (mem_step env)\<^sup>*\<^sup>* s t \<and> represents cd db' t \<and> store_ok env t"
  using assms(1)
proof (induction rule: rtranclp_induct)
  case base
  from assms(3,4) show ?case by blast
next
  case (step db1 db2)
  then obtain t where t: "(mem_step env)\<^sup>*\<^sup>* s t" "represents cd db1 t" "store_ok env t" by blast
  obtain u where u: "mem_step env t u" "represents cd db2 u"
    by (rule step_simulated [OF step.hyps(2) assms(2) t(2,3)])
  from t(1) u(1) have "(mem_step env)\<^sup>*\<^sup>* s u" by (rule rtranclp.rtrancl_into_rtrancl)
  with u(2) step_ok [OF u(1) t(3)] show ?case by blast
qed

lemma migrated_good: "codec_ok cd \<Longrightarrow> sq_good env cd migrated_db"
  unfolding sq_good_def by (intro conjI exI [of _ empty_store] migrated_represents empty_ok)

section \<open>The feed of the SQLite store\<close>

definition sq_revision :: "sqlite_db \<Rightarrow> u64 option" where
  "sq_revision db = (case sq_current_revision db of Inr r \<Rightarrow> r | Inl _ \<Rightarrow> None)"

definition sq_feed :: "'x sqlite_codec \<Rightarrow> sqlite_db \<Rightarrow> control_event list" where
  "sq_feed cd db = (case traverse (event_of_row cd) (ordered_rows (db_outbox db)) of Inr es \<Rightarrow> es | Inl _ \<Rightarrow> [])"

lemma sq_revision_represents: "represents cd db s \<Longrightarrow> sq_revision db = mem_current_revision s"
  by (simp add: sq_revision_def current_revision_represents)

lemma sq_feed_represents:
  assumes "represents cd db s" "store_ok env s"
  shows "sq_feed cd db = ms_events s"
proof -
  from assms(1) obtain rows where rows: "db_outbox db = fmap_of_list rows"
    "list_all2 (event_row cd) rows (ms_events s)" by (auto simp: represents_def)
  have "map event_cursor (ms_events s) = numbered (ms_revision s)"
    using assms(2) by (simp add: store_ok_def history_recorded_def)
  from ordered_rows_list [OF event_rows_sorted(1) [OF rows(2) this]] rows_traverse [OF rows(2)] rows(1)
  show ?thesis by (simp add: sq_feed_def)
qed

interpretation sqlite: control_feed "sq_good env cd" "(sq_step env cd)\<^sup>*\<^sup>*" sq_revision "sq_feed cd" "sq_changes_since cd"
proof
  fix db db' assume good: "sq_good env cd db" and st: "(sq_step env cd)\<^sup>*\<^sup>* db db'"
  from good obtain s where s: "codec_ok cd" "represents cd db s" "store_ok env s" by (auto simp: sq_good_def)
  from steps_simulated [OF st s] obtain t where
    t: "(mem_step env)\<^sup>*\<^sup>* s t" "represents cd db' t" "store_ok env t" by blast
  show "sq_good env cd db'" using t(2,3) s(1) by (auto simp: sq_good_def)
  show "\<exists>es. sq_feed cd db' = sq_feed cd db @ es"
    unfolding sq_feed_represents [OF t(2,3)] sq_feed_represents [OF s(2,3)] by (rule mem.moves_feed [OF s(3) t(1)])
  show "\<exists>q. sq_revision db' = Some q \<and> r \<le> q" if "sq_revision db = Some r" for r
    using that mem.moves_revision [OF s(3) t(1)]
    unfolding sq_revision_represents [OF s(2)] sq_revision_represents [OF t(2)] by blast
next
  fix db r assume good: "sq_good env cd db" and r: "sq_revision db = Some r"
  from good obtain s where s: "represents cd db s" "store_ok env s" by (auto simp: sq_good_def)
  show "map event_cursor (sq_feed cd db) = numbered r"
    unfolding sq_feed_represents [OF s] using mem.feed_numbered [OF s(2)] r
    by (simp add: sq_revision_represents [OF s(1)])
  fix c limit assume c: "cur_revision c \<le> r" "(limit :: u32) \<noteq> 0"
  have "unat (ms_revision s) < 2 ^ 63" "ms_revision s = r"
    using s(1) r by (auto simp: sq_revision_represents [OF s(1)] mem_current_revision_def represents_def state_row_def)
  with c(1) have "unat (cur_revision c) < 2 ^ 63" by (simp add: word_le_nat_alt)
  from changes_represents [OF s this] mem_page [OF c(2)]
  show "sq_changes_since cd (Some c) limit db
      = Inr (take (unat limit) (filter (\<lambda>e. c < event_cursor e) (sq_feed cd db)))"
    unfolding sq_feed_represents [OF s] by simp
qed

end
