(* ===== verification/Confinement.thy ===== *)
theory Confinement
  imports Apply_Facts
begin

text \<open>
  The result of an authorized mutation differs from the snapshot it was authorized against only
  inside the authorized scope: every tenant, catalog, collection, role binding, policy and tombstone
  of another scope is what it was, none is added, and nothing else of the document changes unless
  the scope is the platform. The invariant of the loop over the operations is stated on the
  candidate snapshot; a collection is followed by its identifier, because its scope changes when
  its catalog moves.
\<close>

section \<open>What lies outside a scope\<close>

definition tenant_out :: "control_scope \<Rightarrow> 'x tenant_decl \<Rightarrow> bool" where
  "tenant_out S t = (\<not> scope_contains S (Tenant (tn_id t)))"

definition catalog_out :: "control_scope \<Rightarrow> 'x catalog_decl \<Rightarrow> bool" where
  "catalog_out S c = (\<not> scope_contains S (Catalog (ct_tenant c) (ct_id c)))"

definition collection_out :: "control_scope \<Rightarrow> 'x app_config \<Rightarrow> 'x collection_decl \<Rightarrow> bool" where
  "collection_out S cfg k =
     (case find_catalog cfg (cl_catalog k) of
        None \<Rightarrow> True
      | Some c \<Rightarrow> \<not> scope_contains S (Collection (ct_tenant c) (ct_id c) (cl_id k)))"

definition binding_out :: "control_scope \<Rightarrow> role_binding \<Rightarrow> bool" where
  "binding_out S b = (\<not> scope_contains S (rb_scope b))"

definition policy_out :: "control_scope \<Rightarrow> 'x path_policy \<Rightarrow> bool" where
  "policy_out S p = (\<not> scope_contains S (case pp_scope p of Some s \<Rightarrow> s | None \<Rightarrow> Platform))"

definition without_resources :: "'x app_config \<Rightarrow> 'x app_config" where
  "without_resources cfg = cfg\<lparr>cfg_tenants := [], cfg_catalogs := [], cfg_collections := []\<rparr>"

definition same_outside :: "control_scope \<Rightarrow> 'x control_snapshot \<Rightarrow> 'x control_snapshot \<Rightarrow> bool" where
  "same_outside S a b \<longleftrightarrow>
     filter (tenant_out S) (cfg_tenants (sn_config b)) = filter (tenant_out S) (cfg_tenants (sn_config a))
     \<and> filter (catalog_out S) (cfg_catalogs (sn_config b)) = filter (catalog_out S) (cfg_catalogs (sn_config a))
     \<and> filter (collection_out S (sn_config b)) (cfg_collections (sn_config b))
         = filter (collection_out S (sn_config a)) (cfg_collections (sn_config a))
     \<and> filter (binding_out S) (sn_bindings b) = filter (binding_out S) (sn_bindings a)
     \<and> filter (policy_out S) (sn_policies b) = filter (policy_out S) (sn_policies a)
     \<and> filter (\<lambda>t. \<not> scope_contains S t) (sn_tombstones b)
         = filter (\<lambda>t. \<not> scope_contains S t) (sn_tombstones a)
     \<and> (S \<noteq> Platform \<longrightarrow> without_resources (sn_config b) = without_resources (sn_config a))"

section \<open>Filtered lists under updates\<close>

lemma filter_list_update:
  "\<not> P x \<Longrightarrow> i < length xs \<Longrightarrow> \<not> P (xs ! i) \<Longrightarrow> filter P (xs[i := x]) = filter P xs"
  by (induction xs arbitrary: i) (auto split: nat.splits)

lemma filter_upsert:
  assumes "\<not> P x" "\<forall>y \<in> set xs. key y = key x \<longrightarrow> \<not> P y"
  shows "filter P (upsert_by_id key x xs) = filter P xs"
  using assms position_Some_D [of "\<lambda>y. key y = key x" xs]
  by (auto simp: upsert_by_id_def filter_list_update split: option.splits)

lemma map_upsert:
  "map key (upsert_by_id key x xs) = (if key x \<in> key ` set xs then map key xs else map key xs @ [key x])"
proof (cases "position (\<lambda>y. key y = key x) xs")
  case None
  then have "\<forall>y \<in> set xs. key y \<noteq> key x" by (simp add: position_None_iff)
  with None show ?thesis by (auto simp: upsert_by_id_def)
next
  case (Some i)
  from position_Some_D [OF Some] have "i < length xs" "key (xs ! i) = key x" by auto
  with Some show ?thesis
    by (auto simp: upsert_by_id_def map_update list_update_same_conv image_iff)
      (metis nth_mem)
qed

lemma set_upsert: "y \<in> set (upsert_by_id key x xs) \<Longrightarrow> y = x \<or> y \<in> set xs"
  by (auto simp: upsert_by_id_def split: option.splits dest: subsetD [OF set_update_subset_insert])

lemma distinct_upsert: "distinct (map key xs) \<Longrightarrow> distinct (map key (upsert_by_id key x xs))"
  by (auto simp: map_upsert)

lemma filter_update_first:
  "\<forall>x \<in> set xs. p x \<longrightarrow> \<not> P x \<and> \<not> P (f x) \<Longrightarrow> filter P (update_first p f xs) = filter P xs"
  by (induction xs) auto

lemma map_update_first: "(\<And>x. key (f x) = key x) \<Longrightarrow> map key (update_first p f xs) = map key xs"
  by (induction xs) auto

lemma filter_filter_out: "\<forall>x \<in> set xs. P x \<longrightarrow> q x \<Longrightarrow> filter P (filter q xs) = filter P xs"
  by (induction xs) auto

lemma filter_map_unaffected:
  "\<forall>x \<in> set xs. (P x \<longrightarrow> f x = x) \<and> (\<not> P x \<longrightarrow> \<not> P (f x)) \<Longrightarrow> filter P (map f xs) = filter P xs"
  by (induction xs) auto

lemma filter_retain_first: "filter P (retain_first seen xs) = retain_first seen (filter P xs)"
proof (induction xs arbitrary: seen)
  case (Cons x xs)
  have "retain_first (insert x seen) (filter P xs) = retain_first seen (filter P xs)"
    if "\<not> P x" for seen using that
    by (induction xs arbitrary: seen) (auto simp: insert_commute [of _ x])
  with Cons show ?case by auto
qed simp

lemma filter_retain_distinct:
  "distinct (filter P xs) \<Longrightarrow> filter P (retain_first {} xs) = filter P xs"
  by (simp add: filter_retain_first retain_first_id)

lemma filter_list_all2:
  "list_all2 (\<lambda>x y. (P x \<longrightarrow> y = x) \<and> (\<not> P x \<longrightarrow> \<not> P y)) xs ys \<Longrightarrow> filter P ys = filter P xs"
  by (induction rule: list_all2_induct) auto

lemma mem_filter_eq: "filter P xs = filter P ys \<Longrightarrow> x \<in> set xs \<Longrightarrow> P x \<Longrightarrow> x \<in> set ys"
  using set_filter [of P xs] set_filter [of P ys] by auto

lemma distinct_key: "distinct (map key xs) \<Longrightarrow> x \<in> set xs \<Longrightarrow> y \<in> set xs \<Longrightarrow> key x = key y \<Longrightarrow> x = y"
  by (simp add: distinct_map inj_on_def)

section \<open>The invariant\<close>

text \<open>The identifiers of the collections outside the scope in the authority snapshot.\<close>

definition out_ids :: "control_scope \<Rightarrow> 'x control_snapshot \<Rightarrow> string set" where
  "out_ids S a = cl_id ` {k \<in> set (cfg_collections (sn_config a)). collection_out S (sn_config a) k}"

definition confined :: "control_scope \<Rightarrow> 'x control_snapshot \<Rightarrow> 'x control_snapshot \<Rightarrow> bool" where
  "confined S a b \<longleftrightarrow>
     distinct (map tn_id (cfg_tenants (sn_config b)))
     \<and> distinct (map ct_id (cfg_catalogs (sn_config b)))
     \<and> distinct (map cl_id (cfg_collections (sn_config b)))
     \<and> filter (tenant_out S) (cfg_tenants (sn_config b)) = filter (tenant_out S) (cfg_tenants (sn_config a))
     \<and> filter (catalog_out S) (cfg_catalogs (sn_config b)) = filter (catalog_out S) (cfg_catalogs (sn_config a))
     \<and> filter (\<lambda>k. cl_id k \<in> out_ids S a) (cfg_collections (sn_config b))
         = filter (\<lambda>k. cl_id k \<in> out_ids S a) (cfg_collections (sn_config a))
     \<and> (\<forall>k \<in> set (cfg_collections (sn_config b)). cl_id k \<in> out_ids S a \<or>
          (\<forall>c \<in> set (cfg_catalogs (sn_config a)). catalog_out S c \<and> ct_id c = cl_catalog k \<longrightarrow>
             scope_contains S (Collection (ct_tenant c) (ct_id c) (cl_id k))))
     \<and> filter (binding_out S) (sn_bindings b) = filter (binding_out S) (sn_bindings a)
     \<and> filter (policy_out S) (sn_policies b) = filter (policy_out S) (sn_policies a)
     \<and> filter (\<lambda>t. \<not> scope_contains S t) (sn_tombstones b)
         = filter (\<lambda>t. \<not> scope_contains S t) (sn_tombstones a)
     \<and> without_resources (sn_config b) = without_resources (sn_config a)"

text \<open>What the authority snapshot provides, because it is valid.\<close>

definition base_ok :: "'x control_snapshot \<Rightarrow> bool" where
  "base_ok a \<longleftrightarrow>
     well_formed_config (sn_config a) \<and> distinct (sn_bindings a)
     \<and> distinct (map pp_id (sn_policies a)) \<and> distinct (sn_tombstones a)"

lemma validated_base: "snapshot_validate env a = Inr () \<Longrightarrow> base_ok a"
  by (auto simp: base_ok_def snapshot_validate_iff check_policies_iff check_bindings_iff
      check_tombstones_iff accepted_config_well_formed)

lemma base_distinct:
  assumes "base_ok a"
  shows "distinct (map tn_id (cfg_tenants (sn_config a)))" "distinct (map ct_id (cfg_catalogs (sn_config a)))"
    "distinct (map cl_id (cfg_collections (sn_config a)))"
  using assms by (auto simp: base_ok_def well_formed_config_def tenants_ok_def catalogs_ok_def collections_ok_def)

lemma confined_refl:
  assumes "base_ok a"
  shows "confined S a a"
proof -
  have "scope_contains S (Collection (ct_tenant c) (ct_id c) (cl_id k))"
    if "k \<in> set (cfg_collections (sn_config a))" "cl_id k \<notin> out_ids S a"
      "c \<in> set (cfg_catalogs (sn_config a))" "ct_id c = cl_catalog k" for k c
  proof -
    have "find_catalog (sn_config a) (cl_catalog k) = Some c"
      using that(3,4) assms find_catalog_iff by (auto simp: base_ok_def)
    with that(1,2) show ?thesis by (auto simp: out_ids_def collection_out_def)
  qed
  with base_distinct [OF assms] show ?thesis unfolding confined_def by auto
qed

text \<open>A collection the authority snapshot does not have, or has inside the scope, is not followed.\<close>

lemma not_out_id:
  assumes "base_ok a"
    and "case find_collection (sn_config a) i of None \<Rightarrow> True | Some k \<Rightarrow> \<not> collection_out S (sn_config a) k"
  shows "i \<notin> out_ids S a"
proof
  assume "i \<in> out_ids S a"
  then obtain k where k: "k \<in> set (cfg_collections (sn_config a))" "cl_id k = i"
    "collection_out S (sn_config a) k" by (auto simp: out_ids_def)
  then have "find_collection (sn_config a) i = Some k"
    using find_collection_iff assms(1) by (auto simp: base_ok_def)
  with assms(2) k(3) show False by simp
qed

lemma confined_D:
  assumes "confined S a b"
  shows "distinct (map tn_id (cfg_tenants (sn_config b)))"
    "distinct (map ct_id (cfg_catalogs (sn_config b)))"
    "distinct (map cl_id (cfg_collections (sn_config b)))"
    "filter (tenant_out S) (cfg_tenants (sn_config b)) = filter (tenant_out S) (cfg_tenants (sn_config a))"
    "filter (catalog_out S) (cfg_catalogs (sn_config b)) = filter (catalog_out S) (cfg_catalogs (sn_config a))"
    "filter (binding_out S) (sn_bindings b) = filter (binding_out S) (sn_bindings a)"
    "filter (policy_out S) (sn_policies b) = filter (policy_out S) (sn_policies a)"
    "filter (\<lambda>t. \<not> scope_contains S t) (sn_tombstones b)
       = filter (\<lambda>t. \<not> scope_contains S t) (sn_tombstones a)"
    "filter (\<lambda>k. cl_id k \<in> out_ids S a) (cfg_collections (sn_config b))
       = filter (\<lambda>k. cl_id k \<in> out_ids S a) (cfg_collections (sn_config a))"
    "\<forall>k \<in> set (cfg_collections (sn_config b)). cl_id k \<in> out_ids S a \<or>
          (\<forall>c \<in> set (cfg_catalogs (sn_config a)). catalog_out S c \<and> ct_id c = cl_catalog k \<longrightarrow>
             scope_contains S (Collection (ct_tenant c) (ct_id c) (cl_id k)))"
    "without_resources (sn_config b) = without_resources (sn_config a)"
  using assms unfolding confined_def by blast+

section \<open>One component at a time\<close>

lemma confined_tenants:
  assumes "confined S a b" "distinct (map tn_id ts)"
    and "filter (tenant_out S) ts = filter (tenant_out S) (cfg_tenants (sn_config b))"
  shows "confined S a (map_config (\<lambda>c. c\<lparr>cfg_tenants := ts\<rparr>) b)"
  using confined_D [OF assms(1)] assms(2,3)
  by (simp add: confined_def map_config_def without_resources_def)

lemma confined_catalogs:
  assumes "confined S a b" "distinct (map ct_id cs)"
    and "filter (catalog_out S) cs = filter (catalog_out S) (cfg_catalogs (sn_config b))"
  shows "confined S a (map_config (\<lambda>c. c\<lparr>cfg_catalogs := cs\<rparr>) b)"
  using confined_D [OF assms(1)] assms(2,3)
  by (simp add: confined_def map_config_def without_resources_def)

lemma confined_collections:
  assumes "confined S a b" "distinct (map cl_id ks)"
    and "filter (\<lambda>k. cl_id k \<in> out_ids S a) ks
      = filter (\<lambda>k. cl_id k \<in> out_ids S a) (cfg_collections (sn_config b))"
    and "\<forall>k \<in> set ks. k \<in> set (cfg_collections (sn_config b)) \<or>
      (\<forall>c \<in> set (cfg_catalogs (sn_config a)). catalog_out S c \<and> ct_id c = cl_catalog k \<longrightarrow>
         scope_contains S (Collection (ct_tenant c) (ct_id c) (cl_id k)))"
  shows "confined S a (map_config (\<lambda>c. c\<lparr>cfg_collections := ks\<rparr>) b)"
proof -
  note d = confined_D [OF assms(1)]
  have "\<forall>k \<in> set ks. cl_id k \<in> out_ids S a \<or>
      (\<forall>c \<in> set (cfg_catalogs (sn_config a)). catalog_out S c \<and> ct_id c = cl_catalog k \<longrightarrow>
         scope_contains S (Collection (ct_tenant c) (ct_id c) (cl_id k)))"
    using assms(4) d(10) by blast
  with d assms(2,3) show ?thesis
    by (simp add: confined_def map_config_def without_resources_def)
qed

lemma confined_control_state:
  assumes "confined S a b"
    and "filter (binding_out S) bs = filter (binding_out S) (sn_bindings b)"
    and "filter (policy_out S) ps = filter (policy_out S) (sn_policies b)"
    and "filter (\<lambda>t. \<not> scope_contains S t) ts = filter (\<lambda>t. \<not> scope_contains S t) (sn_tombstones b)"
  shows "confined S a (b\<lparr>sn_bindings := bs, sn_policies := ps, sn_tombstones := ts\<rparr>)"
  using confined_D [OF assms(1)] assms(2-) by (simp add: confined_def)

text \<open>What is outside the scope in the candidate is outside it in the authority snapshot, and back.\<close>

lemma outside_same:
  assumes "confined S a b"
  shows "t \<in> set (cfg_tenants (sn_config b)) \<Longrightarrow> tenant_out S t \<Longrightarrow> t \<in> set (cfg_tenants (sn_config a))"
    "c \<in> set (cfg_catalogs (sn_config b)) \<Longrightarrow> catalog_out S c \<Longrightarrow> c \<in> set (cfg_catalogs (sn_config a))"
    "c \<in> set (cfg_catalogs (sn_config a)) \<Longrightarrow> catalog_out S c \<Longrightarrow> c \<in> set (cfg_catalogs (sn_config b))"
    "p \<in> set (sn_policies b) \<Longrightarrow> policy_out S p \<Longrightarrow> p \<in> set (sn_policies a)"
    "k \<in> set (cfg_collections (sn_config b)) \<Longrightarrow> cl_id k \<in> out_ids S a \<Longrightarrow>
       k \<in> set (cfg_collections (sn_config a))"
    "k \<in> set (cfg_collections (sn_config a)) \<Longrightarrow> cl_id k \<in> out_ids S a \<Longrightarrow>
       k \<in> set (cfg_collections (sn_config b))"
proof -
  note d = confined_D [OF assms]
  show "t \<in> set (cfg_tenants (sn_config b)) \<Longrightarrow> tenant_out S t \<Longrightarrow> t \<in> set (cfg_tenants (sn_config a))"
    by (rule mem_filter_eq [OF d(4)])
  show "c \<in> set (cfg_catalogs (sn_config b)) \<Longrightarrow> catalog_out S c \<Longrightarrow> c \<in> set (cfg_catalogs (sn_config a))"
    by (rule mem_filter_eq [OF d(5)])
  show "c \<in> set (cfg_catalogs (sn_config a)) \<Longrightarrow> catalog_out S c \<Longrightarrow> c \<in> set (cfg_catalogs (sn_config b))"
    by (rule mem_filter_eq [OF d(5) [symmetric]])
  show "p \<in> set (sn_policies b) \<Longrightarrow> policy_out S p \<Longrightarrow> p \<in> set (sn_policies a)"
    by (rule mem_filter_eq [OF d(7)])
  show "k \<in> set (cfg_collections (sn_config b)) \<Longrightarrow> cl_id k \<in> out_ids S a \<Longrightarrow>
       k \<in> set (cfg_collections (sn_config a))"
    by (rule mem_filter_eq [OF d(9)])
  show "k \<in> set (cfg_collections (sn_config a)) \<Longrightarrow> cl_id k \<in> out_ids S a \<Longrightarrow>
       k \<in> set (cfg_collections (sn_config b))"
    by (rule mem_filter_eq [OF d(9) [symmetric]])
qed

lemma find_catalog_D: "find_catalog cfg i = Some c \<Longrightarrow> c \<in> set (cfg_catalogs cfg) \<and> ct_id c = i"
  by (auto simp: find_catalog_def dest: find_Some_D)

lemma find_collection_D: "find_collection cfg i = Some k \<Longrightarrow> k \<in> set (cfg_collections cfg) \<and> cl_id k = i"
  by (auto simp: find_collection_def dest: find_Some_D)

lemma find_tenant_D: "find_tenant cfg i = Some t \<Longrightarrow> t \<in> set (cfg_tenants cfg) \<and> tn_id t = i"
  by (auto simp: find_tenant_def dest: find_Some_D)

section \<open>Tenants and catalogs\<close>

lemma put_tenant_confined:
  assumes "confined S a b" "S \<noteq> Platform"
    and "scope_contains S (case find_tenant (sn_config a) (tn_id d) of None \<Rightarrow> Platform | Some t \<Rightarrow> Tenant (tn_id t))"
  shows "confined S a (map_config (\<lambda>c. c\<lparr>cfg_tenants := upsert_by_id tn_id d (cfg_tenants c)\<rparr>) b)"
proof -
  obtain t where "find_tenant (sn_config a) (tn_id d) = Some t" and "scope_contains S (Tenant (tn_id t))"
    using assms(2,3) scope.above_root_iff by (auto split: option.splits)
  then have "\<not> tenant_out S d" using find_tenant_D by (fastforce simp: tenant_out_def)
  then have "filter (tenant_out S) (upsert_by_id tn_id d (cfg_tenants (sn_config b)))
      = filter (tenant_out S) (cfg_tenants (sn_config b))"
    by (intro filter_upsert) (auto simp: tenant_out_def)
  from confined_tenants [OF assms(1) distinct_upsert [OF confined_D(1) [OF assms(1)]] this]
  show ?thesis by (simp add: map_config_def)
qed

lemma catalog_inside_same_id:
  assumes "confined S a b" "base_ok a"
    and "e \<in> set (cfg_catalogs (sn_config b))"
    and "\<forall>c \<in> set (cfg_catalogs (sn_config a)). ct_id c = ct_id e \<longrightarrow> \<not> catalog_out S c"
  shows "\<not> catalog_out S e"
  using outside_same(2) [OF assms(1,3)] assms(4) by blast

lemma put_catalog_confined:
  assumes "confined S a b" "base_ok a"
    and "\<forall>scope \<in> set (put_catalog_scopes d a). scope_contains S scope"
  shows "confined S a (map_config (\<lambda>c. c\<lparr>cfg_catalogs := upsert_by_id ct_id d (cfg_catalogs c)\<rparr>) b)"
proof -
  have d: "\<not> catalog_out S d \<and> (\<forall>c \<in> set (cfg_catalogs (sn_config a)). ct_id c = ct_id d \<longrightarrow> \<not> catalog_out S c)"
  proof (cases "find_catalog (sn_config a) (ct_id d)")
    case None
    with assms(3) have "scope_contains S (Tenant (ct_tenant d))" by (simp add: put_catalog_scopes_def)
    then have "scope_contains S (Catalog (ct_tenant d) (ct_id d))"
      by (rule scope_contains_trans) simp
    with None show ?thesis
      by (auto simp: catalog_out_def find_catalog_def find_None_iff)
  next
    case (Some x)
    then have x: "x \<in> set (cfg_catalogs (sn_config a))" "ct_id x = ct_id d" using find_catalog_D by auto
    have uniq: "c = x" if "c \<in> set (cfg_catalogs (sn_config a))" "ct_id c = ct_id d" for c
      using distinct_key [OF base_distinct(2) [OF assms(2)] that(1) x(1)] that(2) x(2) by simp
    have "scope_contains S (Catalog (ct_tenant x) (ct_id x))"
      and "ct_tenant x \<noteq> ct_tenant d \<longrightarrow> scope_contains S (Tenant (ct_tenant d))"
      using assms(3) Some by (auto simp: put_catalog_scopes_def split: if_splits)
    then have "scope_contains S (Catalog (ct_tenant d) (ct_id d))"
      using x(2) scope_contains_trans [of S "Tenant (ct_tenant d)" "Catalog (ct_tenant d) (ct_id d)"]
      by (cases "ct_tenant x = ct_tenant d") auto
    with \<open>scope_contains S (Catalog (ct_tenant x) (ct_id x))\<close> uniq show ?thesis
      by (auto simp: catalog_out_def)
  qed
  then have "filter (catalog_out S) (upsert_by_id ct_id d (cfg_catalogs (sn_config b)))
      = filter (catalog_out S) (cfg_catalogs (sn_config b))"
    using catalog_inside_same_id [OF assms(1,2)] by (intro filter_upsert) auto
  from confined_catalogs [OF assms(1) distinct_upsert [OF confined_D(2) [OF assms(1)]] this]
  show ?thesis by (simp add: map_config_def)
qed

lemma settings_scope_D:
  assumes "settings_scope sn te ce = Inr s"
  shows "case s of
      Tenant t \<Rightarrow> ce = None
    | Catalog t c \<Rightarrow> ce \<noteq> None \<and> (\<exists>d \<in> set (cfg_catalogs (sn_config sn)). ct_tenant d = t \<and> ct_id d = c)
    | _ \<Rightarrow> False"
  using assms
  by (auto simp: settings_scope_def and_then_Inr_iff ok_or_Inr_iff split: option.splits
      dest!: find_Some_D intro!: bexI)

lemma stable_settings_scope_D:
  "stable_settings_scope a b te ce = Inr s \<Longrightarrow> settings_scope a te ce = Inr s \<and> settings_scope b te ce = Inr s"
  by (auto simp: stable_settings_scope_def and_then_Inr_iff split: if_splits)

lemma set_tenant_settings_confined:
  assumes "confined S a b" "scope_contains S (Tenant t)"
  shows "confined S a (map_config (\<lambda>c. c\<lparr>cfg_tenants := update_first (\<lambda>d. tn_id d = t)
      (\<lambda>d. d\<lparr>tn_settings := st\<rparr>) (cfg_tenants c)\<rparr>) b)"
proof -
  let ?ts = "update_first (\<lambda>d. tn_id d = t) (\<lambda>d. d\<lparr>tn_settings := st\<rparr>) (cfg_tenants (sn_config b))"
  have "filter (tenant_out S) ?ts = filter (tenant_out S) (cfg_tenants (sn_config b))"
    by (rule filter_update_first) (use assms(2) in \<open>auto simp: tenant_out_def\<close>)
  moreover have "map tn_id ?ts = map tn_id (cfg_tenants (sn_config b))"
    by (rule map_update_first) simp
  ultimately have "confined S a (map_config (\<lambda>c. c\<lparr>cfg_tenants := ?ts\<rparr>) b)"
    using confined_D(1) [OF assms(1)] by (intro confined_tenants [OF assms(1)]) simp_all
  then show ?thesis by (simp add: map_config_def)
qed

lemma set_catalog_settings_confined:
  assumes "confined S a b" "base_ok a" "scope_contains S (Catalog t c)"
    and "d \<in> set (cfg_catalogs (sn_config a))" "ct_tenant d = t" "ct_id d = c"
  shows "confined S a (map_config (\<lambda>g. g\<lparr>cfg_catalogs := update_first (\<lambda>d. ct_id d = c)
      (\<lambda>d. d\<lparr>ct_settings := st\<rparr>) (cfg_catalogs g)\<rparr>) b)"
proof -
  let ?cs = "update_first (\<lambda>d. ct_id d = c) (\<lambda>d. d\<lparr>ct_settings := st\<rparr>) (cfg_catalogs (sn_config b))"
  have "\<forall>x \<in> set (cfg_catalogs (sn_config a)). ct_id x = c \<longrightarrow> \<not> catalog_out S x"
    using distinct_key [OF base_distinct(2) [OF assms(2)] _ assms(4)] assms(3,5,6)
    by (auto simp: catalog_out_def)
  then have inside: "\<forall>x \<in> set (cfg_catalogs (sn_config b)). ct_id x = c \<longrightarrow> \<not> catalog_out S x"
    using catalog_inside_same_id [OF assms(1,2)] by auto
  have "filter (catalog_out S) ?cs = filter (catalog_out S) (cfg_catalogs (sn_config b))"
    by (rule filter_update_first) (use inside in \<open>auto simp: catalog_out_def\<close>)
  moreover have "map ct_id ?cs = map ct_id (cfg_catalogs (sn_config b))"
    by (rule map_update_first) simp
  ultimately have "confined S a (map_config (\<lambda>g. g\<lparr>cfg_catalogs := ?cs\<rparr>) b)"
    using confined_D(2) [OF assms(1)] by (intro confined_catalogs [OF assms(1)]) simp_all
  then show ?thesis by (simp add: map_config_def)
qed

section \<open>Collections\<close>

text \<open>
  In the candidate, a followed collection is exactly one that lies outside the scope.
\<close>

lemma followed_iff_outside:
  assumes "confined S a b" "base_ok a"
    and "k \<in> set (cfg_collections (sn_config b))"
    and "c \<in> set (cfg_catalogs (sn_config b))" "ct_id c = cl_catalog k"
  shows "cl_id k \<in> out_ids S a \<longleftrightarrow> \<not> scope_contains S (Collection (ct_tenant c) (ct_id c) (cl_id k))"
proof
  assume in_out: "cl_id k \<in> out_ids S a"
  then obtain k' where k': "k' \<in> set (cfg_collections (sn_config a))" "cl_id k' = cl_id k"
    "collection_out S (sn_config a) k'" by (auto simp: out_ids_def)
  have "k \<in> set (cfg_collections (sn_config a))" by (rule outside_same(5) [OF assms(1,3) in_out])
  then have "k' = k" using distinct_key [OF base_distinct(3) [OF assms(2)] k'(1) _ k'(2)] by blast
  show "\<not> scope_contains S (Collection (ct_tenant c) (ct_id c) (cl_id k))"
  proof
    assume within: "scope_contains S (Collection (ct_tenant c) (ct_id c) (cl_id k))"
    have wf: "well_formed_config (sn_config a)" using assms(2) by (simp add: base_ok_def)
    then have "cl_catalog k \<in> ct_id ` set (cfg_catalogs (sn_config a))"
      using \<open>k \<in> set (cfg_collections (sn_config a))\<close>
      by (simp add: well_formed_config_def collections_ok_def)
    then obtain c' where c': "c' \<in> set (cfg_catalogs (sn_config a))" "ct_id c' = cl_catalog k" by auto
    then have "find_catalog (sn_config a) (cl_catalog k) = Some c'" by (simp add: find_catalog_iff [OF wf])
    with k'(3) \<open>k' = k\<close> have out: "\<not> scope_contains S (Collection (ct_tenant c') (ct_id c') (cl_id k))"
      by (simp add: collection_out_def)
    then have "catalog_out S c'"
      unfolding catalog_out_def using scope_contains_trans [of S "Catalog (ct_tenant c') (ct_id c')"] by auto
    then have "c' \<in> set (cfg_catalogs (sn_config b))" by (rule outside_same(3) [OF assms(1) c'(1)])
    then have "c' = c"
      using distinct_key [OF confined_D(2) [OF assms(1)] _ assms(4)] c'(2) assms(5) by simp
    with within out show False by simp
  qed
next
  assume out: "\<not> scope_contains S (Collection (ct_tenant c) (ct_id c) (cl_id k))"
  then have "catalog_out S c"
    unfolding catalog_out_def using scope_contains_trans [of S "Catalog (ct_tenant c) (ct_id c)"] by auto
  moreover from this have "c \<in> set (cfg_catalogs (sn_config a))" by (rule outside_same(2) [OF assms(1,4)])
  ultimately show "cl_id k \<in> out_ids S a"
    using confined_D(10) [OF assms(1)] assms(3,5) out by blast
qed

text \<open>The scopes required of a put collection place it inside the scope.\<close>

lemma put_collection_inside:
  assumes "confined S a b" "base_ok a"
    and "put_collection_scopes d a b = Inr scopes" "\<forall>scope \<in> set scopes. scope_contains S scope"
  shows "cl_id d \<notin> out_ids S a"
    and "c \<in> set (cfg_catalogs (sn_config b)) \<Longrightarrow> ct_id c = cl_catalog d \<Longrightarrow>
      scope_contains S (Collection (ct_tenant c) (ct_id c) (cl_id d))"
proof -
  from assms(3) obtain cc where cc: "find_catalog (sn_config b) (cl_catalog d) = Some cc"
    by (auto simp: put_collection_scopes_def catalog_of_collection_def result_simps)
  then have cc_in: "cc \<in> set (cfg_catalogs (sn_config b))" "ct_id cc = cl_catalog d"
    using find_catalog_D by auto
  have cc_uniq: "c = cc" if "c \<in> set (cfg_catalogs (sn_config b))" "ct_id c = cl_catalog d" for c
    using distinct_key [OF confined_D(2) [OF assms(1)] that(1) cc_in(1)] that(2) cc_in(2) by simp
  have below: "scope_contains S (Collection t i k)" if "scope_contains S (Catalog t i)" for t i k
    using that by (rule scope_contains_trans) simp
  have "cl_id d \<notin> out_ids S a \<and> scope_contains S (Collection (ct_tenant cc) (ct_id cc) (cl_id d))"
  proof (cases "find_collection (sn_config a) (cl_id d)")
    case None
    with assms(3,4) cc have "scope_contains S (Catalog (ct_tenant cc) (ct_id cc))"
      by (simp add: put_collection_scopes_def catalog_of_collection_def Let_def) auto
    with None show ?thesis using not_out_id [OF assms(2)] below by simp
  next
    case (Some e)
    then have e: "cl_id e = cl_id d" using find_collection_D by auto
    from assms(3) Some obtain ec where ec: "find_catalog (sn_config a) (cl_catalog e) = Some ec"
      by (auto simp: put_collection_scopes_def catalog_of_collection_def result_simps Let_def)
    with assms(3,4) cc Some
    have s1: "scope_contains S (Collection (ct_tenant ec) (ct_id ec) (cl_id e))"
      and s2: "cl_catalog e \<noteq> cl_catalog d \<longrightarrow> scope_contains S (Catalog (ct_tenant cc) (ct_id cc))"
      by (auto simp: put_collection_scopes_def catalog_of_collection_def Let_def split: if_splits)
    from s1 ec have "\<not> collection_out S (sn_config a) e" by (simp add: collection_out_def)
    then have "cl_id d \<notin> out_ids S a" using not_out_id [OF assms(2)] Some by simp
    moreover have "scope_contains S (Collection (ct_tenant cc) (ct_id cc) (cl_id d))"
    proof (cases "catalog_out S cc \<and> cl_catalog e = cl_catalog d")
      case True
      then have "cc \<in> set (cfg_catalogs (sn_config a))" using outside_same(2) [OF assms(1) cc_in(1)] by blast
      then have "find_catalog (sn_config a) (cl_catalog e) = Some cc"
        using True cc_in(2) assms(2) find_catalog_iff by (auto simp: base_ok_def)
      with ec s1 e show ?thesis by simp
    next
      case False
      with s2 show ?thesis using below by (auto simp: catalog_out_def)
    qed
    ultimately show ?thesis by simp
  qed
  then show "cl_id d \<notin> out_ids S a"
    and "c \<in> set (cfg_catalogs (sn_config b)) \<Longrightarrow> ct_id c = cl_catalog d \<Longrightarrow>
      scope_contains S (Collection (ct_tenant c) (ct_id c) (cl_id d))"
    using cc_uniq by blast+
qed

lemma put_collection_confined:
  assumes "confined S a b" "base_ok a"
    and "put_collection_scopes d a b = Inr scopes" "\<forall>scope \<in> set scopes. scope_contains S scope"
  shows "confined S a (map_config (\<lambda>c. c\<lparr>cfg_collections := upsert_by_id cl_id d (cfg_collections c)\<rparr>) b)"
proof -
  note inside = put_collection_inside [OF assms]
  have "filter (\<lambda>k. cl_id k \<in> out_ids S a) (upsert_by_id cl_id d (cfg_collections (sn_config b)))
      = filter (\<lambda>k. cl_id k \<in> out_ids S a) (cfg_collections (sn_config b))"
    by (rule filter_upsert) (use inside(1) in auto)
  moreover have "\<forall>k \<in> set (upsert_by_id cl_id d (cfg_collections (sn_config b))).
      k \<in> set (cfg_collections (sn_config b)) \<or>
      (\<forall>c \<in> set (cfg_catalogs (sn_config a)). catalog_out S c \<and> ct_id c = cl_catalog k \<longrightarrow>
         scope_contains S (Collection (ct_tenant c) (ct_id c) (cl_id k)))"
  proof
    fix k assume "k \<in> set (upsert_by_id cl_id d (cfg_collections (sn_config b)))"
    then consider "k \<in> set (cfg_collections (sn_config b))" | "k = d" using set_upsert by fast
    then show "k \<in> set (cfg_collections (sn_config b)) \<or>
      (\<forall>c \<in> set (cfg_catalogs (sn_config a)). catalog_out S c \<and> ct_id c = cl_catalog k \<longrightarrow>
         scope_contains S (Collection (ct_tenant c) (ct_id c) (cl_id k)))"
    proof cases
      case 2
      show ?thesis using inside(2) outside_same(3) [OF assms(1)] unfolding 2 by simp
    qed simp
  qed
  ultimately have "confined S a (map_config (\<lambda>c. c\<lparr>cfg_collections :=
      upsert_by_id cl_id d (cfg_collections (sn_config b))\<rparr>) b)"
    by (intro confined_collections [OF assms(1) distinct_upsert [OF confined_D(3) [OF assms(1)]]])
  then show ?thesis by (simp add: map_config_def)
qed

section \<open>Removals\<close>

lemma delete_tenant_confined:
  assumes "confined S a b" "scope_contains S (Tenant t)"
  shows "confined S a (map_config (\<lambda>c. c\<lparr>cfg_tenants := filter (\<lambda>d. tn_id d \<noteq> t) (cfg_tenants c)\<rparr>) b)"
proof -
  let ?ts = "filter (\<lambda>d. tn_id d \<noteq> t) (cfg_tenants (sn_config b))"
  have "filter (tenant_out S) ?ts = filter (tenant_out S) (cfg_tenants (sn_config b))"
    by (rule filter_filter_out) (use assms(2) in \<open>auto simp: tenant_out_def\<close>)
  moreover have "distinct (map tn_id ?ts)" using confined_D(1) [OF assms(1)] by (rule distinct_map_filter)
  ultimately have "confined S a (map_config (\<lambda>c. c\<lparr>cfg_tenants := ?ts\<rparr>) b)"
    by (intro confined_tenants [OF assms(1)])
  then show ?thesis by (simp add: map_config_def)
qed

lemma delete_catalog_confined:
  assumes "confined S a b" "scope_contains S (Catalog t c)"
    and "find_catalog (sn_config b) c = Some d" "ct_tenant d = t"
  shows "confined S a (map_config (\<lambda>g. g\<lparr>cfg_catalogs := filter (\<lambda>e. ct_id e \<noteq> c) (cfg_catalogs g)\<rparr>) b)"
proof -
  let ?cs = "filter (\<lambda>e. ct_id e \<noteq> c) (cfg_catalogs (sn_config b))"
  have d: "d \<in> set (cfg_catalogs (sn_config b))" "ct_id d = c" using find_catalog_D [OF assms(3)] by auto
  have "\<not> catalog_out S e" if "e \<in> set (cfg_catalogs (sn_config b))" "ct_id e = c" for e
    using distinct_key [OF confined_D(2) [OF assms(1)] that(1) d(1)] that(2) d(2) assms(2,4)
    by (simp add: catalog_out_def)
  then have "filter (catalog_out S) ?cs = filter (catalog_out S) (cfg_catalogs (sn_config b))"
    by (intro filter_filter_out) auto
  moreover have "distinct (map ct_id ?cs)" using confined_D(2) [OF assms(1)] by (rule distinct_map_filter)
  ultimately have "confined S a (map_config (\<lambda>g. g\<lparr>cfg_catalogs := ?cs\<rparr>) b)"
    by (intro confined_catalogs [OF assms(1)])
  then show ?thesis by (simp add: map_config_def)
qed

lemma delete_collection_confined:
  assumes "confined S a b" "base_ok a" "scope_contains S (Collection t c i)"
    and "find_catalog (sn_config b) c = Some d" "ct_tenant d = t"
    and "find_collection (sn_config b) i = Some k" "cl_catalog k = c"
  shows "confined S a (map_config (\<lambda>g. g\<lparr>cfg_collections := filter (\<lambda>e. cl_id e \<noteq> i) (cfg_collections g)\<rparr>) b)"
proof -
  let ?ks = "filter (\<lambda>e. cl_id e \<noteq> i) (cfg_collections (sn_config b))"
  have d: "d \<in> set (cfg_catalogs (sn_config b))" "ct_id d = c" using find_catalog_D [OF assms(4)] by auto
  have k: "k \<in> set (cfg_collections (sn_config b))" "cl_id k = i" using find_collection_D [OF assms(6)] by auto
  have "i \<notin> out_ids S a"
    using followed_iff_outside [OF assms(1,2) k(1) d(1)] d(2) k(2) assms(3,5,7) by simp
  then have "filter (\<lambda>e. cl_id e \<in> out_ids S a) ?ks
      = filter (\<lambda>e. cl_id e \<in> out_ids S a) (cfg_collections (sn_config b))"
    by (intro filter_filter_out) auto
  moreover have "distinct (map cl_id ?ks)" using confined_D(3) [OF assms(1)] by (rule distinct_map_filter)
  ultimately have "confined S a (map_config (\<lambda>g. g\<lparr>cfg_collections := ?ks\<rparr>) b)"
    by (intro confined_collections [OF assms(1)]) auto
  then show ?thesis by (simp add: map_config_def)
qed

lemma permanently_delete_confined:
  assumes "confined S a b" "base_ok a" "scope_contains S scope"
    and "permanently_delete (sn_config b) scope = Inr cfg"
  shows "confined S a (b\<lparr>sn_config := cfg, sn_tombstones := filter (\<lambda>t. t \<noteq> scope) (sn_tombstones b)\<rparr>)"
proof -
  have "confined S a (b\<lparr>sn_config := cfg\<rparr>)"
  proof (cases scope)
    case Platform
    with assms(4) show ?thesis by (simp add: permanently_delete_def result_simps)
  next
    case (Tenant t)
    with delete_tenant_confined [OF assms(1), of t] assms(3,4) show ?thesis
      by (simp add: permanently_delete_def result_simps map_config_def)
  next
    case (Catalog t c)
    with assms(4) obtain d where "find_catalog (sn_config b) c = Some d" "ct_tenant d = t"
      by (auto simp: permanently_delete_def result_simps the_catalog_def)
    from delete_catalog_confined [OF assms(1) _ this] assms(3,4) Catalog show ?thesis
      by (simp add: permanently_delete_def result_simps map_config_def)
  next
    case (Collection t c i)
    with assms(4) obtain d k where "find_catalog (sn_config b) c = Some d" "ct_tenant d = t"
      "find_collection (sn_config b) i = Some k" "cl_catalog k = c"
      by (auto simp: permanently_delete_def result_simps the_catalog_def the_collection_def)
    from delete_collection_confined [OF assms(1,2) _ this] assms(3,4) Collection show ?thesis
      by (simp add: permanently_delete_def result_simps map_config_def)
  qed
  moreover have "filter (\<lambda>t. \<not> scope_contains S t) (filter (\<lambda>t. t \<noteq> scope) (sn_tombstones b))
      = filter (\<lambda>t. \<not> scope_contains S t) (sn_tombstones b)"
    by (rule filter_filter_out) (use assms(3) in auto)
  ultimately show ?thesis
    using confined_control_state [of S a "b\<lparr>sn_config := cfg\<rparr>" "sn_bindings b" "sn_policies b"
        "filter (\<lambda>t. t \<noteq> scope) (sn_tombstones b)"] by simp
qed

section \<open>Bindings, policies and tombstones\<close>

lemma put_binding_confined:
  assumes "confined S a b" "scope_contains S (rb_scope x)"
  shows "confined S a (b\<lparr>sn_bindings := sn_bindings b @ [x]\<rparr>)"
  using confined_control_state [OF assms(1), of "sn_bindings b @ [x]" "sn_policies b" "sn_tombstones b"] assms(2)
  by (simp add: binding_out_def)

lemma delete_binding_confined:
  assumes "confined S a b" "scope_contains S scope"
  shows "confined S a (b\<lparr>sn_bindings := filter (\<lambda>x. rb_principal x \<noteq> who \<or> rb_scope x \<noteq> scope \<or> rb_role x \<noteq> role)
    (sn_bindings b)\<rparr>)"
proof -
  let ?bs = "filter (\<lambda>x. rb_principal x \<noteq> who \<or> rb_scope x \<noteq> scope \<or> rb_role x \<noteq> role) (sn_bindings b)"
  have "filter (binding_out S) ?bs = filter (binding_out S) (sn_bindings b)"
    by (rule filter_filter_out) (use assms(2) in \<open>auto simp: binding_out_def\<close>)
  from confined_control_state [OF assms(1) this, of "sn_policies b" "sn_tombstones b"] show ?thesis by simp
qed

lemma tombstone_confined:
  assumes "confined S a b" "scope_contains S scope"
  shows "confined S a (b\<lparr>sn_tombstones := sn_tombstones b @ [scope]\<rparr>)"
  using confined_control_state [OF assms(1), of "sn_bindings b" "sn_policies b" "sn_tombstones b @ [scope]"] assms(2)
  by simp

lemma policies_confined:
  assumes "confined S a b" "filter (policy_out S) ps = filter (policy_out S) (sn_policies b)"
  shows "confined S a (b\<lparr>sn_policies := ps\<rparr>)"
  using confined_control_state [OF assms(1), of "sn_bindings b" ps "sn_tombstones b"] assms(2) by simp

lemma policy_inside_same_id:
  assumes "confined S a b" "base_ok a"
    and "case List.find (\<lambda>p. pp_id p = i) (sn_policies a) of None \<Rightarrow> True | Some p \<Rightarrow> \<not> policy_out S p"
    and "q \<in> set (sn_policies b)" "pp_id q = i"
  shows "\<not> policy_out S q"
proof
  assume "policy_out S q"
  then have q: "q \<in> set (sn_policies a)" by (rule outside_same(4) [OF assms(1,4)])
  show False
  proof (cases "List.find (\<lambda>p. pp_id p = i) (sn_policies a)")
    case None
    with q assms(5) show False by (auto simp: find_None_iff)
  next
    case (Some p)
    then have "p \<in> set (sn_policies a)" "pp_id p = i" using find_Some_D [OF Some] by auto
    then have "q = p" using assms(2,5) q distinct_key [of pp_id "sn_policies a" q p]
      by (auto simp: base_ok_def)
    with Some assms(3) \<open>policy_out S q\<close> show False by simp
  qed
qed

lemma put_policy_confined:
  assumes "confined S a b" "base_ok a"
    and "put_policy_scopes p a = Inr scopes" "\<forall>scope \<in> set scopes. scope_contains S scope"
  shows "confined S a (b\<lparr>sn_policies := upsert_by_id pp_id p (sn_policies b)\<rparr>)"
proof (rule policies_confined [OF assms(1)], rule filter_upsert)
  from assms(3) obtain s where s: "pp_scope p = Some s" by (auto simp: put_policy_scopes_def result_simps)
  with assms(3,4) show "\<not> policy_out S p"
    by (cases "List.find (\<lambda>q. pp_id q = pp_id p) (sn_policies a)")
      (auto simp: put_policy_scopes_def policy_out_def Let_def split: if_splits)
  have "case List.find (\<lambda>q. pp_id q = pp_id p) (sn_policies a) of None \<Rightarrow> True | Some q \<Rightarrow> \<not> policy_out S q"
  proof (cases "List.find (\<lambda>q. pp_id q = pp_id p) (sn_policies a)")
    case (Some q)
    with assms(3,4) s show ?thesis
      by (cases "(case pp_scope q of Some s \<Rightarrow> s | None \<Rightarrow> Platform) = s")
        (auto simp: put_policy_scopes_def policy_out_def Let_def)
  qed simp
  with policy_inside_same_id [OF assms(1,2)]
  show "\<forall>q \<in> set (sn_policies b). pp_id q = pp_id p \<longrightarrow> \<not> policy_out S q" by blast
qed

lemma delete_policy_confined:
  assumes "confined S a b" "base_ok a"
    and "List.find (\<lambda>p. pp_id p = i) (sn_policies a) = Some p" "pp_scope p = Some s" "scope_contains S s"
  shows "confined S a (b\<lparr>sn_policies := filter (\<lambda>p. pp_id p \<noteq> i) (sn_policies b)\<rparr>)"
proof (rule policies_confined [OF assms(1)], rule filter_filter_out)
  show "\<forall>q \<in> set (sn_policies b). policy_out S q \<longrightarrow> pp_id q \<noteq> i"
    using policy_inside_same_id [OF assms(1,2), of i] assms(3,4,5) by (auto simp: policy_out_def)
qed

section \<open>Moving a collection\<close>

lemma rewritten_outside:
  assumes "traverse (rewrite_policy old_scope new_scope old_anchor new_anchor) ps = Inr qs"
    and "scope_contains S old_scope" "scope_contains S new_scope"
  shows "filter (policy_out S) qs = filter (policy_out S) ps"
proof (rule filter_list_all2)
  have step: "(policy_out S x \<longrightarrow> y = x) \<and> (\<not> policy_out S x \<longrightarrow> \<not> policy_out S y)"
    if "rewrite_policy old_scope new_scope old_anchor new_anchor x = Inr y" for x y
    using that assms(2,3)
    by (cases "pp_scope x = Some old_scope") (auto simp: rewrite_policy_def policy_out_def result_simps)
  from assms(1) show "list_all2 (\<lambda>x y. (policy_out S x \<longrightarrow> y = x) \<and> (\<not> policy_out S x \<longrightarrow> \<not> policy_out S y)) ps qs"
    unfolding traverse_Inr_iff by (rule list_all2_mono) (rule step)
qed

lemma moved_outside:
  assumes "scope_contains S old_scope" "scope_contains S new_scope"
  shows "filter (binding_out S) (map (\<lambda>b. b\<lparr>rb_scope := replace_scope old_scope new_scope (rb_scope b)\<rparr>) bs)
      = filter (binding_out S) bs"
    and "filter (\<lambda>t. \<not> scope_contains S t) (map (replace_scope old_scope new_scope) ts)
      = filter (\<lambda>t. \<not> scope_contains S t) ts"
  by (rule filter_map_unaffected; use assms in \<open>auto simp: replace_scope_def binding_out_def\<close>)+

lemma collection_scope_D:
  "collection_scope cfg k = Inr s \<Longrightarrow>
   \<exists>c \<in> set (cfg_catalogs cfg). ct_id c = cl_catalog k \<and> s = Collection (ct_tenant c) (ct_id c) (cl_id k)"
  by (auto simp: collection_scope_def catalog_of_collection_def result_simps dest: find_catalog_D)

lemma migrate_cases:
  assumes "migrate_collection_control_state b d = Inr m"
  obtains "m = b"
  | current old_scope new_scope old_anchor new_anchor ps where
    "find_collection (sn_config b) (cl_id d) = Some current"
    "collection_scope (sn_config b) current = Inr old_scope"
    "collection_scope (sn_config b) d = Inr new_scope"
    "traverse (rewrite_policy old_scope new_scope old_anchor new_anchor) (sn_policies b) = Inr ps"
    "m = b\<lparr>sn_bindings := retain_first {}
             (map (\<lambda>b. b\<lparr>rb_scope := replace_scope old_scope new_scope (rb_scope b)\<rparr>) (sn_bindings b)),
           sn_policies := ps,
           sn_tombstones := retain_first {} (map (replace_scope old_scope new_scope) (sn_tombstones b))\<rparr>"
proof (cases "find_collection (sn_config b) (cl_id d)")
  case None
  with assms that(1) show ?thesis by (simp add: migrate_collection_control_state_def)
next
  case (Some current)
  show ?thesis
  proof (cases "cl_catalog current = cl_catalog d")
    case True
    with assms Some that(1) show ?thesis by (simp add: migrate_collection_control_state_def)
  next
    case False
    with assms Some that(2) show ?thesis
      by (simp add: migrate_collection_control_state_def and_then_Inr_iff) blast
  qed
qed

lemma migrate_confined:
  assumes "confined S a b" "base_ok a"
    and "put_collection_scopes d a b = Inr scopes" "\<forall>scope \<in> set scopes. scope_contains S scope"
    and "migrate_collection_control_state b d = Inr m"
  shows "confined S a m" and "sn_config m = sn_config b"
proof -
  have "confined S a m \<and> sn_config m = sn_config b"
  using assms(5)
  proof (cases rule: migrate_cases)
    case 1
    with assms(1) show ?thesis by simp
  next
    case (2 current old_scope new_scope old_anchor new_anchor ps)
    note inside = put_collection_inside [OF assms(1-4)]
    have current: "current \<in> set (cfg_collections (sn_config b))" "cl_id current = cl_id d"
      using find_collection_D [OF 2(1)] by auto
    from collection_scope_D [OF 2(2)] inside(1) followed_iff_outside [OF assms(1,2) current(1)] current(2)
    have old: "scope_contains S old_scope" by auto
    from collection_scope_D [OF 2(3)] inside(2) have new: "scope_contains S new_scope" by auto
    note moved = moved_outside [OF old new] and d = confined_D [OF assms(1)]
    have "distinct (sn_bindings a)" "distinct (sn_tombstones a)" using assms(2) by (simp_all add: base_ok_def)
    then have "distinct (filter (binding_out S) (sn_bindings b))"
      "distinct (filter (\<lambda>t. \<not> scope_contains S t) (sn_tombstones b))"
      unfolding d(6) d(8) by simp_all
    then show ?thesis
      unfolding 2(5) using moved rewritten_outside [OF 2(4) old new]
      by (intro conjI confined_control_state [OF assms(1)]) (simp_all add: filter_retain_distinct)
  qed
  then show "confined S a m" and "sn_config m = sn_config b" by blast+
qed

section \<open>One operation, and the whole changeset\<close>

lemma apply_one_confined:
  assumes "confined S a (as_snapshot s)" "base_ok a" "S \<noteq> Platform"
    and "apply_one S a versions v s = Inr s'"
  shows "confined S a (as_snapshot s')"
proof -
  from assms(4) obtain scopes key m applied where
    sc: "operation_scopes (vo_operation v) a (as_snapshot s) = Inr scopes"
      "\<forall>scope \<in> set scopes. scope_contains S scope"
    and m: "(case vo_operation v of PutCollection collection \<Rightarrow>
        migrate_collection_control_state (as_snapshot s) collection | _ \<Rightarrow> Inr (as_snapshot s)) = Inr m"
    and op: "apply_operation m (vo_operation v) = Inr applied"
    and s': "s' = note_operation (vo_operation v) key (s\<lparr>as_snapshot := applied\<rparr>)"
    by (rule apply_one_D)
  have not_root: "\<not> scope_contains S Platform" using assms(3) scope.above_root_iff by blast
  have "confined S a applied"
  proof (cases "vo_operation v")
    case (ReplacePlatformSettings x)
    with sc not_root show ?thesis by (auto simp: operation_scopes_def)
  next
    case (SetPlatformSettings x)
    with sc not_root show ?thesis by (auto simp: operation_scopes_def)
  next
    case (SetTenantSettings t st)
    then have m': "m = as_snapshot s" using m by simp
    from sc(1) SetTenantSettings obtain sco where "scopes = [sco]"
      "stable_settings_scope a (as_snapshot s) t None = Inr sco"
      by (auto simp: operation_scopes_def and_then_Inr_iff)
    with stable_settings_scope_D [of a "as_snapshot s" t None sco]
    have *: "settings_scope (as_snapshot s) t None = Inr sco" "scope_contains S sco"
      using sc(2) by auto
    with settings_scope_D [OF *(1)] obtain i where "sco = Tenant i" by (auto split: control_scope.splits)
    with * op show ?thesis
      unfolding m' SetTenantSettings apply_operation_def
      using set_tenant_settings_confined [OF assms(1), of i st] by (auto simp: and_then_Inr_iff)
  next
    case (SetCatalogSettings t c st)
    then have m': "m = as_snapshot s" using m by simp
    from sc(1) SetCatalogSettings obtain sco where "scopes = [sco]"
      "stable_settings_scope a (as_snapshot s) t (Some c) = Inr sco"
      by (auto simp: operation_scopes_def and_then_Inr_iff)
    with stable_settings_scope_D [of a "as_snapshot s" t "Some c" sco]
    have *: "settings_scope (as_snapshot s) t (Some c) = Inr sco"
      "settings_scope a t (Some c) = Inr sco" "scope_contains S sco"
      using sc(2) by auto
    with settings_scope_D [OF *(2)] obtain i j d where d: "sco = Catalog i j"
      "d \<in> set (cfg_catalogs (sn_config a))" "ct_tenant d = i" "ct_id d = j"
      by (auto split: control_scope.splits)
    with * op show ?thesis
      unfolding m' SetCatalogSettings apply_operation_def
      using set_catalog_settings_confined [OF assms(1,2) _ d(2-4), of st] by (auto simp: and_then_Inr_iff)
  next
    case (PutTenant d)
    with sc(1) have "scopes = [case find_tenant (sn_config a) (tn_id d) of None \<Rightarrow> Platform
        | Some t \<Rightarrow> Tenant (tn_id t)]" by (simp add: operation_scopes_def)
    with sc(2) have "scope_contains S (case find_tenant (sn_config a) (tn_id d) of None \<Rightarrow> Platform
        | Some t \<Rightarrow> Tenant (tn_id t))" by simp
    from put_tenant_confined [OF assms(1,3) this] PutTenant m op show ?thesis
      by (simp add: apply_operation_def)
  next
    case (PutCatalog d)
    with sc m op put_catalog_confined [OF assms(1,2), of d] show ?thesis
      by (simp add: operation_scopes_def apply_operation_def)
  next
    case (PutCollection d)
    with sc have sc': "put_collection_scopes d a (as_snapshot s) = Inr scopes" by (simp add: operation_scopes_def)
    from m PutCollection have "migrate_collection_control_state (as_snapshot s) d = Inr m" by simp
    note moved = migrate_confined [OF assms(1,2) sc' sc(2) this]
    from sc' have "put_collection_scopes d a m = Inr scopes" by (simp add: put_collection_scopes_def moved(2))
    from put_collection_confined [OF moved(1) assms(2) this sc(2)] op PutCollection show ?thesis
      by (simp add: apply_operation_def)
  next
    case (TombstoneResource scope)
    with sc m op tombstone_confined [OF assms(1), of scope] assms(1) show ?thesis
      by (auto simp: operation_scopes_def apply_operation_def and_then_Inr_iff split: if_splits)
  next
    case (PermanentlyDeleteResource scope)
    with sc m op permanently_delete_confined [OF assms(1,2), of scope] show ?thesis
      by (auto simp: operation_scopes_def apply_operation_def and_then_Inr_iff)
  next
    case (PutRoleBinding x)
    with sc m op put_binding_confined [OF assms(1), of x] assms(1) show ?thesis
      by (auto simp: operation_scopes_def apply_operation_def split: if_splits)
  next
    case (DeleteRoleBinding who scope role)
    with sc m op delete_binding_confined [OF assms(1), of scope who role] show ?thesis
      by (auto simp: operation_scopes_def apply_operation_def delete_role_binding_def and_then_Inr_iff)
  next
    case (PutPathPolicy p)
    with sc m op put_policy_confined [OF assms(1,2), of p] show ?thesis
      by (simp add: operation_scopes_def apply_operation_def)
  next
    case (DeletePathPolicy i)
    with sc obtain p scope where "List.find (\<lambda>p. pp_id p = i) (sn_policies a) = Some p" "pp_scope p = Some scope"
      "scope_contains S scope" by (auto simp: operation_scopes_def split: option.splits)
    from delete_policy_confined [OF assms(1,2) this] DeletePathPolicy m op show ?thesis
      by (simp add: apply_operation_def and_then_Inr_iff)
  qed
  with s' show ?thesis by simp
qed

text \<open>For a valid result the identifiers of the outside collections are those followed.\<close>

lemma confined_same_outside:
  assumes "confined S a b" "base_ok a" "base_ok b"
  shows "same_outside S a b"
proof -
  note d = confined_D [OF assms(1)]
  have eq: "collection_out S (sn_config x) k \<longleftrightarrow> cl_id k \<in> out_ids S a"
    if x: "confined S a x" "base_ok x" and k: "k \<in> set (cfg_collections (sn_config x))" for x k
  proof -
    have wf: "well_formed_config (sn_config x)" using x(2) by (simp add: base_ok_def)
    then have "cl_catalog k \<in> ct_id ` set (cfg_catalogs (sn_config x))"
      using k by (simp add: well_formed_config_def collections_ok_def)
    then obtain c where c: "c \<in> set (cfg_catalogs (sn_config x))" "ct_id c = cl_catalog k" by auto
    then have "find_catalog (sn_config x) (cl_catalog k) = Some c" by (simp add: find_catalog_iff [OF wf])
    then show ?thesis using followed_iff_outside [OF x(1) assms(2) k c] by (simp add: collection_out_def)
  qed
  have "filter (collection_out S (sn_config x)) (cfg_collections (sn_config x))
      = filter (\<lambda>k. cl_id k \<in> out_ids S a) (cfg_collections (sn_config x))"
    if "confined S a x" "base_ok x" for x
    by (rule filter_cong [OF refl]) (rule eq [OF that])
  from this [OF assms(1,3)] this [OF confined_refl [OF assms(2)] assms(2)] d(9)
  have "filter (collection_out S (sn_config b)) (cfg_collections (sn_config b))
         = filter (collection_out S (sn_config a)) (cfg_collections (sn_config a))" by simp
  with d show ?thesis unfolding same_outside_def by blast
qed

lemma same_outside_platform:
  fixes a b :: "'x control_snapshot"
  assumes "base_ok a" "base_ok b"
  shows "same_outside Platform a b"
proof -
  have "filter (collection_out Platform (sn_config x)) (cfg_collections (sn_config x)) = []"
    if "base_ok x" for x :: "'x control_snapshot"
  proof -
    have wf: "well_formed_config (sn_config x)" using that by (simp add: base_ok_def)
    have "\<not> collection_out Platform (sn_config x) k" if "k \<in> set (cfg_collections (sn_config x))" for k
    proof -
      from wf that have "cl_catalog k \<in> ct_id ` set (cfg_catalogs (sn_config x))"
        by (simp add: well_formed_config_def collections_ok_def)
      then obtain c where "find_catalog (sn_config x) (cl_catalog k) = Some c"
        using find_catalog_iff [OF wf] by fastforce
      then show ?thesis by (simp add: collection_out_def)
    qed
    then show ?thesis by (simp add: filter_empty_conv)
  qed
  with assms show ?thesis
    by (simp add: same_outside_def tenant_out_def [abs_def] catalog_out_def [abs_def] binding_out_def [abs_def]
        policy_out_def [abs_def])
qed

text \<open>The fold over the operations keeps the snapshot confined.\<close>

lemma applied_confined:
  assumes "apply_control_changes env sn versions revision auth changes = Inr a"
  shows "same_outside (au_effective_scope auth) sn (ac_snapshot a)"
proof -
  let ?S = "au_effective_scope auth"
  from assms obtain s where valid: "snapshot_validate env sn = Inr ()" "snapshot_validate env (as_snapshot s) = Inr ()"
    and f: "fold_each (apply_one ?S sn versions) (ch_operations changes) (initial_state sn) = Inr s"
    and a: "ac_snapshot a = as_snapshot s" by (rule apply_control_changes_D)
  note ok = valid [THEN validated_base]
  show ?thesis
  proof (cases "?S = Platform")
    case True
    with ok show ?thesis by (simp add: a same_outside_platform)
  next
    case False
    have "confined ?S sn (as_snapshot s)"
      using f
    proof (rule fold_each_invariant)
      show "confined ?S sn (as_snapshot (initial_state sn))"
        by (simp add: initial_state_def confined_refl [OF ok(1)])
    qed (rule apply_one_confined [OF _ ok(1) False])
    then show ?thesis unfolding a by (rule confined_same_outside [OF _ ok])
  qed
qed

end
