(* ===== verification/Mutation_Claims.thy ===== *)
theory Mutation_Claims
  imports Confinement Delegation
begin

text \<open>
  What the checkpoint and the application of a changeset promise together: an authorized mutation
  is bound to the request, the snapshot and the changeset it was authorized for; applying it leaves
  a valid snapshot, changes nothing outside its scope, moves exactly the versions of the resources it
  reports, refuses lost updates, and gives the new policies no authority the author lacks.
\<close>

section \<open>A mutation on the sample deployment\<close>

definition sample_policy :: "unit path_policy" where
  "sample_policy = path_policy_new ''read'' ''reader'' (Tenant ''t1'') Allow [''GET'']
     [''/_control/v1/tenants/acme/settings'']"

definition sample_changes :: "unit control_change_set" where
  "sample_changes =
     \<lparr>ch_idempotency_key = Some ''key-1'',
      ch_operations =
        [\<lparr>vo_expected_entity_version = Some ''7'', vo_operation = PutCatalog (sample_catalog ''c2'' ''t1'')\<rparr>,
         \<lparr>vo_expected_entity_version = None, vo_operation = PutPathPolicy sample_policy\<rparr>]\<rparr>"

definition sample_versions :: entity_versions where
  "sample_versions = fmap_of_list [(''tenant/t1/catalog/c2'', ''7''), (''tenant/t1'', ''3'')]"

definition sample_authorization :: "unit authorized_control_mutation" where
  "sample_authorization =
     \<lparr>au_request_fingerprint = ''fp'', au_replay_only = False, au_principal = sample_principal ''ann'',
      au_effective_scope = Tenant ''t1'', au_decision_context = denied (Tenant ''t1''),
      au_audit_request = \<lparr>ar_method = ''POST'', ar_canonical_path = ''/_control/v1/tenants/acme'',
        ar_correlation_id = ''corr''\<rparr>,
      au_snapshot_revision = 8, au_authoritative_snapshot = sample_snapshot,
      au_authoritative_entity_versions = sample_versions, au_changes = sample_changes\<rparr>"

definition sample_result :: "unit applied_control_change_set" where
  "sample_result =
     \<lparr>ac_snapshot = sample_snapshot\<lparr>sn_policies := [sample_deny, sample_policy]\<rparr>,
      ac_entity_versions = fmap_of_list [(''tenant/t1/catalog/c2'', ''9''), (''tenant/t1'', ''3''),
        (''path-policy/read'', ''9'')],
      ac_changed_resources = [''path-policy/read'', ''tenant/t1/catalog/c2'']\<rparr>"

lemma sample_applied:
  "apply_control_changes sample_env sample_snapshot sample_versions 9 sample_authorization sample_changes
   = Inr sample_result"
  by code_simp

section \<open>The authorization of a mutation\<close>

text \<open>
  C18. Every mutation the checkpoint lets through is bound to what it was checked for: its path is
  canonical and verified against the route template, its scope is the one the path resolves to in the
  validated snapshot, default-deny authorization allows it there, the changeset fits the route, and
  the token carries the subject, the snapshot, its revision, its entity versions and the changeset.
\<close>

theorem authorized_mutation_is_bound:
  assumes "authorize_control_mutation dg subject method raw template registry root v changes correlation = Inr m"
    and "versioned_new env sn revision versions = Inr v"
  shows "\<exists>path view d.
    canonicalize_control_path raw root = Inr path \<and> registry_verify registry path template = Inr d
    \<and> snapshot_validated env sn = Inr view \<and> resolve_snapshot_scope path view = Inr (au_effective_scope m)
    \<and> authorize_control subject \<lparr>rq_method = method, rq_canonical_path = cp_value path,
          rq_route_template = template, rq_scope = au_effective_scope m\<rparr> view = Decision_Allow
    \<and> validate_mutation_intent dg d method path (au_effective_scope m) view changes = Inr (au_replay_only m)
    \<and> change_set_validate changes = Inr () \<and> method \<noteq> ''GET'' \<and> method \<noteq> ''HEAD''
    \<and> au_principal m = as_principal subject \<and> au_snapshot_revision m = revision
    \<and> au_authoritative_snapshot m = sn \<and> au_authoritative_entity_versions m = versions
    \<and> au_changes m = changes"
proof -
  obtain view where view: "snapshot_validated env sn = Inr view"
    "validated_state v = Inr (view, revision, versions)" using versioned_new_state [OF assms(2)] by blast
  then have vs: "validated_snapshot v = Inr view" by (simp add: validated_snapshot_def)
  from assms(1) have verb: "method \<noteq> ''GET''" "method \<noteq> ''HEAD''"
    by (auto simp: authorize_control_mutation_def split: if_splits)
  from assms(1) vs obtain path d scope replay where
    path: "canonicalize_control_path raw root = Inr path"
    and d: "registry_verify registry path template = Inr d"
    and scope: "resolve_snapshot_scope path view = Inr scope"
    and intent: "validate_mutation_intent dg d method path scope view changes = Inr replay"
    and canon: "authorize_control_mutation_canonical dg subject
        \<lparr>rq_method = method, rq_canonical_path = cp_value path, rq_route_template = template, rq_scope = scope\<rparr>
        \<lparr>ar_method = method, ar_canonical_path = cp_value path, ar_correlation_id = correlation\<rparr>
        v changes path replay = Inr m"
    by (auto simp: authorize_control_mutation_def and_then_Inr_iff map_err_Inr_iff split: if_splits)
  let ?rq = "\<lparr>rq_method = method, rq_canonical_path = cp_value path, rq_route_template = template, rq_scope = scope\<rparr>"
  from canon view(2) have valid: "is_ok (change_set_validate changes)"
    and allow: "ev_decision (explain_control_canonical subject ?rq view path) = Decision_Allow"
    and m: "au_effective_scope m = scope" "au_replay_only m = replay" "au_principal m = as_principal subject"
      "au_snapshot_revision m = revision" "au_authoritative_snapshot m = vs_source view"
      "au_authoritative_entity_versions m = versions" "au_changes m = changes"
    by (auto simp: authorize_control_mutation_canonical_def Let_def split: if_splits option.splits)
  have "canonical_request_path ?rq = Some path"
    using canonicalize_idem [OF path] by (simp add: canonical_request_path_def)
  then have "authorize_control subject ?rq view = Decision_Allow"
    using allow by (simp add: authorize_control_def explain_decision)
  moreover have "change_set_validate changes = Inr ()" using valid by (auto simp: is_ok_iff)
  ultimately show ?thesis
    using path d view(1) scope intent verb m snapshot_validated_D(2) [OF view(1)]
    by (intro exI [of _ path] exI [of _ view] exI [of _ d]) simp
qed

definition sample_versioned :: "unit versioned_control_snapshot" where
  "sample_versioned =
     \<lparr>vc_snapshot = sample_snapshot, vc_revision = 8, vc_entity_versions = sample_versions,
      vc_validated = Some sample_view, vc_validated_revision = Some 8,
      vc_validated_entity_versions = Some sample_versions\<rparr>"

lemma sample_versioned_new: "versioned_new sample_env sample_snapshot 8 sample_versions = Inr sample_versioned"
  by (simp add: versioned_new_def sample_versioned_def)

definition sample_settings_edit :: "unit control_change_set" where
  "sample_settings_edit =
     \<lparr>ch_idempotency_key = None,
      ch_operations = [\<lparr>vo_expected_entity_version = Some ''3'', vo_operation = SetTenantSettings ''acme'' default_settings\<rparr>]\<rparr>"

theorem authorized_mutation_is_bound_witness:
  "\<exists>m. authorize_control_mutation (sample_digest (\<lambda>_. Some JNull)) (sample_actor ''ann'') ''PUT''
        ''/_control/v1/tenants/acme/settings'' (route_template TenantSettings)
        (fmupd (route_template TenantSettings) (template_path TenantSettings, TenantSettings) fmempty) []
        sample_versioned sample_settings_edit ''corr'' = Inr m
     \<and> au_effective_scope m = Tenant ''t1'' \<and> au_authoritative_snapshot m = sample_snapshot"
proof -
  let ?run = "authorize_control_mutation (sample_digest (\<lambda>_. Some JNull)) (sample_actor ''ann'') ''PUT''
        ''/_control/v1/tenants/acme/settings'' (route_template TenantSettings)
        (fmupd (route_template TenantSettings) (template_path TenantSettings, TenantSettings) fmempty) []
        sample_versioned sample_settings_edit ''corr''"
  let ?path = "\<lparr>cp_value = ''/_control/v1/tenants/acme/settings'',
     cp_segments = [''_control'', ''v1'', ''tenants'', ''acme'', ''settings'']\<rparr>"
  have "is_ok ?run" by code_simp
  then obtain m where m: "?run = Inr m" by (auto simp: is_ok_iff)
  have p: "canonicalize_control_path ''/_control/v1/tenants/acme/settings'' [] = Inr ?path"
    and s: "resolve_snapshot_scope ?path sample_view = Inr (Tenant ''t1'')"
    by code_simp+
  from authorized_mutation_is_bound [OF m sample_versioned_new] p s m show ?thesis by auto
qed

section \<open>The application of a changeset\<close>

text \<open>
  C5. Applying a changeset authorized for a scope leaves everything outside that scope as it was:
  tenants, catalogs, collections, role bindings, policies and tombstones of other scopes, and, unless
  the scope is the platform, all the rest of the document, whatever the operations are, moves of
  collections between catalogs included.
\<close>

theorem mutation_confined_to_scope:
  assumes "apply_control_changes env sn versions revision auth changes = Inr a"
  shows "same_outside (au_effective_scope auth) sn (ac_snapshot a)"
  by (rule applied_confined [OF assms])

theorem mutation_confined_to_scope_witness:
  "same_outside (Tenant ''t1'') sample_snapshot (ac_snapshot sample_result)
   \<and> ac_snapshot sample_result \<noteq> sample_snapshot"
proof -
  have "au_effective_scope sample_authorization = Tenant ''t1''" by (simp add: sample_authorization_def)
  moreover have "ac_snapshot sample_result \<noteq> sample_snapshot"
    by (simp add: sample_result_def sample_snapshot_def)
  ultimately show ?thesis using mutation_confined_to_scope [OF sample_applied] by simp
qed

text \<open>
  C33. A successful application leaves a valid snapshot, and it was computed from the snapshot, the
  entity versions and the changeset the mutation was authorized for, at the next revision.
\<close>

theorem applied_snapshot_is_valid:
  assumes "apply_control_changes env sn versions revision auth changes = Inr a"
  shows "snapshot_validate env (ac_snapshot a) = Inr () \<and> is_ok (snapshot_validated env (ac_snapshot a))
    \<and> au_changes auth = changes \<and> au_authoritative_snapshot auth = sn
    \<and> au_authoritative_entity_versions auth = versions
    \<and> revision \<noteq> 0 \<and> revision = au_snapshot_revision auth + 1"
proof -
  from assms obtain result where s: "snapshot_validate env result = Inr ()" "ac_snapshot a = result"
    "au_changes auth = changes" "revision \<noteq> 0" "au_snapshot_revision auth = revision - 1"
    "au_authoritative_snapshot auth = sn" "au_authoritative_entity_versions auth = versions"
    by (rule apply_control_changes_D) blast
  moreover have "is_ok (snapshot_validated env result)"
    using snapshot_validated_total [OF s(1)] by (auto simp: is_ok_iff)
  ultimately show ?thesis by simp
qed

theorem applied_snapshot_is_valid_witness:
  "snapshot_validate sample_env (ac_snapshot sample_result) = Inr ()"
  using applied_snapshot_is_valid [OF sample_applied] by simp

text \<open>
  Entity versions: the reported resources are sorted and without duplicates; each of them
  carries the new revision or no version any more; every other resource keeps its version.
\<close>

lemma changed_resources_move_versions:
  assumes "apply_control_changes env sn versions revision auth changes = Inr a"
  shows "sorted_wrt (<) (ac_changed_resources a)
    \<and> (\<forall>k. fmlookup (ac_entity_versions a) k \<noteq> fmlookup versions k \<longrightarrow> k \<in> set (ac_changed_resources a))
    \<and> (\<forall>k \<in> set (ac_changed_resources a).
         fmlookup (ac_entity_versions a) k = None \<or> fmlookup (ac_entity_versions a) k = Some (show_u64 revision))"
  using applied_versions [OF assms] by (auto simp: strict_sorted_iff)

lemma changed_resources_move_versions_example:
  "fmlookup (ac_entity_versions sample_result) ''tenant/t1'' = fmlookup sample_versions ''tenant/t1''
   \<and> fmlookup (ac_entity_versions sample_result) ''path-policy/read'' = Some (show_u64 9)"
proof -
  have out: "''tenant/t1'' \<notin> set (ac_changed_resources sample_result)"
    and r: "''path-policy/read'' \<in> set (ac_changed_resources sample_result)"
    and some: "fmlookup (ac_entity_versions sample_result) ''path-policy/read'' \<noteq> None"
    by (simp_all add: sample_result_def fmlookup_of_list)
  note c = changed_resources_move_versions [OF sample_applied]
  show ?thesis
  proof
    show "fmlookup (ac_entity_versions sample_result) ''tenant/t1'' = fmlookup sample_versions ''tenant/t1''"
      using c [THEN conjunct2, THEN conjunct1] out by blast
    show "fmlookup (ac_entity_versions sample_result) ''path-policy/read'' = Some (show_u64 9)"
      using bspec [OF c [THEN conjunct2, THEN conjunct2] r] some by auto
  qed
qed

text \<open>
  The resource an operation of a changeset writes. \<open>authority\<close> is the snapshot the mutation was authorized
  on, \<open>candidate\<close> the one the operation is applied to. A catalog or collection the authority has is the one it has
  there, whatever parent it is put under; one that is new, under its new parent, which may itself be new.
\<close>

definition written_resource :: "'x control_operation \<Rightarrow> 'x control_snapshot \<Rightarrow> 'x control_snapshot \<Rightarrow> string option" where
  "written_resource operation authority candidate =
     (let cfg = sn_config authority;
          tenant_named = (\<lambda>ext. List.find (\<lambda>t. tenant_external_id t = ext) (cfg_tenants cfg));
          collection_in = (\<lambda>cfg k. map_option (\<lambda>c. resource_key (Collection (ct_tenant c) (ct_id c) (cl_id k))) (find_catalog cfg (cl_catalog k)))
      in case operation of
        ReplacePlatformSettings _ \<Rightarrow> Some (resource_key Platform)
      | SetPlatformSettings _ \<Rightarrow> Some (resource_key Platform)
      | SetTenantSettings tenant _ \<Rightarrow> map_option (\<lambda>t. resource_key (Tenant (tn_id t))) (tenant_named tenant)
      | SetCatalogSettings tenant catalog _ \<Rightarrow>
          Option.bind (tenant_named tenant) (\<lambda>t.
            map_option (\<lambda>c. resource_key (Catalog (tn_id t) (ct_id c)))
              (List.find (\<lambda>c. ct_tenant c = tn_id t \<and> catalog_external_id c = catalog) (cfg_catalogs cfg)))
      | PutTenant tenant \<Rightarrow> Some (resource_key (Tenant (tn_id tenant)))
      | PutCatalog catalog \<Rightarrow>
          (let c = (case find_catalog cfg (ct_id catalog) of Some existing \<Rightarrow> existing | None \<Rightarrow> catalog)
           in Some (resource_key (Catalog (ct_tenant c) (ct_id c))))
      | PutCollection collection \<Rightarrow>
          (case Option.bind (find_collection cfg (cl_id collection)) (collection_in cfg) of
             Some key \<Rightarrow> Some key
           | None \<Rightarrow> collection_in (sn_config candidate) collection)
      | TombstoneResource scope \<Rightarrow> Some (resource_key scope)
      | PermanentlyDeleteResource scope \<Rightarrow> Some (resource_key scope)
      | PutRoleBinding b \<Rightarrow> Some (binding_key (rb_principal b) (rb_scope b) (rb_role b))
      | DeleteRoleBinding who scope role \<Rightarrow> Some (binding_key who scope role)
      | PutPathPolicy policy \<Rightarrow> Some (''path-policy/'' @ pp_id policy)
      | DeletePathPolicy i \<Rightarrow> Some (''path-policy/'' @ i))"

lemma settings_scope_key:
  "settings_scope sn tenant None = Inr s \<Longrightarrow>
     \<exists>t. List.find (\<lambda>t. tenant_external_id t = tenant) (cfg_tenants (sn_config sn)) = Some t \<and> s = Tenant (tn_id t)"
  "settings_scope sn tenant (Some catalog) = Inr s \<Longrightarrow>
     \<exists>t c. List.find (\<lambda>t. tenant_external_id t = tenant) (cfg_tenants (sn_config sn)) = Some t
       \<and> List.find (\<lambda>c. ct_tenant c = tn_id t \<and> catalog_external_id c = catalog) (cfg_catalogs (sn_config sn)) = Some c
       \<and> s = Catalog (tn_id t) (ct_id c)"
  by (auto simp: settings_scope_def and_then_Inr_iff ok_or_Inr_iff)

lemma expected_key_is_written:
  assumes key: "operation_expected_key op authority candidate = Inr key"
    and scopes: "operation_scopes op authority candidate = Inr scopes"
  shows "written_resource op authority candidate = Some key"
proof (cases op)
  case (SetTenantSettings tenant settings)
  with key scopes obtain s where "settings_scope authority tenant None = Inr s" "key = resource_key s"
    by (auto simp: operation_expected_key_def operation_key_def operation_scopes_def stable_settings_scope_def and_then_Inr_iff
        split: if_splits)
  with settings_scope_key(1) SetTenantSettings show ?thesis by (fastforce simp: written_resource_def)
next
  case (SetCatalogSettings tenant catalog settings)
  with key scopes obtain s where "settings_scope authority tenant (Some catalog) = Inr s" "key = resource_key s"
    by (auto simp: operation_expected_key_def operation_key_def operation_scopes_def stable_settings_scope_def and_then_Inr_iff
        split: if_splits)
  with settings_scope_key(2) SetCatalogSettings show ?thesis by (fastforce simp: written_resource_def)
next
  case (PutCatalog catalog)
  with key show ?thesis
    by (auto simp: operation_expected_key_def operation_key_def written_resource_def catalog_resource_key_def split: option.splits)
next
  case (PutCollection collection)
  with key show ?thesis
    by (auto simp: operation_expected_key_def operation_key_def written_resource_def collection_resource_key_def
        catalog_of_collection_def and_then_Inr_iff ok_or_Inr_iff split: option.splits bind_splits)
qed (use key in \<open>auto simp: operation_expected_key_def operation_key_def written_resource_def\<close>)

text \<open>
  C34. No lost update: when an operation of an applied changeset names an expected version, that
  version is the one recorded for the very resource the operation writes (a resource without a version counts as
  version zero), the operation being applied to what the operations before it left.
\<close>

theorem stale_versions_are_refused:
  assumes "apply_control_changes env sn versions revision auth changes = Inr a"
    and "ch_operations changes = before @ v # later" "vo_expected_entity_version v = Some e"
  shows "\<exists>s key. fold_each (apply_one (au_effective_scope auth) sn versions) before (initial_state sn) = Inr s
    \<and> written_resource (vo_operation v) sn (as_snapshot s) = Some key
    \<and> (case fmlookup versions key of Some c \<Rightarrow> c | None \<Rightarrow> ''0'') = e"
proof -
  from assms(1) obtain t where
    "fold_each (apply_one (au_effective_scope auth) sn versions) (before @ v # later) (initial_state sn) = Inr t"
    using assms(2) by (metis apply_control_changes_D)
  then obtain s s' where s: "fold_each (apply_one (au_effective_scope auth) sn versions) before (initial_state sn) = Inr s"
    "apply_one (au_effective_scope auth) sn versions v s = Inr s'"
    by (auto simp: fold_each_append and_then_Inr_iff)
  from s(2) obtain scopes key where k: "operation_scopes (vo_operation v) sn (as_snapshot s) = Inr scopes"
    "operation_expected_key (vo_operation v) sn (as_snapshot s) = Inr key"
    "check_expected_version versions key (vo_expected_entity_version v) = Inr ()" by (rule apply_one_D)
  from k(3) assms(3) have "(case fmlookup versions key of Some c \<Rightarrow> c | None \<Rightarrow> ''0'') = e"
    by (auto simp: check_expected_version_def Let_def split: if_splits)
  with s(1) expected_key_is_written [OF k(2,1)] show ?thesis by blast
qed

theorem stale_versions_are_refused_witness:
  "(case fmlookup sample_versions ''tenant/t1/catalog/c2'' of Some c \<Rightarrow> c | None \<Rightarrow> ''0'') = ''7''"
proof -
  let ?op = "PutCatalog (sample_catalog ''c2'' ''t1'')"
  let ?v = "\<lparr>vo_expected_entity_version = Some ''7'', vo_operation = ?op\<rparr>"
  have m: "ch_operations sample_changes
      = [] @ ?v # [\<lparr>vo_expected_entity_version = None, vo_operation = PutPathPolicy sample_policy\<rparr>]"
    by (simp add: sample_changes_def)
  have e: "vo_expected_entity_version ?v = Some ''7''" by simp
  have "written_resource ?op sample_snapshot sample_snapshot = Some ''tenant/t1/catalog/c2''" by code_simp
  moreover have "written_resource ?op sample_snapshot c = written_resource ?op sample_snapshot sample_snapshot" for c
    by (simp add: written_resource_def Let_def)
  ultimately show ?thesis using stale_versions_are_refused [OF sample_applied m e] by auto
qed

text \<open>
  C17. The changeset as a whole gives nobody authority its author lacks: whatever a policy written
  by an applied changeset matches, in the snapshot it leaves, is a request that the author of the mutation was
  allowed to make under the snapshot the mutation was authorized against. It is said of the requests that this
  earlier snapshot locates (\<open>path_located\<close>): the path lies inside the compiled envelopes of the request's scope and of
  the scopes above it there. A resource that the changeset itself creates has no envelope there, nor has one
  whose external identifier does not compile as a pattern, for which the delegation check overlooks a deny
  (\<open>deny_check_skips_uncompilable_envelope\<close> in \<open>Delegation\<close>).
\<close>

lemma changed_policy_checked:
  assumes "check_result env who sn result ops = Inr ()"
    and "op \<in> set ops" "changed_policy_id op = Some i" "find_policy result i = Some p"
  shows "validate_delegated_policy env \<lparr>as_principal = who, as_claims = ()\<rparr> p sn = Inr ()"
proof -
  have "i \<in> set (retain_first {} (List.map_filter changed_policy_id ops))"
    using assms(2,3) by (force simp: set_retain_first List.map_filter_def)
  with assms(1) have "check_changed_policy env who sn result i = Inr ()"
    by (simp add: check_result_def and_then_Inr_iff for_each_Inr_iff)
  with assms(4) show ?thesis
    by (auto simp: check_changed_policy_def Let_def and_then_Inr_iff map_err_Inr_iff)
qed

theorem applied_policies_never_escalate:
  assumes "apply_control_changes env sn versions revision auth changes = Inr a"
    and "snapshot_validated env sn = Inr view"
    and "PutPathPolicy written \<in> vo_operation ` set (ch_operations changes)"
    and "p \<in> set (sn_policies (ac_snapshot a))" "pp_id p = pp_id written"
    and "pp_scope p = Some scope" "scope_contains scope (rq_scope request)"
    and "rq_method request \<in> set (pp_methods p)"
    and "raw_pattern \<in> set (pp_patterns p)" "compile_pattern raw_pattern = Inr pattern"
    and "canonical_request_path request = Some path" "pattern_matches pattern path"
    and "path_located (vs_config view) (rq_scope request) (cp_segments path)"
    and "as_principal actor = au_principal auth"
  shows "authorize_control actor request view = Decision_Allow"
proof -
  from assms(1) obtain result where s: "snapshot_validate env result = Inr ()"
    "check_result env (au_principal auth) sn result (map vo_operation (ch_operations changes)) = Inr ()"
    "ac_snapshot a = result" by (rule apply_control_changes_D) blast
  have "distinct (map pp_id (sn_policies result))"
    using s(1) by (simp add: snapshot_validate_iff check_policies_iff)
  from find_unique [OF this, of p] have "find_policy result (pp_id written) = Some p"
    using assms(4,5) s(3) by (simp add: find_policy_def)
  moreover have "changed_policy_id (PutPathPolicy written) = Some (pp_id written)"
    by (simp add: changed_policy_id_def)
  ultimately have "validate_delegated_policy env \<lparr>as_principal = au_principal auth, as_claims = ()\<rparr> p sn = Inr ()"
    using changed_policy_checked [OF s(2)] assms(3) by auto
  then have "validate_delegated_policy_against \<lparr>as_principal = au_principal auth, as_claims = ()\<rparr> p view = Inr ()"
    using assms(2) by (simp add: validate_delegated_policy_def)
  from delegated_policy_sound [OF this assms(2,6-10) assms(12) [unfolded pattern_matches_def] assms(13)]
  have "spec_allows (bearing actor request view path)" using assms(14) by (simp add: bearing_def)
  then show ?thesis by (rule spec_allows_authorized [OF assms(11)])
qed

theorem applied_policies_never_escalate_witness:
  "authorize_control (sample_actor ''ann'')
     (sample_request ''GET'' ''/_control/v1/tenants/acme/settings'' (Tenant ''t1'')) sample_view
   = Decision_Allow"
proof -
  let ?segs = "[''_control'', ''v1'', ''tenants'', ''acme'', ''settings'']"
  let ?pattern = "map Literal ?segs"
  let ?rq = "sample_request ''GET'' ''/_control/v1/tenants/acme/settings'' (Tenant ''t1'')"
  let ?path = "\<lparr>cp_value = ''/_control/v1/tenants/acme/settings'', cp_segments = ?segs\<rparr>"
  have p: "canonical_request_path ?rq = Some ?path"
    and l: "path_located (vs_config sample_view) (rq_scope ?rq) (cp_segments ?path)"
    and c: "compile_pattern ''/_control/v1/tenants/acme/settings'' = Inr ?pattern"
    by code_simp+
  have w: "PutPathPolicy sample_policy \<in> vo_operation ` set (ch_operations sample_changes)"
    and r: "sample_policy \<in> set (sn_policies (ac_snapshot sample_result))"
    and a: "as_principal (sample_actor ''ann'') = au_principal sample_authorization"
    by (simp_all add: sample_changes_def sample_result_def sample_actor_def sample_authorization_def)
  show ?thesis
    by (rule applied_policies_never_escalate [OF sample_applied sample_validated w r refl, where scope = "Tenant ''t1''"
        and raw_pattern = "''/_control/v1/tenants/acme/settings''", OF _ _ _ _ c p _ l a])
      (simp_all add: sample_policy_def path_policy_new_def sample_request_def pattern_matches_def)
qed

text \<open>
  A preview is the application without the commit: at any revision below the greatest, it
  fails exactly when the application at the next revision fails, with the same error, and otherwise
  reports the snapshot, the changed resources and exactly their new versions.
\<close>

lemma preview_is_the_application:
  assumes "vc_revision v \<noteq> -1"
  shows "case (preview_control_changes env v auth changes,
      apply_control_changes env (vc_snapshot v) (vc_entity_versions v) (vc_revision v + 1) auth changes) of
      (Inl e, Inl f) \<Rightarrow> e = f
    | (Inr p, Inr a) \<Rightarrow> pv_prospective_snapshot p = ac_snapshot a
        \<and> pv_changed_resources p = ac_changed_resources a
        \<and> pv_base_revision p = vc_revision v \<and> pv_prospective_revision p = vc_revision v + 1
        \<and> (\<forall>r. fmlookup (pv_entity_versions p) r
             = (if r \<in> set (ac_changed_resources a) then fmlookup (ac_entity_versions a) r else None))
    | _ \<Rightarrow> False"
  unfolding preview_iff [OF assms] by (simp add: fmlookup_map_filter split: sum.split)

lemma preview_is_the_application_example:
  "\<exists>p. preview_control_changes sample_env
        \<lparr>vc_snapshot = sample_snapshot, vc_revision = 8, vc_entity_versions = sample_versions,
         vc_validated = None, vc_validated_revision = None, vc_validated_entity_versions = None\<rparr>
        sample_authorization sample_changes = Inr p
     \<and> pv_prospective_snapshot p = ac_snapshot sample_result"
proof -
  let ?v = "\<lparr>vc_snapshot = sample_snapshot, vc_revision = 8 :: u64, vc_entity_versions = sample_versions,
         vc_validated = None, vc_validated_revision = None, vc_validated_entity_versions = None\<rparr>"
  have "vc_revision ?v \<noteq> -1" by simp
  from preview_is_the_application [OF this, of sample_env sample_authorization sample_changes] sample_applied
  show ?thesis by (auto split: sum.splits)
qed

section \<open>Pages of change events\<close>

text \<open>
  A page of change events is accepted exactly when its cursors strictly increase from the
  cursor it was asked after (from revision 0, ordinal 0 when there was none), and an accepted page
  holds no event twice.
\<close>

lemma event_page_is_strictly_ordered:
  "(validate_control_event_page after events = Inr () \<longleftrightarrow>
     sorted_wrt (<) ((case after of Some c \<Rightarrow> c | None \<Rightarrow> Cursor 0 0) # map event_cursor events))
   \<and> (validate_control_event_page after events = Inr () \<longrightarrow> distinct events)"
proof -
  have "sorted_wrt (<) (map event_cursor events) \<Longrightarrow> distinct events"
    using strict_sorted_iff [of "map event_cursor events"] by (auto simp: distinct_map)
  then show ?thesis unfolding event_page_iff by auto
qed

lemma event_page_is_strictly_ordered_example:
  "distinct [\<lparr>ve_revision = 4, ve_ordinal = 0, ve_changed_resources = []\<rparr>,
     \<lparr>ve_revision = 4, ve_ordinal = 1, ve_changed_resources = []\<rparr>]"
proof -
  have "validate_control_event_page (Some (Cursor 3 7)) [\<lparr>ve_revision = 4, ve_ordinal = 0, ve_changed_resources = []\<rparr>,
     \<lparr>ve_revision = 4, ve_ordinal = 1, ve_changed_resources = []\<rparr>] = Inr ()"
    by code_simp
  then show ?thesis using event_page_is_strictly_ordered by blast
qed

end
