(* ===== verification/Store_Claims.thy ===== *)
theory Store_Claims
  imports Store_Invariant Mutation_Claims
begin

text \<open>
  What the in-memory store and the consumer of its feed promise: the reachable states are numbered
  histories of valid snapshots, a retried request commits once, of two mutations authorized at the
  same revision one commits at most, a refresh returns whatever the store answers, and over a
  reachable store it meets no gap and applies a revision at least as new as the one it observed.
\<close>

section \<open>A run of the sample store\<close>

definition sample_store :: "unit control_state" where
  "sample_store = empty_store
     \<lparr>ms_revision := 1, ms_snapshot := Some sample_snapshot,
      ms_events := [\<lparr>ve_revision = 1, ve_ordinal = 0, ve_changed_resources = [''snapshot'']\<rparr>],
      ms_audit := [\<lparr>ca_revision = 1, ca_actor = sample_principal ''root'', ca_request = bootstrap_request,
         ca_idempotency_key = None, ca_changed_resources = [''snapshot''],
         ca_recorded_at_unix_ms = 5, ca_applying_instance = IN_MEMORY_INSTANCE\<rparr>]\<rparr>"

definition sample_policy_change :: "string \<Rightarrow> unit control_change_set" where
  "sample_policy_change key =
     \<lparr>ch_idempotency_key = Some key,
      ch_operations = [\<lparr>vo_expected_entity_version = None, vo_operation = PutPathPolicy sample_policy\<rparr>]\<rparr>"

definition sample_token :: "string \<Rightarrow> unit authorized_control_mutation" where
  "sample_token key = sample_authorization
     \<lparr>au_snapshot_revision := 1, au_authoritative_entity_versions := fmempty,
      au_changes := sample_policy_change key\<rparr>"

lemma sample_bootstrapped:
  "mem_bootstrap sample_env 5 sample_snapshot (sample_principal ''root'') AllowEmptyPlatform empty_store
   = Inr (Bootstrapped 1, sample_store)"
proof -
  have "validate_actor (sample_principal ''root'') = Inr ()" by code_simp
  then show ?thesis
    by (simp add: mem_bootstrap_def empty_store_def sample_store_def validate_control_bootstrap_seed_def)
qed

lemma sample_store_step: "mem_step sample_env empty_store sample_store"
  by (rule Bootstrap_Step [OF sample_bootstrapped])

lemma sample_store_reachable: "mem_reachable sample_env sample_store"
  unfolding mem_reachable_def using sample_store_step by simp

lemma sample_commit:
  obtains c t where "mem_transact sample_env 6 (sample_token ''key-1'') (sample_policy_change ''key-1'') sample_store
      = Inr (c, t)" "\<not> co_replayed c" "co_revision c = 2"
proof -
  have "case mem_transact sample_env 6 (sample_token ''key-1'') (sample_policy_change ''key-1'') sample_store of
      Inl _ \<Rightarrow> False | Inr (c, t) \<Rightarrow> \<not> co_replayed c \<and> co_revision c = 2"
    by code_simp
  then show ?thesis using that by (auto split: sum.splits)
qed

section \<open>Properties\<close>

text \<open>
  C9. Every reachable state of the store is a numbered history: its snapshot is valid, its events
  carry the revisions 1 to the current one, each once and in order, the audit trail records the same
  revisions with the same resources, every idempotency key stands for a commit of that history, and
  no entity version exceeds the current revision.
\<close>

theorem reachable_store_is_a_history:
  assumes "mem_reachable env s"
  shows "store_ok env s"
  by (rule reachable_ok [OF assms])

theorem reachable_store_is_a_history_witness:
  "\<exists>t. mem_reachable sample_env t \<and> ms_revision t = 2
     \<and> map event_cursor (ms_events t) = [Cursor 1 0, Cursor 2 0]"
proof -
  obtain c t where t: "mem_transact sample_env 6 (sample_token ''key-1'') (sample_policy_change ''key-1'') sample_store
      = Inr (c, t)" "\<not> co_replayed c" "co_revision c = 2" by (rule sample_commit)
  from Transact_Step [OF t(1)] have r: "mem_reachable sample_env t"
    using sample_store_reachable unfolding mem_reachable_def by simp
  from t(1) have v: "ms_revision t = 2"
  proof (cases rule: mem_transact_cases)
    case replay
    with t(2) show ?thesis by simp
  next
    case (fresh sn applied)
    from fresh_extends(3) [OF fresh(1,3,4,7)] show ?thesis by (simp add: sample_store_def)
  qed
  have "store_ok sample_env t" by (rule reachable_store_is_a_history [OF r])
  then have "map event_cursor (ms_events t) = numbered 2" using v by (simp add: store_ok_def history_recorded_def)
  also have "numbered 2 = [Cursor 1 0, Cursor 2 0]"
    using numbered_next [of 1] by simp
  finally show ?thesis using r v by (intro exI [of _ t]) simp
qed

text \<open>
  C31. A request commits once: after a commit under an idempotency key, and after any further calls
  of any client, the same changeset from the same authenticated request is answered with the same
  commit, marked as replayed, and changes nothing; a different changeset under that key is refused.
\<close>

theorem retried_request_commits_once:
  assumes "mem_transact env now auth changes s = Inr (c, t)" "(mem_step env)\<^sup>*\<^sup>* t u"
    and "ch_idempotency_key changes = Some key"
    and "validate_actor (au_principal auth') = Inr ()" "validate_request (au_audit_request auth') = Inr ()"
    and "ch_idempotency_key (au_changes auth') = Some key" "change_set_validate (au_changes auth') = Inr ()"
  shows "mem_transact env now' auth' (au_changes auth') u =
    (if au_changes auth' \<noteq> changes then Inl (ControlIdempotencyConflict key)
     else if au_request_fingerprint auth' \<noteq> au_request_fingerprint auth
     then Inl (ControlIdempotencyAuthorizationConflict key)
     else Inr (c\<lparr>co_replayed := True\<rparr>, u))"
proof -
  from assms(1) have "\<exists>recorded. recorded\<lparr>co_replayed := True\<rparr> = c\<lparr>co_replayed := True\<rparr>
      \<and> fmlookup (ms_idempotency t) key = Some (changes, recorded, au_request_fingerprint auth)"
  proof (cases rule: mem_transact_cases)
    case (replay key' recorded)
    with assms(3) show ?thesis by (intro exI [of _ recorded]) simp
  next
    case (fresh sn applied)
    from fresh_extends(8) [OF fresh(1,3,4,7) assms(3)] show ?thesis by blast
  qed
  then obtain recorded where rec: "recorded\<lparr>co_replayed := True\<rparr> = c\<lparr>co_replayed := True\<rparr>"
    "fmlookup (ms_idempotency u) key = Some (changes, recorded, au_request_fingerprint auth)"
    using steps_extend [OF assms(2)] unfolding extends_def by blast
  then show ?thesis
    using assms(4-7) by (auto simp: mem_transact_def mem_replay_def validate_intent_def)
qed

theorem retried_request_commits_once_witness:
  "\<exists>c t. mem_transact sample_env 6 (sample_token ''key-1'') (sample_policy_change ''key-1'') sample_store = Inr (c, t)
     \<and> mem_transact sample_env 7 (sample_token ''key-1'') (sample_policy_change ''key-1'') t
         = Inr (c\<lparr>co_replayed := True\<rparr>, t)"
proof -
  obtain c t where t: "mem_transact sample_env 6 (sample_token ''key-1'') (sample_policy_change ''key-1'') sample_store
      = Inr (c, t)" by (rule sample_commit)
  have v: "validate_actor (au_principal (sample_token ''key-1'')) = Inr ()"
    "validate_request (au_audit_request (sample_token ''key-1'')) = Inr ()"
    "ch_idempotency_key (au_changes (sample_token ''key-1'')) = Some ''key-1''"
    "change_set_validate (au_changes (sample_token ''key-1'')) = Inr ()"
    by code_simp+
  have k: "ch_idempotency_key (sample_policy_change ''key-1'') = Some ''key-1''"
    and a: "au_changes (sample_token ''key-1'') = sample_policy_change ''key-1''"
    by (simp_all add: sample_policy_change_def sample_token_def)
  from retried_request_commits_once [OF t rtranclp.rtrancl_refl k v] t a show ?thesis by auto
qed

text \<open>
  C10. Optimistic concurrency: once a mutation has committed, every later transaction that succeeds
  with an authorization for the same revision of the snapshot is a replay of an earlier commit, so
  of two mutations authorized against the same state at most one takes effect.
\<close>

theorem one_commit_per_revision:
  assumes "mem_transact env now auth changes s = Inr (c, t)" "\<not> co_replayed c"
    and "(mem_step env)\<^sup>*\<^sup>* t u"
    and "mem_transact env now' auth' changes' u = Inr (c', u')"
    and "au_snapshot_revision auth' = au_snapshot_revision auth"
  shows "co_replayed c' \<and> u' = u"
  using assms(4)
proof (cases rule: mem_transact_cases)
  case (fresh sn applied)
  from assms(1) have "ms_snapshot t \<noteq> None \<and> au_snapshot_revision auth < ms_revision t"
  proof (cases rule: mem_transact_cases)
    case replay
    with assms(2) show ?thesis by simp
  next
    case (fresh sn applied)
    note f = fresh_extends [OF fresh(1,3,4,7)]
    from f(3,5) fresh(2) less_next [OF fresh(3)] show ?thesis by simp
  qed
  with steps_extend [OF assms(3)] have "au_snapshot_revision auth < ms_revision u"
    unfolding extends_def by (auto intro: less_le_trans)
  with fresh(2) assms(5) show ?thesis by simp
qed simp

theorem one_commit_per_revision_witness:
  "\<exists>c t. mem_transact sample_env 6 (sample_token ''key-1'') (sample_policy_change ''key-1'') sample_store = Inr (c, t)
     \<and> (\<forall>c' u'. mem_transact sample_env 7 (sample_token ''key-2'') (sample_policy_change ''key-2'') t = Inr (c', u')
          \<longrightarrow> co_replayed c')"
proof -
  obtain c t where t: "mem_transact sample_env 6 (sample_token ''key-1'') (sample_policy_change ''key-1'') sample_store
      = Inr (c, t)" "\<not> co_replayed c" "co_revision c = 2" by (rule sample_commit)
  have "au_snapshot_revision (sample_token ''key-2'') = au_snapshot_revision (sample_token ''key-1'')"
    by (simp add: sample_token_def)
  with one_commit_per_revision [OF t(1,2) rtranclp.rtrancl_refl] t(1) show ?thesis by blast
qed

text \<open>
  C35. The refresh loop over the pages of the feed returns, whatever the store answers and however
  long it keeps answering: a page that passes the order check moves the cursor forward.
\<close>

theorem refresh_always_returns:
  "(\<exists>r. consume pages store_revision call cursor last_revision = Some r)
   \<and> (\<exists>r. refresh_once store activate applied_revision status = Some r)"
proof
  show c: "\<exists>r. consume pages store_revision call cursor last_revision = Some r" by (rule consume_returns)
  have "\<exists>f. \<forall>q. consume (sa_changes_since store) q 0 (Cursor applied_revision (-1)) applied_revision = Some (f q)"
    by (rule choice) (use consume_returns [of "sa_changes_since store"] in blast)
  then show "\<exists>r. refresh_once store activate applied_revision status = Some r"
    by (auto simp: refresh_once_def Let_def split: sum.split option.split)
qed

text \<open>
  C20. Convergence: while other clients keep committing to a reachable store, a refresh that observes
  a revision newer than the applied one, every candidate snapshot being one that activates, reads the feed without
  a gap and applies the snapshot it loads, at a revision no older than the observed one. (One that observes
  nothing newer, or whose candidate does not activate, applies nothing.)
\<close>

definition run_answers :: "'x config_env \<Rightarrow> (nat \<Rightarrow> 'x control_state) \<Rightarrow> nat \<Rightarrow> 'x store_answers" where
  "run_answers env run loaded =
     \<lparr>sa_current_revision = Inr (mem_current_revision (run 0)),
      sa_changes_since = \<lambda>i c n. mem_changes_since c n (run i),
      sa_load_snapshot = mem_load_snapshot env (run loaded)\<rparr>"

theorem refresh_converges:
  assumes "mem_reachable env (run 0)" "\<And>i. (mem_step env)\<^sup>*\<^sup>* (run i) (run (Suc i))"
    and "mem_current_revision (run 0) = Some observed" "applied_revision < observed" "\<And>v. activate v"
  shows "\<exists>q l status'. refresh_once (run_answers env run loaded) activate applied_revision status
      = Some (Inr (Applied q), status')
    \<and> observed \<le> q \<and> mem_current_revision (run loaded) = Some q \<and> rs_applied_revision status' = q
    \<and> consume (sa_changes_since (run_answers env run loaded)) observed 0 (Cursor applied_revision (-1))
        applied_revision = Some (Inr (l, False)) \<and> observed \<le> l"
proof -
  have ok: "store_ok env (run 0)" by (rule reachable_ok [OF assms(1)])
  obtain l where l: "consume (\<lambda>i c n. mem_changes_since c n (run i)) observed 0 (Cursor applied_revision (-1))
      applied_revision = Some (Inr (l, False))" "observed \<le> l"
    using mem.consume_complete [OF ok assms(2,3) le_refl, where n = "-1" and l = applied_revision] by blast
  obtain q where q: "mem_current_revision (run loaded) = Some q" "observed \<le> q"
    using mem.run_revision [OF ok assms(2,3) le0] by blast
  have "store_ok env (run loaded)" by (rule mem.run_good [OF ok assms(2)])
  then obtain sn where sn: "ms_snapshot (run loaded) = Some sn" "snapshot_validate env sn = Inr ()"
    "ms_revision (run loaded) = q" using q(1) by (auto simp: store_ok_def mem_current_revision_def)
  from snapshot_validated_total [OF sn(2)] obtain view where "snapshot_validated env sn = Inr view" by blast
  with sn obtain v where v: "mem_load_snapshot env (run loaded) = Inr v" "vc_revision v = q"
    by (simp add: mem_load_snapshot_def versioned_new_def)
  have "\<not> observed \<le> applied_revision" using assms(4) by simp
  with l q v assms(3,5) show ?thesis
    by (auto simp: refresh_once_def run_answers_def Let_def observe_applied_revision_def)
qed

theorem refresh_converges_witness:
  "\<exists>status'. refresh_once (run_answers sample_env (\<lambda>_. sample_store) 0) (\<lambda>_. True) 0 (runtime_status_new 0)
     = Some (Inr (Applied 1), status')"
proof -
  have r: "mem_current_revision sample_store = Some 1"
    by (simp add: mem_current_revision_def sample_store_def)
  have "(0 :: u64) < 1" by simp
  from refresh_converges [where run = "\<lambda>_. sample_store" and activate = "\<lambda>_. True" and loaded = 0
      and status = "runtime_status_new 0", OF sample_store_reachable _ r this] r
  show ?thesis by auto
qed

text \<open>
  The pause between two refreshes: the poll interval doubled for each of the first five
  consecutive failures and capped at thirty seconds, plus at most a tenth; it never exceeds
  thirty-three seconds and, for a positive interval, is never zero.
\<close>

lemma retry_interval_is_bounded:
  "min (base * 2 ^ min (unat failures) 5) (from_secs 30) \<le> retry_interval base failures entropy
   \<and> 10 * retry_interval base failures entropy \<le> 11 * min (base * 2 ^ min (unat failures) 5) (from_secs 30)
   \<and> retry_interval base failures entropy \<le> from_secs 33"
proof -
  note b = retry_interval_bounds [of base failures entropy]
  have "11 * min (base * 2 ^ min (unat failures) 5) (from_secs 30) \<le> 11 * from_secs 30" by simp
  with b(2) have "10 * retry_interval base failures entropy \<le> 10 * from_secs 33" by (simp add: from_secs_def)
  with b show ?thesis by simp
qed

end
