(* ===== verification/Sqlite_Claims.thy ===== *)
theory Sqlite_Claims
  imports Sqlite_Refinement Store_Claims
begin

text \<open>
  What the SQLite store promises: every call refines the call of the in-memory store, errors
  included, and a consumer polling a database that other connections keep committing to reads every
  revision. The witnesses run the store with a codec given by finite tables.
\<close>

section \<open>A codec on the values of the sample run\<close>

definition table_js :: "('a \<times> string) list \<Rightarrow> 'a \<Rightarrow> string option" where
  "table_js table = map_of table"

definition table_un :: "('a \<times> string) list \<Rightarrow> string \<Rightarrow> 'a option" where
  "table_un table = map_of (map (\<lambda>(a, t). (t, a)) table)"

lemma table_reads_back:
  assumes "distinct (map snd table)"
  shows "reads_back (table_js table) (table_un table)"
  unfolding reads_back_def
proof (intro allI impI)
  fix a t assume "table_js table a = Some t"
  then have "(a, t) \<in> set table" by (simp add: table_js_def map_of_SomeD)
  then have "(t, a) \<in> set (map (\<lambda>(a, t). (t, a)) table)" by force
  moreover have "distinct (map fst (map (\<lambda>(a, t). (t, a)) table))"
    using assms by (simp add: comp_def case_prod_unfold)
  ultimately show "table_un table t = Some a" by (simp add: table_un_def)
qed

definition sample_snapshots :: "(unit control_snapshot \<times> string) list" where
  "sample_snapshots = [(sample_snapshot, ''s1''), (ac_snapshot sample_result, ''s2'')]"

definition sample_commit_of :: "string \<Rightarrow> control_commit \<times> string option" where
  "sample_commit_of fp = (\<lparr>co_revision = 2, co_changed_resources = [''path-policy/read''], co_replayed = False\<rparr>, Some fp)"

definition sample_codec :: "unit sqlite_codec" where
  "sample_codec =
     \<lparr>js_snapshot = table_js sample_snapshots, un_snapshot = table_un sample_snapshots,
      js_changes = table_js [(sample_policy_change ''key-1'', ''c1'')],
      un_changes = table_un [(sample_policy_change ''key-1'', ''c1'')],
      js_stored_commit = table_js [(sample_commit_of ''fp'', ''m1'')],
      un_stored_commit = table_un [(sample_commit_of ''fp'', ''m1'')], un_plain_commit = \<lambda>_. None,
      js_actor = table_js [(sample_principal ''root'', ''root''), (sample_principal ''ann'', ''ann'')],
      un_actor = table_un [(sample_principal ''root'', ''root''), (sample_principal ''ann'', ''ann'')],
      js_request = table_js [(bootstrap_request, ''boot''), (au_audit_request sample_authorization, ''req'')],
      un_request = table_un [(bootstrap_request, ''boot''), (au_audit_request sample_authorization, ''req'')],
      js_strings = table_js [([''snapshot''], ''[1]''), ([''path-policy/read''], ''[2]'')],
      un_strings = table_un [([''snapshot''], ''[1]''), ([''path-policy/read''], ''[2]'')],
      js_config = \<lambda>_. Some [], js_tenant = \<lambda>_. Some [], js_catalog = \<lambda>_. Some [],
      js_collection = \<lambda>_. Some [], js_role = \<lambda>_. Some [], js_binding = \<lambda>_. Some [],
      js_policy = \<lambda>_. Some [], js_scope = \<lambda>_. Some []\<rparr>"

lemma sample_codec_ok: "codec_ok sample_codec"
  by (simp add: codec_ok_def sample_codec_def table_reads_back sample_snapshots_def)

lemma fmupd_of_list [code]: "fmupd k v (fmap_of_list m) = fmap_of_list ((k, v) # m)"
  by (rule fmap_ext) (simp add: fmlookup_of_list)

lemma sample_refilled:
  assumes "is_ok (insert_config_resources cd (sn_config sn))"
    and "is_ok (fold_each (\<lambda>b t.
         and_then (json_text (js_binding cd) b) (\<lambda>text.
         insert_row (pr_issuer (rb_principal b), pr_subject (rb_principal b), rb_role b,
           resource_key (rb_scope b)) text t)) (sn_bindings sn) fmempty)"
    and "is_ok (fold_each (\<lambda>p t.
         and_then (json_text (js_policy cd) p) (\<lambda>text. insert_row (pp_id p) text t)) (sn_policies sn) fmempty)"
    and "sn_tombstones sn = []"
  obtains r b p where "\<And>db. replace_current_resources cd sn db = Inr (db\<lparr>db_resources := r,
    db_role_bindings := b, db_path_policies := p, db_tombstones := fmempty\<rparr>)"
proof -
  from assms(1-3) obtain r b p where "insert_config_resources cd (sn_config sn) = Inr r"
    "fold_each (\<lambda>b t.
         and_then (json_text (js_binding cd) b) (\<lambda>text.
         insert_row (pr_issuer (rb_principal b), pr_subject (rb_principal b), rb_role b,
           resource_key (rb_scope b)) text t)) (sn_bindings sn) fmempty = Inr b"
    "fold_each (\<lambda>p t.
         and_then (json_text (js_policy cd) p) (\<lambda>text. insert_row (pp_id p) text t)) (sn_policies sn) fmempty = Inr p"
    by (auto simp: is_ok_iff)
  with assms(4) have "replace_current_resources cd sn db = Inr (db\<lparr>db_resources := r,
    db_role_bindings := b, db_path_policies := p, db_tombstones := fmempty\<rparr>)" for db
    by (simp add: replace_current_resources_def)
  then show ?thesis by (rule that)
qed

lemmas sq_writes = insert_revision_def insert_state_def update_state_def insert_event_def insert_audit_def
  insert_idempotency_def insert_row_def check_row_def json_text_def to_i64_def

lemma sample_texts:
  "js_snapshot sample_codec sample_snapshot = Some ''s1''"
  "js_snapshot sample_codec (ac_snapshot sample_result) = Some ''s2''"
  "js_actor sample_codec (sample_principal ''root'') = Some ''root''"
  "js_actor sample_codec (sample_principal ''ann'') = Some ''ann''"
  "js_request sample_codec bootstrap_request = Some ''boot''"
  "js_request sample_codec (au_audit_request sample_authorization) = Some ''req''"
  "js_strings sample_codec [''snapshot''] = Some ''[1]''"
  "js_strings sample_codec [''path-policy/read''] = Some ''[2]''"
  "js_changes sample_codec (sample_policy_change ''key-1'') = Some ''c1''"
  "js_stored_commit sample_codec (sample_commit_of ''fp'') = Some ''m1''"
  "un_snapshot sample_codec ''s1'' = Some sample_snapshot"
  by code_simp+

text \<open>The database after the bootstrap; nothing else reads the tables of current resources.\<close>

definition sample_db ::
  "(string, string \<times> string) fmap \<Rightarrow> (string \<times> string \<times> string \<times> string, string) fmap \<Rightarrow>
   (string, string) fmap \<Rightarrow> sqlite_db" where
  "sample_db r b p = \<lparr>db_revisions = fmap_of_list [(1, ''s1'', 5)], db_state = Some 1, db_resources = r,
     db_role_bindings = b, db_path_policies = p, db_tombstones = fmempty, db_entity_versions = fmempty,
     db_audit = fmap_of_list [(1, \<lparr>aw_actor_json = ''root'', aw_request_json = ''boot'', aw_idempotency_key = None,
       aw_changed_resources_json = ''[1]'', aw_recorded_at_unix_ms = 5, aw_applying_instance = SQLITE_INSTANCE\<rparr>)],
     db_outbox = fmap_of_list [((1, 0), ''[1]'')], db_idempotency = fmempty\<rparr>"

lemma sample_db_bootstrapped:
  obtains r b p where
    "sq_bootstrap sample_env sample_codec 5 sample_snapshot (sample_principal ''root'') AllowEmptyPlatform migrated_db
     = Inr (Bootstrapped 1, sample_db r b p)"
proof -
  have "is_ok (insert_config_resources sample_codec (sn_config sample_snapshot))" by code_simp
  moreover have "is_ok (fold_each (\<lambda>b t.
         and_then (json_text (js_binding sample_codec) b) (\<lambda>text.
         insert_row (pr_issuer (rb_principal b), pr_subject (rb_principal b), rb_role b,
           resource_key (rb_scope b)) text t)) (sn_bindings sample_snapshot) fmempty)" by code_simp
  moreover have "is_ok (fold_each (\<lambda>p t.
         and_then (json_text (js_policy sample_codec) p) (\<lambda>text. insert_row (pp_id p) text t))
       (sn_policies sample_snapshot) fmempty)" by code_simp
  moreover have "sn_tombstones sample_snapshot = []" by code_simp
  ultimately obtain r b p where refill: "\<And>db. replace_current_resources sample_codec sample_snapshot db
    = Inr (db\<lparr>db_resources := r, db_role_bindings := b, db_path_policies := p, db_tombstones := fmempty\<rparr>)"
    by (rule sample_refilled) blast
  have "validate_actor (sample_principal ''root'') = Inr ()" by code_simp
  then show ?thesis
    by (intro that [of r b p]) (simp add: sq_bootstrap_def sq_current_revision_def migrated_db_def sq_writes refill
      sample_texts validate_control_bootstrap_seed_def sample_db_def)
qed

lemma sample_db_represents:
  assumes "sq_bootstrap sample_env sample_codec 5 sample_snapshot (sample_principal ''root'') AllowEmptyPlatform
      migrated_db = Inr (Bootstrapped 1, db)"
  shows "represents sample_codec db sample_store"
proof -
  obtain t where "mem_bootstrap sample_env 5 sample_snapshot (sample_principal ''root'') AllowEmptyPlatform empty_store
      = Inr (Bootstrapped 1, t)" "represents sample_codec db t"
    by (rule bootstrap_simulated [OF migrated_represents sample_codec_ok empty_ok assms])
  with sample_bootstrapped show ?thesis by simp
qed

lemma sample_db_transacted:
  obtains c db where "sq_transact sample_env sample_codec 6 (sample_token ''key-1'') (sample_policy_change ''key-1'')
      (sample_db r b p) = Inr (c, db)" "\<not> co_replayed c" "co_revision c = 2"
proof -
  let ?sn = "ac_snapshot sample_result"
  have "is_ok (insert_config_resources sample_codec (sn_config ?sn))" by code_simp
  moreover have "is_ok (fold_each (\<lambda>b t.
         and_then (json_text (js_binding sample_codec) b) (\<lambda>text.
         insert_row (pr_issuer (rb_principal b), pr_subject (rb_principal b), rb_role b,
           resource_key (rb_scope b)) text t)) (sn_bindings ?sn) fmempty)" by code_simp
  moreover have "is_ok (fold_each (\<lambda>p t.
         and_then (json_text (js_policy sample_codec) p) (\<lambda>text. insert_row (pp_id p) text t))
       (sn_policies ?sn) fmempty)" by code_simp
  moreover have "sn_tombstones ?sn = []" by code_simp
  ultimately obtain r' b' p' where refill: "\<And>db. replace_current_resources sample_codec ?sn db
    = Inr (db\<lparr>db_resources := r', db_role_bindings := b', db_path_policies := p', db_tombstones := fmempty\<rparr>)"
    by (rule sample_refilled) blast
  let ?auth = "sample_token ''key-1''" and ?ch = "sample_policy_change ''key-1''"
  have v: "validate_actor (au_principal ?auth) = Inr ()" "validate_request (au_audit_request ?auth) = Inr ()"
    "change_set_validate ?ch = Inr ()" "validate_intent ?auth ?ch = Inr ()"
    by code_simp+
  have f: "ch_idempotency_key ?ch = Some ''key-1''" "\<not> au_replay_only ?auth" "au_snapshot_revision ?auth = 1"
    "au_principal ?auth = sample_principal ''ann''" "au_audit_request ?auth = au_audit_request sample_authorization"
    "au_request_fingerprint ?auth = ''fp''"
    by (simp_all add: sample_policy_change_def sample_token_def sample_authorization_def)
  have "case apply_control_changes sample_env sample_snapshot fmempty 2 ?auth ?ch of
      Inl _ \<Rightarrow> False | Inr ap \<Rightarrow> ac_snapshot ap = ?sn \<and> ac_changed_resources ap = [''path-policy/read'']"
    by code_simp
  then obtain ap where ap: "apply_control_changes sample_env sample_snapshot fmempty 2 ?auth ?ch = Inr ap"
    "ac_snapshot ap = ?sn" "ac_changed_resources ap = [''path-policy/read'']"
    by (auto split: sum.splits)
  have w: "\<exists>v. sq_load_snapshot sample_env sample_codec (sample_db r b p) = Inr v \<and> vc_snapshot v = sample_snapshot
      \<and> vc_revision v = 1 \<and> vc_entity_versions v = fmempty"
    by (simp add: sq_load_snapshot_def sq_load_snapshot_over_def sq_current_revision_def sample_db_def to_u64_def to_i64_def from_json_def
      sample_texts versioned_new_def)
  have "\<exists>db. sq_commit sample_codec 6 2 ?auth ?ch ap (sample_db r b p)
      = Inr (\<lparr>co_revision = 2, co_changed_resources = [''path-policy/read''], co_replayed = False\<rparr>, db)"
    using sample_texts
    by (simp add: sq_commit_def sq_writes ap f refill sample_db_def replace_entity_versions_def sample_commit_of_def)
  moreover have "load_idempotency sample_codec ''key-1'' (sample_db r b p) = Inr None"
    by (simp add: load_idempotency_def sample_db_def)
  ultimately show ?thesis
    using w ap(1) that v [unfolded f] by (auto simp: sq_transact_def v f)
qed

lemma sample_store_ok: "store_ok sample_env sample_store"
  by (rule reachable_ok [OF sample_store_reachable])

section \<open>Properties\<close>

text \<open>
  C7. The SQLite store refines the in-memory store: on a database that represents an abstract
  state, a transaction that commits returns the commit of the abstract transaction and leaves a
  database that represents its new state; one that fails returns the abstract error, or an error of
  the driver, of the JSON text or of an integer out of range, and leaves the database as it was.
\<close>

theorem sqlite_transaction_refines_store:
  assumes "codec_ok cd" "represents cd db s" "store_ok env s"
  shows "case sq_transact env cd now auth changes db of
      Inr (c, db') \<Rightarrow> \<exists>t. mem_transact env now auth changes s = Inr (c, t) \<and> represents cd db' t \<and> store_ok env t
    | Inl e \<Rightarrow> driver_error e \<or> mem_transact env now auth changes s = Inl e"
proof (cases "sq_transact env cd now auth changes db")
  case (Inl e)
  with transact_error [OF assms(2,3)] show ?thesis by simp
next
  case (Inr r)
  obtain c db' where r: "r = (c, db')" by (cases r)
  from Inr r obtain t where t: "mem_transact env now auth changes s = Inr (c, t)" "represents cd db' t"
    using transact_simulated [OF assms(2,1,3)] by metis
  with transact_ok [OF assms(3) t(1)] Inr r show ?thesis by auto
qed

theorem sqlite_transaction_refines_store_witness:
  "\<exists>db c db' t. sq_bootstrap sample_env sample_codec 5 sample_snapshot (sample_principal ''root'')
       AllowEmptyPlatform migrated_db = Inr (Bootstrapped 1, db)
     \<and> sq_transact sample_env sample_codec 6 (sample_token ''key-1'') (sample_policy_change ''key-1'') db = Inr (c, db')
     \<and> mem_transact sample_env 6 (sample_token ''key-1'') (sample_policy_change ''key-1'') sample_store = Inr (c, t)
     \<and> represents sample_codec db' t \<and> co_revision c = 2"
proof -
  obtain r b p where db: "sq_bootstrap sample_env sample_codec 5 sample_snapshot (sample_principal ''root'')
      AllowEmptyPlatform migrated_db = Inr (Bootstrapped 1, sample_db r b p)"
    by (rule sample_db_bootstrapped)
  obtain c db' where c: "sq_transact sample_env sample_codec 6 (sample_token ''key-1'') (sample_policy_change ''key-1'')
      (sample_db r b p) = Inr (c, db')" "co_revision c = 2"
    by (rule sample_db_transacted)
  from sqlite_transaction_refines_store [OF sample_codec_ok sample_db_represents [OF db] sample_store_ok,
      of 6 "sample_token ''key-1''" "sample_policy_change ''key-1''"] c db
  show ?thesis by auto
qed

text \<open>
  C19. Nothing is lost between replicas: from the empty migrated database, whatever the connections
  commit and whenever a consumer reads between the commits, reading the pages after an applied
  revision meets no gap and reaches the revision it observed.
\<close>

theorem sqlite_consumer_misses_nothing:
  assumes "codec_ok cd" "(sq_step env cd)\<^sup>*\<^sup>* migrated_db (run 0)"
    and "\<And>i. (sq_step env cd)\<^sup>*\<^sup>* (run i) (run (Suc i))"
    and "sq_current_revision (run 0) = Inr (Some observed)"
  shows "\<exists>l. consume (\<lambda>i c n. sq_changes_since cd c n (run i)) observed 0 (Cursor applied_revision (-1))
      applied_revision = Some (Inr (l, False)) \<and> observed \<le> l"
proof -
  have good: "sq_good env cd (run 0)" by (rule sqlite.good_moves [OF migrated_good [OF assms(1)] assms(2)])
  have r: "sq_revision (run 0) = Some observed" using assms(4) by (simp add: sq_revision_def)
  show ?thesis
    by (rule sqlite.consume_complete [where run = run and first = 0, OF good assms(3) r le_refl])
qed

theorem sqlite_consumer_misses_nothing_witness:
  "\<exists>db l. sq_current_revision db = Inr (Some 1)
     \<and> consume (\<lambda>i c n. sq_changes_since sample_codec c n db) 1 0 (Cursor 0 (-1)) 0 = Some (Inr (l, False)) \<and> 1 \<le> l"
proof -
  obtain r b p where db: "sq_bootstrap sample_env sample_codec 5 sample_snapshot (sample_principal ''root'')
      AllowEmptyPlatform migrated_db = Inr (Bootstrapped 1, sample_db r b p)"
    by (rule sample_db_bootstrapped)
  have st: "(sq_step sample_env sample_codec)\<^sup>*\<^sup>* migrated_db (sample_db r b p)"
    using Sq_Bootstrap [OF db] by simp
  have "sq_current_revision (sample_db r b p) = Inr (Some 1)"
    using current_revision_represents [OF sample_db_represents [OF db]]
    by (simp add: mem_current_revision_def sample_store_def)
  with sqlite_consumer_misses_nothing [where run = "\<lambda>_. sample_db r b p" and applied_revision = 0,
      OF sample_codec_ok st rtranclp.rtrancl_refl this]
  show ?thesis by blast
qed

end
