(* ===== verification/Torn_Reads.thy ===== *)
theory Torn_Reads
  imports Sqlite_Claims
begin

text \<open>
  \<open>SqliteControlStore::load_snapshot\<close> (\<open>crates/tellurion-control-sqlite/src/store.rs\<close>) reads the
  current revision, the row of that revision and the table of entity versions in three statements
  that no transaction holds together. Revisions are only ever inserted, so the snapshot is that of
  the revision; the entity versions may be those of a later one. What such a reader may still do:
  no authorization made against the revision it read commits after the tables have moved on.
\<close>

section \<open>Revisions are only inserted\<close>

definition keeps_revisions :: "sqlite_db \<Rightarrow> sqlite_db \<Rightarrow> bool" where
  "keeps_revisions db db' \<longleftrightarrow>
     (\<forall>k row. fmlookup (db_revisions db) k = Some row \<longrightarrow> fmlookup (db_revisions db') k = Some row)"

lemma keeps_refl [simp]: "keeps_revisions db db"
  by (simp add: keeps_revisions_def)

lemma keeps_trans: "keeps_revisions a b \<Longrightarrow> keeps_revisions b c \<Longrightarrow> keeps_revisions a c"
  by (simp add: keeps_revisions_def)

lemma keeps_same: "db_revisions db' = db_revisions db \<Longrightarrow> keeps_revisions db db'"
  by (simp add: keeps_revisions_def)

lemma keeps_insert_revision: "insert_revision cd r sn now db = Inr db' \<Longrightarrow> keeps_revisions db db'"
  by (auto simp: insert_revision_def and_then_Inr_iff keeps_revisions_def dest!: insert_row_D)

lemma keeps_writes:
  "insert_state r db = Inr db' \<Longrightarrow> keeps_revisions db db'"
  "update_state r db = Inr db' \<Longrightarrow> keeps_revisions db db'"
  "insert_event cd r n changed db = Inr db' \<Longrightarrow> keeps_revisions db db'"
  "insert_audit cd r actor request k changed now inst db = Inr db' \<Longrightarrow> keeps_revisions db db'"
  "replace_current_resources cd sn db = Inr db' \<Longrightarrow> keeps_revisions db db'"
  "insert_idempotency cd key ch c fp db = Inr db' \<Longrightarrow> keeps_revisions db db'"
  by (rule keeps_same; auto simp: insert_state_def update_state_def insert_event_def insert_audit_def
      replace_current_resources_def insert_idempotency_def and_then_Inr_iff split: option.splits)+

lemma keeps_versions [simp]: "keeps_revisions (replace_entity_versions v db) db' \<longleftrightarrow> keeps_revisions db db'"
  by (simp add: keeps_revisions_def replace_entity_versions_def)

lemmas keeps = keeps_insert_revision keeps_writes

lemma commit_keeps: "sq_commit cd now r auth ch ap db = Inr (c, db') \<Longrightarrow> keeps_revisions db db'"
  unfolding sq_commit_def Let_def and_then_Inr_iff
  by (elim exE conjE) (auto split: option.splits dest!: keeps; meson keeps_trans)

lemma step_keeps: "sq_step env cd db db' \<Longrightarrow> keeps_revisions db db'"
proof (erule sq_stepE)
  fix now seed actor mode out assume "sq_bootstrap env cd now seed actor mode db = Inr (out, db')"
  then show "keeps_revisions db db'"
    unfolding sq_bootstrap_def and_then_Inr_iff
    by (elim exE conjE) (auto simp: and_then_Inr_iff split: option.splits dest!: keeps; meson keeps_trans)
next
  fix now auth ch c assume "sq_transact env cd now auth ch db = Inr (c, db')"
  then show "keeps_revisions db db'"
    unfolding sq_transact_def and_then_Inr_iff
    by (elim exE conjE)
      (auto simp: and_then_Inr_iff ensure_Inr_iff Let_def split: option.splits if_splits intro: commit_keeps)
qed

lemma steps_keep: "(sq_step env cd)\<^sup>*\<^sup>* db db' \<Longrightarrow> keeps_revisions db db'"
  by (induction rule: rtranclp_induct) (auto dest: step_keeps intro: keeps_trans)

section \<open>Entity versions move with the revision\<close>

lemma step_versions:
  assumes "mem_step env s t" "ms_snapshot s \<noteq> None"
  shows "ms_entity_versions t = ms_entity_versions s \<or> ms_revision s < ms_revision t"
  using assms(1)
proof (rule mem_stepE)
  fix now seed actor mode out assume "mem_bootstrap env now seed actor mode s = Inr (out, t)"
  then show ?thesis by (cases rule: mem_bootstrap_cases) (use assms(2) in auto)
next
  fix now auth ch c assume "mem_transact env now auth ch s = Inr (c, t)"
  then show ?thesis
  proof (cases rule: mem_transact_cases)
    case (fresh sn applied)
    from fresh_extends(3) [OF fresh(1,3,4,7)] less_next [OF fresh(3)] show ?thesis by simp
  qed simp
qed

lemma steps_versions:
  assumes "(mem_step env)\<^sup>*\<^sup>* s t" "ms_snapshot s \<noteq> None"
  shows "ms_entity_versions t = ms_entity_versions s \<or> ms_revision s < ms_revision t"
  using assms(1)
proof (induction rule: rtranclp_induct)
  case (step t u)
  have s: "ms_snapshot t \<noteq> None" "ms_revision s \<le> ms_revision t"
    using steps_extend [OF step.hyps(1)] assms(2) by (simp_all add: extends_def)
  with step_extends [OF step.hyps(2)] have "ms_revision t \<le> ms_revision u" by (simp add: extends_def)
  with step_versions [OF step.hyps(2) s(1)] step.IH s(2) show ?case by auto
qed simp

lemma stale_transaction_is_replay:
  assumes "sq_good env cd db" "sq_revision db = Some q" "r < q"
    and "sq_transact env cd now auth ch db = Inr (c, db')" "au_snapshot_revision auth = r"
  shows "co_replayed c"
proof -
  from assms(1) obtain s where s: "codec_ok cd" "represents cd db s" "store_ok env s" by (auto simp: sq_good_def)
  obtain t where "mem_transact env now auth ch s = Inr (c, t)"
    by (rule transact_simulated [OF s(2,1,3) assms(4)])
  then show ?thesis
  proof (cases rule: mem_transact_cases)
    case fresh
    with assms(2,3,5) show ?thesis
      by (simp add: sq_revision_represents [OF s(2)] mem_current_revision_def)
  qed simp
qed

lemma versions_moved:
  assumes "sq_good env cd db" "(sq_step env cd)\<^sup>*\<^sup>* db db'" "sq_revision db = Some r"
    and "db_entity_versions db' \<noteq> db_entity_versions db"
  shows "\<exists>q. sq_revision db' = Some q \<and> r < q"
proof -
  from assms(1) obtain s where s: "codec_ok cd" "represents cd db s" "store_ok env s" by (auto simp: sq_good_def)
  from steps_simulated [OF assms(2) s] obtain t where
    t: "(mem_step env)\<^sup>*\<^sup>* s t" "represents cd db' t" by blast
  have sn: "ms_snapshot s \<noteq> None" "ms_revision s = r"
    using assms(3) by (auto simp: sq_revision_represents [OF s(2)] mem_current_revision_def split: option.splits)
  have "ms_entity_versions t \<noteq> ms_entity_versions s" using assms(4) s(2) t(2) by (simp add: represents_def)
  with steps_versions [OF t(1) sn(1)] sn(2) have "r < ms_revision t" by simp
  moreover have "ms_snapshot t \<noteq> None" using steps_extend [OF t(1)] sn(1) by (simp add: extends_def)
  ultimately show ?thesis
    by (auto simp: sq_revision_represents [OF t(2)] mem_current_revision_def)
qed

section \<open>The sample run\<close>

lemma sample_torn:
  obtains r b p c db' v where
    "sq_bootstrap sample_env sample_codec 5 sample_snapshot (sample_principal ''root'') AllowEmptyPlatform migrated_db
      = Inr (Bootstrapped 1, sample_db r b p)"
    "sq_transact sample_env sample_codec 6 (sample_token ''key-1'') (sample_policy_change ''key-1'') (sample_db r b p)
      = Inr (c, db')"
    "sq_load_snapshot_over sample_env sample_codec (sample_db r b p) (sample_db r b p) db' = Inr v"
    "vc_revision v = 1" "vc_snapshot v = sample_snapshot"
    "fmlookup (vc_entity_versions v) ''path-policy/read'' = Some ''2''"
proof -
  obtain r b p where db: "sq_bootstrap sample_env sample_codec 5 sample_snapshot (sample_principal ''root'')
      AllowEmptyPlatform migrated_db = Inr (Bootstrapped 1, sample_db r b p)"
    by (rule sample_db_bootstrapped)
  obtain c db' where c: "sq_transact sample_env sample_codec 6 (sample_token ''key-1'') (sample_policy_change ''key-1'')
      (sample_db r b p) = Inr (c, db')"
    by (rule sample_db_transacted)
  obtain t where t: "mem_transact sample_env 6 (sample_token ''key-1'') (sample_policy_change ''key-1'') sample_store
      = Inr (c, t)" "represents sample_codec db' t"
    by (rule transact_simulated [OF sample_db_represents [OF db] sample_codec_ok sample_store_ok c])
  have "case mem_transact sample_env 6 (sample_token ''key-1'') (sample_policy_change ''key-1'') sample_store of
      Inl _ \<Rightarrow> False | Inr (_, t) \<Rightarrow> fmlookup (ms_entity_versions t) ''path-policy/read'' = Some ''2''"
    by code_simp
  with t have versions: "fmlookup (db_entity_versions db') ''path-policy/read'' = Some ''2''"
    by (simp add: represents_def)
  have "case versioned_new sample_env sample_snapshot 1 fmempty of Inl _ \<Rightarrow> False | Inr _ \<Rightarrow> True" by code_simp
  then obtain validated where val: "snapshot_validated sample_env sample_snapshot = Inr validated"
    by (auto simp: versioned_new_def split: sum.splits)
  have "snapshot_validate sample_env sample_snapshot = Inr ()"
    using sample_store_ok by (simp add: store_ok_def sample_store_def)
  then have "\<exists>v. sq_load_snapshot_over sample_env sample_codec (sample_db r b p) (sample_db r b p) db' = Inr v
      \<and> vc_revision v = 1 \<and> vc_snapshot v = sample_snapshot \<and> vc_entity_versions v = db_entity_versions db'"
    by (simp add: sq_load_snapshot_over_def sq_current_revision_def sample_db_def to_u64_def to_i64_def from_json_def
      sample_texts versioned_new_def val)
  with that [OF db c] versions show ?thesis by auto
qed

section \<open>Property\<close>

text \<open>
  C36. A snapshot loaded while other connections commit is the snapshot of the revision it names.
  Its entity versions are those of the third statement's database; when they are not those of that
  revision, every transaction authorized at that revision that succeeds afterwards replays an
  earlier commit.
\<close>

theorem torn_load_never_commits:
  assumes "sq_good env cd db_first" "(sq_step env cd)\<^sup>*\<^sup>* db_first db_second" "(sq_step env cd)\<^sup>*\<^sup>* db_second db_third"
    and "sq_load_snapshot_over env cd db_first db_second db_third = Inr v"
  shows "\<exists>w. sq_load_snapshot env cd db_first = Inr w \<and> vc_revision v = vc_revision w \<and> vc_snapshot v = vc_snapshot w
     \<and> vc_entity_versions v = db_entity_versions db_third
     \<and> (v \<noteq> w \<longrightarrow> (\<forall>later now auth changes c db. (sq_step env cd)\<^sup>*\<^sup>* db_third later
          \<longrightarrow> sq_transact env cd now auth changes later = Inr (c, db) \<longrightarrow> au_snapshot_revision auth = vc_revision v
          \<longrightarrow> co_replayed c))"
proof -
  from assms(4) obtain r k body at sn where k: "sq_current_revision db_first = Inr (Some r)" "to_i64 r = Inr k"
    "fmlookup (db_revisions db_second) k = Some (body, at)" "from_json (un_snapshot cd) body = Inr sn"
    "snapshot_validate env sn = Inr ()" "versioned_new env sn r (db_entity_versions db_third) = Inr v"
    unfolding sq_load_snapshot_over_def by (clarsimp simp: and_then_Inr_iff ok_or_Inr_iff)
  have "k = uint r" using to_i64_D [OF k(2)] by simp
  note r = k [unfolded this]
  have "fmlookup (db_revisions db_first) (uint r) \<noteq> None"
    using assms(1) r(1) by (auto simp: sq_good_def represents_def state_row_def sq_current_revision_def split: option.splits)
  with steps_keep [OF assms(2)] r(3) have row: "fmlookup (db_revisions db_first) (uint r) = Some (body, at)"
    unfolding keeps_revisions_def by force
  from versioned_new_state [OF r(6)] obtain validated where val: "snapshot_validated env sn = Inr validated"
    "vc_snapshot v = sn" "vc_revision v = r" "vc_entity_versions v = db_entity_versions db_third" by blast
  obtain w where w: "versioned_new env sn r (db_entity_versions db_first) = Inr w"
    using val(1) by (simp add: versioned_new_def)
  have load: "sq_load_snapshot env cd db_first = Inr w"
    using r row w by (simp add: sq_load_snapshot_def sq_load_snapshot_over_def)
  have "co_replayed c"
    if "v \<noteq> w" "(sq_step env cd)\<^sup>*\<^sup>* db_third later" "sq_transact env cd now auth changes later = Inr (c, db)"
      "au_snapshot_revision auth = vc_revision v" for later now auth changes c db
  proof -
    have rev: "sq_revision db_first = Some r" by (simp add: sq_revision_def r(1))
    have moves: "(sq_step env cd)\<^sup>*\<^sup>* db_first db_third" using assms(2,3) by simp
    note good = sqlite.good_moves [OF assms(1) moves]
    have "db_entity_versions db_third \<noteq> db_entity_versions db_first" using that(1) r(6) w by auto
    from versions_moved [OF assms(1) moves rev this] obtain q where q: "sq_revision db_third = Some q" "r < q" by blast
    from sqlite.moves_revision [OF good that(2) q(1)] obtain q' where "sq_revision later = Some q'" "q \<le> q'" by blast
    with stale_transaction_is_replay [OF sqlite.good_moves [OF good that(2)] _ _ that(3)] q(2) that(4) val(3)
    show ?thesis by (meson less_le_trans)
  qed
  with load versioned_new_state [OF w] val show ?thesis by auto
qed

theorem torn_load_never_commits_witness:
  "\<exists>db db' v. (sq_step sample_env sample_codec)\<^sup>*\<^sup>* migrated_db db \<and> sq_step sample_env sample_codec db db'
     \<and> sq_load_snapshot_over sample_env sample_codec db db db' = Inr v
     \<and> vc_revision v = 1 \<and> vc_snapshot v = sample_snapshot
     \<and> fmlookup (vc_entity_versions v) ''path-policy/read'' = Some ''2''
     \<and> (\<forall>now auth changes c later. sq_transact sample_env sample_codec now auth changes db' = Inr (c, later)
          \<longrightarrow> au_snapshot_revision auth = 1 \<longrightarrow> co_replayed c)"
proof (rule sample_torn)
  fix r b p c db' v
  let ?db = "sample_db r b p"
  assume b: "sq_bootstrap sample_env sample_codec 5 sample_snapshot (sample_principal ''root'') AllowEmptyPlatform
      migrated_db = Inr (Bootstrapped 1, ?db)"
    and c: "sq_transact sample_env sample_codec 6 (sample_token ''key-1'') (sample_policy_change ''key-1'') ?db = Inr (c, db')"
    and v: "sq_load_snapshot_over sample_env sample_codec ?db ?db db' = Inr v" "vc_revision v = 1"
      "vc_snapshot v = sample_snapshot" "fmlookup (vc_entity_versions v) ''path-policy/read'' = Some ''2''"
  have st: "(sq_step sample_env sample_codec)\<^sup>*\<^sup>* migrated_db ?db" using Sq_Bootstrap [OF b] by simp
  note good = sqlite.good_moves [OF migrated_good [OF sample_codec_ok] st]
  have move: "sq_step sample_env sample_codec ?db db'" by (rule Sq_Transact [OF c])
  obtain w where w: "sq_load_snapshot sample_env sample_codec ?db = Inr w"
    "v \<noteq> w \<longrightarrow> (\<forall>later now auth changes c db. (sq_step sample_env sample_codec)\<^sup>*\<^sup>* db' later
          \<longrightarrow> sq_transact sample_env sample_codec now auth changes later = Inr (c, db)
          \<longrightarrow> au_snapshot_revision auth = vc_revision v \<longrightarrow> co_replayed c)"
    using torn_load_never_commits [OF good rtranclp.rtrancl_refl _ v(1)] move by blast
  have "vc_entity_versions w = db_entity_versions ?db"
    using w(1) by (auto simp: sq_load_snapshot_def sq_load_snapshot_over_def and_then_Inr_iff dest: versioned_new_state)
  then have "v \<noteq> w" using v(4) by (auto simp: sample_db_def)
  with w(2) v(2) have "\<forall>now auth changes c later.
      sq_transact sample_env sample_codec now auth changes db' = Inr (c, later)
      \<longrightarrow> au_snapshot_revision auth = 1 \<longrightarrow> co_replayed c" by (metis rtranclp.rtrancl_refl)
  with st move v show ?thesis by blast
qed

end
