(* ===== verification/Resolver.thy ===== *)
theory Resolver
  imports Control_Route
begin

text \<open>
  \<open>crates/tellurion-core/src/resolver.rs\<close>: external identifiers to internal ones. The
  trait is the record \<open>resolver\<close>, the only error of its lookups (not found) is None, and what
  its clients rely on is the locale \<open>id_resolver\<close>. The static resolver is the index built from a
  document; on an accepted document it implements the contract and answers with the declared resources.
\<close>

section \<open>The interface\<close>

record resolver =
  rv_resolve_tenant :: "string \<Rightarrow> string option"
  rv_resolve_catalog :: "string \<Rightarrow> string \<Rightarrow> string option"
  rv_resolve_collection :: "string \<Rightarrow> string \<Rightarrow> string option"
  rv_tenant_external_id :: "string \<Rightarrow> string option"
  rv_catalog_external_id :: "string \<Rightarrow> string option"
  rv_collection_external_id :: "string \<Rightarrow> string option"

locale id_resolver =
  fixes good :: "'c \<Rightarrow> bool" and resolver_of :: "'c \<Rightarrow> resolver"
  assumes tenant_reverse:
      "good c \<Longrightarrow> rv_resolve_tenant (resolver_of c) e = Some i \<Longrightarrow> rv_tenant_external_id (resolver_of c) i = Some e"
    and catalog_reverse:
      "good c \<Longrightarrow> rv_resolve_catalog (resolver_of c) t e = Some i \<Longrightarrow>
        rv_catalog_external_id (resolver_of c) i = Some e"
    and collection_reverse:
      "good c \<Longrightarrow> rv_resolve_collection (resolver_of c) g e = Some i \<Longrightarrow>
        rv_collection_external_id (resolver_of c) i = Some e"
begin

lemma tenant_injective:
  "good c \<Longrightarrow> rv_resolve_tenant (resolver_of c) e = Some i \<Longrightarrow> rv_resolve_tenant (resolver_of c) e' = Some i \<Longrightarrow>
   e = e'"
  using tenant_reverse [of c e i] tenant_reverse [of c e' i] by simp

end

section \<open>The static resolver\<close>

record catalog_entry =
  ce_external_id :: string
  ce_tenant_internal_id :: string

record static_resolver =
  sr_tenants_by_external :: "(string, string) fmap"
  sr_tenants_by_internal :: "(string, string) fmap"
  sr_catalogs_by_external :: "(string \<times> string, string) fmap"
  sr_catalogs_by_internal :: "(string, catalog_entry) fmap"
  sr_collections_by_external :: "(string \<times> string, string) fmap"
  sr_collections_by_internal :: "(string, string) fmap"

text \<open>One \<open>insert\<close> per declaration, a later one replacing an earlier one.\<close>

definition index_by :: "('a \<Rightarrow> 'k) \<Rightarrow> ('a \<Rightarrow> 'v) \<Rightarrow> 'a list \<Rightarrow> ('k, 'v) fmap" where
  "index_by k v xs = fold (\<lambda>x. fmupd (k x) (v x)) xs fmempty"

definition build_from_snapshot ::
  "'x tenant_decl list \<Rightarrow> 'x catalog_decl list \<Rightarrow> 'x collection_decl list \<Rightarrow> static_resolver" where
  "build_from_snapshot tenants catalogs collections =
     \<lparr>sr_tenants_by_external = index_by tenant_external_id tn_id tenants,
      sr_tenants_by_internal = index_by tn_id tenant_external_id tenants,
      sr_catalogs_by_external = index_by (\<lambda>c. (ct_tenant c, catalog_external_id c)) ct_id catalogs,
      sr_catalogs_by_internal = index_by ct_id
        (\<lambda>c. \<lparr>ce_external_id = catalog_external_id c, ce_tenant_internal_id = ct_tenant c\<rparr>) catalogs,
      sr_collections_by_external = index_by (\<lambda>k. (cl_catalog k, collection_external_id k)) cl_id collections,
      sr_collections_by_internal = index_by cl_id collection_external_id collections\<rparr>"

definition static_resolver_build :: "'x app_config \<Rightarrow> static_resolver" where
  "static_resolver_build cfg = build_from_snapshot (cfg_tenants cfg) (cfg_catalogs cfg) (cfg_collections cfg)"

definition as_resolver :: "static_resolver \<Rightarrow> resolver" where
  "as_resolver sr =
     \<lparr>rv_resolve_tenant = fmlookup (sr_tenants_by_external sr),
      rv_resolve_catalog = (\<lambda>tenant_internal_id catalog_external.
        fmlookup (sr_catalogs_by_external sr) (tenant_internal_id, catalog_external)),
      rv_resolve_collection = (\<lambda>catalog_internal_id collection_external.
        fmlookup (sr_collections_by_external sr) (catalog_internal_id, collection_external)),
      rv_tenant_external_id = fmlookup (sr_tenants_by_internal sr),
      rv_catalog_external_id = (\<lambda>i. map_option ce_external_id (fmlookup (sr_catalogs_by_internal sr) i)),
      rv_collection_external_id = fmlookup (sr_collections_by_internal sr)\<rparr>"

definition catalog_count :: "static_resolver \<Rightarrow> nat" where
  "catalog_count sr = fcard (fmdom (sr_catalogs_by_internal sr))"

section \<open>What the index answers\<close>

lemma find_app:
  "List.find p (xs @ ys) = (case List.find p xs of Some x \<Rightarrow> Some x | None \<Rightarrow> List.find p ys)"
  by (induction xs) simp_all

lemma index_by_acc:
  "fmlookup (fold (\<lambda>x. fmupd (k x) (v x)) xs m) i =
     (case List.find (\<lambda>x. k x = i) (rev xs) of Some x \<Rightarrow> Some (v x) | None \<Rightarrow> fmlookup m i)"
proof (induction xs arbitrary: m)
  case (Cons x xs)
  show ?case by (simp add: Cons.IH find_app split: option.splits)
qed simp

lemma find_rev_distinct:
  assumes "distinct (map k xs)"
  shows "List.find (\<lambda>x. k x = i) (rev xs) = List.find (\<lambda>x. k x = i) xs"
proof (cases "List.find (\<lambda>x. k x = i) xs")
  case None
  then have "List.find (\<lambda>x. k x = i) (rev xs) = None" by (simp add: find_None_iff)
  with None show ?thesis by simp
next
  case (Some x)
  then have x: "x \<in> set xs" "k x = i" by (auto dest: find_Some_D)
  have "distinct (map k (rev xs))" using assms by (simp flip: rev_map)
  from find_unique [OF this, of x] x Some show ?thesis by simp
qed

lemma index_by_lookup:
  assumes "distinct (map k xs)"
  shows "fmlookup (index_by k v xs) i = map_option v (List.find (\<lambda>x. k x = i) xs)"
  by (simp add: index_by_def index_by_acc find_rev_distinct [OF assms] split: option.splits)

lemma index_by_code [code]: "index_by k v xs = fmap_of_list (rev (map (\<lambda>x. (k x, v x)) xs))"
proof -
  have "fold (\<lambda>x. fmupd (k x) (v x)) xs m = m ++\<^sub>f fmap_of_list (rev (map (\<lambda>x. (k x, v x)) xs))" for m
    by (induction xs arbitrary: m rule: rev_induct) simp_all
  then show ?thesis by (simp add: index_by_def)
qed

lemma index_by_Some_iff:
  assumes "distinct (map k xs)"
  shows "fmlookup (index_by k v xs) i = Some y \<longleftrightarrow> (\<exists>x \<in> set xs. k x = i \<and> v x = y)"
  unfolding index_by_lookup [OF assms] using find_unique [OF assms] by (auto dest: find_Some_D)

lemma fmdom_index_by: "fset (fmdom (index_by k v xs)) = k ` set xs"
proof -
  have "fset (fmdom (fold (\<lambda>x. fmupd (k x) (v x)) xs m)) = k ` set xs \<union> fset (fmdom m)" for m
    by (induction xs arbitrary: m) auto
  then show ?thesis by (simp add: index_by_def)
qed

definition config_resolver :: "'x app_config \<Rightarrow> resolver" where
  "config_resolver cfg = as_resolver (static_resolver_build cfg)"

lemmas config_resolver_defs = config_resolver_def as_resolver_def static_resolver_build_def build_from_snapshot_def

lemma config_resolves:
  assumes "well_formed_config cfg"
  shows "rv_resolve_tenant (config_resolver cfg) e
      = map_option tn_id (List.find (\<lambda>t. tenant_external_id t = e) (cfg_tenants cfg))"
    and "rv_resolve_catalog (config_resolver cfg) tenant e
      = map_option ct_id (List.find (\<lambda>c. ct_tenant c = tenant \<and> catalog_external_id c = e) (cfg_catalogs cfg))"
    and "rv_resolve_collection (config_resolver cfg) catalog e
      = map_option cl_id (List.find (\<lambda>k. cl_catalog k = catalog \<and> collection_external_id k = e)
          (cfg_collections cfg))"
  using assms
  by (simp_all add: config_resolver_defs index_by_lookup well_formed_config_def tenants_ok_def catalogs_ok_def
    collections_ok_def)

lemma config_reverses:
  assumes "well_formed_config cfg"
  shows "t \<in> set (cfg_tenants cfg) \<Longrightarrow> rv_tenant_external_id (config_resolver cfg) (tn_id t) = Some (tenant_external_id t)"
    and "c \<in> set (cfg_catalogs cfg) \<Longrightarrow>
      rv_catalog_external_id (config_resolver cfg) (ct_id c) = Some (catalog_external_id c)"
    and "k \<in> set (cfg_collections cfg) \<Longrightarrow>
      rv_collection_external_id (config_resolver cfg) (cl_id k) = Some (collection_external_id k)"
  using assms find_unique [of tn_id "cfg_tenants cfg" t] find_unique [of ct_id "cfg_catalogs cfg" c]
    find_unique [of cl_id "cfg_collections cfg" k]
  by (simp_all add: config_resolver_defs index_by_lookup well_formed_config_def tenants_ok_def catalogs_ok_def
    collections_ok_def)

lemma catalog_count_build:
  "well_formed_config cfg \<Longrightarrow> catalog_count (static_resolver_build cfg) = length (cfg_catalogs cfg)"
  unfolding catalog_count_def static_resolver_build_def build_from_snapshot_def static_resolver.select_convs
    fcard.rep_eq fmdom_index_by
  by (metis card_image catalogs_ok_def distinct_card distinct_map well_formed_config_def)

interpretation config: id_resolver well_formed_config config_resolver
proof
  fix cfg :: "'a app_config" and e i t g :: string assume wf: "well_formed_config cfg"
  show "rv_tenant_external_id (config_resolver cfg) i = Some e" if "rv_resolve_tenant (config_resolver cfg) e = Some i"
    using that config_reverses(1) [OF wf] unfolding config_resolves(1) [OF wf] by (auto dest: find_Some_D)
  show "rv_catalog_external_id (config_resolver cfg) i = Some e"
    if "rv_resolve_catalog (config_resolver cfg) t e = Some i"
    using that config_reverses(2) [OF wf] unfolding config_resolves(2) [OF wf] by (auto dest: find_Some_D)
  show "rv_collection_external_id (config_resolver cfg) i = Some e"
    if "rv_resolve_collection (config_resolver cfg) g e = Some i"
    using that config_reverses(3) [OF wf] unfolding config_resolves(3) [OF wf] by (auto dest: find_Some_D)
qed

end
