(* ===== verification/Checkpoint_Policy.thy ===== *)
theory Checkpoint_Policy
  imports Control_Path Path_Policy "HOL-Library.Finite_Map"
begin

text \<open>
  \<open>crates/tellurion-core/src/control_policy.rs\<close>: the request checkpoint of the administrative
  surface. The closed table of administrative resources with its classification and resolution, the
  compiled policy set, and the decision of a request by the rules R0 (engagement), R2 (inheritance),
  R3 (statements in effect) and R4 (deny overrides). The last sections show that the table reads and
  writes the same paths, and that the decision is the one the rules give, stated over the declared
  bindings and policies as sets.
\<close>

section \<open>Administrative resources\<close>

datatype admin_resource =
    PlatformConfig
  | PlatformEffective
  | PlatformProfiles
  | PlatformWebhooks
  | PlatformWebhookDeadLetters string
  | TenantEffective string
  | CatalogEffective string string
  | CollectionEffective string string string

definition admin_resource_of :: "string list \<Rightarrow> admin_resource option" where
  "admin_resource_of segments =
     (case segments of
        [a] \<Rightarrow> if a = ''config'' then Some PlatformConfig else None
      | [a, b] \<Rightarrow>
          if a = ''config'' \<and> b = ''effective'' then Some PlatformEffective
          else if a = ''config'' \<and> b = ''profiles'' then Some PlatformProfiles
          else if a = ''config'' \<and> b = ''webhooks'' then Some PlatformWebhooks
          else None
      | [tenant, a, b] \<Rightarrow>
          if a = ''config'' \<and> b = ''effective'' then Some (TenantEffective tenant) else None
      | [a, b, subscription, c] \<Rightarrow>
          if a = ''config'' \<and> b = ''webhooks'' \<and> c = ''dead-letters''
          then Some (PlatformWebhookDeadLetters subscription) else None
      | [tenant, a, b, catalog, c] \<Rightarrow>
          if a = ''config'' \<and> b = ''catalogs'' \<and> c = ''effective''
          then Some (CatalogEffective tenant catalog) else None
      | [tenant, a, b, catalog, c, collection, d] \<Rightarrow>
          if a = ''config'' \<and> b = ''catalogs'' \<and> c = ''collections'' \<and> d = ''effective''
          then Some (CollectionEffective tenant catalog collection) else None
      | _ \<Rightarrow> None)"

definition admin_external_ids :: "admin_resource \<Rightarrow> string option \<times> string option \<times> string option" where
  "admin_external_ids r =
     (case r of
        TenantEffective tenant \<Rightarrow> (Some tenant, None, None)
      | CatalogEffective tenant catalog \<Rightarrow> (Some tenant, Some catalog, None)
      | CollectionEffective tenant catalog collection \<Rightarrow> (Some tenant, Some catalog, Some collection)
      | _ \<Rightarrow> (None, None, None))"

record checkpoint_request =
  cr_method :: string
  cr_canonical_path :: "string list"
  cr_scope :: control_scope

definition to_ascii_uppercase :: "string \<Rightarrow> string" where
  "to_ascii_uppercase =
     map (\<lambda>c. let n = of_char c :: nat in if 97 \<le> n \<and> n \<le> 122 then char_of (n - 32) else c)"

text \<open>The canonical path and scope of a resource; None is the panic on a missing identifier.\<close>

definition admin_resolved ::
  "admin_resource \<Rightarrow> string option \<Rightarrow> string option \<Rightarrow> string option \<Rightarrow>
   (string list \<times> control_scope) option" where
  "admin_resolved r tenant_id catalog_id collection_id =
     (case r of
        PlatformConfig \<Rightarrow> Some ([''config''], Platform)
      | PlatformEffective \<Rightarrow> Some ([''config'', ''effective''], Platform)
      | PlatformProfiles \<Rightarrow> Some ([''config'', ''profiles''], Platform)
      | PlatformWebhooks \<Rightarrow> Some ([''config'', ''webhooks''], Platform)
      | PlatformWebhookDeadLetters subscription \<Rightarrow>
          Some ([''config'', ''webhooks'', subscription, ''dead-letters''], Platform)
      | TenantEffective _ \<Rightarrow>
          (case tenant_id of
             Some tenant \<Rightarrow> Some ([tenant, ''config'', ''effective''], Tenant tenant)
           | None \<Rightarrow> None)
      | CatalogEffective _ _ \<Rightarrow>
          (case (tenant_id, catalog_id) of
             (Some tenant, Some catalog) \<Rightarrow>
               Some ([tenant, ''config'', ''catalogs'', catalog, ''effective''], Catalog tenant catalog)
           | _ \<Rightarrow> None)
      | CollectionEffective _ _ _ \<Rightarrow>
          (case (tenant_id, catalog_id, collection_id) of
             (Some tenant, Some catalog, Some collection) \<Rightarrow>
               Some ([tenant, ''config'', ''catalogs'', catalog, ''collections'', collection, ''effective''],
                 Collection tenant catalog collection)
           | _ \<Rightarrow> None))"

definition admin_resolve ::
  "admin_resource \<Rightarrow> string \<Rightarrow> string option \<Rightarrow> string option \<Rightarrow> string option \<Rightarrow>
   checkpoint_request option" where
  "admin_resolve r meth tenant_id catalog_id collection_id =
     map_option (\<lambda>(path, scope). \<lparr>cr_method = to_ascii_uppercase meth, cr_canonical_path = path, cr_scope = scope\<rparr>)
       (admin_resolved r tenant_id catalog_id collection_id)"

definition canonical_path_string :: "checkpoint_request \<Rightarrow> string" where
  "canonical_path_string rq = ''/'' @ join_with CHR ''/'' (cr_canonical_path rq)"

section \<open>The policy set\<close>

datatype decision_basis = ExplicitDeny | ExplicitAllow | NoMatchingAllow

record checkpoint_context =
  dc_scope :: string
  dc_statements :: "string list"
  dc_roles :: "string list"
  dc_basis :: decision_basis

fun basis_as_str :: "decision_basis \<Rightarrow> string" where
  "basis_as_str ExplicitDeny = ''explicit_deny''"
| "basis_as_str ExplicitAllow = ''explicit_allow''"
| "basis_as_str NoMatchingAllow = ''no_matching_allow''"

definition decision_summary :: "checkpoint_context \<Rightarrow> string" where
  "decision_summary c =
     ''scope='' @ dc_scope c @ '' basis='' @ basis_as_str (dc_basis c)
       @ '' statements=['' @ join_with CHR '','' (dc_statements c)
       @ ''] roles=['' @ join_with CHR '','' (dc_roles c) @ '']''"

datatype checkpoint_decision =
    NotEngaged
  | Checkpoint_Allow checkpoint_context
  | Checkpoint_Deny checkpoint_context

record bound_role =
  br_scope :: control_scope
  br_role :: string

record checkpoint_statement =
  sm_id :: string
  sm_effect :: policy_effect
  sm_methods :: "string set"
  sm_patterns :: "path_pattern list"
  sm_roles :: "string set"
  sm_unhonoured_conditions :: bool

definition statement_mentions :: "checkpoint_statement \<Rightarrow> string list \<Rightarrow> bool" where
  "statement_mentions statement path = list_ex (\<lambda>p. path_pattern_matches p path) (sm_patterns statement)"

record control_policy_set =
  ps_bindings :: "(principal_identity, bound_role list) fmap"
  ps_statements :: "checkpoint_statement list"
  ps_unhonoured_conditions :: "string list"
  ps_roleless :: "string list"

definition default_policy_set :: control_policy_set where
  "default_policy_set = \<lparr>ps_bindings = fmempty, ps_statements = [], ps_unhonoured_conditions = [],
     ps_roleless = []\<rparr>"

text \<open>\<open>entry(principal).or_default().push(bound)\<close>.\<close>

definition push_binding ::
  "role_binding \<Rightarrow> (principal_identity, bound_role list) fmap \<Rightarrow> (principal_identity, bound_role list) fmap" where
  "push_binding b m =
     fmupd (rb_principal b)
       ((case fmlookup m (rb_principal b) of Some bound \<Rightarrow> bound | None \<Rightarrow> [])
          @ [\<lparr>br_scope = rb_scope b, br_role = rb_role b\<rparr>]) m"

definition checkpoint_roles :: "'x path_policy \<Rightarrow> string list" where
  "checkpoint_roles policy =
     (if pp_roles policy = [] then (case pp_role policy of Some role \<Rightarrow> [role] | None \<Rightarrow> [])
      else pp_roles policy)"

definition compile_checkpoint_statement :: "'x path_policy \<Rightarrow> path_pattern_error + checkpoint_statement" where
  "compile_checkpoint_statement policy =
     and_then (traverse path_pattern_compile (pp_patterns policy)) (\<lambda>patterns.
     Inr \<lparr>sm_id = pp_id policy, sm_effect = pp_effect policy,
          sm_methods = to_ascii_uppercase ` set (pp_methods policy), sm_patterns = patterns,
          sm_roles = set (checkpoint_roles policy),
          sm_unhonoured_conditions = (pp_conditions policy \<noteq> [])\<rparr>)"

definition policy_set_compile ::
  "role_binding list \<Rightarrow> 'x path_policy list \<Rightarrow> path_pattern_error + control_policy_set" where
  "policy_set_compile bindings policies =
     and_then (traverse compile_checkpoint_statement policies) (\<lambda>statements.
     Inr \<lparr>ps_bindings = fold push_binding bindings fmempty, ps_statements = statements,
          ps_unhonoured_conditions = sort (map pp_id (filter (\<lambda>p. pp_conditions p \<noteq> []) policies)),
          ps_roleless = sort (map pp_id (filter (\<lambda>p. checkpoint_roles p = []) policies))\<rparr>)"

definition policy_set_is_empty :: "control_policy_set \<Rightarrow> bool" where
  "policy_set_is_empty ps = (ps_statements ps = [])"

definition statement_count :: "control_policy_set \<Rightarrow> nat" where
  "statement_count ps = length (ps_statements ps)"

definition binding_count :: "control_policy_set \<Rightarrow> nat" where
  "binding_count ps = (\<Sum>who \<in> fset (fmdom (ps_bindings ps)). length (the (fmlookup (ps_bindings ps) who)))"

section \<open>The decision\<close>

definition contributing_roles :: "control_policy_set \<Rightarrow> principal_identity option \<Rightarrow> control_scope \<Rightarrow> string set" where
  "contributing_roles ps identity scope =
     (case identity of
        None \<Rightarrow> {}
      | Some who \<Rightarrow>
          (case fmlookup (ps_bindings ps) who of
             None \<Rightarrow> {}
           | Some bound \<Rightarrow> set (map br_role (filter (\<lambda>b. scope_covers (br_scope b) scope) bound))))"

text \<open>The loop over the mentioning statements: the sets of denies and allows in effect.\<close>

fun effective_statements ::
  "string \<Rightarrow> string set \<Rightarrow> checkpoint_statement list \<Rightarrow> string set \<times> string set \<Rightarrow> string set \<times> string set" where
  "effective_statements meth contributing [] (denies, allows) = (denies, allows)"
| "effective_statements meth contributing (statement # statements) (denies, allows) =
     effective_statements meth contributing statements
       (if meth \<notin> sm_methods statement then (denies, allows)
        else if sm_roles statement \<inter> contributing = {} then (denies, allows)
        else (case sm_effect statement of
          Deny \<Rightarrow> (insert (sm_id statement) denies, allows)
        | Allow \<Rightarrow>
            if sm_unhonoured_conditions statement then (denies, allows)
            else (denies, insert (sm_id statement) allows)))"

definition checkpoint_authorize ::
  "control_policy_set \<Rightarrow> principal_identity option \<Rightarrow> checkpoint_request \<Rightarrow> checkpoint_decision" where
  "checkpoint_authorize ps identity request =
     (let mentioned = filter (\<lambda>s. statement_mentions s (cr_canonical_path request)) (ps_statements ps) in
      if mentioned = [] then NotEngaged
      else
        let contributing = contributing_roles ps identity (cr_scope request);
            (denies, allows) = effective_statements (cr_method request) contributing mentioned ({}, {});
            roles = sorted_list_of_set contributing;
            scope = resource_key (cr_scope request) in
        if denies \<noteq> {} then
          Checkpoint_Deny \<lparr>dc_scope = scope, dc_statements = sorted_list_of_set denies, dc_roles = roles,
            dc_basis = ExplicitDeny\<rparr>
        else if allows \<noteq> {} then
          Checkpoint_Allow \<lparr>dc_scope = scope, dc_statements = sorted_list_of_set allows, dc_roles = roles,
            dc_basis = ExplicitAllow\<rparr>
        else
          Checkpoint_Deny \<lparr>dc_scope = scope, dc_statements = [], dc_roles = roles,
            dc_basis = NoMatchingAllow\<rparr>)"

section \<open>The compiled set against the declarations\<close>

lemma traverse_ok_iff: "(\<exists>ys. traverse f xs = Inr ys) \<longleftrightarrow> (\<forall>x \<in> set xs. is_ok (f x))"
  by (induction xs) (auto simp: and_then_Inr_iff is_ok_iff)

lemma effective_statements_sets:
  "effective_statements meth contributing statements (denies, allows) =
     (denies \<union> sm_id ` {s \<in> set statements. meth \<in> sm_methods s \<and> sm_roles s \<inter> contributing \<noteq> {}
          \<and> sm_effect s = Deny},
      allows \<union> sm_id ` {s \<in> set statements. meth \<in> sm_methods s \<and> sm_roles s \<inter> contributing \<noteq> {}
          \<and> sm_effect s = Allow \<and> \<not> sm_unhonoured_conditions s})"
proof (induction statements arbitrary: denies allows)
  case (Cons s statements)
  show ?case by (simp add: Cons.IH split: policy_effect.splits) auto
qed simp

lemma push_binding_lookup:
  "fmlookup (push_binding b m) who =
     (if rb_principal b = who
      then Some ((case fmlookup m who of Some bound \<Rightarrow> bound | None \<Rightarrow> [])
             @ [\<lparr>br_scope = rb_scope b, br_role = rb_role b\<rparr>])
      else fmlookup m who)"
  by (simp add: push_binding_def)

lemma pushed_bindings:
  "fmlookup (fold push_binding bindings m) who =
     (let bound = map (\<lambda>b. \<lparr>br_scope = rb_scope b, br_role = rb_role b\<rparr>)
           (filter (\<lambda>b. rb_principal b = who) bindings) in
      case fmlookup m who of
        None \<Rightarrow> if bound = [] then None else Some bound
      | Some old \<Rightarrow> Some (old @ bound))"
proof (induction bindings arbitrary: m)
  case (Cons b bindings)
  show ?case by (simp add: Cons.IH push_binding_lookup Let_def split: option.splits)
qed (simp split: option.splits)

definition held_roles :: "role_binding list \<Rightarrow> principal_identity option \<Rightarrow> control_scope \<Rightarrow> string set" where
  "held_roles bindings identity scope =
     rb_role ` {b \<in> set bindings. identity = Some (rb_principal b) \<and> scope_covers (rb_scope b) scope}"

lemma contributing_roles_held:
  assumes "ps_bindings ps = fold push_binding bindings fmempty"
  shows "contributing_roles ps identity scope = held_roles bindings identity scope"
proof (cases identity)
  case (Some who)
  let ?bound = "map (\<lambda>b. \<lparr>br_scope = rb_scope b, br_role = rb_role b\<rparr>) (filter (\<lambda>b. rb_principal b = who) bindings)"
  have "contributing_roles ps identity scope = set (map br_role (filter (\<lambda>b. scope_covers (br_scope b) scope) ?bound))"
    by (cases "?bound = []") (simp_all add: contributing_roles_def Some assms pushed_bindings Let_def)
  also have "\<dots> = held_roles bindings identity scope"
    by (simp add: filter_map comp_def held_roles_def Some image_image) auto
  finally show ?thesis .
qed (simp add: contributing_roles_def held_roles_def)

lemma finite_held_roles [simp]: "finite (held_roles bindings identity scope)"
  by (simp add: held_roles_def)

definition policy_mentions :: "'x path_policy \<Rightarrow> string list \<Rightarrow> bool" where
  "policy_mentions policy path \<longleftrightarrow>
     (\<exists>pattern \<in> set (pp_patterns policy). \<exists>c. path_pattern_compile pattern = Inr c \<and> path_pattern_matches c path)"

lemma compiled_statement:
  assumes "compile_checkpoint_statement policy = Inr st"
  shows "sm_id st = pp_id policy" "sm_effect st = pp_effect policy"
    "sm_methods st = to_ascii_uppercase ` set (pp_methods policy)" "sm_roles st = set (checkpoint_roles policy)"
    "sm_unhonoured_conditions st \<longleftrightarrow> pp_conditions policy \<noteq> []"
    "statement_mentions st path \<longleftrightarrow> policy_mentions policy path"
proof -
  from assms obtain cs where cs: "traverse path_pattern_compile (pp_patterns policy) = Inr cs"
    and st: "st = \<lparr>sm_id = pp_id policy, sm_effect = pp_effect policy,
          sm_methods = to_ascii_uppercase ` set (pp_methods policy), sm_patterns = cs,
          sm_roles = set (checkpoint_roles policy),
          sm_unhonoured_conditions = (pp_conditions policy \<noteq> [])\<rparr>"
    by (auto simp: compile_checkpoint_statement_def and_then_Inr_iff)
  show "sm_id st = pp_id policy" "sm_effect st = pp_effect policy"
    "sm_methods st = to_ascii_uppercase ` set (pp_methods policy)" "sm_roles st = set (checkpoint_roles policy)"
    "sm_unhonoured_conditions st \<longleftrightarrow> pp_conditions policy \<noteq> []"
    by (simp_all add: st)
  show "statement_mentions st path \<longleftrightarrow> policy_mentions policy path"
    unfolding st statement_mentions_def policy_mentions_def list_ex_iff checkpoint_statement.select_convs
    using traverse_set [OF cs] by blast
qed

text \<open>The rules, over the declarations.\<close>

definition policy_in_effect ::
  "role_binding list \<Rightarrow> principal_identity option \<Rightarrow> checkpoint_request \<Rightarrow> 'x path_policy \<Rightarrow> bool" where
  "policy_in_effect bindings identity rq policy \<longleftrightarrow>
     set (checkpoint_roles policy) \<inter> held_roles bindings identity (cr_scope rq) \<noteq> {}
     \<and> cr_method rq \<in> to_ascii_uppercase ` set (pp_methods policy)
     \<and> policy_mentions policy (cr_canonical_path rq)
     \<and> (pp_effect policy = Allow \<longrightarrow> pp_conditions policy = [])"

definition rule_decision ::
  "role_binding list \<Rightarrow> 'x path_policy list \<Rightarrow> principal_identity option \<Rightarrow> checkpoint_request \<Rightarrow>
   checkpoint_decision" where
  "rule_decision bindings policies identity rq =
     (let in_effect = (\<lambda>effect. pp_id ` {p \<in> set policies. policy_in_effect bindings identity rq p \<and> pp_effect p = effect});
          context = (\<lambda>ids basis. \<lparr>dc_scope = resource_key (cr_scope rq), dc_statements = sorted_list_of_set ids,
            dc_roles = sorted_list_of_set (held_roles bindings identity (cr_scope rq)), dc_basis = basis\<rparr>) in
      if \<forall>p \<in> set policies. \<not> policy_mentions p (cr_canonical_path rq) then NotEngaged
      else if in_effect Deny \<noteq> {} then Checkpoint_Deny (context (in_effect Deny) ExplicitDeny)
      else if in_effect Allow \<noteq> {} then Checkpoint_Allow (context (in_effect Allow) ExplicitAllow)
      else Checkpoint_Deny (context {} NoMatchingAllow))"

lemma authorize_rules:
  assumes "policy_set_compile bindings policies = Inr ps"
  shows "checkpoint_authorize ps identity rq = rule_decision bindings policies identity rq"
proof -
  from assms obtain sts where sts: "traverse compile_checkpoint_statement policies = Inr sts"
    and ps: "ps_bindings ps = fold push_binding bindings fmempty" "ps_statements ps = sts"
    by (auto simp: policy_set_compile_def and_then_Inr_iff)
  let ?path = "cr_canonical_path rq"
  let ?ms = "filter (\<lambda>s. statement_mentions s ?path) sts"
  let ?held = "held_roles bindings identity (cr_scope rq)"
  let ?eff = "\<lambda>e. pp_id ` {p \<in> set policies. policy_in_effect bindings identity rq p \<and> pp_effect p = e}"
  have compiled: "\<exists>st. compile_checkpoint_statement p = Inr st \<and> st \<in> set sts" if "p \<in> set policies" for p
  proof -
    have "\<forall>p \<in> set policies. is_ok (compile_checkpoint_statement p)"
      unfolding traverse_ok_iff [symmetric] using sts by (rule exI)
    with that have "is_ok (compile_checkpoint_statement p)" by blast
    then obtain st where "compile_checkpoint_statement p = Inr st" by (auto simp: is_ok_iff)
    with that traverse_set [OF sts] show ?thesis by blast
  qed
  have source: "\<exists>p \<in> set policies. compile_checkpoint_statement p = Inr st" if "st \<in> set sts" for st
    using that traverse_set [OF sts] by simp
  have mentions: "statement_mentions st ?path \<longleftrightarrow> policy_mentions p ?path"
    if "compile_checkpoint_statement p = Inr st" for p st
    by (rule compiled_statement(6) [OF that])
  have none: "?ms = [] \<longleftrightarrow> (\<forall>p \<in> set policies. \<not> policy_mentions p ?path)"
    unfolding filter_empty_conv using compiled source mentions by blast
  have d: "sm_id ` {s \<in> set ?ms. cr_method rq \<in> sm_methods s \<and> sm_roles s \<inter> ?held \<noteq> {} \<and> sm_effect s = Deny} = ?eff Deny"
  proof (intro set_eqI iffI)
    fix i assume "i \<in> sm_id ` {s \<in> set ?ms. cr_method rq \<in> sm_methods s \<and> sm_roles s \<inter> ?held \<noteq> {} \<and> sm_effect s = Deny}"
    then obtain st where st: "st \<in> set sts" "statement_mentions st ?path" "cr_method rq \<in> sm_methods st"
      "sm_roles st \<inter> ?held \<noteq> {}" "sm_effect st = Deny" "i = sm_id st" by auto
    from source [OF st(1)] obtain p where p: "p \<in> set policies" "compile_checkpoint_statement p = Inr st" by blast
    from st p show "i \<in> ?eff Deny"
      unfolding compiled_statement [OF p(2)] by (auto simp: policy_in_effect_def)
  next
    fix i assume "i \<in> ?eff Deny"
    then obtain p where p: "p \<in> set policies" "policy_in_effect bindings identity rq p" "pp_effect p = Deny"
      "i = pp_id p" by auto
    from compiled [OF p(1)] obtain st where st: "compile_checkpoint_statement p = Inr st" "st \<in> set sts" by blast
    show "i \<in> sm_id ` {s \<in> set ?ms. cr_method rq \<in> sm_methods s \<and> sm_roles s \<inter> ?held \<noteq> {} \<and> sm_effect s = Deny}"
      using p(2-4) st(2) compiled_statement [OF st(1)] by (intro image_eqI [of _ _ st]) (auto simp: policy_in_effect_def)
  qed
  have a: "sm_id ` {s \<in> set ?ms. cr_method rq \<in> sm_methods s \<and> sm_roles s \<inter> ?held \<noteq> {} \<and> sm_effect s = Allow
      \<and> \<not> sm_unhonoured_conditions s} = ?eff Allow"
  proof (intro set_eqI iffI)
    fix i assume "i \<in> sm_id ` {s \<in> set ?ms. cr_method rq \<in> sm_methods s \<and> sm_roles s \<inter> ?held \<noteq> {} \<and> sm_effect s = Allow
      \<and> \<not> sm_unhonoured_conditions s}"
    then obtain st where st: "st \<in> set sts" "statement_mentions st ?path" "cr_method rq \<in> sm_methods st"
      "sm_roles st \<inter> ?held \<noteq> {}" "sm_effect st = Allow" "\<not> sm_unhonoured_conditions st" "i = sm_id st" by auto
    from source [OF st(1)] obtain p where p: "p \<in> set policies" "compile_checkpoint_statement p = Inr st" by blast
    from st p show "i \<in> ?eff Allow"
      unfolding compiled_statement [OF p(2)] by (auto simp: policy_in_effect_def)
  next
    fix i assume "i \<in> ?eff Allow"
    then obtain p where p: "p \<in> set policies" "policy_in_effect bindings identity rq p" "pp_effect p = Allow"
      "i = pp_id p" by auto
    from compiled [OF p(1)] obtain st where st: "compile_checkpoint_statement p = Inr st" "st \<in> set sts" by blast
    show "i \<in> sm_id ` {s \<in> set ?ms. cr_method rq \<in> sm_methods s \<and> sm_roles s \<inter> ?held \<noteq> {} \<and> sm_effect s = Allow
      \<and> \<not> sm_unhonoured_conditions s}"
      using p(2-4) st(2) compiled_statement [OF st(1)] by (intro image_eqI [of _ _ st]) (auto simp: policy_in_effect_def)
  qed
  have "effective_statements (cr_method rq) ?held ?ms ({}, {}) = (?eff Deny, ?eff Allow)"
    unfolding effective_statements_sets d a by simp
  then show ?thesis
    using none unfolding checkpoint_authorize_def rule_decision_def ps contributing_roles_held [OF ps(1)] Let_def
    by simp
qed

section \<open>Properties\<close>

text \<open>
  C14. The checkpoint decides by its rules: no opinion when no declared policy mentions the path;
  otherwise a deny in effect refuses, else an allow in effect grants, else the request is refused. A
  policy is in effect when the principal holds one of its roles at a scope that covers the target, it
  names the method and mentions the path, and a conditioned allow never is.
\<close>

theorem checkpoint_decides_by_rules:
  assumes "policy_set_compile bindings policies = Inr ps"
  shows "checkpoint_authorize ps identity rq = rule_decision bindings policies identity rq"
  by (rule authorize_rules [OF assms])

definition sample_statement :: "unit path_policy" where
  "sample_statement = path_policy_new ''read-config'' ''admin'' (Tenant ''t1'') Allow [''get''] [''/t1/config/**'']"

definition sample_holder :: principal_identity where
  "sample_holder = \<lparr>pr_issuer = ''https://idp'', pr_subject = ''ann''\<rparr>"

definition sample_grant :: role_binding where
  "sample_grant = \<lparr>rb_principal = sample_holder, rb_role = ''admin'', rb_scope = Tenant ''t1''\<rparr>"

lemma sample_statement_mentions:
  "policy_mentions sample_statement path \<longleftrightarrow>
     path_pattern_matches [CLiteral ''t1'', CLiteral ''config'', AnySuffix] path"
proof -
  have "path_pattern_compile ''/t1/config/**'' = Inr [CLiteral ''t1'', CLiteral ''config'', AnySuffix]" by code_simp
  then show ?thesis by (simp add: policy_mentions_def sample_statement_def path_policy_new_def)
qed

lemma sample_statement_compiles: "\<exists>ps. policy_set_compile [sample_grant] [sample_statement] = Inr ps"
proof -
  have "is_ok (compile_checkpoint_statement sample_statement)" by code_simp
  then show ?thesis by (auto simp: policy_set_compile_def is_ok_iff)
qed

theorem checkpoint_decides_by_rules_witness:
  "\<exists>ps. policy_set_compile [sample_grant] [sample_statement] = Inr ps
     \<and> checkpoint_authorize ps (Some sample_holder)
          \<lparr>cr_method = ''GET'', cr_canonical_path = [''t1'', ''config'', ''effective''], cr_scope = Tenant ''t1''\<rparr>
        = Checkpoint_Allow \<lparr>dc_scope = ''tenant/t1'', dc_statements = [''read-config''], dc_roles = [''admin''],
            dc_basis = ExplicitAllow\<rparr>
     \<and> checkpoint_authorize ps None
          \<lparr>cr_method = ''GET'', cr_canonical_path = [''t1'', ''config'', ''effective''], cr_scope = Tenant ''t1''\<rparr>
        = Checkpoint_Deny \<lparr>dc_scope = ''tenant/t1'', dc_statements = [], dc_roles = [], dc_basis = NoMatchingAllow\<rparr>"
proof -
  obtain ps where ps: "policy_set_compile [sample_grant] [sample_statement] = Inr ps"
    using sample_statement_compiles by blast
  have up: "to_ascii_uppercase ''get'' = ''GET''" by code_simp
  have held: "held_roles [sample_grant] (Some sample_holder) (Tenant ''t1'') = {''admin''}"
    "held_roles [sample_grant] None (Tenant ''t1'') = {}"
    by (auto simp: held_roles_def sample_grant_def scope_covers_def)
  note f = sample_statement_def path_policy_new_def checkpoint_roles_def
  have eff: "pp_effect sample_statement = Allow" "pp_id sample_statement = ''read-config''" by (simp_all add: f)
  have "policy_in_effect [sample_grant] (Some sample_holder)
      \<lparr>cr_method = ''GET'', cr_canonical_path = [''t1'', ''config'', ''effective''], cr_scope = Tenant ''t1''\<rparr> sample_statement"
    unfolding policy_in_effect_def held checkpoint_request.select_convs sample_statement_mentions
    by (simp add: f up)
  then have "{p. p = sample_statement \<and> policy_in_effect [sample_grant] (Some sample_holder)
      \<lparr>cr_method = ''GET'', cr_canonical_path = [''t1'', ''config'', ''effective''], cr_scope = Tenant ''t1''\<rparr> p
      \<and> pp_effect p = Allow} = {sample_statement}"
    using eff by auto
  moreover have "\<not> policy_in_effect [sample_grant] None
      \<lparr>cr_method = ''GET'', cr_canonical_path = [''t1'', ''config'', ''effective''], cr_scope = Tenant ''t1''\<rparr> sample_statement"
    unfolding policy_in_effect_def held checkpoint_request.select_convs by simp
  ultimately show ?thesis
    using ps by (auto simp: checkpoint_decides_by_rules [OF ps] rule_decision_def held eff sample_statement_mentions)
qed

text \<open>
  The order of the declarations does not matter: two snapshots with the same bindings and the
  same policies, in any order and any multiplicity, compile together and decide every request alike.
\<close>

lemma checkpoint_ignores_declaration_order:
  assumes "set bindings = set bindings'" "set policies = set policies'"
    and "policy_set_compile bindings policies = Inr ps"
  shows "\<exists>ps'. policy_set_compile bindings' policies' = Inr ps'
    \<and> (\<forall>identity rq. checkpoint_authorize ps' identity rq = checkpoint_authorize ps identity rq)"
proof -
  from assms(3) have "\<forall>p \<in> set policies. is_ok (compile_checkpoint_statement p)"
    unfolding policy_set_compile_def and_then_Inr_iff traverse_ok_iff [symmetric] by blast
  then obtain sts where "traverse compile_checkpoint_statement policies' = Inr sts"
    unfolding assms(2) traverse_ok_iff [symmetric] by blast
  then obtain ps' where ps': "policy_set_compile bindings' policies' = Inr ps'"
    by (simp add: policy_set_compile_def)
  have "rule_decision bindings' policies' = rule_decision bindings policies"
    unfolding rule_decision_def policy_in_effect_def held_roles_def assms(1,2) ..
  then show ?thesis using ps' by (auto simp: authorize_rules [OF ps'] authorize_rules [OF assms(3)])
qed

lemma checkpoint_ignores_declaration_order_example:
  "\<exists>ps ps'. policy_set_compile [sample_grant] [sample_statement] = Inr ps
     \<and> policy_set_compile [sample_grant, sample_grant] [sample_statement] = Inr ps'
     \<and> (\<forall>identity rq. checkpoint_authorize ps' identity rq = checkpoint_authorize ps identity rq)"
proof -
  obtain ps where ps: "policy_set_compile [sample_grant] [sample_statement] = Inr ps"
    using sample_statement_compiles by blast
  have "set [sample_grant] = set [sample_grant, sample_grant]" by simp
  from checkpoint_ignores_declaration_order [OF this refl ps] ps show ?thesis by blast
qed

text \<open>
  The table of administrative resources reads and writes the same paths: a decoded path is
  classified as a resource exactly when it is the canonical path of that resource under the
  identifiers it names, and the canonical path under resolved identifiers is classified as a resource
  whose own canonical path and scope are these.
\<close>

lemma admin_resource_round_trip:
  "(admin_resource_of segments = Some r \<longleftrightarrow>
     (\<exists>tenant catalog collection scope. admin_external_ids r = (tenant, catalog, collection)
        \<and> admin_resolved r tenant catalog collection = Some (segments, scope)))
   \<and> (case admin_resolved r tenant_id catalog_id collection_id of
        None \<Rightarrow> True
      | Some (path, scope) \<Rightarrow> \<exists>r' tenant catalog collection. admin_resource_of path = Some r'
          \<and> admin_external_ids r' = (tenant, catalog, collection)
          \<and> admin_resolved r' tenant catalog collection = Some (path, scope))"
proof
  show "admin_resource_of segments = Some r \<longleftrightarrow>
     (\<exists>tenant catalog collection scope. admin_external_ids r = (tenant, catalog, collection)
        \<and> admin_resolved r tenant catalog collection = Some (segments, scope))"
  proof
    assume "admin_resource_of segments = Some r"
    then show "\<exists>tenant catalog collection scope. admin_external_ids r = (tenant, catalog, collection)
        \<and> admin_resolved r tenant catalog collection = Some (segments, scope)"
      by (auto simp: admin_resource_of_def admin_external_ids_def admin_resolved_def
        split: list.splits if_splits)
  next
    assume "\<exists>tenant catalog collection scope. admin_external_ids r = (tenant, catalog, collection)
        \<and> admin_resolved r tenant catalog collection = Some (segments, scope)"
    then show "admin_resource_of segments = Some r"
      by (cases r) (auto simp: admin_resource_of_def admin_external_ids_def admin_resolved_def)
  qed
  show "case admin_resolved r tenant_id catalog_id collection_id of
        None \<Rightarrow> True
      | Some (path, scope) \<Rightarrow> \<exists>r' tenant catalog collection. admin_resource_of path = Some r'
          \<and> admin_external_ids r' = (tenant, catalog, collection)
          \<and> admin_resolved r' tenant catalog collection = Some (path, scope)"
    by (cases r) (auto simp: admin_resource_of_def admin_external_ids_def admin_resolved_def split: option.splits)
qed

end
