(* ===== verification/Checkpoint.thy ===== *)
theory Checkpoint
  imports Resolver Checkpoint_Policy Mutation_Claims
begin

text \<open>
  The two checkpoints in front of the handlers. \<open>crates/tellurion-control/src/middleware.rs\<close>
  guards the control API: it verifies the route, resolves the target through a resolver, cross-checks the
  identifiers with the snapshot and runs the handler only under an allow.
  \<open>crates/tellurion-server/src/control_checkpoint.rs\<close> applies the path policies to the older
  administrative surface. A handler and the rest of the request chain are arguments.
\<close>

section \<open>The control middleware\<close>

record authorized_read_context =
  rx_principal :: principal_identity
  rx_effective_scope :: control_scope
  rx_decision_context :: control_evaluation

definition checkpoint_resolve_scope ::
  "canonical_control_path \<Rightarrow> resolver \<Rightarrow> 'x validated_control_snapshot \<Rightarrow>
   control_middleware_error + control_scope" where
  "checkpoint_resolve_scope canonical rv snapshot =
     (let segments = cp_segments canonical in
      if segments ! 2 = ''platform'' \<or> length segments = 3 then Inr Platform
      else
        and_then (ok_or (rv_resolve_tenant rv (segments ! 3)) Resolution) (\<lambda>tenant.
        and_then (ensure (rv_tenant_external_id rv tenant = Some (segments ! 3)) NonCanonicalIdentifier) (\<lambda>_.
        and_then (ensure (owns_tenant_identifier snapshot tenant (segments ! 3)) Resolution) (\<lambda>_.
        if length segments \<le> 5 \<or> nth_opt segments 4 \<noteq> Some ''catalogs'' then Inr (Tenant tenant)
        else
          and_then (ok_or (rv_resolve_catalog rv tenant (segments ! 5)) Resolution) (\<lambda>catalog.
          and_then (ensure (rv_catalog_external_id rv catalog = Some (segments ! 5)) NonCanonicalIdentifier) (\<lambda>_.
          and_then (ensure (owns_catalog_identifier snapshot tenant catalog (segments ! 5)) Resolution) (\<lambda>_.
          if length segments \<le> 7 \<or> nth_opt segments 6 \<noteq> Some ''collections''
          then Inr (Catalog tenant catalog)
          else
            and_then (ok_or (rv_resolve_collection rv catalog (segments ! 7)) Resolution) (\<lambda>collection.
            and_then (ensure (rv_collection_external_id rv collection = Some (segments ! 7))
              NonCanonicalIdentifier) (\<lambda>_.
            and_then (ensure (owns_collection_identifier snapshot catalog collection (segments ! 7))
              Resolution) (\<lambda>_.
            Inr (Collection tenant catalog collection)))))))))))"

definition resolve_request ::
  "string \<Rightarrow> string \<Rightarrow> string \<Rightarrow> control_route_registry \<Rightarrow> string \<Rightarrow> 'x versioned_control_snapshot \<Rightarrow> resolver \<Rightarrow>
   control_middleware_error + (control_scope \<times> control_request_context \<times> canonical_control_path)" where
  "resolve_request meth raw_path template registry application_root snapshot rv =
     and_then (map_err InvalidPath (canonicalize_control_path raw_path application_root)) (\<lambda>canonical.
     and_then (registry_verify registry canonical template) (\<lambda>_.
     and_then (map_err (\<lambda>_. InvalidSnapshot) (validated_snapshot snapshot)) (\<lambda>validated.
     and_then (checkpoint_resolve_scope canonical rv validated) (\<lambda>scope.
     Inr (scope,
       \<lparr>rq_method = meth, rq_canonical_path = cp_value canonical, rq_route_template = template,
        rq_scope = scope\<rparr>, canonical)))))"

definition control_read_checkpoint ::
  "'y authenticated_subject \<Rightarrow> string \<Rightarrow> string \<Rightarrow> string \<Rightarrow> control_route_registry \<Rightarrow> string \<Rightarrow>
   'x versioned_control_snapshot \<Rightarrow> resolver \<Rightarrow> (authorized_read_context \<Rightarrow> 'r) \<Rightarrow>
   control_middleware_error + 'r" where
  "control_read_checkpoint subject meth raw_path template registry application_root snapshot rv handler =
     (if \<not> (meth = ''GET'' \<or> meth = ''HEAD'') then Inl WrongCheckpointKind
      else
        and_then (resolve_request meth raw_path template registry application_root snapshot rv)
          (\<lambda>(scope, request, canonical).
        and_then (map_err (\<lambda>_. InvalidSnapshot) (validated_snapshot snapshot)) (\<lambda>validated.
        let decision_context = explain_control_canonical subject request validated canonical in
        if ev_decision decision_context \<noteq> Decision_Allow then Inl (Denied decision_context)
        else Inr (handler \<lparr>rx_principal = as_principal subject, rx_effective_scope = scope,
               rx_decision_context = decision_context\<rparr>))))"

definition control_mutation_checkpoint ::
  "'x digest_env \<Rightarrow> 'y authenticated_subject \<Rightarrow> string \<Rightarrow> string \<Rightarrow> string \<Rightarrow> control_route_registry \<Rightarrow>
   string \<Rightarrow> 'x versioned_control_snapshot \<Rightarrow> 'x control_change_set \<Rightarrow> resolver \<Rightarrow> string \<Rightarrow>
   ('x authorized_control_mutation \<Rightarrow> 'r) \<Rightarrow> control_middleware_error + 'r" where
  "control_mutation_checkpoint dg subject meth raw_path template registry application_root snapshot changes
     rv correlation_id handler =
     (if meth = ''GET'' \<or> meth = ''HEAD'' then Inl WrongCheckpointKind
      else if is_blank correlation_id then Inl InvalidCorrelationId
      else
        and_then (resolve_request meth raw_path template registry application_root snapshot rv) (\<lambda>_.
        and_then (authorize_control_mutation dg subject meth raw_path template registry application_root
          snapshot changes correlation_id) (\<lambda>authorized.
        Inr (handler authorized))))"

section \<open>The administrative checkpoint\<close>

text \<open>What the layer does with a request: let it through, let it through with the decision attached, or
  answer it with a status of its own.\<close>

datatype checkpoint_answer = Pass | Pass_With checkpoint_context | Forbidden | Not_Found

definition checkpoint_refusal :: "checkpoint_request \<Rightarrow> checkpoint_answer" where
  "checkpoint_refusal request =
     (case cr_scope request of
        Platform \<Rightarrow> Forbidden
      | Tenant _ \<Rightarrow> Forbidden
      | Catalog _ _ \<Rightarrow> Not_Found
      | Collection _ _ _ \<Rightarrow> Not_Found)"

text \<open>Step 4: every named external identifier resolved within its parent; None lets the request through.\<close>

definition optional_id :: "('a \<Rightarrow> 'b option) \<Rightarrow> 'a option \<Rightarrow> 'b option option" where
  "optional_id lookup named =
     (case named of None \<Rightarrow> Some None | Some external \<Rightarrow> map_option Some (lookup external))"

definition resolve_ids ::
  "resolver \<Rightarrow> admin_resource \<Rightarrow> (string option \<times> string option \<times> string option) option" where
  "resolve_ids rv resource =
     (case admin_external_ids resource of (tenant_ext, catalog_ext, collection_ext) \<Rightarrow>
      (case optional_id (rv_resolve_tenant rv) tenant_ext of
         None \<Rightarrow> None
       | Some tenant_id \<Rightarrow>
      (case optional_id (rv_resolve_catalog rv (case tenant_id of Some t \<Rightarrow> t | None \<Rightarrow> [])) catalog_ext of
         None \<Rightarrow> None
       | Some catalog_id \<Rightarrow>
      (case optional_id (rv_resolve_collection rv (case catalog_id of Some c \<Rightarrow> c | None \<Rightarrow> [])) collection_ext of
         None \<Rightarrow> None
       | Some collection_id \<Rightarrow> Some (tenant_id, catalog_id, collection_id)))))"

definition enforce_control_policy ::
  "control_policy_set \<Rightarrow> resolver \<Rightarrow> principal_identity option \<Rightarrow> string \<Rightarrow> string \<Rightarrow> checkpoint_answer option" where
  "enforce_control_policy ps rv identity meth raw_path =
     (if policy_set_is_empty ps then Some Pass
      else (case decoded_segments raw_path of
        None \<Rightarrow> Some Pass
      | Some segments \<Rightarrow>
          (case admin_resource_of segments of
             None \<Rightarrow> Some Pass
           | Some resource \<Rightarrow>
               (case resolve_ids rv resource of
                  None \<Rightarrow> Some Pass
                | Some (tenant_id, catalog_id, collection_id) \<Rightarrow>
                    map_option (\<lambda>request.
                      (case checkpoint_authorize ps identity request of
                         NotEngaged \<Rightarrow> Pass
                       | Checkpoint_Allow context \<Rightarrow> Pass_With context
                       | Checkpoint_Deny _ \<Rightarrow> checkpoint_refusal request))
                      (admin_resolve resource meth tenant_id catalog_id collection_id)))))"

section \<open>The resolver against the snapshot\<close>

context id_resolver
begin

lemma identifiers_are_canonical:
  assumes "good c"
  shows "checkpoint_resolve_scope path (resolver_of c) view \<noteq> Inl NonCanonicalIdentifier"
  using tenant_reverse [OF assms] catalog_reverse [OF assms] collection_reverse [OF assms]
  by (auto simp: checkpoint_resolve_scope_def Let_def and_then_def ok_or_def ensure_def
    split: option.splits sum.splits if_splits)

end

lemma resolver_agrees:
  assumes "well_formed_config (vs_config view)"
  shows "checkpoint_resolve_scope path (config_resolver (vs_config view)) view = resolve_snapshot_scope path view"
proof -
  let ?cfg = "vs_config view" and ?segs = "cp_segments path"
  note resolves = config_resolves [OF assms] and reverses = config_reverses [OF assms]
  have t: "rv_tenant_external_id (config_resolver ?cfg) (tn_id t) = Some (tenant_external_id t)"
    "owns_tenant_identifier view (tn_id t) (tenant_external_id t)" "tenant_external_id t = e"
    if "List.find (\<lambda>t. tenant_external_id t = e) (cfg_tenants ?cfg) = Some t" for e t
    using that reverses(1) by (auto simp: owns_tenant_identifier_def list_ex_iff dest: find_Some_D)
  have c: "rv_catalog_external_id (config_resolver ?cfg) (ct_id c) = Some (catalog_external_id c)"
    "owns_catalog_identifier view i (ct_id c) (catalog_external_id c)" "catalog_external_id c = e"
    if "List.find (\<lambda>c. ct_tenant c = i \<and> catalog_external_id c = e) (cfg_catalogs ?cfg) = Some c" for i e c
    using that reverses(2) by (auto simp: owns_catalog_identifier_def list_ex_iff dest: find_Some_D)
  have k: "rv_collection_external_id (config_resolver ?cfg) (cl_id k) = Some (collection_external_id k)"
    "owns_collection_identifier view i (cl_id k) (collection_external_id k)" "collection_external_id k = e"
    if "List.find (\<lambda>k. cl_catalog k = i \<and> collection_external_id k = e) (cfg_collections ?cfg) = Some k" for i e k
    using that reverses(3) by (auto simp: owns_collection_identifier_def list_ex_iff dest: find_Some_D)
  have collection: "and_then (ok_or (rv_resolve_collection (config_resolver ?cfg) i e) Resolution) (\<lambda>collection.
      and_then (ensure (rv_collection_external_id (config_resolver ?cfg) collection = Some e) NonCanonicalIdentifier) (\<lambda>_.
      and_then (ensure (owns_collection_identifier view i collection e) Resolution) (\<lambda>_. f collection)))
    = and_then (ok_or (List.find (\<lambda>k. cl_catalog k = i \<and> collection_external_id k = e) (cfg_collections ?cfg)) Resolution)
        (\<lambda>collection. f (cl_id collection))" for i e and f :: "string \<Rightarrow> control_middleware_error + control_scope"
    using k [of i e]
    by (cases "List.find (\<lambda>k. cl_catalog k = i \<and> collection_external_id k = e) (cfg_collections ?cfg)")
      (auto simp: resolves(3))
  have catalog: "and_then (ok_or (rv_resolve_catalog (config_resolver ?cfg) i e) Resolution) (\<lambda>catalog.
      and_then (ensure (rv_catalog_external_id (config_resolver ?cfg) catalog = Some e) NonCanonicalIdentifier) (\<lambda>_.
      and_then (ensure (owns_catalog_identifier view i catalog e) Resolution) (\<lambda>_. f catalog)))
    = and_then (ok_or (List.find (\<lambda>c. ct_tenant c = i \<and> catalog_external_id c = e) (cfg_catalogs ?cfg)) Resolution)
        (\<lambda>catalog. f (ct_id catalog))" for i e and f :: "string \<Rightarrow> control_middleware_error + control_scope"
    using c [of i e]
    by (cases "List.find (\<lambda>c. ct_tenant c = i \<and> catalog_external_id c = e) (cfg_catalogs ?cfg)")
      (auto simp: resolves(2))
  have tenant: "and_then (ok_or (rv_resolve_tenant (config_resolver ?cfg) e) Resolution) (\<lambda>tenant.
      and_then (ensure (rv_tenant_external_id (config_resolver ?cfg) tenant = Some e) NonCanonicalIdentifier) (\<lambda>_.
      and_then (ensure (owns_tenant_identifier view tenant e) Resolution) (\<lambda>_. f tenant)))
    = and_then (ok_or (List.find (\<lambda>t. tenant_external_id t = e) (cfg_tenants ?cfg)) Resolution)
        (\<lambda>tenant. f (tn_id tenant))" for e and f :: "string \<Rightarrow> control_middleware_error + control_scope"
    using t [of e]
    by (cases "List.find (\<lambda>t. tenant_external_id t = e) (cfg_tenants ?cfg)") (auto simp: resolves(1))
  show ?thesis
    unfolding checkpoint_resolve_scope_def resolve_snapshot_scope_def Let_def tenant catalog collection ..
qed

lemma versioned_view:
  assumes "versioned_new env sn revision versions = Inr v"
  obtains view where "snapshot_validated env sn = Inr view" "validated_snapshot v = Inr view"
    "vs_config view = sn_config sn" "well_formed_config (vs_config view)"
proof -
  obtain view where view: "snapshot_validated env sn = Inr view"
    "validated_state v = Inr (view, revision, versions)" using versioned_new_state [OF assms] by blast
  have "app_config_validate env (vs_config view) = Inr ()"
    using snapshot_validated_D(1,3) [OF view(1)] by (simp add: snapshot_validate_iff)
  then have "well_formed_config (vs_config view)" by (rule accepted_config_well_formed)
  with that view snapshot_validated_D(3) [OF view(1)] show ?thesis by (simp add: validated_snapshot_def)
qed

text \<open>What the administrative layer addresses, and that it never lacks an identifier.\<close>

definition addressed :: "resolver \<Rightarrow> string \<Rightarrow> string \<Rightarrow> checkpoint_request option" where
  "addressed rv meth raw_path =
     (case decoded_segments raw_path of
        None \<Rightarrow> None
      | Some segments \<Rightarrow>
          (case admin_resource_of segments of
             None \<Rightarrow> None
           | Some resource \<Rightarrow>
               (case resolve_ids rv resource of
                  None \<Rightarrow> None
                | Some (tenant_id, catalog_id, collection_id) \<Rightarrow>
                    admin_resolve resource meth tenant_id catalog_id collection_id)))"

lemma optional_id_shape: "optional_id f named = Some x \<Longrightarrow> x = None \<longleftrightarrow> named = None"
  by (auto simp: optional_id_def split: option.splits)

lemma resolve_ids_shape:
  assumes "resolve_ids rv resource = Some (tenant_id, catalog_id, collection_id)"
    and "admin_external_ids resource = (tenant_ext, catalog_ext, collection_ext)"
  shows "(tenant_id = None \<longleftrightarrow> tenant_ext = None) \<and> (catalog_id = None \<longleftrightarrow> catalog_ext = None)
    \<and> (collection_id = None \<longleftrightarrow> collection_ext = None)"
  using assms by (auto simp: resolve_ids_def dest!: optional_id_shape split: option.splits)

lemma resolved_ids_suffice:
  assumes "resolve_ids rv resource = Some (tenant_id, catalog_id, collection_id)"
  shows "\<exists>rq. admin_resolve resource meth tenant_id catalog_id collection_id = Some rq"
proof -
  obtain tenant_ext catalog_ext collection_ext where
    ext: "admin_external_ids resource = (tenant_ext, catalog_ext, collection_ext)" by (metis prod_cases3)
  from resolve_ids_shape [OF assms ext] ext show ?thesis
    by (cases resource) (auto simp: admin_external_ids_def admin_resolve_def admin_resolved_def)
qed

section \<open>Properties\<close>

text \<open>
  C6. The read checkpoint of the control API over the resolver built from the same snapshot: its
  handler runs exactly for a GET or HEAD whose canonical path matches its verified route, resolves in
  the snapshot, and is allowed to the caller there; the handler sees that scope, the caller and the
  evaluation \<open>explain_control\<close> reports.
\<close>

theorem read_checkpoint_decides:
  assumes "versioned_new env sn revision versions = Inr v"
  shows "control_read_checkpoint subject meth raw template registry root v (config_resolver (sn_config sn)) handler
      = Inr r \<longleftrightarrow>
    meth \<in> {''GET'', ''HEAD''} \<and>
    (\<exists>path d view s rq. canonicalize_control_path raw root = Inr path \<and> registry_verify registry path template = Inr d
       \<and> snapshot_validated env sn = Inr view \<and> resolve_snapshot_scope path view = Inr s
       \<and> rq = \<lparr>rq_method = meth, rq_canonical_path = cp_value path, rq_route_template = template, rq_scope = s\<rparr>
       \<and> authorize_control subject rq view = Decision_Allow
       \<and> r = handler \<lparr>rx_principal = as_principal subject, rx_effective_scope = s,
             rx_decision_context = explain_control subject rq view\<rparr>)"
    (is "?run = Inr r \<longleftrightarrow> ?verb \<and> ?allowed")
proof -
  obtain view where view: "snapshot_validated env sn = Inr view" "validated_snapshot v = Inr view"
    "vs_config view = sn_config sn" "well_formed_config (vs_config view)" by (rule versioned_view [OF assms])
  note agrees = resolver_agrees [OF view(4), unfolded view(3)]
  have decided: "explain_control_canonical subject rq view path = explain_control subject rq view
      \<and> ev_decision (explain_control subject rq view) = authorize_control subject rq view"
    if "canonicalize_control_path raw root = Inr path" "rq_canonical_path rq = cp_value path" for path rq
    using canonicalize_idem [OF that(1)] that(2)
    by (simp add: explain_control_def authorize_control_def canonical_request_path_def explain_decision)
  show ?thesis
  proof (cases "canonicalize_control_path raw root")
    case (Inl e)
    then show ?thesis by (auto simp: control_read_checkpoint_def resolve_request_def)
  next
    case (Inr path)
    then show ?thesis
      by (auto simp: control_read_checkpoint_def resolve_request_def and_then_Inr_iff map_err_Inr_iff view agrees
        Let_def decided [OF Inr] split: if_splits)
  qed
qed

theorem read_checkpoint_decides_witness:
  "\<exists>ctx. control_read_checkpoint (sample_actor ''ann'') ''GET'' ''/_control/v1/tenants/acme/settings''
       (route_template TenantSettings) (fmupd (route_template TenantSettings) (template_path TenantSettings, TenantSettings) fmempty)
       [] sample_versioned (config_resolver sample_config) id = Inr ctx
     \<and> rx_effective_scope ctx = Tenant ''t1''"
proof -
  let ?path = "\<lparr>cp_value = ''/_control/v1/tenants/acme/settings'',
     cp_segments = [''_control'', ''v1'', ''tenants'', ''acme'', ''settings'']\<rparr>"
  let ?reg = "fmupd (route_template TenantSettings) (template_path TenantSettings, TenantSettings) fmempty"
  let ?rq = "\<lparr>rq_method = ''GET'', rq_canonical_path = ''/_control/v1/tenants/acme/settings'',
     rq_route_template = route_template TenantSettings, rq_scope = Tenant ''t1''\<rparr>"
  have p: "canonicalize_control_path ''/_control/v1/tenants/acme/settings'' [] = Inr ?path"
    and s: "resolve_snapshot_scope ?path sample_view = Inr (Tenant ''t1'')"
    and d: "registry_verify ?reg ?path (route_template TenantSettings) = Inr TenantSettings"
    and a: "authorize_control (sample_actor ''ann'') ?rq sample_view = Decision_Allow"
    by code_simp+
  have "sn_config sample_snapshot = sample_config" by (simp add: sample_snapshot_def)
  with read_checkpoint_decides [OF sample_versioned_new, of "sample_actor ''ann''" "''GET''"
      "''/_control/v1/tenants/acme/settings''" "route_template TenantSettings" ?reg "[]" id
      "\<lparr>rx_principal = sample_principal ''ann'', rx_effective_scope = Tenant ''t1'',
         rx_decision_context = explain_control (sample_actor ''ann'') ?rq sample_view\<rparr>"] p s d a
  show ?thesis by (simp add: sample_actor_def)
qed

text \<open>
  The resolution in front of a mutation adds nothing and loses nothing: over the resolver of
  the same snapshot the mutation checkpoint answers as the authorization of the mutation does, with the
  same error, and otherwise runs the handler on exactly the authorized mutation.
\<close>

lemma mutation_checkpoint_is_authorization:
  assumes "versioned_new env sn revision versions = Inr v"
  shows "control_mutation_checkpoint dg subject meth raw template registry root v changes
      (config_resolver (sn_config sn)) correlation handler
    = (case authorize_control_mutation dg subject meth raw template registry root v changes correlation of
         Inl e \<Rightarrow> Inl e | Inr m \<Rightarrow> Inr (handler m))"
proof -
  obtain view where view: "snapshot_validated env sn = Inr view" "validated_snapshot v = Inr view"
    "vs_config view = sn_config sn" "well_formed_config (vs_config view)" by (rule versioned_view [OF assms])
  note agrees = resolver_agrees [OF view(4), unfolded view(3)]
  show ?thesis
  proof (cases "canonicalize_control_path raw root")
    case (Inl e)
    then show ?thesis
      by (simp add: control_mutation_checkpoint_def authorize_control_mutation_def resolve_request_def)
  next
    case (Inr path)
    show ?thesis
    proof (cases "registry_verify registry path template")
      case (Inl e)
      with Inr show ?thesis
        by (simp add: control_mutation_checkpoint_def authorize_control_mutation_def resolve_request_def)
    next
      case (Inr d)
      with \<open>canonicalize_control_path raw root = Inr path\<close> show ?thesis
        by (cases "resolve_snapshot_scope path view")
          (auto simp: control_mutation_checkpoint_def authorize_control_mutation_def resolve_request_def view agrees
            and_then_def split: sum.splits)
    qed
  qed
qed

lemma mutation_checkpoint_is_authorization_example:
  "\<exists>m. control_mutation_checkpoint (sample_digest (\<lambda>_. Some JNull)) (sample_actor ''ann'') ''PUT''
        ''/_control/v1/tenants/acme/settings'' (route_template TenantSettings)
        (fmupd (route_template TenantSettings) (template_path TenantSettings, TenantSettings) fmempty) []
        sample_versioned sample_settings_edit (config_resolver sample_config) ''corr'' id = Inr m"
proof -
  have "is_ok (authorize_control_mutation (sample_digest (\<lambda>_. Some JNull)) (sample_actor ''ann'') ''PUT''
        ''/_control/v1/tenants/acme/settings'' (route_template TenantSettings)
        (fmupd (route_template TenantSettings) (template_path TenantSettings, TenantSettings) fmempty) []
        sample_versioned sample_settings_edit ''corr'')" by code_simp
  moreover have "sn_config sample_snapshot = sample_config" by (simp add: sample_snapshot_def)
  ultimately show ?thesis
    using mutation_checkpoint_is_authorization [OF sample_versioned_new, of "sample_digest (\<lambda>_. Some JNull)"
      "sample_actor ''ann''" "''PUT''" "''/_control/v1/tenants/acme/settings''" "route_template TenantSettings"
      "fmupd (route_template TenantSettings) (template_path TenantSettings, TenantSettings) fmempty" "[]"
      sample_settings_edit "''corr''" id]
    by (auto simp: is_ok_iff)
qed

text \<open>
  C15. The administrative checkpoint answers every request: one it does not address (not decodable,
  not administrative, an identifier that does not resolve) passes; an addressed one is decided by the
  rules over the declared policies, passes when no declared policy mentions it, carries the decision
  when allowed, and is refused with an answer that depends on the addressed scope alone. Skipping the
  work for an empty policy set changes no answer.
\<close>

theorem administrative_checkpoint_decides:
  assumes "policy_set_compile bindings policies = Inr ps"
  shows "enforce_control_policy ps rv identity meth raw = Some
    (case addressed rv meth raw of
       None \<Rightarrow> Pass
     | Some rq \<Rightarrow>
         (case rule_decision bindings policies identity rq of
            NotEngaged \<Rightarrow> Pass
          | Checkpoint_Allow context \<Rightarrow> Pass_With context
          | Checkpoint_Deny _ \<Rightarrow> checkpoint_refusal rq))"
proof (cases "policy_set_is_empty ps")
  case True
  then have "ps_statements ps = []" by (simp add: policy_set_is_empty_def)
  then have "checkpoint_authorize ps identity rq = NotEngaged" for rq
    by (simp add: checkpoint_authorize_def)
  then have "rule_decision bindings policies identity rq = NotEngaged" for rq
    by (simp add: authorize_rules [OF assms])
  with True show ?thesis by (simp add: enforce_control_policy_def split: option.split)
next
  case False
  show ?thesis
  proof (cases "decoded_segments raw")
    case None
    with False show ?thesis by (simp add: enforce_control_policy_def addressed_def)
  next
    case (Some segments)
    show ?thesis
    proof (cases "Option.bind (admin_resource_of segments) (resolve_ids rv)")
      case None
      with False Some show ?thesis
        by (auto simp: enforce_control_policy_def addressed_def split: option.split)
    next
      case (Some ids)
      then obtain resource tenant_id catalog_id collection_id where
        r: "admin_resource_of segments = Some resource"
        and i: "resolve_ids rv resource = Some (tenant_id, catalog_id, collection_id)"
        by (cases "admin_resource_of segments") (simp_all, metis prod_cases3)
      from resolved_ids_suffice [OF i, of meth] obtain rq where
        "admin_resolve resource meth tenant_id catalog_id collection_id = Some rq" by blast
      with False \<open>decoded_segments raw = Some segments\<close> r i show ?thesis
        by (simp add: enforce_control_policy_def addressed_def authorize_rules [OF assms])
    qed
  qed
qed

theorem administrative_checkpoint_decides_witness:
  "\<exists>ps. policy_set_compile [sample_grant] [sample_statement] = Inr ps
     \<and> enforce_control_policy ps (config_resolver sample_config) None ''get'' ''/acme/config/effective'' = Some Forbidden
     \<and> enforce_control_policy ps (config_resolver sample_config) None ''get'' ''/acme/features'' = Some Pass"
proof -
  obtain ps where ps: "policy_set_compile [sample_grant] [sample_statement] = Inr ps"
    using sample_statement_compiles by blast
  let ?rq = "\<lparr>cr_method = ''GET'', cr_canonical_path = [''t1'', ''config'', ''effective''], cr_scope = Tenant ''t1''\<rparr>"
  have a: "addressed (config_resolver sample_config) ''get'' ''/acme/config/effective'' = Some ?rq"
    "addressed (config_resolver sample_config) ''get'' ''/acme/features'' = None"
    by code_simp+
  have "rule_decision [sample_grant] [sample_statement] None ?rq = Checkpoint_Deny
      \<lparr>dc_scope = ''tenant/t1'', dc_statements = [], dc_roles = [], dc_basis = NoMatchingAllow\<rparr>"
    by (simp add: rule_decision_def policy_in_effect_def held_roles_def sample_statement_mentions)
  with a ps administrative_checkpoint_decides [OF ps] show ?thesis by (auto simp: checkpoint_refusal_def)
qed

end
