(* ===== verification/Rate_Limit.thy ===== *)
theory Rate_Limit
  imports Prelude "HOL-Library.Finite_Map"
begin

text \<open>
  \<open>crates/tellurion-core/src/rate_limit.rs\<close>: the fixed-window ceilings of policy grants. The
  declaration and its shape check, the in-process counter with its bounded set of keys, and the outcome of
  one condition under its declared failure posture. The clock is an argument; metrics and log lines have
  no result. The last sections bound what a window admits and what the counter holds.
\<close>

section \<open>Declarations\<close>

datatype rate_scope = Principal_Scope | Role_Scope | Tenant_Scope

fun rate_scope_as_str :: "rate_scope \<Rightarrow> string" where
  "rate_scope_as_str Principal_Scope = ''principal''"
| "rate_scope_as_str Role_Scope = ''role''"
| "rate_scope_as_str Tenant_Scope = ''tenant''"

datatype counter_posture = Strict | Graceful

record rate_limit_decl =
  rl_scope :: rate_scope
  rl_window_seconds :: u64
  rl_ceiling :: u64
  rl_on_counter_unavailable :: counter_posture

definition MAX_RATE_WINDOW_SECONDS :: u64 where
  "MAX_RATE_WINDOW_SECONDS = 7 * 24 * 60 * 60"

datatype rate_decl_error = Zero_Window | Window_Too_Long u64 | Zero_Ceiling

definition rate_limit_validate :: "rate_limit_decl \<Rightarrow> rate_decl_error + unit" where
  "rate_limit_validate d =
     and_then (ensure (rl_window_seconds d \<noteq> 0) Zero_Window) (\<lambda>_.
     and_then (ensure (\<not> rl_window_seconds d > MAX_RATE_WINDOW_SECONDS) (Window_Too_Long (rl_window_seconds d))) (\<lambda>_.
     ensure (rl_ceiling d \<noteq> 0) Zero_Ceiling))"

section \<open>The counter\<close>

record counter_key =
  ck_tenant_id :: string
  ck_scope :: rate_scope
  ck_scope_value :: string
  ck_window_seconds :: u64
  ck_ceiling :: u64

record rate_observation =
  ob_count :: u64
  ob_reset_in_seconds :: u64

datatype counter_unavailable = Counter_Unavailable string

record window_state =
  wn_window_start :: u64
  wn_count :: u64

record rate_counter =
  rc_windows :: "(counter_key, window_state) fmap"
  rc_key_capacity :: nat

definition DEFAULT_RATE_COUNTER_KEY_CAPACITY :: nat where
  "DEFAULT_RATE_COUNTER_KEY_CAPACITY = 100000"

definition with_key_capacity :: "nat \<Rightarrow> rate_counter" where
  "with_key_capacity key_capacity = \<lparr>rc_windows = fmempty, rc_key_capacity = max key_capacity 1\<rparr>"

definition rate_counter_new :: rate_counter where
  "rate_counter_new = with_key_capacity DEFAULT_RATE_COUNTER_KEY_CAPACITY"

definition effective_window :: "counter_key \<Rightarrow> u64" where
  "effective_window key = max (ck_window_seconds key) 1"

definition live_window :: "u64 \<Rightarrow> counter_key \<Rightarrow> window_state \<Rightarrow> bool" where
  "live_window now resident_key state = (wn_window_start state + effective_window resident_key > now)"

definition tracked_keys :: "rate_counter \<Rightarrow> nat" where
  "tracked_keys c = fcard (fmdom (rc_windows c))"

definition retain_live :: "u64 \<Rightarrow> rate_counter \<Rightarrow> rate_counter" where
  "retain_live now c =
     c\<lparr>rc_windows := fmfilter (\<lambda>k. case fmlookup (rc_windows c) k of
        Some state \<Rightarrow> live_window now k state | None \<Rightarrow> False) (rc_windows c)\<rparr>"

definition observe_at ::
  "counter_key \<Rightarrow> u64 \<Rightarrow> rate_counter \<Rightarrow> (counter_unavailable + rate_observation) \<times> rate_counter" where
  "observe_at key now c =
     (let window = effective_window key;
          elapsed_in_window = now mod window;
          window_start = now - elapsed_in_window;
          reset_in_seconds = max (window - elapsed_in_window) 1 in
      case fmlookup (rc_windows c) key of
        Some state \<Rightarrow>
          (let state = (if wn_window_start state = window_start then state\<lparr>wn_count := wn_count state + 1\<rparr>
             else \<lparr>wn_window_start = window_start, wn_count = 1\<rparr>) in
           (Inr \<lparr>ob_count = wn_count state, ob_reset_in_seconds = reset_in_seconds\<rparr>,
            c\<lparr>rc_windows := fmupd key state (rc_windows c)\<rparr>))
      | None \<Rightarrow>
          (let c = (if tracked_keys c \<ge> rc_key_capacity c then retain_live now c else c) in
           if tracked_keys c \<ge> rc_key_capacity c
           then (Inl (Counter_Unavailable ''the in-process rate counter is at its tracked-key capacity''), c)
           else
             (Inr \<lparr>ob_count = 1, ob_reset_in_seconds = reset_in_seconds\<rparr>,
              c\<lparr>rc_windows := fmupd key \<lparr>wn_window_start = window_start, wn_count = 1\<rparr> (rc_windows c)\<rparr>)))"

section \<open>One condition\<close>

datatype rate_refusal_cause = Ceiling_Reached | Counter_Not_Available

record rate_refusal =
  rf_scope :: rate_scope
  rf_window_seconds :: u64
  rf_ceiling :: u64
  rf_retry_after_seconds :: u64
  rf_cause :: rate_refusal_cause

definition refusal_detail :: "rate_refusal \<Rightarrow> string" where
  "refusal_detail r =
     (case rf_cause r of
        Ceiling_Reached \<Rightarrow>
          ''the applicable '' @ rate_scope_as_str (rf_scope r) @ ''-scoped rate limit of '' @ show_u64 (rf_ceiling r)
            @ '' requests per '' @ show_u64 (rf_window_seconds r) @ '' seconds is exhausted; retry after ''
            @ show_u64 (rf_retry_after_seconds r) @ '' seconds''
      | Counter_Not_Available \<Rightarrow>
          ''the applicable '' @ rate_scope_as_str (rf_scope r) @ ''-scoped rate limit could not be evaluated ''
            @ ''and this deployment declares a strict failure posture; retry after ''
            @ show_u64 (rf_retry_after_seconds r) @ '' seconds'')"

datatype rate_verdict = Permitted | Refused_Rate rate_refusal

datatype rate_charge = Charge | Skip

datatype condition_outcome = Condition_Permitted | Condition_Refused rate_refusal

definition counter_unavailable_outcome :: "rate_limit_decl \<Rightarrow> condition_outcome" where
  "counter_unavailable_outcome d =
     (case rl_on_counter_unavailable d of
        Graceful \<Rightarrow> Condition_Permitted
      | Strict \<Rightarrow> Condition_Refused
          \<lparr>rf_scope = rl_scope d, rf_window_seconds = rl_window_seconds d, rf_ceiling = rl_ceiling d,
           rf_retry_after_seconds = rl_window_seconds d, rf_cause = Counter_Not_Available\<rparr>)"

text \<open>The wired counter is a state and its operation; a deployment without one is None.\<close>

type_synonym 's counter_operation =
  "counter_key \<Rightarrow> 's \<Rightarrow> (counter_unavailable + rate_observation) \<times> 's"

definition evaluate_condition ::
  "rate_limit_decl \<Rightarrow> string \<Rightarrow> string option \<Rightarrow> 's counter_operation option \<Rightarrow> 's \<Rightarrow> condition_outcome \<times> 's" where
  "evaluate_condition d tenant_id scope_value counter s =
     (case scope_value of
        None \<Rightarrow> (counter_unavailable_outcome d, s)
      | Some scope_value \<Rightarrow>
          (case counter of
             None \<Rightarrow> (counter_unavailable_outcome d, s)
           | Some observe \<Rightarrow>
               (let key = \<lparr>ck_tenant_id = tenant_id, ck_scope = rl_scope d, ck_scope_value = scope_value,
                      ck_window_seconds = rl_window_seconds d, ck_ceiling = rl_ceiling d\<rparr> in
                case observe key s of
                  (Inl _, s) \<Rightarrow> (counter_unavailable_outcome d, s)
                | (Inr observation, s) \<Rightarrow>
                    if ob_count observation \<le> rl_ceiling d then (Condition_Permitted, s)
                    else (Condition_Refused
                      \<lparr>rf_scope = rl_scope d, rf_window_seconds = rl_window_seconds d, rf_ceiling = rl_ceiling d,
                       rf_retry_after_seconds = ob_reset_in_seconds observation, rf_cause = Ceiling_Reached\<rparr>, s))))"

section \<open>Windows\<close>

definition window_start :: "counter_key \<Rightarrow> u64 \<Rightarrow> u64" where
  "window_start key now = now - now mod effective_window key"

lemma effective_window_pos: "0 < unat (effective_window key)"
  by (simp add: effective_window_def max_def word_le_nat_alt split: if_splits)

lemma unat_window_start:
  "unat (window_start key now) = unat now div unat (effective_window key) * unat (effective_window key)"
proof -
  have "now mod effective_window key \<le> now" by (simp add: word_le_nat_alt unat_mod)
  then have "unat (window_start key now) = unat now - unat now mod unat (effective_window key)"
    by (simp add: window_start_def unat_sub unat_mod)
  then show ?thesis by (simp add: minus_mod_eq_div_mult)
qed

lemma window_start_le: "window_start key now \<le> now"
  by (simp add: word_le_nat_alt unat_window_start)

lemma window_start_mono: "now \<le> later \<Longrightarrow> window_start key now \<le> window_start key later"
  by (simp add: word_le_nat_alt unat_window_start div_le_mono)

lemma window_start_idem: "window_start key (window_start key now) = window_start key now"
  by (simp add: word_unat_eq_iff unat_window_start)

lemma window_start_between:
  assumes "window_start key later = w" "w \<le> now" "now \<le> later"
  shows "window_start key now = w"
proof (rule antisym)
  show "window_start key now \<le> w" using window_start_mono [OF assms(3), of key] assms(1) by simp
  have "window_start key w = w" using window_start_idem [of key later] assms(1) by simp
  with window_start_mono [OF assms(2), of key] show "w \<le> window_start key now" by simp
qed

lemma current_window_is_live:
  assumes "unat now + unat (effective_window key) < 2 ^ 64" "wn_window_start state = window_start key now"
  shows "live_window now key state"
proof -
  let ?w = "unat (effective_window key)"
  have le: "unat (window_start key now) \<le> unat now" using window_start_le [of key now] by (simp add: word_le_nat_alt)
  then have "unat (window_start key now + effective_window key) = unat (window_start key now) + ?w"
    using assms(1) by (simp add: unat_word_ariths)
  moreover have "unat now < unat now div ?w * ?w + ?w"
    using effective_window_pos [of key] by (metis add.commute dividend_less_div_times mult.commute)
  ultimately show ?thesis
    unfolding live_window_def assms(2) by (simp add: word_less_nat_alt unat_window_start)
qed

section \<open>What a call does to the windows\<close>

lemma observe_at_keeps:
  assumes "key' \<noteq> key" "fmlookup (rc_windows c) key = Some state" "live_window now key state"
  shows "fmlookup (rc_windows (snd (observe_at key' now c))) key = Some state"
  using assms by (simp add: observe_at_def Let_def retain_live_def split: option.split)

lemma observe_at_shrinks:
  assumes "key' \<noteq> key" "fmlookup (rc_windows (snd (observe_at key' now c))) key = Some state"
  shows "fmlookup (rc_windows c) key = Some state"
  using assms by (auto simp: observe_at_def Let_def retain_live_def split: option.splits if_splits)

lemma observe_at_resident:
  assumes "fmlookup (rc_windows c) key = Some state"
  shows "observe_at key now c =
    (let state = (if wn_window_start state = window_start key now then state\<lparr>wn_count := wn_count state + 1\<rparr>
       else \<lparr>wn_window_start = window_start key now, wn_count = 1\<rparr>) in
     (Inr \<lparr>ob_count = wn_count state,
        ob_reset_in_seconds = max (effective_window key - now mod effective_window key) 1\<rparr>,
      c\<lparr>rc_windows := fmupd key state (rc_windows c)\<rparr>))"
  using assms by (simp add: observe_at_def window_start_def Let_def)

lemma observe_at_absent:
  assumes "fmlookup (rc_windows c) key = None"
  shows "(\<exists>e. fst (observe_at key now c) = Inl e \<and> fmlookup (rc_windows (snd (observe_at key now c))) key = None)
    \<or> ((\<exists>ob. fst (observe_at key now c) = Inr ob \<and> ob_count ob = 1)
        \<and> fmlookup (rc_windows (snd (observe_at key now c))) key
            = Some \<lparr>wn_window_start = window_start key now, wn_count = 1\<rparr>)"
  using assms by (simp add: observe_at_def window_start_def Let_def retain_live_def)

section \<open>A run of the counter\<close>

fun observe_run ::
  "(counter_key \<times> u64) list \<Rightarrow> rate_counter \<Rightarrow> (counter_unavailable + rate_observation) list \<times> rate_counter" where
  "observe_run [] c = ([], c)"
| "observe_run ((key, now) # calls) c =
     (let (r, c) = observe_at key now c; (rs, c) = observe_run calls c in (r # rs, c))"

text \<open>The calls on a key in one window whose observation is within the ceiling of the key.\<close>

definition within_ceiling :: "counter_key \<Rightarrow> counter_unavailable + rate_observation \<Rightarrow> bool" where
  "within_ceiling key r = (case r of Inr ob \<Rightarrow> ob_count ob \<le> ck_ceiling key | Inl _ \<Rightarrow> False)"

fun admitted_in ::
  "counter_key \<Rightarrow> u64 \<Rightarrow> (counter_key \<times> u64) list \<Rightarrow> (counter_unavailable + rate_observation) list \<Rightarrow> nat" where
  "admitted_in key w ((key', now) # calls) (r # rs) =
     (if key' = key \<and> window_start key now = w \<and> within_ceiling key r then 1 else 0) + admitted_in key w calls rs"
| "admitted_in key w _ _ = 0"

definition counts_window :: "counter_key \<Rightarrow> u64 \<Rightarrow> u64 \<Rightarrow> nat \<Rightarrow> rate_counter \<Rightarrow> bool" where
  "counts_window key w now n c \<longleftrightarrow>
     (0 < n \<longrightarrow> w \<le> now)
     \<and> (0 < n \<longrightarrow> window_start key now = w \<longrightarrow>
          (\<exists>state. fmlookup (rc_windows c) key = Some state \<and> wn_window_start state = w \<and> unat (wn_count state) = n))
     \<and> (n = 0 \<longrightarrow> (\<forall>state. fmlookup (rc_windows c) key = Some state \<longrightarrow> wn_window_start state \<noteq> w))"

lemma counts_window_later:
  assumes "counts_window key w now n c" "now \<le> later"
  shows "counts_window key w later n c"
  using assms window_start_between [of key later w now] unfolding counts_window_def
  by (metis order.trans)

lemma counts_window_other:
  assumes "counts_window key w now n c" "key' \<noteq> key" "unat now + unat (effective_window key) < 2 ^ 64"
  shows "counts_window key w now n (snd (observe_at key' now c))"
proof -
  have "fmlookup (rc_windows (snd (observe_at key' now c))) key = Some state"
    if "fmlookup (rc_windows c) key = Some state" "wn_window_start state = w" "window_start key now = w" for state
    using observe_at_keeps [OF assms(2) that(1)] current_window_is_live [OF assms(3)] that by simp
  with assms(1) observe_at_shrinks [OF assms(2)] show ?thesis
    unfolding counts_window_def by blast
qed

lemma counts_window_hit:
  assumes "counts_window key w now n c" "window_start key now = w" "n + 1 < 2 ^ 64"
    and "observe_at key now c = (r, c')"
  shows "(\<exists>ob. r = Inr ob \<and> unat (ob_count ob) = n + 1 \<and> counts_window key w now (n + 1) c')
    \<or> (\<exists>e. r = Inl e \<and> n = 0 \<and> counts_window key w now n c')"
proof (cases "fmlookup (rc_windows c) key")
  case (Some state)
  have w: "w \<le> now" using assms(2) window_start_le by blast
  show ?thesis
  proof (cases "wn_window_start state = w")
    case True
    with assms(1,2) Some have n: "0 < n" "unat (wn_count state) = n" unfolding counts_window_def by auto
    then have "unat (wn_count state + 1) = n + 1" using assms(3) by (simp add: unat_word_ariths)
    with True Some assms(2,4) w show ?thesis
      by (auto simp: observe_at_resident Let_def counts_window_def)
  next
    case False
    with assms(1,2) Some have "n = 0" unfolding counts_window_def by auto
    with False Some assms(2,4) w show ?thesis
      by (auto simp: observe_at_resident Let_def counts_window_def)
  qed
next
  case None
  with assms(1,2) have "n = 0" unfolding counts_window_def by auto
  moreover have "w \<le> now" using assms(2) window_start_le by blast
  ultimately show ?thesis
    using observe_at_absent [OF None, of now] assms(2,4) by (auto simp: counts_window_def)
qed

lemma counts_window_miss:
  assumes "counts_window key w now n c" "window_start key now \<noteq> w"
    and "observe_at key now c = (r, c')"
  shows "counts_window key w now n c'"
proof (cases "fmlookup (rc_windows c) key")
  case (Some state)
  with assms show ?thesis
    by (cases "wn_window_start state = window_start key now")
      (auto simp: observe_at_resident Let_def counts_window_def)
next
  case None
  with observe_at_absent [OF None, of now] assms show ?thesis by (auto simp: counts_window_def)
qed

lemma admitted_at_most:
  assumes "sorted (map snd calls)" "\<forall>call \<in> set calls. start \<le> snd call"
    and "\<forall>call \<in> set calls. unat (snd call) + unat (effective_window key) < 2 ^ 64"
    and "counts_window key w start n c" "n + length calls < 2 ^ 64"
  shows "admitted_in key w calls (fst (observe_run calls c)) \<le> unat (ck_ceiling key) - n"
  using assms
proof (induction calls arbitrary: start n c)
  case (Cons call calls)
  obtain key' now where call: "call = (key', now)" by (cases call)
  obtain r c' where r: "observe_at key' now c = (r, c')" by (cases "observe_at key' now c")
  have later: "counts_window key w now n c" using counts_window_later Cons.prems(2,4) by (simp add: call)
  have rest: "sorted (map snd calls)" "\<forall>call \<in> set calls. now \<le> snd call"
    "\<forall>call \<in> set calls. unat (snd call) + unat (effective_window key) < 2 ^ 64"
    "unat now + unat (effective_window key) < 2 ^ 64"
    using Cons.prems(1,3) by (simp_all add: call)
  have step: "admitted_in key w (call # calls) (fst (observe_run (call # calls) c))
      = (if key' = key \<and> window_start key now = w \<and> within_ceiling key r then 1 else 0)
        + admitted_in key w calls (fst (observe_run calls c'))"
    by (simp add: call r split: prod.split)
  show ?case
    unfolding step
  proof (cases "key' = key \<and> window_start key now = w")
    case False
    have "counts_window key w now n c'"
    proof (cases "key' = key")
      case True
      with False counts_window_miss [OF later _ r [unfolded True]] show ?thesis by blast
    next
      case False
      with counts_window_other [OF later False rest(4)] r show ?thesis by simp
    qed
    from Cons.IH [OF rest(1-3) this] Cons.prems(5) False
    show "(if key' = key \<and> window_start key now = w \<and> within_ceiling key r then 1 else 0)
        + admitted_in key w calls (fst (observe_run calls c')) \<le> unat (ck_ceiling key) - n"
      by auto
  next
    case True
    have "n + 1 < 2 ^ 64" using Cons.prems(5) by simp
    from counts_window_hit [OF later _ this r [unfolded True [THEN conjunct1]]] True consider
      (count) ob where "r = Inr ob" "unat (ob_count ob) = n + 1" "counts_window key w now (n + 1) c'"
      | (full) e where "r = Inl e" "n = 0" "counts_window key w now n c'" by blast
    then show "(if key' = key \<and> window_start key now = w \<and> within_ceiling key r then 1 else 0)
        + admitted_in key w calls (fst (observe_run calls c')) \<le> unat (ck_ceiling key) - n"
    proof cases
      case count
      from Cons.IH [OF rest(1-3) count(3)] Cons.prems(5)
      have "admitted_in key w calls (fst (observe_run calls c')) \<le> unat (ck_ceiling key) - (n + 1)" by simp
      then show ?thesis
        using count(1,2) by (auto simp: within_ceiling_def word_le_nat_alt)
    next
      case full
      from Cons.IH [OF rest(1-3) full(3)] Cons.prems(5) full(1) show ?thesis
        by (simp add: within_ceiling_def)
    qed
  qed
qed simp

lemma capacity_kept:
  assumes "tracked_keys c \<le> rc_key_capacity c" "1 \<le> rc_key_capacity c"
  shows "tracked_keys (snd (observe_at key now c)) \<le> rc_key_capacity c
    \<and> rc_key_capacity (snd (observe_at key now c)) = rc_key_capacity c"
proof (cases "fmlookup (rc_windows c) key")
  case (Some state)
  then have "key |\<in>| fmdom (rc_windows c)" by (rule fmdomI)
  with assms Some show ?thesis by (simp add: observe_at_def Let_def tracked_keys_def finsert_absorb)
next
  case None
  have "tracked_keys (retain_live now c) \<le> tracked_keys c"
    unfolding tracked_keys_def retain_live_def by (auto intro!: fcard_mono)
  moreover have "key |\<notin>| fmdom (rc_windows c)" using None by (simp add: fmdom_notI)
  moreover have "key |\<notin>| fmdom (rc_windows (retain_live now c))"
    using None by (simp add: fmdom_notI retain_live_def)
  ultimately show ?thesis
    using assms None
    by (auto simp: observe_at_def Let_def tracked_keys_def fcard_finsert_disjoint)
      (auto simp: retain_live_def)
qed

lemma capacity_run:
  "tracked_keys c \<le> rc_key_capacity c \<Longrightarrow> 1 \<le> rc_key_capacity c \<Longrightarrow>
   tracked_keys (snd (observe_run calls c)) \<le> rc_key_capacity c"
proof (induction calls arbitrary: c)
  case (Cons call calls)
  obtain key now where call: "call = (key, now)" by (cases call)
  from capacity_kept [OF Cons.prems, of key now] Cons.IH [of "snd (observe_at key now c)"] Cons.prems(2)
  show ?case by (simp add: call case_prod_unfold Let_def)
qed simp

section \<open>Properties\<close>

text \<open>
  C16. A ceiling holds: over any run of the in-process counter with a clock that does not go back,
  whatever keys are observed and evicted in between, at most the ceiling of a key is admitted in each
  fixed window, and the counter never holds more keys than its capacity.
\<close>

theorem ceiling_bounds_each_window:
  assumes "sorted (map snd calls)" "length calls < 2 ^ 64"
    and "\<forall>call \<in> set calls. unat (snd call) + unat (effective_window key) < 2 ^ 64"
  shows "admitted_in key w calls (fst (observe_run calls (with_key_capacity cap))) \<le> unat (ck_ceiling key)
    \<and> tracked_keys (snd (observe_run calls (with_key_capacity cap))) \<le> max cap 1"
proof
  have "counts_window key w 0 0 (with_key_capacity cap)"
    by (simp add: counts_window_def with_key_capacity_def)
  from admitted_at_most [OF assms(1) _ assms(3) this] assms(2)
  show "admitted_in key w calls (fst (observe_run calls (with_key_capacity cap))) \<le> unat (ck_ceiling key)"
    by simp
  show "tracked_keys (snd (observe_run calls (with_key_capacity cap))) \<le> max cap 1"
    using capacity_run [of "with_key_capacity cap" calls]
    by (simp add: with_key_capacity_def tracked_keys_def fcard.rep_eq)
qed

definition sample_key :: "string \<Rightarrow> counter_key" where
  "sample_key who = \<lparr>ck_tenant_id = ''t1'', ck_scope = Principal_Scope, ck_scope_value = who,
     ck_window_seconds = 60, ck_ceiling = 1\<rparr>"

theorem ceiling_bounds_each_window_witness:
  "admitted_in (sample_key ''ann'') 60 [(sample_key ''ann'', 61), (sample_key ''bob'', 62), (sample_key ''ann'', 70)]
     (fst (observe_run [(sample_key ''ann'', 61), (sample_key ''bob'', 62), (sample_key ''ann'', 70)]
       (with_key_capacity 1))) \<le> 1"
  using ceiling_bounds_each_window [of "[(sample_key ''ann'', 61), (sample_key ''bob'', 62), (sample_key ''ann'', 70)]"
    "sample_key ''ann''" 60 1]
  by (simp add: sample_key_def effective_window_def max_def)

end
