(* ===== verification/Data_Policy.thy ===== *)
theory Data_Policy
  imports Rate_Limit Fingerprint
begin

text \<open>
  \<open>crates/tellurion-core/src/policy.rs\<close>: may a subject read a resource of the data plane, and
  does its budget allow the request. Isolation between tenants first, then the grants of the roles held in
  the tenant of the resource, with row filters whose claim placeholders are substituted, then the rate
  ceilings of the same grants. The CQL2 parser is the parameter \<open>parse\<close>. A set of role names is
  the list of its elements in the order a \<open>HashSet\<close> visits them; the results below do not depend
  on that order.
\<close>

section \<open>Grants and subjects\<close>

datatype policy_lane = Features_Lane | Tiles_Lane | Places3d_Lane | Stac_Lane | Write_Lane | Feed_Lane

record grant_scope =
  gs_catalogs :: "string list"
  gs_collections :: "string list"

definition grant_scope_matches :: "grant_scope \<Rightarrow> string \<Rightarrow> string \<Rightarrow> bool" where
  "grant_scope_matches g catalog_id collection_id \<longleftrightarrow>
     (gs_catalogs g = [] \<and> gs_collections g = [])
     \<or> list_ex (\<lambda>c. c = catalog_id) (gs_catalogs g)
     \<or> list_ex (\<lambda>c. c = collection_id) (gs_collections g)"

record grant_decl =
  gd_scope :: grant_scope
  gd_lanes :: "policy_lane list"
  gd_filter :: "string option"
  gd_rate :: "rate_limit_decl option"

record subject =
  sb_memberships :: "(string, string list) fmap"
  sb_claims :: "(string, json) fmap"
  sb_principal :: "string option"
  sb_identity :: "principal_identity option"

definition anonymous :: subject where
  "anonymous = \<lparr>sb_memberships = fmempty, sb_claims = fmempty, sb_principal = None, sb_identity = None\<rparr>"

definition is_member_of :: "subject \<Rightarrow> string \<Rightarrow> bool" where
  "is_member_of subject tenant_id = (fmlookup (sb_memberships subject) tenant_id \<noteq> None)"

record resource_context =
  rs_tenant_id :: string
  rs_catalog_id :: string
  rs_collection_id :: string
  rs_lane :: policy_lane
  rs_visibility :: visibility_decl

text \<open>The part of the filter tree the module builds: parsed filters and their disjunction.\<close>

datatype 'f cql_filter = Parsed_Filter 'f | Or_Filter "'f cql_filter list"

datatype 'f policy_decision = Allow_Rows "'f cql_filter option" | Deny_Access

text \<open>A grant of this role whose substituted filter does not parse.\<close>

datatype policy_error = Unparsable_Filter string

section \<open>Claim substitution\<close>

text \<open>\<open>str::find\<close> and the two slices around the match.\<close>

fun split_first :: "string \<Rightarrow> string \<Rightarrow> (string \<times> string) option" where
  "split_first p [] = (case strip_prefix p [] of Some t \<Rightarrow> Some ([], t) | None \<Rightarrow> None)"
| "split_first p (c # cs) =
     (case strip_prefix p (c # cs) of
        Some t \<Rightarrow> Some ([], t)
      | None \<Rightarrow> map_option (\<lambda>(before, after). (c # before, after)) (split_first p cs))"

definition quote :: char where
  "quote = CHR 0x27"

fun double_quotes :: "string \<Rightarrow> string" where
  "double_quotes [] = []"
| "double_quotes (c # cs) = (if c = quote then [quote, quote] else [c]) @ double_quotes cs"

fun cql2_literal_for_claim :: "json \<Rightarrow> string option" where
  "cql2_literal_for_claim (JString s) = Some ([quote] @ double_quotes s @ [quote])"
| "cql2_literal_for_claim (JNumber n) = Some n"
| "cql2_literal_for_claim (JBool b) = Some (if b then ''true'' else ''false'')"
| "cql2_literal_for_claim (JArray _) = None"
| "cql2_literal_for_claim (JObject _) = None"
| "cql2_literal_for_claim JNull = None"

lemma split_first_Some: "split_first p s = Some (before, after) \<Longrightarrow> s = before @ p @ after"
  by (induction s arbitrary: before) (auto simp: string_simps split: option.splits)

definition CLAIM_PLACEHOLDER_PREFIX :: string where
  "CLAIM_PLACEHOLDER_PREFIX = ''{{claims.''"

definition CLAIM_PLACEHOLDER_SUFFIX :: string where
  "CLAIM_PLACEHOLDER_SUFFIX = ''}}''"

function substitute_claims :: "(string, json) fmap \<Rightarrow> string \<Rightarrow> string option" where
  "substitute_claims claims template =
     (case split_first CLAIM_PLACEHOLDER_PREFIX template of
        None \<Rightarrow> Some template
      | Some (before, after_prefix) \<Rightarrow>
          (case split_first CLAIM_PLACEHOLDER_SUFFIX after_prefix of
             None \<Rightarrow> None
           | Some (claim_name, rest) \<Rightarrow>
               (case fmlookup claims claim_name of
                  None \<Rightarrow> None
                | Some value \<Rightarrow>
                    (case cql2_literal_for_claim value of
                       None \<Rightarrow> None
                     | Some literal \<Rightarrow>
                         map_option (\<lambda>out. before @ literal @ out) (substitute_claims claims rest)))))"
  by pat_completeness auto
termination
  by (relation "measure (\<lambda>(claims, template). length template)")
    (auto dest!: split_first_Some simp: CLAIM_PLACEHOLDER_PREFIX_def)

declare substitute_claims.simps [simp del]

section \<open>Roles\<close>

type_synonym role_table = "(string, grant_decl list) fmap"

definition insert_roles :: "grant_decl role_decl list \<Rightarrow> role_table \<Rightarrow> role_table" where
  "insert_roles roles table = fold (\<lambda>role. fmupd (rd_name role) (rd_grants role)) roles table"

definition resolve_role_table :: "grant_decl policy_config \<Rightarrow> string \<Rightarrow> role_table" where
  "resolve_role_table policy tenant_id =
     (let table = insert_roles (pc_roles policy) fmempty in
      case List.find (\<lambda>tp. tp_tenant tp = tenant_id) (pc_tenant_policies policy) of
        Some tenant_policy \<Rightarrow> insert_roles (tp_roles tenant_policy) table
      | None \<Rightarrow> table)"

definition grant_covers :: "resource_context \<Rightarrow> grant_decl \<Rightarrow> bool" where
  "grant_covers resource grant =
     (if rs_lane resource \<notin> set (gd_lanes grant) then False
      else if \<not> grant_scope_matches (gd_scope grant) (rs_catalog_id resource) (rs_collection_id resource) then False
      else True)"

definition held_roles_in :: "subject \<Rightarrow> string \<Rightarrow> string list" where
  "held_roles_in subject tenant_id =
     (case fmlookup (sb_memberships subject) tenant_id of Some roles \<Rightarrow> roles | None \<Rightarrow> [])"

section \<open>Authorization\<close>

type_synonym 'f scan = "'f cql_filter list \<times> bool"

definition scan_grant ::
  "(string \<Rightarrow> 'f cql_filter option) \<Rightarrow> resource_context \<Rightarrow> subject \<Rightarrow> string \<Rightarrow> grant_decl \<Rightarrow> 'f scan \<Rightarrow>
   policy_error + 'f scan" where
  "scan_grant parse resource subject role_name grant = (\<lambda>(matching_filters, any_unconditional).
     if \<not> grant_covers resource grant then Inr (matching_filters, any_unconditional)
     else (case gd_filter grant of
       None \<Rightarrow> Inr (matching_filters, True)
     | Some template \<Rightarrow>
         (case substitute_claims (sb_claims subject) template of
            None \<Rightarrow> Inr (matching_filters, any_unconditional)
          | Some substituted \<Rightarrow>
              and_then (ok_or (parse substituted) (Unparsable_Filter role_name)) (\<lambda>parsed.
              Inr (matching_filters @ [parsed], any_unconditional)))))"

definition scan_role ::
  "(string \<Rightarrow> 'f cql_filter option) \<Rightarrow> resource_context \<Rightarrow> subject \<Rightarrow> role_table \<Rightarrow> string \<Rightarrow> 'f scan \<Rightarrow>
   policy_error + 'f scan" where
  "scan_role parse resource subject table role_name acc =
     (case fmlookup table role_name of
        None \<Rightarrow> Inr acc
      | Some role_grants \<Rightarrow> fold_each (scan_grant parse resource subject role_name) role_grants acc)"

definition authorize_resource ::
  "(string \<Rightarrow> 'f cql_filter option) \<Rightarrow> grant_decl policy_config \<Rightarrow> resource_context \<Rightarrow> subject \<Rightarrow> bool \<Rightarrow>
   policy_error + 'f policy_decision" where
  "authorize_resource parse policy resource subject lane_supports_filter =
     (let is_member = is_member_of subject (rs_tenant_id resource);
          is_shared = vis_public (rs_visibility resource)
            \<or> list_ex (is_member_of subject) (vis_shared_with (rs_visibility resource)) in
      if \<not> is_member \<and> \<not> is_shared then Inr Deny_Access
      else if \<not> is_member then Inr (Allow_Rows None)
      else
        let table = resolve_role_table policy (rs_tenant_id resource) in
        if table = fmempty then Inr (Allow_Rows None)
        else
          and_then (fold_each (scan_role parse resource subject table)
            (held_roles_in subject (rs_tenant_id resource)) ([], False)) (\<lambda>(matching_filters, any_unconditional).
          if any_unconditional then Inr (Allow_Rows None)
          else (case matching_filters of
            [] \<Rightarrow> Inr Deny_Access
          | [f] \<Rightarrow> if \<not> lane_supports_filter then Inr Deny_Access else Inr (Allow_Rows (Some f))
          | fs \<Rightarrow> if \<not> lane_supports_filter then Inr Deny_Access else Inr (Allow_Rows (Some (Or_Filter fs))))))"

section \<open>Rate ceilings\<close>

fun scope_value_for :: "rate_scope \<Rightarrow> string \<Rightarrow> string \<Rightarrow> subject \<Rightarrow> string option" where
  "scope_value_for Principal_Scope tenant_id role_name subject = sb_principal subject"
| "scope_value_for Role_Scope tenant_id role_name subject = Some role_name"
| "scope_value_for Tenant_Scope tenant_id role_name subject = Some tenant_id"

definition worst_refusal :: "condition_outcome \<Rightarrow> rate_refusal option \<Rightarrow> rate_refusal option" where
  "worst_refusal outcome worst =
     (case outcome of
        Condition_Permitted \<Rightarrow> worst
      | Condition_Refused refusal \<Rightarrow>
          (if (case worst of None \<Rightarrow> True
                | Some held \<Rightarrow> rf_retry_after_seconds refusal > rf_retry_after_seconds held)
           then Some refusal else worst))"

definition charge_grant ::
  "resource_context \<Rightarrow> subject \<Rightarrow> 's counter_operation option \<Rightarrow> string \<Rightarrow> grant_decl \<Rightarrow>
   rate_refusal option \<times> 's \<Rightarrow> rate_refusal option \<times> 's" where
  "charge_grant resource subject counter role_name grant = (\<lambda>(worst, s).
     case gd_rate grant of
       None \<Rightarrow> (worst, s)
     | Some rate \<Rightarrow>
         if \<not> grant_covers resource grant then (worst, s)
         else if (case gd_filter grant of
             Some template \<Rightarrow> substitute_claims (sb_claims subject) template = None
           | None \<Rightarrow> False) then (worst, s)
         else
           (case evaluate_condition rate (rs_tenant_id resource)
               (scope_value_for (rl_scope rate) (rs_tenant_id resource) role_name subject) counter s of
              (outcome, s) \<Rightarrow> (worst_refusal outcome worst, s)))"

definition enforce_rate_limits ::
  "grant_decl policy_config \<Rightarrow> resource_context \<Rightarrow> subject \<Rightarrow> 's counter_operation option \<Rightarrow> rate_charge \<Rightarrow>
   's \<Rightarrow> rate_verdict \<times> 's" where
  "enforce_rate_limits policy resource subject counter charge s =
     (if charge = Skip then (Permitted, s)
      else if \<not> is_member_of subject (rs_tenant_id resource) then (Permitted, s)
      else
        let table = resolve_role_table policy (rs_tenant_id resource) in
        if table = fmempty then (Permitted, s)
        else
          (case fold (\<lambda>role_name acc.
               case fmlookup table role_name of
                 None \<Rightarrow> acc
               | Some role_grants \<Rightarrow> fold (charge_grant resource subject counter role_name) role_grants acc)
             (held_roles_in subject (rs_tenant_id resource)) (None, s) of
             (Some refusal, s) \<Rightarrow> (Refused_Rate refusal, s)
           | (None, s) \<Rightarrow> (Permitted, s)))"

section \<open>What the scan of the grants finds\<close>

definition unconditional :: "resource_context \<Rightarrow> grant_decl \<Rightarrow> bool" where
  "unconditional resource grant \<longleftrightarrow> grant_covers resource grant \<and> gd_filter grant = None"

definition substituted_filter :: "resource_context \<Rightarrow> subject \<Rightarrow> grant_decl \<Rightarrow> string option" where
  "substituted_filter resource subject grant =
     (if grant_covers resource grant
      then Option.bind (gd_filter grant) (substitute_claims (sb_claims subject)) else None)"

definition grant_filter ::
  "(string \<Rightarrow> 'f cql_filter option) \<Rightarrow> resource_context \<Rightarrow> subject \<Rightarrow> grant_decl \<Rightarrow> 'f cql_filter option" where
  "grant_filter parse resource subject grant = Option.bind (substituted_filter resource subject grant) parse"

definition unparsable ::
  "(string \<Rightarrow> 'f cql_filter option) \<Rightarrow> resource_context \<Rightarrow> subject \<Rightarrow> grant_decl \<Rightarrow> bool" where
  "unparsable parse resource subject grant \<longleftrightarrow>
     (\<exists>text. substituted_filter resource subject grant = Some text \<and> parse text = None)"

lemma scan_grant_cases:
  "scan_grant parse resource subject role_name grant (fs, u) =
     (if unparsable parse resource subject grant then Inl (Unparsable_Filter role_name)
      else Inr (fs @ (case grant_filter parse resource subject grant of None \<Rightarrow> [] | Some f \<Rightarrow> [f]),
                u \<or> unconditional resource grant))"
  by (auto simp: scan_grant_def unparsable_def grant_filter_def substituted_filter_def unconditional_def
    split: option.splits)

definition scanned ::
  "(string \<Rightarrow> 'f cql_filter option) \<Rightarrow> resource_context \<Rightarrow> subject \<Rightarrow> grant_decl set \<Rightarrow> 'f scan \<Rightarrow>
   policy_error + 'f scan \<Rightarrow> bool" where
  "scanned parse resource subject held acc result \<longleftrightarrow>
     (case result of
        Inl _ \<Rightarrow> \<exists>g \<in> held. unparsable parse resource subject g
      | Inr (fs, u) \<Rightarrow>
          (\<forall>g \<in> held. \<not> unparsable parse resource subject g)
          \<and> (u \<longleftrightarrow> snd acc \<or> (\<exists>g \<in> held. unconditional resource g))
          \<and> set fs = set (fst acc) \<union> {f. \<exists>g \<in> held. grant_filter parse resource subject g = Some f})"

lemma scanned_grants:
  "scanned parse resource subject (set gs) acc (fold_each (scan_grant parse resource subject role_name) gs acc)"
proof (induction gs arbitrary: acc)
  case (Cons g gs)
  obtain fs u where acc: "acc = (fs, u)" by (cases acc)
  let ?next = "(fs @ (case grant_filter parse resource subject g of None \<Rightarrow> [] | Some f \<Rightarrow> [f]),
      u \<or> unconditional resource g)"
  show ?case
  proof (cases "unparsable parse resource subject g")
    case True
    then show ?thesis by (simp add: acc scan_grant_cases scanned_def)
  next
    case False
    with Cons.IH [of ?next] show ?thesis
      by (auto simp: acc scan_grant_cases scanned_def split: sum.splits option.splits)
  qed
qed (simp add: scanned_def split: prod.split)

definition grants_of :: "role_table \<Rightarrow> string list \<Rightarrow> grant_decl set" where
  "grants_of table roles = {g. \<exists>role \<in> set roles. \<exists>gs. fmlookup table role = Some gs \<and> g \<in> set gs}"

lemma grants_of_Cons:
  "grants_of table (role # roles) =
     (case fmlookup table role of None \<Rightarrow> {} | Some gs \<Rightarrow> set gs) \<union> grants_of table roles"
  by (auto simp: grants_of_def split: option.splits)

lemma scanned_trans:
  assumes "scanned parse resource subject held acc (Inr acc')" "scanned parse resource subject held' acc' result"
  shows "scanned parse resource subject (held \<union> held') acc result"
  using assms by (auto simp: scanned_def split: sum.splits prod.splits)

lemma scanned_roles:
  "scanned parse resource subject (grants_of table roles) acc
     (fold_each (scan_role parse resource subject table) roles acc)"
proof (induction roles arbitrary: acc)
  case Nil
  show ?case by (simp add: scanned_def grants_of_def split: prod.split)
next
  case (Cons role roles)
  show ?case
  proof (cases "fmlookup table role")
    case None
    with Cons.IH show ?thesis by (simp add: grants_of_Cons scan_role_def)
  next
    case (Some gs)
    note grants = scanned_grants [of parse resource subject gs acc role]
    show ?thesis
    proof (cases "fold_each (scan_grant parse resource subject role) gs acc")
      case (Inl e)
      with Some grants show ?thesis by (auto simp: grants_of_Cons scan_role_def scanned_def)
    next
      case (Inr acc')
      with scanned_trans [OF grants [unfolded Inr] Cons.IH] Some show ?thesis
        by (simp add: grants_of_Cons scan_role_def)
    qed
  qed
qed

section \<open>What a decision lets through\<close>

fun filter_holds :: "('f \<Rightarrow> 'row \<Rightarrow> bool) \<Rightarrow> 'f cql_filter \<Rightarrow> 'row \<Rightarrow> bool" where
  "filter_holds sat (Parsed_Filter f) row = sat f row"
| "filter_holds sat (Or_Filter fs) row = (\<exists>f \<in> set fs. filter_holds sat f row)"

fun decision_admits :: "('f \<Rightarrow> 'row \<Rightarrow> bool) \<Rightarrow> 'f policy_decision \<Rightarrow> 'row \<Rightarrow> bool" where
  "decision_admits sat Deny_Access row = False"
| "decision_admits sat (Allow_Rows None) row = True"
| "decision_admits sat (Allow_Rows (Some f)) row = filter_holds sat f row"

definition isolated :: "resource_context \<Rightarrow> subject \<Rightarrow> bool" where
  "isolated resource subject \<longleftrightarrow>
     \<not> is_member_of subject (rs_tenant_id resource) \<and> \<not> vis_public (rs_visibility resource)
     \<and> (\<forall>tenant \<in> set (vis_shared_with (rs_visibility resource)). \<not> is_member_of subject tenant)"

definition granted_row ::
  "(string \<Rightarrow> 'f cql_filter option) \<Rightarrow> grant_decl policy_config \<Rightarrow> resource_context \<Rightarrow> subject \<Rightarrow> bool \<Rightarrow>
   ('f \<Rightarrow> 'row \<Rightarrow> bool) \<Rightarrow> 'row \<Rightarrow> bool" where
  "granted_row parse policy resource subject lane_supports_filter sat row \<longleftrightarrow>
     (let table = resolve_role_table policy (rs_tenant_id resource);
          held = grants_of table (held_roles_in subject (rs_tenant_id resource)) in
      \<not> isolated resource subject
      \<and> (is_member_of subject (rs_tenant_id resource) \<longrightarrow> table = fmempty
           \<or> (\<exists>g \<in> held. unconditional resource g)
           \<or> (lane_supports_filter
                \<and> (\<exists>g \<in> held. \<exists>f. grant_filter parse resource subject g = Some f \<and> filter_holds sat f row))))"

lemma authorize_resource_sound:
  "case authorize_resource parse policy resource subject lane_supports_filter of
     Inl _ \<Rightarrow> is_member_of subject (rs_tenant_id resource)
       \<and> (\<exists>g \<in> grants_of (resolve_role_table policy (rs_tenant_id resource))
              (held_roles_in subject (rs_tenant_id resource)). unparsable parse resource subject g)
   | Inr decision \<Rightarrow>
       \<forall>sat row. decision_admits sat decision row
         \<longleftrightarrow> granted_row parse policy resource subject lane_supports_filter sat row"
proof -
  let ?t = "rs_tenant_id resource"
  let ?table = "resolve_role_table policy ?t"
  let ?held = "grants_of ?table (held_roles_in subject ?t)"
  let ?scan = "fold_each (scan_role parse resource subject ?table) (held_roles_in subject ?t) ([], False)"
  have scan: "scanned parse resource subject ?held ([], False) ?scan" by (rule scanned_roles)
  consider (isolated) "isolated resource subject"
    | (unfiltered) "\<not> isolated resource subject" "\<not> is_member_of subject ?t \<or> ?table = fmempty"
    | (rbac) "is_member_of subject ?t" "?table \<noteq> fmempty"
    by (auto simp: isolated_def)
  then show ?thesis
  proof cases
    case isolated
    then show ?thesis by (auto simp: authorize_resource_def granted_row_def isolated_def list_ex_iff)
  next
    case unfiltered
    then show ?thesis by (auto simp: authorize_resource_def granted_row_def isolated_def list_ex_iff Let_def)
  next
    case rbac
    then have g: "granted_row parse policy resource subject lane_supports_filter sat row \<longleftrightarrow>
        (\<exists>g \<in> ?held. unconditional resource g) \<or> (lane_supports_filter
          \<and> (\<exists>g \<in> ?held. \<exists>f. grant_filter parse resource subject g = Some f \<and> filter_holds sat f row))"
      for sat :: "'a \<Rightarrow> 'b \<Rightarrow> bool" and row
      by (simp add: granted_row_def isolated_def Let_def)
    show ?thesis
    proof (cases ?scan)
      case (Inl e)
      with scan rbac show ?thesis by (simp add: authorize_resource_def Let_def scanned_def)
    next
      case (Inr acc)
      obtain fs u where acc: "acc = (fs, u)" by (cases acc)
      from scan Inr acc have u: "u \<longleftrightarrow> (\<exists>g \<in> ?held. unconditional resource g)"
        and fs: "set fs = {f. \<exists>g \<in> ?held. grant_filter parse resource subject g = Some f}"
        by (auto simp: scanned_def)
      have some: "(\<exists>g \<in> ?held. \<exists>f. grant_filter parse resource subject g = Some f \<and> filter_holds sat f row)
          \<longleftrightarrow> (\<exists>f \<in> set fs. filter_holds sat f row)" for sat :: "'a \<Rightarrow> 'b \<Rightarrow> bool" and row
        unfolding fs by blast
      show ?thesis
        using rbac Inr unfolding g some u [symmetric]
        by (auto simp: authorize_resource_def Let_def acc split: list.split)
    qed
  qed
qed

section \<open>What a request is charged\<close>

text \<open>The conditions of a request: role and ceiling of every held grant that authorized it.\<close>

definition grant_satisfied :: "resource_context \<Rightarrow> subject \<Rightarrow> grant_decl \<Rightarrow> bool" where
  "grant_satisfied resource subject grant \<longleftrightarrow>
     unconditional resource grant \<or> substituted_filter resource subject grant \<noteq> None"

definition charged_conditions ::
  "grant_decl policy_config \<Rightarrow> resource_context \<Rightarrow> subject \<Rightarrow> (string \<times> rate_limit_decl) list" where
  "charged_conditions policy resource subject =
     concat (map (\<lambda>role.
         case fmlookup (resolve_role_table policy (rs_tenant_id resource)) role of
           None \<Rightarrow> []
         | Some gs \<Rightarrow> map (Pair role) (List.map_filter gd_rate (filter (grant_satisfied resource subject) gs)))
       (held_roles_in subject (rs_tenant_id resource)))"

fun charge_all ::
  "resource_context \<Rightarrow> subject \<Rightarrow> 's counter_operation option \<Rightarrow> (string \<times> rate_limit_decl) list \<Rightarrow> 's \<Rightarrow>
   condition_outcome list \<times> 's" where
  "charge_all resource subject counter [] s = ([], s)"
| "charge_all resource subject counter ((role, rate) # cs) s =
     (let (outcome, s) = evaluate_condition rate (rs_tenant_id resource)
            (scope_value_for (rl_scope rate) (rs_tenant_id resource) role subject) counter s;
          (outcomes, s) = charge_all resource subject counter cs s
      in (outcome # outcomes, s))"

lemma charge_all_append:
  "charge_all resource subject counter (cs @ ds) s =
     (let (xs, s) = charge_all resource subject counter cs s; (ys, s) = charge_all resource subject counter ds s
      in (xs @ ys, s))"
  by (induction cs arbitrary: s) (auto simp: Let_def split: prod.splits)

lemma charge_grant_cases:
  "charge_grant resource subject counter role_name grant (worst, s) =
     (let (outcomes, s) = charge_all resource subject counter
            (map (Pair role_name) (List.map_filter gd_rate (filter (grant_satisfied resource subject) [grant]))) s
      in (fold worst_refusal outcomes worst, s))"
  by (auto simp: charge_grant_def grant_satisfied_def unconditional_def substituted_filter_def map_filter_simps Let_def
    split: option.splits prod.splits)

lemma map_filter_append: "List.map_filter f (xs @ ys) = List.map_filter f xs @ List.map_filter f ys"
  by (simp add: List.map_filter_def)

lemma charge_grants:
  "fold (charge_grant resource subject counter role_name) gs (worst, s) =
     (let (outcomes, s) = charge_all resource subject counter
            (map (Pair role_name) (List.map_filter gd_rate (filter (grant_satisfied resource subject) gs))) s
      in (fold worst_refusal outcomes worst, s))"
proof (induction gs arbitrary: worst s)
  case (Cons g gs)
  have "filter (grant_satisfied resource subject) (g # gs)
      = filter (grant_satisfied resource subject) [g] @ filter (grant_satisfied resource subject) gs" by simp
  then show ?case
    by (simp add: charge_grant_cases Cons.IH map_filter_append charge_all_append Let_def split: prod.splits
      del: filter.simps)
qed (simp add: map_filter_simps)

lemma charge_roles:
  "fold (\<lambda>role acc. case fmlookup table role of
       None \<Rightarrow> acc
     | Some role_grants \<Rightarrow> fold (charge_grant resource subject counter role) role_grants acc) roles (worst, s) =
   (let (outcomes, s) = charge_all resource subject counter
          (concat (map (\<lambda>role. case fmlookup table role of
              None \<Rightarrow> []
            | Some gs \<Rightarrow> map (Pair role) (List.map_filter gd_rate (filter (grant_satisfied resource subject) gs))) roles)) s
    in (fold worst_refusal outcomes worst, s))"
proof (induction roles arbitrary: worst s)
  case (Cons role roles)
  show ?case
  proof (cases "fmlookup table role")
    case None
    then show ?thesis by (simp add: Cons.IH)
  next
    case (Some gs)
    then show ?thesis by (simp add: charge_grants Cons.IH charge_all_append Let_def split: prod.splits)
  qed
qed simp

text \<open>A verdict over the outcomes: permitted when all are, else a refusal with the longest wait.\<close>

definition verdict_over :: "condition_outcome list \<Rightarrow> rate_verdict \<Rightarrow> bool" where
  "verdict_over outcomes verdict \<longleftrightarrow>
     (case verdict of
        Permitted \<Rightarrow> \<forall>outcome \<in> set outcomes. outcome = Condition_Permitted
      | Refused_Rate r \<Rightarrow> Condition_Refused r \<in> set outcomes
          \<and> (\<forall>r'. Condition_Refused r' \<in> set outcomes \<longrightarrow> rf_retry_after_seconds r' \<le> rf_retry_after_seconds r))"

lemma worst_refusal_longest:
  "case fold worst_refusal outcomes worst of
     None \<Rightarrow> worst = None \<and> (\<forall>outcome \<in> set outcomes. outcome = Condition_Permitted)
   | Some r \<Rightarrow> (Condition_Refused r \<in> set outcomes \<or> worst = Some r)
       \<and> (\<forall>r'. Condition_Refused r' \<in> set outcomes \<or> worst = Some r'
            \<longrightarrow> rf_retry_after_seconds r' \<le> rf_retry_after_seconds r)"
proof (induction outcomes arbitrary: worst)
  case Nil
  show ?case by (simp split: option.split)
next
  case (Cons outcome outcomes)
  from Cons.IH [of "worst_refusal outcome worst"] show ?case
    by (cases outcome; cases worst) (auto simp: worst_refusal_def split: option.splits if_splits)
qed

lemma concat_map_Nil: "concat (map (\<lambda>x. []) xs) = []"
  by (induction xs) simp_all

lemma enforce_rate_limits_charges:
  assumes "is_member_of subject (rs_tenant_id resource)"
  shows "enforce_rate_limits policy resource subject counter Charge s =
    (let (outcomes, s) = charge_all resource subject counter (charged_conditions policy resource subject) s in
     (case fold worst_refusal outcomes None of None \<Rightarrow> Permitted | Some r \<Rightarrow> Refused_Rate r, s))"
proof (cases "resolve_role_table policy (rs_tenant_id resource) = fmempty")
  case True
  with assms show ?thesis by (simp add: enforce_rate_limits_def charged_conditions_def concat_map_Nil)
next
  case False
  with assms show ?thesis
    by (simp add: enforce_rate_limits_def charge_roles charged_conditions_def Let_def split: prod.splits option.splits)
qed

section \<open>Literals\<close>

text \<open>A quoted CQL2 character literal as its grammar reads it: two quotes stand for one, a single quote
  ends the literal.\<close>

fun read_quoted :: "string \<Rightarrow> (string \<times> string) option" where
  "read_quoted [] = None"
| "read_quoted [c] = (if c = quote then Some ([], []) else None)"
| "read_quoted (c # d # rest) =
     (if c = quote then
        (if d = quote then map_option (\<lambda>(s, t). (quote # s, t)) (read_quoted rest) else Some ([], d # rest))
      else map_option (\<lambda>(s, t). (c # s, t)) (read_quoted (d # rest)))"

definition read_literal :: "string \<Rightarrow> (string \<times> string) option" where
  "read_literal t = (case t of [] \<Rightarrow> None | c # rest \<Rightarrow> if c = quote then read_quoted rest else None)"

lemma read_plain: "c \<noteq> quote \<Longrightarrow> read_quoted (c # t) = map_option (\<lambda>(s, t). (c # s, t)) (read_quoted t)"
  by (cases t) simp_all

lemma read_double_quotes:
  assumes "rest = [] \<or> hd rest \<noteq> quote"
  shows "read_quoted (double_quotes s @ quote # rest) = Some (s, rest)"
proof (induction s)
  case Nil
  from assms show ?case by (cases rest) auto
next
  case (Cons c s)
  then show ?case by (cases "c = quote") (simp_all add: read_plain)
qed

lemma literal_read_back:
  assumes "rest = [] \<or> hd rest \<noteq> quote" "cql2_literal_for_claim (JString s) = Some literal"
  shows "read_literal (literal @ rest) = Some (s, rest)"
  using assms read_double_quotes [OF assms(1), of s] by (auto simp: read_literal_def)

section \<open>Properties\<close>

text \<open>
  C8. A row of a resource is let through exactly when the rules grant it (\<open>granted_row\<close>). A subject that is not
  a member of the tenant gets every row when the resource is public or shared with one of its tenants, and none
  otherwise. A member gets every row when the tenant has no role at all; else a row is let through when
  some grant of a held role covers the lane and the resource and is unconditional, or, where the lane can push
  filters down, when the substituted filter of such a grant holds of the row. The only error is a covering
  grant of a held role whose substituted filter does not parse.
\<close>

theorem authorized_rows_are_granted_rows:
  "case authorize_resource parse policy resource subject lane_supports_filter of
     Inl _ \<Rightarrow> is_member_of subject (rs_tenant_id resource)
       \<and> (\<exists>g \<in> grants_of (resolve_role_table policy (rs_tenant_id resource))
              (held_roles_in subject (rs_tenant_id resource)). unparsable parse resource subject g)
   | Inr decision \<Rightarrow>
       \<forall>sat row. decision_admits sat decision row
         \<longleftrightarrow> granted_row parse policy resource subject lane_supports_filter sat row"
  by (rule authorize_resource_sound)

text \<open>
  Every ceiling of a grant that authorized the request is charged exactly once, whatever the
  others answer; the request is permitted when all of them admit it, and otherwise refused with the
  longest wait among the refusals. A visibility probe and a read across tenants charge nothing.
\<close>

lemma every_applicable_ceiling_is_charged:
  "case enforce_rate_limits policy resource subject counter charge s of
     (verdict, s') \<Rightarrow>
       (if charge = Charge \<and> is_member_of subject (rs_tenant_id resource)
        then \<exists>outcomes. charge_all resource subject counter (charged_conditions policy resource subject) s
            = (outcomes, s') \<and> verdict_over outcomes verdict
        else verdict = Permitted \<and> s' = s)"
proof (cases "charge = Charge \<and> is_member_of subject (rs_tenant_id resource)")
  case True
  obtain outcomes t where
    run: "charge_all resource subject counter (charged_conditions policy resource subject) s = (outcomes, t)"
    by (cases "charge_all resource subject counter (charged_conditions policy resource subject) s")
  have "verdict_over outcomes (case fold worst_refusal outcomes None of None \<Rightarrow> Permitted | Some r \<Rightarrow> Refused_Rate r)"
    using worst_refusal_longest [where worst = None and outcomes = outcomes] by (auto simp: verdict_over_def split: option.splits)
  with True run enforce_rate_limits_charges [of subject resource policy counter s] show ?thesis by simp
next
  case False
  then show ?thesis by (cases charge) (auto simp: enforce_rate_limits_def)
qed

text \<open>
  A claim cannot leave its literal: the text substituted for a string claim is one quoted literal
  that reads back as the claim, what follows the placeholder is kept and substituted on its own, and
  nothing inside the claim is taken for a placeholder again.
\<close>

lemma claim_stays_in_its_literal:
  assumes "split_first CLAIM_PLACEHOLDER_PREFIX template = Some (before, after_prefix)"
    and "split_first CLAIM_PLACEHOLDER_SUFFIX after_prefix = Some (name, rest)"
    and "fmlookup claims name = Some (JString value)"
    and "substitute_claims claims rest = Some out" "out = [] \<or> hd out \<noteq> quote"
  shows "\<exists>literal. substitute_claims claims template = Some (before @ literal @ out)
    \<and> read_literal (literal @ out) = Some (value, out)"
proof -
  obtain literal where l: "cql2_literal_for_claim (JString value) = Some literal" by simp
  with assms(1-4) have "substitute_claims claims template = Some (before @ literal @ out)"
    by (simp add: substitute_claims.simps [of claims template] del: cql2_literal_for_claim.simps)
  with literal_read_back [OF assms(5) l] show ?thesis by blast
qed

lemma claim_stays_in_its_literal_example:
  "\<exists>literal. substitute_claims (fmap_of_list [(''org'', JString (''a'' @ [quote] @ '' OR 1=1''))])
       ''owner = {{claims.org}} AND live = 1'' = Some (''owner = '' @ literal @ '' AND live = 1'')
     \<and> read_literal (literal @ '' AND live = 1'') = Some (''a'' @ [quote] @ '' OR 1=1'', '' AND live = 1'')"
proof -
  have a: "split_first CLAIM_PLACEHOLDER_PREFIX ''owner = {{claims.org}} AND live = 1''
      = Some (''owner = '', ''org}} AND live = 1'')"
    and b: "split_first CLAIM_PLACEHOLDER_SUFFIX ''org}} AND live = 1'' = Some (''org'', '' AND live = 1'')"
    and n: "split_first CLAIM_PLACEHOLDER_PREFIX '' AND live = 1'' = None"
    by code_simp+
  have r: "substitute_claims claims '' AND live = 1'' = Some '' AND live = 1''" for claims
    by (subst substitute_claims.simps) (simp only: n option.case)
  show ?thesis
    by (rule claim_stays_in_its_literal [OF a b _ r]) (simp_all add: quote_def)
qed

end
