(* ===== verification/Json_Sequence.thy ===== *)
theory Json_Sequence
  imports Prelude
begin

text \<open>
  \<open>crates/tellurion-core/src/batch.rs\<close>: the incremental decoder of GeoJSON text sequences
  (\<open>GeoJsonSequenceDecoder\<close>), the records of a request body separated by the byte 0x1e, read in
  whatever pieces the transport delivers. The JSON parser (serde_json) is the parameter \<open>parse\<close>.
  The decoder is shown to yield, for every way of cutting the body into pieces, the items of the
  body read at once (\<open>sequence_items\<close>), within a buffer of one record.
\<close>

section \<open>Bytes\<close>

definition RS :: char where "RS = CHR 0x1E"

definition is_ascii_whitespace :: "char \<Rightarrow> bool" where
  "is_ascii_whitespace b \<longleftrightarrow> b \<in> {CHR '' '', CHR 0x09, CHR 0x0A, CHR 0x0C, CHR 0x0D}"

text \<open>The bytes before the first separator and the bytes after it.\<close>

definition split_rs :: "string \<Rightarrow> (string \<times> string) option" where
  "split_rs bs = (if RS \<in> set bs then Some (takeWhile (\<lambda>b. b \<noteq> RS) bs, tl (dropWhile (\<lambda>b. b \<noteq> RS) bs)) else None)"

definition trim_ascii_whitespace :: "string \<Rightarrow> string" where
  "trim_ascii_whitespace bs = rev (dropWhile is_ascii_whitespace (rev (dropWhile is_ascii_whitespace bs)))"

section \<open>The decoder\<close>

datatype 'e malformed =
    Bytes_Before_Separator
  | No_Separator
  | Prefix_Too_Long nat
  | Record_Too_Long nat
  | Bad_Json 'e

datatype ('e, 'v) sequence_item = Value 'v | Malformed "'e malformed"

record ('e, 'v) sequence_decoder =
  dc_buffer :: string
  dc_pending :: "('e, 'v) sequence_item list"
  dc_max_record_bytes :: nat
  dc_started :: bool
  dc_discarding :: bool
  dc_finished :: bool

definition USIZE_MAX :: nat where "USIZE_MAX = 2 ^ 64 - 1"

definition decoder_new :: "nat \<Rightarrow> ('e, 'v) sequence_decoder" where
  "decoder_new max_record_bytes =
     \<lparr>dc_buffer = [], dc_pending = [], dc_max_record_bytes = max max_record_bytes 1, dc_started = False,
      dc_discarding = False, dc_finished = False\<rparr>"

definition parse_record :: "(string \<Rightarrow> 'e + 'v) \<Rightarrow> string \<Rightarrow> ('e, 'v) sequence_item option" where
  "parse_record parse record =
     (let record = trim_ascii_whitespace record in
      if record = [] then None
      else Some (case parse record of Inr value \<Rightarrow> Value value | Inl error \<Rightarrow> Malformed (Bad_Json error)))"

text \<open>The first two steps of a round of \<open>process\<close>; \<open>Inl\<close> is a return, \<open>Inr\<close> goes on.\<close>

definition skip_discarded ::
  "('e, 'v) sequence_decoder \<Rightarrow> ('e, 'v) sequence_decoder + ('e, 'v) sequence_decoder" where
  "skip_discarded d =
     (if \<not> dc_discarding d then Inr d
      else (case split_rs (dc_buffer d) of
              Some (_, rest) \<Rightarrow> Inr (d\<lparr>dc_buffer := rest, dc_started := True, dc_discarding := False\<rparr>)
            | None \<Rightarrow> Inl (d\<lparr>dc_buffer := []\<rparr>)))"

definition start_sequence ::
  "bool \<Rightarrow> ('e, 'v) sequence_decoder \<Rightarrow> ('e, 'v) sequence_decoder + ('e, 'v) sequence_decoder" where
  "start_sequence eof d =
     (if dc_started d then Inr d
      else (case split_rs (dc_buffer d) of
              Some (prefix, rest) \<Rightarrow>
                let d = d\<lparr>dc_buffer := rest, dc_started := True\<rparr> in
                if list_all is_ascii_whitespace prefix then Inr d
                else Inl (d\<lparr>dc_pending := dc_pending d @ [Malformed Bytes_Before_Separator]\<rparr>)
            | None \<Rightarrow>
                if eof then
                  Inl ((if list_all is_ascii_whitespace (dc_buffer d) then d
                        else d\<lparr>dc_pending := dc_pending d @ [Malformed No_Separator]\<rparr>)\<lparr>dc_buffer := []\<rparr>)
                else if length (dc_buffer d) > dc_max_record_bytes d then
                  Inl (d\<lparr>dc_pending := dc_pending d @ [Malformed (Prefix_Too_Long (dc_max_record_bytes d))],
                       dc_buffer := [], dc_discarding := True\<rparr>)
                else Inl d))"

lemma split_rs_length: "split_rs bs = Some (a, b) \<Longrightarrow> length b < length bs"
proof -
  assume "split_rs bs = Some (a, b)"
  then have *: "RS \<in> set bs" "b = tl (dropWhile (\<lambda>b. b \<noteq> RS) bs)" by (auto simp: split_rs_def split: if_splits)
  then have "dropWhile (\<lambda>b. b \<noteq> RS) bs \<noteq> []" by (auto simp: dropWhile_eq_Nil_conv)
  then have "length b < length (dropWhile (\<lambda>b. b \<noteq> RS) bs)" by (simp add: *(2))
  then show ?thesis using length_dropWhile_le [of "\<lambda>b. b \<noteq> RS" bs] by linarith
qed

lemma skip_discarded_length: "skip_discarded d = Inr d' \<Longrightarrow> length (dc_buffer d') \<le> length (dc_buffer d)"
  by (auto simp: skip_discarded_def split: if_splits option.splits dest!: split_rs_length)

lemma start_sequence_length: "start_sequence eof d = Inr d' \<Longrightarrow> length (dc_buffer d') \<le> length (dc_buffer d)"
  by (auto simp: start_sequence_def Let_def split: if_splits option.splits dest!: split_rs_length)

function process :: "(string \<Rightarrow> 'e + 'v) \<Rightarrow> bool \<Rightarrow> ('e, 'v) sequence_decoder \<Rightarrow> ('e, 'v) sequence_decoder" where
  "process parse eof d =
     (case skip_discarded d of
        Inl d1 \<Rightarrow> d1
      | Inr d1 \<Rightarrow>
          (case start_sequence eof d1 of
             Inl d2 \<Rightarrow> d2
           | Inr d2 \<Rightarrow>
               (case split_rs (dc_buffer d2) of
                  Some (record, rest) \<Rightarrow>
                    (case parse_record parse record of
                       Some item \<Rightarrow> d2\<lparr>dc_buffer := rest, dc_pending := dc_pending d2 @ [item]\<rparr>
                     | None \<Rightarrow> process parse eof (d2\<lparr>dc_buffer := rest\<rparr>))
                | None \<Rightarrow>
                    if eof then
                      (case parse_record parse (dc_buffer d2) of
                         Some item \<Rightarrow> d2\<lparr>dc_buffer := [], dc_pending := dc_pending d2 @ [item]\<rparr>
                       | None \<Rightarrow> d2\<lparr>dc_buffer := []\<rparr>)
                    else if length (dc_buffer d2) > dc_max_record_bytes d2 then
                      d2\<lparr>dc_pending := dc_pending d2 @ [Malformed (Record_Too_Long (dc_max_record_bytes d2))],
                         dc_buffer := [], dc_discarding := True\<rparr>
                    else d2)))"
  by pat_completeness auto
termination
proof (relation "measure (\<lambda>(parse, eof, d). length (dc_buffer d))")
  fix parse :: "string \<Rightarrow> 'e + 'v" and eof and d d1 d2 :: "('e, 'v) sequence_decoder" and p r rest
  assume "skip_discarded d = Inr d1" "start_sequence eof d1 = Inr d2"
    "split_rs (dc_buffer d2) = Some p" "(r, rest) = p"
  then show "((parse, eof, d2\<lparr>dc_buffer := rest\<rparr>), parse, eof, d) \<in> measure (\<lambda>(parse, eof, d). length (dc_buffer d))"
    using split_rs_length [of "dc_buffer d2" r rest] skip_discarded_length [of d d1]
      start_sequence_length [of eof d1 d2] by simp
qed simp

declare process.simps [simp del]

text \<open>\<open>push\<close> takes at most the bytes up to the first separator and at most what the buffer holds.\<close>

definition push_piece ::
  "(string \<Rightarrow> 'e + 'v) \<Rightarrow> string \<Rightarrow> ('e, 'v) sequence_decoder \<Rightarrow> nat \<times> ('e, 'v) sequence_decoder" where
  "push_piece parse remaining d =
     (let through_separator = (if RS \<in> set remaining then length (takeWhile (\<lambda>b. b \<noteq> RS) remaining) + 1
                               else length remaining);
          capacity = max (min (dc_max_record_bytes d + 1) USIZE_MAX - length (dc_buffer d)) 1;
          n = min through_separator capacity
      in (n, process parse False (d\<lparr>dc_buffer := dc_buffer d @ take n remaining\<rparr>)))"

function push_loop ::
  "(string \<Rightarrow> 'e + 'v) \<Rightarrow> string \<Rightarrow> ('e, 'v) sequence_decoder \<Rightarrow> string \<times> ('e, 'v) sequence_decoder" where
  "push_loop parse remaining d =
     (if remaining \<noteq> [] \<and> dc_pending d = []
      then let (n, d') = push_piece parse remaining d in push_loop parse (drop n remaining) d'
      else (remaining, d))"
  by pat_completeness auto
termination
  by (relation "measure (\<lambda>(parse, remaining, d). length remaining)") (auto simp: push_piece_def Let_def)

declare push_loop.simps [simp del]

text \<open>\<open>push\<close> answers with the unconsumed suffix where the code counts the consumed prefix.\<close>

definition push ::
  "(string \<Rightarrow> 'e + 'v) \<Rightarrow> string \<Rightarrow> ('e, 'v) sequence_decoder \<Rightarrow> string \<times> ('e, 'v) sequence_decoder" where
  "push parse bytes d =
     (if dc_finished d \<or> bytes = [] then (bytes, d)
      else if dc_pending d \<noteq> [] then (bytes, d)
      else push_loop parse bytes d)"

definition finish :: "(string \<Rightarrow> 'e + 'v) \<Rightarrow> ('e, 'v) sequence_decoder \<Rightarrow> ('e, 'v) sequence_decoder" where
  "finish parse d =
     (if dc_finished d then d
      else let d = d\<lparr>dc_finished := True\<rparr> in if dc_pending d = [] then process parse True d else d)"

definition next_item ::
  "(string \<Rightarrow> 'e + 'v) \<Rightarrow> ('e, 'v) sequence_decoder \<Rightarrow> ('e, 'v) sequence_item option \<times> ('e, 'v) sequence_decoder" where
  "next_item parse d =
     (case dc_pending d of
        [] \<Rightarrow> (None, d)
      | item # rest \<Rightarrow>
          let d = d\<lparr>dc_pending := rest\<rparr> in
          (Some item, if rest = [] then process parse (dc_finished d) d else d))"

section \<open>The items of a body\<close>

definition one_record :: "(string \<Rightarrow> 'e + 'v) \<Rightarrow> nat \<Rightarrow> string \<Rightarrow> ('e, 'v) sequence_item list" where
  "one_record parse limit r =
     (if length r > limit then [Malformed (Record_Too_Long limit)]
      else (case parse_record parse r of None \<Rightarrow> [] | Some item \<Rightarrow> [item]))"

function record_items :: "(string \<Rightarrow> 'e + 'v) \<Rightarrow> nat \<Rightarrow> string \<Rightarrow> ('e, 'v) sequence_item list" where
  "record_items parse limit body =
     (case split_rs body of
        None \<Rightarrow> one_record parse limit body
      | Some (r, rest) \<Rightarrow> one_record parse limit r @ record_items parse limit rest)"
  by pat_completeness auto
termination
  by (relation "measure (\<lambda>(parse, limit, body). length body)") (auto dest: split_rs_length)

declare record_items.simps [simp del]

definition prefix_items :: "nat \<Rightarrow> bool \<Rightarrow> string \<Rightarrow> ('e, 'v) sequence_item list" where
  "prefix_items limit separated prefix =
     (if length prefix > limit then [Malformed (Prefix_Too_Long limit)]
      else if list_all is_ascii_whitespace prefix then []
      else [Malformed (if separated then Bytes_Before_Separator else No_Separator)])"

definition sequence_items :: "(string \<Rightarrow> 'e + 'v) \<Rightarrow> nat \<Rightarrow> string \<Rightarrow> ('e, 'v) sequence_item list" where
  "sequence_items parse limit body =
     (case split_rs body of
        None \<Rightarrow> prefix_items limit False body
      | Some (prefix, rest) \<Rightarrow> prefix_items limit True prefix @ record_items parse limit rest)"

text \<open>
  The items of a body that is cut off: those of the bytes up to the last separator, the rest being an unfinished
  record. The decoder does not wait for the end of a rest that is already too long.
\<close>

definition after_last_rs :: "string \<Rightarrow> string" where
  "after_last_rs body = rev (takeWhile (\<lambda>b. b \<noteq> RS) (rev body))"

definition cut_items :: "(string \<Rightarrow> 'e + 'v) \<Rightarrow> nat \<Rightarrow> string \<Rightarrow> ('e, 'v) sequence_item list" where
  "cut_items parse limit body =
     (let rest = after_last_rs body; complete = take (length body - length rest) body in
      sequence_items parse limit complete
      @ (if length rest \<le> limit then []
         else [Malformed (if complete = [] then Prefix_Too_Long limit else Record_Too_Long limit)]))"

section \<open>What a decoder has still to yield\<close>

definition still_to_yield ::
  "(string \<Rightarrow> 'e + 'v) \<Rightarrow> ('e, 'v) sequence_decoder \<Rightarrow> string \<Rightarrow> ('e, 'v) sequence_item list" where
  "still_to_yield parse d rest =
     (if dc_discarding d then
        (case split_rs rest of None \<Rightarrow> [] | Some (_, rest) \<Rightarrow> record_items parse (dc_max_record_bytes d) rest)
      else if dc_started d then record_items parse (dc_max_record_bytes d) rest
      else sequence_items parse (dc_max_record_bytes d) rest)"

lemma split_rs_None: "split_rs bs = None \<longleftrightarrow> RS \<notin> set bs"
  by (simp add: split_rs_def)

lemma split_rs_missing [simp]: "RS \<notin> set bs \<Longrightarrow> split_rs bs = None"
  by (simp add: split_rs_def)

lemma split_rs_Some: "split_rs bs = Some (a, b) \<Longrightarrow> bs = a @ RS # b \<and> RS \<notin> set a"
proof -
  assume "split_rs bs = Some (a, b)"
  then have *: "RS \<in> set bs" "a = takeWhile (\<lambda>b. b \<noteq> RS) bs" "b = tl (dropWhile (\<lambda>b. b \<noteq> RS) bs)"
    by (auto simp: split_rs_def split: if_splits)
  then have "dropWhile (\<lambda>b. b \<noteq> RS) bs \<noteq> []" by (auto simp: dropWhile_eq_Nil_conv)
  then have "dropWhile (\<lambda>b. b \<noteq> RS) bs = RS # b"
    using hd_dropWhile [of "\<lambda>b. b \<noteq> RS" bs] *(3) by (metis list.collapse)
  then show ?thesis using *(2) takeWhile_dropWhile_id [of "\<lambda>b. b \<noteq> RS" bs] by (auto dest: set_takeWhileD)
qed

lemma split_rs_here [simp]: "RS \<notin> set a \<Longrightarrow> split_rs (a @ RS # b) = Some (a, b)"
  by (auto simp: split_rs_def takeWhile_append dropWhile_append)

lemma split_rs_append:
  "split_rs a = Some (p, q) \<Longrightarrow> split_rs (a @ r) = Some (p, q @ r)"
  by (auto dest!: split_rs_Some)

lemma split_rs_later:
  "RS \<notin> set a \<Longrightarrow> split_rs (a @ r) = map_option (\<lambda>(p, q). (a @ p, q)) (split_rs r)"
  by (cases "split_rs r") (auto simp: split_rs_None dest!: split_rs_Some simp flip: append_assoc)

lemma one_record_long: "limit < length r \<Longrightarrow> one_record parse limit r = [Malformed (Record_Too_Long limit)]"
  by (simp add: one_record_def)

lemma record_items_too_long:
  "RS \<notin> set b \<Longrightarrow> limit < length b \<Longrightarrow> record_items parse limit (b @ r) =
     Malformed (Record_Too_Long limit) # (case split_rs r of None \<Rightarrow> [] | Some (_, rest) \<Rightarrow> record_items parse limit rest)"
  by (subst record_items.simps) (auto simp: split_rs_later one_record_long split: option.split)

lemma record_items_split:
  "split_rs b = Some (r, rest) \<Longrightarrow> record_items parse limit (b @ later)
     = one_record parse limit r @ record_items parse limit (rest @ later)"
  by (subst record_items.simps) (simp add: split_rs_append)

lemma record_items_Nil [simp]: "record_items parse limit [] = []"
  by (subst record_items.simps) (simp add: split_rs_def one_record_def parse_record_def trim_ascii_whitespace_def)

lemma still_to_yield_Nil [simp]: "still_to_yield parse d [] = []"
  by (simp add: still_to_yield_def split_rs_def sequence_items_def prefix_items_def)

lemma still_to_yield_pending [simp]: "still_to_yield parse (d\<lparr>dc_pending := xs\<rparr>) = still_to_yield parse d"
  "still_to_yield parse (d\<lparr>dc_buffer := b\<rparr>) = still_to_yield parse d"
  "still_to_yield parse (d\<lparr>dc_finished := f\<rparr>) = still_to_yield parse d"
  by (simp_all add: still_to_yield_def fun_eq_iff split: option.split)

section \<open>One round\<close>

definition yields ::
  "(string \<Rightarrow> 'e + 'v) \<Rightarrow> ('e, 'v) sequence_decoder \<Rightarrow> ('e, 'v) sequence_item list \<Rightarrow> ('e, 'v) sequence_decoder \<Rightarrow> bool" where
  "yields parse d items d' \<longleftrightarrow>
     dc_pending d' = dc_pending d @ items \<and> dc_max_record_bytes d' = dc_max_record_bytes d \<and> dc_finished d' = dc_finished d
     \<and> length (dc_buffer d') \<le> length (dc_buffer d) \<and> (items \<noteq> [] \<longrightarrow> length (dc_buffer d') < length (dc_buffer d))
     \<and> length items \<le> 1
     \<and> (\<forall>r. still_to_yield parse d (dc_buffer d @ r) = items @ still_to_yield parse d' (dc_buffer d' @ r))"

lemma yields_trans: "yields parse d [] d1 \<Longrightarrow> yields parse d1 items d2 \<Longrightarrow> yields parse d items d2"
  by (auto simp: yields_def)

lemma yields_refl [simp]: "yields parse d [] d"
  by (simp add: yields_def)

lemma skip_discarded_Inr: "skip_discarded d = Inr d' \<Longrightarrow> yields parse d [] d' \<and> \<not> dc_discarding d'"
  by (auto simp: skip_discarded_def yields_def still_to_yield_def split_rs_append split: if_splits option.splits
      dest: split_rs_length)

lemma skip_discarded_Inl:
  "skip_discarded d = Inl d' \<Longrightarrow> yields parse d [] d' \<and> dc_buffer d' = []"
  by (auto simp: skip_discarded_def yields_def still_to_yield_def split_rs_later split_rs_None [THEN iffD1]
      split: if_splits option.splits)

lemma start_sequence_Inr:
  assumes "start_sequence eof d = Inr d'" "\<not> dc_discarding d" "length (dc_buffer d) \<le> dc_max_record_bytes d + 1"
  shows "yields parse d [] d' \<and> \<not> dc_discarding d' \<and> dc_started d'"
proof (cases "dc_started d")
  case True
  with assms show ?thesis by (simp add: start_sequence_def)
next
  case False
  with assms(1) obtain p rest where s: "split_rs (dc_buffer d) = Some (p, rest)" "list_all is_ascii_whitespace p"
    "d' = d\<lparr>dc_buffer := rest, dc_started := True\<rparr>"
    by (auto simp: start_sequence_def Let_def split: option.splits if_splits)
  from split_rs_Some [OF s(1)] assms(3) have "length p \<le> dc_max_record_bytes d" by auto
  with s assms(2) False show ?thesis
    using split_rs_length [OF s(1)]
    by (simp add: yields_def still_to_yield_def sequence_items_def split_rs_append [OF s(1)] prefix_items_def)
qed

lemma start_sequence_Inl_False:
  assumes "start_sequence False d = Inl d'" "\<not> dc_discarding d" "length (dc_buffer d) \<le> dc_max_record_bytes d + 1"
  shows "\<exists>items. yields parse d items d' \<and> (items = [] \<longrightarrow> RS \<notin> set (dc_buffer d') \<and> length (dc_buffer d') \<le> dc_max_record_bytes d)"
proof (cases "split_rs (dc_buffer d)")
  case None
  then have n: "RS \<notin> set (dc_buffer d)" "\<not> dc_started d" using assms(1)
    by (auto simp: start_sequence_def split_rs_None split: if_splits)
  show ?thesis
  proof (cases "length (dc_buffer d) > dc_max_record_bytes d")
    case True
    with n assms(1) have d': "d' = d\<lparr>dc_pending := dc_pending d @ [Malformed (Prefix_Too_Long (dc_max_record_bytes d))],
                       dc_buffer := [], dc_discarding := True\<rparr>"
      by (simp add: start_sequence_def)
    with True n assms(2) have "yields parse d [Malformed (Prefix_Too_Long (dc_max_record_bytes d))] d'"
      by (auto simp: yields_def still_to_yield_def sequence_items_def split_rs_later prefix_items_def split: option.split)
    then show ?thesis by blast
  next
    case False
    with n assms(1) have "d' = d" by (auto simp: start_sequence_def)
    with False n show ?thesis by (intro exI [of _ "[]"]) simp
  qed
next
  case (Some pr)
  obtain p rest where pr: "pr = (p, rest)" by (cases pr)
  note s = Some [unfolded pr]
  from assms(1) s have d': "d' = d\<lparr>dc_buffer := rest, dc_started := True, dc_pending := dc_pending d @ [Malformed Bytes_Before_Separator]\<rparr>"
    "\<not> list_all is_ascii_whitespace p" "\<not> dc_started d"
    by (auto simp: start_sequence_def Let_def split: if_splits)
  from split_rs_Some [OF s] assms(3) have "length p \<le> dc_max_record_bytes d" by auto
  with d' assms(2) split_rs_length [OF s] have "yields parse d [Malformed Bytes_Before_Separator] d'"
    by (simp add: yields_def still_to_yield_def sequence_items_def split_rs_append [OF s] prefix_items_def)
  then show ?thesis by blast
qed

definition ends ::
  "(string \<Rightarrow> 'e + 'v) \<Rightarrow> ('e, 'v) sequence_decoder \<Rightarrow> ('e, 'v) sequence_item list \<Rightarrow> ('e, 'v) sequence_decoder \<Rightarrow> bool" where
  "ends parse d items d' \<longleftrightarrow>
     dc_pending d' = dc_pending d @ items \<and> dc_max_record_bytes d' = dc_max_record_bytes d \<and> dc_finished d' = dc_finished d
     \<and> length (dc_buffer d') \<le> length (dc_buffer d) \<and> (items \<noteq> [] \<longrightarrow> length (dc_buffer d') < length (dc_buffer d))
     \<and> length items \<le> 1 \<and> still_to_yield parse d (dc_buffer d) = items @ still_to_yield parse d' (dc_buffer d')
     \<and> (items = [] \<longrightarrow> dc_buffer d' = [])"

lemma yields_ends: "yields parse d [] d1 \<Longrightarrow> ends parse d1 items d2 \<Longrightarrow> ends parse d items d2"
  unfolding yields_def ends_def by (auto dest: spec [of _ "[]"])

lemma start_sequence_Inl_True:
  assumes "start_sequence True d = Inl d'" "\<not> dc_discarding d" "length (dc_buffer d) \<le> dc_max_record_bytes d"
  shows "\<exists>items. ends parse d items d'"
proof (cases "split_rs (dc_buffer d)")
  case None
  then have n: "RS \<notin> set (dc_buffer d)" "\<not> dc_started d" using assms(1)
    by (auto simp: start_sequence_def split_rs_None split: if_splits)
  with assms(1,2,3) None show ?thesis
    by (cases "list_all is_ascii_whitespace (dc_buffer d)")
      (auto simp: start_sequence_def still_to_yield_def sequence_items_def prefix_items_def ends_def
        intro: exI [of _ "[]"] exI [of _ "[Malformed No_Separator]"])
next
  case (Some pr)
  obtain p rest where pr: "pr = (p, rest)" by (cases pr)
  note s = Some [unfolded pr]
  from assms(1) s have d': "d' = d\<lparr>dc_buffer := rest, dc_started := True, dc_pending := dc_pending d @ [Malformed Bytes_Before_Separator]\<rparr>"
    "\<not> list_all is_ascii_whitespace p" "\<not> dc_started d"
    by (auto simp: start_sequence_def Let_def split: if_splits)
  from split_rs_Some [OF s] assms(3) have "length p \<le> dc_max_record_bytes d" by auto
  with d' assms(2) split_rs_length [OF s] show ?thesis
    by (intro exI [of _ "[Malformed Bytes_Before_Separator]"])
      (simp add: still_to_yield_def sequence_items_def s prefix_items_def ends_def)
qed

lemma process_False:
  "length (dc_buffer d) \<le> dc_max_record_bytes d + 1 \<Longrightarrow> \<not> eof \<Longrightarrow>
   \<exists>items. yields parse d items (process parse eof d)
     \<and> (items = [] \<longrightarrow> RS \<notin> set (dc_buffer (process parse eof d)) \<and> length (dc_buffer (process parse eof d)) \<le> dc_max_record_bytes d)"
proof (induction parse eof d rule: process.induct)
  case (1 parse eof d)
  note unfold = process.simps [of parse eof d]
  show ?case
  proof (cases "skip_discarded d")
    case (Inl d1)
    with skip_discarded_Inl [OF Inl, of parse] show ?thesis unfolding unfold by auto
  next
    case (Inr d1)
    note skip = skip_discarded_Inr [OF Inr, of parse]
    then have b1: "length (dc_buffer d1) \<le> dc_max_record_bytes d1 + 1" "dc_max_record_bytes d1 = dc_max_record_bytes d"
      using 1(2) by (auto simp: yields_def)
    show ?thesis
    proof (cases "start_sequence eof d1")
      case (Inl d2)
      have eof: "eof = False" using 1(3) by simp
      obtain items where "yields parse d1 items d2"
        "items = [] \<longrightarrow> RS \<notin> set (dc_buffer d2) \<and> length (dc_buffer d2) \<le> dc_max_record_bytes d1"
        using start_sequence_Inl_False [OF Inl [unfolded eof] _ b1(1), of parse] skip by blast
      with yields_trans [of parse d d1] skip Inr Inl b1(2) show ?thesis unfolding unfold by auto
    next
      case (Inr d2)
      note start = start_sequence_Inr [OF Inr _ b1(1), of parse]
      have y2: "yields parse d [] d2" and d2: "\<not> dc_discarding d2" "dc_started d2"
        using start skip yields_trans by blast+
      then have b2: "length (dc_buffer d2) \<le> dc_max_record_bytes d2 + 1" "dc_max_record_bytes d2 = dc_max_record_bytes d"
        using 1(2) by (auto simp: yields_def)
      note so_far = \<open>skip_discarded d = Inr d1\<close> \<open>start_sequence eof d1 = Inr d2\<close>
      show ?thesis
      proof (cases "split_rs (dc_buffer d2)")
        case None
        then have n: "RS \<notin> set (dc_buffer d2)" by (simp add: split_rs_None)
        show ?thesis
        proof (cases "length (dc_buffer d2) > dc_max_record_bytes d2")
          case True
          let ?m = "Malformed (Record_Too_Long (dc_max_record_bytes d2))"
          have "yields parse d2 [?m] (process parse eof d)"
            unfolding unfold using so_far None True d2 n 1(3)
            by (auto simp: yields_def still_to_yield_def record_items_too_long split: option.split)
          with yields_trans [OF y2] show ?thesis by blast
        next
          case False
          with so_far None 1(3) n y2 b2 show ?thesis unfolding unfold by auto
        qed
      next
        case (Some pr)
        obtain r rest where pr: "pr = (r, rest)" by (cases pr)
        note s = Some [unfolded pr]
        have len: "length rest < length (dc_buffer d2)" "length r \<le> dc_max_record_bytes d2"
          using split_rs_length [OF s] split_rs_Some [OF s] b2(1) by auto
        show ?thesis
        proof (cases "parse_record parse r")
          case None
          let ?d3 = "d2\<lparr>dc_buffer := rest\<rparr>"
          have "yields parse d2 [] ?d3"
            using d2 len None by (simp add: yields_def still_to_yield_def record_items_split [OF s] one_record_def)
          with yields_trans [OF y2] have y3: "yields parse d [] ?d3" .
          have p: "process parse eof d = process parse eof ?d3" unfolding unfold using so_far s None by simp
          have "length (dc_buffer ?d3) \<le> dc_max_record_bytes ?d3 + 1" using len b2 by simp
          from 1(1) [OF so_far s refl None this 1(3)] yields_trans [OF y3] b2(2) show ?thesis unfolding p by auto
        next
          case (Some item)
          have "yields parse d2 [item] (process parse eof d)"
            unfolding unfold using so_far s Some d2 len
            by (simp add: yields_def still_to_yield_def record_items_split [OF s] one_record_def)
          with yields_trans [OF y2] show ?thesis by blast
        qed
      qed
    qed
  qed
qed

lemma process_True:
  "length (dc_buffer d) \<le> dc_max_record_bytes d \<Longrightarrow> eof \<Longrightarrow> \<exists>items. ends parse d items (process parse eof d)"
proof (induction parse eof d rule: process.induct)
  case (1 parse eof d)
  note unfold = process.simps [of parse eof d]
  show ?case
  proof (cases "skip_discarded d")
    case (Inl d1)
    with skip_discarded_Inl [OF Inl, of parse] show ?thesis
      unfolding unfold yields_def ends_def by (auto intro!: exI [of _ "[]"] dest: spec [of _ "[]"])
  next
    case (Inr d1)
    note skip = skip_discarded_Inr [OF Inr, of parse]
    then have b1: "length (dc_buffer d1) \<le> dc_max_record_bytes d1" "dc_max_record_bytes d1 = dc_max_record_bytes d"
      using 1(2) by (auto simp: yields_def)
    show ?thesis
    proof (cases "start_sequence eof d1")
      case (Inl d2)
      have eof: "eof = True" using 1(3) by simp
      obtain items where "ends parse d1 items d2"
        using start_sequence_Inl_True [OF Inl [unfolded eof] _ b1(1), of parse] skip by blast
      with yields_ends [of parse d d1] skip Inr Inl show ?thesis unfolding unfold by auto
    next
      case (Inr d2)
      have b1': "length (dc_buffer d1) \<le> dc_max_record_bytes d1 + 1" using b1(1) by simp
      note start = start_sequence_Inr [OF Inr _ b1', of parse]
      have y2: "yields parse d [] d2" and d2: "\<not> dc_discarding d2" "dc_started d2"
        using start skip yields_trans by blast+
      then have b2: "length (dc_buffer d2) \<le> dc_max_record_bytes d2" "dc_max_record_bytes d2 = dc_max_record_bytes d"
        using 1(2) by (auto simp: yields_def)
      note so_far = \<open>skip_discarded d = Inr d1\<close> \<open>start_sequence eof d1 = Inr d2\<close>
      show ?thesis
      proof (cases "split_rs (dc_buffer d2)")
        case None
        have all: "record_items parse (dc_max_record_bytes d2) (dc_buffer d2) = one_record parse (dc_max_record_bytes d2) (dc_buffer d2)"
          using None by (subst record_items.simps) simp
        have "\<exists>items. ends parse d2 items (process parse eof d)"
        proof (cases "parse_record parse (dc_buffer d2)")
          case N: None
          then show ?thesis unfolding unfold using so_far None b2 1(3) d2
            by (intro exI [of _ "[]"]) (simp add: ends_def still_to_yield_def all [unfolded b2(2)] one_record_def)
        next
          case (Some item)
          then have "dc_buffer d2 \<noteq> []" by (auto simp: parse_record_def trim_ascii_whitespace_def Let_def)
          with Some show ?thesis unfolding unfold using so_far None b2 1(3) d2
            by (intro exI [of _ "[item]"]) (simp add: ends_def still_to_yield_def all [unfolded b2(2)] one_record_def)
        qed
        with yields_ends [OF y2] show ?thesis by blast
      next
        case (Some pr)
        obtain r rest where pr: "pr = (r, rest)" by (cases pr)
        note s = Some [unfolded pr]
        have len: "length rest < length (dc_buffer d2)" "length r \<le> dc_max_record_bytes d2"
          using split_rs_length [OF s] split_rs_Some [OF s] b2(1) by auto
        show ?thesis
        proof (cases "parse_record parse r")
          case None
          let ?d3 = "d2\<lparr>dc_buffer := rest\<rparr>"
          have "yields parse d2 [] ?d3"
            using d2 len None by (simp add: yields_def still_to_yield_def record_items_split [OF s] one_record_def)
          with yields_trans [OF y2] have y3: "yields parse d [] ?d3" .
          have p: "process parse eof d = process parse eof ?d3" unfolding unfold using so_far s None by simp
          have "length (dc_buffer ?d3) \<le> dc_max_record_bytes ?d3" using len b2 by simp
          from 1(1) [OF so_far s refl None this 1(3)] yields_ends [OF y3] show ?thesis unfolding p by blast
        next
          case (Some item)
          have "ends parse d2 [item] (process parse eof d)"
            unfolding unfold using so_far s Some d2 len record_items_split [OF s, of parse _ "[]"]
            by (simp add: ends_def still_to_yield_def one_record_def)
          with yields_ends [OF y2] show ?thesis by blast
        qed
      qed
    qed
  qed
qed

section \<open>Reachable decoders\<close>

text \<open>Between two calls: one item at most waits, and without one the buffer is an unfinished record.\<close>

definition decoder_ok :: "('e, 'v) sequence_decoder \<Rightarrow> bool" where
  "decoder_ok d \<longleftrightarrow> length (dc_pending d) \<le> 1 \<and> length (dc_buffer d) \<le> dc_max_record_bytes d
     \<and> (dc_pending d = [] \<longrightarrow> RS \<notin> set (dc_buffer d) \<and> (dc_finished d \<longrightarrow> dc_buffer d = []))"

lemma new_ok [simp]: "decoder_ok (decoder_new n)"
  by (simp add: decoder_ok_def decoder_new_def)

lemma before_separator: "RS \<in> set bs \<Longrightarrow> length (takeWhile (\<lambda>b. b \<noteq> RS) bs) < length bs"
  by (induction bs) auto

lemma push_piece_yields:
  assumes "decoder_ok d" "dc_pending d = []" "\<not> dc_finished d" "remaining \<noteq> []" "push_piece parse remaining d = (n, d')"
  shows "decoder_ok d' \<and> 0 < n \<and> n \<le> length remaining \<and> \<not> dc_finished d' \<and> dc_max_record_bytes d' = dc_max_record_bytes d
    \<and> (\<forall>r. still_to_yield parse d (dc_buffer d @ take n remaining @ r) = dc_pending d' @ still_to_yield parse d' (dc_buffer d' @ r))"
proof -
  let ?d = "d\<lparr>dc_buffer := dc_buffer d @ take n remaining\<rparr>"
  from assms(5) have d': "d' = process parse False ?d" by (auto simp: push_piece_def Let_def)
  have n: "0 < n" "n \<le> length remaining" "n \<le> max (dc_max_record_bytes d + 1 - length (dc_buffer d)) 1"
    using assms(4,5) before_separator [of remaining]
    by (auto simp: push_piece_def Let_def min_def max_def Suc_le_eq split: if_splits)
  have len: "length (dc_buffer ?d) \<le> dc_max_record_bytes ?d + 1"
    using n assms(1) by (auto simp: decoder_ok_def max_def split: if_splits)
  obtain items where y: "yields parse ?d items d'"
    "items = [] \<longrightarrow> RS \<notin> set (dc_buffer d') \<and> length (dc_buffer d') \<le> dc_max_record_bytes ?d"
    using process_False [OF len, of False parse] unfolding d' by auto
  then have "decoder_ok d'" using len assms(2,3) by (cases "items = []") (auto simp: yields_def decoder_ok_def)
  moreover have "\<forall>r. still_to_yield parse ?d (dc_buffer ?d @ r) = items @ still_to_yield parse d' (dc_buffer d' @ r)"
    using y(1) by (simp add: yields_def)
  ultimately show ?thesis using n y(1) assms(2,3) by (simp add: yields_def)
qed

definition to_come ::
  "(string \<Rightarrow> 'e + 'v) \<Rightarrow> ('e, 'v) sequence_decoder \<Rightarrow> string \<Rightarrow> ('e, 'v) sequence_item list" where
  "to_come parse d rest = dc_pending d @ still_to_yield parse d (dc_buffer d @ rest)"

lemma to_come_new: "to_come parse (decoder_new n) body = sequence_items parse (max n 1) body"
  by (simp add: to_come_def decoder_new_def still_to_yield_def)

lemma push_loop_yields:
  "decoder_ok d \<Longrightarrow> \<not> dc_finished d \<Longrightarrow> push_loop parse remaining d = (rest, d') \<Longrightarrow>
   decoder_ok d' \<and> \<not> dc_finished d' \<and> dc_max_record_bytes d' = dc_max_record_bytes d \<and> length rest \<le> length remaining
   \<and> (remaining \<noteq> [] \<and> dc_pending d = [] \<longrightarrow> length rest < length remaining)
   \<and> (\<forall>r. to_come parse d (remaining @ r) = to_come parse d' (rest @ r))"
proof (induction parse remaining d rule: push_loop.induct)
  case (1 parse remaining d)
  show ?case
  proof (cases "remaining \<noteq> [] \<and> dc_pending d = []")
    case False
    with 1(2-4) show ?thesis by (subst (asm) push_loop.simps) auto
  next
    case True
    obtain n d1 where p: "push_piece parse remaining d = (n, d1)" by (cases "push_piece parse remaining d")
    with 1(4) True have loop: "push_loop parse (drop n remaining) d1 = (rest, d')"
      by (subst (asm) push_loop.simps) simp
    have piece: "decoder_ok d1" "0 < n" "n \<le> length remaining" "\<not> dc_finished d1" "dc_max_record_bytes d1 = dc_max_record_bytes d"
      "\<And>r. still_to_yield parse d (dc_buffer d @ take n remaining @ r) = dc_pending d1 @ still_to_yield parse d1 (dc_buffer d1 @ r)"
      using push_piece_yields [OF 1(2) _ 1(3) _ p] True by blast+
    have "to_come parse d (remaining @ r) = to_come parse d1 (drop n remaining @ r)" for r
      using piece(6) [of "drop n remaining @ r"] True by (simp add: to_come_def flip: append_assoc)
    with 1(1) [OF True p [symmetric] refl piece(1,4) loop] piece(2,3,5) show ?thesis by auto
  qed
qed

lemma push_yields:
  assumes "decoder_ok d" "\<not> dc_finished d" "dc_pending d = []" "push parse bytes d = (rest, d')"
  shows "decoder_ok d' \<and> \<not> dc_finished d' \<and> dc_max_record_bytes d' = dc_max_record_bytes d
    \<and> (bytes \<noteq> [] \<longrightarrow> length rest < length bytes) \<and> to_come parse d (bytes @ r) = to_come parse d' (rest @ r)"
  using assms push_loop_yields [of d parse bytes rest d'] by (auto simp: push_def split: if_splits)

lemma finish_yields:
  assumes "decoder_ok d" "\<not> dc_finished d"
  shows "decoder_ok (finish parse d) \<and> dc_finished (finish parse d) \<and> dc_max_record_bytes (finish parse d) = dc_max_record_bytes d
    \<and> to_come parse d [] = to_come parse (finish parse d) []"
proof (cases "dc_pending d = []")
  case True
  let ?d = "d\<lparr>dc_finished := True\<rparr>"
  have "length (dc_buffer ?d) \<le> dc_max_record_bytes ?d" using assms(1) by (simp add: decoder_ok_def)
  then obtain items where "ends parse ?d items (process parse True ?d)"
    using process_True [of ?d True parse] by auto
  with True assms show ?thesis by (auto simp: finish_def ends_def decoder_ok_def to_come_def)
next
  case False
  with assms show ?thesis by (simp add: finish_def decoder_ok_def to_come_def)
qed

lemma next_item_None: "dc_pending d = [] \<Longrightarrow> next_item parse d = (None, d)"
  by (simp add: next_item_def)

lemma next_item_yields:
  assumes "decoder_ok d" "dc_pending d \<noteq> []" "next_item parse d = (i, d')"
  shows "\<exists>item. i = Some item \<and> decoder_ok d' \<and> dc_finished d' = dc_finished d \<and> dc_max_record_bytes d' = dc_max_record_bytes d
    \<and> (\<forall>r. (dc_finished d \<longrightarrow> r = []) \<longrightarrow> to_come parse d r = item # to_come parse d' r)"
proof -
  from assms(1,2) obtain item where p: "dc_pending d = [item]" by (cases "dc_pending d") (auto simp: decoder_ok_def)
  let ?d = "d\<lparr>dc_pending := []\<rparr>"
  from p assms(3) have i: "i = Some item" "d' = process parse (dc_finished d) ?d" by (auto simp: next_item_def Let_def)
  have len: "length (dc_buffer ?d) \<le> dc_max_record_bytes ?d" using assms(1) by (simp add: decoder_ok_def)
  show ?thesis
  proof (cases "dc_finished d")
    case True
    then obtain items where "ends parse ?d items d'" using process_True [OF len, of True parse] i by auto
    with True p i(1) len show ?thesis by (auto simp: ends_def decoder_ok_def to_come_def)
  next
    case False
    then obtain items where y: "yields parse ?d items d'" "items = [] \<longrightarrow> RS \<notin> set (dc_buffer d')"
      using process_False [of ?d False parse] len i by auto
    with False p i(1) len show ?thesis by (auto simp: yields_def decoder_ok_def to_come_def)
  qed
qed

section \<open>Reading a request body\<close>

text \<open>
  \<open>GeoJsonSeqReader\<close> of \<open>crates/tellurion-features/src/batch_handlers.rs\<close>. The body is the list of
  what the transport delivers: a chunk, or a failure.
\<close>

datatype ('e, 'v) reader_item =
    Eof
  | Budget_Exceeded
  | Transport_Error
  | Item_Value 'v
  | Item_Malformed "'e malformed"

record ('e, 'v) seq_reader =
  rd_stream :: "(unit + string) list"
  rd_decoder :: "('e, 'v) sequence_decoder"
  rd_pending_chunk :: string
  rd_total_bytes :: u64
  rd_max_bytes :: u64
  rd_exhausted :: bool

definition reader_new :: "(unit + string) list \<Rightarrow> u64 \<Rightarrow> ('e, 'v) seq_reader" where
  "reader_new body max_bytes =
     \<lparr>rd_stream = body, rd_decoder = decoder_new (unat max_bytes), rd_pending_chunk = [], rd_total_bytes = 0,
      rd_max_bytes = max_bytes, rd_exhausted = False\<rparr>"

definition to_next :: "('e, 'v) sequence_item \<Rightarrow> ('e, 'v) reader_item" where
  "to_next item = (case item of Value v \<Rightarrow> Item_Value v | Malformed reason \<Rightarrow> Item_Malformed reason)"

partial_function (option) reader_next ::
  "(string \<Rightarrow> 'e + 'v) \<Rightarrow> ('e, 'v) seq_reader \<Rightarrow> (('e, 'v) reader_item \<times> ('e, 'v) seq_reader) option" where
  "reader_next parse rd =
     (let (item, d) = next_item parse (rd_decoder rd); rd = rd\<lparr>rd_decoder := d\<rparr> in
      case item of
        Some i \<Rightarrow> Some (to_next i, rd)
      | None \<Rightarrow>
          if rd_pending_chunk rd \<noteq> [] then
            (let (rest, d) = push parse (rd_pending_chunk rd) (rd_decoder rd) in
             reader_next parse (rd\<lparr>rd_pending_chunk := rest, rd_decoder := d\<rparr>))
          else if rd_exhausted rd then Some (Eof, rd)
          else (case rd_stream rd of
                  Inr chunk # stream \<Rightarrow>
                    (let total = rd_total_bytes rd + of_nat (length chunk);
                         rd = rd\<lparr>rd_stream := stream, rd_total_bytes := total\<rparr> in
                     if total > rd_max_bytes rd then Some (Budget_Exceeded, rd\<lparr>rd_exhausted := True\<rparr>)
                     else reader_next parse (rd\<lparr>rd_pending_chunk := chunk\<rparr>))
                | Inl _ # stream \<Rightarrow> Some (Transport_Error, rd\<lparr>rd_stream := stream, rd_exhausted := True\<rparr>)
                | [] \<Rightarrow> reader_next parse (rd\<lparr>rd_decoder := finish parse (rd_decoder rd), rd_exhausted := True\<rparr>)))"

declare reader_next.simps [code]

fun is_item :: "('e, 'v) reader_item \<Rightarrow> bool" where
  "is_item (Item_Value _) = True"
| "is_item (Item_Malformed _) = True"
| "is_item _ = False"

text \<open>Reading on until the source has nothing more to give.\<close>

partial_function (option) read_all ::
  "(string \<Rightarrow> 'e + 'v) \<Rightarrow> ('e, 'v) seq_reader \<Rightarrow> ('e, 'v) reader_item list option" where
  "read_all parse rd =
     Option.bind (reader_next parse rd) (\<lambda>(item, rd).
     if is_item item then Option.bind (read_all parse rd) (\<lambda>items. Some (item # items)) else Some [item])"

declare read_all.simps [code]

text \<open>The bytes delivered before the body ends or is cut off, and how it ends.\<close>

datatype body_end = Body_Ends | Over_Budget | Broken

fun end_item :: "body_end \<Rightarrow> ('e, 'v) reader_item" where
  "end_item Body_Ends = Eof"
| "end_item Over_Budget = Budget_Exceeded"
| "end_item Broken = Transport_Error"

fun delivered :: "u64 \<Rightarrow> u64 \<Rightarrow> (unit + string) list \<Rightarrow> string \<times> body_end" where
  "delivered sofar max_bytes [] = ([], Body_Ends)"
| "delivered sofar max_bytes (Inl _ # stream) = ([], Broken)"
| "delivered sofar max_bytes (Inr chunk # stream) =
     (let sofar = sofar + of_nat (length chunk) in
      if sofar > max_bytes then ([], Over_Budget)
      else (let (body, e) = delivered sofar max_bytes stream in (chunk @ body, e)))"

definition reader_content :: "('e, 'v) seq_reader \<Rightarrow> string \<times> body_end" where
  "reader_content rd = (if rd_exhausted rd then ([], Body_Ends)
     else delivered (rd_total_bytes rd) (rd_max_bytes rd) (rd_stream rd))"

definition reader_ok :: "('e, 'v) seq_reader \<Rightarrow> bool" where
  "reader_ok rd \<longleftrightarrow> decoder_ok (rd_decoder rd) \<and> dc_finished (rd_decoder rd) = rd_exhausted rd
     \<and> (rd_exhausted rd \<longrightarrow> rd_pending_chunk rd = [])"

definition reader_measure :: "(('e, 'v) seq_reader \<times> ('e, 'v) seq_reader) set" where
  "reader_measure = measures [\<lambda>rd. length (rd_stream rd), \<lambda>rd. if rd_exhausted rd then 0 else 1, \<lambda>rd. length (rd_pending_chunk rd)]"

lemma end_item_terminal [simp]: "\<not> is_item (end_item e)"
  by (cases e) simp_all

text \<open>What is still to come is what a decoder makes of an unfinished record and of the bytes after it.\<close>

definition open_end :: "(string \<Rightarrow> 'e + 'v) \<Rightarrow> nat \<Rightarrow> (string \<Rightarrow> ('e, 'v) sequence_item list) \<Rightarrow> bool" where
  "open_end parse limit f \<longleftrightarrow>
     (\<exists>d. decoder_ok d \<and> dc_pending d = [] \<and> dc_max_record_bytes d = limit \<and> (\<forall>r. f r = still_to_yield parse d (dc_buffer d @ r)))"

lemma open_endI:
  "decoder_ok d \<Longrightarrow> dc_pending d = [] \<Longrightarrow> dc_max_record_bytes d = limit \<Longrightarrow> (\<And>r. f r = to_come parse d r) \<Longrightarrow> open_end parse limit f"
  by (auto simp: open_end_def to_come_def)

definition reader_step_ok :: "(string \<Rightarrow> 'e + 'v) \<Rightarrow> ('e, 'v) seq_reader \<Rightarrow> ('e, 'v) reader_item \<Rightarrow> ('e, 'v) seq_reader \<Rightarrow> bool" where
  "reader_step_ok parse rd item rd' \<longleftrightarrow>
     (let (body, e) = reader_content rd; (body', e') = reader_content rd' in
      (\<exists>i. item = to_next i \<and> reader_ok rd' \<and> e' = e \<and> dc_max_record_bytes (rd_decoder rd') = dc_max_record_bytes (rd_decoder rd)
         \<and> (\<forall>r. (e = Body_Ends \<longrightarrow> r = []) \<longrightarrow> to_come parse (rd_decoder rd) (rd_pending_chunk rd @ body @ r)
             = i # to_come parse (rd_decoder rd') (rd_pending_chunk rd' @ body' @ r)))
      \<or> (item = end_item e
         \<and> (if e = Body_Ends then to_come parse (rd_decoder rd) (rd_pending_chunk rd @ body) = []
            else open_end parse (dc_max_record_bytes (rd_decoder rd)) (\<lambda>r. to_come parse (rd_decoder rd) (rd_pending_chunk rd @ body @ r)))))"

lemma to_next_item [simp]: "is_item (to_next i)"
  by (simp add: to_next_def split: sequence_item.split)

lemma wf_reader_measure: "wf reader_measure"
  by (simp add: reader_measure_def)

lemma reader_next_returns:
  "reader_ok rd \<Longrightarrow> \<exists>item rd'. reader_next parse rd = Some (item, rd') \<and> reader_step_ok parse rd item rd'"
proof (induction rd rule: wf_induct_rule [OF wf_reader_measure])
  case (1 rd)
  let ?d = "rd_decoder rd"
  have ok: "decoder_ok ?d" "dc_finished ?d = rd_exhausted rd" "rd_exhausted rd \<Longrightarrow> rd_pending_chunk rd = []"
    using 1(2) by (auto simp: reader_ok_def)
  note unfold = reader_next.simps [of parse rd]
  have same: "rd\<lparr>rd_decoder := ?d\<rparr> = rd" by simp
  show ?case
  proof (cases "dc_pending ?d = []")
    case False
    obtain i d' where n: "next_item parse ?d = (i, d')" by (cases "next_item parse ?d")
    from next_item_yields [OF ok(1) False n] obtain item where item: "i = Some item" "decoder_ok d'" "dc_finished d' = dc_finished ?d"
      "\<And>r. (dc_finished ?d \<longrightarrow> r = []) \<Longrightarrow> to_come parse ?d r = item # to_come parse d' r"
      "dc_max_record_bytes d' = dc_max_record_bytes ?d" by blast
    let ?rd = "rd\<lparr>rd_decoder := d'\<rparr>"
    have "reader_next parse rd = Some (to_next item, ?rd)" unfolding unfold by (simp add: n item(1))
    moreover have "reader_step_ok parse rd (to_next item) ?rd"
      using item ok by (auto simp: reader_step_ok_def reader_ok_def reader_content_def Let_def split: prod.split)
    ultimately show ?thesis by blast
  next
    case True
    note n = next_item_None [OF True, of parse]
    show ?thesis
    proof (cases "rd_pending_chunk rd = []")
      case chunk: False
      then have ne: "\<not> rd_exhausted rd" using ok(3) by blast
      obtain rest d' where p: "push parse (rd_pending_chunk rd) ?d = (rest, d')" by (cases "push parse (rd_pending_chunk rd) ?d")
      have y: "decoder_ok d'" "\<not> dc_finished d'" "length rest < length (rd_pending_chunk rd)"
        "\<And>r. to_come parse ?d (rd_pending_chunk rd @ r) = to_come parse d' (rest @ r)"
        "dc_max_record_bytes d' = dc_max_record_bytes ?d"
        using push_yields [OF ok(1) _ True p] ok(2) ne chunk by blast+
      let ?rd = "rd\<lparr>rd_pending_chunk := rest, rd_decoder := d'\<rparr>"
      have eq: "reader_next parse rd = reader_next parse ?rd" unfolding unfold using n p chunk by (simp add: same)
      have "(?rd, rd) \<in> reader_measure" using y(3) by (simp add: reader_measure_def)
      moreover have "reader_ok ?rd" using y ne by (simp add: reader_ok_def)
      ultimately obtain item rd' where "reader_next parse ?rd = Some (item, rd')" "reader_step_ok parse ?rd item rd'"
        using 1(1) by blast
      moreover have "reader_step_ok parse rd item rd' = reader_step_ok parse ?rd item rd'" for item rd'
        using y(4,5) y(4) [of "[]"] by (simp add: reader_step_ok_def reader_content_def)
      ultimately show ?thesis unfolding eq by blast
    next
      case chunk: True
      show ?thesis
      proof (cases "rd_exhausted rd")
        case e: True
        have "reader_next parse rd = Some (Eof, rd)" unfolding unfold using n chunk e by (simp add: same)
        moreover have "dc_buffer ?d = []" using ok(1,2) e True by (simp add: decoder_ok_def)
        ultimately show ?thesis using e chunk True by (auto simp: reader_step_ok_def reader_content_def to_come_def)
      next
        case e: False
        show ?thesis
        proof (cases "rd_stream rd")
          case Nil
          let ?rd = "rd\<lparr>rd_decoder := finish parse ?d, rd_exhausted := True\<rparr>"
          have f: "decoder_ok (finish parse ?d)" "dc_finished (finish parse ?d)"
            "to_come parse ?d [] = to_come parse (finish parse ?d) []"
            "dc_max_record_bytes (finish parse ?d) = dc_max_record_bytes ?d"
            using finish_yields [OF ok(1), of parse] ok(2) e by simp_all
          have eq: "reader_next parse rd = reader_next parse ?rd" unfolding unfold using n chunk e Nil by (simp add: same)
          have "(?rd, rd) \<in> reader_measure" using e by (simp add: reader_measure_def)
          moreover have "reader_ok ?rd" using f chunk by (simp add: reader_ok_def)
          ultimately obtain item rd' where "reader_next parse ?rd = Some (item, rd')" "reader_step_ok parse ?rd item rd'"
            using 1(1) by blast
          moreover have "reader_step_ok parse rd item rd' = reader_step_ok parse ?rd item rd'" for item rd'
            using f(3,4) e Nil chunk by (simp add: reader_step_ok_def reader_content_def)
          ultimately show ?thesis unfolding eq by blast
        next
          case (Cons delivery stream)
          show ?thesis
          proof (cases delivery)
            case (Inl u)
            have "open_end parse (dc_max_record_bytes ?d) (\<lambda>r. to_come parse ?d ([] @ [] @ r))"
              by (rule open_endI [OF ok(1) True]) simp_all
            then show ?thesis unfolding unfold using n chunk e Cons Inl
              by (auto simp: reader_step_ok_def reader_content_def same)
          next
            case (Inr bytes)
            let ?total = "rd_total_bytes rd + of_nat (length bytes)"
            show ?thesis
            proof (cases "?total > rd_max_bytes rd")
              case over: True
              have "open_end parse (dc_max_record_bytes ?d) (\<lambda>r. to_come parse ?d ([] @ [] @ r))"
                by (rule open_endI [OF ok(1) True]) simp_all
              with over show ?thesis unfolding unfold using n chunk e Cons Inr
                by (auto simp: reader_step_ok_def reader_content_def same Let_def)
            next
              case within: False
              let ?rd = "rd\<lparr>rd_stream := stream, rd_total_bytes := ?total, rd_pending_chunk := bytes\<rparr>"
              have eq: "reader_next parse rd = reader_next parse ?rd"
                unfolding unfold using n chunk e Cons Inr within by (simp add: same Let_def)
              have "(?rd, rd) \<in> reader_measure" using Cons by (simp add: reader_measure_def)
              moreover have "reader_ok ?rd" using ok e by (simp add: reader_ok_def)
              ultimately obtain item rd' where "reader_next parse ?rd = Some (item, rd')" "reader_step_ok parse ?rd item rd'"
                using 1(1) by blast
              moreover have "reader_step_ok parse rd item rd' = reader_step_ok parse ?rd item rd'" for item rd'
                using chunk e Cons Inr within by (simp add: reader_step_ok_def reader_content_def Let_def case_prod_unfold)
              ultimately show ?thesis unfolding eq by blast
            qed
          qed
        qed
      qed
    qed
  qed
qed

lemma read_all_returns:
  "reader_ok rd \<Longrightarrow> reader_content rd = (body, e) \<Longrightarrow>
   \<exists>items. read_all parse rd = Some (map to_next items @ [end_item e])
     \<and> (if e = Body_Ends then items = to_come parse (rd_decoder rd) (rd_pending_chunk rd @ body)
        else \<exists>f. open_end parse (dc_max_record_bytes (rd_decoder rd)) f
          \<and> (\<forall>r. to_come parse (rd_decoder rd) (rd_pending_chunk rd @ body @ r) = items @ f r))"
proof (induction "to_come parse (rd_decoder rd) (rd_pending_chunk rd @ body)" arbitrary: rd body rule: length_induct)
  case (1 rd body)
  obtain item rd' where step: "reader_next parse rd = Some (item, rd')" "reader_step_ok parse rd item rd'"
    using reader_next_returns [OF 1(2)] by blast
  note unfold = read_all.simps [of parse rd]
  obtain body' e' where c': "reader_content rd' = (body', e')" by (cases "reader_content rd'")
  from step(2) 1(3) c' consider
      (more) i where "item = to_next i" "reader_ok rd'" "e' = e" "dc_max_record_bytes (rd_decoder rd') = dc_max_record_bytes (rd_decoder rd)"
        "\<And>r. (e = Body_Ends \<longrightarrow> r = []) \<Longrightarrow> to_come parse (rd_decoder rd) (rd_pending_chunk rd @ body @ r)
           = i # to_come parse (rd_decoder rd') (rd_pending_chunk rd' @ body' @ r)"
    | (last) "item = end_item e" "if e = Body_Ends then to_come parse (rd_decoder rd) (rd_pending_chunk rd @ body) = []
        else open_end parse (dc_max_record_bytes (rd_decoder rd)) (\<lambda>r. to_come parse (rd_decoder rd) (rd_pending_chunk rd @ body @ r))"
    unfolding reader_step_ok_def by (auto split: prod.splits)
  then show ?case
  proof cases
    case more
    have now: "to_come parse (rd_decoder rd) (rd_pending_chunk rd @ body)
        = i # to_come parse (rd_decoder rd') (rd_pending_chunk rd' @ body')" using more(5) [of "[]"] by simp
    then obtain items where items: "read_all parse rd' = Some (map to_next items @ [end_item e])"
      "if e = Body_Ends then items = to_come parse (rd_decoder rd') (rd_pending_chunk rd' @ body')
        else \<exists>f. open_end parse (dc_max_record_bytes (rd_decoder rd')) f
          \<and> (\<forall>r. to_come parse (rd_decoder rd') (rd_pending_chunk rd' @ body' @ r) = items @ f r)"
      using 1(1) [rule_format, OF _ _ more(2) c' [unfolded more(3)]] by auto
    have "read_all parse rd = Some (map to_next (i # items) @ [end_item e])"
      using step(1) more(1) items(1) unfolding unfold by simp
    moreover have "if e = Body_Ends then i # items = to_come parse (rd_decoder rd) (rd_pending_chunk rd @ body)
        else \<exists>f. open_end parse (dc_max_record_bytes (rd_decoder rd)) f
          \<and> (\<forall>r. to_come parse (rd_decoder rd) (rd_pending_chunk rd @ body @ r) = (i # items) @ f r)"
      using items(2) now more(4,5) by (auto split: if_splits)
    ultimately show ?thesis by blast
  next
    case last
    then have "read_all parse rd = Some (map to_next [] @ [end_item e])" using step(1) unfolding unfold by simp
    moreover have "if e = Body_Ends then [] = to_come parse (rd_decoder rd) (rd_pending_chunk rd @ body)
        else \<exists>f. open_end parse (dc_max_record_bytes (rd_decoder rd)) f
          \<and> (\<forall>r. to_come parse (rd_decoder rd) (rd_pending_chunk rd @ body @ r) = [] @ f r)"
      using last(2) by (auto split: if_splits)
    ultimately show ?thesis by blast
  qed
qed

section \<open>A body cut off\<close>

text \<open>Two records too long, the first of which ends what was there before.\<close>

definition long_tail :: "nat \<Rightarrow> string" where
  "long_tail limit = replicate (limit + 1) CHR ''x'' @ RS # replicate (limit + 1) CHR ''x''"

lemma RS_not_x [simp]: "RS \<noteq> CHR ''x''" "CHR ''x'' \<noteq> RS"
  by (simp_all add: RS_def)

lemma record_items_end: "RS \<notin> set b \<Longrightarrow> record_items parse limit b = one_record parse limit b"
  by (subst record_items.simps) simp

lemma split_long_tail:
  "RS \<notin> set b \<Longrightarrow> split_rs (b @ long_tail limit) = Some (b @ replicate (limit + 1) CHR ''x'', replicate (limit + 1) CHR ''x'')"
  using split_rs_here [of "b @ replicate (limit + 1) CHR ''x''" "replicate (limit + 1) CHR ''x''"] by (simp add: long_tail_def)

lemma record_items_long_tail:
  "RS \<notin> set b \<Longrightarrow> record_items parse limit (b @ long_tail limit) = [Malformed (Record_Too_Long limit), Malformed (Record_Too_Long limit)]"
  by (subst record_items.simps) (simp add: split_long_tail one_record_long record_items_end)

lemma sequence_items_long_tail:
  "RS \<notin> set b \<Longrightarrow> sequence_items parse limit (b @ long_tail limit) = [Malformed (Prefix_Too_Long limit), Malformed (Record_Too_Long limit)]"
  by (simp add: sequence_items_def split_long_tail prefix_items_def one_record_long record_items_end)

lemma one_record_short: "length b \<le> limit \<Longrightarrow> Malformed (Record_Too_Long n) \<notin> set (one_record parse limit b)"
  by (auto simp: one_record_def parse_record_def Let_def split: option.splits if_splits sum.splits)

lemma prefix_items_short: "length b \<le> limit \<Longrightarrow> Malformed (Prefix_Too_Long n) \<notin> set (prefix_items limit separated b)"
  by (auto simp: prefix_items_def)

text \<open>What an unfinished record gives with nothing after it, and with the two records.\<close>

lemma open_end_cases:
  assumes "open_end parse limit f"
  obtains (going) "\<And>n. Malformed (Record_Too_Long n) \<notin> set (f [])" "\<And>n. Malformed (Prefix_Too_Long n) \<notin> set (f [])"
      "length (f (long_tail limit)) = 2"
    | (discarding) "f [] = []" "f (long_tail limit) = [Malformed (Record_Too_Long limit)]"
proof -
  from assms obtain d where d: "decoder_ok d" "dc_pending d = []" "dc_max_record_bytes d = limit"
    "\<And>r. f r = still_to_yield parse d (dc_buffer d @ r)" by (auto simp: open_end_def)
  then have b: "RS \<notin> set (dc_buffer d)" "length (dc_buffer d) \<le> limit" by (auto simp: decoder_ok_def)
  show thesis
  proof (cases "dc_discarding d")
    case True
    then show thesis using d b by (intro discarding) (simp_all add: still_to_yield_def split_long_tail record_items_end one_record_long)
  next
    case False
    show thesis
    proof (cases "dc_started d")
      case True
      with False show thesis using d b one_record_short [OF b(2), of _ parse]
        by (intro going) (auto simp: still_to_yield_def record_items_long_tail record_items_end one_record_def parse_record_def Let_def
            split: option.splits if_splits sum.splits)
    next
      case not_started: False
      have "f (long_tail limit) = [Malformed (Prefix_Too_Long limit), Malformed (Record_Too_Long limit)]"
        using not_started False d b by (simp add: still_to_yield_def sequence_items_long_tail)
      moreover have "f [] = prefix_items limit False (dc_buffer d)"
        using not_started False d b by (simp add: still_to_yield_def sequence_items_def)
      ultimately show thesis using b by (intro going) (auto simp: prefix_items_def)
    qed
  qed
qed

text \<open>Bytes that end with a separator are read apart from what follows them.\<close>

lemma record_items_append:
  "record_items parse limit (a @ RS # r) = record_items parse limit (a @ [RS]) @ record_items parse limit r"
proof (induction parse limit a rule: record_items.induct)
  case (1 parse limit a)
  show ?case
  proof (cases "split_rs a")
    case None
    then have "RS \<notin> set a" by (simp add: split_rs_None)
    then have s: "split_rs (a @ [RS]) = Some (a, [])" by simp
    show ?thesis using record_items_split [OF s, of parse limit r] record_items_split [OF s, of parse limit "[]"] by simp
  next
    case (Some pr)
    obtain b rest where pr: "pr = (b, rest)" by (cases pr)
    note s = Some [unfolded pr]
    have IH: "record_items parse limit (rest @ RS # r) = record_items parse limit (rest @ [RS]) @ record_items parse limit r"
      by (rule 1 [OF Some]) (simp add: pr)
    show ?thesis unfolding record_items_split [OF s] IH by (rule append_assoc [symmetric])
  qed
qed

lemma sequence_items_append:
  "sequence_items parse limit (a @ RS # r) = sequence_items parse limit (a @ [RS]) @ record_items parse limit r"
proof (cases "split_rs a")
  case None
  then have "RS \<notin> set a" by (simp add: split_rs_None)
  then show ?thesis by (simp add: sequence_items_def)
next
  case (Some pr)
  obtain b rest where pr: "pr = (b, rest)" by (cases pr)
  note s = Some [unfolded pr]
  show ?thesis unfolding sequence_items_def split_rs_append [OF s] by (simp add: record_items_append [of parse limit rest r])
qed

lemma after_last_rs_split:
  obtains (none) "RS \<notin> set body" "after_last_rs body = body"
    | (some) a where "body = a @ RS # after_last_rs body" "RS \<notin> set (after_last_rs body)"
proof (cases "RS \<in> set body")
  case True
  then obtain a b where ab: "body = a @ RS # b" "RS \<notin> set b" by (meson split_list_last)
  have "takeWhile (\<lambda>b. b \<noteq> RS) (rev b @ RS # rev a) = rev b" using ab(2) by (auto simp: takeWhile_tail takeWhile_append2)
  then have "after_last_rs body = b" by (simp add: after_last_rs_def ab(1))
  with ab show thesis by (intro some [of a]) auto
next
  case False
  then have "takeWhile (\<lambda>b. b \<noteq> RS) (rev body) = rev body" by (auto simp: takeWhile_eq_all_conv)
  then have "after_last_rs body = body" unfolding after_last_rs_def by (simp only: rev_rev_ident)
  with False show thesis by (rule none)
qed

lemma open_end_items:
  assumes f: "open_end parse limit f" and all: "\<And>r. sequence_items parse limit (body @ r) = items @ f r"
  shows "items = cut_items parse limit body"
proof (cases rule: after_last_rs_split [of body])
  case none
  have whole: "sequence_items parse limit body = prefix_items limit False body"
    using none(1) by (simp add: sequence_items_def)
  from all [of "[]"] all [of "long_tail limit"] whole sequence_items_long_tail [OF none(1), of parse limit]
  have eqs: "items @ f [] = prefix_items limit False body"
    "items @ f (long_tail limit) = [Malformed (Prefix_Too_Long limit), Malformed (Record_Too_Long limit)]" by simp_all
  have cut: "cut_items parse limit body = (if length body \<le> limit then [] else [Malformed (Prefix_Too_Long limit)])"
    using none(2) by (simp add: cut_items_def sequence_items_def prefix_items_def)
  from f show ?thesis
  proof (cases rule: open_end_cases)
    case going
    from arg_cong [OF eqs(2), of length] going(3) have "items = []" by simp
    with eqs(1) going(2) show ?thesis unfolding cut by (auto simp: prefix_items_def split: if_splits)
  next
    case discarding
    with eqs show ?thesis unfolding cut by (auto simp: prefix_items_def append_eq_Cons_conv split: if_splits)
  qed
next
  case (some a)
  define tail where "tail = after_last_rs body"
  define complete where "complete = sequence_items parse limit (a @ [RS])"
  have body: "body = (a @ [RS]) @ tail" and t: "RS \<notin> set tail" using some unfolding tail_def by simp_all
  have seq: "sequence_items parse limit (body @ r) = complete @ record_items parse limit (tail @ r)" for r
    using sequence_items_append [of parse limit a "tail @ r"] unfolding body complete_def by simp
  from all [of "[]"] all [of "long_tail limit"] seq [of "[]"] seq [of "long_tail limit"]
  have eqs: "items @ f [] = complete @ one_record parse limit tail"
    "items @ f (long_tail limit) = complete @ [Malformed (Record_Too_Long limit), Malformed (Record_Too_Long limit)]"
    using t by (simp_all add: record_items_end record_items_long_tail)
  have "take (length body - length tail) body = a @ [RS]" unfolding body by simp
  then have cut: "cut_items parse limit body = complete @ (if length tail \<le> limit then [] else [Malformed (Record_Too_Long limit)])"
    by (simp add: cut_items_def Let_def complete_def tail_def [symmetric])
  from f show ?thesis
  proof (cases rule: open_end_cases)
    case going
    from arg_cong [OF eqs(2), of length] going(3) have "length items = length complete" by simp
    with eqs have "items = complete" "f [] = one_record parse limit tail" by simp_all
    with going(1) [of limit] show ?thesis unfolding cut by (auto simp: one_record_long not_le)
  next
    case discarding
    with eqs(2) have "items = complete @ [Malformed (Record_Too_Long limit)]" by simp
    moreover from this eqs(1) discarding(1) have "one_record parse limit tail = [Malformed (Record_Too_Long limit)]" by simp
    then have "limit < length tail" using one_record_short [of tail limit limit parse] by force
    ultimately show ?thesis unfolding cut by simp
  qed
qed

definition reader_within :: "(unit + string) list \<Rightarrow> u64 \<Rightarrow> nat \<Rightarrow> ('e, 'v) seq_reader" where
  "reader_within body max_bytes limit = (reader_new body max_bytes)\<lparr>rd_decoder := decoder_new limit\<rparr>"

lemma reader_within_new: "reader_within body max_bytes (unat max_bytes) = reader_new body max_bytes"
  by (simp add: reader_within_def reader_new_def)

lemma reader_new_ok: "reader_ok (reader_within body max_bytes limit)"
  by (simp add: reader_ok_def reader_within_def reader_new_def) (simp add: decoder_new_def)

section \<open>Properties\<close>

text \<open>
  C26. A request body is read the same however the transport cuts it, by a reader with any record limit (the
  handlers take the byte budget, \<open>reader_within_new\<close>): the reader always comes to an end and says how the
  body ended. Of a body that ends within the byte budget it yields the items of the delivered bytes read at once,
  a record over the limit being one malformed item; of a body that is cut off by the budget or a
  failure, those of the bytes up to the last separator delivered, and of the unfinished record after it
  nothing, or the one item that says it is too long.\<close>

theorem body_is_read_as_its_records:
  "read_all parse (reader_within stream max_bytes limit) =
     Some (map to_next
        (if snd (delivered 0 max_bytes stream) = Body_Ends
         then sequence_items parse (max limit 1) (fst (delivered 0 max_bytes stream))
         else cut_items parse (max limit 1) (fst (delivered 0 max_bytes stream)))
      @ [end_item (snd (delivered 0 max_bytes stream))])"
proof -
  let ?rd = "reader_within stream max_bytes limit"
  obtain body e where d: "delivered 0 max_bytes stream = (body, e)" by (cases "delivered 0 max_bytes stream")
  then have c: "reader_content ?rd = (body, e)" by (simp add: reader_content_def reader_within_def reader_new_def)
  have rd: "rd_decoder ?rd = decoder_new limit" "rd_pending_chunk ?rd = []" "dc_max_record_bytes (decoder_new limit) = max limit 1"
    by (simp_all add: reader_within_def reader_new_def decoder_new_def)
  from read_all_returns [OF reader_new_ok c, of parse] obtain items where
    items: "read_all parse ?rd = Some (map to_next items @ [end_item e])"
    "if e = Body_Ends then items = sequence_items parse (max limit 1) body
     else \<exists>f. open_end parse (max limit 1) f \<and> (\<forall>r. sequence_items parse (max limit 1) (body @ r) = items @ f r)"
    unfolding rd append_Nil to_come_new by blast
  then have "items = (if e = Body_Ends then sequence_items parse (max limit 1) body else cut_items parse (max limit 1) body)"
    using open_end_items [of parse "max limit 1" _ body items] by (auto split: if_splits)
  with items(1) show ?thesis by (simp add: d)
qed

text \<open>Whole bodies are the concatenation of their chunks.\<close>

lemma delivered_whole:
  "unat n + length (concat chunks) \<le> unat m \<Longrightarrow> delivered n m (map Inr chunks) = (concat chunks, Body_Ends)"
proof (induction chunks arbitrary: n)
  case (Cons c chunks)
  have "unat n + length c < 2 ^ 64"
    using Cons.prems unsigned_less [of m, where ?'a = nat] by simp
  then have u: "unat (n + of_nat (length c)) = unat n + length c"
    by (simp add: unat_word_ariths unat_of_nat)
  with Cons have "delivered (n + of_nat (length c)) m (map Inr chunks) = (concat chunks, Body_Ends)" by simp
  moreover have "\<not> n + of_nat (length c) > m" using u Cons.prems by (simp add: word_less_nat_alt)
  ultimately show ?case by (simp add: Let_def)
qed simp

text \<open>The memory of the decoder: whatever is called, one item and one record.\<close>

inductive decoder_step ::
  "(string \<Rightarrow> 'e + 'v) \<Rightarrow> ('e, 'v) sequence_decoder \<Rightarrow> ('e, 'v) sequence_decoder \<Rightarrow> bool" for parse where
  Push: "push parse bytes d = (rest, d') \<Longrightarrow> decoder_step parse d d'"
| Finish: "decoder_step parse d (finish parse d)"
| Next_Item: "next_item parse d = (item, d') \<Longrightarrow> decoder_step parse d d'"

lemma decoder_step_ok:
  "decoder_step parse d d' \<Longrightarrow> decoder_ok d \<Longrightarrow> decoder_ok d' \<and> dc_max_record_bytes d' = dc_max_record_bytes d"
proof (induction rule: decoder_step.induct)
  case (Push bytes d rest d')
  then show ?case using push_loop_yields [of d parse bytes rest d'] by (auto simp: push_def split: if_splits)
next
  case (Finish d)
  then show ?case using finish_yields [of d parse] by (cases "dc_finished d") (auto simp: finish_def)
next
  case (Next_Item d item d')
  then show ?case using next_item_yields [of d parse item d'] by (cases "dc_pending d = []") (auto simp: next_item_None)
qed

lemma decoder_memory_bounded:
  assumes "(decoder_step parse)\<^sup>*\<^sup>* (decoder_new n) d"
  shows "length (dc_buffer d) \<le> max n 1 \<and> length (dc_pending d) \<le> 1"
proof -
  have "decoder_ok d \<and> dc_max_record_bytes d = max n 1"
    using assms
  proof (induction rule: rtranclp_induct)
    case base
    show ?case using new_ok [of n] by (simp add: decoder_new_def)
  qed (auto dest: decoder_step_ok)
  then show ?thesis by (simp add: decoder_ok_def)
qed

end
