(* ===== verification/Settings.thy ===== *)
theory Settings
  imports Config_Integrity Control_Scope
begin

text \<open>
  \<open>crates/tellurion-core/src/settings.rs\<close>: the settings chain platform, tenant, catalog,
  collection, resolved per key with the provenance of every value; \<open>batch.rs\<close>'s \<open>BatchDecl::resolve\<close>;
  and the part of \<open>Router::build_from_snapshot\<close> (\<open>router.rs\<close>) that materializes the chain for every
  collection. Values the chain only copies are of the opaque type \<open>'x\<close>: \<open>no_caps\<close> is
  \<open>ZoomCaps::default()\<close> and \<open>own_caps\<close> reads \<open>tiles.caps\<close> of a collection, \<open>None\<close> when it is empty.
\<close>

section \<open>Defaults and results\<close>

definition DEFAULT_SETTINGS_CACHE_TTL_S :: u64 where "DEFAULT_SETTINGS_CACHE_TTL_S = 3600"
definition DEFAULT_SLOW_REQUEST_MS :: u64 where "DEFAULT_SLOW_REQUEST_MS = 1000"
definition DEFAULT_MAX_REQUEST_BODY_BYTES :: u64 where "DEFAULT_MAX_REQUEST_BODY_BYTES = 1048576"
definition DEFAULT_TILE_VERTEX_BUDGET :: u64 where "DEFAULT_TILE_VERTEX_BUDGET = 500000"
definition DEFAULT_ITEMS_VERTEX_BUDGET :: u64 where "DEFAULT_ITEMS_VERTEX_BUDGET = 50000"
definition DEFAULT_MAX_ASSET_BYTES :: u64 where "DEFAULT_MAX_ASSET_BYTES = 10485760"
definition DEFAULT_BATCH_MAX_BYTES :: u64 where "DEFAULT_BATCH_MAX_BYTES = 67108864"
definition DEFAULT_BATCH_MAX_ITEMS :: u64 where "DEFAULT_BATCH_MAX_ITEMS = 1000000"
definition DEFAULT_BATCH_CHUNK_ITEMS :: u32 where "DEFAULT_BATCH_CHUNK_ITEMS = 500"

record batch_config =
  bc_max_bytes :: u64
  bc_max_items :: u64
  bc_chunk_items :: u32

definition unwrap_or :: "'a option \<Rightarrow> 'a \<Rightarrow> 'a" where
  "unwrap_or x d = (case x of Some a \<Rightarrow> a | None \<Rightarrow> d)"

lemma unwrap_or_simps [simp]: "unwrap_or (Some a) d = a" "unwrap_or None d = d"
  by (simp_all add: unwrap_or_def)

definition default_batch_decl :: batch_decl where
  "default_batch_decl = \<lparr>ba_max_bytes = None, ba_max_items = None, ba_chunk_items = None\<rparr>"

definition batch_resolve :: "batch_decl \<Rightarrow> batch_config" where
  "batch_resolve d =
     \<lparr>bc_max_bytes = unwrap_or (ba_max_bytes d) DEFAULT_BATCH_MAX_BYTES,
      bc_max_items = unwrap_or (ba_max_items d) DEFAULT_BATCH_MAX_ITEMS,
      bc_chunk_items = unwrap_or (ba_chunk_items d) DEFAULT_BATCH_CHUNK_ITEMS\<rparr>"

record 'x effective_settings =
  es_tile_caps :: 'x
  es_cache_ttl_s :: u64
  es_slow_request_ms :: u64
  es_stac :: "'x option"
  es_tile_properties :: "string list"
  es_colormap :: "'x option"
  es_max_request_body_bytes :: u64
  es_tile_vertex_budget :: u64
  es_items_vertex_budget :: u64
  es_page_max_bytes :: "u64 option"
  es_max_asset_bytes :: u64
  es_asset_media_types :: "string list"
  es_batch :: batch_config
  es_protocols :: "'x option"

datatype settings_level = SL_Platform | SL_Tenant | SL_Catalog | SL_Collection

datatype settings_provenance =
    BuiltInDefault
  | Declared settings_level
  | Derived
  | Profile settings_level string

record effective_provenance =
  ep_tile_caps :: settings_provenance
  ep_cache_ttl_s :: settings_provenance
  ep_slow_request_ms :: settings_provenance
  ep_stac :: settings_provenance
  ep_tile_properties :: settings_provenance
  ep_colormap :: settings_provenance
  ep_max_request_body_bytes :: settings_provenance
  ep_tile_vertex_budget :: settings_provenance
  ep_items_vertex_budget :: settings_provenance
  ep_page_max_bytes :: settings_provenance
  ep_max_asset_bytes :: settings_provenance
  ep_asset_media_types :: settings_provenance
  ep_batch :: settings_provenance
  ep_protocols :: settings_provenance

section \<open>The chain\<close>

record 'x chain_level =
  cn_level :: settings_level
  cn_decl :: "'x settings_decl"
  cn_profile :: "(string \<times> 'x settings_decl) option"

fun resolve_field ::
  "'x chain_level list \<Rightarrow> 'a \<Rightarrow> ('x settings_decl \<Rightarrow> 'a option) \<Rightarrow> 'a \<times> settings_provenance" where
  "resolve_field [] built_in get = (built_in, BuiltInDefault)"
| "resolve_field (entry # chain) built_in get =
     (case get (cn_decl entry) of
        Some value \<Rightarrow> (value, Declared (cn_level entry))
      | None \<Rightarrow>
          (case cn_profile entry of
             None \<Rightarrow> resolve_field chain built_in get
           | Some (profile_id, profile_decl) \<Rightarrow>
               (case get profile_decl of
                  Some value \<Rightarrow> (value, Profile (cn_level entry) profile_id)
                | None \<Rightarrow> resolve_field chain built_in get)))"

definition profile_of ::
  "(string \<Rightarrow> 'x settings_decl option) \<Rightarrow> 'x settings_decl \<Rightarrow> (string \<times> 'x settings_decl) option" where
  "profile_of profiles decl =
     (case set_profile decl of
        None \<Rightarrow> None
      | Some profile_id \<Rightarrow> map_option (\<lambda>settings. (profile_id, settings)) (profiles profile_id))"

definition settings_chain ::
  "'x settings_decl \<Rightarrow> 'x settings_decl \<Rightarrow> 'x settings_decl \<Rightarrow> 'x settings_decl \<Rightarrow>
   (string \<Rightarrow> 'x settings_decl option) \<Rightarrow> 'x chain_level list" where
  "settings_chain collection catalog tenant platform profiles =
     [\<lparr>cn_level = SL_Collection, cn_decl = collection, cn_profile = profile_of profiles collection\<rparr>,
      \<lparr>cn_level = SL_Catalog, cn_decl = catalog, cn_profile = profile_of profiles catalog\<rparr>,
      \<lparr>cn_level = SL_Tenant, cn_decl = tenant, cn_profile = profile_of profiles tenant\<rparr>,
      \<lparr>cn_level = SL_Platform, cn_decl = platform, cn_profile = profile_of profiles platform\<rparr>]"

text \<open>Every key is resolved on its own: its value and where the value came from.\<close>

definition resolve_chain ::
  "'x \<Rightarrow> 'x chain_level list \<Rightarrow> 'x effective_settings \<times> effective_provenance" where
  "resolve_chain no_caps chain =
     (\<lparr>es_tile_caps = fst (resolve_field chain no_caps set_tile_caps),
       es_cache_ttl_s = fst (resolve_field chain DEFAULT_SETTINGS_CACHE_TTL_S set_cache_ttl_s),
       es_slow_request_ms = fst (resolve_field chain DEFAULT_SLOW_REQUEST_MS set_slow_request_ms),
       es_stac = fst (resolve_field chain None (\<lambda>d. map_option Some (set_stac d))),
       es_tile_properties = fst (resolve_field chain [] set_tile_properties),
       es_colormap = fst (resolve_field chain None (\<lambda>d. map_option Some (set_colormap d))),
       es_max_request_body_bytes = fst (resolve_field chain DEFAULT_MAX_REQUEST_BODY_BYTES set_max_request_body_bytes),
       es_tile_vertex_budget = fst (resolve_field chain DEFAULT_TILE_VERTEX_BUDGET set_tile_vertex_budget),
       es_items_vertex_budget = fst (resolve_field chain DEFAULT_ITEMS_VERTEX_BUDGET set_items_vertex_budget),
       es_page_max_bytes = fst (resolve_field chain None (\<lambda>d. map_option Some (set_page_max_bytes d))),
       es_max_asset_bytes = fst (resolve_field chain DEFAULT_MAX_ASSET_BYTES set_max_asset_bytes),
       es_asset_media_types = fst (resolve_field chain [] set_asset_media_types),
       es_batch = batch_resolve (unwrap_or (fst (resolve_field chain None (\<lambda>d. map_option Some (set_batch d)))) default_batch_decl),
       es_protocols = fst (resolve_field chain None (\<lambda>d. map_option Some (set_protocols d)))\<rparr>,
      \<lparr>ep_tile_caps = snd (resolve_field chain no_caps set_tile_caps),
       ep_cache_ttl_s = snd (resolve_field chain DEFAULT_SETTINGS_CACHE_TTL_S set_cache_ttl_s),
       ep_slow_request_ms = snd (resolve_field chain DEFAULT_SLOW_REQUEST_MS set_slow_request_ms),
       ep_stac = snd (resolve_field chain None (\<lambda>d. map_option Some (set_stac d))),
       ep_tile_properties = snd (resolve_field chain [] set_tile_properties),
       ep_colormap = snd (resolve_field chain None (\<lambda>d. map_option Some (set_colormap d))),
       ep_max_request_body_bytes = snd (resolve_field chain DEFAULT_MAX_REQUEST_BODY_BYTES set_max_request_body_bytes),
       ep_tile_vertex_budget = snd (resolve_field chain DEFAULT_TILE_VERTEX_BUDGET set_tile_vertex_budget),
       ep_items_vertex_budget = snd (resolve_field chain DEFAULT_ITEMS_VERTEX_BUDGET set_items_vertex_budget),
       ep_page_max_bytes = snd (resolve_field chain None (\<lambda>d. map_option Some (set_page_max_bytes d))),
       ep_max_asset_bytes = snd (resolve_field chain DEFAULT_MAX_ASSET_BYTES set_max_asset_bytes),
       ep_asset_media_types = snd (resolve_field chain [] set_asset_media_types),
       ep_batch = snd (resolve_field chain None (\<lambda>d. map_option Some (set_batch d))),
       ep_protocols = snd (resolve_field chain None (\<lambda>d. map_option Some (set_protocols d)))\<rparr>)"

definition resolve_effective_settings_with_provenance ::
  "'x \<Rightarrow> 'x settings_decl \<Rightarrow> 'x settings_decl \<Rightarrow> 'x settings_decl \<Rightarrow> 'x settings_decl \<Rightarrow>
   (string \<Rightarrow> 'x settings_decl option) \<Rightarrow> 'x effective_settings \<times> effective_provenance" where
  "resolve_effective_settings_with_provenance no_caps collection catalog tenant platform profiles =
     resolve_chain no_caps (settings_chain collection catalog tenant platform profiles)"

definition resolve_effective_settings ::
  "'x \<Rightarrow> 'x settings_decl \<Rightarrow> 'x settings_decl \<Rightarrow> 'x settings_decl \<Rightarrow> 'x settings_decl \<Rightarrow>
   (string \<Rightarrow> 'x settings_decl option) \<Rightarrow> 'x effective_settings" where
  "resolve_effective_settings no_caps collection catalog tenant platform profiles =
     fst (resolve_effective_settings_with_provenance no_caps collection catalog tenant platform profiles)"

section \<open>Materialized per collection\<close>

definition visibility_is_default :: "visibility_decl \<Rightarrow> bool" where
  "visibility_is_default v \<longleftrightarrow> \<not> vis_public v \<and> vis_shared_with v = []"

record 'x routed_settings =
  rs_tenant :: string
  rs_catalog :: string
  rs_settings :: "'x effective_settings"
  rs_provenance :: effective_provenance
  rs_visibility :: visibility_decl

text \<open>The maps by identifier are collected in order, the last declaration wins.\<close>

definition route_settings ::
  "'x \<Rightarrow> ('x collection_decl \<Rightarrow> 'x option) \<Rightarrow> 'x app_config \<Rightarrow> 'x collection_decl \<Rightarrow>
   core_error + 'x routed_settings" where
  "route_settings no_caps own_caps cfg collection =
     and_then (ok_or (List.find (\<lambda>c. ct_id c = cl_catalog collection) (rev (cfg_catalogs cfg)))
       (Config (Unknown_Reference ''collection'' (cl_id collection) ''catalog'' (cl_catalog collection)))) (\<lambda>catalog.
     and_then (ok_or (List.find (\<lambda>t. tn_id t = ct_tenant catalog) (rev (cfg_tenants cfg)))
       (Config (Unknown_Reference ''catalog'' (ct_id catalog) ''tenant'' (ct_tenant catalog)))) (\<lambda>tenant.
     let (resolved, provenance) = resolve_effective_settings_with_provenance no_caps (cl_settings collection)
           (ct_settings catalog) (tn_settings tenant) (cfg_settings cfg) (profile_settings (cfg_profiles cfg));
         (caps, caps_provenance) = (case own_caps collection of
             None \<Rightarrow> (es_tile_caps resolved, ep_tile_caps provenance)
           | Some own \<Rightarrow> (own, Derived))
     in Inr \<lparr>rs_tenant = tn_id tenant, rs_catalog = ct_id catalog,
             rs_settings = resolved\<lparr>es_tile_caps := caps\<rparr>,
             rs_provenance = provenance\<lparr>ep_tile_caps := caps_provenance\<rparr>,
             rs_visibility = (if visibility_is_default (cl_visibility collection)
               then ct_visibility catalog else cl_visibility collection)\<rparr>))"

section \<open>One key\<close>

definition field_agrees ::
  "string \<Rightarrow> 'x effective_settings \<times> effective_provenance \<Rightarrow> 'x effective_settings \<times> effective_provenance \<Rightarrow> bool" where
  "field_agrees key v w \<longleftrightarrow>
     (key = ''tile_caps'' \<longrightarrow> es_tile_caps (fst v) = es_tile_caps (fst w) \<and> ep_tile_caps (snd v) = ep_tile_caps (snd w))
     \<and> (key = ''cache_ttl_s'' \<longrightarrow> es_cache_ttl_s (fst v) = es_cache_ttl_s (fst w) \<and> ep_cache_ttl_s (snd v) = ep_cache_ttl_s (snd w))
     \<and> (key = ''slow_request_ms'' \<longrightarrow> es_slow_request_ms (fst v) = es_slow_request_ms (fst w) \<and> ep_slow_request_ms (snd v) = ep_slow_request_ms (snd w))
     \<and> (key = ''stac'' \<longrightarrow> es_stac (fst v) = es_stac (fst w) \<and> ep_stac (snd v) = ep_stac (snd w))
     \<and> (key = ''tile_properties'' \<longrightarrow> es_tile_properties (fst v) = es_tile_properties (fst w) \<and> ep_tile_properties (snd v) = ep_tile_properties (snd w))
     \<and> (key = ''colormap'' \<longrightarrow> es_colormap (fst v) = es_colormap (fst w) \<and> ep_colormap (snd v) = ep_colormap (snd w))
     \<and> (key = ''max_request_body_bytes'' \<longrightarrow> es_max_request_body_bytes (fst v) = es_max_request_body_bytes (fst w) \<and> ep_max_request_body_bytes (snd v) = ep_max_request_body_bytes (snd w))
     \<and> (key = ''tile_vertex_budget'' \<longrightarrow> es_tile_vertex_budget (fst v) = es_tile_vertex_budget (fst w) \<and> ep_tile_vertex_budget (snd v) = ep_tile_vertex_budget (snd w))
     \<and> (key = ''items_vertex_budget'' \<longrightarrow> es_items_vertex_budget (fst v) = es_items_vertex_budget (fst w) \<and> ep_items_vertex_budget (snd v) = ep_items_vertex_budget (snd w))
     \<and> (key = ''page_max_bytes'' \<longrightarrow> es_page_max_bytes (fst v) = es_page_max_bytes (fst w) \<and> ep_page_max_bytes (snd v) = ep_page_max_bytes (snd w))
     \<and> (key = ''max_asset_bytes'' \<longrightarrow> es_max_asset_bytes (fst v) = es_max_asset_bytes (fst w) \<and> ep_max_asset_bytes (snd v) = ep_max_asset_bytes (snd w))
     \<and> (key = ''asset_media_types'' \<longrightarrow> es_asset_media_types (fst v) = es_asset_media_types (fst w) \<and> ep_asset_media_types (snd v) = ep_asset_media_types (snd w))
     \<and> (key = ''batch'' \<longrightarrow> es_batch (fst v) = es_batch (fst w) \<and> ep_batch (snd v) = ep_batch (snd w))
     \<and> (key = ''protocols'' \<longrightarrow> es_protocols (fst v) = es_protocols (fst w) \<and> ep_protocols (snd v) = ep_protocols (snd w))"

text \<open>The view of an administrative node resolves with empty declarations below it.\<close>

definition node_view ::
  "'x \<Rightarrow> 'x app_config \<Rightarrow> 'x settings_decl \<Rightarrow> 'x settings_decl \<Rightarrow> 'x effective_settings \<times> effective_provenance" where
  "node_view no_caps cfg catalog tenant =
     resolve_effective_settings_with_provenance no_caps default_settings catalog tenant (cfg_settings cfg)
       (profile_settings (cfg_profiles cfg))"

section \<open>Lemmas\<close>

definition level_gives :: "('x settings_decl \<Rightarrow> 'a option) \<Rightarrow> 'x chain_level \<Rightarrow> bool" where
  "level_gives get e \<longleftrightarrow> get (cn_decl e) \<noteq> None \<or> (\<exists>i d. cn_profile e = Some (i, d) \<and> get d \<noteq> None)"

lemma resolve_field_skip: "\<not> level_gives get e \<Longrightarrow> resolve_field (e # chain) d get = resolve_field chain d get"
  by (auto simp: level_gives_def split: option.split)

text \<open>The nearest level that gives the key decides, its own declaration before its profile.\<close>

lemma resolve_field_nearest:
  "level_gives get e \<Longrightarrow> (\<forall>f \<in> set before. \<not> level_gives get f) \<Longrightarrow>
   resolve_field (before @ e # chain) d get =
     (case get (cn_decl e) of
        Some v \<Rightarrow> (v, Declared (cn_level e))
      | None \<Rightarrow> (case cn_profile e of Some (i, p) \<Rightarrow> (the (get p), Profile (cn_level e) i)
                | None \<Rightarrow> (d, BuiltInDefault)))"
proof (induction before)
  case Nil
  then show ?case by (auto simp: level_gives_def split: option.splits)
next
  case (Cons f before)
  then show ?case using resolve_field_skip [of get f "before @ e # chain" d] by simp
qed

lemma resolve_field_default: "(\<forall>f \<in> set chain. \<not> level_gives get f) \<Longrightarrow> resolve_field chain d get = (d, BuiltInDefault)"
  by (induction chain) (auto simp: level_gives_def split: option.splits)

definition level_silent :: "string \<Rightarrow> 'x chain_level \<Rightarrow> bool" where
  "level_silent key e \<longleftrightarrow> \<not> settings_declares_key (cn_decl e) key
     \<and> (\<forall>i d. cn_profile e = Some (i, d) \<longrightarrow> \<not> settings_declares_key d key)"

lemma resolve_field_drop:
  "\<not> level_gives get e \<Longrightarrow> resolve_field (before @ e # chain) d get = resolve_field (before @ chain) d get"
  by (induction before) (auto simp: level_gives_def split: option.split)

lemma level_gives_Some [simp]: "level_gives (\<lambda>d. map_option Some (get d)) e = level_gives get e"
  by (simp add: level_gives_def)

lemma drop_parts:
  assumes "\<not> level_gives get e"
  shows "fst (resolve_field (before @ e # chain) d get) = fst (resolve_field (before @ chain) d get)"
    and "snd (resolve_field (before @ e # chain) d get) = snd (resolve_field (before @ chain) d get)"
  by (simp_all add: resolve_field_drop [OF assms])

lemma drop_batch:
  assumes "\<not> level_gives get e"
  shows "batch_resolve (unwrap_or (fst (resolve_field (before @ e # chain) d get)) b)
    = batch_resolve (unwrap_or (fst (resolve_field (before @ chain) d get)) b)"
  by (simp add: resolve_field_drop [OF assms])

lemma silent_gives:
  assumes "level_silent key e"
  shows "key = ''tile_caps'' \<Longrightarrow> \<not> level_gives set_tile_caps e"
    "key = ''cache_ttl_s'' \<Longrightarrow> \<not> level_gives set_cache_ttl_s e"
    "key = ''slow_request_ms'' \<Longrightarrow> \<not> level_gives set_slow_request_ms e"
    "key = ''stac'' \<Longrightarrow> \<not> level_gives set_stac e"
    "key = ''tile_properties'' \<Longrightarrow> \<not> level_gives set_tile_properties e"
    "key = ''colormap'' \<Longrightarrow> \<not> level_gives set_colormap e"
    "key = ''max_request_body_bytes'' \<Longrightarrow> \<not> level_gives set_max_request_body_bytes e"
    "key = ''tile_vertex_budget'' \<Longrightarrow> \<not> level_gives set_tile_vertex_budget e"
    "key = ''items_vertex_budget'' \<Longrightarrow> \<not> level_gives set_items_vertex_budget e"
    "key = ''page_max_bytes'' \<Longrightarrow> \<not> level_gives set_page_max_bytes e"
    "key = ''max_asset_bytes'' \<Longrightarrow> \<not> level_gives set_max_asset_bytes e"
    "key = ''asset_media_types'' \<Longrightarrow> \<not> level_gives set_asset_media_types e"
    "key = ''batch'' \<Longrightarrow> \<not> level_gives set_batch e"
    "key = ''protocols'' \<Longrightarrow> \<not> level_gives set_protocols e"
  using assms by (simp_all add: level_silent_def level_gives_def settings_declares_key_def)

lemma field_agrees_refl [simp]: "field_agrees key v v"
  by (simp add: field_agrees_def)

lemma field_agrees_sym: "field_agrees key v w \<Longrightarrow> field_agrees key w v"
  unfolding field_agrees_def by metis

lemma field_agrees_trans: "field_agrees key u v \<Longrightarrow> field_agrees key v w \<Longrightarrow> field_agrees key u w"
  unfolding field_agrees_def by metis

lemma resolve_chain_fields:
  "es_tile_caps (fst (resolve_chain no_caps chain)) = fst (resolve_field chain no_caps set_tile_caps)"
  "ep_tile_caps (snd (resolve_chain no_caps chain)) = snd (resolve_field chain no_caps set_tile_caps)"
  "es_cache_ttl_s (fst (resolve_chain no_caps chain)) = fst (resolve_field chain DEFAULT_SETTINGS_CACHE_TTL_S set_cache_ttl_s)"
  "ep_cache_ttl_s (snd (resolve_chain no_caps chain)) = snd (resolve_field chain DEFAULT_SETTINGS_CACHE_TTL_S set_cache_ttl_s)"
  "es_slow_request_ms (fst (resolve_chain no_caps chain)) = fst (resolve_field chain DEFAULT_SLOW_REQUEST_MS set_slow_request_ms)"
  "ep_slow_request_ms (snd (resolve_chain no_caps chain)) = snd (resolve_field chain DEFAULT_SLOW_REQUEST_MS set_slow_request_ms)"
  "es_stac (fst (resolve_chain no_caps chain)) = fst (resolve_field chain None (\<lambda>d. map_option Some (set_stac d)))"
  "ep_stac (snd (resolve_chain no_caps chain)) = snd (resolve_field chain None (\<lambda>d. map_option Some (set_stac d)))"
  "es_tile_properties (fst (resolve_chain no_caps chain)) = fst (resolve_field chain [] set_tile_properties)"
  "ep_tile_properties (snd (resolve_chain no_caps chain)) = snd (resolve_field chain [] set_tile_properties)"
  "es_colormap (fst (resolve_chain no_caps chain)) = fst (resolve_field chain None (\<lambda>d. map_option Some (set_colormap d)))"
  "ep_colormap (snd (resolve_chain no_caps chain)) = snd (resolve_field chain None (\<lambda>d. map_option Some (set_colormap d)))"
  "es_max_request_body_bytes (fst (resolve_chain no_caps chain)) = fst (resolve_field chain DEFAULT_MAX_REQUEST_BODY_BYTES set_max_request_body_bytes)"
  "ep_max_request_body_bytes (snd (resolve_chain no_caps chain)) = snd (resolve_field chain DEFAULT_MAX_REQUEST_BODY_BYTES set_max_request_body_bytes)"
  "es_tile_vertex_budget (fst (resolve_chain no_caps chain)) = fst (resolve_field chain DEFAULT_TILE_VERTEX_BUDGET set_tile_vertex_budget)"
  "ep_tile_vertex_budget (snd (resolve_chain no_caps chain)) = snd (resolve_field chain DEFAULT_TILE_VERTEX_BUDGET set_tile_vertex_budget)"
  "es_items_vertex_budget (fst (resolve_chain no_caps chain)) = fst (resolve_field chain DEFAULT_ITEMS_VERTEX_BUDGET set_items_vertex_budget)"
  "ep_items_vertex_budget (snd (resolve_chain no_caps chain)) = snd (resolve_field chain DEFAULT_ITEMS_VERTEX_BUDGET set_items_vertex_budget)"
  "es_page_max_bytes (fst (resolve_chain no_caps chain)) = fst (resolve_field chain None (\<lambda>d. map_option Some (set_page_max_bytes d)))"
  "ep_page_max_bytes (snd (resolve_chain no_caps chain)) = snd (resolve_field chain None (\<lambda>d. map_option Some (set_page_max_bytes d)))"
  "es_max_asset_bytes (fst (resolve_chain no_caps chain)) = fst (resolve_field chain DEFAULT_MAX_ASSET_BYTES set_max_asset_bytes)"
  "ep_max_asset_bytes (snd (resolve_chain no_caps chain)) = snd (resolve_field chain DEFAULT_MAX_ASSET_BYTES set_max_asset_bytes)"
  "es_asset_media_types (fst (resolve_chain no_caps chain)) = fst (resolve_field chain [] set_asset_media_types)"
  "ep_asset_media_types (snd (resolve_chain no_caps chain)) = snd (resolve_field chain [] set_asset_media_types)"
  "es_batch (fst (resolve_chain no_caps chain)) = batch_resolve (unwrap_or (fst (resolve_field chain None (\<lambda>d. map_option Some (set_batch d)))) default_batch_decl)"
  "ep_batch (snd (resolve_chain no_caps chain)) = snd (resolve_field chain None (\<lambda>d. map_option Some (set_batch d)))"
  "es_protocols (fst (resolve_chain no_caps chain)) = fst (resolve_field chain None (\<lambda>d. map_option Some (set_protocols d)))"
  "ep_protocols (snd (resolve_chain no_caps chain)) = snd (resolve_field chain None (\<lambda>d. map_option Some (set_protocols d)))"
  by (simp_all add: resolve_chain_def)

lemma resolve_chain_drop:
  assumes "level_silent key e"
  shows "field_agrees key (resolve_chain no_caps (before @ e # chain)) (resolve_chain no_caps (before @ chain))"
  unfolding field_agrees_def resolve_chain_fields
  by (intro conjI impI; rule drop_parts drop_batch; (unfold level_gives_Some)?; erule silent_gives [OF assms])

lemma silent_level:
  "\<not> settings_provides_key s key profiles \<Longrightarrow>
   level_silent key \<lparr>cn_level = l, cn_decl = s, cn_profile = profile_of (profile_settings profiles) s\<rparr>"
  by (auto simp: settings_provides_key_def level_silent_def profile_of_def split: if_splits option.splits)

lemma chain_agrees:
  "\<not> settings_provides_key s key profiles \<Longrightarrow> field_agrees key
     (resolve_effective_settings_with_provenance no_caps s c t p (profile_settings profiles))
     (resolve_effective_settings_with_provenance no_caps default_settings c t p (profile_settings profiles))"
  "\<not> settings_provides_key c key profiles \<Longrightarrow> field_agrees key
     (resolve_effective_settings_with_provenance no_caps s c t p (profile_settings profiles))
     (resolve_effective_settings_with_provenance no_caps s default_settings t p (profile_settings profiles))"
  "\<not> settings_provides_key t key profiles \<Longrightarrow> field_agrees key
     (resolve_effective_settings_with_provenance no_caps s c t p (profile_settings profiles))
     (resolve_effective_settings_with_provenance no_caps s c default_settings p (profile_settings profiles))"
proof -
  have empty: "\<not> settings_provides_key default_settings key profiles" for key
    by (simp add: settings_provides_key_def settings_declares_key_def default_settings_def)
  have swap: "field_agrees key
      (resolve_chain no_caps (before @ \<lparr>cn_level = l, cn_decl = s, cn_profile = profile_of (profile_settings profiles) s\<rparr> # rest))
      (resolve_chain no_caps (before @ \<lparr>cn_level = l, cn_decl = default_settings,
          cn_profile = profile_of (profile_settings profiles) default_settings\<rparr> # rest))"
    if "\<not> settings_provides_key s key profiles" for s l before rest
    using resolve_chain_drop [OF silent_level [OF that]] resolve_chain_drop [OF silent_level [OF empty]]
    by (metis field_agrees_trans field_agrees_sym)
  note chain = resolve_effective_settings_with_provenance_def settings_chain_def
  show "\<not> settings_provides_key s key profiles \<Longrightarrow> field_agrees key
     (resolve_effective_settings_with_provenance no_caps s c t p (profile_settings profiles))
     (resolve_effective_settings_with_provenance no_caps default_settings c t p (profile_settings profiles))"
    unfolding chain using swap [where before = "[]"] by simp
  show "\<not> settings_provides_key c key profiles \<Longrightarrow> field_agrees key
     (resolve_effective_settings_with_provenance no_caps s c t p (profile_settings profiles))
     (resolve_effective_settings_with_provenance no_caps s default_settings t p (profile_settings profiles))"
    unfolding chain using swap [where before = "[e]" for e] by simp
  show "\<not> settings_provides_key t key profiles \<Longrightarrow> field_agrees key
     (resolve_effective_settings_with_provenance no_caps s c t p (profile_settings profiles))
     (resolve_effective_settings_with_provenance no_caps s c default_settings p (profile_settings profiles))"
    unfolding chain using swap [where before = "[e, f]" for e f] by simp
qed

lemma find_rev_unique:
  assumes "distinct (map f xs)" "x \<in> set xs"
  shows "List.find (\<lambda>y. f y = f x) (rev xs) = Some x"
proof -
  have "List.find (\<lambda>y. f y = f x) (rev xs) \<noteq> None" using assms(2) by (auto simp: find_None_iff)
  then obtain y where y: "List.find (\<lambda>y. f y = f x) (rev xs) = Some y" by blast
  then obtain i where "i < length (rev xs)" "y = rev xs ! i" "f y = f x" by (auto simp: find_Some_iff)
  then have "y \<in> set xs" "f y = f x" using nth_mem [of i "rev xs"] by simp_all
  with assms show ?thesis using y by (metis distinct_map inj_onD)
qed

lemma accepted_collection_owners:
  assumes "app_config_validate env cfg = Inr ()" "k \<in> set (cfg_collections cfg)"
  obtains c t where "c \<in> set (cfg_catalogs cfg)" "cl_catalog k = ct_id c" "t \<in> set (cfg_tenants cfg)" "ct_tenant c = tn_id t"
    "List.find (\<lambda>c. ct_id c = cl_catalog k) (rev (cfg_catalogs cfg)) = Some c"
    "List.find (\<lambda>t. tn_id t = ct_tenant c) (rev (cfg_tenants cfg)) = Some t"
proof -
  have wf: "tenants_ok (cfg_tenants cfg)" "catalogs_ok (tn_id ` set (cfg_tenants cfg)) (cfg_catalogs cfg)"
    "collections_ok (tn_id ` set (cfg_tenants cfg)) (ct_id ` set (cfg_catalogs cfg)) (st_id ` set (cfg_storages cfg))
      (cfg_collections cfg)"
    using accepted_config_well_formed [OF assms(1)] by (simp_all add: well_formed_config_def)
  from wf(3) assms(2) obtain c where c: "c \<in> set (cfg_catalogs cfg)" "cl_catalog k = ct_id c"
    by (auto simp: collections_ok_def)
  from wf(2) c(1) obtain t where t: "t \<in> set (cfg_tenants cfg)" "ct_tenant c = tn_id t"
    by (auto simp: catalogs_ok_def)
  from that [OF c t] find_rev_unique [of ct_id "cfg_catalogs cfg" c] find_rev_unique [of tn_id "cfg_tenants cfg" t] wf c t
  show ?thesis by (simp add: tenants_ok_def catalogs_ok_def)
qed

section \<open>Properties\<close>

lemma final_keys_pin:
  fixes no_caps
  assumes "final_keys_respected cfg" "k \<in> set (cfg_collections cfg)"
    and "c \<in> set (cfg_catalogs cfg)" "cl_catalog k = ct_id c" "t \<in> set (cfg_tenants cfg)" "ct_tenant c = tn_id t"
  defines "full \<equiv> resolve_effective_settings_with_provenance no_caps (cl_settings k) (ct_settings c) (tn_settings t)
    (cfg_settings cfg) (profile_settings (cfg_profiles cfg))"
  shows "(key \<in> set (set_final_keys (cfg_settings cfg)) \<longrightarrow>
       field_agrees key full (node_view no_caps cfg default_settings default_settings))
    \<and> (key \<in> set (set_final_keys (tn_settings t)) \<longrightarrow>
       field_agrees key full (node_view no_caps cfg default_settings (tn_settings t)))
    \<and> (key \<in> set (set_final_keys (ct_settings c)) \<longrightarrow>
       field_agrees key full (node_view no_caps cfg (ct_settings c) (tn_settings t)))"
proof -
  let ?full = "resolve_effective_settings_with_provenance no_caps (cl_settings k) (ct_settings c) (tn_settings t)
    (cfg_settings cfg) (profile_settings (cfg_profiles cfg))"
  from assms(1-6) have final:
    "key \<in> set (set_final_keys (cfg_settings cfg)) \<union> set (set_final_keys (tn_settings t)) \<union> set (set_final_keys (ct_settings c))
       \<Longrightarrow> \<not> settings_provides_key (cl_settings k) key (cfg_profiles cfg)"
    "key \<in> set (set_final_keys (cfg_settings cfg)) \<union> set (set_final_keys (tn_settings t))
       \<Longrightarrow> \<not> settings_provides_key (ct_settings c) key (cfg_profiles cfg)"
    "key \<in> set (set_final_keys (cfg_settings cfg)) \<Longrightarrow> \<not> settings_provides_key (tn_settings t) key (cfg_profiles cfg)" for key
    unfolding final_keys_respected_def Let_def respects_final_def by blast+
  show ?thesis
    unfolding node_view_def full_def
  proof (intro conjI impI)
    assume k: "key \<in> set (set_final_keys (ct_settings c))"
    show "field_agrees key ?full (resolve_effective_settings_with_provenance no_caps default_settings (ct_settings c)
        (tn_settings t) (cfg_settings cfg) (profile_settings (cfg_profiles cfg)))"
      by (rule chain_agrees(1) [OF final(1)]) (use k in simp)
  next
    assume k: "key \<in> set (set_final_keys (tn_settings t))"
    show "field_agrees key ?full (resolve_effective_settings_with_provenance no_caps default_settings default_settings
        (tn_settings t) (cfg_settings cfg) (profile_settings (cfg_profiles cfg)))"
      by (rule field_agrees_trans [OF chain_agrees(1) [OF final(1)] chain_agrees(2) [OF final(2)]]) (use k in simp_all)
  next
    assume k: "key \<in> set (set_final_keys (cfg_settings cfg))"
    show "field_agrees key ?full (resolve_effective_settings_with_provenance no_caps default_settings default_settings
        default_settings (cfg_settings cfg) (profile_settings (cfg_profiles cfg)))"
      by (rule field_agrees_trans [OF chain_agrees(1) [OF final(1)]
            field_agrees_trans [OF chain_agrees(2) [OF final(2)] chain_agrees(3) [OF final(3)]]]) (use k in simp_all)
  qed
qed

text \<open>
  C29. A final settings key is pinned: in an accepted document every collection is routed, and for a
  key that the platform, its tenant or its catalog declared final the value it is served with, and
  the recorded provenance, are those of the declaring node, as if every level below had declared
  nothing. The exception is \<open>tile_caps\<close> of a collection with caps of its own in \<open>tiles.caps\<close>.
\<close>

theorem final_key_pins_effective_value:
  assumes "app_config_validate env cfg = Inr ()" "k \<in> set (cfg_collections cfg)"
  shows "\<exists>c t r. c \<in> set (cfg_catalogs cfg) \<and> cl_catalog k = ct_id c \<and> t \<in> set (cfg_tenants cfg) \<and> ct_tenant c = tn_id t
     \<and> route_settings no_caps own_caps cfg k = Inr r \<and> rs_tenant r = tn_id t \<and> rs_catalog r = ct_id c
     \<and> (\<forall>key. (key = ''tile_caps'' \<longrightarrow> own_caps k = None) \<longrightarrow>
         (key \<in> set (set_final_keys (cfg_settings cfg)) \<longrightarrow>
            field_agrees key (rs_settings r, rs_provenance r) (node_view no_caps cfg default_settings default_settings))
         \<and> (key \<in> set (set_final_keys (tn_settings t)) \<longrightarrow>
            field_agrees key (rs_settings r, rs_provenance r) (node_view no_caps cfg default_settings (tn_settings t)))
         \<and> (key \<in> set (set_final_keys (ct_settings c)) \<longrightarrow>
            field_agrees key (rs_settings r, rs_provenance r) (node_view no_caps cfg (ct_settings c) (tn_settings t))))"
proof -
  obtain c t where o: "c \<in> set (cfg_catalogs cfg)" "cl_catalog k = ct_id c" "t \<in> set (cfg_tenants cfg)" "ct_tenant c = tn_id t"
    "List.find (\<lambda>c. ct_id c = cl_catalog k) (rev (cfg_catalogs cfg)) = Some c"
    "List.find (\<lambda>t. tn_id t = ct_tenant c) (rev (cfg_tenants cfg)) = Some t"
    by (rule accepted_collection_owners [OF assms])
  let ?full = "resolve_effective_settings_with_provenance no_caps (cl_settings k) (ct_settings c) (tn_settings t)
    (cfg_settings cfg) (profile_settings (cfg_profiles cfg))"
  define r where "r = \<lparr>rs_tenant = tn_id t, rs_catalog = ct_id c,
     rs_settings = (fst ?full)\<lparr>es_tile_caps := (case own_caps k of None \<Rightarrow> es_tile_caps (fst ?full) | Some own \<Rightarrow> own)\<rparr>,
     rs_provenance = (snd ?full)\<lparr>ep_tile_caps := (case own_caps k of None \<Rightarrow> ep_tile_caps (snd ?full) | Some own \<Rightarrow> Derived)\<rparr>,
     rs_visibility = (if visibility_is_default (cl_visibility k) then ct_visibility c else cl_visibility k)\<rparr>"
  have route: "route_settings no_caps own_caps cfg k = Inr r"
    using o(5,6) by (simp add: route_settings_def r_def case_prod_unfold Let_def split: option.split)
  have own: "field_agrees key (rs_settings r, rs_provenance r) ?full" if "key = ''tile_caps'' \<longrightarrow> own_caps k = None" for key
    using that by (simp add: r_def field_agrees_def split: option.split)
  note pinned = final_keys_pin [OF accepted_config_respects_final [OF assms(1)] assms(2) o(1-4), of _ no_caps]
  have fields: "rs_tenant r = tn_id t" "rs_catalog r = ct_id c" by (simp_all add: r_def)
  have agrees: "field_agrees key (rs_settings r, rs_provenance r) w"
    if "key = ''tile_caps'' \<longrightarrow> own_caps k = None" "field_agrees key ?full w" for key w
    using field_agrees_trans [OF own that(2)] that(1) by blast
  show ?thesis
    by (intro exI [of _ c] exI [of _ t] exI [of _ r] conjI allI impI o(1-4) route fields agrees)
      (use pinned in blast)+
qed

definition capped_config :: "unit app_config" where
  "capped_config = sample_config
     \<lparr>cfg_settings := default_settings\<lparr>set_tile_caps := Some (), set_cache_ttl_s := Some 60,
        set_final_keys := [''tile_caps'', ''cache_ttl_s'']\<rparr>\<rparr>"

lemma capped_config_valid: "app_config_validate sample_env capped_config = Inr ()"
  by code_simp

lemma capped_collection: "sample_collection ''k1'' ''c1'' \<in> set (cfg_collections capped_config)"
  by (simp add: capped_config_def sample_config_def)

theorem final_key_pins_effective_value_witness:
  "\<exists>r. route_settings () (\<lambda>_. None) capped_config (sample_collection ''k1'' ''c1'') = Inr r
     \<and> es_cache_ttl_s (rs_settings r) = 60 \<and> ep_cache_ttl_s (rs_provenance r) = Declared SL_Platform"
proof -
  obtain c t r where "route_settings () (\<lambda>_. None) capped_config (sample_collection ''k1'' ''c1'') = Inr r"
    "\<forall>key \<in> set (set_final_keys (cfg_settings capped_config)).
       field_agrees key (rs_settings r, rs_provenance r) (node_view () capped_config default_settings default_settings)"
    using final_key_pins_effective_value [OF capped_config_valid capped_collection, of "()" "\<lambda>_. None"] by auto
  moreover have "''cache_ttl_s'' \<in> set (set_final_keys (cfg_settings capped_config))" by (simp add: capped_config_def)
  moreover have "es_cache_ttl_s (fst (node_view () capped_config default_settings default_settings)) = 60
     \<and> ep_cache_ttl_s (snd (node_view () capped_config default_settings default_settings)) = Declared SL_Platform"
    by code_simp
  ultimately show ?thesis by (auto simp: field_agrees_def)
qed

text \<open>
  The exception is real: this document declares \<open>tile_caps\<close> final at the platform and is accepted,
  yet a collection with \<open>tiles.caps\<close> of its own is served with those.
\<close>

lemma own_caps_override_final:
  "app_config_validate sample_env capped_config = Inr ()
   \<and> ''tile_caps'' \<in> set (set_final_keys (cfg_settings capped_config))
   \<and> (\<exists>r. route_settings () (\<lambda>_. Some ()) capped_config (sample_collection ''k1'' ''c1'') = Inr r
        \<and> ep_tile_caps (rs_provenance r) = Derived)"
proof -
  have "case route_settings () (\<lambda>_. Some ()) capped_config (sample_collection ''k1'' ''c1'') of
      Inl _ \<Rightarrow> False | Inr r \<Rightarrow> ep_tile_caps (rs_provenance r) = Derived" by code_simp
  then show ?thesis using capped_config_valid by (auto simp: capped_config_def split: sum.splits)
qed

end
