(* ===== verification/Batch_Lane.thy ===== *)
theory Batch_Lane
  imports Json_Sequence Settings Fingerprint
begin

text \<open>
  The batch ingest lane: \<open>stage_batch_feature\<close> of \<open>crates/tellurion-core/src/batch.rs\<close> and
  \<open>run_batch\<close> with its staging and its tail report of
  \<open>crates/tellurion-features/src/batch_handlers.rs\<close>. The source of items is what \<open>Json_Sequence\<close> shows
  a reader to yield: the items and the way the body ended. The backend (\<open>WriteSink::apply_batch\<close>), the
  geometry parser and the schema of the collection are arguments; counters and indexes, 64-bit in the code,
  are natural numbers. A client that stays connected is assumed: when it goes away the run stops.
\<close>

section \<open>Staging one feature\<close>

datatype ('e, 'b) batch_error =
    Not_Json "'e malformed"
  | Not_An_Object
  | Not_A_Feature
  | Bbox_Not_Array
  | Bbox_Length
  | Bbox_Not_Finite
  | Missing_Geometry
  | Bad_Geometry 'b
  | Missing_Properties
  | Properties_Not_Object
  | Missing_Id
  | Schema_Refused 'b
  | Backend 'b

record 'b stage_env =
  sv_geometry :: "json \<Rightarrow> 'b + unit"
  sv_schema :: "((string \<times> json) list \<Rightarrow> 'b + unit) option"
  sv_finite :: "string \<Rightarrow> bool"

record mutation =
  mu_feature_id :: string
  mu_upsert :: json

definition json_get :: "json \<Rightarrow> string \<Rightarrow> json option" where
  "json_get value key = (case value of JObject members \<Rightarrow> map_of members key | _ \<Rightarrow> None)"

definition validate_geojson_bbox :: "'b stage_env \<Rightarrow> json \<Rightarrow> ('e, 'b) batch_error + unit" where
  "validate_geojson_bbox env value =
     (case json_get value ''bbox'' of
        None \<Rightarrow> Inr ()
      | Some (JArray values) \<Rightarrow>
          and_then (ensure (length values = 4 \<or> length values = 6) Bbox_Length) (\<lambda>_.
          ensure (list_all (\<lambda>v. case v of JNumber n \<Rightarrow> sv_finite env n | _ \<Rightarrow> False) values) Bbox_Not_Finite)
      | Some _ \<Rightarrow> Inl Bbox_Not_Array)"

definition feature_id_of :: "json \<Rightarrow> string option" where
  "feature_id_of value =
     (case json_get value ''id'' of Some (JString i) \<Rightarrow> Some i | Some (JNumber n) \<Rightarrow> Some n | _ \<Rightarrow> None)"

definition stage_batch_feature ::
  "'b stage_env \<Rightarrow> json \<Rightarrow> (string option \<times> ('e, 'b) batch_error) + mutation" where
  "stage_batch_feature env value =
     (case value of
        JObject _ \<Rightarrow>
          and_then (ensure (json_get value ''type'' = Some (JString ''Feature'')) (None, Not_A_Feature)) (\<lambda>_.
          and_then (map_err (Pair None) (validate_geojson_bbox env value)) (\<lambda>_.
          and_then (case json_get value ''geometry'' of
              None \<Rightarrow> Inl (None, Missing_Geometry)
            | Some JNull \<Rightarrow> Inr ()
            | Some geometry \<Rightarrow> map_err (\<lambda>error. (None, Bad_Geometry error)) (sv_geometry env geometry)) (\<lambda>_.
          and_then (case json_get value ''properties'' of
              None \<Rightarrow> Inl (None, Missing_Properties)
            | Some JNull \<Rightarrow> Inr []
            | Some (JObject members) \<Rightarrow> Inr members
            | Some _ \<Rightarrow> Inl (None, Properties_Not_Object)) (\<lambda>properties.
          and_then (ok_or (feature_id_of value) (None, Missing_Id)) (\<lambda>feature_id.
          and_then (case sv_schema env of
              None \<Rightarrow> Inr ()
            | Some schema \<Rightarrow> map_err (\<lambda>error. (Some feature_id, Schema_Refused error)) (schema properties)) (\<lambda>_.
          Inr \<lparr>mu_feature_id = feature_id, mu_upsert = value\<rparr>))))))
      | _ \<Rightarrow> Inl (None, Not_An_Object))"

section \<open>The source\<close>

text \<open>The items a source still has, and how it ends; a source that has ended stays ended.\<close>

type_synonym 'e source = "('e, json) sequence_item list \<times> body_end"

fun source_next :: "'e source \<Rightarrow> ('e, json) reader_item \<times> 'e source" where
  "source_next (item # items, e) = (to_next item, (items, e))"
| "source_next ([], e) = (end_item e, ([], Body_Ends))"

record ('e, 'b) staged_entry =
  sg_index :: nat
  sg_feature_id :: "string option"
  sg_kind :: "('e, 'b) batch_error + mutation"

record ('e, 'b) chunk_staging =
  ck_entries :: "('e, 'b) staged_entry list"
  ck_source_exhausted :: bool
  ck_termination :: "body_end option"

definition stage_item ::
  "'b stage_env \<Rightarrow> ('e, json) sequence_item \<Rightarrow> nat \<Rightarrow> ('e, 'b) staged_entry" where
  "stage_item env item index =
     (case item of
        Malformed reason \<Rightarrow> \<lparr>sg_index = index, sg_feature_id = None, sg_kind = Inl (Not_Json reason)\<rparr>
      | Value value \<Rightarrow>
          (case stage_batch_feature env value of
             Inr mutation \<Rightarrow> \<lparr>sg_index = index, sg_feature_id = Some (mu_feature_id mutation), sg_kind = Inr mutation\<rparr>
           | Inl (feature_id, error) \<Rightarrow> \<lparr>sg_index = index, sg_feature_id = feature_id, sg_kind = Inl error\<rparr>))"

definition chunk_ended :: "body_end \<Rightarrow> ('e, 'b) chunk_staging" where
  "chunk_ended e = \<lparr>ck_entries = [], ck_source_exhausted = True,
     ck_termination = (case e of Body_Ends \<Rightarrow> None | _ \<Rightarrow> Some e)\<rparr>"

fun stage_chunk ::
  "'b stage_env \<Rightarrow> bool \<Rightarrow> nat \<Rightarrow> 'e source \<Rightarrow> nat \<Rightarrow> ('e, 'b) chunk_staging \<times> 'e source \<times> nat" where
  "stage_chunk env strict 0 source next_index =
     (\<lparr>ck_entries = [], ck_source_exhausted = False, ck_termination = None\<rparr>, source, next_index)"
| "stage_chunk env strict (Suc n) ([], e) next_index = (chunk_ended e, ([], Body_Ends), next_index)"
| "stage_chunk env strict (Suc n) (item # items, e) next_index =
     (let entry = stage_item env item next_index in
      if (case sg_kind entry of Inl _ \<Rightarrow> strict | Inr _ \<Rightarrow> False)
      then (\<lparr>ck_entries = [entry], ck_source_exhausted = False, ck_termination = None\<rparr>, (items, e), next_index + 1)
      else (let (staging, source, next_index) = stage_chunk env strict n (items, e) (next_index + 1)
            in (staging\<lparr>ck_entries := entry # ck_entries staging\<rparr>, source, next_index)))"

section \<open>Outcomes\<close>

datatype ('e, 'b) outcome_line =
    Applied_Line (line_index: nat) string u64
  | Refused_Line (line_index: nat) "string option" "('e, 'b) batch_error"
  | Unapplied_Line (line_index: nat) "string option"

datatype 'b item_outcome = Applied u64 | Refused 'b

datatype terminal_condition = Complete | Strict_Refusal | Item_Limit | Byte_Limit | Transport_Failed | Chunk_Error

text \<open>The counters of \<open>run_batch\<close> with the lines sent so far.\<close>

record ('e, 'b) batch_run =
  br_lines :: "('e, 'b) outcome_line list"
  br_applied :: nat
  br_refused :: nat
  br_unapplied :: nat
  br_strict_aborted :: bool
  br_terminal :: terminal_condition
  br_input_complete :: bool
  br_unknown_tail :: bool
  br_high_water :: "u64 option"

definition run_start :: "('e, 'b) batch_run" where
  "run_start = \<lparr>br_lines = [], br_applied = 0, br_refused = 0, br_unapplied = 0, br_strict_aborted = False,
     br_terminal = Complete, br_input_complete = True, br_unknown_tail = False, br_high_water = None\<rparr>"

definition send_unapplied :: "nat \<Rightarrow> string option \<Rightarrow> ('e, 'b) batch_run \<Rightarrow> ('e, 'b) batch_run" where
  "send_unapplied index feature_id run =
     run\<lparr>br_lines := br_lines run @ [Unapplied_Line index feature_id], br_unapplied := br_unapplied run + 1\<rparr>"

definition send_refused ::
  "bool \<Rightarrow> nat \<Rightarrow> string option \<Rightarrow> ('e, 'b) batch_error \<Rightarrow> ('e, 'b) batch_run \<Rightarrow> ('e, 'b) batch_run" where
  "send_refused abort index feature_id error run =
     run\<lparr>br_lines := br_lines run @ [Refused_Line index feature_id error], br_refused := br_refused run + 1,
         br_strict_aborted := (br_strict_aborted run \<or> abort)\<rparr>"

definition send_applied :: "nat \<Rightarrow> string option \<Rightarrow> u64 \<Rightarrow> ('e, 'b) batch_run \<Rightarrow> ('e, 'b) batch_run" where
  "send_applied index feature_id sequence run =
     run\<lparr>br_lines := br_lines run @ [Applied_Line index (case feature_id of Some i \<Rightarrow> i | None \<Rightarrow> []) sequence],
         br_applied := br_applied run + 1,
         br_high_water := Some (case br_high_water run of None \<Rightarrow> sequence | Some current \<Rightarrow> max current sequence)\<rparr>"

text \<open>
  The entries of a chunk against the outcomes of the backend: \<open>results\<close> holds those of the mutations
  still to come, in order.
\<close>

fun report_chunk ::
  "bool \<Rightarrow> bool \<Rightarrow> ('e, 'b) staged_entry list \<Rightarrow> 'b item_outcome list \<Rightarrow> ('e, 'b) batch_run \<Rightarrow> ('e, 'b) batch_run" where
  "report_chunk strict stop [] results run = run"
| "report_chunk strict stop (entry # entries) results run =
     (if stop then
        report_chunk strict True entries (case sg_kind entry of Inr _ \<Rightarrow> tl results | Inl _ \<Rightarrow> results)
          (send_unapplied (sg_index entry) (sg_feature_id entry) run)
      else (case sg_kind entry of
          Inl error \<Rightarrow>
            report_chunk strict strict entries results
              (send_refused strict (sg_index entry) (sg_feature_id entry) error run)
        | Inr _ \<Rightarrow>
            (case results of
               Applied sequence # results \<Rightarrow>
                 report_chunk strict False entries results (send_applied (sg_index entry) (sg_feature_id entry) sequence run)
             | Refused error # results \<Rightarrow>
                 report_chunk strict strict entries results
                   (send_refused strict (sg_index entry) (sg_feature_id entry) (Backend error) run)
             | [] \<Rightarrow>
                 report_chunk strict False entries []
                   ((send_unapplied (sg_index entry) (sg_feature_id entry) run)\<lparr>br_strict_aborted := True\<rparr>))))"

text \<open>The transaction of the chunk failed: nothing of it is applied.\<close>

fun report_failed_chunk :: "('e, 'b) staged_entry list \<Rightarrow> ('e, 'b) batch_run \<Rightarrow> ('e, 'b) batch_run" where
  "report_failed_chunk [] run = run"
| "report_failed_chunk (entry # entries) run =
     report_failed_chunk entries
       (case sg_kind entry of
          Inr _ \<Rightarrow> send_unapplied (sg_index entry) (sg_feature_id entry) run
        | Inl error \<Rightarrow> send_refused False (sg_index entry) (sg_feature_id entry) error run)"

definition item_id :: "('e, json) sequence_item \<Rightarrow> string option" where
  "item_id item = (case item of Value value \<Rightarrow> feature_id_of value | Malformed _ \<Rightarrow> None)"

definition cut_off :: "terminal_condition \<Rightarrow> ('e, 'b) batch_run \<Rightarrow> ('e, 'b) batch_run" where
  "cut_off condition run = run\<lparr>br_terminal := condition, br_input_complete := False, br_unknown_tail := True\<rparr>"

definition end_condition :: "body_end \<Rightarrow> terminal_condition" where
  "end_condition e = (case e of Over_Budget \<Rightarrow> Byte_Limit | Broken \<Rightarrow> Transport_Failed | Body_Ends \<Rightarrow> Complete)"

text \<open>The item budget is used up: one more item ends the run with the item limit.\<close>

fun over_item_budget :: "'e source \<Rightarrow> nat \<Rightarrow> ('e, 'b) batch_run \<Rightarrow> ('e, 'b) batch_run" where
  "over_item_budget ([], e) next_index run =
     (case e of Body_Ends \<Rightarrow> run | _ \<Rightarrow> cut_off (end_condition e) run)"
| "over_item_budget (item # items, e) next_index run =
     cut_off Item_Limit (send_unapplied next_index (item_id item) run)"

text \<open>The rest of a body after a strict refusal; \<open>budget\<close> is what is left of the item budget.\<close>

fun report_unapplied_tail ::
  "nat \<Rightarrow> 'e source \<Rightarrow> nat \<Rightarrow> ('e, 'b) batch_run \<Rightarrow> ('e, 'b) batch_run" where
  "report_unapplied_tail budget ([], e) next_index run =
     (case e of
        Body_Ends \<Rightarrow> run\<lparr>br_input_complete := True, br_unknown_tail := False\<rparr>
      | _ \<Rightarrow> cut_off (end_condition e) run)"
| "report_unapplied_tail 0 (item # items, e) next_index run =
     cut_off Item_Limit (send_unapplied next_index (item_id item) run)"
| "report_unapplied_tail (Suc budget) (item # items, e) next_index run =
     report_unapplied_tail budget (items, e) (next_index + 1) (send_unapplied next_index (item_id item) run)"

section \<open>The run\<close>

text \<open>\<open>apply_batch k\<close> is the backend at the \<open>k\<close>-th transaction.\<close>

lemma stage_chunk_progress:
  "(staging, source', next_index') = stage_chunk env strict n source next_index \<Longrightarrow>
   n \<noteq> 0 \<Longrightarrow> \<not> ck_source_exhausted staging \<Longrightarrow> 0 < length (ck_entries staging)"
  by (cases "(env, strict, n, source, next_index)" rule: stage_chunk.cases)
    (auto simp: chunk_ended_def Let_def split: if_splits prod.splits)

function run_chunks ::
  "'b stage_env \<Rightarrow> (nat \<Rightarrow> mutation list \<Rightarrow> bool \<Rightarrow> 'b + 'b item_outcome list) \<Rightarrow> bool \<Rightarrow> batch_config \<Rightarrow> nat \<Rightarrow>
   'e source \<Rightarrow> nat \<Rightarrow> nat \<Rightarrow> ('e, 'b) batch_run \<Rightarrow> ('e, 'b) batch_run" where
  "run_chunks env apply_batch strict cfg transactions source next_index items_seen run =
     (let max_items = unat (bc_max_items cfg) in
      if items_seen \<ge> max_items then over_item_budget source next_index run
      else
        (let chunk_items = min (unat (bc_chunk_items cfg)) (min (max_items - items_seen) (2 ^ 32 - 1)) in
         if chunk_items = 0 then run
         else
           (case stage_chunk env strict chunk_items source next_index of (staging, source, next_index) \<Rightarrow>
            let items_seen = items_seen + length (ck_entries staging);
                run = (case ck_termination staging of None \<Rightarrow> run | Some e \<Rightarrow> cut_off (end_condition e) run);
                mutations = List.map_filter (\<lambda>entry. ok (sg_kind entry)) (ck_entries staging) in
            case (if mutations = [] then Inr [] else apply_batch transactions mutations strict) of
              Inl error \<Rightarrow>
                (let run = report_failed_chunk (ck_entries staging) run in
                 run\<lparr>br_terminal := Chunk_Error,
                     br_input_complete := br_input_complete run \<and> ck_source_exhausted staging,
                     br_unknown_tail := br_unknown_tail run \<or> \<not> ck_source_exhausted staging\<rparr>)
            | Inr results \<Rightarrow>
                (let run = report_chunk strict False (ck_entries staging) results run in
                 if br_strict_aborted run then
                   (let run = run\<lparr>br_terminal := Strict_Refusal\<rparr> in
                    if ck_source_exhausted staging then run
                    else report_unapplied_tail (max_items - items_seen) source next_index run)
                 else if ck_source_exhausted staging then run
                 else run_chunks env apply_batch strict cfg
                        (if mutations = [] then transactions else transactions + 1) source next_index items_seen run))))"
  by pat_completeness auto
termination
proof (relation "measure (\<lambda>(env, apply_batch, strict, cfg, k, source, i, items_seen, run). unat (bc_max_items cfg) - items_seen)")
  show "wf (measure (\<lambda>(env, apply_batch, strict, cfg, k, source, i, items_seen, run). unat (bc_max_items cfg) - items_seen))"
    by simp
qed (auto intro!: diff_less_mono2 less_add_same_cancel1 [THEN iffD2] dest: stage_chunk_progress)

declare run_chunks.simps [simp del]

definition run_batch ::
  "'b stage_env \<Rightarrow> (nat \<Rightarrow> mutation list \<Rightarrow> bool \<Rightarrow> 'b + 'b item_outcome list) \<Rightarrow> bool \<Rightarrow> batch_config \<Rightarrow>
   'e source \<Rightarrow> ('e, 'b) batch_run" where
  "run_batch env apply_batch strict cfg source = run_chunks env apply_batch strict cfg 0 source 0 0 run_start"

section \<open>Every item has its line\<close>

fun is_applied :: "('e, 'b) outcome_line \<Rightarrow> bool" where
  "is_applied (Applied_Line _ _ _) = True" | "is_applied _ = False"

fun is_refused :: "('e, 'b) outcome_line \<Rightarrow> bool" where
  "is_refused (Refused_Line _ _ _) = True" | "is_refused _ = False"

fun is_unapplied :: "('e, 'b) outcome_line \<Rightarrow> bool" where
  "is_unapplied (Unapplied_Line _ _) = True" | "is_unapplied _ = False"

text \<open>What a line may say of its item.\<close>

fun line_fits :: "'b stage_env \<Rightarrow> ('e, json) sequence_item \<Rightarrow> ('e, 'b) outcome_line \<Rightarrow> bool" where
  "line_fits env item (Applied_Line i feature_id sequence) \<longleftrightarrow>
     (\<exists>m. sg_kind (stage_item env item i :: ('e, 'b) staged_entry) = Inr m \<and> mu_feature_id m = feature_id)"
| "line_fits env item (Refused_Line i feature_id error) \<longleftrightarrow>
     (case sg_kind (stage_item env item i) of Inl error' \<Rightarrow> error = error' | Inr m \<Rightarrow> \<exists>b. error = Backend b)"
| "line_fits env item (Unapplied_Line i feature_id) \<longleftrightarrow> True"

definition accounted :: "'b stage_env \<Rightarrow> ('e, json) sequence_item list \<Rightarrow> ('e, 'b) batch_run \<Rightarrow> bool" where
  "accounted env seen run \<longleftrightarrow>
     map line_index (br_lines run) = [0..<length seen] \<and> list_all2 (line_fits env) seen (br_lines run)
     \<and> br_applied run = length (filter is_applied (br_lines run))
     \<and> br_refused run = length (filter is_refused (br_lines run))
     \<and> br_unapplied run = length (filter is_unapplied (br_lines run))"

text \<open>In strict mode nothing is applied behind a refusal.\<close>

definition stops :: "bool \<Rightarrow> ('e, 'b) batch_run \<Rightarrow> bool" where
  "stops strict run \<longleftrightarrow>
     (strict \<longrightarrow> sorted_wrt (\<lambda>a b. is_refused a \<longrightarrow> \<not> is_applied b) (br_lines run)
        \<and> (br_strict_aborted run \<or> list_all (\<lambda>l. \<not> is_refused l) (br_lines run)))"

lemma stage_item_fits:
  "sg_index (stage_item env item i) = i"
  "sg_kind (stage_item env item i) = Inr m \<Longrightarrow> sg_feature_id (stage_item env item i) = Some (mu_feature_id m)"
  by (auto simp: stage_item_def split: sequence_item.splits sum.splits)

lemma accounted_unapplied:
  "accounted env seen run \<Longrightarrow> accounted env (seen @ [item]) (send_unapplied (length seen) i run)"
  by (simp add: accounted_def send_unapplied_def list_all2_appendI)

lemma accounted_refused:
  assumes "accounted env seen run" "line_fits env item (Refused_Line (length seen) i error)"
  shows "accounted env (seen @ [item]) (send_refused abort (length seen) i error run)"
  using assms by (simp add: accounted_def send_refused_def list_all2_appendI)

lemma accounted_applied:
  assumes "accounted env seen run" "sg_kind (stage_item env item (length seen)) = Inr m"
  shows "accounted env (seen @ [item])
    (send_applied (length seen) (sg_feature_id (stage_item env item (length seen))) s run)"
  using assms stage_item_fits(2) [OF assms(2)]
  by (simp add: accounted_def send_applied_def list_all2_appendI)

lemma accounted_flags [simp]:
  "accounted env seen (run\<lparr>br_terminal := t\<rparr>) = accounted env seen run"
  "accounted env seen (run\<lparr>br_input_complete := c\<rparr>) = accounted env seen run"
  "accounted env seen (run\<lparr>br_unknown_tail := c\<rparr>) = accounted env seen run"
  "accounted env seen (run\<lparr>br_strict_aborted := c\<rparr>) = accounted env seen run"
  "accounted env seen (cut_off t run) = accounted env seen run"
  by (simp_all add: accounted_def cut_off_def)

lemma stops_flags [simp]:
  "stops strict (run\<lparr>br_terminal := t\<rparr>) = stops strict run"
  "stops strict (run\<lparr>br_input_complete := c\<rparr>) = stops strict run"
  "stops strict (run\<lparr>br_unknown_tail := c\<rparr>) = stops strict run"
  "stops strict (cut_off t run) = stops strict run"
  by (simp_all add: stops_def cut_off_def)

lemma stops_unapplied: "stops strict run \<Longrightarrow> stops strict (send_unapplied n i run)"
  by (simp add: stops_def send_unapplied_def sorted_wrt_append)

lemma stops_refused: "stops strict run \<Longrightarrow> stops strict (send_refused strict n i error run)"
  by (auto simp: stops_def send_refused_def sorted_wrt_append)

lemma stops_abort: "stops strict run \<Longrightarrow> stops strict (run\<lparr>br_strict_aborted := True\<rparr>)"
  by (simp add: stops_def)

lemma aborted_sends [simp]:
  "br_strict_aborted (send_unapplied n i run) = br_strict_aborted run"
  "br_strict_aborted (send_refused abort n i error run) = (br_strict_aborted run \<or> abort)"
  "br_strict_aborted (send_applied n i s run) = br_strict_aborted run"
  by (simp_all add: send_unapplied_def send_refused_def send_applied_def)

lemma stops_applied: "stops strict run \<Longrightarrow> \<not> br_strict_aborted run \<Longrightarrow> stops strict (send_applied n i s run)"
  by (auto simp: stops_def send_applied_def sorted_wrt_append list_all_iff)

definition staged :: "'b stage_env \<Rightarrow> nat \<Rightarrow> ('e, json) sequence_item list \<Rightarrow> ('e, 'b) staged_entry list" where
  "staged env i items = map2 (stage_item env) items [i..<i + length items]"

lemma staged_Nil [simp]: "staged env i [] = []"
  by (simp add: staged_def)

lemma staged_Cons [simp]: "staged env i (item # items) = stage_item env item i # staged env (Suc i) items"
  by (simp add: staged_def upt_conv_Cons del: upt_Suc)

lemma stage_chunk_staged:
  "stage_chunk env strict n (items, e) i = (staging, source, i') \<Longrightarrow>
   \<exists>chunk rest. items = chunk @ rest \<and> ck_entries staging = staged env i chunk \<and> i' = i + length chunk \<and> length chunk \<le> n
     \<and> (if ck_source_exhausted staging
        then rest = [] \<and> ck_termination staging = (case e of Body_Ends \<Rightarrow> None | _ \<Rightarrow> Some e)
        else source = (rest, e) \<and> ck_termination staging = None)"
proof (induction n arbitrary: items i staging source i')
  case 0
  then show ?case by auto
next
  case (Suc n)
  show ?case
  proof (cases items)
    case Nil
    with Suc.prems show ?thesis by (auto simp: chunk_ended_def)
  next
    case (Cons item its)
    show ?thesis
    proof (cases "case sg_kind (stage_item env item i :: ('a, 'b) staged_entry) of Inl _ \<Rightarrow> strict | Inr _ \<Rightarrow> False")
      case True
      with Suc.prems Cons show ?thesis by (intro exI [of _ "[item]"] exI [of _ its]) (auto simp: Let_def)
    next
      case False
      obtain st so j where r: "stage_chunk env strict n (its, e) (i + 1) = (st, so, j)"
        by (cases "stage_chunk env strict n (its, e) (i + 1)") auto
      from Suc.IH [OF r] obtain chunk rest where c: "its = chunk @ rest" "ck_entries st = staged env (i + 1) chunk"
        "j = i + 1 + length chunk" "length chunk \<le> n"
        "if ck_source_exhausted st then rest = [] \<and> ck_termination st = (case e of Body_Ends \<Rightarrow> None | _ \<Rightarrow> Some e)
         else so = (rest, e) \<and> ck_termination st = None" by blast
      from Suc.prems Cons False r have "staging = st\<lparr>ck_entries := stage_item env item i # ck_entries st\<rparr>" "source = so" "i' = j"
        by (auto simp: Let_def split: if_splits)
      with c Cons show ?thesis by (intro exI [of _ "item # chunk"] exI [of _ rest]) (auto split: if_splits)
    qed
  qed
qed

lemma report_chunk_accounted:
  "accounted env seen run \<Longrightarrow> accounted env (seen @ chunk) (report_chunk strict stop (staged env (length seen) chunk) results run)"
proof (induction chunk arbitrary: seen stop results run)
  case (Cons item chunk)
  let ?e = "stage_item env item (length seen)"
  note IH = Cons.IH [of "seen @ [item]", simplified]
  show ?case
  proof (cases stop)
    case True
    then show ?thesis using IH [OF accounted_unapplied [OF Cons.prems]] by (simp add: stage_item_fits(1))
  next
    case False
    show ?thesis
    proof (cases "sg_kind ?e")
      case (Inl error)
      then show ?thesis using False IH [OF accounted_refused [OF Cons.prems, of item]]
        by (simp add: stage_item_fits(1))
    next
      case (Inr m)
      note applied = IH [OF accounted_applied [OF Cons.prems Inr]] and refused = IH [OF accounted_refused [OF Cons.prems, of item]]
        and unapplied = accounted_unapplied [OF Cons.prems, of item]
      show ?thesis
      proof (cases results)
        case Nil
        then show ?thesis using False Inr unapplied by (simp add: stage_item_fits(1) IH)
      next
        case (Cons outcome results)
        then show ?thesis using False Inr applied refused by (cases outcome) (simp_all add: stage_item_fits(1))
      qed
    qed
  qed
qed simp

lemma report_failed_chunk_accounted:
  "accounted env seen run \<Longrightarrow> accounted env (seen @ chunk) (report_failed_chunk (staged env (length seen) chunk) run)"
proof (induction chunk arbitrary: seen run)
  case (Cons item chunk)
  note IH = Cons.IH [of "seen @ [item]", simplified]
  show ?case
    using IH [OF accounted_unapplied [OF Cons.prems]] IH [OF accounted_refused [OF Cons.prems, of item]]
    by (simp add: stage_item_fits(1) split: sum.split)
qed simp


lemma report_unapplied_tail_accounted:
  "accounted env seen run \<Longrightarrow> stops strict run \<Longrightarrow>
   \<exists>more rest. items = more @ rest \<and> length more \<le> budget + 1
     \<and> accounted env (seen @ more) (report_unapplied_tail budget (items, e) (length seen) run)
     \<and> stops strict (report_unapplied_tail budget (items, e) (length seen) run)
     \<and> br_applied (report_unapplied_tail budget (items, e) (length seen) run) = br_applied run
     \<and> (br_input_complete (report_unapplied_tail budget (items, e) (length seen) run) \<longrightarrow> rest = [] \<and> e = Body_Ends)"
proof (induction items arbitrary: budget seen run)
  case Nil
  then show ?case by (cases e) (auto simp: cut_off_def)
next
  case (Cons item items)
  note unapplied = accounted_unapplied [OF Cons.prems(1), of item "item_id item"] stops_unapplied [OF Cons.prems(2)]
  show ?case
  proof (cases budget)
    case 0
    with unapplied show ?thesis
      by (intro exI [of _ "[item]"] exI [of _ items]) (simp add: cut_off_def send_unapplied_def)
  next
    case (Suc b)
    from Cons.IH [OF unapplied(1) unapplied(2), of b] obtain more rest where
      m: "items = more @ rest" "length more \<le> b + 1"
      "accounted env ((seen @ [item]) @ more) (report_unapplied_tail b (items, e) (length (seen @ [item]))
         (send_unapplied (length seen) (item_id item) run))"
      "stops strict (report_unapplied_tail b (items, e) (length (seen @ [item])) (send_unapplied (length seen) (item_id item) run))"
      "br_applied (report_unapplied_tail b (items, e) (length (seen @ [item])) (send_unapplied (length seen) (item_id item) run))
         = br_applied (send_unapplied (length seen) (item_id item) run)"
      "br_input_complete (report_unapplied_tail b (items, e) (length (seen @ [item]))
         (send_unapplied (length seen) (item_id item) run)) \<longrightarrow> rest = [] \<and> e = Body_Ends" by metis
    with Suc show ?thesis
      by (intro exI [of _ "item # more"] exI [of _ rest]) (simp add: send_unapplied_def)
  qed
qed

lemma report_chunk_stops:
  "stops strict run \<Longrightarrow> (br_strict_aborted run \<longrightarrow> stop \<or> results = []) \<Longrightarrow> stops strict (report_chunk strict stop entries results run)"
proof (induction entries arbitrary: stop results run)
  case (Cons entry entries)
  show ?case
  proof (cases stop)
    case True
    then show ?thesis using Cons.IH [OF stops_unapplied [OF Cons.prems(1)]] by simp
  next
    case False
    show ?thesis
      using False Cons.prems
      by (auto intro!: Cons.IH stops_refused stops_applied stops_unapplied stops_abort
          split: sum.split list.split item_outcome.split)
  qed
qed simp

definition nothing_behind_refusal :: "bool \<Rightarrow> ('e, 'b) batch_run \<Rightarrow> bool" where
  "nothing_behind_refusal strict run \<longleftrightarrow>
     (strict \<longrightarrow> sorted_wrt (\<lambda>a b. is_refused a \<longrightarrow> \<not> is_applied b) (br_lines run))"

lemma stops_nothing_behind: "stops strict run \<Longrightarrow> nothing_behind_refusal strict run"
  by (simp add: stops_def nothing_behind_refusal_def)

lemma report_failed_chunk_lines:
  "\<exists>ls. br_lines (report_failed_chunk entries run) = br_lines run @ ls \<and> list_all (\<lambda>l. \<not> is_applied l) ls
     \<and> br_applied (report_failed_chunk entries run) = br_applied run"
proof (induction entries arbitrary: run)
  case (Cons entry entries)
  define run' where "run' = (case sg_kind entry of
      Inr _ \<Rightarrow> send_unapplied (sg_index entry) (sg_feature_id entry) run
    | Inl error \<Rightarrow> send_refused False (sg_index entry) (sg_feature_id entry) error run)"
  have "\<exists>l. br_lines run' = br_lines run @ [l] \<and> \<not> is_applied l \<and> br_applied run' = br_applied run"
    by (simp add: run'_def send_unapplied_def send_refused_def split: sum.split)
  with Cons.IH [of run'] show ?case by (fastforce simp: run'_def)
qed simp

lemma report_failed_chunk_stops:
  assumes "stops strict run"
  shows "nothing_behind_refusal strict (report_failed_chunk entries run)"
proof -
  obtain ls where "br_lines (report_failed_chunk entries run) = br_lines run @ ls" "list_all (\<lambda>l. \<not> is_applied l) ls"
    using report_failed_chunk_lines [of entries run] by blast
  moreover from this(2) have "sorted_wrt (\<lambda>a b. is_refused a \<longrightarrow> \<not> is_applied b) ls"
    by (induction ls) (auto simp: list_all_iff)
  ultimately show ?thesis
    using assms by (auto simp: nothing_behind_refusal_def stops_def sorted_wrt_append list_all_iff)
qed

lemma report_chunk_complete [simp]:
  "br_input_complete (report_chunk strict stop entries results run) = br_input_complete run"
  by (induction strict stop entries results run rule: report_chunk.induct)
    (auto simp: send_unapplied_def send_refused_def send_applied_def split: sum.split list.split item_outcome.split)

lemma report_failed_chunk_complete: "br_input_complete (report_failed_chunk entries run) = br_input_complete run"
  by (induction entries run rule: report_failed_chunk.induct) (simp_all add: send_unapplied_def send_refused_def split: sum.split)

lemma accounted_applied_le: "accounted env seen run \<Longrightarrow> br_applied run \<le> length seen"
  unfolding accounted_def by (metis length_filter_le length_map length_upt minus_nat.diff_0)

lemma nothing_behind_flags [simp]:
  "nothing_behind_refusal strict (run\<lparr>br_terminal := t\<rparr>) = nothing_behind_refusal strict run"
  "nothing_behind_refusal strict (run\<lparr>br_input_complete := c\<rparr>) = nothing_behind_refusal strict run"
  "nothing_behind_refusal strict (run\<lparr>br_unknown_tail := c\<rparr>) = nothing_behind_refusal strict run"
  by (simp_all add: nothing_behind_refusal_def)

text \<open>The state of the loop, and what is left when it ends.\<close>

definition loop_ok :: "'b stage_env \<Rightarrow> bool \<Rightarrow> nat \<Rightarrow> ('e, json) sequence_item list \<Rightarrow> ('e, 'b) batch_run \<Rightarrow> bool" where
  "loop_ok env strict max_items seen run \<longleftrightarrow>
     accounted env seen run \<and> stops strict run \<and> \<not> br_strict_aborted run \<and> length seen \<le> max_items"

definition run_ok ::
  "'b stage_env \<Rightarrow> bool \<Rightarrow> nat \<Rightarrow> ('e, json) sequence_item list \<Rightarrow> 'e source \<Rightarrow> ('e, 'b) batch_run \<Rightarrow> bool" where
  "run_ok env strict max_items seen source r \<longleftrightarrow>
     (\<exists>extra rest. fst source = extra @ rest \<and> accounted env (seen @ extra) r \<and> nothing_behind_refusal strict r
        \<and> br_applied r \<le> max_items \<and> length (seen @ extra) \<le> max_items + 1
        \<and> (br_input_complete r \<longrightarrow> rest = [] \<and> snd source = Body_Ends))"

lemma run_okI:
  "items = extra @ rest \<Longrightarrow> accounted env (seen @ extra) r \<Longrightarrow> nothing_behind_refusal strict r \<Longrightarrow>
   br_applied r \<le> max_items \<Longrightarrow> length (seen @ extra) \<le> max_items + 1 \<Longrightarrow>
   (br_input_complete r \<Longrightarrow> rest = [] \<and> e = Body_Ends) \<Longrightarrow> run_ok env strict max_items seen (items, e) r"
  by (auto simp: run_ok_def)

lemma nothing_behind_cut_off [simp]: "nothing_behind_refusal strict (cut_off t run) = nothing_behind_refusal strict run"
  by (simp add: nothing_behind_refusal_def cut_off_def)

lemma over_item_budget_ok:
  assumes "loop_ok env strict max_items seen run"
  shows "run_ok env strict max_items seen (items, e) (over_item_budget (items, e) (length seen) run)"
proof (cases items)
  case Nil
  with assms accounted_applied_le [of env seen run] show ?thesis
    by (cases e) (auto simp: loop_ok_def stops_nothing_behind cut_off_def intro!: run_okI [where extra = "[]"])
next
  case (Cons item rest)
  let ?r = "send_unapplied (length seen) (item_id item) run"
  have "accounted env (seen @ [item]) ?r" "nothing_behind_refusal strict ?r" "br_applied ?r \<le> length seen" "length seen \<le> max_items"
    using assms accounted_applied_le [of env seen run] accounted_unapplied [of env seen run]
      stops_nothing_behind [OF stops_unapplied]
    by (auto simp: loop_ok_def send_unapplied_def)
  with Cons show ?thesis
    by (intro run_okI [where extra = "[item]" and rest = rest]) (simp_all add: cut_off_def [of _ ?r])
qed

lemma run_ok_later:
  assumes "run_ok env strict max_items (seen @ chunk) (rest, e) r" "items = chunk @ rest"
  shows "run_ok env strict max_items seen (items, e) r"
proof -
  from assms(1) obtain extra rest' where "rest = extra @ rest'" "accounted env ((seen @ chunk) @ extra) r" "nothing_behind_refusal strict r"
    "br_applied r \<le> max_items" "length ((seen @ chunk) @ extra) \<le> max_items + 1"
    "br_input_complete r \<longrightarrow> rest' = [] \<and> e = Body_Ends" by (auto simp: run_ok_def)
  with assms(2) show ?thesis by (intro run_okI [where extra = "chunk @ extra" and rest = rest']) simp_all
qed

text \<open>One round of the loop, over what it stages.\<close>

lemma run_chunks_step:
  assumes "items_seen < unat (bc_max_items cfg)"
    and "n = min (unat (bc_chunk_items cfg)) (min (unat (bc_max_items cfg) - items_seen) (2 ^ 32 - 1))" "n \<noteq> 0"
    and "stage_chunk env strict n source next_index = (staging, source', i')"
    and "run1 = (case ck_termination staging of None \<Rightarrow> run | Some e \<Rightarrow> cut_off (end_condition e) run)"
    and "mutations = List.map_filter (\<lambda>entry. ok (sg_kind entry)) (ck_entries staging)"
    and "answer = (if mutations = [] then Inr [] else apply_batch transactions mutations strict)"
  shows "run_chunks env apply_batch strict cfg transactions source next_index items_seen run =
    (case answer of
       Inl error \<Rightarrow>
         (report_failed_chunk (ck_entries staging) run1)\<lparr>br_terminal := Chunk_Error,
           br_input_complete := br_input_complete (report_failed_chunk (ck_entries staging) run1) \<and> ck_source_exhausted staging,
           br_unknown_tail := br_unknown_tail (report_failed_chunk (ck_entries staging) run1) \<or> \<not> ck_source_exhausted staging\<rparr>
     | Inr results \<Rightarrow>
         (let run2 = report_chunk strict False (ck_entries staging) results run1 in
          if br_strict_aborted run2 then
            (if ck_source_exhausted staging then run2\<lparr>br_terminal := Strict_Refusal\<rparr>
             else report_unapplied_tail (unat (bc_max_items cfg) - (items_seen + length (ck_entries staging))) source' i'
               (run2\<lparr>br_terminal := Strict_Refusal\<rparr>))
          else if ck_source_exhausted staging then run2
          else run_chunks env apply_batch strict cfg (if mutations = [] then transactions else transactions + 1)
            source' i' (items_seen + length (ck_entries staging)) run2))"
proof -
  have n: "min (unat (bc_chunk_items cfg)) (min (unat (bc_max_items cfg) - items_seen) (2 ^ 32 - 1)) = n" "\<not> unat (bc_max_items cfg) \<le> items_seen"
    using assms(1,2) by simp_all
  show ?thesis
    unfolding assms(5-7)
    by (subst run_chunks.simps) (simp only: Let_def n assms(3,4) if_False prod.case)
qed

lemma run_chunks_ok:
  "loop_ok env strict (unat (bc_max_items cfg)) seen run \<Longrightarrow> source = (items, e) \<Longrightarrow> next_index = length seen \<Longrightarrow>
   items_seen = length seen \<Longrightarrow> bc_chunk_items cfg \<noteq> 0 \<Longrightarrow>
   run_ok env strict (unat (bc_max_items cfg)) seen (items, e)
     (run_chunks env apply_batch strict cfg transactions source next_index items_seen run)"
proof (induction env apply_batch strict cfg transactions source next_index items_seen run
    arbitrary: seen items rule: run_chunks.induct)
  case (1 env apply_batch strict cfg transactions source next_index items_seen run)
  let ?max = "unat (bc_max_items cfg)"
  let ?r = "run_chunks env apply_batch strict cfg transactions source next_index items_seen run"
  from 1(2) have l: "accounted env seen run" "stops strict run" "\<not> br_strict_aborted run" "length seen \<le> ?max"
    by (simp_all add: loop_ok_def)
  show ?case
  proof (cases "items_seen \<ge> ?max")
    case True
    then show ?thesis using over_item_budget_ok [OF 1(2)] 1(3-5) by (simp add: run_chunks.simps)
  next
    case within: False
    define n where "n = min (unat (bc_chunk_items cfg)) (min (?max - items_seen) (2 ^ 32 - 1))"
    have "unat (bc_chunk_items cfg) \<noteq> 0" using 1(6) by (simp add: unsigned_eq_0_iff)
    with within have n: "n \<noteq> 0" by (simp add: n_def)
    obtain staging source' i' where st: "stage_chunk env strict n source next_index = (staging, source', i')"
      by (cases "stage_chunk env strict n source next_index") auto
    obtain chunk rest where c: "items = chunk @ rest" "ck_entries staging = staged env (length seen) chunk"
      "i' = length seen + length chunk" "length chunk \<le> n"
      "if ck_source_exhausted staging then rest = [] \<and> ck_termination staging = (case e of Body_Ends \<Rightarrow> None | _ \<Rightarrow> Some e)
       else source' = (rest, e) \<and> ck_termination staging = None"
      using stage_chunk_staged [OF st [unfolded 1(3,4)]] by blast
    have len: "length (ck_entries staging) = length chunk" by (simp add: c(2) staged_def)
    have "n \<le> ?max - length seen" using 1(5) by (simp add: n_def)
    with c(4) l(4) have fits: "length (seen @ chunk) \<le> ?max" by simp
    define run1 where "run1 = (case ck_termination staging of None \<Rightarrow> run | Some e \<Rightarrow> cut_off (end_condition e) run)"
    have run1: "accounted env seen run1" "stops strict run1" "\<not> br_strict_aborted run1"
      "br_input_complete run1 \<longrightarrow> ck_source_exhausted staging \<longrightarrow> rest = [] \<and> e = Body_Ends"
      using l c(5) by (auto simp: run1_def cut_off_def split: option.split body_end.splits if_splits)
    define mutations where "mutations = List.map_filter (\<lambda>entry. ok (sg_kind entry)) (ck_entries staging)"
    define answer where "answer = (if mutations = [] then Inr [] else apply_batch transactions mutations strict)"
    note step = run_chunks_step [where apply_batch = apply_batch and transactions = transactions and items_seen = items_seen, OF _ n_def n st run1_def mutations_def answer_def]
    show ?thesis
    proof (cases answer)
      case (Inl error)
      let ?f = "report_failed_chunk (ck_entries staging) run1"
      have r: "?r = ?f\<lparr>br_terminal := Chunk_Error,
                     br_input_complete := br_input_complete ?f \<and> ck_source_exhausted staging,
                     br_unknown_tail := br_unknown_tail ?f \<or> \<not> ck_source_exhausted staging\<rparr>"
        using step within Inl by simp
      have f: "accounted env (seen @ chunk) ?f" unfolding c(2) by (rule report_failed_chunk_accounted [OF run1(1)])
      have "br_input_complete ?f = br_input_complete run1" by (rule report_failed_chunk_complete)
      with f report_failed_chunk_stops [OF run1(2)] accounted_applied_le [OF f] fits run1(4) c(1) show ?thesis
        unfolding r by (intro run_okI [where extra = chunk and rest = rest]) auto
    next
      case (Inr results)
      define run2 where "run2 = report_chunk strict False (ck_entries staging) results run1"
      have run2: "accounted env (seen @ chunk) run2" "stops strict run2"
        unfolding run2_def c(2) using report_chunk_accounted [OF run1(1)] report_chunk_stops [OF run1(2)] run1(3) by auto
      note bound = accounted_applied_le [OF run2(1)]
      show ?thesis
      proof (cases "br_strict_aborted run2")
        case aborted: True
        let ?s = "run2\<lparr>br_terminal := Strict_Refusal\<rparr>"
        have r: "?r = (if ck_source_exhausted staging then ?s
            else report_unapplied_tail (?max - (items_seen + length chunk)) source' i' ?s)"
          using step within Inr aborted by (simp add: Let_def run2_def [symmetric] len)
        show ?thesis
        proof (cases "ck_source_exhausted staging")
          case True
          with r run2 bound fits run1(4) c(1) show ?thesis
            by (intro run_okI [where extra = chunk and rest = rest]) (auto simp: stops_nothing_behind run2_def)
        next
          case False
          have s: "accounted env (seen @ chunk) ?s" "stops strict ?s" using run2 by simp_all
          have tail: "?r = report_unapplied_tail (?max - (items_seen + length chunk)) (rest, e) (length (seen @ chunk)) ?s"
            using r c(3,5) False by simp
          from report_unapplied_tail_accounted [OF s, of rest "?max - (items_seen + length chunk)" e, folded tail]
          obtain extra rest' where
            m: "rest = extra @ rest'" "length extra \<le> ?max - (items_seen + length chunk) + 1"
            "accounted env ((seen @ chunk) @ extra) ?r" "stops strict ?r" "br_applied ?r = br_applied ?s"
            "br_input_complete ?r \<longrightarrow> rest' = [] \<and> e = Body_Ends" by blast
          have "length ((seen @ chunk) @ extra) \<le> ?max + 1" "br_applied ?r \<le> ?max"
            using m(2,5) bound fits 1(5) by simp_all
          with m c(1) show ?thesis
            by (intro run_okI [where extra = "chunk @ extra" and rest = rest']) (simp_all add: stops_nothing_behind)
        qed
      next
        case going: False
        show ?thesis
        proof (cases "ck_source_exhausted staging")
          case True
          have r: "?r = run2"
            using step within Inr going True by (simp add: Let_def run2_def [symmetric] len)
          with run2 bound fits run1(4) c(1) True show ?thesis
            by (intro run_okI [where extra = chunk and rest = rest]) (auto simp: stops_nothing_behind run2_def)
        next
          case False
          let ?t = "if mutations = [] then transactions else transactions + 1"
          have r: "?r = run_chunks env apply_batch strict cfg ?t source' i' (items_seen + length chunk) run2"
            using step within Inr going False by (simp add: Let_def run2_def [symmetric] len)
          have "\<not> ?max \<le> items_seen" using within by simp
          note IH = 1(1) [OF refl this n_def n st [symmetric] refl refl run1_def mutations_def
              Inr [unfolded answer_def] run2_def going False]
          have "loop_ok env strict ?max (seen @ chunk) run2" "source' = (rest, e)" "i' = length (seen @ chunk)"
            "items_seen + length (ck_entries staging) = length (seen @ chunk)"
            using run2 going fits c(3,5) 1(5) len False by (simp_all add: loop_ok_def)
          from IH [OF this 1(6)] have "run_ok env strict ?max (seen @ chunk) (rest, e) ?r"
            unfolding r len .
          from run_ok_later [OF this c(1)] show ?thesis .
        qed
      qed
    qed
  qed
qed

lemma run_start_ok: "loop_ok env strict max_items [] run_start"
  by (simp add: loop_ok_def accounted_def stops_def run_start_def)

lemma run_batch_ok:
  "bc_chunk_items cfg \<noteq> 0 \<Longrightarrow>
   run_ok env strict (unat (bc_max_items cfg)) [] (items, e) (run_batch env apply_batch strict cfg (items, e))"
  unfolding run_batch_def by (rule run_chunks_ok [OF run_start_ok]) simp_all

lemma resolved_chunk_not_zero: "ba_chunk_items b \<noteq> Some 0 \<Longrightarrow> bc_chunk_items (batch_resolve b) \<noteq> 0"
  by (auto simp: batch_resolve_def unwrap_or_def DEFAULT_BATCH_CHUNK_ITEMS_def split: option.split)

text \<open>
  C25. Whatever the backend answers, a batch run under a declaration the configuration accepts answers
  the items it reads one line each, in order and numbered from 0: an applied line for an item that was
  staged under that id, a refused line with the error of the staging or of the backend, or an unapplied
  line. The three counters are the numbers of those lines. It reads at most one item more than the item
  budget and applies no more than the budget, in strict mode nothing is applied behind a refusal, and a
  run that reports its input complete has answered every item of a body that ended properly.\<close>

theorem every_batch_item_has_one_line:
  fixes env :: "'b stage_env" and items :: "('e, json) sequence_item list"
    and apply_batch :: "nat \<Rightarrow> mutation list \<Rightarrow> bool \<Rightarrow> 'b + 'b item_outcome list" and strict :: bool and e :: body_end
  assumes "ba_chunk_items decl \<noteq> Some 0"
  defines "cfg \<equiv> batch_resolve decl"
  defines "r \<equiv> run_batch env apply_batch strict cfg (items, e)"
  shows "\<exists>n\<le>length items.
    map line_index (br_lines r) = [0..<n] \<and> list_all2 (line_fits env) (take n items) (br_lines r)
    \<and> br_applied r = length (filter is_applied (br_lines r))
    \<and> br_refused r = length (filter is_refused (br_lines r))
    \<and> br_unapplied r = length (filter is_unapplied (br_lines r))
    \<and> br_applied r \<le> unat (bc_max_items cfg) \<and> n \<le> unat (bc_max_items cfg) + 1
    \<and> (strict \<longrightarrow> sorted_wrt (\<lambda>a b. is_refused a \<longrightarrow> \<not> is_applied b) (br_lines r))
    \<and> (br_input_complete r \<longrightarrow> n = length items \<and> e = Body_Ends)"
proof -
  have "run_ok env strict (unat (bc_max_items cfg)) [] (items, e) r"
    unfolding r_def cfg_def by (rule run_batch_ok [OF resolved_chunk_not_zero [OF assms(1)]])
  then obtain done_items rest where d: "items = done_items @ rest" "accounted env done_items r"
    "nothing_behind_refusal strict r" "br_applied r \<le> unat (bc_max_items cfg)"
    "length done_items \<le> unat (bc_max_items cfg) + 1" "br_input_complete r \<longrightarrow> rest = [] \<and> e = Body_Ends"
    by (auto simp: run_ok_def)
  then show ?thesis
    by (intro exI [of _ "length done_items"]) (simp add: accounted_def nothing_behind_refusal_def)
qed

text \<open>A strict run over three features in chunks of two: the backend refuses the second one.\<close>

definition sample_batch_env :: "string stage_env" where
  "sample_batch_env = \<lparr>sv_geometry = (\<lambda>_. Inr ()), sv_schema = None, sv_finite = (\<lambda>_. True)\<rparr>"

definition sample_feature :: "string \<Rightarrow> json" where
  "sample_feature i = JObject [(''type'', JString ''Feature''), (''id'', JString i), (''geometry'', JNull), (''properties'', JNull)]"

fun sample_backend :: "nat \<Rightarrow> mutation list \<Rightarrow> bool \<Rightarrow> string + string item_outcome list" where
  "sample_backend k [] strict = Inr []"
| "sample_backend k (m # ms) strict =
     (if mu_feature_id m = ''b'' then Inr [Refused ''conflict'']
      else (case sample_backend k ms strict of Inl e \<Rightarrow> Inl e | Inr os \<Rightarrow> Inr (Applied 7 # os)))"

definition sample_decl :: batch_decl where
  "sample_decl = \<lparr>ba_max_bytes = None, ba_max_items = Some 3, ba_chunk_items = Some 2\<rparr>"

definition sample_source :: "unit source" where
  "sample_source = (map Value [sample_feature ''a'', sample_feature ''b'', sample_feature ''c''], Body_Ends)"

lemma stage_chunk_2: "stage_chunk env strict 2 source i = stage_chunk env strict (Suc (Suc 0)) source i"
  by (simp add: numeral_2_eq_2)

lemma sample_staged:
  "stage_item sample_batch_env (Value (sample_feature i)) n =
     (\<lparr>sg_index = n, sg_feature_id = Some i, sg_kind = Inr \<lparr>mu_feature_id = i, mu_upsert = sample_feature i\<rparr>\<rparr>
      :: ('e, string) staged_entry)"
  by (simp add: stage_item_def stage_batch_feature_def sample_feature_def sample_batch_env_def json_get_def
      validate_geojson_bbox_def feature_id_of_def)

lemma sample_run:
  "br_lines (run_batch sample_batch_env sample_backend True (batch_resolve sample_decl) sample_source) =
     [Applied_Line 0 ''a'' 7, Refused_Line 1 (Some ''b'') (Backend ''conflict''), Unapplied_Line 2 (Some ''c'')]"
  by (simp add: run_batch_def run_start_def run_chunks.simps sample_source_def sample_decl_def batch_resolve_def
      stage_chunk_2 sample_staged List.map_filter_simps send_applied_def send_refused_def send_unapplied_def
      item_id_def, simp add: sample_feature_def feature_id_of_def json_get_def)

theorem every_batch_item_has_one_line_witness:
  "ba_chunk_items sample_decl \<noteq> Some 0
   \<and> (\<exists>n\<le>3. map line_index (br_lines (run_batch sample_batch_env sample_backend True (batch_resolve sample_decl) sample_source)) = [0..<n]
        \<and> n = 3)"
proof -
  have "ba_chunk_items sample_decl \<noteq> Some 0" by (simp add: sample_decl_def)
  from every_batch_item_has_one_line [OF this, where env = sample_batch_env and apply_batch = sample_backend
      and strict = True and items = "fst sample_source" and e = "snd sample_source"]
  obtain n where "n \<le> length (fst sample_source)"
    "map line_index (br_lines (run_batch sample_batch_env sample_backend True (batch_resolve sample_decl) sample_source)) = [0..<n]"
    by (auto simp: sample_source_def)
  moreover from arg_cong [OF this(2), of length] have "n = 3" by (simp add: sample_run)
  ultimately show ?thesis by (auto simp: sample_source_def sample_decl_def)
qed

end
