(* ===== verification/Jobs.thy ===== *)
theory Jobs
  imports Prelude
begin

text \<open>
  The durable job ledger: \<open>crates/tellurion-core/src/job.rs\<close> (the statuses, the records, the in-memory
  store) and its PostgreSQL form, the statements of \<open>crates/tellurion-postgis/src/job_sql.rs\<close> as
  \<open>PostgisBackend\<close> of \<open>driver.rs\<close> runs them on the table of
  \<open>crates/tellurion-ingest/src/processes.rs\<close>. Instants and windows are natural numbers; the clock is an
  argument of every operation. The status column holds the text of the status. The attempts counter, a 32-bit
  integer in the code, is a natural number; inputs and results are stored and never read (\<open>'j\<close>).
\<close>

section \<open>Statuses and records\<close>

datatype job_status = Accepted | Running | Successful | Failed | Dismissed

fun status_as_str :: "job_status \<Rightarrow> string" where
  "status_as_str Accepted = ''accepted''"
| "status_as_str Running = ''running''"
| "status_as_str Successful = ''successful''"
| "status_as_str Failed = ''failed''"
| "status_as_str Dismissed = ''dismissed''"

definition status_parse :: "string \<Rightarrow> job_status option" where
  "status_parse value =
     (if value = ''accepted'' then Some Accepted
      else if value = ''running'' then Some Running
      else if value = ''successful'' then Some Successful
      else if value = ''failed'' then Some Failed
      else if value = ''dismissed'' then Some Dismissed
      else None)"

fun is_terminal :: "job_status \<Rightarrow> bool" where
  "is_terminal Successful = True"
| "is_terminal Failed = True"
| "is_terminal Dismissed = True"
| "is_terminal _ = False"

type_synonym instant = nat

record job_scope =
  sc_tenant :: string
  sc_catalog :: string

record 'j job_submission =
  sb_job_id :: string
  sb_process_id :: string
  sb_scope :: job_scope
  sb_inputs :: 'j
  sb_dedup_key :: "string option"

record 'j job_record =
  jr_job_id :: string
  jr_process_id :: string
  jr_scope :: job_scope
  jr_status :: job_status
  jr_message :: "string option"
  jr_inputs :: 'j
  jr_results :: "'j option"
  jr_created :: instant
  jr_started :: "instant option"
  jr_finished :: "instant option"
  jr_updated :: instant
  jr_attempts :: nat

datatype 'j job_outcome = Succeeded 'j | Failed_With string

record 'j job_row =
  rw_record :: "'j job_record"
  rw_dedup_key :: "string option"
  rw_locked_until :: "instant option"

type_synonym 'j ledger = "'j job_row list"

datatype job_error = Job_Id_Recorded string | Key_Holder_Changed

abbreviation row_id :: "'j job_row \<Rightarrow> string" where "row_id row \<equiv> jr_job_id (rw_record row)"
abbreviation row_status :: "'j job_row \<Rightarrow> job_status" where "row_status row \<equiv> jr_status (rw_record row)"
abbreviation in_play :: "'j job_row \<Rightarrow> bool" where "in_play row \<equiv> \<not> is_terminal (row_status row)"

definition new_row :: "instant \<Rightarrow> 'j job_submission \<Rightarrow> 'j job_row" where
  "new_row now sub =
     \<lparr>rw_record = \<lparr>jr_job_id = sb_job_id sub, jr_process_id = sb_process_id sub, jr_scope = sb_scope sub,
        jr_status = Accepted, jr_message = None, jr_inputs = sb_inputs sub, jr_results = None, jr_created = now,
        jr_started = None, jr_finished = None, jr_updated = now, jr_attempts = 0\<rparr>,
      rw_dedup_key = sb_dedup_key sub, rw_locked_until = None\<rparr>"

section \<open>The in-memory store\<close>

fun update_first :: "('a \<Rightarrow> bool) \<Rightarrow> ('a \<Rightarrow> 'a) \<Rightarrow> 'a list \<Rightarrow> 'a list" where
  "update_first p f [] = []"
| "update_first p f (x # xs) = (if p x then f x # xs else x # update_first p f xs)"

definition holds_key :: "'j job_submission \<Rightarrow> string \<Rightarrow> 'j job_row \<Rightarrow> bool" where
  "holds_key sub key row \<longleftrightarrow>
     rw_dedup_key row = Some key \<and> jr_scope (rw_record row) = sb_scope sub
     \<and> jr_process_id (rw_record row) = sb_process_id sub \<and> in_play row"

definition mem_enqueue ::
  "instant \<Rightarrow> 'j job_submission \<Rightarrow> 'j ledger \<Rightarrow> (job_error + 'j job_record) \<times> 'j ledger" where
  "mem_enqueue now sub jobs =
     (case (case sb_dedup_key sub of None \<Rightarrow> None | Some key \<Rightarrow> List.find (holds_key sub key) jobs) of
        Some existing \<Rightarrow> (Inr (rw_record existing), jobs)
      | None \<Rightarrow>
          if list_ex (\<lambda>row. row_id row = sb_job_id sub) jobs
          then (Inl (Job_Id_Recorded (sb_job_id sub)), jobs)
          else (Inr (rw_record (new_row now sub)), jobs @ [new_row now sub]))"

definition in_scope :: "job_scope \<Rightarrow> string \<Rightarrow> 'j job_row \<Rightarrow> bool" where
  "in_scope scope job_id row \<longleftrightarrow> row_id row = job_id \<and> jr_scope (rw_record row) = scope"

definition mem_get :: "job_scope \<Rightarrow> string \<Rightarrow> 'j ledger \<Rightarrow> 'j job_record option" where
  "mem_get scope job_id jobs = map_option rw_record (List.find (in_scope scope job_id) jobs)"

definition claimable :: "instant \<Rightarrow> string list \<Rightarrow> 'j job_row \<Rightarrow> bool" where
  "claimable now process_ids row \<longleftrightarrow>
     jr_process_id (rw_record row) \<in> set process_ids
     \<and> (case row_status row of
          Accepted \<Rightarrow> True
        | Running \<Rightarrow> (case rw_locked_until row of Some until \<Rightarrow> until < now | None \<Rightarrow> False)
        | _ \<Rightarrow> False)"

definition claim_row :: "instant \<Rightarrow> nat \<Rightarrow> 'j job_row \<Rightarrow> 'j job_row" where
  "claim_row now visibility row =
     row\<lparr>rw_record := (rw_record row)\<lparr>jr_status := Running, jr_attempts := jr_attempts (rw_record row) + 1,
           jr_started := Some (case jr_started (rw_record row) of Some t \<Rightarrow> t | None \<Rightarrow> now), jr_updated := now\<rparr>,
         rw_locked_until := Some (now + visibility)\<rparr>"

definition mem_claim_next ::
  "instant \<Rightarrow> string list \<Rightarrow> nat \<Rightarrow> 'j ledger \<Rightarrow> 'j job_record option \<times> 'j ledger" where
  "mem_claim_next now process_ids visibility jobs =
     (case sort_key (\<lambda>i. jr_created (rw_record (jobs ! i)))
             (filter (\<lambda>i. claimable now process_ids (jobs ! i)) [0..<length jobs]) of
        [] \<Rightarrow> (None, jobs)
      | i # _ \<Rightarrow> (Some (rw_record (claim_row now visibility (jobs ! i))), jobs[i := claim_row now visibility (jobs ! i)]))"

definition finish_row :: "instant \<Rightarrow> 'j job_outcome \<Rightarrow> 'j job_row \<Rightarrow> 'j job_row" where
  "finish_row now outcome row =
     row\<lparr>rw_record := (case outcome of
           Succeeded results \<Rightarrow> (rw_record row)\<lparr>jr_status := Successful, jr_results := Some results\<rparr>
         | Failed_With message \<Rightarrow> (rw_record row)\<lparr>jr_status := Failed, jr_message := Some message\<rparr>)
           \<lparr>jr_finished := Some now, jr_updated := now\<rparr>,
         rw_locked_until := None\<rparr>"

definition runs :: "string \<Rightarrow> 'j job_row \<Rightarrow> bool" where
  "runs job_id row \<longleftrightarrow> row_id row = job_id \<and> row_status row = Running"

definition mem_finish ::
  "instant \<Rightarrow> string \<Rightarrow> 'j job_outcome \<Rightarrow> 'j ledger \<Rightarrow> 'j job_record option \<times> 'j ledger" where
  "mem_finish now job_id outcome jobs =
     (case List.find (runs job_id) jobs of
        None \<Rightarrow> (None, jobs)
      | Some row \<Rightarrow> (Some (rw_record (finish_row now outcome row)), update_first (runs job_id) (finish_row now outcome) jobs))"

definition DISMISSED_JOB_MESSAGE :: string where "DISMISSED_JOB_MESSAGE = ''Job dismissed''"

definition dismiss_row :: "instant \<Rightarrow> 'j job_row \<Rightarrow> 'j job_row" where
  "dismiss_row now row =
     row\<lparr>rw_record := (rw_record row)\<lparr>jr_status := Dismissed, jr_message := Some DISMISSED_JOB_MESSAGE,
           jr_finished := Some now, jr_updated := now\<rparr>,
         rw_locked_until := None\<rparr>"

definition mem_dismiss ::
  "instant \<Rightarrow> job_scope \<Rightarrow> string \<Rightarrow> 'j ledger \<Rightarrow> 'j job_record option \<times> 'j ledger" where
  "mem_dismiss now scope job_id jobs =
     (case List.find (in_scope scope job_id) jobs of
        None \<Rightarrow> (None, jobs)
      | Some row \<Rightarrow>
          if is_terminal (row_status row) then (Some (rw_record row), jobs)
          else (Some (rw_record (dismiss_row now row)), update_first (in_scope scope job_id) (dismiss_row now) jobs))"

section \<open>The statements of the PostgreSQL store\<close>

text \<open>The primary key, and the unique partial index over the keys of the jobs in play.\<close>

definition indexed_alike :: "'j job_row \<Rightarrow> 'j job_row \<Rightarrow> bool" where
  "indexed_alike r s \<longleftrightarrow>
     rw_dedup_key r \<noteq> None \<and> rw_dedup_key s = rw_dedup_key r \<and> in_play r \<and> in_play s
     \<and> jr_scope (rw_record s) = jr_scope (rw_record r) \<and> jr_process_id (rw_record s) = jr_process_id (rw_record r)"

definition sql_insert :: "'j job_row \<Rightarrow> 'j ledger \<Rightarrow> 'j job_row option \<times> 'j ledger" where
  "sql_insert row table =
     (if list_ex (\<lambda>r. row_id r = row_id row \<or> indexed_alike row r) table then (None, table)
      else (Some row, table @ [row]))"

text \<open>\<open>UPDATE ... WHERE ... RETURNING\<close>: the rows after the update, and the table.\<close>

definition sql_update ::
  "('j job_row \<Rightarrow> bool) \<Rightarrow> ('j job_row \<Rightarrow> 'j job_row) \<Rightarrow> 'j ledger \<Rightarrow> 'j job_row list \<times> 'j ledger" where
  "sql_update p f table = (map f (filter p table), map (\<lambda>r. if p r then f r else r) table)"

text \<open>\<open>query_opt\<close> takes at most one row; the row's record is the answer.\<close>

definition the_row :: "'j job_row list \<Rightarrow> 'j job_record option" where
  "the_row rows = (case rows of [row] \<Rightarrow> Some (rw_record row) | _ \<Rightarrow> None)"

lemma the_row_none [simp]: "the_row [] = None"
  by (simp add: the_row_def)

text \<open>The statements, named after the functions that build them.\<close>

definition enqueue_plan :: "instant \<Rightarrow> 'j job_submission \<Rightarrow> 'j ledger \<Rightarrow> 'j job_row option \<times> 'j ledger" where
  "enqueue_plan now sub = sql_insert (new_row now sub)"

definition dedup_lookup_plan :: "'j job_submission \<Rightarrow> string \<Rightarrow> 'j ledger \<Rightarrow> 'j job_row list" where
  "dedup_lookup_plan sub key table = filter (holds_key sub key) table"

definition get_plan :: "job_scope \<Rightarrow> string \<Rightarrow> 'j ledger \<Rightarrow> 'j job_row list" where
  "get_plan scope job_id table = filter (in_scope scope job_id) table"

text \<open>
  The claim updates the row its subquery selects among the claimable rows that no other transaction
  has locked; \<open>pick\<close> is the choice of the database among the oldest.
\<close>

definition claim_plan ::
  "('j job_row list \<Rightarrow> 'j job_row option) \<Rightarrow> string list \<Rightarrow> instant \<Rightarrow> string list \<Rightarrow> nat \<Rightarrow> 'j ledger \<Rightarrow>
   'j job_row list \<times> 'j ledger" where
  "claim_plan pick row_locks now process_ids visibility table =
     (case pick (filter (\<lambda>r. claimable now process_ids r \<and> row_id r \<notin> set row_locks) table) of
        None \<Rightarrow> ([], table)
      | Some selected \<Rightarrow> sql_update (\<lambda>r. row_id r = row_id selected) (claim_row now visibility) table)"

definition sql_finish_row :: "instant \<Rightarrow> 'j job_outcome \<Rightarrow> 'j job_row \<Rightarrow> 'j job_row" where
  "sql_finish_row now outcome row =
     row\<lparr>rw_record := (case outcome of
           Succeeded results \<Rightarrow> (rw_record row)\<lparr>jr_status := Successful, jr_message := None, jr_results := Some results\<rparr>
         | Failed_With message \<Rightarrow> (rw_record row)\<lparr>jr_status := Failed, jr_message := Some message, jr_results := None\<rparr>)
           \<lparr>jr_finished := Some now, jr_updated := now\<rparr>,
         rw_locked_until := None\<rparr>"

definition finish_plan :: "instant \<Rightarrow> string \<Rightarrow> 'j job_outcome \<Rightarrow> 'j ledger \<Rightarrow> 'j job_row list \<times> 'j ledger" where
  "finish_plan now job_id outcome = sql_update (runs job_id) (sql_finish_row now outcome)"

definition dismiss_plan :: "instant \<Rightarrow> job_scope \<Rightarrow> string \<Rightarrow> 'j ledger \<Rightarrow> 'j job_row list \<times> 'j ledger" where
  "dismiss_plan now scope job_id = sql_update (\<lambda>r. in_scope scope job_id r \<and> in_play r) (dismiss_row now)"

lemmas plan_defs = enqueue_plan_def dedup_lookup_plan_def get_plan_def claim_plan_def finish_plan_def dismiss_plan_def

section \<open>The driver\<close>

text \<open>When the insert conflicts, the job that holds the key is read from the table as it is by then.\<close>

definition sql_enqueue ::
  "instant \<Rightarrow> 'j job_submission \<Rightarrow> 'j ledger \<Rightarrow> 'j ledger \<Rightarrow> (job_error + 'j job_record) \<times> 'j ledger" where
  "sql_enqueue now sub later table =
     (case enqueue_plan now sub table of
        (Some row, table') \<Rightarrow> (Inr (rw_record row), table')
      | (None, table') \<Rightarrow>
          ((case sb_dedup_key sub of
              None \<Rightarrow> Inl (Job_Id_Recorded (sb_job_id sub))
            | Some key \<Rightarrow>
                (case dedup_lookup_plan sub key later of
                   row # _ \<Rightarrow> Inr (rw_record row)
                 | [] \<Rightarrow> Inl Key_Holder_Changed)), table'))"

definition sql_get :: "job_scope \<Rightarrow> string \<Rightarrow> 'j ledger \<Rightarrow> 'j job_record option" where
  "sql_get scope job_id table = the_row (get_plan scope job_id table)"

definition sql_claim_next ::
  "('j job_row list \<Rightarrow> 'j job_row option) \<Rightarrow> string list \<Rightarrow> instant \<Rightarrow> string list \<Rightarrow> nat \<Rightarrow> 'j ledger \<Rightarrow>
   'j job_record option \<times> 'j ledger" where
  "sql_claim_next pick row_locks now process_ids visibility table =
     (if process_ids = [] then (None, table)
      else (let (rows, table') = claim_plan pick row_locks now process_ids visibility table in (the_row rows, table')))"

definition sql_finish ::
  "instant \<Rightarrow> string \<Rightarrow> 'j job_outcome \<Rightarrow> 'j ledger \<Rightarrow> 'j job_record option \<times> 'j ledger" where
  "sql_finish now job_id outcome table =
     (let (rows, table') = finish_plan now job_id outcome table in (the_row rows, table'))"

text \<open>When no row was updated the job is read back, from the table as it is by then.\<close>

definition sql_dismiss ::
  "instant \<Rightarrow> job_scope \<Rightarrow> string \<Rightarrow> 'j ledger \<Rightarrow> 'j ledger \<Rightarrow> 'j job_record option \<times> 'j ledger" where
  "sql_dismiss now scope job_id later table =
     (let (rows, table') = dismiss_plan now scope job_id table in
      case the_row rows of
        Some record \<Rightarrow> (Some record, table')
      | None \<Rightarrow> (sql_get scope job_id later, table'))"

end
