(* ===== verification/Job_Ledger.thy ===== *)
theory Job_Ledger
  imports Jobs "HOL-Library.Multiset"
begin

text \<open>
  What the ledger promises. A call is one statement or one locked operation of a store, a run is a list of
  calls by any number of clients, in the order the store performs them. \<open>ledger_ok\<close> is the
  well-formedness of a ledger; \<open>row_move\<close> is the life cycle of a job; the locale \<open>job_store\<close> states what
  the runner and the handlers rely on, and both stores implement it.
\<close>

section \<open>Calls and runs\<close>

datatype 'j job_call =
    Enqueue instant "'j job_submission"
  | Get job_scope string
  | Claim instant "string list" nat "string list"
  | Finish instant string "'j job_outcome"
  | Dismiss instant job_scope string

datatype 'j job_answer = Recorded "job_error + 'j job_record" | Found "'j job_record option"

fun call_time :: "'j job_call \<Rightarrow> instant" where
  "call_time (Enqueue now _) = now"
| "call_time (Get _ _) = 0"
| "call_time (Claim now _ _ _) = now"
| "call_time (Finish now _ _) = now"
| "call_time (Dismiss now _ _) = now"

fun mem_call :: "'j job_call \<Rightarrow> 'j ledger \<Rightarrow> 'j job_answer \<times> 'j ledger" where
  "mem_call (Enqueue now sub) jobs = apfst Recorded (mem_enqueue now sub jobs)"
| "mem_call (Get scope job_id) jobs = (Found (mem_get scope job_id jobs), jobs)"
| "mem_call (Claim now process_ids visibility _) jobs = apfst Found (mem_claim_next now process_ids visibility jobs)"
| "mem_call (Finish now job_id outcome) jobs = apfst Found (mem_finish now job_id outcome jobs)"
| "mem_call (Dismiss now scope job_id) jobs = apfst Found (mem_dismiss now scope job_id jobs)"

text \<open>The reads that follow an update find the table as the update left it.\<close>

fun sql_call ::
  "('j job_row list \<Rightarrow> 'j job_row option) \<Rightarrow> 'j job_call \<Rightarrow> 'j ledger \<Rightarrow> 'j job_answer \<times> 'j ledger" where
  "sql_call pick (Enqueue now sub) table = apfst Recorded (sql_enqueue now sub table table)"
| "sql_call pick (Get scope job_id) table = (Found (sql_get scope job_id table), table)"
| "sql_call pick (Claim now process_ids visibility row_locks) table =
     apfst Found (sql_claim_next pick row_locks now process_ids visibility table)"
| "sql_call pick (Finish now job_id outcome) table = apfst Found (sql_finish now job_id outcome table)"
| "sql_call pick (Dismiss now scope job_id) table = apfst Found (sql_dismiss now scope job_id table table)"

fun run_calls :: "('c \<Rightarrow> 'l \<Rightarrow> 'a \<times> 'l) \<Rightarrow> 'c list \<Rightarrow> 'l \<Rightarrow> 'a list \<times> 'l" where
  "run_calls call [] l = ([], l)"
| "run_calls call (c # cs) l =
     (let (answer, l) = call c l; (answers, l) = run_calls call cs l in (answer # answers, l))"

lemma run_calls_Cons:
  "run_calls call (c # cs) l =
     (fst (call c l) # fst (run_calls call cs (snd (call c l))), snd (run_calls call cs (snd (call c l))))"
  by (simp add: Let_def split: prod.split)

declare run_calls.simps(2) [simp del] run_calls_Cons [simp]

lemma run_calls_append:
  "run_calls call (cs @ ds) l =
     (fst (run_calls call cs l) @ fst (run_calls call ds (snd (run_calls call cs l))),
      snd (run_calls call ds (snd (run_calls call cs l))))"
  by (induction cs arbitrary: l) simp_all

section \<open>Well-formed ledgers\<close>

definition row_ok :: "'j job_row \<Rightarrow> bool" where
  "row_ok row \<longleftrightarrow>
     (jr_results (rw_record row) \<noteq> None \<longleftrightarrow> row_status row = Successful)
     \<and> (jr_message (rw_record row) \<noteq> None \<longleftrightarrow> row_status row = Failed \<or> row_status row = Dismissed)
     \<and> (row_status row = Dismissed \<longrightarrow> jr_message (rw_record row) = Some DISMISSED_JOB_MESSAGE)
     \<and> (jr_finished (rw_record row) \<noteq> None \<longleftrightarrow> is_terminal (row_status row))
     \<and> (jr_started (rw_record row) \<noteq> None \<longleftrightarrow> jr_attempts (rw_record row) \<noteq> 0)
     \<and> (row_status row = Accepted \<longrightarrow> jr_attempts (rw_record row) = 0)
     \<and> (row_status row \<in> {Running, Successful, Failed} \<longrightarrow> jr_attempts (rw_record row) \<noteq> 0)
     \<and> (rw_locked_until row \<noteq> None \<longleftrightarrow> row_status row = Running)"

definition ledger_ok :: "'j ledger \<Rightarrow> bool" where
  "ledger_ok table \<longleftrightarrow>
     distinct (map row_id table) \<and> list_all row_ok table \<and> sorted_wrt (\<lambda>r s. \<not> indexed_alike r s) table"

lemma ledger_ok_Nil [simp]: "ledger_ok []"
  by (simp add: ledger_ok_def)

lemma row_moves_ok:
  "row_ok (new_row now sub)"
  "row_ok row \<Longrightarrow> claimable now process_ids row \<Longrightarrow> row_ok (claim_row now visibility row)"
  "row_ok row \<Longrightarrow> row_status row = Running \<Longrightarrow> row_ok (sql_finish_row now outcome row)"
  "row_ok row \<Longrightarrow> in_play row \<Longrightarrow> row_ok (dismiss_row now row)"
  by (auto simp: row_ok_def new_row_def claim_row_def sql_finish_row_def dismiss_row_def claimable_def
      split: job_outcome.split option.split job_status.splits)

lemma row_kept [simp]:
  "row_id (claim_row now visibility row) = row_id row"
  "row_id (finish_row now outcome row) = row_id row"
  "row_id (sql_finish_row now outcome row) = row_id row"
  "row_id (dismiss_row now row) = row_id row"
  "row_id (new_row now sub) = sb_job_id sub"
  by (simp_all add: claim_row_def finish_row_def sql_finish_row_def dismiss_row_def new_row_def split: job_outcome.split)

text \<open>On a running job the two ways of finishing agree.\<close>

lemma sql_finish_row_eq: "row_ok row \<Longrightarrow> row_status row = Running \<Longrightarrow> sql_finish_row now outcome row = finish_row now outcome row"
  by (cases "rw_record row") (auto simp: row_ok_def sql_finish_row_def finish_row_def split: job_outcome.split)

text \<open>An update that keeps what the dedup index covers, or leaves it, keeps the index unique.\<close>

definition keeps_index :: "('j job_row \<Rightarrow> 'j job_row) \<Rightarrow> 'j job_row \<Rightarrow> bool" where
  "keeps_index f r \<longleftrightarrow>
     rw_dedup_key (f r) = rw_dedup_key r \<and> jr_scope (rw_record (f r)) = jr_scope (rw_record r)
     \<and> jr_process_id (rw_record (f r)) = jr_process_id (rw_record r) \<and> row_id (f r) = row_id r
     \<and> (in_play (f r) \<longrightarrow> in_play r)"

lemma keeps_index_indexed: "keeps_index f r \<Longrightarrow> keeps_index f s \<Longrightarrow> indexed_alike (f r) (f s) \<Longrightarrow> indexed_alike r s"
  by (auto simp: keeps_index_def indexed_alike_def)

lemma keeps_index_id [simp]: "keeps_index (\<lambda>r. r) r"
  by (simp add: keeps_index_def)

lemma keeps_index_moves:
  "in_play r \<Longrightarrow> keeps_index (claim_row now visibility) r"
  "row_status r = Running \<Longrightarrow> keeps_index (sql_finish_row now outcome) r"
  "in_play r \<Longrightarrow> keeps_index (dismiss_row now) r"
  by (auto simp: keeps_index_def claim_row_def sql_finish_row_def dismiss_row_def split: job_outcome.split)

lemma claimable_in_play: "claimable now process_ids r \<Longrightarrow> in_play r"
  by (auto simp: claimable_def split: job_status.splits)

lemma ledger_ok_map:
  assumes "ledger_ok table" "\<And>r. r \<in> set table \<Longrightarrow> keeps_index f r \<and> row_ok (f r)"
  shows "ledger_ok (map f table)"
proof -
  have "map row_id (map f table) = map row_id table" using assms(2) by (simp add: keeps_index_def)
  moreover have "sorted_wrt (\<lambda>r s. \<not> indexed_alike (f r) (f s)) table"
  proof (rule sorted_wrt_mono_rel [of table "\<lambda>r s. \<not> indexed_alike r s"])
    show "sorted_wrt (\<lambda>r s. \<not> indexed_alike r s) table" using assms(1) by (simp add: ledger_ok_def)
  qed (use assms(2) in \<open>blast dest: keeps_index_indexed\<close>)
  ultimately have "distinct (map row_id (map f table))" "sorted_wrt (\<lambda>r s. \<not> indexed_alike r s) (map f table)"
    using assms(1) by (simp_all only: ledger_ok_def sorted_wrt_map)
  then show ?thesis using assms(2) by (simp only: ledger_ok_def) (auto simp: list_all_iff)
qed

lemma sql_update_ok:
  assumes "ledger_ok table" "\<And>r. r \<in> set table \<Longrightarrow> p r \<Longrightarrow> keeps_index f r \<and> row_ok (f r)"
  shows "ledger_ok (snd (sql_update p f table))"
proof -
  have "ledger_ok (map (\<lambda>r. if p r then f r else r) table)"
    using assms by (intro ledger_ok_map) (auto simp: ledger_ok_def list_all_iff keeps_index_def)
  then show ?thesis by (simp add: sql_update_def)
qed

lemma indexed_alike_sym: "indexed_alike r s \<Longrightarrow> indexed_alike s r"
  by (auto simp: indexed_alike_def)

lemma sql_insert_ok: "ledger_ok table \<Longrightarrow> row_ok row \<Longrightarrow> ledger_ok (snd (sql_insert row table))"
  by (auto simp: sql_insert_def ledger_ok_def sorted_wrt_append list_ex_iff dest: indexed_alike_sym)

text \<open>A row of a well-formed ledger is found by its identifier.\<close>

definition find_row :: "'j ledger \<Rightarrow> string \<Rightarrow> 'j job_row option" where
  "find_row table job_id = List.find (\<lambda>r. row_id r = job_id) table"

lemma find_row_Some: "ledger_ok table \<Longrightarrow> find_row table job_id = Some r \<longleftrightarrow> r \<in> set table \<and> row_id r = job_id"
  by (induction table) (auto simp: find_row_def ledger_ok_def image_iff)

lemma find_row_None: "find_row table job_id = None \<longleftrightarrow> (\<forall>r \<in> set table. row_id r \<noteq> job_id)"
  by (auto simp: find_row_def find_None_iff)

lemma same_row: "ledger_ok table \<Longrightarrow> r \<in> set table \<Longrightarrow> s \<in> set table \<Longrightarrow> row_id r = row_id s \<Longrightarrow> r = s"
  by (metis find_row_Some option.inject)

lemma filter_one:
  assumes "ledger_ok table" "\<And>r. r \<in> set table \<Longrightarrow> p r \<Longrightarrow> row_id r = job_id"
  shows "filter p table = (case find_row table job_id of Some r \<Rightarrow> if p r then [r] else [] | None \<Rightarrow> [])"
  using assms
proof (induction table)
  case (Cons r table)
  have ok: "ledger_ok table" and fresh: "\<forall>s \<in> set table. row_id s \<noteq> row_id r"
    using Cons.prems(1) by (auto simp: ledger_ok_def image_iff)
  have IH: "filter p table = (case find_row table job_id of Some r \<Rightarrow> if p r then [r] else [] | None \<Rightarrow> [])"
    using Cons.IH [OF ok] Cons.prems(2) by simp
  show ?case
  proof (cases "row_id r = job_id")
    case True
    then have "find_row table job_id = None" using fresh by (simp add: find_row_None)
    with IH True show ?thesis by (simp add: find_row_def)
  next
    case False
    with Cons.prems(2) [of r] IH show ?thesis by (auto simp: find_row_def)
  qed
qed (simp add: find_row_def)

lemma find_first: "List.find p xs = (case filter p xs of [] \<Rightarrow> None | x # _ \<Rightarrow> Some x)"
  by (induction xs) simp_all

section \<open>The life of a job\<close>

inductive row_move :: "'j job_call \<Rightarrow> 'j job_row \<Rightarrow> 'j job_row \<Rightarrow> bool" where
  Claimed: "claimable now process_ids r \<Longrightarrow> row_move (Claim now process_ids visibility row_locks) r (claim_row now visibility r)"
| Finished: "runs job_id r \<Longrightarrow> row_move (Finish now job_id outcome) r (finish_row now outcome r)"
| Was_Dismissed: "in_scope scope job_id r \<Longrightarrow> in_play r \<Longrightarrow> row_move (Dismiss now scope job_id) r (dismiss_row now r)"

inductive_cases row_moveE: "row_move c r r'"
inductive_simps row_move_simps [simp]:
  "row_move (Enqueue now sub) r r'"
  "row_move (Get scope job_id) r r'"
  "row_move (Claim now process_ids visibility row_locks) r r'"
  "row_move (Finish now job_id outcome) r r'"
  "row_move (Dismiss now scope job_id) r r'"

definition same_job :: "'j job_row \<Rightarrow> 'j job_row \<Rightarrow> bool" where
  "same_job r r' \<longleftrightarrow>
     row_id r' = row_id r \<and> jr_process_id (rw_record r') = jr_process_id (rw_record r)
     \<and> jr_scope (rw_record r') = jr_scope (rw_record r) \<and> jr_inputs (rw_record r') = jr_inputs (rw_record r)
     \<and> jr_created (rw_record r') = jr_created (rw_record r) \<and> rw_dedup_key r' = rw_dedup_key r
     \<and> jr_attempts (rw_record r) \<le> jr_attempts (rw_record r')
     \<and> (jr_started (rw_record r) \<noteq> None \<longrightarrow> jr_started (rw_record r') = jr_started (rw_record r))"

lemma same_job_refl [simp]: "same_job r r"
  by (simp add: same_job_def)

lemma same_job_trans: "same_job r s \<Longrightarrow> same_job s t \<Longrightarrow> same_job r t"
  by (simp add: same_job_def)

lemma row_move_facts:
  assumes "row_move c r r'"
  shows "same_job r r'" "in_play r" "row_status r' \<noteq> Accepted"
  using assms
  by (auto elim!: row_moveE simp: same_job_def claim_row_def finish_row_def dismiss_row_def runs_def
      dest: claimable_in_play split: job_outcome.splits option.splits)

text \<open>
  What a client of a ledger relies on: the state stays good, a call moves a job along its life cycle
  or leaves it, a read answers the job of its scope, and a claimed job was claimable and is
  reserved.
\<close>

definition read_row :: "job_scope \<Rightarrow> 'j job_row option \<Rightarrow> 'j job_record option" where
  "read_row scope found =
     (case found of Some r \<Rightarrow> if jr_scope (rw_record r) = scope then Some (rw_record r) else None | None \<Rightarrow> None)"

locale job_store =
  fixes good :: "'l \<Rightarrow> bool"
    and row_of :: "'l \<Rightarrow> string \<Rightarrow> 'j job_row option"
    and call :: "'j job_call \<Rightarrow> 'l \<Rightarrow> 'j job_answer \<times> 'l"
  assumes good_call: "good l \<Longrightarrow> good (snd (call c l))"
    and call_moves: "good l \<Longrightarrow> row_of l i = Some r \<Longrightarrow>
      \<exists>r'. row_of (snd (call c l)) i = Some r' \<and> (r' = r \<or> row_move c r r')"
    and get_reads: "good l \<Longrightarrow> call (Get scope i) l = (Found (read_row scope (row_of l i)), l)"
    and claim_takes: "good l \<Longrightarrow> call (Claim now process_ids visibility row_locks) l = (Found (Some record), l') \<Longrightarrow>
      \<exists>r. row_of l (jr_job_id record) = Some r \<and> claimable now process_ids r
        \<and> row_of l' (jr_job_id record) = Some (claim_row now visibility r)
        \<and> record = rw_record (claim_row now visibility r)"
begin

lemma good_run: "good l \<Longrightarrow> good (snd (run_calls call cs l))"
  by (induction cs arbitrary: l) (simp_all add: good_call)

lemma job_stays:
  "good l \<Longrightarrow> row_of l i = Some r \<Longrightarrow> \<exists>r'. row_of (snd (run_calls call cs l)) i = Some r' \<and> same_job r r'"
proof (induction cs arbitrary: l r)
  case (Cons c cs)
  from call_moves [OF Cons.prems] obtain s where s: "row_of (snd (call c l)) i = Some s" "s = r \<or> row_move c r s" by blast
  from Cons.IH [OF good_call [OF Cons.prems(1)] s(1)] obtain r' where
    "row_of (snd (run_calls call cs (snd (call c l)))) i = Some r'" "same_job s r'" by blast
  moreover have "same_job r s" using s(2) row_move_facts(1) by auto
  ultimately show ?case by (auto intro: same_job_trans)
qed simp

lemma terminal_stays:
  "good l \<Longrightarrow> row_of l i = Some r \<Longrightarrow> is_terminal (row_status r) \<Longrightarrow> row_of (snd (run_calls call cs l)) i = Some r"
proof (induction cs arbitrary: l)
  case (Cons c cs)
  from call_moves [OF Cons.prems(1,2)] row_move_facts(2) Cons.prems(3) have "row_of (snd (call c l)) i = Some r" by blast
  from Cons.IH [OF good_call [OF Cons.prems(1)] this Cons.prems(3)] show ?case by simp
qed simp

text \<open>A reservation holds against every claim up to its end.\<close>

definition held :: "'l \<Rightarrow> string \<Rightarrow> instant \<Rightarrow> bool" where
  "held l i until \<longleftrightarrow>
     (\<exists>r. row_of l i = Some r \<and> row_status r \<noteq> Accepted
       \<and> (row_status r = Running \<longrightarrow> (\<exists>t. rw_locked_until r = Some t \<and> until \<le> t)))"

lemma held_call:
  assumes "good l" "held l i until" "call_time c \<le> until"
  shows "held (snd (call c l)) i until"
proof -
  from assms(2) obtain r where r: "row_of l i = Some r" "row_status r \<noteq> Accepted"
    "row_status r = Running \<Longrightarrow> \<exists>t. rw_locked_until r = Some t \<and> until \<le> t" by (auto simp: held_def)
  from call_moves [OF assms(1) r(1)] obtain r' where r': "row_of (snd (call c l)) i = Some r'" "r' = r \<or> row_move c r r'"
    by blast
  have "\<not> claimable now process_ids r" if "now \<le> until" for now process_ids
    using r(2,3) that by (cases "row_status r") (auto simp: claimable_def)
  with r'(2) assms(3) r(3) have "row_status r' = Running \<Longrightarrow> \<exists>t. rw_locked_until r' = Some t \<and> until \<le> t"
    by (cases c) (auto simp: finish_row_def dismiss_row_def split: job_outcome.splits)
  moreover have "row_status r' \<noteq> Accepted" using r'(2) r(2) row_move_facts(3) by blast
  ultimately show ?thesis using r'(1) by (auto simp: held_def)
qed

lemma held_not_claimed:
  assumes "good l" "held l i until" "now \<le> until"
    and "call (Claim now process_ids visibility row_locks) l = (Found (Some record), l')"
  shows "jr_job_id record \<noteq> i"
proof
  assume "jr_job_id record = i"
  with claim_takes [OF assms(1,4)] obtain r where r: "row_of l i = Some r" "claimable now process_ids r" by auto
  with assms(2,3) show False by (cases "row_status r") (auto simp: held_def claimable_def)
qed

lemma held_run:
  assumes "good l" "held l i until" "list_all (\<lambda>c. call_time c \<le> until) cs"
    and "(Claim now process_ids visibility row_locks, Found (Some record)) \<in> set (zip cs (fst (run_calls call cs l)))"
  shows "jr_job_id record \<noteq> i"
  using assms
proof (induction cs arbitrary: l)
  case (Cons c cs)
  show ?case
  proof (cases "Claim now process_ids visibility row_locks = c \<and> fst (call c l) = Found (Some record)")
    case True
    then have "call (Claim now process_ids visibility row_locks) l = (Found (Some record), snd (call c l))"
      by (metis prod.collapse)
    from held_not_claimed [OF Cons.prems(1,2) _ this] Cons.prems(3) True show ?thesis by auto
  next
    case False
    with Cons.prems(4) have "(Claim now process_ids visibility row_locks, Found (Some record))
        \<in> set (zip cs (fst (run_calls call cs (snd (call c l)))))"
      by auto
    with Cons.prems show ?thesis
      by (intro Cons.IH [OF good_call held_call]) auto
  qed
qed simp

lemma claimed_is_held:
  assumes "good l" "call (Claim now process_ids visibility row_locks) l = (Found (Some record), l')"
  shows "good l'" "held l' (jr_job_id record) (now + visibility)"
  using good_call [OF assms(1), of "Claim now process_ids visibility row_locks"] claim_takes [OF assms] assms(2)
  by (auto simp: held_def claim_row_def)

end

end
