(* ===== verification/Job_Claims.thy ===== *)
theory Job_Claims
  imports Job_Ledger
begin

text \<open>
  The two stores implement the contract of \<open>Job_Ledger\<close>, the in-memory one answers as the statements
  do, and the properties of the ledger.
\<close>

section \<open>The PostgreSQL store\<close>

definition picks_oldest :: "('j job_row list \<Rightarrow> 'j job_row option) \<Rightarrow> bool" where
  "picks_oldest pick \<longleftrightarrow>
     (\<forall>rows. case pick rows of
        None \<Rightarrow> rows = []
      | Some r \<Rightarrow> r \<in> set rows \<and> (\<forall>s \<in> set rows. jr_created (rw_record r) \<le> jr_created (rw_record s)))"

definition first_oldest :: "'j job_row list \<Rightarrow> 'j job_row option" where
  "first_oldest rows = (case sort_key (\<lambda>r. jr_created (rw_record r)) rows of [] \<Rightarrow> None | r # _ \<Rightarrow> Some r)"

lemma first_oldest_picks: "picks_oldest first_oldest"
  unfolding picks_oldest_def
proof
  fix rows :: "'a job_row list"
  have sorted: "sorted (map (\<lambda>r. jr_created (rw_record r)) (sort_key (\<lambda>r. jr_created (rw_record r)) rows))"
    by (rule sorted_sort_key)
  show "case first_oldest rows of None \<Rightarrow> rows = []
      | Some r \<Rightarrow> r \<in> set rows \<and> (\<forall>s \<in> set rows. jr_created (rw_record r) \<le> jr_created (rw_record s))"
  proof (cases "sort_key (\<lambda>r. jr_created (rw_record r)) rows")
    case Nil
    then show ?thesis by (simp add: first_oldest_def) (metis set_empty set_sort)
  next
    case (Cons r rest)
    then have "set rows = insert r (set rest)" by (metis list.simps(15) set_sort)
    with Cons sorted show ?thesis by (auto simp: first_oldest_def)
  qed
qed

lemma picked_None: "picks_oldest pick \<Longrightarrow> pick rows = None \<Longrightarrow> rows = []"
  unfolding picks_oldest_def by (drule spec [of _ rows]) simp

lemma picked:
  assumes "picks_oldest pick" "pick rows = Some r"
  shows "r \<in> set rows" "s \<in> set rows \<Longrightarrow> jr_created (rw_record r) \<le> jr_created (rw_record s)"
  using assms by (auto simp: picks_oldest_def split: option.splits)

lemma find_row_append: "find_row table i = Some r \<Longrightarrow> find_row (table @ rows) i = Some r"
  by (induction table) (auto simp: find_row_def)

lemma find_row_update:
  assumes "\<And>r. row_id (f r) = row_id r"
  shows "find_row (snd (sql_update p f table)) i = map_option (\<lambda>r. if p r then f r else r) (find_row table i)"
  by (induction table) (auto simp: find_row_def sql_update_def assms)

lemma the_row_update:
  assumes "ledger_ok table" "\<And>r. r \<in> set table \<Longrightarrow> p r \<Longrightarrow> row_id r = i"
  shows "the_row (fst (sql_update p f table)) =
    (case find_row table i of Some r \<Rightarrow> if p r then Some (rw_record (f r)) else None | None \<Rightarrow> None)"
  using filter_one [OF assms] by (auto simp: sql_update_def the_row_def split: option.split)

lemma sql_get_reads:
  assumes "ledger_ok table"
  shows "sql_get scope i table = read_row scope (find_row table i)"
proof -
  have "filter (in_scope scope i) table =
      (case find_row table i of Some r \<Rightarrow> if in_scope scope i r then [r] else [] | None \<Rightarrow> [])"
    by (rule filter_one [OF assms]) (simp add: in_scope_def)
  then show ?thesis
    using find_row_Some [OF assms, of i]
    by (cases "find_row table i") (auto simp: sql_get_def plan_defs the_row_def read_row_def in_scope_def)
qed

lemma sql_enqueue_table: "snd (sql_enqueue now sub later table) = snd (sql_insert (new_row now sub) table)"
  by (simp add: sql_enqueue_def plan_defs split: prod.split option.split)

lemma sql_finish_table: "snd (sql_finish now job_id outcome table) = snd (sql_update (runs job_id) (sql_finish_row now outcome) table)"
  by (simp add: sql_finish_def plan_defs split: prod.split)

lemma sql_dismiss_table:
  "snd (sql_dismiss now scope job_id later table) =
     snd (sql_update (\<lambda>r. in_scope scope job_id r \<and> in_play r) (dismiss_row now) table)"
  by (simp add: sql_dismiss_def plan_defs Let_def split: prod.split option.split)

lemma sql_claim_cases:
  assumes "picks_oldest pick"
  obtains (idle) "sql_claim_next pick row_locks now process_ids visibility table = (None, table)"
      "filter (\<lambda>r. claimable now process_ids r \<and> row_id r \<notin> set row_locks) table = []"
    | (taken) selected where "selected \<in> set table" "claimable now process_ids selected"
      "pick (filter (\<lambda>r. claimable now process_ids r \<and> row_id r \<notin> set row_locks) table) = Some selected"
      "sql_claim_next pick row_locks now process_ids visibility table =
         (the_row (fst (sql_update (\<lambda>r. row_id r = row_id selected) (claim_row now visibility) table)),
          snd (sql_update (\<lambda>r. row_id r = row_id selected) (claim_row now visibility) table))"
proof (cases "process_ids = []")
  case True
  then show ?thesis by (intro idle) (simp_all add: sql_claim_next_def plan_defs claimable_def)
next
  case False
  let ?rows = "filter (\<lambda>r. claimable now process_ids r \<and> row_id r \<notin> set row_locks) table"
  show ?thesis
  proof (cases "pick ?rows")
    case None
    with assms have "?rows = []" by (rule picked_None)
    with False None show ?thesis by (intro idle) (simp_all add: sql_claim_next_def plan_defs)
  next
    case (Some selected)
    with picked(1) [OF assms Some] False show ?thesis
      by (intro taken [of selected]) (auto simp: sql_claim_next_def plan_defs Let_def split: prod.split)
  qed
qed

lemma sql_call_ok:
  assumes "picks_oldest pick" "ledger_ok table"
  shows "ledger_ok (snd (sql_call pick c table))"
proof (cases c)
  case (Enqueue now sub)
  then show ?thesis using sql_insert_ok [OF assms(2) row_moves_ok(1)] by (simp add: sql_enqueue_table)
next
  case (Claim now process_ids visibility row_locks)
  show ?thesis
  proof (cases rule: sql_claim_cases [OF assms(1), of row_locks now process_ids visibility table])
    case 1
    with Claim assms(2) show ?thesis by simp
  next
    case (2 selected)
    have "row_ok selected" using assms(2) 2(1) by (simp add: ledger_ok_def list_all_iff)
    then have "keeps_index (claim_row now visibility) r \<and> row_ok (claim_row now visibility r)"
      if "r \<in> set table" "row_id r = row_id selected" for r
      using same_row [OF assms(2) that(1) 2(1) that(2)] 2(2) by (simp add: keeps_index_moves claimable_in_play row_moves_ok)
    with assms(2) have "ledger_ok (snd (sql_update (\<lambda>r. row_id r = row_id selected) (claim_row now visibility) table))"
      by (rule sql_update_ok)
    with Claim 2(4) show ?thesis by simp
  qed
next
  case (Finish now job_id outcome)
  have "ledger_ok (snd (sql_update (runs job_id) (sql_finish_row now outcome) table))"
    using assms(2) by (intro sql_update_ok) (auto simp: ledger_ok_def list_all_iff runs_def intro: keeps_index_moves row_moves_ok)
  with Finish show ?thesis by (simp add: sql_finish_table)
next
  case (Dismiss now scope job_id)
  have "ledger_ok (snd (sql_update (\<lambda>r. in_scope scope job_id r \<and> in_play r) (dismiss_row now) table))"
    using assms(2) by (intro sql_update_ok) (auto simp: ledger_ok_def list_all_iff intro: keeps_index_moves row_moves_ok)
  with Dismiss show ?thesis by (simp add: sql_dismiss_table)
qed (use assms in simp)

lemma sql_call_moves:
  assumes "picks_oldest pick" "ledger_ok table" "find_row table i = Some r"
  shows "\<exists>r'. find_row (snd (sql_call pick c table)) i = Some r' \<and> (r' = r \<or> row_move c r r')"
proof (cases c)
  case (Enqueue now sub)
  have "find_row (snd (sql_insert row table)) i = Some r" for row
    using assms(3) by (simp add: sql_insert_def find_row_append)
  with Enqueue show ?thesis by (simp add: sql_enqueue_table)
next
  case (Claim now process_ids visibility row_locks)
  show ?thesis
  proof (cases rule: sql_claim_cases [OF assms(1), of row_locks now process_ids visibility table])
    case 1
    with Claim assms(3) show ?thesis by simp
  next
    case (2 selected)
    have "r = selected" if "row_id r = row_id selected"
      using same_row [OF assms(2) _ 2(1) that] assms(3) find_row_Some [OF assms(2)] by auto
    with 2(2,4) Claim assms(3) show ?thesis by (auto simp: find_row_update)
  qed
next
  case (Finish now job_id outcome)
  have "row_ok r" using assms(2,3) by (auto simp: find_row_Some ledger_ok_def list_all_iff)
  with Finish assms(3) show ?thesis
    by (auto simp: sql_finish_table find_row_update sql_finish_row_eq runs_def)
next
  case (Dismiss now scope job_id)
  with Dismiss assms(3) show ?thesis by (auto simp: sql_dismiss_table find_row_update)
qed (use assms in simp)

lemma sql_claim_takes:
  assumes "picks_oldest pick" "ledger_ok table"
    and "sql_call pick (Claim now process_ids visibility row_locks) table = (Found (Some record), table')"
  shows "\<exists>r. find_row table (jr_job_id record) = Some r \<and> claimable now process_ids r
    \<and> find_row table' (jr_job_id record) = Some (claim_row now visibility r)
    \<and> record = rw_record (claim_row now visibility r)"
proof (cases rule: sql_claim_cases [OF assms(1), of row_locks now process_ids visibility table])
  case 1
  with assms(3) show ?thesis by simp
next
  case (2 selected)
  have f: "find_row table (row_id selected) = Some selected" using assms(2) 2(1) by (simp add: find_row_Some)
  with the_row_update [OF assms(2), of "\<lambda>r. row_id r = row_id selected" "row_id selected"] 2(4) assms(3)
  have "record = rw_record (claim_row now visibility selected)"
    "table' = snd (sql_update (\<lambda>r. row_id r = row_id selected) (claim_row now visibility) table)" by auto
  with f 2(2) show ?thesis by (auto simp: find_row_update)
qed

lemma sql_job_store: "picks_oldest pick \<Longrightarrow> job_store ledger_ok find_row (sql_call pick)"
  by unfold_locales
    (simp add: sql_call_ok, simp add: sql_call_moves, simp add: sql_get_reads, rule sql_claim_takes)

locale oldest_pick =
  fixes pick :: "'j job_row list \<Rightarrow> 'j job_row option"
  assumes picks: "picks_oldest pick"

sublocale oldest_pick \<subseteq> job_store ledger_ok find_row "sql_call pick"
  by (rule sql_job_store [OF picks])

interpretation postgres: oldest_pick first_oldest
  by unfold_locales (rule first_oldest_picks)

section \<open>The in-memory store\<close>

lemma insort_key_map: "map g (insort_key (\<lambda>i. f (g i)) i is) = insort_key f (g i) (map g is)"
  by (induction "is") simp_all

lemma sort_key_map: "map g (sort_key (\<lambda>i. f (g i)) is) = sort_key f (map g is)"
  by (induction "is") (simp_all add: insort_key_map)

lemma filter_indices: "map ((!) xs) (filter (\<lambda>i. p (xs ! i)) [0..<length xs]) = filter p xs"
  using filter_map [of p "(!) xs" "[0..<length xs]"] by (simp add: map_nth comp_def)

lemma indices_oldest:
  "first_oldest (filter p xs) =
     (case sort_key (\<lambda>i. jr_created (rw_record (xs ! i))) (filter (\<lambda>i. p (xs ! i)) [0..<length xs]) of
        [] \<Rightarrow> None | i # _ \<Rightarrow> Some (xs ! i))"
  using sort_key_map [of "(!) xs" "\<lambda>r. jr_created (rw_record r)" "filter (\<lambda>i. p (xs ! i)) [0..<length xs]", symmetric]
  by (simp add: first_oldest_def filter_indices split: list.split)

lemma update_at:
  assumes "ledger_ok table" "i < length table"
  shows "table[i := f (table ! i)] = map (\<lambda>r. if row_id r = row_id (table ! i) then f r else r) table"
proof (rule nth_equalityI)
  fix k assume "k < length (table[i := f (table ! i)])"
  moreover have "row_id (table ! k) = row_id (table ! i) \<Longrightarrow> k = i" if "k < length table"
    using assms that by (auto simp: ledger_ok_def distinct_conv_nth)
  ultimately show "table[i := f (table ! i)] ! k = map (\<lambda>r. if row_id r = row_id (table ! i) then f r else r) table ! k"
    by (cases "k = i") auto
qed simp

lemma update_first_one:
  assumes "ledger_ok table" "\<And>r. p r \<Longrightarrow> row_id r = i"
  shows "update_first p f table = map (\<lambda>r. if p r then f r else r) table"
  using assms
proof (induction table)
  case (Cons r table)
  have ok: "ledger_ok table" and fresh: "\<forall>s \<in> set table. row_id s \<noteq> row_id r"
    using Cons.prems(1) by (auto simp: ledger_ok_def image_iff)
  show ?case
  proof (cases "p r")
    case True
    with fresh Cons.prems(2) have "\<forall>s \<in> set table. \<not> p s" by metis
    with True show ?thesis by (simp add: map_idI)
  next
    case False
    with Cons.IH [OF ok Cons.prems(2)] show ?thesis by simp
  qed
qed simp

lemma mem_claim_is_sql:
  assumes "ledger_ok table"
  shows "mem_claim_next now process_ids visibility table = sql_claim_next first_oldest [] now process_ids visibility table"
proof (cases "process_ids = []")
  case True
  then show ?thesis by (simp add: mem_claim_next_def sql_claim_next_def plan_defs claimable_def)
next
  case False
  let ?c = "claimable now process_ids"
  let ?i = "sort_key (\<lambda>i. jr_created (rw_record (table ! i))) (filter (\<lambda>i. ?c (table ! i)) [0..<length table])"
  show ?thesis
  proof (cases ?i)
    case Nil
    with False show ?thesis using indices_oldest [of ?c table] by (simp add: mem_claim_next_def sql_claim_next_def plan_defs)
  next
    case (Cons i rest)
    have "i \<in> set ?i" using Cons by simp
    then have i: "i < length table" by simp
    then have f: "find_row table (row_id (table ! i)) = Some (table ! i)" using assms by (simp add: find_row_Some)
    have "first_oldest (filter ?c table) = Some (table ! i)" using indices_oldest [of ?c table] Cons by simp
    with False Cons the_row_update [OF assms, of "\<lambda>r. row_id r = row_id (table ! i)" "row_id (table ! i)"] f
      update_at [OF assms i, of "claim_row now visibility"]
    show ?thesis by (simp add: mem_claim_next_def sql_claim_next_def plan_defs Let_def sql_update_def)
  qed
qed

lemma mem_finish_is_sql:
  assumes "ledger_ok table"
  shows "mem_finish now job_id outcome table = sql_finish now job_id outcome table"
proof -
  have eq: "sql_finish_row now outcome r = finish_row now outcome r" if "r \<in> set table" "runs job_id r" for r
    using assms that by (simp add: sql_finish_row_eq ledger_ok_def list_all_iff runs_def)
  then have upd: "sql_update (runs job_id) (sql_finish_row now outcome) table = sql_update (runs job_id) (finish_row now outcome) table"
    by (auto simp: sql_update_def)
  have one: "filter (runs job_id) table = (case find_row table job_id of Some r \<Rightarrow> if runs job_id r then [r] else [] | None \<Rightarrow> [])"
    by (rule filter_one [OF assms]) (simp add: runs_def)
  have none: "map (\<lambda>r. if runs job_id r then finish_row now outcome r else r) table = table" if "filter (runs job_id) table = []"
    using that by (auto simp: filter_empty_conv intro: map_idI)
  have first: "update_first (runs job_id) (finish_row now outcome) table
      = map (\<lambda>r. if runs job_id r then finish_row now outcome r else r) table"
    by (rule update_first_one [OF assms]) (simp add: runs_def)
  show ?thesis
    unfolding mem_finish_def sql_finish_def plan_defs upd find_first first
    using one none by (auto simp: sql_update_def the_row_def split: option.splits if_splits)
qed

lemma mem_dismiss_is_sql:
  assumes "ledger_ok table"
  shows "mem_dismiss now scope job_id table = sql_dismiss now scope job_id table table"
proof -
  let ?p = "\<lambda>r. in_scope scope job_id r \<and> in_play r"
  have one: "filter p table = (case find_row table job_id of Some r \<Rightarrow> if p r then [r] else [] | None \<Rightarrow> [])"
    if "\<And>r. p r \<Longrightarrow> row_id r = job_id" for p
    by (rule filter_one [OF assms]) (rule that)
  have in_scope: "filter (in_scope scope job_id) table =
      (case find_row table job_id of Some r \<Rightarrow> if in_scope scope job_id r then [r] else [] | None \<Rightarrow> [])"
    by (rule one) (simp add: in_scope_def)
  have both: "filter ?p table = (case find_row table job_id of Some r \<Rightarrow> if ?p r then [r] else [] | None \<Rightarrow> [])"
    by (rule one) (simp add: in_scope_def)
  show ?thesis
  proof (cases "filter ?p table")
    case Nil
    then have "map (\<lambda>r. if ?p r then dismiss_row now r else r) table = table"
      by (intro map_idI) (auto simp: filter_empty_conv)
    with Nil in_scope both show ?thesis
      by (auto simp: mem_dismiss_def sql_dismiss_def sql_update_def sql_get_def plan_defs the_row_def find_first split: option.splits if_splits)
  next
    case (Cons r rest)
    with both have r: "find_row table job_id = Some r" "in_scope scope job_id r" "in_play r" "rest = []"
      by (auto split: option.splits if_splits)
    have "update_first (in_scope scope job_id) (dismiss_row now) table
        = map (\<lambda>s. if in_scope scope job_id s then dismiss_row now s else s) table"
      by (rule update_first_one [OF assms]) (simp add: in_scope_def)
    also have "\<dots> = map (\<lambda>s. if ?p s then dismiss_row now s else s) table"
      using r find_row_Some [OF assms] same_row [OF assms] by (auto simp: in_scope_def)
    finally show ?thesis using r in_scope Cons
      by (simp add: mem_dismiss_def sql_dismiss_def plan_defs sql_update_def the_row_def find_first)
  qed
qed

lemma mem_get_is_sql: "ledger_ok table \<Longrightarrow> mem_get scope job_id table = sql_get scope job_id table"
  using filter_one [of table "in_scope scope job_id" job_id]
  by (auto simp: mem_get_def sql_get_def plan_defs the_row_def find_first in_scope_def split: option.splits if_splits list.splits)

text \<open>The two stores word one refusal differently.\<close>

fun same_answer :: "'j job_answer \<Rightarrow> 'j job_answer \<Rightarrow> bool" where
  "same_answer (Recorded (Inl _)) (Recorded (Inl _)) = True"
| "same_answer a b = (a = b)"

lemma same_answer_refl [simp]: "same_answer a a"
  by (cases "(a, a)" rule: same_answer.cases) simp_all

lemma mem_enqueue_is_sql:
  "same_answer (Recorded (fst (mem_enqueue now sub table))) (Recorded (fst (sql_enqueue now sub table table)))
   \<and> snd (mem_enqueue now sub table) = snd (sql_enqueue now sub table table)"
proof -
  have held: "list_ex (indexed_alike (new_row now sub)) table \<longleftrightarrow>
      (\<exists>key. sb_dedup_key sub = Some key \<and> filter (holds_key sub key) table \<noteq> [])"
    by (auto simp: list_ex_iff filter_empty_conv indexed_alike_def holds_key_def new_row_def)
  have split: "list_ex (\<lambda>r. row_id r = sb_job_id sub \<or> indexed_alike (new_row now sub) r) table \<longleftrightarrow>
      list_ex (\<lambda>r. row_id r = sb_job_id sub) table \<or> list_ex (indexed_alike (new_row now sub)) table"
    by (auto simp: list_ex_iff)
  show ?thesis
  proof (cases "sb_dedup_key sub")
    case None
    with held show ?thesis by (simp add: mem_enqueue_def sql_enqueue_def plan_defs sql_insert_def split)
  next
    case (Some key)
    with held show ?thesis
      by (cases "filter (holds_key sub key) table")
        (simp_all add: mem_enqueue_def sql_enqueue_def plan_defs sql_insert_def split find_first)
  qed
qed

lemma mem_call_is_sql:
  assumes "ledger_ok table" "case c of Claim _ _ _ row_locks \<Rightarrow> row_locks = [] | _ \<Rightarrow> True"
  shows "same_answer (fst (mem_call c table)) (fst (sql_call first_oldest c table))
    \<and> snd (mem_call c table) = snd (sql_call first_oldest c table)"
  using assms mem_enqueue_is_sql
  by (cases c) (simp_all add: mem_claim_is_sql mem_finish_is_sql mem_dismiss_is_sql mem_get_is_sql)

fun unlocked :: "'j job_call \<Rightarrow> 'j job_call" where
  "unlocked (Claim now process_ids visibility row_locks) = Claim now process_ids visibility []"
| "unlocked c = c"

lemma mem_call_unlocked:
  "ledger_ok table \<Longrightarrow> same_answer (fst (mem_call c table)) (fst (sql_call first_oldest (unlocked c) table))"
  "ledger_ok table \<Longrightarrow> snd (mem_call c table) = snd (sql_call first_oldest (unlocked c) table)"
  using mem_call_is_sql [of table "unlocked c"] by (cases c; simp)+

lemma row_move_unlocked [simp]: "row_move (unlocked c) r r' \<longleftrightarrow> row_move c r r'"
  by (cases c) simp_all

interpretation memory: job_store ledger_ok find_row mem_call
proof unfold_locales
  fix table :: "'a ledger" and c
  assume ok: "ledger_ok table"
  show "ledger_ok (snd (mem_call c table))"
    using ok by (simp add: mem_call_unlocked sql_call_ok first_oldest_picks)
  show "\<exists>r'. find_row (snd (mem_call c table)) i = Some r' \<and> (r' = r \<or> row_move c r r')"
    if "find_row table i = Some r" for i r
    using sql_call_moves [OF first_oldest_picks ok that, of "unlocked c"] ok by (simp add: mem_call_unlocked)
  show "mem_call (Get scope i) table = (Found (read_row scope (find_row table i)), table)" for scope i
    using ok by (simp add: mem_get_is_sql sql_get_reads)
  show "\<exists>r. find_row table (jr_job_id job) = Some r \<and> claimable now process_ids r
      \<and> find_row table' (jr_job_id job) = Some (claim_row now visibility r) \<and> job = rw_record (claim_row now visibility r)"
    if "mem_call (Claim now process_ids visibility row_locks) table = (Found (Some job), table')"
    for now process_ids visibility row_locks job table'
    using sql_claim_takes [OF first_oldest_picks ok, of now process_ids visibility "[]" job table'] that ok
    by (simp add: mem_claim_is_sql)
qed

section \<open>Properties\<close>

lemma reachable_ledger_ok: "picks_oldest pick \<Longrightarrow> ledger_ok (snd (run_calls (sql_call pick) calls []))"
  by (rule job_store.good_run [OF sql_job_store]) simp_all

text \<open>
  C37. Whatever calls the clients of the PostgreSQL store make and whatever rows the database
  picks and skips, the table stays well-formed: identifiers are unique, no two jobs in play hold one
  idempotency key, and every row carries exactly what its status allows (results when successful, a
  message when failed or dismissed, a reservation while running, an end when terminal, a start and
  attempts once claimed).\<close>

theorem reachable_ledger_is_well_formed:
  assumes "picks_oldest pick"
  shows "ledger_ok (snd (run_calls (sql_call pick) calls []))"
  by (rule reachable_ledger_ok [OF assms])

text \<open>
  C38. The in-memory store the tests use answers every run of calls as the PostgreSQL statements do when
  the database takes the first of the oldest rows and skips none, and holds the same rows. A refusal is compared
  only as a refusal: the two word it differently.\<close>

theorem memory_store_answers_as_statements:
  assumes "list_all (\<lambda>c. case c of Claim _ _ _ row_locks \<Rightarrow> row_locks = [] | _ \<Rightarrow> True) calls"
  shows "list_all2 same_answer (fst (run_calls mem_call calls [])) (fst (run_calls (sql_call first_oldest) calls []))
    \<and> snd (run_calls mem_call calls []) = snd (run_calls (sql_call first_oldest) calls [])"
proof -
  have "list_all2 same_answer (fst (run_calls mem_call calls l)) (fst (run_calls (sql_call first_oldest) calls l))
      \<and> snd (run_calls mem_call calls l) = snd (run_calls (sql_call first_oldest) calls l)" if "ledger_ok l" for l :: "'a ledger"
    using assms that
    by (induction calls arbitrary: l) (simp_all add: mem_call_is_sql sql_call_ok first_oldest_picks)
  then show ?thesis by simp
qed

text \<open>
  A finished job is final: once a read answers a successful, failed or dismissed job, every later
  read in its scope answers the same record, whatever is called in between.\<close>

lemma finished_job_never_changes:
  assumes "picks_oldest pick" "run_calls (sql_call pick) before [] = (answers, table)"
    and "sql_get scope job_id table = Some job" "is_terminal (jr_status job)"
  shows "sql_get scope job_id (snd (run_calls (sql_call pick) later table)) = Some job"
proof -
  note store = sql_job_store [OF assms(1)]
  have ok: "ledger_ok table" using reachable_ledger_ok [OF assms(1), of before] assms(2) by simp
  note later = job_store.good_run [OF store ok, of later]
  from assms(3) obtain r where r: "find_row table job_id = Some r" "rw_record r = job" "jr_scope job = scope"
    by (auto simp: sql_get_reads [OF ok] read_row_def split: option.splits if_splits)
  have "find_row (snd (run_calls (sql_call pick) later table)) job_id = Some r"
    using job_store.terminal_stays [OF store ok r(1)] r(2) assms(4) by simp
  with r show ?thesis by (simp add: sql_get_reads [OF later] read_row_def)
qed

text \<open>
  C24. A claim reserves its job: until the visibility window is over, no other claim of any client takes
  the job it answered, whatever is called in between.\<close>

theorem claim_is_exclusive_in_its_window:
  assumes "picks_oldest pick" "run_calls (sql_call pick) before [] = (answers, table)"
    and "sql_claim_next pick row_locks now process_ids visibility table = (Some job, table')"
    and "list_all (\<lambda>c. call_time c \<le> now + visibility) later"
    and "(Claim now' process_ids' visibility' row_locks', Found (Some job')) \<in> set (zip later (fst (run_calls (sql_call pick) later table')))"
  shows "jr_job_id job' \<noteq> jr_job_id job"
proof -
  note store = sql_job_store [OF assms(1)]
  have ok: "ledger_ok table" using reachable_ledger_ok [OF assms(1), of before] assms(2) by simp
  have "sql_call pick (Claim now process_ids visibility row_locks) table = (Found (Some job), table')"
    using assms(3) by simp
  note claimed = job_store.claimed_is_held [OF store ok this]
  show ?thesis by (rule job_store.held_run [OF store claimed assms(4,5)])
qed

lemma claimed_is_taken: "\<not> claimable now process_ids (claim_row now visibility r)"
  by (simp add: claimable_def claim_row_def)

lemma claim_removes:
  assumes "ledger_ok table" "selected \<in> set table" "claimable now process_ids selected"
  shows "mset (filter (claimable now process_ids) table) = add_mset selected
    (mset (filter (claimable now process_ids)
       (snd (sql_update (\<lambda>r. row_id r = row_id selected) (claim_row now visibility) table))))"
proof -
  let ?c = "claimable now process_ids" and ?q = "\<lambda>r. row_id r = row_id selected"
  have "filter (\<lambda>r. ?c r \<and> ?q r) table = [selected]"
    using filter_one [OF assms(1), of "\<lambda>r. ?c r \<and> ?q r" "row_id selected"] assms
    by (simp add: find_row_Some [THEN iffD2])
  moreover have "filter ?c (map (\<lambda>r. if ?q r then claim_row now visibility r else r) table) = filter (\<lambda>r. ?c r \<and> \<not> ?q r) table"
    by (induction table) (auto simp: claimed_is_taken)
  moreover have "mset (filter ?c table) = mset (filter (\<lambda>r. ?c r \<and> ?q r) table) + mset (filter (\<lambda>r. ?c r \<and> \<not> ?q r) table)"
    by (induction table) auto
  ultimately show ?thesis by (simp add: sql_update_def)
qed

lemma backlog_drains:
  assumes "picks_oldest pick"
  shows "ledger_ok table \<Longrightarrow> length (filter (claimable now process_ids) table) = n \<Longrightarrow>
    \<exists>rs. fst (run_calls (sql_call pick) (replicate (Suc n) (Claim now process_ids visibility [])) table)
        = map (\<lambda>r. Found (Some (rw_record (claim_row now visibility r)))) rs @ [Found None]
      \<and> mset rs = mset (filter (claimable now process_ids) table)
      \<and> sorted (map (\<lambda>r. jr_created (rw_record r)) rs)"
proof (induction n arbitrary: table)
  case 0
  then have "filter (claimable now process_ids) table = []" by simp
  moreover have "fst (sql_claim_next pick [] now process_ids visibility table) = None"
    using 0 by (cases rule: sql_claim_cases [OF assms, of "[]" now process_ids visibility table]) (auto simp: filter_empty_conv)
  ultimately show ?case by simp
next
  case (Suc n)
  let ?c = "claimable now process_ids"
  show ?case
  proof (cases rule: sql_claim_cases [OF assms, of "[]" now process_ids visibility table])
    case 1
    with Suc.prems(2) show ?thesis by simp
  next
    case (2 selected)
    define table' where "table' = snd (sql_update (\<lambda>r. row_id r = row_id selected) (claim_row now visibility) table)"
    have taken: "sql_call pick (Claim now process_ids visibility []) table = (Found (Some (rw_record (claim_row now visibility selected))), table')"
      using 2(4) the_row_update [OF Suc.prems(1), of "\<lambda>r. row_id r = row_id selected" "row_id selected"]
        find_row_Some [OF Suc.prems(1), of "row_id selected" selected] 2(1) by (simp add: table'_def)
    have ok: "ledger_ok table'" using sql_call_ok [OF assms Suc.prems(1), of "Claim now process_ids visibility []"] unfolding taken by simp
    note m = claim_removes [OF Suc.prems(1) 2(1,2), of visibility, folded table'_def]
    then have "length (filter ?c table') = n" using Suc.prems(2) by (metis Suc_inject size_add_mset size_mset)
    from Suc.IH [OF ok this] obtain rs where rs:
      "fst (run_calls (sql_call pick) (replicate (Suc n) (Claim now process_ids visibility [])) table')
         = map (\<lambda>r. Found (Some (rw_record (claim_row now visibility r)))) rs @ [Found None]"
      "mset rs = mset (filter ?c table')" "sorted (map (\<lambda>r. jr_created (rw_record r)) rs)" by blast
    have "set rs \<subseteq> set (filter ?c table)" using m rs(2) by (metis add_mset_add_single set_mset_mset set_mset_mono subset_mset.le_add_same_cancel1 subset_mset.zero_le)
    moreover have "jr_created (rw_record selected) \<le> jr_created (rw_record s)" if "s \<in> set (filter ?c table)" for s
      using picked(2) [OF assms 2(3)] that by simp
    ultimately have "sorted (map (\<lambda>r. jr_created (rw_record r)) (selected # rs))" using rs(3) by auto
    moreover have "mset (selected # rs) = mset (filter ?c table)" using m rs(2) by simp
    moreover have "fst (run_calls (sql_call pick) (replicate (Suc (Suc n)) (Claim now process_ids visibility [])) table)
        = map (\<lambda>r. Found (Some (rw_record (claim_row now visibility r)))) (selected # rs) @ [Found None]"
      using rs(1) taken by (simp only: replicate_Suc run_calls_Cons fst_conv snd_conv list.map append_Cons)
    ultimately show ?thesis by blast
  qed
qed

text \<open>
  A backlog drains: at any instant, as many claims as there are claimable jobs hand out each of them
  exactly once, the oldest first, and the next claim finds the ledger idle.\<close>

lemma backlog_drains_in_order:
  assumes "picks_oldest pick" "run_calls (sql_call pick) before [] = (answers, table)"
  shows "\<exists>rs. fst (run_calls (sql_call pick)
        (replicate (Suc (length (filter (claimable now process_ids) table))) (Claim now process_ids visibility [])) table)
      = map (\<lambda>r. Found (Some (rw_record (claim_row now visibility r)))) rs @ [Found None]
    \<and> mset rs = mset (filter (claimable now process_ids) table)
    \<and> sorted (map (\<lambda>r. jr_created (rw_record r)) rs)"
proof -
  have "ledger_ok table" using reachable_ledger_ok [OF assms(1), of before] assms(2) by simp
  then show ?thesis by (rule backlog_drains [OF assms(1) _ refl])
qed

section \<open>Examples\<close>

definition sample_scope :: job_scope where "sample_scope = \<lparr>sc_tenant = ''t1'', sc_catalog = ''c1''\<rparr>"

definition sample_submission :: "string \<Rightarrow> string option \<Rightarrow> unit job_submission" where
  "sample_submission i key = \<lparr>sb_job_id = i, sb_process_id = ''p'', sb_scope = sample_scope, sb_inputs = (), sb_dedup_key = key\<rparr>"

text \<open>
  \<open>JobStore::finish\<close> is documented to answer nothing for a job whose window lapsed and that somebody else
  claimed again. It records the outcome of the first claimant, and the second one learns nothing.
\<close>

lemma stale_finish_is_recorded:
  "fst (run_calls (sql_call first_oldest)
     [Enqueue 1 (sample_submission ''a'' None), Claim 2 [''p''] 10 [], Claim 20 [''p''] 10 [],
      Finish 21 ''a'' (Failed_With ''first''), Finish 22 ''a'' (Succeeded ())] [])
   = [Recorded (Inr (rw_record (new_row 1 (sample_submission ''a'' None)))),
      Found (Some (rw_record (claim_row 2 10 (new_row 1 (sample_submission ''a'' None))))),
      Found (Some (rw_record (claim_row 20 10 (claim_row 2 10 (new_row 1 (sample_submission ''a'' None)))))),
      Found (Some (rw_record (sql_finish_row 21 (Failed_With ''first'')
        (claim_row 20 10 (claim_row 2 10 (new_row 1 (sample_submission ''a'' None))))))),
      Found None]"
  by code_simp

definition sample_calls :: "unit job_call list" where
  "sample_calls = [Enqueue 1 (sample_submission ''a'' (Some ''k'')), Enqueue 2 (sample_submission ''b'' (Some ''k'')),
     Enqueue 3 (sample_submission ''c'' None), Claim 4 [''p''] 10 []]"

definition sample_table :: "unit ledger" where
  "sample_table = snd (run_calls (sql_call first_oldest) sample_calls [])"

definition sample_finished :: "unit ledger" where
  "sample_finished = snd (run_calls (sql_call first_oldest) [Finish 5 ''a'' (Succeeded ())] sample_table)"

lemma sample_finished_run:
  "sample_finished = snd (run_calls (sql_call first_oldest) (sample_calls @ [Finish 5 ''a'' (Succeeded ())]) [])"
  by (simp add: sample_finished_def sample_table_def run_calls_append)

theorem reachable_ledger_is_well_formed_witness:
  "ledger_ok sample_finished \<and> map row_id sample_finished = [''a'', ''c''] \<and> map row_status sample_finished = [Successful, Accepted]"
proof -
  have "map row_id sample_finished = [''a'', ''c''] \<and> map row_status sample_finished = [Successful, Accepted]" by code_simp
  then show ?thesis
    using reachable_ledger_is_well_formed [OF first_oldest_picks, of "sample_calls @ [Finish 5 ''a'' (Succeeded ())]"]
    by (simp add: sample_finished_run)
qed

theorem memory_store_answers_as_statements_witness:
  "list_all2 same_answer (fst (run_calls mem_call sample_calls [])) (fst (run_calls (sql_call first_oldest) sample_calls []))
   \<and> snd (run_calls mem_call sample_calls []) = sample_table \<and> map row_status sample_table = [Running, Accepted]"
proof -
  have "map row_status sample_table = [Running, Accepted]" by code_simp
  then show ?thesis using memory_store_answers_as_statements [of sample_calls] by (simp add: sample_calls_def sample_table_def)
qed

lemma finished_job_never_changes_example:
  "\<exists>job. sql_get sample_scope ''a'' sample_finished = Some job \<and> jr_status job = Successful
     \<and> sql_get sample_scope ''a''
         (snd (run_calls (sql_call first_oldest) [Dismiss 9 sample_scope ''a'', Claim 50 [''p''] 5 []] sample_finished)) = Some job"
proof -
  have "map_option jr_status (sql_get sample_scope ''a'' sample_finished) = Some Successful" by code_simp
  then obtain job where job: "sql_get sample_scope ''a'' sample_finished = Some job" "jr_status job = Successful" by auto
  from finished_job_never_changes [OF first_oldest_picks surjective_pairing, of sample_scope "''a''" "sample_calls @ [Finish 5 ''a'' (Succeeded ())]"
      job "[Dismiss 9 sample_scope ''a'', Claim 50 [''p''] 5 []]"] job
  show ?thesis by (simp add: sample_finished_run [symmetric])
qed

definition sample_claimed :: "unit ledger" where
  "sample_claimed = snd (sql_claim_next first_oldest [] 6 [''p''] 10 sample_table)"

theorem claim_is_exclusive_in_its_window_witness:
  "\<exists>job job'. sql_claim_next first_oldest [] 6 [''p''] 10 sample_table = (Some job, sample_claimed)
     \<and> run_calls (sql_call first_oldest) [Claim 15 [''p''] 5 []] sample_claimed
         = ([Found (Some job')], snd (run_calls (sql_call first_oldest) [Claim 15 [''p''] 5 []] sample_claimed))
     \<and> jr_job_id job = ''c'' \<and> jr_job_id job' \<noteq> jr_job_id job"
proof -
  have "map_option jr_job_id (fst (sql_claim_next first_oldest [] 6 [''p''] 10 sample_table)) = Some ''c''" by code_simp
  then obtain job where claimed: "fst (sql_claim_next first_oldest [] 6 [''p''] 10 sample_table) = Some job" "jr_job_id job = ''c''"
    by auto
  then have job: "sql_claim_next first_oldest [] 6 [''p''] 10 sample_table = (Some job, sample_claimed)"
    by (metis prod.collapse sample_claimed_def)
  have run: "run_calls (sql_call first_oldest) sample_calls [] = (fst (run_calls (sql_call first_oldest) sample_calls []), sample_table)"
    by (simp add: sample_table_def)
  have "fst (sql_claim_next first_oldest [] 15 [''p''] 5 sample_claimed) \<noteq> None" by code_simp
  then obtain job' where job': "fst (sql_claim_next first_oldest [] 15 [''p''] 5 sample_claimed) = Some job'" by blast
  then have answers: "fst (run_calls (sql_call first_oldest) [Claim 15 [''p''] 5 []] sample_claimed) = [Found (Some job')]"
    using job' by (simp split: prod.split)
  have "jr_job_id job' \<noteq> jr_job_id job"
    by (rule claim_is_exclusive_in_its_window [OF first_oldest_picks run job, of "[Claim 15 [''p''] 5 []]" 15 "[''p'']" 5 "[]"])
      (simp_all add: answers job')
  with job claimed(2) answers show ?thesis by (metis prod.collapse)
qed

lemma backlog_drains_in_order_example:
  "\<exists>rs. fst (run_calls (sql_call first_oldest) (replicate 3 (Claim 20 [''p''] 10 [])) sample_table)
      = map (\<lambda>r. Found (Some (rw_record (claim_row 20 10 r)))) rs @ [Found None]
    \<and> map row_id rs = [''a'', ''c'']"
proof -
  have run: "run_calls (sql_call first_oldest) sample_calls [] = (fst (run_calls (sql_call first_oldest) sample_calls []), sample_table)"
    by (simp add: sample_table_def)
  have f: "map (\<lambda>r. (row_id r, jr_created (rw_record r))) (filter (claimable 20 [''p'']) sample_table) = [(''a'', 1), (''c'', 3)]" by code_simp
  have n: "length (filter (claimable 20 [''p'']) sample_table) = 2" using arg_cong [OF f, of length] unfolding length_map by simp
  from backlog_drains_in_order [OF first_oldest_picks run, of 20 "[''p'']" 10] obtain rs where rs:
    "fst (run_calls (sql_call first_oldest) (replicate (Suc 2) (Claim 20 [''p''] 10 [])) sample_table)
       = map (\<lambda>r. Found (Some (rw_record (claim_row 20 10 r)))) rs @ [Found None]"
    "mset rs = mset (filter (claimable 20 [''p'']) sample_table)" "sorted (map (\<lambda>r. jr_created (rw_record r)) rs)"
    unfolding n by blast
  obtain x y where xy: "filter (claimable 20 [''p'']) sample_table = [x, y]" "row_id x = ''a''" "row_id y = ''c''"
    "jr_created (rw_record x) = 1" "jr_created (rw_record y) = 3" using f by (auto simp: map_eq_Cons_conv)
  have "length rs = 2" using arg_cong [OF rs(2), of size] xy(1) by simp
  then obtain a b where ab: "rs = [a, b]" by (auto simp: numeral_2_eq_2 length_Suc_conv)
  with rs(2) xy(1) have "a = x \<and> b = y \<or> a = y \<and> b = x" by (auto simp: add_eq_conv_ex)
  then have "map row_id rs = [''a'', ''c'']" using rs(3) xy ab by auto
  with rs(1) show ?thesis by (auto simp: numeral_3_eq_3 numeral_2_eq_2)
qed

end
