(* ===== verification/Outbox.thy ===== *)
theory Outbox
  imports Prelude "HOL-Library.AList"
begin

text \<open>
  The transactional outbox and the derived index: the records of \<open>crates/tellurion-core/src/outbox.rs\<close>, the
  statements of \<open>crates/tellurion-postgis/src/write_sql.rs\<close> and \<open>index_sql.rs\<close> as the driver runs them, the
  pump of \<open>applier.rs\<close>, the floor of \<open>retention.rs\<close> and the rebuild job of
  \<open>tellurion-server/src/process_lane.rs\<close>. The clients of one collection interleave: a write is a transaction
  of two statements and a commit, and takes its sequence number before it commits, an applier reads a
  batch and applies it obligation by obligation. Sequence numbers, positive 64-bit integers of a
  \<open>bigserial\<close> column, are natural numbers. The payload of an obligation is opaque to the outbox and to the index (\<open>'d\<close>);
  for the clients it is a document, the columns it names with their values (\<open>'v\<close>), and an upsert sets
  those columns of the row and no other, as \<open>build_upsert_plan\<close> does (it always names the geometry's column, with a
  NULL where the feature has none: such a document has that column, with the value that stands for NULL). A failing statement and a process
  that dies are the same event here, the end of a transaction or of a batch.
\<close>

section \<open>Obligations and tables\<close>

datatype 'd mutation_kind = Upsert 'd | Delete

record 'd obligation =
  ob_sequence :: nat
  ob_feature_id :: string
  ob_kind :: "'d mutation_kind"
  ob_version :: nat

record 'd index_row =
  ix_feature_id :: string
  ix_version :: nat
  ix_kind :: "'d mutation_kind"

definition read_after :: "('d, 'x) obligation_scheme list \<Rightarrow> nat \<Rightarrow> nat \<Rightarrow> ('d, 'x) obligation_scheme list" where
  "read_after outbox after limit = take limit (sort_key ob_sequence (filter (\<lambda>o'. after < ob_sequence o') outbox))"

definition primary_high_water :: "('d, 'x) obligation_scheme list \<Rightarrow> nat" where
  "primary_high_water outbox = foldr (\<lambda>o'. max (ob_sequence o')) outbox 0"

definition prune_before :: "nat \<Rightarrow> nat \<Rightarrow> ('d, 'x) obligation_scheme list \<Rightarrow> ('d, 'x) obligation_scheme list" where
  "prune_before up_to batch_size outbox =
     (let pruned = map ob_sequence (take batch_size (sort_key ob_sequence (filter (\<lambda>o'. ob_sequence o' \<le> up_to) outbox)))
      in filter (\<lambda>o'. ob_sequence o' \<notin> set pruned) outbox)"

definition index_apply :: "'d obligation \<Rightarrow> 'd index_row list \<Rightarrow> 'd index_row list" where
  "index_apply o' index =
     (let row = \<lparr>ix_feature_id = ob_feature_id o', ix_version = ob_version o', ix_kind = ob_kind o'\<rparr> in
      if list_ex (\<lambda>r. ix_feature_id r = ob_feature_id o') index
      then map (\<lambda>r. if ix_feature_id r = ob_feature_id o' \<and> ix_version r < ob_version o' then row else r) index
      else index @ [row])"

definition applied_high_water :: "'d index_row list \<Rightarrow> nat" where
  "applied_high_water index = foldr (\<lambda>r. max (ix_version r)) index 0"

text \<open>What a search can find: the documents whose row is not a tombstone.\<close>

definition indexed :: "'d index_row list \<Rightarrow> string \<Rightarrow> 'd option" where
  "indexed index feature_id =
     (case List.find (\<lambda>r. ix_feature_id r = feature_id) index of
        Some r \<Rightarrow> (case ix_kind r of Upsert doc \<Rightarrow> Some doc | Delete \<Rightarrow> None)
      | None \<Rightarrow> None)"

section \<open>The pump\<close>

text \<open>\<open>rejects\<close> are the obligations the index refuses.\<close>

fun apply_all ::
  "('d obligation \<Rightarrow> bool) \<Rightarrow> 'd obligation list \<Rightarrow> 'd index_row list \<Rightarrow> ('d obligation + unit) \<times> 'd index_row list" where
  "apply_all rejects [] index = (Inr (), index)"
| "apply_all rejects (o' # obligations) index =
     (if rejects o' then (Inl o', index) else apply_all rejects obligations (index_apply o' index))"

definition drain_once ::
  "('d obligation \<Rightarrow> bool) \<Rightarrow> nat \<Rightarrow> 'd obligation list \<Rightarrow> 'd index_row list \<Rightarrow> ('d obligation + nat) \<times> 'd index_row list" where
  "drain_once rejects batch_size outbox index =
     (let cursor = applied_high_water index;
          obligations = read_after outbox cursor batch_size
      in case apply_all rejects obligations index of
           (Inl error, index) \<Rightarrow> (Inl error, index)
         | (Inr _, index) \<Rightarrow> (Inr (length obligations), index))"

definition REBUILD_BATCH_SIZE :: nat where "REBUILD_BATCH_SIZE = 200"
definition REBUILD_MAX_PASSES :: nat where "REBUILD_MAX_PASSES = 1000"

text \<open>The result of the rebuild job is the number applied and whether it is complete.\<close>

function rebuild_passes ::
  "('d obligation \<Rightarrow> bool) \<Rightarrow> 'd obligation list \<Rightarrow> nat \<Rightarrow> nat \<Rightarrow> 'd index_row list \<Rightarrow>
   ('d obligation + nat \<times> bool) \<times> 'd index_row list" where
  "rebuild_passes rejects outbox passes applied index =
     (case drain_once rejects REBUILD_BATCH_SIZE outbox index of
        (Inl error, index) \<Rightarrow> (Inl error, index)
      | (Inr batch, index) \<Rightarrow>
          if batch = 0 then (Inr (applied + batch, True), index)
          else if passes + 1 \<ge> REBUILD_MAX_PASSES then (Inr (applied + batch, False), index)
          else rebuild_passes rejects outbox (passes + 1) (applied + batch) index)"
  by pat_completeness auto
termination
  by (relation "measure (\<lambda>(rejects, outbox, passes, applied, index). REBUILD_MAX_PASSES - passes)") auto

declare rebuild_passes.simps [simp del]

definition rebuild ::
  "('d obligation \<Rightarrow> bool) \<Rightarrow> 'd obligation list \<Rightarrow> 'd index_row list \<Rightarrow> ('d obligation + nat \<times> bool) \<times> 'd index_row list" where
  "rebuild rejects outbox index = rebuild_passes rejects outbox 0 0 index"

section \<open>Retention\<close>

record consumer_lag =
  cl_name :: string
  cl_cursor :: nat
  cl_lag :: nat

record retention_floor =
  rf_high_water :: nat
  rf_floor :: nat
  rf_lags :: "consumer_lag list"

definition compute_floor :: "nat \<Rightarrow> (string \<times> nat) list \<Rightarrow> retention_floor" where
  "compute_floor high_water consumers =
     \<lparr>rf_high_water = high_water,
      rf_floor = min (case consumers of [] \<Rightarrow> high_water | (_, cursor) # cs \<Rightarrow> fold min (map snd cs) cursor) high_water,
      rf_lags = map (\<lambda>(name, cursor). \<lparr>cl_name = name, cl_cursor = cursor, cl_lag = high_water - cursor\<rparr>) consumers\<rparr>"

section \<open>Interleaved clients of one collection\<close>

text \<open>
  A transaction that has run its data statement holds the row it wrote (\<open>tx_effect\<close>): another write of
  that feature waits. A delete that finds no committed row matches nothing and waits for nobody.
  \<open>wd_log\<close> is history: every obligation ever committed, in the order of the commits.
\<close>

type_synonym 'v document = "(string \<times> 'v) list"
type_synonym 'v row = "string \<rightharpoonup> 'v"

record 'v open_txn =
  tx_feature :: string
  tx_kind :: "'v document mutation_kind"
  tx_effect :: bool
  tx_sequence :: "nat option"

record 'v world =
  wd_rows :: "string \<Rightarrow> 'v row option"
  wd_open :: "(nat \<times> 'v open_txn) list"
  wd_next :: nat
  wd_log :: "'v document obligation list"
  wd_outbox :: "'v document obligation list"
  wd_index :: "'v document index_row list"
  wd_pending :: "nat \<Rightarrow> 'v document obligation list"

datatype 'v event =
    Write nat string "'v document mutation_kind"
  | Take_Sequence nat
  | Commit nat
  | Rollback nat
  | Read_Batch nat nat
  | Apply_Next nat
  | Crash nat
  | Prune "(string \<times> nat) list" nat

definition empty_world :: "'v world" where
  "empty_world = \<lparr>wd_rows = (\<lambda>_. None), wd_open = [], wd_next = 1, wd_log = [], wd_outbox = [], wd_index = [],
     wd_pending = (\<lambda>_. [])\<rparr>"

definition is_upsert :: "'d mutation_kind \<Rightarrow> bool" where
  "is_upsert kind = (case kind of Upsert _ \<Rightarrow> True | Delete \<Rightarrow> False)"

text \<open>A column that no upsert has named is absent from the row: it holds what the insert left there.\<close>

definition write_row :: "string \<Rightarrow> 'v document mutation_kind \<Rightarrow> (string \<Rightarrow> 'v row option) \<Rightarrow> string \<Rightarrow> 'v row option" where
  "write_row feature_id kind rows =
     rows(feature_id := (case kind of
         Upsert doc \<Rightarrow> Some ((case rows feature_id of Some row \<Rightarrow> row | None \<Rightarrow> (\<lambda>_. None)) ++ map_of doc)
       | Delete \<Rightarrow> None))"

definition obligation_of :: "'v open_txn \<Rightarrow> nat \<Rightarrow> 'v document obligation" where
  "obligation_of x s = \<lparr>ob_sequence = s, ob_feature_id = tx_feature x, ob_kind = tx_kind x, ob_version = s\<rparr>"

fun event_step :: "'v event \<Rightarrow> 'v world \<Rightarrow> 'v world option" where
  "event_step (Write t feature_id kind) w =
     (let effect = is_upsert kind \<or> wd_rows w feature_id \<noteq> None in
      if map_of (wd_open w) t \<noteq> None \<or> effect \<and> list_ex (\<lambda>(_, x). tx_feature x = feature_id \<and> tx_effect x) (wd_open w)
      then None
      else Some (w\<lparr>wd_open := (t, \<lparr>tx_feature = feature_id, tx_kind = kind, tx_effect = effect, tx_sequence = None\<rparr>) # wd_open w\<rparr>))"
| "event_step (Take_Sequence t) w =
     (case map_of (wd_open w) t of
        Some x \<Rightarrow>
          if tx_sequence x \<noteq> None then None
          else Some (w\<lparr>wd_open := AList.update t (x\<lparr>tx_sequence := Some (wd_next w)\<rparr>) (wd_open w), wd_next := wd_next w + 1\<rparr>)
      | None \<Rightarrow> None)"
| "event_step (Commit t) w =
     (case map_of (wd_open w) t of
        Some x \<Rightarrow>
          (case tx_sequence x of
             Some s \<Rightarrow>
               Some (w\<lparr>wd_rows := (if tx_effect x then write_row (tx_feature x) (tx_kind x) (wd_rows w) else wd_rows w),
                       wd_open := AList.delete t (wd_open w),
                       wd_log := wd_log w @ [obligation_of x s],
                       wd_outbox := wd_outbox w @ [obligation_of x s]\<rparr>)
           | None \<Rightarrow> None)
      | None \<Rightarrow> None)"
| "event_step (Rollback t) w = Some (w\<lparr>wd_open := AList.delete t (wd_open w)\<rparr>)"
| "event_step (Read_Batch p batch_size) w =
     Some (w\<lparr>wd_pending := (wd_pending w)(p := read_after (wd_outbox w) (applied_high_water (wd_index w)) batch_size)\<rparr>)"
| "event_step (Apply_Next p) w =
     (case wd_pending w p of
        [] \<Rightarrow> None
      | o' # obligations \<Rightarrow>
          Some (w\<lparr>wd_index := index_apply o' (wd_index w), wd_pending := (wd_pending w)(p := obligations)\<rparr>))"
| "event_step (Crash p) w = Some (w\<lparr>wd_pending := (wd_pending w)(p := [])\<rparr>)"
| "event_step (Prune consumers batch_size) w =
     Some (w\<lparr>wd_outbox := prune_before
       (rf_floor (compute_floor (primary_high_water (wd_outbox w)) ((''index'', applied_high_water (wd_index w)) # consumers)))
       batch_size (wd_outbox w)\<rparr>)"

fun run_events :: "'v event list \<Rightarrow> 'v world \<Rightarrow> 'v world option" where
  "run_events [] w = Some w"
| "run_events (e # es) w = Option.bind (event_step e w) (run_events es)"

text \<open>
  The discipline the index relies on: sequence numbers are committed in their order, and a delete
  that matched no row commits only while there is still none.
\<close>

definition orderly_step :: "'v event \<Rightarrow> 'v world \<Rightarrow> bool" where
  "orderly_step e w =
     (case e of
        Commit t \<Rightarrow>
          (case map_of (wd_open w) t of
             Some x \<Rightarrow>
               (case tx_sequence x of Some s \<Rightarrow> list_all (\<lambda>o'. ob_sequence o' < s) (wd_log w) | None \<Rightarrow> True)
               \<and> (tx_effect x \<or> wd_rows w (tx_feature x) = None)
           | None \<Rightarrow> True)
      | _ \<Rightarrow> True)"

fun orderly :: "'v event list \<Rightarrow> 'v world \<Rightarrow> bool" where
  "orderly [] w = True"
| "orderly (e # es) w = (orderly_step e w \<and> (case event_step e w of Some w' \<Rightarrow> orderly es w' | None \<Rightarrow> True))"

text \<open>The primary as the fold of a history.\<close>

definition replay :: "'v document obligation list \<Rightarrow> string \<Rightarrow> 'v row option" where
  "replay log = fold (\<lambda>o'. write_row (ob_feature_id o') (ob_kind o')) log (\<lambda>_. None)"

text \<open>
  The documents of a history: the payload of the last upsert of each feature that is not deleted since. A document
  is not the row where its upsert left columns out. What there is to compare: the same features, and every column a
  document names has its value in the row; and where all upserts name the same columns, the documents are the rows.
\<close>

definition latest_documents :: "'d obligation list \<Rightarrow> string \<Rightarrow> 'd option" where
  "latest_documents log =
     fold (\<lambda>o' docs. docs(ob_feature_id o' := (case ob_kind o' of Upsert doc \<Rightarrow> Some doc | Delete \<Rightarrow> None))) log (\<lambda>_. None)"

definition shows_rows :: "(string \<Rightarrow> 'v document option) \<Rightarrow> (string \<Rightarrow> 'v row option) \<Rightarrow> bool" where
  "shows_rows docs rows \<longleftrightarrow> (\<forall>f. rel_option (\<lambda>doc row. map_of doc \<subseteq>\<^sub>m row) (docs f) (rows f))"

definition names_all :: "string set \<Rightarrow> 'v document obligation \<Rightarrow> bool" where
  "names_all columns o' \<longleftrightarrow> (case ob_kind o' of Upsert doc \<Rightarrow> fst ` set doc = columns | Delete \<Rightarrow> True)"

definition same_rows :: "(string \<Rightarrow> 'v document option) \<Rightarrow> (string \<Rightarrow> 'v row option) \<Rightarrow> bool" where
  "same_rows docs rows \<longleftrightarrow> (\<forall>f. map_option map_of (docs f) = rows f)"

end
