(* ===== verification/Index_Convergence.thy ===== *)
theory Index_Convergence
  imports Outbox
begin

text \<open>
  What the derived index shows of the primary. \<open>history_ok\<close> is a history whose sequence numbers
  ascend, \<open>world_ok\<close> the invariant of the interleaved clients when commits come in order: the index is the
  fold of a prefix of the history and every batch in flight is a segment that starts inside that prefix.
\<close>

section \<open>Folding a history\<close>

definition history_ok :: "'d obligation list \<Rightarrow> bool" where
  "history_ok log \<longleftrightarrow>
     sorted_wrt (<) (map ob_sequence log) \<and> list_all (\<lambda>o'. 0 < ob_sequence o' \<and> ob_version o' = ob_sequence o') log"

definition index_of :: "'d obligation list \<Rightarrow> 'd index_row list" where
  "index_of log = fold index_apply log []"

lemma index_of_Nil [simp]: "index_of [] = []"
  by (simp add: index_of_def)

lemma index_of_snoc [simp]: "index_of (log @ [o']) = index_apply o' (index_of log)"
  by (simp add: index_of_def)

lemma replay_Nil [simp]: "replay [] = (\<lambda>_. None)"
  by (simp add: replay_def)

lemma replay_snoc [simp]: "replay (log @ [o']) = write_row (ob_feature_id o') (ob_kind o') (replay log)"
  by (simp add: replay_def)

lemma latest_documents_Nil [simp]: "latest_documents [] = (\<lambda>_. None)"
  by (simp add: latest_documents_def)

lemma latest_documents_snoc [simp]:
  "latest_documents (log @ [o']) =
     (latest_documents log)(ob_feature_id o' := (case ob_kind o' of Upsert doc \<Rightarrow> Some doc | Delete \<Rightarrow> None))"
  by (simp add: latest_documents_def)

text \<open>A document shows what its upsert wrote, and an upsert of the columns a row has leaves the document itself.\<close>

lemma latest_show_rows: "shows_rows (latest_documents log) (replay log)"
  by (induction log rule: rev_induct) (auto simp: shows_rows_def write_row_def split: mutation_kind.split)

lemma same_columns: "fst ` set doc = columns \<Longrightarrow> dom row \<subseteq> columns \<Longrightarrow> row ++ map_of doc = map_of doc"
  by (rule ext) (auto simp: map_add_def dom_def image_iff split: option.split dest!: map_of_eq_None_iff [THEN iffD1])

lemma latest_are_rows:
  assumes "list_all (names_all columns) log"
  shows "same_rows (latest_documents log) (replay log) \<and> (\<forall>f row. replay log f = Some row \<longrightarrow> dom row = columns)"
  using assms
proof (induction log rule: rev_induct)
  case (snoc o' log)
  then have IH: "\<And>f. map_option map_of (latest_documents log f) = replay log f" "\<And>f row. replay log f = Some row \<Longrightarrow> dom row = columns"
    and o': "names_all columns o'" by (auto simp: same_rows_def)
  show ?case
  proof (cases "ob_kind o'")
    case (Upsert doc)
    with o' have doc: "fst ` set doc = columns" by (simp add: names_all_def)
    have "(case replay log (ob_feature_id o') of Some row \<Rightarrow> row | None \<Rightarrow> (\<lambda>_. None)) ++ map_of doc = map_of doc"
      using IH(2) doc by (intro same_columns [OF doc]) (auto split: option.split)
    with IH doc Upsert show ?thesis by (auto simp: same_rows_def write_row_def dom_map_of_conv_image_fst)
  next
    case Delete
    with IH show ?thesis by (auto simp: same_rows_def write_row_def)
  qed
qed (simp add: same_rows_def)

lemma history_ok_snoc:
  "history_ok (log @ [o']) \<longleftrightarrow>
     history_ok log \<and> (\<forall>p \<in> set log. ob_sequence p < ob_sequence o') \<and> 0 < ob_sequence o' \<and> ob_version o' = ob_sequence o'"
  by (auto simp: history_ok_def sorted_wrt_append)

lemma history_ok_append: "history_ok (log @ more_log) \<Longrightarrow> history_ok log"
  by (simp add: history_ok_def sorted_wrt_append)

lemma history_ok_take: "history_ok log \<Longrightarrow> history_ok (take n log)"
  by (metis append_take_drop_id history_ok_append)

text \<open>The rows of the index: one per feature, with the latest obligation of that feature.\<close>

definition row_for :: "'d obligation list \<Rightarrow> 'd index_row \<Rightarrow> bool" where
  "row_for log r \<longleftrightarrow>
     (\<exists>o' \<in> set log. r = \<lparr>ix_feature_id = ob_feature_id o', ix_version = ob_version o', ix_kind = ob_kind o'\<rparr>
        \<and> (\<forall>p \<in> set log. ob_feature_id p = ob_feature_id o' \<longrightarrow> ob_sequence p \<le> ob_sequence o'))"

lemma index_rows:
  "history_ok log \<Longrightarrow>
     (\<forall>r \<in> set (index_of log). row_for log r)
     \<and> (\<forall>o' \<in> set log. ob_feature_id o' \<in> ix_feature_id ` set (index_of log))
     \<and> distinct (map ix_feature_id (index_of log))"
proof (induction log rule: rev_induct)
  case (snoc o' log)
  then have ok: "history_ok log" and new: "\<forall>p \<in> set log. ob_sequence p < ob_sequence o'" "ob_version o' = ob_sequence o'"
    by (simp_all add: history_ok_snoc)
  note IH = snoc.IH [OF ok]
  let ?row = "\<lparr>ix_feature_id = ob_feature_id o', ix_version = ob_version o', ix_kind = ob_kind o'\<rparr>"
  have versions: "ix_version r < ob_version o'" if "r \<in> set (index_of log)" for r
    using IH that new ok by (fastforce simp: row_for_def history_ok_def list_all_iff)
  have row: "row_for (log @ [o']) ?row" using new by (fastforce simp: row_for_def)
  have old: "row_for (log @ [o']) r" if "r \<in> set (index_of log)" "ix_feature_id r \<noteq> ob_feature_id o'" for r
    using IH that by (fastforce simp: row_for_def)
  show ?case
  proof (cases "list_ex (\<lambda>r. ix_feature_id r = ob_feature_id o') (index_of log)")
    case True
    then have idx: "index_of (log @ [o']) = map (\<lambda>r. if ix_feature_id r = ob_feature_id o' then ?row else r) (index_of log)"
      using versions by (auto simp: index_apply_def Let_def)
    have "map ix_feature_id (index_of (log @ [o'])) = map ix_feature_id (index_of log)" unfolding idx by simp
    moreover from this have "ix_feature_id ` set (index_of (log @ [o'])) = ix_feature_id ` set (index_of log)"
      by (metis list.set_map)
    then have "\<forall>p \<in> set (log @ [o']). ob_feature_id p \<in> ix_feature_id ` set (index_of (log @ [o']))"
      using IH True by (auto simp only: list_ex_iff set_append list.set ball_Un) (metis imageI)
    moreover have "\<forall>r \<in> set (index_of (log @ [o'])). row_for (log @ [o']) r"
      unfolding idx using row old by auto
    ultimately show ?thesis using IH by presburger
  next
    case False
    then have idx: "index_of (log @ [o']) = index_of log @ [?row]" by (simp add: index_apply_def)
    from False have "\<forall>r \<in> set (index_of log). ix_feature_id r \<noteq> ob_feature_id o'" by (simp add: list_ex_iff)
    with IH row old show ?thesis unfolding idx by auto
  qed
qed simp

lemma indexed_is_latest: "history_ok log \<Longrightarrow> indexed (index_of log) = latest_documents log"
proof (induction log rule: rev_induct)
  case Nil
  show ?case by (simp add: indexed_def fun_eq_iff)
next
  case (snoc o' log)
  then have ok: "history_ok log" and new: "\<forall>p \<in> set log. ob_sequence p < ob_sequence o'" "ob_version o' = ob_sequence o'"
    by (simp_all add: history_ok_snoc)
  have versions: "ix_version r < ob_version o'" if "r \<in> set (index_of log)" for r
    using index_rows [OF ok] that new ok by (fastforce simp: row_for_def history_ok_def list_all_iff)
  have find_map: "List.find p (map g xs) = map_option g (List.find p xs)" if "\<And>x. p (g x) = p x"
    for p :: "'a index_row \<Rightarrow> bool" and g xs
    by (induction xs) (auto simp: that)
  have find_app: "List.find p (xs @ [x]) = (if p x then Some x else None)" if "\<forall>r \<in> set xs. \<not> p r"
    for p :: "'a index_row \<Rightarrow> bool" and x xs
    using that by (induction xs) auto
  have find_app_other: "List.find p (xs @ [x]) = List.find p xs" if "\<not> p x"
    for p :: "'a index_row \<Rightarrow> bool" and x xs
    using that by (induction xs) auto
  have found: "List.find (\<lambda>r. ix_feature_id r = f) (index_apply o' index) =
      (if f = ob_feature_id o' then Some \<lparr>ix_feature_id = f, ix_version = ob_version o', ix_kind = ob_kind o'\<rparr>
       else List.find (\<lambda>r. ix_feature_id r = f) index)"
    if "\<forall>r \<in> set index. ix_version r < ob_version o'" for f index
  proof (cases "list_ex (\<lambda>r. ix_feature_id r = ob_feature_id o') index")
    case True
    then obtain r where "List.find (\<lambda>r. ix_feature_id r = ob_feature_id o') index = Some r"
      by (cases "List.find (\<lambda>r. ix_feature_id r = ob_feature_id o') index") (auto simp: find_None_iff list_ex_iff)
    note first = this find_Some_D [OF this]
    show ?thesis
    proof (cases "List.find (\<lambda>r. ix_feature_id r = f) index")
      case None
      with True first show ?thesis by (auto simp: index_apply_def Let_def find_map)
    next
      case (Some q)
      with True that find_Some_D [OF Some] show ?thesis by (auto simp: index_apply_def Let_def find_map)
    qed
  next
    case False
    then show ?thesis by (auto simp: index_apply_def list_ex_iff find_app find_app_other)
  qed
  show ?case
  proof
    fix f
    show "indexed (index_of (log @ [o'])) f = latest_documents (log @ [o']) f"
      using found [of "index_of log" f] versions snoc.IH [OF ok]
      by (auto simp: indexed_def fun_eq_iff split: mutation_kind.split)
  qed
qed

lemma index_apply_known:
  assumes "history_ok log" "o' \<in> set log"
  shows "index_apply o' (index_of log) = index_of log"
proof -
  have "\<not> ix_version r < ob_version o'" if "r \<in> set (index_of log)" "ix_feature_id r = ob_feature_id o'" for r
    using index_rows [OF assms(1)] that assms by (fastforce simp: row_for_def history_ok_def list_all_iff)
  moreover have "list_ex (\<lambda>r. ix_feature_id r = ob_feature_id o') (index_of log)"
    using index_rows [OF assms(1)] assms(2) by (fastforce simp: list_ex_iff image_iff)
  ultimately show ?thesis by (simp add: index_apply_def Let_def) (rule map_idI, auto)
qed

lemma high_water_index: "history_ok log \<Longrightarrow> applied_high_water (index_of log) = (if log = [] then 0 else ob_sequence (last log))"
proof (induction log rule: rev_induct)
  case (snoc o' log)
  then have ok: "history_ok log" and new: "\<forall>p \<in> set log. ob_sequence p < ob_sequence o'" "ob_version o' = ob_sequence o'"
    by (simp_all add: history_ok_snoc)
  have versions: "\<forall>r \<in> set (index_of log). ix_version r < ob_version o'"
    using index_rows [OF ok] new ok by (fastforce simp: row_for_def history_ok_def list_all_iff)
  have le: "applied_high_water index \<le> n \<longleftrightarrow> (\<forall>r \<in> set index. ix_version r \<le> n)" for index :: "'a index_row list" and n
    by (induction index) (auto simp: applied_high_water_def)
  have mem: "\<exists>r \<in> set (index_apply o' (index_of log)). ix_version r = ob_version o'"
  proof (cases "list_ex (\<lambda>r. ix_feature_id r = ob_feature_id o') (index_of log)")
    case True
    then obtain r where r: "r \<in> set (index_of log)" "ix_feature_id r = ob_feature_id o'" by (auto simp: list_ex_iff)
    with versions have "\<lparr>ix_feature_id = ob_feature_id o', ix_version = ob_version o', ix_kind = ob_kind o'\<rparr>
        \<in> (\<lambda>r. if ix_feature_id r = ob_feature_id o' \<and> ix_version r < ob_version o'
            then \<lparr>ix_feature_id = ob_feature_id o', ix_version = ob_version o', ix_kind = ob_kind o'\<rparr> else r) ` set (index_of log)"
      by (intro image_eqI [of _ _ r]) auto
    with True have "\<lparr>ix_feature_id = ob_feature_id o', ix_version = ob_version o', ix_kind = ob_kind o'\<rparr>
        \<in> set (index_apply o' (index_of log))"
      by (simp only: index_apply_def Let_def if_True set_map)
    then show ?thesis by (rule bexI [rotated]) simp
  next
    case False
    then show ?thesis by (auto simp: index_apply_def)
  qed
  have all: "\<forall>r \<in> set (index_apply o' (index_of log)). ix_version r \<le> ob_version o'"
    using versions by (auto simp: index_apply_def Let_def less_imp_le)
  have "applied_high_water (index_apply o' (index_of log)) \<le> ob_version o'" using all by (simp add: le)
  moreover have "ob_version o' \<le> applied_high_water (index_apply o' (index_of log))"
    using mem le [of "index_apply o' (index_of log)" "applied_high_water (index_apply o' (index_of log))"] by auto
  ultimately show ?case using new by simp
qed (simp add: applied_high_water_def)

section \<open>The invariant\<close>

definition segment :: "'d obligation list \<Rightarrow> nat \<Rightarrow> 'd obligation list \<Rightarrow> bool" where
  "segment log k obligations \<longleftrightarrow> (\<exists>i m. i \<le> k \<and> i + m \<le> length log \<and> obligations = take m (drop i log))"

definition txn_ok :: "'v open_txn \<Rightarrow> bool" where
  "txn_ok x \<longleftrightarrow> (tx_effect x \<or> tx_kind x = Delete) \<and> (\<forall>s. tx_sequence x = Some s \<longrightarrow> 0 < s)"

definition world_ok :: "nat \<Rightarrow> 'v world \<Rightarrow> bool" where
  "world_ok k w \<longleftrightarrow>
     history_ok (wd_log w) \<and> wd_rows w = replay (wd_log w) \<and> 0 < wd_next w
     \<and> (\<forall>t x. map_of (wd_open w) t = Some x \<longrightarrow> txn_ok x)
     \<and> k \<le> length (wd_log w) \<and> wd_index w = index_of (take k (wd_log w))
     \<and> (\<exists>j\<le>k. wd_outbox w = drop j (wd_log w))
     \<and> (\<forall>p. segment (wd_log w) k (wd_pending w p))"

lemma segment_later:
  assumes "segment log k obligations" "k \<le> k'"
  shows "segment (log @ rest) k' obligations"
proof -
  from assms(1) obtain i m where "i \<le> k" "i + m \<le> length log" "obligations = take m (drop i log)"
    by (auto simp: segment_def)
  then have "i \<le> k' \<and> i + m \<le> length (log @ rest) \<and> obligations = take m (drop i (log @ rest))" using assms(2) by simp
  then show ?thesis unfolding segment_def by blast
qed

lemma segment_Nil [simp]: "segment log k []"
  unfolding segment_def by (intro exI [of _ 0]) simp

lemma empty_world_ok: "world_ok 0 empty_world"
  by (simp add: world_ok_def empty_world_def history_ok_def)

lemma history_split:
  assumes "history_ok log" "k \<le> length log"
  shows "filter (\<lambda>o'. (if k = 0 then 0 else ob_sequence (log ! (k - 1))) < ob_sequence o') (drop j log) = drop (max j k) log"
proof -
  let ?hw = "if k = 0 then 0 else ob_sequence (log ! (k - 1))"
  have after: "?hw < ob_sequence o'" if "o' \<in> set (drop k log)" for o'
  proof (cases k)
    case 0
    with assms(1) that show ?thesis by (auto simp: history_ok_def list_all_iff)
  next
    case (Suc n)
    with assms that show ?thesis by (auto simp: history_ok_def sorted_wrt_iff_nth_less in_set_conv_nth)
  qed
  have before: "\<not> ?hw < ob_sequence o'" if "o' \<in> set (drop j (take k log))" for o'
  proof -
    from that have "o' \<in> set (take k log)" by (rule in_set_dropD)
    then obtain i where i: "i < k" "o' = log ! i" using assms(2) by (auto simp: in_set_conv_nth)
    have "sorted_wrt (\<lambda>a b. ob_sequence a < ob_sequence b) log" using assms(1) by (simp add: history_ok_def sorted_wrt_map)
    then have "i < k - 1 \<Longrightarrow> ob_sequence (log ! i) < ob_sequence (log ! (k - 1))"
      using assms(2) i by (auto dest: sorted_wrt_nth_less)
    moreover have "i = k - 1 \<or> i < k - 1" using i(1) by linarith
    ultimately show ?thesis using i by auto
  qed
  have split: "drop j log = drop j (take k log) @ drop (j - k) (drop k log)"
    using assms(2) by (metis append_take_drop_id drop_append length_take min.absorb2)
  have none: "filter (\<lambda>o'. ?hw < ob_sequence o') (drop j (take k log)) = []"
    using before by (auto simp: filter_empty_conv)
  have all: "filter (\<lambda>o'. ?hw < ob_sequence o') (drop (j - k) (drop k log)) = drop (j - k) (drop k log)"
    by (intro filter_True ballI after) (rule in_set_dropD)
  have "filter (\<lambda>o'. ?hw < ob_sequence o') (drop j log) = drop (j - k) (drop k log)"
    by (simp only: split filter_append none all append_Nil)
  also have "\<dots> = drop (max j k) log" by (cases "j \<le> k") simp_all
  finally show ?thesis .
qed

lemma sorted_history: "history_ok log \<Longrightarrow> sort_key ob_sequence (drop n log) = drop n log"
  by (rule sort_key_id_if_sorted)
    (simp add: history_ok_def drop_map [symmetric] sorted_wrt_drop strict_sorted_imp_sorted)

lemma high_water_prefix:
  "history_ok log \<Longrightarrow> k \<le> length log \<Longrightarrow>
     applied_high_water (index_of (take k log)) = (if k = 0 then 0 else ob_sequence (log ! (k - 1)))"
  using high_water_index [of "take k log"] by (auto simp: history_ok_take last_conv_nth)

lemma read_after_log:
  assumes "history_ok log" "j \<le> k" "k \<le> length log"
  shows "read_after (drop j log) (applied_high_water (index_of (take k log))) n = take n (drop k log)"
  using history_split [OF assms(1,3), of j] assms
  by (simp add: read_after_def high_water_prefix max_absorb2 sorted_history)

lemma high_water_at:
  "world_ok k w \<Longrightarrow> applied_high_water (wd_index w) = (if k = 0 then 0 else ob_sequence (wd_log w ! (k - 1)))"
  by (simp add: world_ok_def high_water_prefix)

lemma read_after_world:
  "world_ok k w \<Longrightarrow> read_after (wd_outbox w) (applied_high_water (wd_index w)) n = take n (drop k (wd_log w))"
  by (auto simp: world_ok_def read_after_log)

lemma fold_min_le: "fold min cs (c :: nat) \<le> c"
proof (induction cs arbitrary: c)
  case (Cons a cs)
  have "fold min cs (min a c) \<le> min a c" by (rule Cons.IH)
  then show ?case by simp
qed simp

lemma floor_le: "rf_floor (compute_floor hw ((name, cursor) # consumers)) \<le> cursor"
  using fold_min_le [of "map snd consumers" cursor] by (simp add: compute_floor_def min_le_iff_disj)

lemma pruned:
  assumes "sorted_wrt (\<lambda>a b. ob_sequence a < ob_sequence b) xs"
  shows "\<exists>n. prune_before up_to batch_size xs = drop n xs \<and> (\<forall>o' \<in> set (take n xs). ob_sequence o' \<le> up_to)"
proof -
  let ?p = "\<lambda>o'. ob_sequence o' \<le> up_to"
  have tw: "filter ?p xs = takeWhile ?p xs"
    using assms
  proof (induction xs)
    case (Cons a xs)
    show ?case
    proof (cases "?p a")
      case True
      with Cons show ?thesis by simp
    next
      case False
      with Cons.prems show ?thesis by (auto intro!: filter_False)
    qed
  qed simp
  have "sorted_wrt (<) (map ob_sequence (filter ?p xs))"
    using sorted_wrt_filter [OF assms, of ?p] by (simp add: sorted_wrt_map)
  then have "sort_key ob_sequence (filter ?p xs) = filter ?p xs"
    by (intro sort_key_id_if_sorted strict_sorted_imp_sorted)
  then have victims: "take batch_size (sort_key ob_sequence (filter ?p xs)) = take (min batch_size (length (takeWhile ?p xs))) xs"
    unfolding tw by (metis length_takeWhile_le min.absorb1 min.commute take_take takeWhile_eq_take)
  define n where "n = min batch_size (length (takeWhile ?p xs))"
  have "\<forall>o' \<in> set (take n xs). ?p o'"
    unfolding n_def victims [symmetric] by (auto dest: in_set_takeD)
  moreover have "filter (\<lambda>o'. ob_sequence o' \<notin> set (map ob_sequence (take n xs))) xs = drop n xs" for n
    using assms
  proof (induction xs arbitrary: n)
    case (Cons a xs)
    show ?case
    proof (cases n)
      case 0
      then show ?thesis by simp
    next
      case (Suc m)
      have "filter (\<lambda>o'. ob_sequence o' \<noteq> ob_sequence a \<and> ob_sequence o' \<notin> set (map ob_sequence (take m xs))) xs
          = filter (\<lambda>o'. ob_sequence o' \<notin> set (map ob_sequence (take m xs))) xs"
        using Cons.prems by (intro filter_cong) auto
      with Suc Cons.IH [of m] Cons.prems show ?thesis by simp
    qed
  qed simp
  ultimately show ?thesis unfolding prune_before_def Let_def victims n_def [symmetric] by blast
qed

lemma prune_world:
  assumes "world_ok k w" "up_to \<le> applied_high_water (wd_index w)"
  shows "\<exists>j\<le>k. prune_before up_to batch_size (wd_outbox w) = drop j (wd_log w)"
proof -
  from assms(1) obtain j where j: "j \<le> k" "wd_outbox w = drop j (wd_log w)" and ok: "history_ok (wd_log w)" "k \<le> length (wd_log w)"
    by (auto simp: world_ok_def)
  have "sorted_wrt (\<lambda>a b. ob_sequence a < ob_sequence b) (drop j (wd_log w))"
    using ok(1) by (simp add: history_ok_def sorted_wrt_map sorted_wrt_drop)
  from pruned [OF this, of up_to batch_size] obtain n where n: "prune_before up_to batch_size (wd_outbox w) = drop n (drop j (wd_log w))"
    "\<forall>o' \<in> set (take n (drop j (wd_log w))). ob_sequence o' \<le> up_to" unfolding j(2) by blast
  show ?thesis
  proof (cases "j + n \<le> k")
    case True
    with n(1) show ?thesis by (auto simp: add.commute)
  next
    case False
    show ?thesis
    proof (cases "k < length (wd_log w)")
      case True
      have "drop j (wd_log w) ! (k - j) = wd_log w ! k" "k - j < n" "k - j < length (drop j (wd_log w))"
        using False j(1) True by simp_all
      then have "wd_log w ! k \<in> set (take n (drop j (wd_log w)))"
        using nth_mem [of "k - j" "take n (drop j (wd_log w))"] by simp
      with n(2) assms(2) have "ob_sequence (wd_log w ! k) \<le> applied_high_water (wd_index w)" by fastforce
      moreover have "wd_log w ! k \<in> set (filter (\<lambda>o'. applied_high_water (wd_index w) < ob_sequence o') (drop j (wd_log w)))"
        using history_split [OF ok, of j] j(1) True unfolding high_water_at [OF assms(1)]
        by (simp add: max_absorb2 Cons_nth_drop_Suc [symmetric])
      ultimately show ?thesis by simp
    next
      case False
      with \<open>\<not> j + n \<le> k\<close> ok(2) n(1) have "prune_before up_to batch_size (wd_outbox w) = drop k (wd_log w)" by simp
      then show ?thesis by blast
    qed
  qed
qed

lemma apply_next_ok:
  assumes "world_ok k w" "wd_pending w p = o' # obligations"
  shows "\<exists>k'\<ge>k. world_ok k' (w\<lparr>wd_index := index_apply o' (wd_index w), wd_pending := (wd_pending w)(p := obligations)\<rparr>)"
proof -
  let ?log = "wd_log w"
  from assms have ok: "history_ok ?log" "k \<le> length ?log" "wd_index w = index_of (take k ?log)" "segment ?log k (o' # obligations)"
    "\<And>q. segment ?log k (wd_pending w q)" unfolding world_ok_def by metis+
  then obtain i m where im: "i \<le> k" "i + m \<le> length ?log" "o' # obligations = take m (drop i ?log)"
    by (auto simp: segment_def)
  then obtain n where n: "m = Suc n" by (cases m) auto
  have i: "i < length ?log" using im(2) n by simp
  then have o': "o' = ?log ! i" "obligations = take n (drop (Suc i) ?log)"
    using im(3) n by (auto simp: Cons_nth_drop_Suc [symmetric])
  define k' where "k' = max k (Suc i)"
  have "index_apply o' (wd_index w) = index_of (take k' ?log)"
  proof (cases "i < k")
    case True
    then have "o' \<in> set (take k ?log)" using o'(1) i by (auto simp: in_set_conv_nth)
    with True show ?thesis using index_apply_known [OF history_ok_take [OF ok(1)]] ok(3) by (simp add: k'_def)
  next
    case False
    with im(1) have "i = k" by simp
    then show ?thesis using ok(3) o'(1) i by (simp add: k'_def take_Suc_conv_app_nth)
  qed
  moreover have "segment ?log k' obligations"
    unfolding segment_def using im(2) n o'(2) by (intro exI [of _ "Suc i"] exI [of _ n]) (simp add: k'_def)
  moreover have "segment ?log k' (wd_pending w q)" for q
    using segment_later [OF ok(5), of k' "[]" q] by (simp add: k'_def)
  moreover have "k' \<le> length ?log" using ok(2) i by (simp add: k'_def)
  moreover have "\<exists>j\<le>k'. wd_outbox w = drop j ?log" using assms(1) unfolding world_ok_def k'_def by (meson le_max_iff_disj)
  ultimately have "world_ok k' (w\<lparr>wd_index := index_apply o' (wd_index w), wd_pending := (wd_pending w)(p := obligations)\<rparr>)"
    using assms(1) by (auto simp: world_ok_def)
  then show ?thesis by (intro exI [of _ k']) (simp add: k'_def)
qed

lemma commit_keeps_world:
  assumes "world_ok k w" "orderly_step (Commit t) w" "event_step (Commit t) w = Some w'"
  shows "world_ok k w'"
proof -
  from assms(3) obtain x s where x: "map_of (wd_open w) t = Some x" "tx_sequence x = Some s"
    and w': "w' = w\<lparr>wd_rows := (if tx_effect x then write_row (tx_feature x) (tx_kind x) (wd_rows w) else wd_rows w),
       wd_open := AList.delete t (wd_open w), wd_log := wd_log w @ [obligation_of x s], wd_outbox := wd_outbox w @ [obligation_of x s]\<rparr>"
    by (auto split: option.splits)
  have ordered: "\<forall>o' \<in> set (wd_log w). ob_sequence o' < s" "tx_effect x \<or> wd_rows w (tx_feature x) = None"
    using assms(2) x by (simp_all add: orderly_step_def list_all_iff)
  have k: "k \<le> length (wd_log w)" "0 < s" using assms(1) x by (auto simp: world_ok_def txn_ok_def)
  have "history_ok (wd_log w @ [obligation_of x s])"
    using assms(1) ordered(1) k(2) by (auto simp: world_ok_def history_ok_snoc obligation_of_def)
  moreover have "wd_rows w' = replay (wd_log w @ [obligation_of x s])"
  proof (cases "tx_effect x")
    case True
    then show ?thesis using assms(1) by (simp add: w' world_ok_def obligation_of_def)
  next
    case False
    with ordered(2) have "wd_rows w (tx_feature x) = None" by simp
    moreover have "tx_kind x = Delete" using assms(1) x(1) False by (auto simp: world_ok_def txn_ok_def)
    ultimately show ?thesis using assms(1) False
      by (auto simp: w' world_ok_def obligation_of_def write_row_def fun_eq_iff)
  qed
  moreover have "\<exists>j\<le>k. wd_outbox w @ [obligation_of x s] = drop j (wd_log w @ [obligation_of x s])"
    using assms(1) k(1) by (auto simp: world_ok_def)
  moreover have "segment (wd_log w @ [obligation_of x s]) k (wd_pending w p)" for p
    using assms(1) by (intro segment_later [OF _ order_refl]) (simp add: world_ok_def)
  ultimately show ?thesis using assms(1) k(1) by (auto simp: w' world_ok_def delete_conv' split: if_splits)
qed


lemma sequenced_txn_ok: "txn_ok x \<Longrightarrow> 0 < s \<Longrightarrow> txn_ok (x\<lparr>tx_sequence := Some s\<rparr>)"
  by (simp add: txn_ok_def)

lemma new_txn_ok:
  "txn_ok \<lparr>tx_feature = f, tx_kind = kind, tx_effect = effect, tx_sequence = None\<rparr> \<longleftrightarrow> effect \<or> \<not> is_upsert kind"
  by (cases kind) (auto simp: txn_ok_def is_upsert_def)

lemma event_keeps_world:
  assumes "world_ok k w" "orderly_step e w" "event_step e w = Some w'"
  shows "\<exists>k'\<ge>k. world_ok k' w'"
proof (cases e)
  case (Write t f kind)
  have "world_ok k w'" using assms(1,3) unfolding Write
    by (auto simp: world_ok_def Let_def new_txn_ok split: if_splits)
  then show ?thesis by blast
next
  case (Take_Sequence t)
  have "world_ok k w'" using assms(1,3) unfolding Take_Sequence
    by (auto simp: world_ok_def update_conv' intro!: sequenced_txn_ok split: option.splits if_splits)
  then show ?thesis by blast
next
  case (Commit t)
  with assms have "world_ok k w'" by (blast intro: commit_keeps_world)
  then show ?thesis by blast
next
  case (Rollback t)
  have "world_ok k w'" using assms(1,3) unfolding Rollback
    by (auto simp: world_ok_def delete_conv' split: if_splits)
  then show ?thesis by blast
next
  case (Read_Batch p n)
  have w': "w' = w\<lparr>wd_pending := (wd_pending w)(p := take n (drop k (wd_log w)))\<rparr>"
    using assms(3) unfolding Read_Batch by (simp add: read_after_world [OF assms(1)])
  have "take n (drop k (wd_log w)) = take (min n (length (wd_log w) - k)) (drop k (wd_log w))"
    by (metis length_drop min.commute take_all_iff take_take nle_le)
  moreover have "k \<le> length (wd_log w)" using assms(1) by (simp add: world_ok_def)
  ultimately have "segment (wd_log w) k (take n (drop k (wd_log w)))"
    unfolding segment_def by (intro exI [of _ k] exI [of _ "min n (length (wd_log w) - k)"]) auto
  then have "world_ok k w'" using assms(1) by (simp add: w' world_ok_def)
  then show ?thesis by blast
next
  case (Apply_Next p)
  with assms(3) obtain o' obligations where "wd_pending w p = o' # obligations" by (auto split: list.splits)
  with apply_next_ok [OF assms(1)] assms(3) show ?thesis unfolding Apply_Next by auto
next
  case (Crash p)
  have "world_ok k w'" using assms(1,3) unfolding Crash by (auto simp: world_ok_def)
  then show ?thesis by blast
next
  case (Prune consumers n)
  have "\<exists>j\<le>k. wd_outbox w' = drop j (wd_log w)"
    using prune_world [OF assms(1) floor_le] assms(3) unfolding Prune by auto
  then have "world_ok k w'" using assms(1,3) unfolding Prune by (auto simp: world_ok_def)
  then show ?thesis by blast
qed

lemma run_ok:
  "world_ok k w \<Longrightarrow> orderly es w \<Longrightarrow> run_events es w = Some w' \<Longrightarrow> \<exists>k'\<ge>k. world_ok k' w'"
proof (induction es arbitrary: k w)
  case (Cons e es)
  then obtain v where v: "event_step e w = Some v" "run_events es v = Some w'" by (auto simp: bind_eq_Some_conv)
  with Cons.prems have "orderly_step e w" "orderly es v" by simp_all
  with event_keeps_world [OF Cons.prems(1) this(1) v(1)] Cons.IH [OF _ this(2) v(2)] show ?case by (meson order_trans)
qed auto

section \<open>Draining a history\<close>

lemma apply_all_fold: "apply_all rejects obligations index = (Inr (), index') \<Longrightarrow> index' = fold index_apply obligations index"
  by (induction obligations arbitrary: index) (auto split: if_splits)

lemma apply_all_accepts: "apply_all (\<lambda>_. False) obligations index = (Inr (), fold index_apply obligations index)"
  by (induction obligations arbitrary: index) auto

lemma fold_prefix: "fold index_apply (take n (drop k log)) (index_of (take k log)) = index_of (take (k + n) log)"
  by (simp add: index_of_def take_add)

lemma drain_prefix:
  assumes "history_ok log" "j \<le> k" "k \<le> length log"
    and "drain_once rejects n (drop j log) (index_of (take k log)) = (Inr batch, index)"
  shows "batch = min n (length log - k) \<and> index = index_of (take (k + batch) log)"
proof -
  have obligations: "length (take n (drop k log)) = min n (length log - k)" by (simp add: min.commute)
  obtain r index' where all: "apply_all rejects (take n (drop k log)) (index_of (take k log)) = (r, index')" by force
  with assms(4) have r: "r = Inr ()" "batch = min n (length log - k)" "index = index'"
    by (auto simp: drain_once_def read_after_log [OF assms(1-3)] split: sum.splits)
  have "index' = index_of (take (k + n) log)" using apply_all_fold [OF all [unfolded r]] by (simp add: fold_prefix)
  moreover have "take (k + n) log = take (k + min n (length log - k)) log" by (cases "n \<le> length log - k") auto
  ultimately show ?thesis by (simp add: r)
qed

lemma drain_accepts:
  assumes "history_ok log" "j \<le> k" "k \<le> length log"
  shows "drain_once (\<lambda>_. False) n (drop j log) (index_of (take k log))
    = (Inr (min n (length log - k)), index_of (take (k + min n (length log - k)) log))"
proof -
  obtain batch index where *: "drain_once (\<lambda>_. False) n (drop j log) (index_of (take k log)) = (Inr batch, index)"
    by (simp add: drain_once_def apply_all_accepts Let_def)
  then show ?thesis using drain_prefix [OF assms *] by simp
qed

lemma rebuild_complete:
  "history_ok log \<Longrightarrow> j \<le> k \<Longrightarrow> k \<le> length log \<Longrightarrow>
   rebuild_passes rejects (drop j log) passes applied (index_of (take k log)) = (Inr (n, True), index) \<Longrightarrow>
   index = index_of log"
proof (induction rejects "drop j log" passes applied "index_of (take k log)" arbitrary: k rule: rebuild_passes.induct)
  case (1 rejects passes applied)
  obtain r index' where d: "drain_once rejects REBUILD_BATCH_SIZE (drop j log) (index_of (take k log)) = (r, index')" by force
  show ?case
  proof (cases r)
    case (Inl error)
    with "1.prems"(4) d show ?thesis by (subst (asm) rebuild_passes.simps) simp
  next
    case (Inr batch)
    with drain_prefix [OF "1.prems"(1-3)] d have batch: "batch = min REBUILD_BATCH_SIZE (length log - k)"
      "index' = index_of (take (k + batch) log)" by blast+
    show ?thesis
    proof (cases "batch = 0")
      case True
      then have "k = length log" using batch(1) "1.prems"(3) by (simp add: REBUILD_BATCH_SIZE_def min_def split: if_splits)
      with "1.prems"(4) d Inr True batch(2) show ?thesis by (subst (asm) rebuild_passes.simps) simp
    next
      case False
      with "1.prems"(4) d Inr have *: "\<not> passes + 1 \<ge> REBUILD_MAX_PASSES"
        "rebuild_passes rejects (drop j log) (passes + 1) (applied + batch) index' = (Inr (n, True), index)"
        by (subst (asm) rebuild_passes.simps, simp split: if_splits)+
      have "k + batch \<le> length log" using batch(1) "1.prems"(3) by linarith
      with "1.hyps" [OF d [unfolded Inr batch(2), symmetric] refl False *(1) "1.prems"(1)] * "1.prems"(2) batch(2) show ?thesis by simp
    qed
  qed
qed

lemma rebuild_accepts:
  "history_ok log \<Longrightarrow> j \<le> k \<Longrightarrow> k \<le> length log \<Longrightarrow>
   length log - k \<le> (REBUILD_MAX_PASSES - Suc passes) * REBUILD_BATCH_SIZE \<Longrightarrow>
   rebuild_passes (\<lambda>_. False) (drop j log) passes applied (index_of (take k log))
     = (Inr (applied + (length log - k), True), index_of log)"
proof (induction "length log - k" arbitrary: k passes applied rule: less_induct)
  case less
  let ?b = "min REBUILD_BATCH_SIZE (length log - k)"
  note d = drain_accepts [OF less.prems(1-3), of REBUILD_BATCH_SIZE]
  show ?case
  proof (cases "length log - k = 0")
    case True
    then show ?thesis using d less.prems(3) by (subst rebuild_passes.simps) simp
  next
    case False
    then have b: "?b \<noteq> 0" "k + ?b \<le> length log" "j \<le> k + ?b" using less.prems(2,3)
      by (auto simp: REBUILD_BATCH_SIZE_def)
    have more: "\<not> REBUILD_MAX_PASSES \<le> passes + 1" 
    proof
      assume "REBUILD_MAX_PASSES \<le> passes + 1"
      then have "REBUILD_MAX_PASSES - Suc passes = 0" by simp
      with less.prems(4) False show False by simp
    qed
    have left: "length log - (k + ?b) \<le> (REBUILD_MAX_PASSES - Suc (passes + 1)) * REBUILD_BATCH_SIZE"
    proof -
      from more have "REBUILD_MAX_PASSES - Suc passes = Suc (REBUILD_MAX_PASSES - Suc (passes + 1))" by simp
      with less.prems(4) have "length log - k \<le> REBUILD_BATCH_SIZE + (REBUILD_MAX_PASSES - Suc (passes + 1)) * REBUILD_BATCH_SIZE"
        by simp
      then show ?thesis by linarith
    qed
    have smaller: "length log - (k + ?b) < length log - k"
      using b(1) False by (intro diff_less_mono2) (blast intro: less_add_same_cancel1 [THEN iffD2] neq0_conv [THEN iffD1], simp)
    have step: "rebuild_passes (\<lambda>_. False) (drop j log) passes applied (index_of (take k log))
        = rebuild_passes (\<lambda>_. False) (drop j log) (passes + 1) (applied + ?b) (index_of (take (k + ?b) log))"
      by (subst rebuild_passes.simps, unfold d prod.case sum.case if_not_P [OF b(1)] if_not_P [OF more]) (rule refl)
    have "a + m + (n - (k + m)) = a + (n - k)" if "k + m \<le> n" for a m n :: nat using that by linarith
    note total = this [OF b(2), of applied]
    show ?thesis unfolding step less.hyps [OF smaller less.prems(1) b(3,2) left] total by (rule refl)
  qed
qed

end
