(* ===== verification/Index_Claims.thy ===== *)
theory Index_Claims
  imports Index_Convergence
begin

text \<open>
  What the applier of \<open>crates/tellurion-core/src/applier.rs\<close> and the rebuild job of
  \<open>crates/tellurion-server/src/process_lane.rs\<close> promise of the derived index, and the two interleavings of
  writers on which the promise fails: a sequence number that is committed after a greater one is never read,
  and a delete that found no row is recorded after the insert it did not see.
\<close>

section \<open>One writer at a time\<close>

text \<open>Writers that wait for each other, as with one connection per collection, keep the discipline.\<close>

fun one_writer :: "'v event list \<Rightarrow> 'v world \<Rightarrow> bool" where
  "one_writer [] w = True"
| "one_writer (e # es) w =
     ((case e of Write _ _ _ \<Rightarrow> wd_open w = [] | _ \<Rightarrow> True)
      \<and> (case event_step e w of Some w' \<Rightarrow> one_writer es w' | None \<Rightarrow> True))"

definition writer_ok :: "'v world \<Rightarrow> bool" where
  "writer_ok w \<longleftrightarrow>
     list_all (\<lambda>o'. ob_sequence o' < wd_next w) (wd_log w)
     \<and> (case wd_open w of
          [] \<Rightarrow> True
        | (t, x) # xs \<Rightarrow> xs = [] \<and> (tx_effect x \<or> wd_rows w (tx_feature x) = None)
            \<and> (\<forall>s. tx_sequence x = Some s \<longrightarrow> s < wd_next w \<and> list_all (\<lambda>o'. ob_sequence o' < s) (wd_log w)))"

lemma writer_ok_orderly: "writer_ok w \<Longrightarrow> orderly_step e w"
  by (auto simp: writer_ok_def orderly_step_def split: event.split list.splits option.split if_splits)

lemma writer_ok_step:
  assumes "writer_ok w" "event_step e w = Some w'" "case e of Write _ _ _ \<Rightarrow> wd_open w = [] | _ \<Rightarrow> True"
  shows "writer_ok w'"
proof (cases e)
  case (Write t f kind)
  with assms show ?thesis by (auto simp: writer_ok_def Let_def is_upsert_def split: if_splits)
next
  case (Take_Sequence t)
  with assms show ?thesis
    by (auto simp: writer_ok_def list_all_iff less_Suc_eq split: option.splits if_splits list.splits)
next
  case (Commit t)
  with assms show ?thesis
    by (auto simp: writer_ok_def obligation_of_def list_all_iff split: option.splits if_splits list.splits)
next
  case (Rollback t)
  with assms show ?thesis by (auto simp: writer_ok_def split: list.splits if_splits)
next
  case (Apply_Next p)
  with assms show ?thesis by (auto simp: writer_ok_def split: list.splits)
qed (use assms in \<open>auto simp: writer_ok_def split: list.splits\<close>)

lemma one_writer_orderly: "writer_ok w \<Longrightarrow> one_writer es w \<Longrightarrow> orderly es w"
proof (induction es arbitrary: w)
  case (Cons e es)
  then have ok: "case e of Write _ _ _ \<Rightarrow> wd_open w = [] | _ \<Rightarrow> True" by simp
  have "orderly es w'" if "event_step e w = Some w'" for w'
    using Cons.IH [OF writer_ok_step [OF Cons.prems(1) that ok]] Cons.prems(2) that by simp
  then show ?case using writer_ok_orderly [OF Cons.prems(1)] by (auto split: option.split)
qed simp

lemma one_writer_from_empty: "one_writer es empty_world \<Longrightarrow> orderly es empty_world"
  by (rule one_writer_orderly) (simp_all add: writer_ok_def empty_world_def)

section \<open>Properties\<close>

lemma run_append: "run_events (es @ fs) w = Option.bind (run_events es w) (run_events fs)"
  by (induction es arbitrary: w) (auto split: bind_splits)

lemma orderly_append:
  "run_events es w = Some w' \<Longrightarrow> orderly (es @ fs) w \<longleftrightarrow> orderly es w \<and> orderly fs w'"
  by (induction es arbitrary: w) (auto simp: bind_eq_Some_conv)

lemma world_ok_index:
  "world_ok k w \<Longrightarrow> indexed (wd_index w) = latest_documents (take k (wd_log w))"
  by (simp add: world_ok_def indexed_is_latest history_ok_take)

lemma list_all_take: "list_all p xs \<Longrightarrow> list_all p (take n xs)"
  by (auto simp: list_all_iff dest: in_set_takeD)

text \<open>
  C21. However writers, appliers, crashes and pruning interleave, as long as commits come in the order of
  their sequence numbers and a delete that matched no row commits only while there is none, the derived index
  shows exactly the documents of some prefix of the history, and as the run goes on that prefix only grows: the index
  never goes back. The primary is the fold of the whole history, column by column. So the index shows an earlier
  primary: the features the primary had after that prefix, each with the document last written, whose columns had
  those values in the row (\<open>shows_rows\<close>); and where all upserts name the same columns, the rows
  themselves (\<open>same_rows\<close>).\<close>

theorem index_is_an_earlier_primary:
  assumes "run_events es empty_world = Some w" "run_events fs w = Some w'" "orderly (es @ fs) empty_world"
  shows "\<exists>k k'. k \<le> k' \<and> k \<le> length (wd_log w) \<and> k' \<le> length (wd_log w')
    \<and> wd_rows w = replay (wd_log w) \<and> wd_rows w' = replay (wd_log w')
    \<and> indexed (wd_index w) = latest_documents (take k (wd_log w))
    \<and> indexed (wd_index w') = latest_documents (take k' (wd_log w'))
    \<and> shows_rows (indexed (wd_index w)) (replay (take k (wd_log w)))
    \<and> shows_rows (indexed (wd_index w')) (replay (take k' (wd_log w')))
    \<and> (\<forall>columns. list_all (names_all columns) (wd_log w) \<longrightarrow> same_rows (indexed (wd_index w)) (replay (take k (wd_log w))))"
proof -
  from assms(3) have "orderly es empty_world" "orderly fs w" by (simp_all add: orderly_append [OF assms(1)])
  then obtain k k' where k: "world_ok k w" "k \<le> k'" "world_ok k' w'"
    using run_ok [OF empty_world_ok _ assms(1)] run_ok [OF _ _ assms(2)] by blast
  have same: "list_all (names_all columns) (wd_log w) \<Longrightarrow> same_rows (indexed (wd_index w)) (replay (take k (wd_log w)))" for columns
    using latest_are_rows [OF list_all_take] world_ok_index [OF k(1)] by metis
  from k world_ok_index [OF k(1)] world_ok_index [OF k(3)] latest_show_rows same show ?thesis
    unfolding world_ok_def by metis
qed

definition doc_of :: "nat \<Rightarrow> nat document" where
  "doc_of n = [(''name'', n), (''size'', 7)]"

definition sample_run :: "nat event list" where
  "sample_run =
     [Write 1 ''a'' (Upsert (doc_of 10)), Take_Sequence 1, Write 2 ''b'' (Upsert (doc_of 20)), Commit 1, Take_Sequence 2,
      Read_Batch 7 5, Commit 2, Apply_Next 7, Read_Batch 8 5, Prune [(''feed'', 9)] 3, Write 3 ''a'' Delete]"

definition sample_rest :: "nat event list" where
  "sample_rest = [Take_Sequence 3, Commit 3, Crash 7, Apply_Next 8, Read_Batch 8 5]"

lemma sample_runs:
  "run_events sample_run empty_world \<noteq> None"
  "run_events (sample_run @ sample_rest) empty_world \<noteq> None"
  "orderly (sample_run @ sample_rest) empty_world"
  by code_simp+

lemma index_is_an_earlier_primary_witness:
  "\<exists>w w' k k'. run_events sample_run (empty_world :: nat world) = Some w \<and> run_events sample_rest w = Some w'
    \<and> k \<le> k' \<and> k \<le> length (wd_log w) \<and> k' \<le> length (wd_log w')
    \<and> same_rows (indexed (wd_index w)) (replay (take k (wd_log w))) \<and> shows_rows (indexed (wd_index w')) (replay (take k' (wd_log w')))"
proof -
  obtain w' where "run_events (sample_run @ sample_rest) empty_world = Some w'" using sample_runs(2) by blast
  then obtain w where w: "run_events sample_run empty_world = Some w" "run_events sample_rest w = Some w'"
    by (auto simp: run_append bind_eq_Some_conv)
  have "map_option (\<lambda>w. list_all (names_all {''name'', ''size''}) (wd_log w)) (run_events sample_run empty_world) = Some True"
    by code_simp
  then have "list_all (names_all {''name'', ''size''}) (wd_log w)" by (simp add: w)
  with index_is_an_earlier_primary [OF w sample_runs(3)] w show ?thesis by blast
qed

text \<open>
  C39. The rebuild job brings the index up to the primary: after any orderly run (as above), when at most 199800
  obligations are unread and the index refuses none of them, it answers that it applied exactly the unread ones and is
  complete, and the index then shows the documents of the whole history: the features of the primary and no others,
  each with the document last written, whose columns have those values in the row; and the rows of the primary
  themselves where all upserts named the same columns.\<close>

theorem rebuild_catches_up:
  assumes "run_events es empty_world = Some w" "orderly es empty_world"
    and "length (filter (\<lambda>o'. applied_high_water (wd_index w) < ob_sequence o') (wd_outbox w)) \<le> 199800"
  shows "\<exists>index. rebuild (\<lambda>_. False) (wd_outbox w) (wd_index w)
      = (Inr (length (filter (\<lambda>o'. applied_high_water (wd_index w) < ob_sequence o') (wd_outbox w)), True), index)
    \<and> indexed index = latest_documents (wd_log w) \<and> shows_rows (indexed index) (wd_rows w)
    \<and> (\<forall>columns. list_all (names_all columns) (wd_log w) \<longrightarrow> same_rows (indexed index) (wd_rows w))"
proof -
  from run_ok [OF empty_world_ok assms(2,1)] obtain k where w: "world_ok k w" by blast
  then obtain j where j: "j \<le> k" "wd_outbox w = drop j (wd_log w)" and ok: "history_ok (wd_log w)" "k \<le> length (wd_log w)"
    and index: "wd_index w = index_of (take k (wd_log w))" and rows: "wd_rows w = replay (wd_log w)"
    by (auto simp: world_ok_def)
  have unread: "length (filter (\<lambda>o'. applied_high_water (wd_index w) < ob_sequence o') (wd_outbox w)) = length (wd_log w) - k"
    unfolding high_water_at [OF w] j(2) using history_split [OF ok, of j] j(1) by (simp add: max_absorb2)
  then have "length (wd_log w) - k \<le> (REBUILD_MAX_PASSES - Suc 0) * REBUILD_BATCH_SIZE"
    using assms(3) by (simp add: REBUILD_MAX_PASSES_def REBUILD_BATCH_SIZE_def)
  from rebuild_accepts [OF ok(1) j(1) ok(2) this, of 0] show ?thesis
    unfolding unread
    using latest_are_rows
    by (simp add: rebuild_def j(2) index rows indexed_is_latest [OF ok(1)] latest_show_rows) blast
qed

lemma rebuild_catches_up_witness:
  "\<exists>w index. run_events sample_run (empty_world :: nat world) = Some w
    \<and> rebuild (\<lambda>_. False) (wd_outbox w) (wd_index w) = (Inr (1, True), index)
    \<and> indexed index = latest_documents (wd_log w) \<and> same_rows (indexed index) (wd_rows w)"
proof -
  obtain w where w: "run_events sample_run empty_world = Some w" using sample_runs(1) by blast
  have "map_option (\<lambda>w. length (filter (\<lambda>o'. applied_high_water (wd_index w) < ob_sequence o') (wd_outbox w)))
      (run_events sample_run empty_world) = Some 1"
    "map_option (\<lambda>w. list_all (names_all {''name'', ''size''}) (wd_log w)) (run_events sample_run empty_world) = Some True"
    by code_simp+
  then have "length (filter (\<lambda>o'. applied_high_water (wd_index w) < ob_sequence o') (wd_outbox w)) = 1"
    "list_all (names_all {''name'', ''size''}) (wd_log w)" by (simp_all add: w)
  moreover have "orderly sample_run (empty_world :: nat world)" by code_simp
  ultimately show ?thesis using rebuild_catches_up [OF w] w by fastforce
qed

text \<open>Whatever the index refuses, the answer that the rebuild is complete is true.\<close>

lemma complete_rebuild_is_exact:
  assumes "run_events es empty_world = Some w" "orderly es empty_world"
    and "rebuild rejects (wd_outbox w) (wd_index w) = (Inr (n, True), index)"
  shows "indexed index = latest_documents (wd_log w) \<and> shows_rows (indexed index) (wd_rows w)"
proof -
  from run_ok [OF empty_world_ok assms(2,1)] obtain k where w: "world_ok k w" by blast
  then obtain j where j: "j \<le> k" "wd_outbox w = drop j (wd_log w)" by (auto simp: world_ok_def)
  from w j assms(3) have "index = index_of (wd_log w)"
    by (auto simp: world_ok_def rebuild_def intro: rebuild_complete)
  with w show ?thesis by (simp add: world_ok_def indexed_is_latest latest_show_rows)
qed

text \<open>
  An upsert that names fewer columns than the row has leaves them in the primary, while the index shows the
  document alone.
\<close>

lemma partial_upsert_differs:
  "map_option (\<lambda>w. (map_option (\<lambda>row. map row [''name'', ''size'']) (wd_rows w ''a''), indexed (wd_index w) ''a''))
     (run_events [Write 1 ''a'' (Upsert (doc_of 10)), Take_Sequence 1, Commit 1, Write 1 ''a'' (Upsert [(''name'', 11)]),
        Take_Sequence 1, Commit 1, Read_Batch 7 5, Apply_Next 7, Apply_Next 7] empty_world)
     = Some (Some [Some 11, Some 7], Some [(''name'', 11)])"
  by code_simp

section \<open>Where commits come out of order\<close>

text \<open>
  Two writers of different features: the first to take a sequence number is the last to commit. The index
  has read the greater number by then and its cursor is past the smaller one: the row of \<open>a\<close> is in the primary,
  the obligation is in the outbox, and neither the applier nor a rebuild finds anything to do.
\<close>

definition skipped_run :: "nat event list" where
  "skipped_run =
     [Write 1 ''a'' (Upsert (doc_of 10)), Take_Sequence 1, Write 2 ''b'' (Upsert (doc_of 20)), Take_Sequence 2, Commit 2,
      Read_Batch 7 5, Apply_Next 7, Commit 1]"

lemma late_commit_is_skipped:
  "map_option (\<lambda>w. (map_option (\<lambda>row. row ''name'') (wd_rows w ''a''), indexed (wd_index w) ''a'', map ob_sequence (wd_outbox w),
       read_after (wd_outbox w) (applied_high_water (wd_index w)) 5,
       fst (rebuild (\<lambda>_. False) (wd_outbox w) (wd_index w)))) (run_events skipped_run empty_world)
     = Some (Some (Some 10), None, [2, 1], [], Inr (0, True))"
  by code_simp

text \<open>
  A delete of a feature that is not there waits for no one and still records its obligation: when its number is
  greater than that of an insert which commits first, the tombstone outlives the row.
\<close>

definition buried_run :: "nat event list" where
  "buried_run =
     [Write 1 ''f'' Delete, Write 2 ''f'' (Upsert (doc_of 10)), Take_Sequence 2, Commit 2, Take_Sequence 1, Commit 1,
      Read_Batch 7 5, Apply_Next 7, Apply_Next 7]"

lemma absent_delete_buries_insert:
  "map_option (\<lambda>w. (map_option (\<lambda>row. row ''name'') (wd_rows w ''f''), indexed (wd_index w) ''f'', map ob_sequence (wd_outbox w))) (run_events buried_run empty_world)
     = Some (Some (Some 10), None, [1, 2])"
  by code_simp

end
