(* ===== verification/Invalidation.thy ===== *)
theory Invalidation
  imports Outbox Complex_Main
begin

text \<open>
  Write-reactive invalidation of the tile cache: \<open>crates/tellurion-core/src/invalidation.rs\<close>, the generations
  a consumer of the outbox advances, and the keys of \<open>context.rs\<close> that carry them. The arithmetic of tile
  indices is done in world fractions (0 at the west and north edge, 1 at the east and south edge of the
  WebMercatorQuad square): the code divides by a tile size that is the side of that square over a power of
  two, which is exact in floating point. The projection from longitude and latitude to such a fraction, a
  floating-point computation, is the argument \<open>project\<close>; \<open>None\<close> is a coordinate that is not finite.
\<close>

section \<open>Tile indices\<close>

record world_box =
  wb_west :: "rat option"
  wb_north :: "rat option"
  wb_east :: "rat option"
  wb_south :: "rat option"

definition matrix_side :: "nat \<Rightarrow> nat" where
  "matrix_side zoom = 2 ^ zoom"

definition clamp_index :: "int option \<Rightarrow> nat \<Rightarrow> nat" where
  "clamp_index raw max_index =
     (case raw of
        None \<Rightarrow> 0
      | Some r \<Rightarrow> if r \<le> 0 then 0 else if int max_index \<le> r then max_index else nat r)"

definition index_for :: "rat option \<Rightarrow> nat \<Rightarrow> nat" where
  "index_for u zoom = clamp_index (map_option (\<lambda>u. \<lfloor>u * of_nat (matrix_side zoom)\<rfloor>) u) (matrix_side zoom - 1)"

text \<open>The first and last column, the first and last row.\<close>

definition covering_tile_range :: "world_box \<Rightarrow> nat \<Rightarrow> nat \<times> nat \<times> nat \<times> nat" where
  "covering_tile_range box zoom =
     (index_for (wb_west box) zoom, index_for (wb_east box) zoom,
      index_for (wb_north box) zoom, index_for (wb_south box) zoom)"

definition buckets_for_bbox_mercator :: "nat \<Rightarrow> world_box \<Rightarrow> (nat \<times> nat) list" where
  "buckets_for_bbox_mercator zoom box =
     (case covering_tile_range box zoom of (min_col, max_col, min_row, max_row) \<Rightarrow>
        concat (map (\<lambda>row. map (\<lambda>col. (col, row)) [min_col..<Suc max_col]) [min_row..<Suc max_row]))"

definition buckets_for_bbox_lonlat :: "('b \<Rightarrow> world_box) \<Rightarrow> nat \<Rightarrow> 'b \<Rightarrow> (nat \<times> nat) list" where
  "buckets_for_bbox_lonlat project zoom bbox = buckets_for_bbox_mercator zoom (project bbox)"

definition buckets_for_tile :: "nat \<Rightarrow> nat \<Rightarrow> nat \<Rightarrow> nat \<Rightarrow> (nat \<times> nat) list" where
  "buckets_for_tile zoom z x y =
     (if zoom \<le> z then [(x div 2 ^ (z - zoom), y div 2 ^ (z - zoom))]
      else (let side = 2 ^ (zoom - z) in
            concat (map (\<lambda>dy. map (\<lambda>dx. (x * side + dx, y * side + dy)) [0..<side]) [0..<side])))"

section \<open>Generations\<close>

datatype 'b obligation_extent = Unrecorded | Crs84 "'b option" "'b option"

record ('d, 'b) located = "'d obligation" +
  ob_extent :: "'b obligation_extent"

record collection_gen =
  cg_cursor :: nat
  cg_floor :: nat
  cg_buckets :: "nat \<times> nat \<Rightarrow> nat option"

definition collection_gen_new :: collection_gen where
  "collection_gen_new = \<lparr>cg_cursor = 0, cg_floor = 0, cg_buckets = (\<lambda>_. None)\<rparr>"

definition stored_generation :: "collection_gen \<Rightarrow> nat \<times> nat \<Rightarrow> nat" where
  "stored_generation state bucket = (case cg_buckets state bucket of Some g \<Rightarrow> g | None \<Rightarrow> 0)"

definition generation_for_bucket :: "collection_gen \<Rightarrow> nat \<times> nat \<Rightarrow> nat" where
  "generation_for_bucket state bucket = max (cg_floor state) (stored_generation state bucket)"

record generation_store =
  gs_grid :: nat
  gs_collections :: "string \<Rightarrow> collection_gen option"

definition generation_store_empty :: generation_store where
  "generation_store_empty = \<lparr>gs_grid = 0, gs_collections = (\<lambda>_. None)\<rparr>"

definition generation_store_new :: "nat \<Rightarrow> string list \<Rightarrow> generation_store" where
  "generation_store_new bucket_zoom collection_ids =
     \<lparr>gs_grid = bucket_zoom, gs_collections = (\<lambda>c. if c \<in> set collection_ids then Some collection_gen_new else None)\<rparr>"

definition max_generation :: "collection_gen \<Rightarrow> (nat \<times> nat) list \<Rightarrow> nat" where
  "max_generation state buckets = foldr (\<lambda>b. max (generation_for_bucket state b)) buckets 0"

definition generation_for_tile :: "generation_store \<Rightarrow> string \<Rightarrow> nat \<Rightarrow> nat \<Rightarrow> nat \<Rightarrow> nat" where
  "generation_for_tile store collection z x y =
     (case gs_collections store collection of
        None \<Rightarrow> 0
      | Some state \<Rightarrow> max_generation state (buckets_for_tile (gs_grid store) z x y))"

definition generation_for_bbox_mercator :: "generation_store \<Rightarrow> string \<Rightarrow> world_box \<Rightarrow> nat" where
  "generation_for_bbox_mercator store collection box =
     (case gs_collections store collection of
        None \<Rightarrow> 0
      | Some state \<Rightarrow> max_generation state (buckets_for_bbox_mercator (gs_grid store) box))"

definition generation_for_collection :: "generation_store \<Rightarrow> string \<Rightarrow> nat" where
  "generation_for_collection store collection =
     (case gs_collections store collection of None \<Rightarrow> 0 | Some state \<Rightarrow> cg_cursor state)"

definition gen_cursor :: "generation_store \<Rightarrow> string \<Rightarrow> nat" where
  "gen_cursor store collection = (case gs_collections store collection of None \<Rightarrow> 0 | Some state \<Rightarrow> cg_cursor state)"

definition gen_lag :: "generation_store \<Rightarrow> string \<Rightarrow> nat \<Rightarrow> nat option" where
  "gen_lag store collection high_water = map_option (\<lambda>state. high_water - cg_cursor state) (gs_collections store collection)"

definition touched_buckets :: "('b \<Rightarrow> world_box) \<Rightarrow> nat \<Rightarrow> 'b obligation_extent \<Rightarrow> (nat \<times> nat) list" where
  "touched_buckets project zoom extent =
     (case extent of
        Unrecorded \<Rightarrow> []
      | Crs84 prior current \<Rightarrow>
          concat (map (buckets_for_bbox_lonlat project zoom) (List.map_filter id [prior, current])))"

definition batch_state ::
  "('b \<Rightarrow> world_box) \<Rightarrow> nat \<Rightarrow> nat \<Rightarrow> ('d, 'b) located list \<Rightarrow> collection_gen \<Rightarrow> bool \<times> collection_gen" where
  "batch_state project zoom max_sequence obligations state =
     (let touched = concat (map (\<lambda>o'. touched_buckets project zoom (ob_extent o')) obligations);
          whole_grid = list_ex (\<lambda>o'. ob_extent o' = Unrecorded) obligations;
          changed = (whole_grid \<and> cg_floor state < max_sequence
            \<or> list_ex (\<lambda>b. stored_generation state b < max_sequence) touched)
      in (changed,
          \<lparr>cg_cursor = max_sequence,
           cg_floor = (if whole_grid then max (cg_floor state) max_sequence else cg_floor state),
           cg_buckets = (\<lambda>b. if b \<in> set touched then Some (max (stored_generation state b) max_sequence)
              else cg_buckets state b)\<rparr>))"

definition gen_apply_batch ::
  "('b \<Rightarrow> world_box) \<Rightarrow> generation_store \<Rightarrow> string \<Rightarrow> ('d, 'b) located list \<Rightarrow> bool \<times> generation_store" where
  "gen_apply_batch project store collection obligations =
     (case gs_collections store collection of
        None \<Rightarrow> (False, store)
      | Some state \<Rightarrow>
          if obligations = [] then (False, store)
          else (case batch_state project (gs_grid store) (foldr (\<lambda>o'. max (ob_sequence o')) obligations 0) obligations state of
             (changed, state) \<Rightarrow> (changed, store\<lparr>gs_collections := (gs_collections store)(collection \<mapsto> state)\<rparr>)))"

definition drain_once_for_generations ::
  "('b \<Rightarrow> world_box) \<Rightarrow> ('d, 'b) located list \<Rightarrow> generation_store \<Rightarrow> string \<Rightarrow> nat \<Rightarrow> nat \<times> generation_store" where
  "drain_once_for_generations project outbox store collection batch_size =
     (let obligations = read_after outbox (gen_cursor store collection) batch_size in
      if obligations = [] then (0, store)
      else (length obligations, snd (gen_apply_batch project store collection obligations)))"

section \<open>Cache keys\<close>

text \<open>
  The three shapes of a cached rendering: a tile of the WebMercatorQuad pyramid, a tile of the
  WorldCRS84Quad pyramid and an arbitrary window. Their keys carry the generation they were asked under.
\<close>

datatype tile_lane =
    Mercator_Tile nat nat nat
  | Crs84_Tile nat nat nat
  | Map_Window world_box

definition tile_generation :: "generation_store \<Rightarrow> string \<Rightarrow> tile_lane \<Rightarrow> nat" where
  "tile_generation store collection lane =
     (case lane of
        Mercator_Tile z x y \<Rightarrow> generation_for_tile store collection z x y
      | Crs84_Tile _ _ _ \<Rightarrow> generation_for_collection store collection
      | Map_Window box \<Rightarrow> generation_for_bbox_mercator store collection box)"

end
