(* ===== verification/Tile_Freshness.thy ===== *)
theory Tile_Freshness
  imports Invalidation Index_Convergence
begin

text \<open>
  What the generation in a cache key is good for. Replicas of the server drain one outbox into generations of
  their own, share a cache and prune the outbox behind what they know: every interleaving of commits, drains,
  pruning, renderings and lookups. An entry that a replica finds was rendered after every write of its extent
  the replica has drained, as long as nobody prunes what another replica has still to read; and two
  interleavings where the code lets that happen.
\<close>

section \<open>Indices at two zoom levels\<close>

lemma floor_scaled: "\<lfloor>(u :: rat) * 2 ^ z\<rfloor> = \<lfloor>u * 2 ^ (z + k)\<rfloor> div 2 ^ k"
proof -
  let ?a = "\<lfloor>u * 2 ^ (z + k)\<rfloor>"
  have p: "(0 :: rat) < 2 ^ k" and i: "(0 :: int) < 2 ^ k" by simp_all
  have scaled: "u * 2 ^ (z + k) = (u * 2 ^ z) * 2 ^ k" by (simp add: power_add)
  have "(?a div 2 ^ k) * 2 ^ k \<le> ?a" "?a < (?a div 2 ^ k + 1) * 2 ^ k"
    using div_mult_mod_eq [of ?a "2 ^ k"] pos_mod_bound [OF i, of ?a] pos_mod_sign [OF i, of ?a]
    unfolding distrib_right mult_1 by linarith+
  then have "of_int ((?a div 2 ^ k) * 2 ^ k) \<le> u * 2 ^ (z + k)" "u * 2 ^ (z + k) < of_int ((?a div 2 ^ k + 1) * 2 ^ k)"
    by (simp_all add: le_floor_iff floor_less_iff)
  then have "of_int (?a div 2 ^ k) \<le> u * 2 ^ z" "u * 2 ^ z < of_int (?a div 2 ^ k) + 1"
    unfolding scaled using p by simp_all
  then show ?thesis by (rule floor_unique)
qed

lemma clamp_top: "int M \<le> r \<Longrightarrow> clamp_index (Some r) M = M"
  by (auto simp: clamp_index_def)

lemma clamp_within: "n \<le> M \<Longrightarrow> clamp_index (Some (int n)) M = n"
  by (auto simp: clamp_index_def)

lemma clamp_mono: "r \<le> s \<Longrightarrow> clamp_index (Some r) M \<le> clamp_index (Some s) M"
  by (auto simp: clamp_index_def)

lemma clamp_nested:
  "clamp_index (Some c) (2 ^ (z + k) - 1) div 2 ^ k = clamp_index (Some (c div 2 ^ k)) (2 ^ z - 1)"
proof -
  have side: "(2 :: nat) ^ (z + k) - 1 = (2 ^ z - 1) * 2 ^ k + (2 ^ k - 1)"
    by (simp add: power_add diff_mult_distrib)
  have top: "((2 :: nat) ^ (z + k) - 1) div 2 ^ k = 2 ^ z - 1"
    unfolding side by (subst div_mult_self3) simp_all
  consider "c \<le> 0" | "0 < c" "int (2 ^ (z + k) - 1) \<le> c" | "0 < c" "c < int (2 ^ (z + k) - 1)" by linarith
  then show ?thesis
  proof cases
    case 1
    then have "c div 2 ^ k \<le> 0" by (simp add: div_nonpos_pos_le0)
    with 1 show ?thesis by (simp add: clamp_index_def)
  next
    case 2
    have "int (2 ^ (z + k) - 1) div 2 ^ k \<le> c div 2 ^ k" using 2(2) by (rule zdiv_mono1) simp
    moreover have "int (2 ^ (z + k) - 1) div 2 ^ k = int (2 ^ z - 1)"
      using top by (metis of_nat_numeral of_nat_power zdiv_int)
    ultimately have "int (2 ^ z - 1) \<le> c div 2 ^ k" by simp
    with 2(2) top show ?thesis by (simp only: clamp_top)
  next
    case 3
    then obtain n where n: "c = int n" "0 < n" "n < 2 ^ (z + k) - 1" by (metis of_nat_0_less_iff of_nat_less_iff zero_less_imp_eq_int)
    have "n div 2 ^ k \<le> 2 ^ z - 1" using n(3) top div_le_mono [of n "2 ^ (z + k) - 1" "2 ^ k"] by simp
    moreover have "c div 2 ^ k = int (n div 2 ^ k)" by (simp add: n(1) zdiv_int)
    ultimately show ?thesis using n(3) by (simp only: n(1) clamp_within less_imp_le)
  qed
qed

lemma index_nested: "index_for u (z + k) div 2 ^ k = index_for u z"
proof (cases u)
  case None
  then show ?thesis by (simp add: index_for_def clamp_index_def)
next
  case (Some v)
  show ?thesis
    by (simp only: Some index_for_def matrix_side_def option.map of_nat_power of_nat_numeral clamp_nested floor_scaled [of v z k])
qed

lemma index_mono: "u \<le> v \<Longrightarrow> index_for (Some u) zoom \<le> index_for (Some v) zoom"
proof -
  assume "u \<le> v"
  then have "\<lfloor>u * of_nat (matrix_side zoom)\<rfloor> \<le> \<lfloor>v * of_nat (matrix_side zoom)\<rfloor>"
    by (intro floor_mono mult_right_mono) simp_all
  then show ?thesis unfolding index_for_def option.map by (rule clamp_mono)
qed

section \<open>What a rendering shows\<close>

definition box_ok :: "world_box \<Rightarrow> bool" where
  "box_ok box =
     (case (wb_west box, wb_east box, wb_north box, wb_south box) of
        (Some w, Some e, Some n, Some s) \<Rightarrow> w \<le> e \<and> n \<le> s
      | _ \<Rightarrow> False)"

definition boxes_overlap :: "world_box \<Rightarrow> world_box \<Rightarrow> bool" where
  "boxes_overlap v box =
     (the (wb_west v) \<le> the (wb_east box) \<and> the (wb_west box) \<le> the (wb_east v)
      \<and> the (wb_north v) \<le> the (wb_south box) \<and> the (wb_north box) \<le> the (wb_south v))"

definition lane_ok :: "tile_lane \<Rightarrow> bool" where
  "lane_ok lane = (case lane of Map_Window v \<Rightarrow> box_ok v | _ \<Rightarrow> True)"

definition lane_meets :: "tile_lane \<Rightarrow> world_box \<Rightarrow> bool" where
  "lane_meets lane box =
     (case lane of
        Mercator_Tile z x y \<Rightarrow>
          (case covering_tile_range box z of (min_col, max_col, min_row, max_row) \<Rightarrow>
             min_col \<le> x \<and> x \<le> max_col \<and> min_row \<le> y \<and> y \<le> max_row)
      | Crs84_Tile _ _ _ \<Rightarrow> True
      | Map_Window v \<Rightarrow> box_ok v \<and> boxes_overlap v box)"

text \<open>A write touches a rendering when the rendering shows ground the feature left or came to.\<close>

definition touches :: "('b \<Rightarrow> world_box) \<Rightarrow> tile_lane \<Rightarrow> 'b obligation_extent \<Rightarrow> bool" where
  "touches project lane extent =
     (case extent of
        Unrecorded \<Rightarrow> lane_ok lane
      | Crs84 prior current \<Rightarrow>
          list_ex (\<lambda>bbox. box_ok (project bbox) \<and> lane_meets lane (project bbox)) (List.map_filter id [prior, current]))"

definition lane_buckets :: "nat \<Rightarrow> tile_lane \<Rightarrow> (nat \<times> nat) list" where
  "lane_buckets zoom lane =
     (case lane of
        Mercator_Tile z x y \<Rightarrow> buckets_for_tile zoom z x y
      | Crs84_Tile _ _ _ \<Rightarrow> []
      | Map_Window v \<Rightarrow> buckets_for_bbox_mercator zoom v)"

lemma set_bbox_buckets:
  "set (buckets_for_bbox_mercator zoom box) =
     {(c, r). index_for (wb_west box) zoom \<le> c \<and> c \<le> index_for (wb_east box) zoom
        \<and> index_for (wb_north box) zoom \<le> r \<and> r \<le> index_for (wb_south box) zoom}"
  by (auto simp: buckets_for_bbox_mercator_def covering_tile_range_def image_iff)

lemma set_tile_buckets:
  "zoom = z + k \<Longrightarrow> set (buckets_for_tile zoom z x y) = {(c, r). c div 2 ^ k = x \<and> r div 2 ^ k = y}"
proof -
  have d: "c div 2 ^ k = x \<longleftrightarrow> (\<exists>dx<2 ^ k. c = x * 2 ^ k + dx)" for c x :: nat
  proof
    assume "c div 2 ^ k = x"
    then have "c = x * 2 ^ k + c mod 2 ^ k" by (metis div_mult_mod_eq)
    then show "\<exists>dx<2 ^ k. c = x * 2 ^ k + dx" by (metis mod_less_divisor zero_less_numeral zero_less_power)
  qed auto
  assume zoom: "zoom = z + k"
  show ?thesis
  proof (cases "k = 0")
    case True
    then show ?thesis by (auto simp: buckets_for_tile_def zoom)
  next
    case False
    then have "set (buckets_for_tile zoom z x y) = {(x * 2 ^ k + dx, y * 2 ^ k + dy) |dx dy. dx < 2 ^ k \<and> dy < 2 ^ k}"
      by (auto simp: buckets_for_tile_def Let_def zoom image_iff)
    then show ?thesis by (auto simp: d)
  qed
qed

lemma between_div:
  assumes "(a :: nat) \<le> b" "a div n \<le> x" "x \<le> b div n" "0 < n"
  shows "\<exists>c. a \<le> c \<and> c \<le> b \<and> c div n = x"
proof -
  have "x * n \<le> b" using assms(3,4) by (meson div_times_less_eq_dividend le_trans mult_le_mono1)
  moreover from assms(4) have "0 < n" .
  moreover have "a < (x + 1) * n"
    using assms(2,4) by (metis Suc_eq_plus1 div_less_iff_less_mult le_imp_less_Suc)
  ultimately have "max a (x * n) div n = x"
    by (intro div_nat_eqI) (auto simp: max_def algebra_simps)
  with assms(1) \<open>x * n \<le> b\<close> show ?thesis by (intro exI [of _ "max a (x * n)"]) simp
qed

lemma touched_lane_bucket:
  assumes "box_ok box" "lane_meets lane box" "\<nexists>z x y. lane = Crs84_Tile z x y"
  shows "\<exists>b \<in> set (lane_buckets zoom lane). b \<in> set (buckets_for_bbox_mercator zoom box)"
proof -
  from assms(1) obtain w e n s where box: "wb_west box = Some w" "wb_east box = Some e" "wb_north box = Some n"
    "wb_south box = Some s" "w \<le> e" "n \<le> s" by (auto simp: box_ok_def split: option.splits)
  note ranges = index_mono [OF box(5), of zoom] index_mono [OF box(6), of zoom]
  show ?thesis
  proof (cases lane)
    case (Mercator_Tile z x y)
    with assms(2) have meet: "index_for (Some w) z \<le> x" "x \<le> index_for (Some e) z" "index_for (Some n) z \<le> y" "y \<le> index_for (Some s) z"
      by (simp_all add: lane_meets_def covering_tile_range_def box)
    show ?thesis
    proof (cases "zoom \<le> z")
      case True
      then obtain k where z: "z = zoom + k" using le_Suc_ex by blast
      have "index_for (Some w) zoom \<le> x div 2 ^ k" "x div 2 ^ k \<le> index_for (Some e) zoom"
        "index_for (Some n) zoom \<le> y div 2 ^ k" "y div 2 ^ k \<le> index_for (Some s) zoom"
        using div_le_mono [of _ _ "2 ^ k"] meet unfolding z by (metis index_nested)+
      then show ?thesis by (simp add: Mercator_Tile lane_buckets_def buckets_for_tile_def z set_bbox_buckets box)
    next
      case False
      then obtain k where zoom: "zoom = z + k" using le_Suc_ex by (metis nat_le_linear)
      from meet have "\<exists>c. index_for (Some w) zoom \<le> c \<and> c \<le> index_for (Some e) zoom \<and> c div 2 ^ k = x"
        "\<exists>r. index_for (Some n) zoom \<le> r \<and> r \<le> index_for (Some s) zoom \<and> r div 2 ^ k = y"
        unfolding zoom by (intro between_div ranges [unfolded zoom]; simp add: index_nested)+
      then show ?thesis by (auto simp: Mercator_Tile lane_buckets_def set_tile_buckets [OF zoom] set_bbox_buckets box)
    qed
  next
    case (Map_Window v)
    with assms(2) obtain w' e' n' s' where v: "wb_west v = Some w'" "wb_east v = Some e'" "wb_north v = Some n'"
      "wb_south v = Some s'" "w' \<le> e'" "n' \<le> s'" and o: "w' \<le> e" "w \<le> e'" "n' \<le> s" "n \<le> s'"
      by (auto simp: lane_meets_def box_ok_def boxes_overlap_def box split: option.splits)
    let ?c = "max (index_for (Some w) zoom) (index_for (Some w') zoom)"
    let ?r = "max (index_for (Some n) zoom) (index_for (Some n') zoom)"
    have "(?c, ?r) \<in> set (buckets_for_bbox_mercator zoom v)" "(?c, ?r) \<in> set (buckets_for_bbox_mercator zoom box)"
      using index_mono [OF v(5)] index_mono [OF v(6)] index_mono [OF o(1)] index_mono [OF o(2)] index_mono [OF o(3)]
        index_mono [OF o(4)] ranges by (simp_all add: set_bbox_buckets box v)
    then show ?thesis by (auto simp: Map_Window lane_buckets_def)
  next
    case (Crs84_Tile z x y)
    with assms(3) show ?thesis by blast
  qed
qed

lemma lane_buckets_nonempty:
  assumes "lane_ok lane" "\<nexists>z x y. lane = Crs84_Tile z x y"
  shows "lane_buckets zoom lane \<noteq> []"
proof (cases lane)
  case (Mercator_Tile z x y)
  then show ?thesis by (auto simp: lane_buckets_def buckets_for_tile_def Let_def intro: exI [of _ 0])
next
  case (Map_Window v)
  with assms(1) obtain w e n s where v: "wb_west v = Some w" "wb_east v = Some e" "wb_north v = Some n"
    "wb_south v = Some s" "w \<le> e" "n \<le> s" by (auto simp: lane_ok_def box_ok_def split: option.splits)
  have "(index_for (Some w) zoom, index_for (Some n) zoom) \<in> set (buckets_for_bbox_mercator zoom v)"
    using index_mono [OF v(5)] index_mono [OF v(6)] by (simp add: set_bbox_buckets v)
  then show ?thesis by (auto simp: Map_Window lane_buckets_def)
next
  case (Crs84_Tile z x y)
  with assms(2) show ?thesis by blast
qed

end
