(* ===== verification/Outbox_Reader.thy ===== *)
theory Outbox_Reader
  imports Outbox
begin

text \<open>
  The contract of \<open>OutboxSource::read_after\<close> in \<open>crates/tellurion-core/src/outbox.rs\<close> as an interface: a batch
  holds obligations strictly after the cursor in ascending order, leaves none out before its last one, and a
  short batch means that nothing more is there. The generation consumer, the change feed and the delivery of
  webhooks read the outbox through it; what they share is proved once here.
\<close>

locale outbox_source =
  fixes seq :: "'o \<Rightarrow> nat" and reads :: "'o list \<Rightarrow> nat \<Rightarrow> nat \<Rightarrow> 'o list"
  assumes read_limit: "length (reads outbox cursor n) \<le> n"
    and read_sound: "o' \<in> set (reads outbox cursor n) \<Longrightarrow> o' \<in> set outbox \<and> cursor < seq o'"
    and read_ascending:
      "distinct (map seq outbox) \<Longrightarrow> sorted_wrt (\<lambda>a b. seq a < seq b) (reads outbox cursor n)"
    and read_no_gap:
      "distinct (map seq outbox) \<Longrightarrow> o' \<in> set outbox \<Longrightarrow> cursor < seq o' \<Longrightarrow>
       length (reads outbox cursor n) < n \<or> (\<exists>p \<in> set (reads outbox cursor n). seq o' \<le> seq p) \<Longrightarrow>
       o' \<in> set (reads outbox cursor n)"
begin

lemma read_last:
  assumes "distinct (map seq outbox)" "o' \<in> set (reads outbox cursor n)"
  shows "seq o' \<le> seq (last (reads outbox cursor n))"
proof -
  let ?b = "reads outbox cursor n"
  have b: "?b = butlast ?b @ [last ?b]" using assms(2) by (cases "?b = []") simp_all
  then have "\<forall>a \<in> set (butlast ?b). seq a < seq (last ?b)"
    using read_ascending [OF assms(1), of cursor n] by (metis list.set_intros(1) sorted_wrt_append)
  moreover have "o' \<in> set (butlast ?b) \<or> o' = last ?b" using assms(2) b by (metis Un_iff empty_iff insert_iff list.set set_append)
  ultimately show ?thesis by auto
qed

text \<open>A batch is what lies between the cursor before it and the cursor after it.\<close>

lemma read_interval:
  assumes "distinct (map seq outbox)" "reads outbox cursor n \<noteq> []"
  shows "set (reads outbox cursor n) = {o' \<in> set outbox. cursor < seq o' \<and> seq o' \<le> seq (last (reads outbox cursor n))}"
  using read_sound read_last [OF assms(1)] read_no_gap [OF assms(1)] last_in_set [OF assms(2)] by blast

lemma read_short:
  "distinct (map seq outbox) \<Longrightarrow> length (reads outbox cursor n) < n \<Longrightarrow>
     set (reads outbox cursor n) = {o' \<in> set outbox. cursor < seq o'}"
  using read_sound read_no_gap by blast

text \<open>
  A reader that has seen, in order, exactly what lies between its start and its cursor has after a batch
  seen exactly what lies between its start and its new cursor, of all that is ever committed.
\<close>

lemma extend_reading:
  assumes "distinct (map seq outbox)" "reads outbox cursor n \<noteq> []" "start \<le> cursor"
    and "sorted_wrt (\<lambda>a b. seq a < seq b) seen" "set seen = {o' \<in> commits. start < seq o' \<and> seq o' \<le> cursor}"
    and "set outbox \<subseteq> commits"
    and "\<And>o'. o' \<in> commits \<Longrightarrow> cursor < seq o' \<Longrightarrow> o' \<in> set outbox \<or> (\<forall>p \<in> set outbox. seq p < seq o')"
  defines "batch \<equiv> reads outbox cursor n"
  shows "sorted_wrt (\<lambda>a b. seq a < seq b) (seen @ batch)"
    and "set (seen @ batch) = {o' \<in> commits. start < seq o' \<and> seq o' \<le> seq (last batch)}"
    and "cursor < seq (last batch)"
proof -
  have last: "last batch \<in> set batch" using assms(2) by (simp add: batch_def)
  then show cursor: "cursor < seq (last batch)" using read_sound by (simp add: batch_def)
  show "sorted_wrt (\<lambda>a b. seq a < seq b) (seen @ batch)"
    using assms(4,5) read_ascending [OF assms(1), of cursor n] read_sound [of _ outbox cursor n]
    unfolding sorted_wrt_append batch_def by fastforce
  have "o' \<in> set batch \<longleftrightarrow> cursor < seq o' \<and> seq o' \<le> seq (last batch)" if "o' \<in> commits" for o'
  proof
    assume between: "cursor < seq o' \<and> seq o' \<le> seq (last batch)"
    moreover have "last batch \<in> set outbox" using last read_sound by (simp add: batch_def)
    ultimately have "o' \<in> set outbox" using assms(7) [OF that] by (auto simp: not_less [symmetric])
    with between show "o' \<in> set batch" using read_interval [OF assms(1,2)] by (simp add: batch_def)
  qed (use read_interval [OF assms(1,2)] in \<open>auto simp: batch_def\<close>)
  moreover have "set batch \<subseteq> commits" using assms(6) read_sound by (auto simp: batch_def)
  ultimately show "set (seen @ batch) = {o' \<in> commits. start < seq o' \<and> seq o' \<le> seq (last batch)}"
    using assms(3,5) cursor by auto
qed

end

section \<open>The statement of the driver keeps the contract\<close>

lemma sorted_unread:
  assumes "distinct (map ob_sequence outbox)"
  shows "sorted_wrt (\<lambda>a b. ob_sequence a < ob_sequence b) (sort_key ob_sequence (filter P outbox))"
proof -
  let ?s = "sort_key ob_sequence (filter P outbox)"
  have "distinct (map ob_sequence ?s)"
    using assms by (auto simp: distinct_map inj_on_def)
  then have "sorted_wrt (<) (map ob_sequence ?s)" by (simp add: strict_sorted_iff)
  then show ?thesis by (simp add: sorted_wrt_map)
qed

lemma sorted_wrt_taken:
  assumes "sorted_wrt (\<lambda>a b. f a < (f b :: nat)) xs" "x \<in> set xs"
    and "length (take n xs) < n \<or> (\<exists>p \<in> set (take n xs). f x \<le> f p)"
  shows "x \<in> set (take n xs)"
proof (rule ccontr)
  assume not_taken: "x \<notin> set (take n xs)"
  then have "x \<in> set (drop n xs)" using assms(2) by (metis Un_iff append_take_drop_id set_append)
  then have "\<forall>p \<in> set (take n xs). f p < f x" using assms(1) by (metis append_take_drop_id sorted_wrt_append)
  moreover have "n < length xs" using \<open>x \<in> set (drop n xs)\<close> by (cases "n < length xs") simp_all
  ultimately show False using assms(3) by auto
qed

interpretation outbox: outbox_source ob_sequence read_after
proof
  fix outbox :: "('a, 'b) obligation_scheme list" and cursor n o'
  show "length (read_after outbox cursor n) \<le> n" by (simp add: read_after_def)
  show "o' \<in> set (read_after outbox cursor n) \<Longrightarrow> o' \<in> set outbox \<and> cursor < ob_sequence o'"
    by (auto simp: read_after_def dest!: in_set_takeD)
  assume d: "distinct (map ob_sequence outbox)"
  show "sorted_wrt (\<lambda>a b. ob_sequence a < ob_sequence b) (read_after outbox cursor n)"
    unfolding read_after_def by (intro sorted_wrt_take sorted_unread [OF d])
  assume "o' \<in> set outbox" "cursor < ob_sequence o'"
    "length (read_after outbox cursor n) < n \<or> (\<exists>p \<in> set (read_after outbox cursor n). ob_sequence o' \<le> ob_sequence p)"
  then show "o' \<in> set (read_after outbox cursor n)"
    unfolding read_after_def by (intro sorted_wrt_taken [OF sorted_unread [OF d]]) simp_all
qed

text \<open>An outbox whose rows came in the order of their sequence numbers.\<close>

definition ascending :: "('d, 'x) obligation_scheme list \<Rightarrow> bool" where
  "ascending os \<longleftrightarrow> sorted_wrt (\<lambda>a b. ob_sequence a < ob_sequence b) os"

lemma ascending_distinct: "ascending os \<Longrightarrow> distinct (map ob_sequence os)"
  unfolding ascending_def by (induction os) auto

end
