(* ===== verification/Tile_Claims.thy ===== *)
theory Tile_Claims
  imports Tile_Freshness Outbox_Reader
begin

text \<open>
  The replicas, the outbox and the shared cache of one collection as one transition system, its invariant, and
  the freshness of what a lookup finds. A fetch builds its key first and reads the primary after; what it
  renders is remembered as the number of commits the primary had by then.
\<close>

section \<open>Replicas over one outbox and one cache\<close>

record tile_fetch =
  tf_lane :: tile_lane
  tf_generation :: nat

record cached_tile =
  ce_lane :: tile_lane
  ce_generation :: nat
  ce_commits :: nat

record ('d, 'b) tile_world =
  tw_log :: "('d, 'b) located list"
  tw_outbox :: "('d, 'b) located list"
  tw_replicas :: "(nat \<times> generation_store) list"
  tw_fetches :: "(nat \<times> tile_fetch) list"
  tw_cache :: "cached_tile list"

datatype ('d, 'b) tile_event =
    Committed "('d, 'b) located"
  | Drain nat nat
  | Prune_Behind nat "(string \<times> nat) list" nat
  | Start nat
  | Stop nat
  | Begin_Fetch nat nat tile_lane
  | Render nat

definition empty_tile_world :: "('d, 'b) tile_world" where
  "empty_tile_world = \<lparr>tw_log = [], tw_outbox = [], tw_replicas = [], tw_fetches = [], tw_cache = []\<rparr>"

definition behind ::
  "string \<Rightarrow> generation_store \<Rightarrow> (string \<times> nat) list \<Rightarrow> ('d, 'b) located list \<Rightarrow> nat" where
  "behind collection store consumers outbox =
     rf_floor (compute_floor (primary_high_water outbox) ((''tile-generation'', gen_cursor store collection) # consumers))"

fun tile_step ::
  "('b \<Rightarrow> world_box) \<Rightarrow> nat \<Rightarrow> string \<Rightarrow> ('d, 'b) tile_event \<Rightarrow> ('d, 'b) tile_world \<Rightarrow> ('d, 'b) tile_world option" where
  "tile_step project zoom collection (Committed o') w =
     Some (w\<lparr>tw_log := tw_log w @ [o'], tw_outbox := tw_outbox w @ [o']\<rparr>)"
| "tile_step project zoom collection (Drain r batch_size) w =
     map_option (\<lambda>store. w\<lparr>tw_replicas := AList.update r
         (snd (drain_once_for_generations project (tw_outbox w) store collection batch_size)) (tw_replicas w)\<rparr>)
       (map_of (tw_replicas w) r)"
| "tile_step project zoom collection (Prune_Behind r consumers batch_size) w =
     map_option (\<lambda>store. w\<lparr>tw_outbox := prune_before (behind collection store consumers (tw_outbox w)) batch_size (tw_outbox w)\<rparr>)
       (map_of (tw_replicas w) r)"
| "tile_step project zoom collection (Start r) w =
     Some (w\<lparr>tw_replicas := AList.update r (generation_store_new zoom [collection]) (tw_replicas w)\<rparr>)"
| "tile_step project zoom collection (Stop r) w = Some (w\<lparr>tw_replicas := AList.delete r (tw_replicas w)\<rparr>)"
| "tile_step project zoom collection (Begin_Fetch p r lane) w =
     map_option (\<lambda>store. w\<lparr>tw_fetches := (p, \<lparr>tf_lane = lane, tf_generation = tile_generation store collection lane\<rparr>) # tw_fetches w\<rparr>)
       (map_of (tw_replicas w) r)"
| "tile_step project zoom collection (Render p) w =
     map_option (\<lambda>f. w\<lparr>tw_fetches := AList.delete p (tw_fetches w),
         tw_cache := \<lparr>ce_lane = tf_lane f, ce_generation = tf_generation f, ce_commits = length (tw_log w)\<rparr> # tw_cache w\<rparr>)
       (map_of (tw_fetches w) p)"

fun run_tiles ::
  "('b \<Rightarrow> world_box) \<Rightarrow> nat \<Rightarrow> string \<Rightarrow> ('d, 'b) tile_event list \<Rightarrow> ('d, 'b) tile_world \<Rightarrow> ('d, 'b) tile_world option" where
  "run_tiles project zoom collection [] w = Some w"
| "run_tiles project zoom collection (e # es) w =
     Option.bind (tile_step project zoom collection e w) (run_tiles project zoom collection es)"

text \<open>
  What freshness relies on: commits in sequence order, no pruning of what a running replica has not
  drained, and no replica that starts when something was pruned already.
\<close>

definition careful_step :: "string \<Rightarrow> ('d, 'b) tile_event \<Rightarrow> ('d, 'b) tile_world \<Rightarrow> bool" where
  "careful_step collection e w =
     (case e of
        Committed o' \<Rightarrow> 0 < ob_sequence o' \<and> list_all (\<lambda>p. ob_sequence p < ob_sequence o') (tw_log w)
      | Prune_Behind r consumers _ \<Rightarrow>
          (case map_of (tw_replicas w) r of
             Some store \<Rightarrow> list_all (\<lambda>(_, other). behind collection store consumers (tw_outbox w) \<le> gen_cursor other collection) (tw_replicas w)
           | None \<Rightarrow> True)
      | Start _ \<Rightarrow> length (tw_outbox w) = length (tw_log w)
      | _ \<Rightarrow> True)"

fun careful ::
  "('b \<Rightarrow> world_box) \<Rightarrow> nat \<Rightarrow> string \<Rightarrow> ('d, 'b) tile_event list \<Rightarrow> ('d, 'b) tile_world \<Rightarrow> bool" where
  "careful project zoom collection [] w = True"
| "careful project zoom collection (e # es) w =
     (careful_step collection e w
      \<and> (case tile_step project zoom collection e w of Some w' \<Rightarrow> careful project zoom collection es w' | None \<Rightarrow> True))"

section \<open>The invariant\<close>

definition log_ok :: "('d, 'b) located list \<Rightarrow> bool" where
  "log_ok commits \<longleftrightarrow> sorted_wrt (\<lambda>a b. ob_sequence a < ob_sequence b) commits \<and> list_all (\<lambda>o'. 0 < ob_sequence o') commits"

text \<open>Everything up to the cursor has left its mark, and no mark is beyond the cursor.\<close>

definition gen_ok :: "('b \<Rightarrow> world_box) \<Rightarrow> nat \<Rightarrow> ('d, 'b) located list \<Rightarrow> collection_gen \<Rightarrow> bool" where
  "gen_ok project zoom commits state \<longleftrightarrow>
     cg_floor state \<le> cg_cursor state \<and> (\<forall>b. stored_generation state b \<le> cg_cursor state)
     \<and> (\<forall>o' \<in> set commits. ob_sequence o' \<le> cg_cursor state \<longrightarrow>
           (ob_extent o' = Unrecorded \<longrightarrow> ob_sequence o' \<le> cg_floor state)
           \<and> (\<forall>b \<in> set (touched_buckets project zoom (ob_extent o')). ob_sequence o' \<le> stored_generation state b))"

definition newest :: "('d, 'b) located list \<Rightarrow> nat" where
  "newest commits = primary_high_water commits"

definition store_ok :: "('b \<Rightarrow> world_box) \<Rightarrow> nat \<Rightarrow> string \<Rightarrow> ('d, 'b) located list \<Rightarrow> generation_store \<Rightarrow> bool" where
  "store_ok project zoom collection commits store \<longleftrightarrow>
     gs_grid store = zoom \<and> (\<exists>state. gs_collections store collection = Some state
       \<and> gen_ok project zoom commits state \<and> cg_cursor state \<le> newest commits)"

definition tiles_ok :: "('b \<Rightarrow> world_box) \<Rightarrow> nat \<Rightarrow> string \<Rightarrow> ('d, 'b) tile_world \<Rightarrow> bool" where
  "tiles_ok project zoom collection w \<longleftrightarrow>
     log_ok (tw_log w)
     \<and> (\<exists>j\<le>length (tw_log w). tw_outbox w = drop j (tw_log w)
         \<and> (\<forall>r store. map_of (tw_replicas w) r = Some store \<longrightarrow>
              (\<forall>o' \<in> set (take j (tw_log w)). ob_sequence o' \<le> gen_cursor store collection)))
     \<and> (\<forall>r store. map_of (tw_replicas w) r = Some store \<longrightarrow> store_ok project zoom collection (tw_log w) store)
     \<and> (\<forall>p f. map_of (tw_fetches w) p = Some f \<longrightarrow> tf_generation f \<le> newest (tw_log w))
     \<and> (\<forall>entry \<in> set (tw_cache w). ce_commits entry \<le> length (tw_log w)
         \<and> ce_generation entry \<le> newest (take (ce_commits entry) (tw_log w)))"

lemma newest_ge: "o' \<in> set commits \<Longrightarrow> ob_sequence o' \<le> newest commits"
  unfolding newest_def primary_high_water_def by (induction commits) auto

lemma newest_le: "(\<And>o'. o' \<in> set commits \<Longrightarrow> ob_sequence o' \<le> n) \<Longrightarrow> newest commits \<le> n"
  unfolding newest_def primary_high_water_def by (induction commits) auto

lemma newest_append: "newest commits \<le> newest (commits @ rest)"
  by (rule newest_le) (simp add: newest_ge)

lemma newest_attained: "commits \<noteq> [] \<Longrightarrow> \<exists>o' \<in> set commits. ob_sequence o' = newest commits"
  unfolding newest_def primary_high_water_def by (induction commits rule: list_nonempty_induct) (auto simp: max_def)

lemma max_generation_le: "(\<And>b. b \<in> set buckets \<Longrightarrow> generation_for_bucket state b \<le> n) \<Longrightarrow> max_generation state buckets \<le> n"
  unfolding max_generation_def by (induction buckets) auto

lemma max_generation_ge: "b \<in> set buckets \<Longrightarrow> generation_for_bucket state b \<le> max_generation state buckets"
  unfolding max_generation_def by (induction buckets) auto

lemma tile_generation_le:
  assumes "store_ok project zoom collection commits store"
  shows "tile_generation store collection lane \<le> gen_cursor store collection" "gen_cursor store collection \<le> newest commits"
proof -
  from assms obtain state where state: "gs_collections store collection = Some state" "gen_ok project zoom commits state"
    "cg_cursor state \<le> newest commits" by (auto simp: store_ok_def)
  then have "generation_for_bucket state b \<le> cg_cursor state" for b
    by (cases b) (simp add: gen_ok_def generation_for_bucket_def)
  then have "max_generation state buckets \<le> cg_cursor state" for buckets by (rule max_generation_le)
  then show "tile_generation store collection lane \<le> gen_cursor store collection"
    by (simp add: tile_generation_def generation_for_tile_def generation_for_bbox_mercator_def generation_for_collection_def
        gen_cursor_def state split: tile_lane.split)
  show "gen_cursor store collection \<le> newest commits" using state by (simp add: gen_cursor_def)
qed

lemma touched_generation:
  assumes "store_ok project zoom collection commits store" "o' \<in> set commits" "ob_sequence o' \<le> gen_cursor store collection"
    and "touches project lane (ob_extent o')"
  shows "ob_sequence o' \<le> tile_generation store collection lane"
proof (cases "\<exists>z x y. lane = Crs84_Tile z x y")
  case True
  then show ?thesis
    using assms(3) by (auto simp: tile_generation_def generation_for_collection_def gen_cursor_def)
next
  case False
  from assms(1) obtain state where state: "gs_collections store collection = Some state" "gen_ok project zoom commits state"
    and grid: "gs_grid store = zoom" by (auto simp: store_ok_def)
  have gen: "tile_generation store collection lane = max_generation state (lane_buckets zoom lane)"
    using False by (cases lane) (simp_all add: tile_generation_def generation_for_tile_def generation_for_bbox_mercator_def
        lane_buckets_def state grid)
  have "\<exists>b \<in> set (lane_buckets zoom lane). ob_sequence o' \<le> generation_for_bucket state b"
  proof (cases "ob_extent o'")
    case Unrecorded
    with assms(4) have "lane_buckets zoom lane \<noteq> []" using False by (intro lane_buckets_nonempty) (simp_all add: touches_def)
    moreover have "ob_sequence o' \<le> cg_floor state"
      using state assms(2,3) Unrecorded by (simp add: gen_ok_def gen_cursor_def)
    ultimately show ?thesis by (cases "lane_buckets zoom lane") (auto simp: generation_for_bucket_def)
  next
    case (Crs84 prior current)
    with assms(4) obtain bbox where bbox: "bbox \<in> set (List.map_filter id [prior, current])" "box_ok (project bbox)"
      "lane_meets lane (project bbox)" by (auto simp: touches_def list_ex_iff)
    from touched_lane_bucket [OF bbox(2,3) False] obtain b where b: "b \<in> set (lane_buckets zoom lane)"
      "b \<in> set (buckets_for_bbox_mercator zoom (project bbox))" by blast
    with bbox(1) have "b \<in> set (touched_buckets project zoom (ob_extent o'))"
      by (auto simp: Crs84 touched_buckets_def buckets_for_bbox_lonlat_def)
    with state assms(2,3) have "ob_sequence o' \<le> stored_generation state b" by (simp add: gen_ok_def gen_cursor_def)
    with b(1) show ?thesis by (intro bexI [of _ b]) (simp_all add: generation_for_bucket_def le_max_iff_disj)
  qed
  then show ?thesis unfolding gen using max_generation_ge by (meson le_trans)
qed

lemma newest_less: "0 < n \<Longrightarrow> (\<And>o'. o' \<in> set commits \<Longrightarrow> ob_sequence o' < n) \<Longrightarrow> newest commits < n"
  by (cases "commits = []") (simp add: newest_def primary_high_water_def, metis newest_attained)

lemma drained_batch:
  fixes commits :: "('d, 'b) located list" and n
  assumes "log_ok commits" "\<forall>o' \<in> set (take j commits). ob_sequence o' \<le> cursor"
  defines "batch \<equiv> read_after (drop j commits) cursor n"
  assumes "o' \<in> set commits" "ob_sequence o' \<le> newest batch"
  shows "ob_sequence o' \<le> cursor \<or> o' \<in> set batch"
proof (cases "ob_sequence o' \<le> cursor")
  case False
  then have unread: "cursor < ob_sequence o'" by simp
  have "o' \<in> set (take j commits) \<union> set (drop j commits)" using assms(4) by (metis append_take_drop_id set_append)
  with unread assms(2) have "o' \<in> set (drop j commits)" by fastforce
  moreover have "batch \<noteq> []" using unread assms(5) by (auto simp: newest_def primary_high_water_def)
  then have "\<exists>p \<in> set batch. ob_sequence o' \<le> ob_sequence p" using newest_attained [of batch] assms(5) by metis
  moreover have "distinct (map ob_sequence (drop j commits))"
    using assms(1) by (intro ascending_distinct) (simp add: log_ok_def ascending_def sorted_wrt_drop)
  ultimately have "o' \<in> set batch" using unread unfolding batch_def by (intro outbox.read_no_gap) auto
  then show ?thesis by (rule disjI2)
qed simp

lemma batch_state_ok:
  assumes "gen_ok project zoom commits state" "cg_cursor state < m"
    and "\<And>o'. o' \<in> set commits \<Longrightarrow> ob_sequence o' \<le> m \<Longrightarrow> ob_sequence o' \<le> cg_cursor state \<or> o' \<in> set batch"
  shows "gen_ok project zoom commits (snd (batch_state project zoom m batch state))"
proof -
  let ?new = "snd (batch_state project zoom m batch state)"
  have cursor: "cg_cursor ?new = m" by (simp add: batch_state_def Let_def)
  have floor: "cg_floor state \<le> cg_floor ?new" "cg_floor ?new \<le> max (cg_floor state) m"
    "o' \<in> set batch \<Longrightarrow> ob_extent o' = Unrecorded \<Longrightarrow> m \<le> cg_floor ?new" for o'
    by (auto simp: batch_state_def Let_def list_ex_iff)
  have stored: "stored_generation state b \<le> stored_generation ?new b" "stored_generation ?new b \<le> max (stored_generation state b) m"
    "o' \<in> set batch \<Longrightarrow> b \<in> set (touched_buckets project zoom (ob_extent o')) \<Longrightarrow> m \<le> stored_generation ?new b" for b o'
    by (auto simp: batch_state_def stored_generation_def Let_def)
  have old: "cg_floor state \<le> cg_cursor state" "stored_generation state b \<le> cg_cursor state" for b
    using assms(1) by (cases b, simp add: gen_ok_def)+
  have "(ob_extent o' = Unrecorded \<longrightarrow> ob_sequence o' \<le> cg_floor ?new)
      \<and> (\<forall>b \<in> set (touched_buckets project zoom (ob_extent o')). ob_sequence o' \<le> stored_generation ?new b)"
    if o': "o' \<in> set commits" "ob_sequence o' \<le> m" for o'
  proof (cases "ob_sequence o' \<le> cg_cursor state")
    case True
    with assms(1) o'(1) have "ob_extent o' = Unrecorded \<longrightarrow> ob_sequence o' \<le> cg_floor state"
      "\<forall>b \<in> set (touched_buckets project zoom (ob_extent o')). ob_sequence o' \<le> stored_generation state b"
      by (simp_all add: gen_ok_def)
    with floor(1) stored(1) show ?thesis by (meson le_trans)
  next
    case False
    with assms(3) o' have "o' \<in> set batch" by blast
    with floor(3) stored(3) o'(2) show ?thesis by (meson le_trans)
  qed
  moreover have "cg_floor ?new \<le> m" "stored_generation ?new b \<le> m" for b
    using floor(2) stored(2) [of b] old(1) old(2) [of b] assms(2) by simp_all
  ultimately show ?thesis unfolding gen_ok_def cursor by blast
qed

lemma drain_ok:
  fixes n
  assumes "log_ok commits" "store_ok project zoom collection commits store"
    and "\<forall>o' \<in> set (take j commits). ob_sequence o' \<le> gen_cursor store collection"
  defines "store' \<equiv> snd (drain_once_for_generations project (drop j commits) store collection n)"
  shows "store_ok project zoom collection commits store'" "gen_cursor store collection \<le> gen_cursor store' collection"
proof -
  let ?batch = "read_after (drop j commits) (gen_cursor store collection) n"
  from assms(2) obtain state where state: "gs_collections store collection = Some state" "gen_ok project zoom commits state"
    and grid: "gs_grid store = zoom" and within: "cg_cursor state \<le> newest commits" by (auto simp: store_ok_def)
  have cursor: "gen_cursor store collection = cg_cursor state" by (simp add: gen_cursor_def state)
  have "store_ok project zoom collection commits store' \<and> gen_cursor store collection \<le> gen_cursor store' collection"
  proof (cases "?batch = []")
    case True
    then show ?thesis using assms(2) by (simp add: store'_def drain_once_for_generations_def)
  next
    case False
    let ?new = "snd (batch_state project zoom (newest ?batch) ?batch state)"
    have store': "store' = store\<lparr>gs_collections := (gs_collections store)(collection \<mapsto> ?new)\<rparr>"
      using False by (simp add: store'_def drain_once_for_generations_def gen_apply_batch_def state grid Let_def newest_def
          primary_high_water_def split: prod.split)
    have new: "cg_cursor ?new = newest ?batch" by (simp add: batch_state_def Let_def)
    have sub: "set ?batch \<subseteq> set commits" "\<forall>o' \<in> set ?batch. gen_cursor store collection < ob_sequence o'"
      by (auto simp: read_after_def dest!: in_set_takeD dest: in_set_dropD)
    then have up: "cg_cursor state < newest ?batch"
      using newest_attained [OF False] cursor by auto
    have "newest ?batch \<le> newest commits" using sub(1) by (intro newest_le) (auto intro: newest_ge)
    moreover have "gen_ok project zoom commits ?new"
      using drained_batch [OF assms(1,3)] unfolding cursor by (intro batch_state_ok [OF state(2) up [unfolded cursor]]) blast
    ultimately show ?thesis using up new by (simp add: store_ok_def store' grid gen_cursor_def state)
  qed
  then show "store_ok project zoom collection commits store'" "gen_cursor store collection \<le> gen_cursor store' collection"
    by simp_all
qed

lemma store_ok_commit:
  assumes "store_ok project zoom collection commits store" "0 < ob_sequence o'" "\<forall>p \<in> set commits. ob_sequence p < ob_sequence o'"
  shows "store_ok project zoom collection (commits @ [o']) store"
proof -
  from assms(1) obtain state where state: "gs_collections store collection = Some state" "gen_ok project zoom commits state"
    "gs_grid store = zoom" "cg_cursor state \<le> newest commits" by (auto simp: store_ok_def)
  then have "cg_cursor state < ob_sequence o'" using newest_less [of "ob_sequence o'" commits] assms(2,3) by fastforce
  then have "gen_ok project zoom (commits @ [o']) state" using state(2) by (simp add: gen_ok_def)
  moreover have "cg_cursor state \<le> newest (commits @ [o'])" using state(4) newest_append le_trans by blast
  ultimately show ?thesis using state(1,3) by (simp add: store_ok_def)
qed

lemma new_store_ok:
  "log_ok commits \<Longrightarrow> store_ok project zoom collection commits (generation_store_new zoom [collection])"
  by (auto simp: store_ok_def generation_store_new_def collection_gen_new_def gen_ok_def stored_generation_def log_ok_def list_all_iff)

lemma tile_step_ok:
  assumes "tiles_ok project zoom collection w" "careful_step collection e w" "tile_step project zoom collection e w = Some w'"
  shows "tiles_ok project zoom collection w'"
proof -
  from assms(1) obtain j where sorted: "log_ok (tw_log w)" and j: "j \<le> length (tw_log w)" "tw_outbox w = drop j (tw_log w)"
    "\<And>r store o'. map_of (tw_replicas w) r = Some store \<Longrightarrow> o' \<in> set (take j (tw_log w)) \<Longrightarrow> ob_sequence o' \<le> gen_cursor store collection"
    and stores: "\<And>r store. map_of (tw_replicas w) r = Some store \<Longrightarrow> store_ok project zoom collection (tw_log w) store"
    and fetches: "\<And>p f. map_of (tw_fetches w) p = Some f \<Longrightarrow> tf_generation f \<le> newest (tw_log w)"
    and entries: "\<And>entry. entry \<in> set (tw_cache w) \<Longrightarrow> ce_commits entry \<le> length (tw_log w)
      \<and> ce_generation entry \<le> newest (take (ce_commits entry) (tw_log w))"
    unfolding tiles_ok_def by blast
  show ?thesis
  proof (cases e)
    case (Committed o')
    with assms(2) have o': "0 < ob_sequence o'" "\<forall>p \<in> set (tw_log w). ob_sequence p < ob_sequence o'"
      by (simp_all add: careful_step_def list_all_iff)
    have w': "w' = w\<lparr>tw_log := tw_log w @ [o'], tw_outbox := tw_outbox w @ [o']\<rparr>" using assms(3) by (simp add: Committed)
    have "log_ok (tw_log w @ [o'])" using sorted o' by (auto simp: log_ok_def sorted_wrt_append)
    moreover have "tf_generation f \<le> newest (tw_log w @ [o'])" if "map_of (tw_fetches w) p = Some f" for p f
      using fetches [OF that] newest_append le_trans by blast
    moreover have "ce_commits entry \<le> length (tw_log w @ [o']) \<and> ce_generation entry \<le> newest (take (ce_commits entry) (tw_log w @ [o']))"
      if "entry \<in> set (tw_cache w)" for entry using entries [OF that] by simp
    ultimately show ?thesis unfolding tiles_ok_def
      using j stores [THEN store_ok_commit, OF _ o'] by (auto simp: w' intro!: exI [of _ j])
  next
    case (Drain r n)
    then obtain store where store: "map_of (tw_replicas w) r = Some store"
      and w': "w' = w\<lparr>tw_replicas := AList.update r (snd (drain_once_for_generations project (tw_outbox w) store collection n)) (tw_replicas w)\<rparr>"
      using assms(3) by auto
    have "\<forall>o' \<in> set (take j (tw_log w)). ob_sequence o' \<le> gen_cursor store collection" using j(3) [OF store] by blast
    note drained = drain_ok [OF sorted stores [OF store] this, of n, folded j(2)]
    have "ob_sequence o' \<le> gen_cursor other collection"
      if "map_of (tw_replicas w') q = Some other" "o' \<in> set (take j (tw_log w))" for q other o'
      using that j(3) [OF store that(2)] j(3) drained(2) by (auto simp: w' update_conv' split: if_splits intro: le_trans)
    moreover have "store_ok project zoom collection (tw_log w) other" if "map_of (tw_replicas w') q = Some other" for q other
      using that stores drained(1) by (auto simp: w' update_conv' split: if_splits)
    ultimately show ?thesis unfolding tiles_ok_def using sorted j(1,2) fetches entries by (auto simp: w' intro!: exI [of _ j])
  next
    case (Prune_Behind r consumers n)
    then obtain store where store: "map_of (tw_replicas w) r = Some store"
      and w': "w' = w\<lparr>tw_outbox := prune_before (behind collection store consumers (tw_outbox w)) n (tw_outbox w)\<rparr>"
      using assms(3) by auto
    have "sorted_wrt (\<lambda>a b. ob_sequence a < ob_sequence b) (drop j (tw_log w))"
      using sorted by (simp add: log_ok_def sorted_wrt_drop)
    from pruned [OF this, of "behind collection store consumers (tw_outbox w)" n] obtain m where
      m: "tw_outbox w' = drop m (drop j (tw_log w))"
        "\<forall>o' \<in> set (take m (drop j (tw_log w))). ob_sequence o' \<le> behind collection store consumers (tw_outbox w)"
      unfolding w' j(2) by auto
    define i where "i = min (j + m) (length (tw_log w))"
    have drop: "tw_outbox w' = drop i (tw_log w)" using m(1) by (simp add: i_def min_def add.commute)
    have known: "ob_sequence o' \<le> gen_cursor other collection"
      if "map_of (tw_replicas w) q = Some other" "o' \<in> set (take i (tw_log w))" for q other o'
    proof -
      have "take i (tw_log w) = take j (tw_log w) @ take m (drop j (tw_log w))"
        by (cases "j + m \<le> length (tw_log w)") (simp_all add: i_def min_def take_add)
      with that(2) have "o' \<in> set (take j (tw_log w)) \<union> set (take m (drop j (tw_log w)))" by simp
      moreover have "behind collection store consumers (tw_outbox w) \<le> gen_cursor other collection"
        using assms(2) store that(1) by (auto simp: Prune_Behind careful_step_def list_all_iff dest: map_of_SomeD)
      ultimately show ?thesis using j(3) [OF that(1)] m(2) by fastforce
    qed
    show ?thesis unfolding tiles_ok_def using sorted drop known stores fetches entries
      by (auto simp: w' i_def intro!: exI [of _ i])
  next
    case (Start r)
    have w': "w' = w\<lparr>tw_replicas := AList.update r (generation_store_new zoom [collection]) (tw_replicas w)\<rparr>"
      using assms(3) by (simp add: Start)
    have "tw_outbox w = tw_log w" using assms(2) j(1,2) by (cases j) (auto simp: Start careful_step_def)
    then show ?thesis unfolding tiles_ok_def using sorted stores new_store_ok [OF sorted] fetches entries
      by (auto simp: w' update_conv' intro!: exI [of _ 0] split: if_splits)
  next
    case (Stop r)
    then have w': "w' = w\<lparr>tw_replicas := AList.delete r (tw_replicas w)\<rparr>" using assms(3) by simp
    show ?thesis unfolding tiles_ok_def using sorted j stores fetches entries
      by (auto simp: w' delete_conv' split: if_splits intro!: exI [of _ j])
  next
    case (Begin_Fetch p r lane)
    then obtain store where store: "map_of (tw_replicas w) r = Some store"
      and w': "w' = w\<lparr>tw_fetches := (p, \<lparr>tf_lane = lane, tf_generation = tile_generation store collection lane\<rparr>) # tw_fetches w\<rparr>"
      using assms(3) by auto
    have "tile_generation store collection lane \<le> newest (tw_log w)"
      using tile_generation_le [OF stores [OF store]] le_trans by blast
    then show ?thesis unfolding tiles_ok_def using sorted j stores fetches entries by (auto simp: w' intro!: exI [of _ j])
  next
    case (Render p)
    then obtain f where f: "map_of (tw_fetches w) p = Some f"
      and w': "w' = w\<lparr>tw_fetches := AList.delete p (tw_fetches w),
        tw_cache := \<lparr>ce_lane = tf_lane f, ce_generation = tf_generation f, ce_commits = length (tw_log w)\<rparr> # tw_cache w\<rparr>"
      using assms(3) by auto
    show ?thesis unfolding tiles_ok_def using sorted j stores fetches fetches [OF f] entries
      by (auto simp: w' delete_conv' split: if_splits intro!: exI [of _ j])
  qed
qed

lemma empty_tiles_ok: "tiles_ok project zoom collection empty_tile_world"
  by (simp add: tiles_ok_def empty_tile_world_def log_ok_def)

lemma run_tiles_ok:
  "tiles_ok project zoom collection w \<Longrightarrow> careful project zoom collection es w \<Longrightarrow>
     run_tiles project zoom collection es w = Some w' \<Longrightarrow> tiles_ok project zoom collection w'"
proof (induction es arbitrary: w)
  case (Cons e es)
  then obtain v where v: "tile_step project zoom collection e w = Some v" "run_tiles project zoom collection es v = Some w'"
    by (auto simp: bind_eq_Some_conv)
  with Cons.prems have "careful_step collection e w" "careful project zoom collection es v" by simp_all
  with tile_step_ok [OF Cons.prems(1) this(1) v(1)] Cons.IH v(2) show ?case by blast
qed simp

section \<open>Freshness\<close>

text \<open>A replica that is alone prunes only what it has drained itself.\<close>

lemma lone_replica_prunes_carefully:
  "tw_replicas w = [(r, store)] \<Longrightarrow> careful_step collection (Prune_Behind r consumers n) w"
  using floor_le by (simp add: careful_step_def behind_def)

text \<open>
  C22. A cached rendering that a replica finds under the generation it asks for was made after every
  commit that the replica has drained and that touches the rendering, whichever replica made it and however
  commits, drains, pruning, fetches and starts interleave, as long as commits come in the order of their
  sequence numbers and nothing is pruned that a running replica has still to read or a later start would
  have to.\<close>

theorem found_tile_is_fresh:
  assumes "run_tiles project zoom collection es empty_tile_world = Some w" "careful project zoom collection es empty_tile_world"
    and "map_of (tw_replicas w) r = Some store" "entry \<in> set (tw_cache w)"
    and "ce_generation entry = tile_generation store collection (ce_lane entry)"
    and "i < length (tw_log w)" "ob_sequence (tw_log w ! i) \<le> gen_cursor store collection"
    and "touches project (ce_lane entry) (ob_extent (tw_log w ! i))"
  shows "i < ce_commits entry"
proof (rule ccontr)
  assume later: "\<not> i < ce_commits entry"
  have ok: "tiles_ok project zoom collection w" by (rule run_tiles_ok [OF empty_tiles_ok assms(2,1)])
  then have sorted: "log_ok (tw_log w)" and store: "store_ok project zoom collection (tw_log w) store"
    and entry: "ce_generation entry \<le> newest (take (ce_commits entry) (tw_log w))"
    using assms(3,4) unfolding tiles_ok_def by blast+
  have "\<forall>p \<in> set (take (ce_commits entry) (tw_log w)). ob_sequence p < ob_sequence (tw_log w ! i)"
    using sorted assms(6) later by (auto simp: log_ok_def sorted_wrt_iff_nth_less in_set_conv_nth)
  moreover have "0 < ob_sequence (tw_log w ! i)" using sorted assms(6) by (simp add: log_ok_def list_all_iff)
  ultimately have "newest (take (ce_commits entry) (tw_log w)) < ob_sequence (tw_log w ! i)" by (intro newest_less) auto
  moreover have "ob_sequence (tw_log w ! i) \<le> ce_generation entry"
    unfolding assms(5) by (rule touched_generation [OF store nth_mem [OF assms(6)] assms(7,8)])
  ultimately show False using entry by simp
qed

definition point_box :: "rat \<Rightarrow> rat \<Rightarrow> world_box" where
  "point_box u v = \<lparr>wb_west = Some u, wb_north = Some v, wb_east = Some u, wb_south = Some v\<rparr>"

definition sample_write :: "nat \<Rightarrow> rat \<Rightarrow> (unit, world_box) located" where
  "sample_write s u = \<lparr>ob_sequence = s, ob_feature_id = ''f'', ob_kind = Upsert (), ob_version = s,
     ob_extent = Crs84 None (Some (point_box u u))\<rparr>"

definition west_tile :: tile_lane where "west_tile = Mercator_Tile 1 0 0"

definition sample_tiles :: "(unit, world_box) tile_event list" where
  "sample_tiles =
     [Start 1, Start 2, Committed (sample_write 1 (1/4)), Drain 1 9, Begin_Fetch 7 1 west_tile,
      Committed (sample_write 2 (3/4)), Render 7, Drain 2 1, Drain 2 9, Committed (sample_write 3 (1/4))]"

theorem found_tile_is_fresh_witness:
  "\<exists>w store entry. run_tiles id 1 ''c'' sample_tiles empty_tile_world = Some w \<and> map_of (tw_replicas w) 2 = Some store
     \<and> entry \<in> set (tw_cache w) \<and> ce_generation entry = tile_generation store ''c'' (ce_lane entry) \<and> 0 < ce_commits entry"
proof -
  have "run_tiles id 1 ''c'' sample_tiles empty_tile_world \<noteq> None" by code_simp
  then obtain w where w: "run_tiles id 1 ''c'' sample_tiles empty_tile_world = Some w" by blast
  have careful: "careful id 1 ''c'' sample_tiles empty_tile_world" by code_simp
  have "map_option (\<lambda>w. map (\<lambda>entry. (ce_lane entry = west_tile, ce_generation entry)) (tw_cache w))
      (run_tiles id 1 ''c'' sample_tiles empty_tile_world) = Some [(True, 1)]" by code_simp
  then obtain entry where entry: "tw_cache w = [entry]" "ce_lane entry = west_tile" "ce_generation entry = 1"
    unfolding w by (auto simp: map_eq_Cons_conv)
  have "map_option (\<lambda>w. map_option (\<lambda>store. (gen_cursor store ''c'', tile_generation store ''c'' west_tile)) (map_of (tw_replicas w) 2))
      (run_tiles id 1 ''c'' sample_tiles empty_tile_world) = Some (Some (2, 1))" by code_simp
  then obtain store where store: "map_of (tw_replicas w) 2 = Some store" "gen_cursor store ''c'' = 2"
    "tile_generation store ''c'' west_tile = 1" unfolding w by auto
  have "map_option (\<lambda>w. (length (tw_log w), ob_sequence (tw_log w ! 0), touches id west_tile (ob_extent (tw_log w ! 0))))
      (run_tiles id 1 ''c'' sample_tiles empty_tile_world) = Some (3, 1, True)" by code_simp
  then have first: "0 < length (tw_log w)" "ob_sequence (tw_log w ! 0) \<le> gen_cursor store ''c''"
    "touches id west_tile (ob_extent (tw_log w ! 0))" unfolding w by (simp_all add: store)
  have "0 < ce_commits entry"
    by (rule found_tile_is_fresh [OF w careful store(1), of entry 0]) (use first in \<open>simp_all add: entry store\<close>)
  then show ?thesis using w store entry by auto
qed

section \<open>Where pruning outruns a replica\<close>

text \<open>
  The floor counts the consumers of the process that prunes. Another replica of the server, which has not
  drained that far, reads on behind the gap: its cursor passes the write, its generation does not, and it goes
  on finding the rendering from before the write.
\<close>

definition outrun_run :: "(unit, world_box) tile_event list" where
  "outrun_run =
     [Start 1, Start 2, Begin_Fetch 7 2 west_tile, Render 7, Committed (sample_write 1 (1/4)), Drain 1 9,
      Prune_Behind 1 [] 9, Committed (sample_write 2 (3/4)), Drain 2 9]"

definition found_commits :: "nat \<Rightarrow> (unit, world_box) tile_world \<Rightarrow> (nat \<times> nat list) option" where
  "found_commits r w =
     map_option (\<lambda>store. (gen_cursor store ''c'',
         map ce_commits (filter (\<lambda>entry. ce_lane entry = west_tile
           \<and> ce_generation entry = tile_generation store ''c'' west_tile) (tw_cache w))))
       (map_of (tw_replicas w) r)"

lemma pruned_write_leaves_stale_tile:
  "Option.bind (run_tiles id 1 ''c'' outrun_run empty_tile_world) (found_commits 2) = Some (2, [0])"
  "touches id west_tile (ob_extent (sample_write 1 (1/4)))"
  by code_simp+

text \<open>
  A restart forgets the generations and replays the outbox; what was pruned before cannot be replayed, so a
  rendering from before the write, kept by a cache that outlives the process, is found again.
\<close>

definition restart_run :: "(unit, world_box) tile_event list" where
  "restart_run =
     [Start 1, Begin_Fetch 7 1 west_tile, Render 7, Committed (sample_write 1 (1/4)), Drain 1 9,
      Prune_Behind 1 [] 9, Stop 1, Start 1, Committed (sample_write 2 (3/4)), Drain 1 9]"

lemma restart_revives_stale_tile:
  "Option.bind (run_tiles id 1 ''c'' restart_run empty_tile_world) (found_commits 1) = Some (2, [0])"
  by code_simp

text \<open>
  Two replicas that drained the same outbox to the same point need not agree on a generation: it is the last
  sequence number of the batch that touched the bucket, and batches are cut where each replica polls.
\<close>

lemma generations_depend_on_batches:
  "Option.bind (run_tiles id 1 ''c'' [Start 1, Start 2, Committed (sample_write 1 (1/4)), Drain 1 9,
       Committed (sample_write 2 (3/4)), Drain 1 9, Drain 2 9] empty_tile_world)
     (\<lambda>w. Some (map (\<lambda>(r, store). (r, gen_cursor store ''c'', tile_generation store ''c'' west_tile)) (tw_replicas w)))
   = Some [(1, 2, 1), (2, 2, 2)]"
  by code_simp

end
