(* ===== verification/Tile_Key.thy ===== *)
theory Tile_Key
  imports Prelude
begin

text \<open>
  The keys of the tile cache: tile matrix sets (\<open>crates/tellurion-core/src/tms.rs\<close>), encodings and \<open>TileKey\<close>
  (\<open>cache.rs\<close>), the keys the handlers build, and the string under which the second tier keeps a
  tile (\<open>redis_key\<close> of \<open>cache_l2_valkey.rs\<close>). Fingerprints, coordinates and the bit patterns of a map
  window are natural numbers. What the string tells apart, and what it does not: the row filter and the
  property allowlist.
\<close>

section \<open>Keys\<close>

datatype tile_matrix_set = Web_Mercator_Quad | World_Crs84_Quad

definition ALL_TILE_MATRIX_SETS :: "tile_matrix_set list" where
  "ALL_TILE_MATRIX_SETS = [Web_Mercator_Quad, World_Crs84_Quad]"

fun tms_id :: "tile_matrix_set \<Rightarrow> string" where
  "tms_id Web_Mercator_Quad = ''WebMercatorQuad''"
| "tms_id World_Crs84_Quad = ''WorldCRS84Quad''"

definition tms_from_id :: "string \<Rightarrow> tile_matrix_set option" where
  "tms_from_id i = List.find (\<lambda>tms. tms_id tms = i) ALL_TILE_MATRIX_SETS"

fun crs_srid :: "tile_matrix_set \<Rightarrow> nat" where
  "crs_srid Web_Mercator_Quad = 3857"
| "crs_srid World_Crs84_Quad = 4326"

fun matrix_width :: "tile_matrix_set \<Rightarrow> nat \<Rightarrow> nat" where
  "matrix_width Web_Mercator_Quad z = 2 ^ z"
| "matrix_width World_Crs84_Quad z = 2 * 2 ^ z"

definition matrix_height :: "tile_matrix_set \<Rightarrow> nat \<Rightarrow> nat" where
  "matrix_height tms z = 2 ^ z"

datatype map_crs = Map_Web_Mercator | Map_Crs84

datatype map_lane = Vector_Lane | Raster_Lane "nat option"

datatype encoding =
    Mvt
  | Png
  | Glb
  | Png_Styled string
  | Png_Raster "nat option"
  | Map_Image map_crs "nat \<times> nat \<times> nat \<times> nat" nat nat "string option" map_lane

fun metric_label :: "encoding \<Rightarrow> string" where
  "metric_label Mvt = ''mvt''"
| "metric_label Png = ''png''"
| "metric_label Glb = ''glb''"
| "metric_label (Png_Styled _) = ''png_styled''"
| "metric_label (Png_Raster _) = ''png_raster''"
| "metric_label (Map_Image _ _ _ _ _ _) = ''map''"

record tile_coord =
  tc_z :: nat
  tc_x :: nat
  tc_y :: nat

record tile_key =
  tk_tenant :: string
  tk_catalog :: string
  tk_collection :: string
  tk_tms :: tile_matrix_set
  tk_z :: nat
  tk_x :: nat
  tk_y :: nat
  tk_encoding :: encoding
  tk_policy_fingerprint :: "nat option"
  tk_properties :: "string list"
  tk_generation :: nat

definition mvt_key :: "string \<Rightarrow> string \<Rightarrow> string \<Rightarrow> tile_coord \<Rightarrow> nat option \<Rightarrow> tile_key" where
  "mvt_key tenant catalog collection coord policy_fingerprint =
     \<lparr>tk_tenant = tenant, tk_catalog = catalog, tk_collection = collection, tk_tms = Web_Mercator_Quad,
      tk_z = tc_z coord, tk_x = tc_x coord, tk_y = tc_y coord, tk_encoding = Mvt,
      tk_policy_fingerprint = policy_fingerprint, tk_properties = [], tk_generation = 0\<rparr>"

definition png_key :: "string \<Rightarrow> string \<Rightarrow> string \<Rightarrow> tile_coord \<Rightarrow> nat option \<Rightarrow> tile_key" where
  "png_key tenant catalog collection coord policy_fingerprint =
     (mvt_key tenant catalog collection coord policy_fingerprint)\<lparr>tk_encoding := Png\<rparr>"

definition styled_png_key :: "string \<Rightarrow> string \<Rightarrow> string \<Rightarrow> tile_coord \<Rightarrow> string \<Rightarrow> nat option \<Rightarrow> tile_key" where
  "styled_png_key tenant catalog collection coord style_id policy_fingerprint =
     (mvt_key tenant catalog collection coord policy_fingerprint)\<lparr>tk_encoding := Png_Styled style_id\<rparr>"

definition raster_png_key :: "string \<Rightarrow> string \<Rightarrow> string \<Rightarrow> tile_coord \<Rightarrow> nat option \<Rightarrow> nat option \<Rightarrow> tile_key" where
  "raster_png_key tenant catalog collection coord colormap_fingerprint policy_fingerprint =
     (mvt_key tenant catalog collection coord policy_fingerprint)\<lparr>tk_encoding := Png_Raster colormap_fingerprint\<rparr>"

section \<open>The key of the second tier\<close>

fun redis_encoding :: "encoding \<Rightarrow> string" where
  "redis_encoding Mvt = ''mvt''"
| "redis_encoding Png = ''png''"
| "redis_encoding Glb = ''glb''"
| "redis_encoding (Png_Styled style) = ''png_styled:'' @ style"
| "redis_encoding (Png_Raster colormap) =
     (case colormap of Some fingerprint \<Rightarrow> ''png_raster:'' @ show_nat fingerprint | None \<Rightarrow> ''png_raster:none'')"
| "redis_encoding (Map_Image crs (b0, b1, b2, b3) width height style lane) =
     (let crs = (case crs of Map_Web_Mercator \<Rightarrow> ''web_mercator'' | Map_Crs84 \<Rightarrow> ''crs84'');
          style = (case style of Some s \<Rightarrow> s | None \<Rightarrow> ''none'');
          lane = (case lane of
                    Vector_Lane \<Rightarrow> []
                  | Raster_Lane None \<Rightarrow> '':raster:none''
                  | Raster_Lane (Some fingerprint) \<Rightarrow> '':raster:'' @ show_nat fingerprint)
      in ''map:'' @ crs @ '':'' @ show_nat b0 @ '':'' @ show_nat b1 @ '':'' @ show_nat b2 @ '':'' @ show_nat b3 @ '':''
         @ show_nat width @ ''x'' @ show_nat height @ '':'' @ style @ lane)"

definition redis_key :: "tile_key \<Rightarrow> string" where
  "redis_key key =
     (let tms = (case tk_tms key of Web_Mercator_Quad \<Rightarrow> [] | World_Crs84_Quad \<Rightarrow> ''WorldCRS84Quad:'')
      in ''tellurion:tile:'' @ tk_tenant key @ '':'' @ tk_catalog key @ '':'' @ tk_collection key @ '':''
         @ tms @ show_nat (tk_z key) @ ''/'' @ show_nat (tk_x key) @ ''/'' @ show_nat (tk_y key) @ '':''
         @ redis_encoding (tk_encoding key) @ '':g'' @ show_nat (tk_generation key))"

text \<open>Keys that differ in the row filter and the property allowlist alone.\<close>

definition same_tile :: "tile_key \<Rightarrow> tile_key \<Rightarrow> bool" where
  "same_tile key key' \<longleftrightarrow>
     key' = key\<lparr>tk_policy_fingerprint := tk_policy_fingerprint key', tk_properties := tk_properties key'\<rparr>"

text \<open>Keys whose free texts hold no colon, and whose style is not the word that stands for no style.\<close>

fun plain_encoding :: "encoding \<Rightarrow> bool" where
  "plain_encoding (Png_Styled style) = (CHR '':'' \<notin> set style)"
| "plain_encoding (Map_Image _ _ _ _ style _) = (style \<noteq> Some ''none'' \<and> (case style of Some s \<Rightarrow> CHR '':'' \<notin> set s | None \<Rightarrow> True))"
| "plain_encoding _ = True"

definition plain_key :: "tile_key \<Rightarrow> bool" where
  "plain_key key \<longleftrightarrow>
     CHR '':'' \<notin> set (tk_tenant key) \<and> CHR '':'' \<notin> set (tk_catalog key) \<and> CHR '':'' \<notin> set (tk_collection key)
     \<and> plain_encoding (tk_encoding key)"

section \<open>What the string tells apart\<close>

lemma show_nat_digit: "c \<in> set (show_nat n) \<Longrightarrow> 48 \<le> (of_char c :: nat) \<and> of_char c < (58 :: nat)"
  by (auto simp: show_nat_def dest: digits_of_bound)

lemma no_mark_in_number [simp]:
  "CHR '':'' \<notin> set (show_nat n)" "CHR ''/'' \<notin> set (show_nat n)" "CHR ''x'' \<notin> set (show_nat n)"
  using show_nat_digit [of "CHR '':''" n] show_nat_digit [of "CHR ''/''" n] show_nat_digit [of "CHR ''x''" n] by auto

lemma number_is_not_none [simp]: "show_nat n \<noteq> ''none''" "''none'' \<noteq> show_nat n"
  using show_nat_digit [of "CHR ''n''" n] by (auto dest: sym)

fun encoding_fields :: "encoding \<Rightarrow> string list" where
  "encoding_fields Mvt = [''mvt'']"
| "encoding_fields Png = [''png'']"
| "encoding_fields Glb = [''glb'']"
| "encoding_fields (Png_Styled style) = [''png_styled'', style]"
| "encoding_fields (Png_Raster colormap) = [''png_raster'', case colormap of Some n \<Rightarrow> show_nat n | None \<Rightarrow> ''none'']"
| "encoding_fields (Map_Image crs (b0, b1, b2, b3) width height style lane) =
     [''map'', case crs of Map_Web_Mercator \<Rightarrow> ''web_mercator'' | Map_Crs84 \<Rightarrow> ''crs84'',
      show_nat b0, show_nat b1, show_nat b2, show_nat b3, show_nat width @ ''x'' @ show_nat height,
      case style of Some s \<Rightarrow> s | None \<Rightarrow> ''none'']
     @ (case lane of Vector_Lane \<Rightarrow> [] | Raster_Lane None \<Rightarrow> [''raster'', ''none''] | Raster_Lane (Some n) \<Rightarrow> [''raster'', show_nat n])"

definition tile_fields :: "tile_key \<Rightarrow> string list" where
  "tile_fields key =
     [''tellurion'', ''tile'', tk_tenant key, tk_catalog key, tk_collection key]
     @ (case tk_tms key of Web_Mercator_Quad \<Rightarrow> [] | World_Crs84_Quad \<Rightarrow> [''WorldCRS84Quad''])
     @ [show_nat (tk_z key) @ ''/'' @ show_nat (tk_x key) @ ''/'' @ show_nat (tk_y key)]
     @ encoding_fields (tk_encoding key) @ [CHR ''g'' # show_nat (tk_generation key)]"

lemma join_encoding: "join_with CHR '':'' (encoding_fields e @ [w]) = redis_encoding e @ CHR '':'' # w"
  by (cases e rule: encoding_fields.cases)
    (auto simp: Let_def split: option.split map_crs.split map_lane.split)

lemma join_prefix: "ws \<noteq> [] \<Longrightarrow> join_with d (w # ws) = w @ d # join_with d ws"
  by (cases ws) simp_all

lemma redis_key_fields: "redis_key key = join_with CHR '':'' (tile_fields key)"
  by (simp add: redis_key_def tile_fields_def join_prefix join_encoding split: tile_matrix_set.split)

lemma encoding_fields_plain: "plain_encoding e \<Longrightarrow> \<forall>w \<in> set (encoding_fields e). CHR '':'' \<notin> set w"
proof (cases e rule: encoding_fields.cases)
  case (5 colormap)
  then show ?thesis by (cases colormap) simp_all
next
  case (6 crs b0 b1 b2 b3 width height style lane)
  have crs: "CHR '':'' \<notin> set (case crs of Map_Web_Mercator \<Rightarrow> ''web_mercator'' | Map_Crs84 \<Rightarrow> ''crs84'')"
    by (cases crs) simp_all
  have lane: "\<forall>w \<in> set (case lane of Vector_Lane \<Rightarrow> [] | Raster_Lane None \<Rightarrow> [''raster'', ''none''] | Raster_Lane (Some n) \<Rightarrow> [''raster'', show_nat n]).
      CHR '':'' \<notin> set w"
  proof (cases lane)
    case (Raster_Lane colormap)
    then show ?thesis by (cases colormap) simp_all
  qed simp
  show "plain_encoding e \<Longrightarrow> \<forall>w \<in> set (encoding_fields e). CHR '':'' \<notin> set w"
    using crs lane unfolding 6 by (cases style) (simp_all add: ball_Un)
qed simp_all

lemma tile_fields_plain: "plain_key key \<Longrightarrow> \<forall>w \<in> set (tile_fields key). CHR '':'' \<notin> set w"
  using encoding_fields_plain by (auto simp: plain_key_def tile_fields_def split: tile_matrix_set.splits)

lemma marked_numbers:
  assumes "show_nat a @ c # s = show_nat b @ c # t" "\<And>n. c \<notin> set (show_nat n)"
  shows "a = b \<and> s = t"
proof -
  have a: "takeWhile (\<lambda>d. d \<noteq> c) (show_nat n @ c # u) = show_nat n" for n u
    using assms(2) [of n] by (simp add: takeWhile_tail takeWhile_append2) (metis takeWhile_eq_all_conv)
  from arg_cong [OF assms(1), of "takeWhile (\<lambda>d. d \<noteq> c)"] have "show_nat a = show_nat b" unfolding a .
  then show ?thesis using assms(1) by (simp add: show_nat_inject)
qed

lemma window_inject [simp]:
  "show_nat a @ CHR ''x'' # show_nat b = show_nat c @ CHR ''x'' # show_nat d \<longleftrightarrow> a = c \<and> b = d"
  using marked_numbers [of a "CHR ''x''" "show_nat b" c "show_nat d"] by (auto simp: show_nat_inject)

lemma encoding_fields_inject:
  assumes "plain_encoding e" "plain_encoding e'" "encoding_fields e = encoding_fields e'"
  shows "e = e'"
  using assms
  by (cases e rule: encoding_fields.cases; cases e' rule: encoding_fields.cases)
    (auto simp: show_nat_inject split: option.splits map_crs.splits map_lane.splits)

lemma redis_key_of_plain:
  assumes plain: "plain_key key" "plain_key key'" and eq: "redis_key key = redis_key key'"
  shows "same_tile key key'"
proof -
  have ne: "tile_fields k \<noteq> []" for k by (simp add: tile_fields_def)
  have fields: "tile_fields key = tile_fields key'"
    using arg_cong [OF eq, of "split_on CHR '':''"] split_join [OF ne tile_fields_plain] plain
    by (simp add: redis_key_fields)
  have slash: "show_nat a @ CHR ''/'' # s \<noteq> ''WorldCRS84Quad''" for a s
  proof
    assume "show_nat a @ CHR ''/'' # s = ''WorldCRS84Quad''"
    moreover have "CHR ''/'' \<in> set (show_nat a @ CHR ''/'' # s)" by simp
    ultimately have "CHR ''/'' \<in> set ''WorldCRS84Quad''" by (simp only:)
    then show False by simp
  qed
  have tms: "tk_tms key = tk_tms key'"
    using fields slash by (cases "tk_tms key"; cases "tk_tms key'") (auto simp: tile_fields_def dest: sym)
  with fields have rest: "show_nat (tk_z key) @ ''/'' @ show_nat (tk_x key) @ ''/'' @ show_nat (tk_y key)
      = show_nat (tk_z key') @ ''/'' @ show_nat (tk_x key') @ ''/'' @ show_nat (tk_y key')"
    and enc: "encoding_fields (tk_encoding key) = encoding_fields (tk_encoding key')"
    and gen: "tk_generation key = tk_generation key'"
    and ids: "tk_tenant key = tk_tenant key'" "tk_catalog key = tk_catalog key'" "tk_collection key = tk_collection key'"
    by (auto simp: tile_fields_def show_nat_inject)
  from rest have "tk_z key = tk_z key'" "tk_x key = tk_x key'" "tk_y key = tk_y key'"
    by (auto dest!: marked_numbers simp: show_nat_inject)
  moreover have "tk_encoding key = tk_encoding key'"
    using plain enc by (intro encoding_fields_inject) (simp_all add: plain_key_def)
  ultimately show ?thesis using tms gen ids by (simp add: same_tile_def)
qed

lemma redis_key_of_same_tile: "same_tile key key' \<Longrightarrow> redis_key key' = redis_key key"
proof -
  have "redis_key (key\<lparr>tk_policy_fingerprint := p, tk_properties := q\<rparr>) = redis_key key" for p q
    by (simp add: redis_key_def)
  then show "same_tile key key' \<Longrightarrow> redis_key key' = redis_key key" unfolding same_tile_def by metis
qed

text \<open>
  \<open>redis_key\<close> documents that two entries which do not collide in the first tier cannot collide in the second.
  They can: with another row filter or another property allowlist, with a colon in an id, and with a
  style that is called \<open>none\<close>.
\<close>

lemma redis_key_conflates:
  "redis_key (mvt_key ''t'' ''c'' ''k'' \<lparr>tc_z = 3, tc_x = 1, tc_y = 2\<rparr> (Some 1))
     = redis_key (mvt_key ''t'' ''c'' ''k'' \<lparr>tc_z = 3, tc_x = 1, tc_y = 2\<rparr> (Some 2))"
  "redis_key (mvt_key ''t'' ''c:k'' ''l'' coord None) = redis_key (mvt_key ''t'' ''c'' ''k:l'' coord None)"
  "redis_encoding (Map_Image crs window width height (Some ''none'') lane) = redis_encoding (Map_Image crs window width height None lane)"
  by (simp_all add: redis_key_def mvt_key_def) (cases window, simp)

end
