(* ===== verification/Tile_Cache.thy ===== *)
theory Tile_Cache
  imports Tile_Key "HOL-Library.AList"
begin

text \<open>
  The tile cache of \<open>crates/tellurion-core/src/cache.rs\<close>: its layers (the in-process cache and the adapter of
  the second tier, which keeps tiles in a Valkey under the string of \<open>cache_l2_valkey.rs\<close>), their composition
  \<open>LayeredCache\<close>, the fetch of \<open>context.rs\<close> on top, and the calls of many requests on one process as a transition
  system. The clock, in seconds, is an argument; a tier that does not answer is unreachable for the call. Eviction of the
  in-process cache by its byte budget, a lost second-tier write and a request that goes away are events; a
  write to the second tier, which the code spawns, is done at once. A rendering is a byte list (\<open>string\<close>), an error is a
  value of \<open>'e\<close>.
\<close>

section \<open>The second tier\<close>

text \<open>\<open>ValkeyL2Cache\<close>: its entries, under their strings, with the instant they expire; none is kept for less than a second.\<close>

type_synonym valkey = "string \<Rightarrow> (string \<times> nat) option"

definition valkey_get :: "nat \<Rightarrow> tile_key \<Rightarrow> valkey \<Rightarrow> string option" where
  "valkey_get now key entries =
     (case entries (redis_key key) of Some (value, until) \<Rightarrow> if now < until then Some value else None | None \<Rightarrow> None)"

definition valkey_put :: "nat \<Rightarrow> tile_key \<Rightarrow> string \<Rightarrow> nat \<Rightarrow> valkey \<Rightarrow> valkey" where
  "valkey_put now key value ttl entries = entries(redis_key key \<mapsto> (value, now + max ttl 1))"

section \<open>Layers\<close>

text \<open>
  A layer is the in-process cache, which has no expiry, or the adapter of the second tier with its own
  time to live, whether the tier answers now, and what it holds.
\<close>

datatype cache_layer =
    Moka "tile_key \<Rightarrow> string option"
  | L2_Adapter nat bool valkey

fun layer_get :: "nat \<Rightarrow> tile_key \<Rightarrow> cache_layer \<Rightarrow> string option" where
  "layer_get now key (Moka entries) = entries key"
| "layer_get now key (L2_Adapter _ reachable entries) = (if reachable then valkey_get now key entries else None)"

fun layer_insert_with_ttl :: "nat \<Rightarrow> tile_key \<Rightarrow> string \<Rightarrow> nat \<Rightarrow> cache_layer \<Rightarrow> cache_layer" where
  "layer_insert_with_ttl now key value ttl (Moka entries) = Moka (entries(key \<mapsto> value))"
| "layer_insert_with_ttl now key value ttl (L2_Adapter own reachable entries) =
     L2_Adapter own reachable (if reachable then valkey_put now key value ttl entries else entries)"

fun layer_insert :: "nat \<Rightarrow> tile_key \<Rightarrow> string \<Rightarrow> cache_layer \<Rightarrow> cache_layer" where
  "layer_insert now key value (Moka entries) = Moka (entries(key \<mapsto> value))"
| "layer_insert now key value (L2_Adapter own reachable entries) =
     layer_insert_with_ttl now key value own (L2_Adapter own reachable entries)"

text \<open>With a time to live (\<open>Some\<close>) or without: the second tier then uses its own.\<close>

definition layer_put :: "nat \<Rightarrow> nat option \<Rightarrow> tile_key \<Rightarrow> string \<Rightarrow> cache_layer \<Rightarrow> cache_layer" where
  "layer_put now ttl key value layer =
     (case ttl of Some t \<Rightarrow> layer_insert_with_ttl now key value t layer | None \<Rightarrow> layer_insert now key value layer)"

text \<open>A call that finds nobody else populating the key; the calls that do are in the runs below.\<close>

definition layer_get_or_populate ::
  "nat \<Rightarrow> nat option \<Rightarrow> tile_key \<Rightarrow> 'e + string \<Rightarrow> cache_layer \<Rightarrow> ('e + string) \<times> cache_layer" where
  "layer_get_or_populate now ttl key populate layer =
     (case layer_get now key layer of
        Some value \<Rightarrow> (Inr value, layer)
      | None \<Rightarrow>
          (case populate of
             Inl error \<Rightarrow> (Inl error, layer)
           | Inr value \<Rightarrow> (Inr value, layer_put now ttl key value layer)))"

section \<open>The composition\<close>

fun layered_get :: "nat \<Rightarrow> tile_key \<Rightarrow> cache_layer list \<Rightarrow> string option" where
  "layered_get now key [] = None"
| "layered_get now key (layer # layers) =
     (case layer_get now key layer of Some value \<Rightarrow> Some value | None \<Rightarrow> layered_get now key layers)"

definition layered_insert :: "nat \<Rightarrow> tile_key \<Rightarrow> string \<Rightarrow> cache_layer list \<Rightarrow> cache_layer list" where
  "layered_insert now key value layers = map (layer_insert now key value) layers"

text \<open>The \<open>fallback\<close> future, and what a call writes to the later layers.\<close>

definition layered_fallback :: "nat \<Rightarrow> tile_key \<Rightarrow> 'e + string \<Rightarrow> cache_layer list \<Rightarrow> 'e + string" where
  "layered_fallback now key populate rest = (case layered_get now key rest of Some value \<Rightarrow> Inr value | None \<Rightarrow> populate)"

definition write_later_layers :: "nat \<Rightarrow> nat option \<Rightarrow> tile_key \<Rightarrow> string \<Rightarrow> cache_layer list \<Rightarrow> cache_layer list" where
  "write_later_layers now ttl key value rest = map (layer_put now ttl key value) rest"

definition layered_get_or_populate ::
  "nat \<Rightarrow> nat option \<Rightarrow> tile_key \<Rightarrow> 'e + string \<Rightarrow> cache_layer list \<Rightarrow> ('e + string) \<times> cache_layer list" where
  "layered_get_or_populate now ttl key populate layers =
     (case layers of
        [] \<Rightarrow> (populate, [])
      | first # rest \<Rightarrow>
          (case layer_get_or_populate now ttl key (layered_fallback now key populate rest) first of
             (Inl error, first) \<Rightarrow> (Inl error, first # rest)
           | (Inr value, first) \<Rightarrow> (Inr value, first # write_later_layers now ttl key value rest)))"

datatype mvt_fetch = Hit string | Empty_Tile | Fetch_Failed

text \<open>\<open>source\<close> is the tile the driver produces, \<open>None\<close> where it is empty.\<close>

definition fetch_key ::
  "string \<Rightarrow> string \<Rightarrow> string \<Rightarrow> tile_matrix_set \<Rightarrow> tile_coord \<Rightarrow> string list \<Rightarrow> nat option \<Rightarrow> nat \<Rightarrow> tile_key" where
  "fetch_key tenant catalog collection tms coord tile_properties filter_fingerprint generation =
     (mvt_key tenant catalog collection coord filter_fingerprint)
       \<lparr>tk_tms := tms, tk_properties := tile_properties, tk_generation := generation\<rparr>"

definition fetch_mvt ::
  "nat \<Rightarrow> nat option \<Rightarrow> tile_key \<Rightarrow> 'e + string option \<Rightarrow> cache_layer list \<Rightarrow> mvt_fetch \<times> cache_layer list" where
  "fetch_mvt now ttl key source layers =
     (let populate = (case source of Inl error \<Rightarrow> Inl error | Inr (Some bytes) \<Rightarrow> Inr bytes | Inr None \<Rightarrow> Inr []) in
      case layered_get_or_populate now ttl key populate layers of
        (Inr bytes, layers) \<Rightarrow> (if bytes = [] then Empty_Tile else Hit bytes, layers)
      | (Inl _, layers) \<Rightarrow> (Fetch_Failed, layers))"

section \<open>The second tier as a process can describe it\<close>

datatype l2_tier_state = Connected | Never_Connected string

record l2_tier =
  l2_backend :: string
  l2_state :: l2_tier_state

text \<open>\<open>answer\<close> is what the connected backend answers a read of the probe key.\<close>

definition l2_probe :: "(string \<Rightarrow> 'e) \<Rightarrow> 'e + string option \<Rightarrow> l2_tier \<Rightarrow> 'e + unit" where
  "l2_probe config_error answer tier =
     (case l2_state tier of
        Connected \<Rightarrow> (case answer of Inl error \<Rightarrow> Inl error | Inr _ \<Rightarrow> Inr ())
      | Never_Connected reason \<Rightarrow> Inl (config_error reason))"

section \<open>Answers of a lone call\<close>

lemmas lone_call_defs = layered_get_or_populate_def layer_get_or_populate_def layered_fallback_def write_later_layers_def

text \<open>The answer is the first hit in the order of the layers, or what populate gives.\<close>

lemma layered_answer:
  "fst (layered_get_or_populate now ttl key populate layers) =
     (case layered_get now key layers of Some value \<Rightarrow> Inr value | None \<Rightarrow> populate)"
  by (auto simp: lone_call_defs split: list.split option.split sum.split)

text \<open>A failed populate leaves nothing behind.\<close>

lemma failure_is_not_cached:
  "fst (layered_get_or_populate now ttl key populate layers) = Inl error \<Longrightarrow>
     snd (layered_get_or_populate now ttl key populate layers) = layers"
  by (auto simp: lone_call_defs split: list.splits option.splits sum.splits)

text \<open>A second tier that does not answer changes no answer.\<close>

lemma outage_is_no_failure:
  "list_all (\<lambda>layer. \<exists>ttl entries. layer = L2_Adapter ttl False entries) rest \<Longrightarrow>
     fst (layered_get_or_populate now ttl key populate (first # rest)) = fst (layered_get_or_populate now ttl key populate [first])"
proof -
  assume "list_all (\<lambda>layer. \<exists>ttl entries. layer = L2_Adapter ttl False entries) rest"
  then have "layered_get now key rest = None" by (induction rest) auto
  then show ?thesis by (simp add: layered_answer split: option.split)
qed

section \<open>The calls of many requests\<close>

text \<open>
  A call that misses the in-process cache starts a flight for its key, or joins the one there is: the calls of
  a flight get its outcome when it lands, and each writes a value to the later layers with its own time to live
  (\<open>try_get_with\<close> of the \<open>moka\<close> crate). A flight whose first caller goes away is abandoned, and the calls that had
  joined it look the key up again. \<open>build_cache\<close> is the composition of \<open>main.rs\<close>: the in-process cache,
  and the second tier where one is configured and connected.
\<close>

record 'e flight =
  fl_outcome :: "'e + string"
  fl_callers :: "(nat \<times> nat option) list"

record 'e cache_world =
  cw_layers :: "cache_layer list"
  cw_flights :: "(tile_key \<times> 'e flight) list"

datatype 'e cache_event =
    Lookup nat nat "nat option" tile_key "'e + string"
  | Land nat tile_key
  | Abandon tile_key
  | Evict tile_key
  | Reachable bool

definition build_cache :: "nat option \<Rightarrow> 'e cache_world" where
  "build_cache l2 =
     \<lparr>cw_layers = Moka (\<lambda>_. None) # (case l2 of Some ttl_s \<Rightarrow> [L2_Adapter ttl_s True (\<lambda>_. None)] | None \<Rightarrow> []), cw_flights = []\<rparr>"

fun evict_from :: "tile_key \<Rightarrow> cache_layer \<Rightarrow> cache_layer" where
  "evict_from key (Moka entries) = Moka (entries(key := None))"
| "evict_from key (L2_Adapter ttl reachable entries) = L2_Adapter ttl reachable entries"

fun set_reachable :: "bool \<Rightarrow> cache_layer \<Rightarrow> cache_layer" where
  "set_reachable b (Moka entries) = Moka entries"
| "set_reachable b (L2_Adapter ttl _ entries) = L2_Adapter ttl b entries"

definition look_up ::
  "nat \<Rightarrow> nat \<Rightarrow> nat option \<Rightarrow> tile_key \<Rightarrow> 'e + string \<Rightarrow> 'e cache_world \<Rightarrow> (nat \<times> tile_key \<times> ('e + string)) list \<times> 'e cache_world" where
  "look_up caller now ttl key populate w =
     (case cw_layers w of
        [] \<Rightarrow> ([(caller, key, populate)], w)
      | first # rest \<Rightarrow>
          (case layer_get now key first of
             Some value \<Rightarrow> ([(caller, key, Inr value)], w\<lparr>cw_layers := first # write_later_layers now ttl key value rest\<rparr>)
           | None \<Rightarrow>
               (case map_of (cw_flights w) key of
                  Some flight \<Rightarrow>
                    ([], w\<lparr>cw_flights := AList.update key (flight\<lparr>fl_callers := fl_callers flight @ [(caller, ttl)]\<rparr>) (cw_flights w)\<rparr>)
                | None \<Rightarrow>
                    ([], w\<lparr>cw_flights :=
                       (key, \<lparr>fl_outcome = layered_fallback now key populate rest, fl_callers = [(caller, ttl)]\<rparr>) # cw_flights w\<rparr>))))"

definition land :: "nat \<Rightarrow> tile_key \<Rightarrow> 'e cache_world \<Rightarrow> (nat \<times> tile_key \<times> ('e + string)) list \<times> 'e cache_world" where
  "land now key w =
     (case map_of (cw_flights w) key of
        None \<Rightarrow> ([], w)
      | Some flight \<Rightarrow>
          (map (\<lambda>(caller, _). (caller, key, fl_outcome flight)) (fl_callers flight),
           w\<lparr>cw_flights := AList.delete key (cw_flights w),
             cw_layers :=
               (case (fl_outcome flight, cw_layers w) of
                  (Inr value, first # rest) \<Rightarrow>
                    layer_insert now key value first
                      # fold (\<lambda>(_, ttl). write_later_layers now ttl key value) (fl_callers flight) rest
                | (_, layers) \<Rightarrow> layers)\<rparr>))"

fun cache_step :: "'e cache_event \<Rightarrow> 'e cache_world \<Rightarrow> (nat \<times> tile_key \<times> ('e + string)) list \<times> 'e cache_world" where
  "cache_step (Lookup caller now ttl key populate) w = look_up caller now ttl key populate w"
| "cache_step (Land now key) w = land now key w"
| "cache_step (Abandon key) w = ([], w\<lparr>cw_flights := AList.delete key (cw_flights w)\<rparr>)"
| "cache_step (Evict key) w = ([], w\<lparr>cw_layers := map (evict_from key) (cw_layers w)\<rparr>)"
| "cache_step (Reachable b) w = ([], w\<lparr>cw_layers := map (set_reachable b) (cw_layers w)\<rparr>)"

fun run_cache :: "'e cache_event list \<Rightarrow> 'e cache_world \<Rightarrow> (nat \<times> tile_key \<times> ('e + string)) list \<times> 'e cache_world" where
  "run_cache [] w = ([], w)"
| "run_cache (e # es) w = (let (answers, w) = cache_step e w; (more_answers, w) = run_cache es w in (answers @ more_answers, w))"

text \<open>A call alone with its key: the two steps are the composition above.\<close>

lemma lone_call:
  assumes "cw_layers w = Moka entries # rest" "map_of (cw_flights w) key = None"
  shows "run_cache [Lookup caller now ttl key populate, Land now key] w =
    ([(caller, key, fst (layered_get_or_populate now ttl key populate (cw_layers w)))],
     w\<lparr>cw_layers := snd (layered_get_or_populate now ttl key populate (cw_layers w))\<rparr>)"
proof -
  have "AList.delete key (cw_flights w) = cw_flights w" using assms(2) by (simp add: delete_id map_of_eq_None_iff)
  with assms show ?thesis
    by (cases w) (auto simp: look_up_def land_def lone_call_defs layer_put_def split: option.split sum.split)
qed

section \<open>Where an answer comes from\<close>


























definition sample_key :: "nat \<Rightarrow> tile_key" where
  "sample_key g = fetch_key ''t1'' ''c1'' ''k1'' Web_Mercator_Quad \<lparr>tc_z = 3, tc_x = 1, tc_y = 2\<rparr> [] None g"




text \<open>
  Two subjects whose grants filter the rows differently ask for one tile. In one process alone each gets its own
  rows; with a second tier the other subject's rendering is answered, its rows included.
\<close>

definition filtered_key :: "nat \<Rightarrow> tile_key" where
  "filtered_key fingerprint = fetch_key ''t1'' ''c1'' ''k1'' Web_Mercator_Quad \<lparr>tc_z = 3, tc_x = 1, tc_y = 2\<rparr> [] (Some fingerprint) 0"

definition filtered_run :: "unit cache_event list" where
  "filtered_run =
     [Lookup 1 0 (Some 60) (filtered_key 11) (Inr ''rows of one''), Land 0 (filtered_key 11),
      Lookup 2 1 (Some 60) (filtered_key 22) (Inr ''rows of two''), Land 1 (filtered_key 22)]"

lemma other_row_filter_is_answered:
  "fst (run_cache filtered_run (build_cache (Some 10)))
     = [(1, filtered_key 11, Inr ''rows of one''), (2, filtered_key 22, Inr ''rows of one'')]"
  "fst (run_cache filtered_run (build_cache None))
     = [(1, filtered_key 11, Inr ''rows of one''), (2, filtered_key 22, Inr ''rows of two'')]"
  by code_simp+

text \<open>
  \<open>TileKey\<close> documents that without invalidation the time to live alone bounds the freshness of a tile. The
  in-process cache has no expiry, and a hit there writes the tile to the second tier again with a new expiry:
  a rendering that is asked for is kept in both, here 16 minutes and 40 seconds after it was made for a minute.
\<close>

lemma hit_outlives_its_time_to_live:
  "fst (run_cache [Lookup 1 0 (Some 60) (sample_key 0) (Inr ''old''), Land 0 (sample_key 0),
       Lookup 2 1000 (Some 60) (sample_key 0) (Inr ''new''), Evict (sample_key 0),
       Lookup 3 1001 (Some 60) (sample_key 0) (Inr ''new'' :: unit + string), Land 1001 (sample_key 0)] (build_cache (Some 10)))
     = [(1, sample_key 0, Inr ''old''), (2, sample_key 0, Inr ''old''), (3, sample_key 0, Inr ''old'')]"
  by code_simp

end
