(* ===== verification/Timefmt.thy ===== *)
theory Timefmt
  imports Prelude
begin

text \<open>
  Timestamps: \<open>crates/tellurion-core/src/timefmt.rs\<close>, the calendar arithmetic, the text every envelope
  carries and the parser of stored timestamps, with the number parsers of Rust they use. An instant is a number
  of nanoseconds since the Unix epoch; the integers of the code are unbounded here where they cannot overflow.
\<close>

section \<open>Parsing numbers\<close>

definition digit_value :: "char \<Rightarrow> nat option" where
  "digit_value c = (let n = of_char c in if 48 \<le> n \<and> n \<le> 57 then Some (n - 48) else None)"

definition parse_digits :: "string \<Rightarrow> nat option" where
  "parse_digits s = (if s = [] then None else map_option (value_of_digits 0) (those (map digit_value s)))"

text \<open>\<open>str::parse\<close> of an unsigned and of a signed integer, with the greatest value of the type.\<close>

definition parse_unsigned :: "nat \<Rightarrow> string \<Rightarrow> nat option" where
  "parse_unsigned greatest s =
     (case parse_digits (case s of c # t \<Rightarrow> if c = CHR ''+'' then t else s | [] \<Rightarrow> []) of
        Some n \<Rightarrow> if n \<le> greatest then Some n else None
      | None \<Rightarrow> None)"

definition parse_signed :: "nat \<Rightarrow> string \<Rightarrow> int option" where
  "parse_signed greatest s =
     (case s of
        c # t \<Rightarrow>
          if c = CHR ''-'' then
            (case parse_digits t of Some n \<Rightarrow> if n \<le> greatest + 1 then Some (- int n) else None | None \<Rightarrow> None)
          else map_option int (parse_unsigned greatest s)
      | [] \<Rightarrow> None)"

definition U64_MAX :: nat where "U64_MAX = 2 ^ 64 - 1"
definition I64_MAX :: nat where "I64_MAX = 2 ^ 63 - 1"
definition U32_MAX :: nat where "U32_MAX = 2 ^ 32 - 1"

text \<open>\<open>{n:0w}\<close> of a format string.\<close>

definition padded :: "nat \<Rightarrow> nat \<Rightarrow> string" where
  "padded w n = replicate (w - length (show_nat n)) CHR ''0'' @ show_nat n"

definition split_once :: "char \<Rightarrow> string \<Rightarrow> (string \<times> string) option" where
  "split_once c s = (case split_on c s of w # v # vs \<Rightarrow> Some (w, join_with c (v # vs)) | _ \<Rightarrow> None)"

section \<open>The calendar\<close>

text \<open>Division of signed integers truncates.\<close>

definition quot :: "int \<Rightarrow> int \<Rightarrow> int" where
  "quot a b = (if 0 \<le> a then a div b else - ((- a) div b))"

definition days_from_civil :: "int \<Rightarrow> int \<Rightarrow> int \<Rightarrow> int" where
  "days_from_civil year m d =
     (let y = if m \<le> 2 then year - 1 else year;
          era = quot (if 0 \<le> y then y else y - 399) 400;
          yoe = y - era * 400;
          mp = (m + 9) mod 12;
          doy = (153 * mp + 2) div 5 + d - 1;
          doe = yoe * 365 + yoe div 4 - yoe div 100 + doy
      in era * 146097 + doe - 719468)"

definition civil_from_days :: "int \<Rightarrow> int \<times> int \<times> int" where
  "civil_from_days days =
     (let z = days + 719468;
          era = quot (if 0 \<le> z then z else z - 146096) 146097;
          doe = z - era * 146097;
          yoe = (doe - doe div 1460 + doe div 36524 - doe div 146096) div 365;
          y = yoe + era * 400;
          doy = doe - (365 * yoe + yoe div 4 - yoe div 100);
          mp = (5 * doy + 2) div 153;
          d = doy - (153 * mp + 2) div 5 + 1;
          m = if mp < 10 then mp + 3 else mp - 9
      in (if m \<le> 2 then y + 1 else y, m, d))"

section \<open>Formatting and parsing\<close>

definition format_rfc3339_millis :: "int \<Rightarrow> string" where
  "format_rfc3339_millis t =
     (let duration = max t 0;
          total_secs = duration div 1000000000;
          millis = duration div 1000000 mod 1000;
          days = total_secs div 86400;
          secs_of_day = total_secs mod 86400;
          (year, month, day) = civil_from_days days;
          hour = secs_of_day div 3600;
          minute = secs_of_day mod 3600 div 60;
          second = secs_of_day mod 60
      in padded 4 (nat year) @ ''-'' @ padded 2 (nat month) @ ''-'' @ padded 2 (nat day) @ ''T''
         @ padded 2 (nat hour) @ '':'' @ padded 2 (nat minute) @ '':'' @ padded 2 (nat second)
         @ ''.'' @ padded 3 (nat millis) @ ''Z'')"

datatype time_parse_error =
    Not_Utc string
  | Missing_Separator string
  | Bad_Field string
  | Unexpected_Date_Field string
  | Date_Out_Of_Range string
  | Bad_Fraction string
  | Fraction_Overflow string
  | Unexpected_Time_Field string
  | Time_Out_Of_Range string
  | Before_Epoch string

definition parse_field :: "(string \<Rightarrow> 'a option) \<Rightarrow> string option \<Rightarrow> string \<Rightarrow> time_parse_error + 'a" where
  "parse_field parse part name = ok_or (Option.bind part parse) (Bad_Field name)"

definition parse_millis_fraction :: "string \<Rightarrow> time_parse_error + nat" where
  "parse_millis_fraction fraction =
     (if fraction = [] \<or> list_ex (\<lambda>c. digit_value c = None) fraction then Inl (Bad_Fraction fraction)
      else ok_or (parse_unsigned U64_MAX (take 3 (fraction @ replicate 3 CHR ''0''))) (Fraction_Overflow fraction))"

definition parse_time_of_day :: "string \<Rightarrow> string \<Rightarrow> time_parse_error + int \<times> int \<times> int" where
  "parse_time_of_day text hms =
     (let parts = split_on CHR '':'' hms in
      and_then (parse_field (parse_signed I64_MAX) (nth_opt parts 0) ''hour'') (\<lambda>hour.
      and_then (parse_field (parse_signed I64_MAX) (nth_opt parts 1) ''minute'') (\<lambda>minute.
      and_then (parse_field (parse_signed I64_MAX) (nth_opt parts 2) ''second'') (\<lambda>second.
      and_then (ensure (nth_opt parts 3 = None) (Unexpected_Time_Field text)) (\<lambda>_.
      and_then (ensure (0 \<le> hour \<and> hour < 24 \<and> 0 \<le> minute \<and> minute < 60 \<and> 0 \<le> second \<and> second < 60)
        (Time_Out_Of_Range text)) (\<lambda>_. Inr (hour, minute, second)))))))"

definition parse_date :: "string \<Rightarrow> string \<Rightarrow> time_parse_error + int \<times> int \<times> int" where
  "parse_date text date =
     (let parts = split_on CHR ''-'' date in
      and_then (parse_field (parse_signed I64_MAX) (nth_opt parts 0) ''year'') (\<lambda>year.
      and_then (parse_field (parse_unsigned U32_MAX) (nth_opt parts 1) ''month'') (\<lambda>month.
      and_then (parse_field (parse_unsigned U32_MAX) (nth_opt parts 2) ''day'') (\<lambda>day.
      and_then (ensure (nth_opt parts 3 = None) (Unexpected_Date_Field text)) (\<lambda>_.
      and_then (ensure (1 \<le> month \<and> month \<le> 12 \<and> 1 \<le> day \<and> day \<le> 31) (Date_Out_Of_Range text)) (\<lambda>_.
        Inr (year, int month, int day)))))))"

definition parse_utc_datetime_text :: "string \<Rightarrow> time_parse_error + int" where
  "parse_utc_datetime_text text =
     and_then (ok_or (strip_suffix ''Z'' text) (Not_Utc text)) (\<lambda>body.
     and_then (ok_or (split_once CHR ''T'' body) (Missing_Separator text)) (\<lambda>(date, time).
     and_then (parse_date text date) (\<lambda>(year, month, day).
     and_then (case split_once CHR ''.'' time of
         Some (hms, fraction) \<Rightarrow> and_then (parse_millis_fraction fraction) (\<lambda>millis. Inr (hms, millis))
       | None \<Rightarrow> Inr (time, 0)) (\<lambda>(hms, millis).
     and_then (parse_time_of_day text hms) (\<lambda>(hour, minute, second).
       let total_secs = days_from_civil year month day * 86400 + (hour * 3600 + minute * 60 + second) in
       if total_secs < 0 then Inl (Before_Epoch text)
       else Inr (total_secs * 1000000000 + int millis * 1000000))))))"

section \<open>Years and days\<close>

text \<open>The first day of the year \<open>y\<close> of an era, counted from March, and the code's estimate of the year.\<close>

definition year_start :: "int \<Rightarrow> int" where "year_start y = 365 * y + y div 4 - y div 100"
definition year_days :: "int \<Rightarrow> int" where "year_days doe = doe - doe div 1460 + doe div 36524 - doe div 146096"

lemma year_days_step: "0 < b \<Longrightarrow> b \<le> 146096 \<Longrightarrow> year_days (b - 1) \<le> year_days b"
proof (cases "b = 146096")
  case True
  then show ?thesis by (simp add: year_days_def)
next
  case False
  assume "0 < b" "b \<le> 146096"
  with False have "b div 146096 = 0" "(b - 1) div 146096 = 0" by simp_all
  moreover have "(b - 1) div 36524 \<le> b div 36524" by (rule zdiv_mono1) simp_all
  moreover have "b div 1460 \<le> (b - 1 + 1460) div 1460" by (rule zdiv_mono1) simp_all
  then have "b div 1460 \<le> (b - 1) div 1460 + 1" by simp
  ultimately show ?thesis unfolding year_days_def by linarith
qed

lemma year_days_mono: "0 \<le> a \<Longrightarrow> a \<le> b \<Longrightarrow> b \<le> 146096 \<Longrightarrow> year_days a \<le> year_days b"
proof (induction "nat (b - a)" arbitrary: b)
  case (Suc n)
  then have "year_days (b - 1) \<le> year_days b" "year_days a \<le> year_days (b - 1)"
    by (intro year_days_step; linarith) (intro Suc.hyps(1); use Suc in linarith)
  then show ?case by linarith
qed simp

text \<open>The last year of an era has a leap day of its own.\<close>

definition year_end :: "int \<Rightarrow> int" where "year_end y = (if y = 399 then 146097 else year_start (y + 1))"

definition year_checked :: "int \<Rightarrow> bool" where
  "year_checked y \<longleftrightarrow> 365 * y \<le> year_days (year_start y) \<and> year_days (year_end y - 1) < 365 * (y + 1)
     \<and> 0 \<le> year_start y \<and> year_end y \<le> 146097 \<and> year_end y - year_start y \<le> 366"

lemma years_checked: "list_all year_checked [0..399]"
  by code_simp

lemma year_of_day:
  assumes "0 \<le> doe" "doe \<le> 146096"
  defines "y \<equiv> year_days doe div 365"
  shows "0 \<le> y" "y \<le> 399" "year_start y \<le> doe" "doe - year_start y \<le> 365"
proof -
  have start: "year_start 0 = 0" by (simp add: year_start_def)
  define n where "n = (GREATEST n. n < 400 \<and> year_start (int n) \<le> doe)"
  have "(0 :: nat) < 400 \<and> year_start (int 0) \<le> doe" using assms(1) start by simp
  then have n: "n < 400" "year_start (int n) \<le> doe"
    unfolding n_def by (metis (mono_tags, lifting) GreatestI_nat less_imp_le_nat)+
  have nxt: "doe < year_end (int n)"
  proof (cases "n = 399")
    case True
    with assms(2) show ?thesis by (simp add: year_end_def)
  next
    case False
    then have "Suc n < 400" using n(1) by simp
    show ?thesis
    proof (rule ccontr)
      assume "\<not> ?thesis"
      then have "Suc n < 400 \<and> year_start (int (Suc n)) \<le> doe" using \<open>Suc n < 400\<close> False by (simp add: year_end_def add.commute)
      then have "Suc n \<le> n" unfolding n_def by (rule Greatest_le_nat [where b = 400]) simp
      then show False by simp
    qed
  qed
  have c: "year_checked (int n)" using years_checked n(1) by (auto simp: list_all_iff)
  then have "365 * int n \<le> year_days doe" "year_days doe < 365 * (int n + 1)"
    using year_days_mono [of "year_start (int n)" doe] year_days_mono [of doe "year_end (int n) - 1"] n nxt assms(1,2)
    unfolding year_checked_def by linarith+
  then have "y = int n" unfolding y_def by (intro int_div_pos_eq [of _ _ _ "year_days doe - 365 * int n"]) simp_all
  with n nxt c show "0 \<le> y" "y \<le> 399" "year_start y \<le> doe" "doe - year_start y \<le> 365"
    unfolding year_checked_def by simp_all
qed

lemma quot_floor:
  "quot (if 0 \<le> y then y else y - 399) 400 = y div 400"
  "quot (if 0 \<le> z then z else z - 146096) 146097 = z div 146097"
  by (auto simp: quot_def)

lemma civil_days_inverse:
  assumes "civil_from_days days = (y, m, d)"
  shows "days_from_civil y m d = days" "1 \<le> m" "m \<le> 12" "1 \<le> d" "d \<le> 31"
    "0 \<le> days \<Longrightarrow> 0 \<le> y \<and> y \<le> days + 720000"
proof -
  define z where "z = days + 719468"
  define era where "era = z div 146097"
  define doe where "doe = z - era * 146097"
  define yoe where "yoe = year_days doe div 365"
  define doy where "doy = doe - year_start yoe"
  define mp where "mp = (5 * doy + 2) div 153"
  have civil: "y = (if m \<le> 2 then yoe + era * 400 + 1 else yoe + era * 400)" "m = (if mp < 10 then mp + 3 else mp - 9)"
    "d = doy - (153 * mp + 2) div 5 + 1"
  proof -
    have "civil_from_days days = (if (if mp < 10 then mp + 3 else mp - 9) \<le> 2 then yoe + era * 400 + 1 else yoe + era * 400,
        if mp < 10 then mp + 3 else mp - 9, doy - (153 * mp + 2) div 5 + 1)"
      by (simp only: civil_from_days_def Let_def quot_floor z_def era_def doe_def yoe_def doy_def mp_def year_days_def year_start_def)
    then have "(if (if mp < 10 then mp + 3 else mp - 9) \<le> 2 then yoe + era * 400 + 1 else yoe + era * 400,
        if mp < 10 then mp + 3 else mp - 9, doy - (153 * mp + 2) div 5 + 1) = (y, m, d)" using assms by (rule trans [OF sym])
    then have eqs: "(if (if mp < 10 then mp + 3 else mp - 9) \<le> 2 then yoe + era * 400 + 1 else yoe + era * 400) = y"
      "(if mp < 10 then mp + 3 else mp - 9) = m" "doy - (153 * mp + 2) div 5 + 1 = d" unfolding prod.inject by blast+
    from eqs(1) show "y = (if m \<le> 2 then yoe + era * 400 + 1 else yoe + era * 400)" unfolding eqs(2) by (rule sym)
    show "m = (if mp < 10 then mp + 3 else mp - 9)" by (rule eqs(2) [THEN sym])
    show "d = doy - (153 * mp + 2) div 5 + 1" by (rule eqs(3) [THEN sym])
  qed
  have doe: "0 \<le> doe" "doe \<le> 146096"
    using pos_mod_sign [of 146097 z] pos_mod_bound [of 146097 z] unfolding doe_def era_def
    by (simp_all add: minus_div_mult_eq_mod)
  note year = year_of_day [OF doe, folded yoe_def]
  have doy: "0 \<le> doy" "doy \<le> 365" using year(3,4) by (simp_all add: doy_def)
  then have "5 * doy + 2 < 153 * 12" "0 \<le> 5 * doy + 2" by simp_all
  then have mp: "0 \<le> mp" "mp \<le> 11" unfolding mp_def by auto
  show "1 \<le> m" "m \<le> 12" using mp civil(2) by auto
  have "153 * mp \<le> 5 * doy + 2" "5 * doy + 2 < 153 * mp + 153" unfolding mp_def by linarith+
  then show "1 \<le> d" "d \<le> 31" unfolding civil(3) by linarith+
  have month_back: "(m + 9) mod 12 = mp" using mp civil(2) by (auto simp: mod_pos_pos_trivial)
  have shifted: "(if m \<le> 2 then y - 1 else y) = yoe + era * 400" by (simp add: civil(1))
  have eras: "(yoe + era * 400) div 400 = era" using year(1,2) by simp
  have "days_from_civil y m d
      = era * 146097 + (yoe * 365 + yoe div 4 - yoe div 100 + ((153 * mp + 2) div 5 + d - 1)) - 719468"
    unfolding days_from_civil_def Let_def shifted quot_floor eras month_back by simp
  also have "\<dots> = days" by (simp add: civil(3) doy_def year_start_def doe_def z_def)
  finally show "days_from_civil y m d = days" .
  show "0 \<le> days \<Longrightarrow> 0 \<le> y \<and> y \<le> days + 720000"
  proof -
    assume "0 \<le> days"
    then have "0 \<le> era" unfolding era_def z_def by (intro div_int_pos_iff [THEN iffD2]) simp
    moreover have "era * 146097 \<le> z" using doe(1) by (simp add: doe_def)
    ultimately show ?thesis using year(1,2) unfolding civil(1) z_def by auto
  qed
qed

section \<open>Reading back what was printed\<close>

lemma digit_value_digit: "d < 10 \<Longrightarrow> digit_value (char_of (48 + d)) = Some d"
  by (simp add: digit_value_def Let_def)

lemma those_map_Some: "(\<And>x. x \<in> set xs \<Longrightarrow> f (g x) = Some (h x)) \<Longrightarrow> those (map f (map g xs)) = Some (map h xs)"
  by (induction xs) simp_all

lemma value_of_leading_zeros: "value_of_digits 0 (replicate k 0 @ ds) = value_of_digits 0 ds"
  by (induction k) simp_all

lemma parse_padded: "parse_digits (padded w n) = Some n"
proof -
  have zeros: "replicate k CHR ''0'' = map (\<lambda>d. char_of (48 + d :: nat)) (replicate k 0)" for k
    unfolding map_replicate add_0_right by (rule arg_cong) code_simp
  have "padded w n = map (\<lambda>d. char_of (48 + d)) (replicate (w - length (show_nat n)) 0 @ digits_of n)"
    unfolding padded_def zeros show_nat_def by simp
  moreover have "those (map digit_value (map (\<lambda>d. char_of (48 + d)) (replicate k 0 @ digits_of n)))
      = Some (map id (replicate k 0 @ digits_of n))" for k
    by (rule those_map_Some) (auto simp: digit_value_digit digit_value_digit [of 0, simplified] dest: digits_of_bound)
  moreover have "padded w n \<noteq> []"
  proof -
    have "digits_of n \<noteq> []" by (subst digits_of.simps) simp
    then show ?thesis by (simp add: padded_def show_nat_def)
  qed
  ultimately show ?thesis by (simp add: parse_digits_def value_of_leading_zeros value_of_digits_of)
qed

lemma padded_digits: "c \<in> set (padded w n) \<Longrightarrow> digit_value c \<noteq> None"
proof -
  have "those (map digit_value s) = Some ds \<Longrightarrow> c \<in> set s \<Longrightarrow> digit_value c \<noteq> None" for s ds
    by (induction s arbitrary: ds) (auto split: option.splits)
  moreover assume "c \<in> set (padded w n)"
  moreover obtain ds where "those (map digit_value (padded w n)) = Some ds"
    using parse_padded [of w n] by (auto simp: parse_digits_def split: if_splits)
  ultimately show ?thesis by blast
qed

lemma padded_no_sign:
  "CHR ''-'' \<notin> set (padded w n)" "CHR '':'' \<notin> set (padded w n)" "CHR ''T'' \<notin> set (padded w n)"
  "CHR ''.'' \<notin> set (padded w n)" "CHR ''+'' \<notin> set (padded w n)"
  by (auto dest!: padded_digits simp: digit_value_def Let_def)

lemma parse_unsigned_padded: "n \<le> greatest \<Longrightarrow> parse_unsigned greatest (padded w n) = Some n"
proof -
  have "(case padded w n of [] \<Rightarrow> [] | c # t \<Rightarrow> if c = CHR ''+'' then t else padded w n) = padded w n"
    using padded_no_sign(5) [of w n] by (cases "padded w n") auto
  then show "n \<le> greatest \<Longrightarrow> ?thesis" unfolding parse_unsigned_def by (simp add: parse_padded)
qed

lemma parse_signed_padded: "n \<le> greatest \<Longrightarrow> parse_signed greatest (padded w n) = Some (int n)"
  using padded_no_sign(1) [of w n] parse_padded [of w n] parse_unsigned_padded [of n greatest w]
  by (cases "padded w n") (auto simp: parse_signed_def parse_digits_def)

lemma split_once_at: "c \<notin> set w \<Longrightarrow> split_once c (w @ c # t) = Some (w, t)"
  using join_split [of c t] by (cases "split_on c t") (simp_all add: split_once_def split_on_append)

lemma parse_date_padded:
  assumes "0 \<le> y" "y \<le> int I64_MAX" "1 \<le> m" "m \<le> 12" "1 \<le> d" "d \<le> 31"
  shows "parse_date text (padded 4 (nat y) @ ''-'' @ padded 2 (nat m) @ ''-'' @ padded 2 (nat d)) = Inr (y, m, d)"
proof -
  have "nat m \<le> U32_MAX" "nat d \<le> U32_MAX" using assms(4,6) by (simp_all add: U32_MAX_def)
  moreover have "nat y \<le> I64_MAX" using assms(1,2) by simp
  ultimately show ?thesis
    using assms by (simp add: parse_date_def parse_field_def Let_def split_on_append split_on_word padded_no_sign
      parse_signed_padded parse_unsigned_padded le_nat_iff nat_le_iff nth_opt_def)
qed

lemma parse_time_padded:
  assumes "0 \<le> h" "h < 24" "0 \<le> m" "m < 60" "0 \<le> s" "s < 60"
  shows "parse_time_of_day text (padded 2 (nat h) @ '':'' @ padded 2 (nat m) @ '':'' @ padded 2 (nat s)) = Inr (h, m, s)"
proof -
  have "nat h \<le> I64_MAX" "nat m \<le> I64_MAX" "nat s \<le> I64_MAX" using assms by (simp_all add: I64_MAX_def)
  then show ?thesis
    using assms by (simp add: parse_time_of_day_def parse_field_def Let_def split_on_append split_on_word padded_no_sign
      parse_signed_padded nth_opt_def)
qed

lemma padded_length: "n < 1000 \<Longrightarrow> length (padded 3 n) = 3"
proof -
  assume "n < 1000"
  then have "length (digits_of n) \<le> 3"
    by (subst digits_of.simps, auto, subst digits_of.simps, auto, subst digits_of.simps, auto)
  then show ?thesis by (simp add: padded_def show_nat_def)
qed

lemma parse_millis_padded: "n < 1000 \<Longrightarrow> parse_millis_fraction (padded 3 n) = Inr n"
proof -
  assume n: "n < 1000"
  then have "padded 3 n \<noteq> []" "\<not> list_ex (\<lambda>c. digit_value c = None) (padded 3 n)"
    using padded_length [OF n] by (auto simp: list_ex_iff dest: padded_digits)
  moreover have "take 3 (padded 3 n @ replicate 3 CHR ''0'') = padded 3 n" using padded_length [OF n] by simp
  moreover have "n \<le> U64_MAX" using n by (simp add: U64_MAX_def)
  ultimately show ?thesis by (simp add: parse_millis_fraction_def parse_unsigned_padded)
qed

text \<open>
  C40. The text of an instant, as every change-feed and webhook envelope carries it, parses back to that
  instant cut to whole milliseconds, for every instant from the epoch on whose seconds fit 63 bits: leap
  years, centuries and years of more than four digits included.\<close>

theorem timestamp_round_trip:
  assumes "0 \<le> t" "t < 2 ^ 63 * 1000000000"
  shows "parse_utc_datetime_text (format_rfc3339_millis t) = Inr (t div 1000000 * 1000000)"
proof -
  define secs where "secs = t div 1000000000"
  define ms where "ms = t div 1000000 mod 1000"
  define sod where "sod = secs mod 86400"
  obtain y m d where civil: "civil_from_days (secs div 86400) = (y, m, d)" by (metis prod_cases3)
  have secs: "0 \<le> secs" "secs < 2 ^ 63" using assms unfolding secs_def by (simp_all add: div_int_pos_iff)
  then have days: "0 \<le> secs div 86400" "secs div 86400 \<le> 2 ^ 62" by simp_all
  note date = civil_days_inverse [OF civil]
  have year: "0 \<le> y" "y \<le> int I64_MAX" using date(6) [OF days(1)] days(2) by (simp_all add: I64_MAX_def)
  have sod: "0 \<le> sod" "sod < 86400" by (simp_all add: sod_def)
  have hms: "0 \<le> sod div 3600" "sod div 3600 < 24" "0 \<le> sod mod 3600 div 60" "sod mod 3600 div 60 < 60"
    "0 \<le> sod mod 60" "sod mod 60 < 60" using sod by auto
  have ms: "0 \<le> ms" "ms < 1000" by (simp_all add: ms_def)
  let ?date = "padded 4 (nat y) @ ''-'' @ padded 2 (nat m) @ ''-'' @ padded 2 (nat d)"
  let ?hms = "padded 2 (nat (sod div 3600)) @ '':'' @ padded 2 (nat (sod mod 3600 div 60)) @ '':'' @ padded 2 (nat (sod mod 60))"
  have format: "format_rfc3339_millis t = (?date @ CHR ''T'' # (?hms @ CHR ''.'' # padded 3 (nat ms))) @ ''Z''"
    using assms(1) civil by (simp add: format_rfc3339_millis_def Let_def secs_def ms_def sod_def)
  have body: "split_once CHR ''T'' (?date @ CHR ''T'' # (?hms @ CHR ''.'' # padded 3 (nat ms))) = Some (?date, ?hms @ CHR ''.'' # padded 3 (nat ms))"
    by (rule split_once_at) (simp add: padded_no_sign)
  have frac: "split_once CHR ''.'' (?hms @ CHR ''.'' # padded 3 (nat ms)) = Some (?hms, padded 3 (nat ms))"
    by (rule split_once_at) (simp add: padded_no_sign)
  have split_day: "sod div 3600 * 3600 + sod mod 3600 div 60 * 60 + sod mod 60 = sod"
  proof -
    have "sod mod 3600 mod 60 = sod mod 60" by (rule mod_mod_cancel) simp
    then show ?thesis using mult_div_mod_eq [of 3600 sod] mult_div_mod_eq [of 60 "sod mod 3600"] by linarith
  qed
  have total: "secs div 86400 * 86400 + sod = secs" by (simp add: sod_def)
  have instant: "secs * 1000000000 + ms * 1000000 = t div 1000000 * 1000000"
  proof -
    have "t div 1000000000 = t div 1000000 div 1000" using zdiv_zmult2_eq [of 1000 t 1000000] by simp
    then show ?thesis using mult_div_mod_eq [of 1000 "t div 1000000"] unfolding secs_def ms_def by linarith
  qed
  have fraction: "parse_millis_fraction (padded 3 (nat ms)) = Inr (nat ms)" using ms by (intro parse_millis_padded) simp
  show ?thesis
    unfolding parse_utc_datetime_text_def format strip_suffix_Some_iff [THEN iffD2, OF refl] ok_or_simps and_then_simps body
      frac case_prod_conv option.case parse_date_padded [OF year date(2-5)] parse_time_padded [OF hms] fraction
      Let_def date(1) split_day total
    using ms(1) secs(1) instant by simp
qed

theorem timestamp_round_trip_witness:
  "parse_utc_datetime_text (format_rfc3339_millis 1709164800999123456) = Inr 1709164800999000000"
  using timestamp_round_trip [of 1709164800999123456] by simp

text \<open>Days are only bounded by 31: the last days of February that do not exist are read as days of March.\<close>

lemma overlong_day_is_carried: "days_from_civil 2026 2 31 = days_from_civil 2026 3 3"
  by (simp add: days_from_civil_def quot_def)

lemma before_epoch_prints_epoch: "t < 0 \<Longrightarrow> format_rfc3339_millis t = format_rfc3339_millis 0"
  by (simp add: format_rfc3339_millis_def)

section \<open>Instants of a query\<close>

text \<open>
  The \<open>datetime\<close> parameter of \<open>crates/tellurion-core/src/query_params.rs\<close>. Its texts are byte lists; a slice of
  the code that is taken lies between bytes checked to be ASCII.
\<close>

record datetime_range =
  dt_start :: "string option"
  dt_end :: "string option"

datatype datetime_error = Empty_Datetime | Open_Interval | Not_An_Interval string | Invalid_Instant string

definition is_digit :: "char \<Rightarrow> bool" where "is_digit c \<longleftrightarrow> digit_value c \<noteq> None"

definition slice :: "nat \<Rightarrow> nat \<Rightarrow> 'a list \<Rightarrow> 'a list" where "slice i j s = take (j - i) (drop i s)"

definition number_or_zero :: "string \<Rightarrow> nat" where
  "number_or_zero s = (case parse_unsigned U32_MAX s of Some n \<Rightarrow> n | None \<Rightarrow> 0)"

definition valid_offset :: "string \<Rightarrow> bool" where
  "valid_offset rest \<longleftrightarrow>
     (case rest of
        [c] \<Rightarrow> c = CHR ''Z'' \<or> c = CHR ''z''
      | [c, h1, h2, d, m1, m2] \<Rightarrow>
          (c = CHR ''+'' \<or> c = CHR ''-'') \<and> d = CHR '':'' \<and> list_all is_digit [h1, h2, m1, m2]
      | _ \<Rightarrow> False)"

definition instant_shape :: "string \<Rightarrow> bool" where
  "instant_shape raw \<longleftrightarrow>
     list_all is_digit (slice 0 4 raw) \<and> raw ! 4 = CHR ''-'' \<and> list_all is_digit (slice 5 7 raw) \<and> raw ! 7 = CHR ''-''
     \<and> list_all is_digit (slice 8 10 raw) \<and> (raw ! 10 = CHR ''T'' \<or> raw ! 10 = CHR ''t'')
     \<and> list_all is_digit (slice 11 13 raw) \<and> raw ! 13 = CHR '':'' \<and> list_all is_digit (slice 14 16 raw) \<and> raw ! 16 = CHR '':''
     \<and> list_all is_digit (slice 17 19 raw)"

definition validate_instant :: "string \<Rightarrow> datetime_error + unit" where
  "validate_instant raw =
     (if length raw < 20 then Inl (Invalid_Instant raw)
      else if \<not> instant_shape raw then Inl (Invalid_Instant raw)
      else
        let month = number_or_zero (slice 5 7 raw); day = number_or_zero (slice 8 10 raw);
            hour = number_or_zero (slice 11 13 raw); minute = number_or_zero (slice 14 16 raw);
            second = number_or_zero (slice 17 19 raw) in
        if \<not> (1 \<le> month \<and> month \<le> 12) \<or> \<not> (1 \<le> day \<and> day \<le> 31) \<or> 23 < hour \<or> 59 < minute \<or> 60 < second
        then Inl (Invalid_Instant raw)
        else
          let rest = drop 19 raw in
          case strip_prefix ''.'' rest of
            Some after_dot \<Rightarrow>
              if takeWhile is_digit after_dot = [] then Inl (Invalid_Instant raw)
              else ensure (valid_offset (dropWhile is_digit after_dot)) (Invalid_Instant raw)
          | None \<Rightarrow> ensure (valid_offset rest) (Invalid_Instant raw))"

definition validate_bound :: "string \<Rightarrow> datetime_error + string option" where
  "validate_bound raw =
     (if raw = ''..'' then Inr None else and_then (validate_instant raw) (\<lambda>_. Inr (Some raw)))"

definition parse_datetime :: "string \<Rightarrow> datetime_error + datetime_range" where
  "parse_datetime raw =
     (if raw = [] then Inl Empty_Datetime
      else (case split_on CHR ''/'' raw of
         [single] \<Rightarrow> and_then (validate_instant single) (\<lambda>_. Inr \<lparr>dt_start = Some single, dt_end = Some single\<rparr>)
       | [start, stop] \<Rightarrow>
           and_then (validate_bound start) (\<lambda>start.
           and_then (validate_bound stop) (\<lambda>stop.
             if start = None \<and> stop = None then Inl Open_Interval
             else Inr \<lparr>dt_start = start, dt_end = stop\<rparr>))
       | _ \<Rightarrow> Inl (Not_An_Interval raw)))"

lemma digits_length: "n < 10 ^ Suc k \<Longrightarrow> length (digits_of n) \<le> Suc k"
proof (induction k arbitrary: n)
  case 0
  then show ?case by (subst digits_of.simps) simp
next
  case (Suc k)
  then have "n div 10 < 10 ^ Suc k" by (simp add: less_mult_imp_div_less mult.commute)
  from Suc.IH [OF this] show ?case by (subst digits_of.simps) simp
qed

lemma padded_width: "n < 10 ^ Suc k \<Longrightarrow> length (padded (Suc k) n) = Suc k"
  using digits_length [of n k] by (simp add: padded_def show_nat_def)

lemma list_of_length:
  "length xs = 3 \<Longrightarrow> \<exists>a b c. xs = [a, b, c]" "length xs = 4 \<Longrightarrow> \<exists>a b c d. xs = [a, b, c, d]"
  by (auto simp: numeral_eq_Suc length_Suc_conv)

lemma padded_two:
  assumes "n < 100"
  shows "\<exists>a b. padded 2 n = [a, b] \<and> is_digit a \<and> is_digit b \<and> number_or_zero [a, b] = n"
proof -
  have "length (padded 2 n) = 2" using padded_width [of n 1] assms by (simp add: numeral_2_eq_2)
  then obtain a b where ab: "padded 2 n = [a, b]" by (auto simp: numeral_2_eq_2 length_Suc_conv)
  moreover have "number_or_zero (padded 2 n) = n" using assms parse_unsigned_padded [of n U32_MAX 2]
    by (simp add: number_or_zero_def U32_MAX_def)
  moreover have "\<forall>c \<in> set (padded 2 n). is_digit c" by (auto simp: is_digit_def dest: padded_digits)
  ultimately show ?thesis by simp
qed

text \<open>What the feed prints for an instant of a year up to 9999, a client may send back as a \<open>datetime\<close>.\<close>

lemma printed_instant_is_valid:
  assumes "0 \<le> t" "fst (civil_from_days (t div 1000000000 div 86400)) \<le> 9999"
  shows "parse_datetime (format_rfc3339_millis t) = Inr \<lparr>dt_start = Some (format_rfc3339_millis t), dt_end = Some (format_rfc3339_millis t)\<rparr>"
proof -
  define sod where "sod = t div 1000000000 mod 86400"
  obtain y m d where civil: "civil_from_days (t div 1000000000 div 86400) = (y, m, d)" by (metis prod_cases3)
  note date = civil_days_inverse [OF civil]
  have sod: "0 \<le> sod" "sod < 86400" by (simp_all add: sod_def)
  then have clock: "nat (sod div 3600) < 24" "nat (sod mod 3600 div 60) < 60" "nat (sod mod 60) < 60" by auto
  have "length (padded 4 (nat y)) = 4" using padded_width [of "nat y" 3] assms(2) civil by simp
  from list_of_length(2) [OF this] obtain y1 y2 y3 y4 where y: "padded 4 (nat y) = [y1, y2, y3, y4]" by blast
  have yd: "is_digit y1" "is_digit y2" "is_digit y3" "is_digit y4"
    using padded_digits [of _ 4 "nat y"] unfolding y is_digit_def by simp_all
  have "length (padded 3 (nat (t div 1000000 mod 1000))) = 3" by (rule padded_length) simp
  from list_of_length(1) [OF this] obtain f1 f2 f3 where f: "padded 3 (nat (t div 1000000 mod 1000)) = [f1, f2, f3]" by blast
  have fd: "is_digit f1" "is_digit f2" "is_digit f3"
    using padded_digits [of _ 3 "nat (t div 1000000 mod 1000)"] unfolding f is_digit_def by simp_all
  have nodigit: "\<not> is_digit CHR ''Z''" by (simp add: is_digit_def digit_value_def)
  have "nat m < 100" "nat d < 100" using date(3,5) by linarith+
  moreover have "n < 24 \<Longrightarrow> n < 100" "n < 60 \<Longrightarrow> n < 100" for n :: nat by simp_all
  ultimately have below: "nat m < 100" "nat d < 100" "nat (sod div 3600) < 100" "nat (sod mod 3600 div 60) < 100" "nat (sod mod 60) < 100"
    using clock by blast+
  note two = below [THEN padded_two]
  from two(1) obtain m1 m2 where m: "padded 2 (nat m) = [m1, m2]" "is_digit m1" "is_digit m2" "number_or_zero [m1, m2] = nat m" by blast
  from two(2) obtain d1 d2 where d: "padded 2 (nat d) = [d1, d2]" "is_digit d1" "is_digit d2" "number_or_zero [d1, d2] = nat d" by blast
  from two(3) obtain h1 h2 where h: "padded 2 (nat (sod div 3600)) = [h1, h2]" "is_digit h1" "is_digit h2" "number_or_zero [h1, h2] = nat (sod div 3600)" by blast
  from two(4) obtain n1 n2 where n: "padded 2 (nat (sod mod 3600 div 60)) = [n1, n2]" "is_digit n1" "is_digit n2" "number_or_zero [n1, n2] = nat (sod mod 3600 div 60)" by blast
  from two(5) obtain s1 s2 where s: "padded 2 (nat (sod mod 60)) = [s1, s2]" "is_digit s1" "is_digit s2" "number_or_zero [s1, s2] = nat (sod mod 60)" by blast
  let ?text = "[y1, y2, y3, y4, CHR ''-'', m1, m2, CHR ''-'', d1, d2, CHR ''T'', h1, h2, CHR '':'', n1, n2, CHR '':'', s1, s2,
    CHR ''.'', f1, f2, f3, CHR ''Z'']"
  have printed: "format_rfc3339_millis t = ?text"
    using assms(1) civil by (simp add: format_rfc3339_millis_def Let_def sod_def [symmetric] y m(1) d(1) h(1) n(1) s(1) f)
  have shape: "instant_shape ?text" by (simp add: instant_shape_def slice_def yd m d h n s)
  have slices: "slice 5 7 ?text = [m1, m2]" "slice 8 10 ?text = [d1, d2]" "slice 11 13 ?text = [h1, h2]"
    "slice 14 16 ?text = [n1, n2]" "slice 17 19 ?text = [s1, s2]" by (simp_all add: slice_def)
  have rest: "strip_prefix ''.'' (drop 19 ?text) = Some [f1, f2, f3, CHR ''Z'']" by (simp add: strip_prefix_def starts_with_def)
  have "1 \<le> nat m" "nat m \<le> 12" "1 \<le> nat d" "nat d \<le> 31" using date(2-5) by simp_all
  then have "validate_instant ?text = Inr ()"
    unfolding validate_instant_def Let_def rest slices m(4) d(4) h(4) n(4) s(4)
    using clock by (simp add: shape fd nodigit valid_offset_def)
  moreover have "CHR ''/'' \<notin> set ?text"
  proof -
    have "\<not> is_digit CHR ''/''" by (simp add: is_digit_def digit_value_def)
    then have "is_digit c \<Longrightarrow> CHR ''/'' \<noteq> c" for c by metis
    note other = this [OF yd(1)] this [OF yd(2)] this [OF yd(3)] this [OF yd(4)] this [OF m(2)] this [OF m(3)] this [OF d(2)]
      this [OF d(3)] this [OF h(2)] this [OF h(3)] this [OF n(2)] this [OF n(3)] this [OF s(2)] this [OF s(3)]
      this [OF fd(1)] this [OF fd(2)] this [OF fd(3)]
    show ?thesis unfolding set_simps insert_iff using other by simp
  qed
  moreover have "parse_datetime raw = Inr \<lparr>dt_start = Some raw, dt_end = Some raw\<rparr>"
    if "validate_instant raw = Inr ()" "CHR ''/'' \<notin> set raw" for raw
    using that by (cases "raw = []") (simp_all add: parse_datetime_def split_on_word validate_instant_def)
  ultimately show ?thesis unfolding printed by blast
qed

end
