(* ===== verification/Change_Feed.thy ===== *)
theory Change_Feed
  imports Timefmt Outbox_Reader Data_Policy Resolver Control_Path
begin

text \<open>
  The change feed: the envelopes, cursors and pages of \<open>crates/tellurion-core/src/feed.rs\<close>, the query
  parameters of \<open>query_params.rs\<close> and the handler \<open>tellurion-features/src/feed_handlers.rs\<close>. The outbox a
  collection resolves to and the authenticated subject are arguments; metrics and the public base of a link
  are left out. Sequence numbers are natural numbers up to \<open>U64_MAX\<close>.
\<close>

section \<open>Envelopes\<close>

record 'd stamped = "'d obligation" +
  ob_committed_at :: int

definition FEED_ENVELOPE_SCHEMA_VERSION :: nat where "FEED_ENVELOPE_SCHEMA_VERSION = 1"

datatype feed_operation = Feed_Upsert | Feed_Delete

fun feed_operation_of :: "'d mutation_kind \<Rightarrow> feed_operation" where
  "feed_operation_of (Upsert _) = Feed_Upsert"
| "feed_operation_of Delete = Feed_Delete"

record feed_entry =
  fe_schema_version :: nat
  fe_sequence :: nat
  fe_collection :: string
  fe_operation :: feed_operation
  fe_item_id :: string
  fe_committed_at :: string

definition from_obligation :: "string \<Rightarrow> ('d, 'x) stamped_scheme \<Rightarrow> feed_entry" where
  "from_obligation collection o' =
     \<lparr>fe_schema_version = FEED_ENVELOPE_SCHEMA_VERSION, fe_sequence = ob_sequence o', fe_collection = collection,
      fe_operation = feed_operation_of (ob_kind o'), fe_item_id = ob_feature_id o',
      fe_committed_at = format_rfc3339_millis (ob_committed_at o')\<rparr>"

section \<open>Cursors and pages\<close>

record feed_page =
  fp_entries :: "feed_entry list"
  fp_next :: "string option"

definition encode_cursor :: "nat \<Rightarrow> string" where "encode_cursor sequence = show_nat sequence"

datatype feed_error =
    Feed_Not_Found
  | Feed_Unsupported string
  | Feed_Policy policy_error
  | Feed_Denied "string option"
  | Feed_Rate_Limited rate_refusal
  | Limit_Too_Small
  | Bad_Cursor string
  | Bad_Datetime string

definition decode_cursor :: "string \<Rightarrow> feed_error + nat" where
  "decode_cursor token = ok_or (parse_unsigned U64_MAX token) (Bad_Cursor token)"

definition build_page :: "string \<Rightarrow> ('d, 'x) stamped_scheme list \<Rightarrow> nat \<Rightarrow> feed_page" where
  "build_page collection obligations requested_limit =
     \<lparr>fp_entries = map (from_obligation collection) obligations,
      fp_next = (if obligations \<noteq> [] \<and> requested_limit \<le> length obligations
        then Some (encode_cursor (ob_sequence (last obligations))) else None)\<rparr>"

definition parse_bounded_limit :: "nat option \<Rightarrow> nat \<Rightarrow> nat \<Rightarrow> feed_error + nat" where
  "parse_bounded_limit limit default_limit max_limit =
     (case limit of
        None \<Rightarrow> Inr default_limit
      | Some l \<Rightarrow> if l = 0 then Inl Limit_Too_Small else Inr (min l max_limit))"

definition changes_page ::
  "string \<Rightarrow> ('d, 'x) stamped_scheme list \<Rightarrow> string option \<Rightarrow> nat \<Rightarrow> feed_error + feed_page" where
  "changes_page collection outbox since limit =
     and_then (case since of Some token \<Rightarrow> decode_cursor token | None \<Rightarrow> Inr 0) (\<lambda>since.
       Inr (build_page collection (read_after outbox since limit) limit))"

section \<open>Links\<close>

definition unreserved :: "char \<Rightarrow> bool" where
  "unreserved c \<longleftrightarrow>
     (let n = (of_char c :: nat) in 65 \<le> n \<and> n \<le> 90 \<or> 97 \<le> n \<and> n \<le> 122 \<or> 48 \<le> n \<and> n \<le> 57)
     \<or> c \<in> set ''-_.~''"

definition hex_upper :: "nat \<Rightarrow> char" where
  "hex_upper n = (if n < 10 then char_of (48 + n) else char_of (55 + n))"

definition percent_encode :: "string \<Rightarrow> string" where
  "percent_encode raw =
     concat (map (\<lambda>c. if unreserved c then [c] else [CHR ''%'', hex_upper (of_char c div 16), hex_upper (of_char c mod 16)]) raw)"

record changes_query =
  cq_limit :: "nat option"
  cq_since :: "string option"

definition changes_href :: "string \<Rightarrow> changes_query \<Rightarrow> string option \<Rightarrow> string" where
  "changes_href path params override_token =
     (let pairs = (case cq_limit params of Some l \<Rightarrow> [(''limit'', show_nat l)] | None \<Rightarrow> [])
          @ (case (case override_token of Some t \<Rightarrow> Some t | None \<Rightarrow> cq_since params) of
               Some t \<Rightarrow> [(''since'', t)] | None \<Rightarrow> [])
      in if pairs = [] then path
         else path @ ''?'' @ join_with CHR ''&'' (map (\<lambda>(k, v). k @ ''='' @ percent_encode v) pairs))"

section \<open>The handler\<close>

text \<open>\<open>None\<close> is a request without a usable bearer token. A header value that is not visible ASCII has no text.\<close>

definition extract_credential :: "string option \<Rightarrow> string option" where
  "extract_credential authorization =
     (case authorization of
        None \<Rightarrow> None
      | Some text \<Rightarrow>
          if \<not> list_all (\<lambda>c. let n = (of_char c :: nat) in 32 \<le> n \<and> n < 127 \<or> n = 9) text then None
          else (case strip_prefix ''Bearer '' text of
             Some token \<Rightarrow> if token \<noteq> [] then Some token else None
           | None \<Rightarrow> None))"

record ('x, 'd, 'f, 's) feed_state =
  fs_resolver :: resolver
  fs_outbox :: "string \<Rightarrow> string \<Rightarrow> string \<Rightarrow> feed_error + 'x collection_decl \<times> 'd stamped list"
  fs_authorizer :: "(string option \<Rightarrow> subject) option"
  fs_visibility :: "string \<Rightarrow> visibility_decl option"
  fs_policy :: "grant_decl policy_config"
  fs_parse :: "string \<Rightarrow> 'f cql_filter option"
  fs_counter :: "'s counter_operation"
  fs_default_page_size :: nat
  fs_max_page_size :: nat

definition feed_resource :: "('x, 'd, 'f, 's) feed_state \<Rightarrow> string \<Rightarrow> string \<Rightarrow> string \<Rightarrow> resource_context" where
  "feed_resource state tenant catalog collection =
     \<lparr>rs_tenant_id = tenant, rs_catalog_id = catalog, rs_collection_id = collection, rs_lane = Feed_Lane,
      rs_visibility = (case fs_visibility state collection of Some v \<Rightarrow> v | None \<Rightarrow> \<lparr>vis_public = False, vis_shared_with = []\<rparr>)\<rparr>"

definition authorize_feed_lane ::
  "('x, 'd, 'f, 's) feed_state \<Rightarrow> string option \<Rightarrow> string \<Rightarrow> string \<Rightarrow> string \<Rightarrow> 's \<Rightarrow> (feed_error + unit) \<times> 's" where
  "authorize_feed_lane state credential tenant catalog collection s =
     (case fs_authorizer state of
        None \<Rightarrow> (Inr (), s)
      | Some subject_of \<Rightarrow>
          (let subject = subject_of credential; resource = feed_resource state tenant catalog collection in
           case authorize_resource (fs_parse state) (fs_policy state) resource subject False of
             Inl e \<Rightarrow> (Inl (Feed_Policy e), s)
           | Inr Deny_Access \<Rightarrow> (Inl (Feed_Denied credential), s)
           | Inr (Allow_Rows _) \<Rightarrow>
               (case enforce_rate_limits (fs_policy state) resource subject (Some (fs_counter state)) Charge s of
                  (Permitted, s) \<Rightarrow> (Inr (), s)
                | (Refused_Rate refusal, s) \<Rightarrow> (Inl (Feed_Rate_Limited refusal), s))))"

record changes_response =
  ch_self :: string
  ch_next :: "string option"
  ch_changes :: "feed_entry list"

record changes_request =
  cr_path :: string
  cr_tenant :: "string option"
  cr_catalog :: "string option"
  cr_collection :: "string option"
  cr_query :: changes_query
  cr_authorization :: "string option"

definition DEFAULT_TENANT :: string where "DEFAULT_TENANT = ''public''"
definition DEFAULT_CATALOG :: string where "DEFAULT_CATALOG = ''default''"

definition resolve_feed_collection ::
  "('x, 'd, 'f, 's) feed_state \<Rightarrow> changes_request \<Rightarrow> feed_error + string \<times> string \<times> string" where
  "resolve_feed_collection state request =
     and_then (ok_or (rv_resolve_tenant (fs_resolver state)
       (case cr_tenant request of Some t \<Rightarrow> t | None \<Rightarrow> DEFAULT_TENANT)) Feed_Not_Found) (\<lambda>tenant.
     and_then (ok_or (rv_resolve_catalog (fs_resolver state) tenant
       (case cr_catalog request of Some c \<Rightarrow> c | None \<Rightarrow> DEFAULT_CATALOG)) Feed_Not_Found) (\<lambda>catalog.
     and_then (ok_or (cr_collection request) Feed_Not_Found) (\<lambda>cid.
     and_then (ok_or (rv_resolve_collection (fs_resolver state) catalog cid) Feed_Not_Found) (\<lambda>collection.
       Inr (tenant, catalog, collection)))))"

definition list_changes ::
  "('x, 'd, 'f, 's) feed_state \<Rightarrow> changes_request \<Rightarrow> 's \<Rightarrow> (feed_error + changes_response) \<times> 's" where
  "list_changes state request s =
     (case resolve_feed_collection state request of
        Inl e \<Rightarrow> (Inl e, s)
      | Inr (tenant, catalog, collection) \<Rightarrow>
          (case fs_outbox state tenant catalog collection of
             Inl e \<Rightarrow> (Inl e, s)
           | Inr (decl, outbox) \<Rightarrow>
               (case authorize_feed_lane state (extract_credential (cr_authorization request)) tenant catalog collection s of
                  (Inl e, s) \<Rightarrow> (Inl e, s)
                | (Inr _, s) \<Rightarrow>
                    (and_then (parse_bounded_limit (cq_limit (cr_query request)) (fs_default_page_size state) (fs_max_page_size state))
                       (\<lambda>limit.
                     and_then (changes_page (collection_external_id decl) outbox (cq_since (cr_query request)) limit) (\<lambda>page.
                       Inr \<lparr>ch_self = changes_href (cr_path request) (cr_query request) None,
                            ch_next = map_option (\<lambda>t. changes_href (cr_path request) (cr_query request) (Some t)) (fp_next page),
                            ch_changes = fp_entries page\<rparr>)), s))))"

section \<open>Tokens and links\<close>

lemma parse_show_nat: "parse_digits (show_nat n) = Some n"
  using parse_padded [of 0 n] by (simp add: padded_def)

lemma decode_encode: "n \<le> U64_MAX \<Longrightarrow> decode_cursor (encode_cursor n) = Inr n"
  using parse_unsigned_padded [of n U64_MAX 0] by (simp add: decode_cursor_def encode_cursor_def padded_def)

lemma percent_encode_Cons:
  "percent_encode (c # cs) = (if unreserved c then [c] else [CHR ''%'', hex_upper (of_char c div 16), hex_upper (of_char c mod 16)])
     @ percent_encode cs"
  by (simp add: percent_encode_def)

section \<open>Following the links\<close>

text \<open>
  A client that asks with one limit and follows the \<open>next\<close> token, a view of the outbox per request. The second
  component is the request that was answered with a page without a token, if one was: the feed reported that
  nothing more is there.
\<close>

fun follow_feed ::
  "string \<Rightarrow> nat \<Rightarrow> ('d, 'x) stamped_scheme list list \<Rightarrow> string option \<Rightarrow> feed_entry list \<times> nat option" where
  "follow_feed collection limit [] since = ([], None)"
| "follow_feed collection limit (outbox # outboxes) since =
     (case changes_page collection outbox since limit of
        Inl _ \<Rightarrow> ([], None)
      | Inr page \<Rightarrow>
          (case fp_next page of
             None \<Rightarrow> (fp_entries page, Some 0)
           | Some token \<Rightarrow>
               (let (entries, last_page) = follow_feed collection limit outboxes (Some token)
                in (fp_entries page @ entries, map_option Suc last_page))))"

text \<open>
  What a request sees of the commits: those up to its time that are not pruned. \<open>committed\<close> and \<open>pruned\<close>
  count commits from the first.
\<close>

definition view_at :: "'o list \<Rightarrow> nat \<times> nat \<Rightarrow> 'o list" where
  "view_at commits visit = drop (snd visit) (take (fst visit) commits)"

lemma ascending_view: "ascending commits \<Longrightarrow> ascending (view_at commits visit)"
  by (simp add: ascending_def view_at_def sorted_wrt_take sorted_wrt_drop)

lemma set_view: "set (view_at commits visit) \<subseteq> set commits"
  unfolding view_at_def by (meson in_set_dropD in_set_takeD subsetI)

lemma view_has:
  assumes "o' \<in> set (take (fst visit) commits)" "o' \<notin> set (take (snd visit) commits)"
  shows "o' \<in> set (view_at commits visit)"
proof -
  have "o' \<notin> set (take (snd visit) (take (fst visit) commits))"
    using assms(2) by (metis in_set_takeD take_take min.commute)
  then show ?thesis using assms(1) unfolding view_at_def by (metis Un_iff append_take_drop_id set_append)
qed

lemma view_misses:
  assumes "ascending commits" "o' \<in> set commits" "o' \<notin> set (take (snd visit) commits)"
  shows "o' \<in> set (view_at commits visit) \<or> (\<forall>p \<in> set (view_at commits visit). ob_sequence p < ob_sequence o')"
proof (cases "o' \<in> set (take (fst visit) commits)")
  case True
  from view_has [OF this assms(3)] show ?thesis by (rule disjI1)
next
  case False
  with assms(2) have "o' \<in> set (drop (fst visit) commits)" by (metis Un_iff append_take_drop_id set_append)
  then have "\<forall>p \<in> set (take (fst visit) commits). ob_sequence p < ob_sequence o'"
    using assms(1) unfolding ascending_def by (metis append_take_drop_id sorted_wrt_append)
  then show ?thesis unfolding view_at_def by (meson in_set_dropD)
qed

text \<open>What a client has read so far when it stands at \<open>cursor\<close>.\<close>

definition read_between :: "('d, 'x) obligation_scheme list \<Rightarrow> nat \<Rightarrow> nat \<Rightarrow> ('d, 'x) obligation_scheme list \<Rightarrow> bool" where
  "read_between commits start cursor seen \<longleftrightarrow>
     ascending seen \<and> set seen = {o' \<in> set commits. start < ob_sequence o' \<and> ob_sequence o' \<le> cursor} \<and> start \<le> cursor"

lemma read_between_step:
  fixes commits :: "('d, 'x) obligation_scheme list" and n :: nat
  assumes "ascending commits" "read_between commits start cursor seen"
    and "\<forall>o' \<in> set (take (snd visit) commits). ob_sequence o' \<le> start"
  defines "batch \<equiv> read_after (view_at commits visit) cursor n"
  assumes "batch \<noteq> []"
  shows "read_between commits start (ob_sequence (last batch)) (seen @ batch)"
proof -
  have s: "ascending seen" "set seen = {o' \<in> set commits. start < ob_sequence o' \<and> ob_sequence o' \<le> cursor}" "start \<le> cursor"
    using assms(2) by (simp_all add: read_between_def)
  have "o' \<in> set (view_at commits visit) \<or> (\<forall>p \<in> set (view_at commits visit). ob_sequence p < ob_sequence o')"
    if "o' \<in> set commits" "cursor < ob_sequence o'" for o'
    using view_misses [OF assms(1) that(1)] assms(3) s(3) that(2) by fastforce
  then show ?thesis
    using outbox.extend_reading [OF ascending_distinct [OF ascending_view [OF assms(1)]] assms(5) [unfolded batch_def] s(3)
      s(1) [unfolded ascending_def] s(2) set_view] s(3)
    unfolding read_between_def ascending_def batch_def by (meson less_imp_le le_trans)
qed

lemma follow_feed_reads:
  fixes commits :: "('d, 'x) stamped_scheme list"
  assumes "ascending commits" "\<forall>o' \<in> set commits. ob_sequence o' \<le> U64_MAX" "0 < limit"
    and "\<forall>visit \<in> set visits. \<forall>o' \<in> set (take (snd visit) commits). ob_sequence o' \<le> start"
    and "read_between commits start cursor seen" "cursor \<le> U64_MAX"
    and "follow_feed collection limit (map (view_at commits) visits) (Some (encode_cursor cursor)) = (entries, last_page)"
  shows "\<exists>more cursor'. entries = map (from_obligation collection) more \<and> read_between commits start cursor' (seen @ more)
    \<and> (case last_page of
          Some i \<Rightarrow> i < length visits
            \<and> (\<forall>o' \<in> set (take (fst (visits ! i)) commits). start < ob_sequence o' \<longrightarrow> o' \<in> set (seen @ more))
        | None \<Rightarrow> length more = limit * length visits)"
  using assms(4-)
proof (induction visits arbitrary: cursor seen entries last_page)
  case Nil
  then show ?case by auto
next
  case (Cons visit visits)
  let ?view = "view_at commits visit"
  let ?batch = "read_after ?view cursor limit"
  have page: "changes_page collection ?view (Some (encode_cursor cursor)) limit = Inr (build_page collection ?batch limit)"
    using Cons.prems(3) by (simp add: changes_page_def decode_encode)
  have pruned: "\<forall>o' \<in> set (take (snd visit) commits). ob_sequence o' \<le> start" using Cons.prems(1) by simp
  have seen: "set seen = {o' \<in> set commits. start < ob_sequence o' \<and> ob_sequence o' \<le> cursor}" "start \<le> cursor"
    using Cons.prems(2) by (simp_all add: read_between_def)
  have step: "?batch \<noteq> [] \<Longrightarrow> read_between commits start (ob_sequence (last ?batch)) (seen @ ?batch)"
    by (rule read_between_step [OF assms(1) Cons.prems(2) pruned])
  show ?case
  proof (cases "length ?batch < limit")
    case True
    then have next_page: "fp_next (build_page collection ?batch limit) = None" by (simp add: build_page_def)
    then have result: "entries = map (from_obligation collection) ?batch" "last_page = Some 0"
      using Cons.prems(4) by (simp_all add: page build_page_def)
    have "\<exists>cursor'. read_between commits start cursor' (seen @ ?batch)"
      using step Cons.prems(2) by (cases "?batch = []") auto
    moreover have "o' \<in> set (seen @ ?batch)" if o': "o' \<in> set (take (fst visit) commits)" "start < ob_sequence o'" for o'
    proof (cases "ob_sequence o' \<le> cursor")
      case True
      then show ?thesis using o' seen(1) by (auto dest: in_set_takeD)
    next
      case False
      have "o' \<in> set ?view" using o' pruned by (intro view_has) auto
      then show ?thesis
        using False outbox.read_short [OF ascending_distinct [OF ascending_view [OF assms(1)]] \<open>length ?batch < limit\<close>] by simp
    qed
    ultimately show ?thesis using result by auto
  next
    case False
    then have full: "length ?batch = limit" "?batch \<noteq> []" using outbox.read_limit [of ?view cursor limit] assms(3) by auto
    let ?cursor = "ob_sequence (last ?batch)"
    have "fp_next (build_page collection ?batch limit) = Some (encode_cursor ?cursor)" using full by (simp add: build_page_def)
    then obtain rest later where rest: "entries = map (from_obligation collection) ?batch @ rest" "last_page = map_option Suc later"
      "follow_feed collection limit (map (view_at commits) visits) (Some (encode_cursor ?cursor)) = (rest, later)"
      using Cons.prems(4) by (auto simp: page build_page_def split: prod.splits)
    have "last ?batch \<in> set commits"
      using last_in_set [OF full(2)] outbox.read_sound [of "last ?batch" ?view cursor limit] set_view [of commits visit] by blast
    then have "?cursor \<le> U64_MAX" using assms(2) by blast
    from Cons.IH [OF _ step [OF full(2)] this rest(3)] Cons.prems(1)
    obtain more cursor' where more: "rest = map (from_obligation collection) more"
      "read_between commits start cursor' ((seen @ ?batch) @ more)"
      "case later of
          Some i \<Rightarrow> i < length visits
            \<and> (\<forall>o' \<in> set (take (fst (visits ! i)) commits). start < ob_sequence o' \<longrightarrow> o' \<in> set ((seen @ ?batch) @ more))
        | None \<Rightarrow> length more = limit * length visits" by auto
    show ?thesis
      by (rule exI [of _ "?batch @ more"], rule exI [of _ cursor'])
        (use rest(1,2) more full(1) in \<open>auto split: option.splits\<close>)
  qed
qed

text \<open>
  C28. A client that follows the \<open>next\<close> links of the change feed from any cursor is given, in order and exactly
  once, every change committed after it up to where it has read, whatever is committed between its requests,
  as long as commits come in the order of their sequence numbers and nothing after its first cursor is
  pruned. If a request is answered with a page without a link, the client has been given everything committed by
  that very request; if none is, every page was full.\<close>

theorem next_links_read_the_feed:
  fixes commits :: "('d, 'x) stamped_scheme list"
  assumes "ascending commits" "\<forall>o' \<in> set commits. ob_sequence o' \<le> U64_MAX" "0 < limit" "start \<le> U64_MAX"
    and "\<forall>visit \<in> set visits. \<forall>o' \<in> set (take (snd visit) commits). ob_sequence o' \<le> start"
    and "follow_feed collection limit (map (view_at commits) visits) (Some (encode_cursor start)) = (entries, last_page)"
  shows "\<exists>seen cursor. entries = map (from_obligation collection) seen \<and> ascending seen
    \<and> set seen = {o' \<in> set commits. start < ob_sequence o' \<and> ob_sequence o' \<le> cursor}
    \<and> (case last_page of
          Some i \<Rightarrow> i < length visits
            \<and> (\<forall>o' \<in> set (take (fst (visits ! i)) commits). start < ob_sequence o' \<longrightarrow> o' \<in> set seen)
        | None \<Rightarrow> length seen = limit * length visits)"
proof -
  have "read_between commits start start []" by (simp add: read_between_def ascending_def)
  from follow_feed_reads [OF assms(1-3,5) this assms(4,6)] show ?thesis unfolding read_between_def append_Nil by blast
qed

definition sample_stamped :: "nat \<Rightarrow> unit stamped" where
  "sample_stamped n = \<lparr>ob_sequence = n, ob_feature_id = ''f'', ob_kind = Delete, ob_version = n, ob_committed_at = 0\<rparr>"

theorem next_links_read_the_feed_witness:
  "\<exists>seen cursor. fst (follow_feed ''c'' 1 [[sample_stamped 2], [sample_stamped 2]] (Some (encode_cursor 1)))
      = map (from_obligation ''c'') seen
    \<and> set seen = {o' \<in> set [sample_stamped 1, sample_stamped 2]. 1 < ob_sequence o' \<and> ob_sequence o' \<le> cursor} \<and> sample_stamped 2 \<in> set seen"
proof -
  let ?commits = "[sample_stamped 1, sample_stamped 2]"
  let ?visits = "[(2, 1), (2, 1)] :: (nat \<times> nat) list"
  have views: "map (view_at ?commits) ?visits = [[sample_stamped 2], [sample_stamped 2]]" by (simp add: view_at_def)
  obtain entries last_page where run: "follow_feed ''c'' 1 (map (view_at ?commits) ?visits) (Some (encode_cursor 1)) = (entries, last_page)"
    by (cases "follow_feed ''c'' 1 (map (view_at ?commits) ?visits) (Some (encode_cursor 1))")
  then have result: "fst (follow_feed ''c'' 1 [[sample_stamped 2], [sample_stamped 2]] (Some (encode_cursor 1))) = entries"
    unfolding views by simp
  have "ascending ?commits" "\<forall>o' \<in> set ?commits. ob_sequence o' \<le> U64_MAX" "(1 :: nat) \<le> U64_MAX"
    "\<forall>visit \<in> set ?visits. \<forall>o' \<in> set (take (snd visit) ?commits). ob_sequence o' \<le> 1"
    by (simp_all add: ascending_def sample_stamped_def U64_MAX_def)
  from next_links_read_the_feed [OF this(1,2) zero_less_one this(3,4) run]
  obtain seen cursor where seen: "entries = map (from_obligation ''c'') seen"
    "set seen = {o' \<in> set ?commits. 1 < ob_sequence o' \<and> ob_sequence o' \<le> cursor}"
    and end_of_feed: "case last_page of
        Some i \<Rightarrow> i < length ?visits \<and> (\<forall>o' \<in> set (take (fst (?visits ! i)) ?commits). 1 < ob_sequence o' \<longrightarrow> o' \<in> set seen)
      | None \<Rightarrow> length seen = 1 * length ?visits" by blast
  moreover have "sample_stamped 2 \<in> set seen"
  proof (cases last_page)
    case (Some i)
    with end_of_feed have "i = 0 \<or> i = 1" by auto
    with Some end_of_feed show ?thesis by (auto simp: sample_stamped_def)
  next
    case None
    with end_of_feed have "seen \<noteq> []" by auto
    then have "hd seen \<in> set seen" by simp
    with seen(2) show ?thesis by (auto simp: sample_stamped_def)
  qed
  ultimately show ?thesis unfolding result by blast
qed

text \<open>
  \<open>retention.rs\<close> lists the change feed among the registered consumers; none is ever registered. Where nothing
  else reads the outbox, the floor is its high water, and a client behind it is told that nothing is there.
\<close>

lemma pruning_skips_the_feed:
  "changes_page ''c'' (prune_before (rf_floor (compute_floor (primary_high_water [sample_stamped 1]) [])) 9 [sample_stamped 1])
     (Some (encode_cursor 0)) 5 = Inr \<lparr>fp_entries = [], fp_next = None\<rparr>"
proof -
  have "prune_before (rf_floor (compute_floor (primary_high_water [sample_stamped 1]) [])) 9 [sample_stamped 1] = []"
    by (simp add: prune_before_def compute_floor_def primary_high_water_def)
  then show ?thesis using decode_encode [of 0] by (simp add: changes_page_def build_page_def read_after_def)
qed

section \<open>Who is answered\<close>

text \<open>The feed takes no row filter: what it answers, a grant without one gives, or the collection is shared.\<close>

lemma feed_decision_is_unfiltered:
  "authorize_resource parse policy resource subject False = Inr (Allow_Rows f) \<Longrightarrow> f = None"
  unfolding authorize_resource_def Let_def and_then_def
  by (cases "fold_each (scan_role parse resource subject (resolve_role_table policy (rs_tenant_id resource)))
      (held_roles_in subject (rs_tenant_id resource)) ([], False)") (simp_all split: if_splits prod.splits list.splits)

lemma feed_answers_the_allowed:
  assumes "list_changes state request s = (Inr response, s')" "fs_authorizer state = Some subject_of"
    and "resolve_feed_collection state request = Inr (tenant, catalog, collection)"
  shows "authorize_resource (fs_parse state) (fs_policy state) (feed_resource state tenant catalog collection)
      (subject_of (extract_credential (cr_authorization request))) False = Inr (Allow_Rows None)"
    and "\<exists>decl outbox limit page. fs_outbox state tenant catalog collection = Inr (decl, outbox)
      \<and> changes_page (collection_external_id decl) outbox (cq_since (cr_query request)) limit = Inr page
      \<and> ch_changes response = fp_entries page"
proof -
  from assms obtain decl outbox where outbox: "fs_outbox state tenant catalog collection = Inr (decl, outbox)"
    by (auto simp: list_changes_def split: sum.splits)
  with assms obtain s'' where auth: "authorize_feed_lane state (extract_credential (cr_authorization request)) tenant catalog collection s
      = (Inr (), s'')" by (auto simp: list_changes_def split: prod.splits sum.splits)
  with assms(2) show "authorize_resource (fs_parse state) (fs_policy state) (feed_resource state tenant catalog collection)
      (subject_of (extract_credential (cr_authorization request))) False = Inr (Allow_Rows None)"
    by (auto simp: authorize_feed_lane_def Let_def dest: feed_decision_is_unfiltered split: sum.splits policy_decision.splits prod.splits)
  show "\<exists>decl outbox limit page. fs_outbox state tenant catalog collection = Inr (decl, outbox)
      \<and> changes_page (collection_external_id decl) outbox (cq_since (cr_query request)) limit = Inr page
      \<and> ch_changes response = fp_entries page"
    using assms(1,3) by (auto simp: list_changes_def outbox auth and_then_Inr_iff) blast
qed

text \<open>A value in a link reads back as itself.\<close>

lemma hex_upper_digit: "n < 16 \<Longrightarrow> hex_digit (hex_upper n) = Some n"
  by (auto simp: hex_digit_def hex_upper_def Let_def)

lemma percent_decode_encode: "percent_decode (percent_encode s) = s"
proof (induction s)
  case (Cons c s)
  have small: "(of_char c :: nat) div 16 < 16" using nat_of_char_less_256 [of c] by (intro less_mult_imp_div_less) simp
  show ?case
  proof (cases "unreserved c")
    case True
    then have "c \<noteq> CHR ''%''" by (auto simp: unreserved_def Let_def)
    with True Cons show ?thesis by (simp add: percent_encode_Cons)
  next
    case False
    have pair: "hex_pair (hex_upper (of_char c div 16) # hex_upper (of_char c mod 16) # t) = Some c" for t
      using small by (simp add: hex_pair_def hex_upper_digit)
    from False Cons show ?thesis by (simp add: percent_encode_Cons pair)
  qed
qed (simp add: percent_encode_def)

end
