(* ===== verification/Webhooks.thy ===== *)
theory Webhooks
  imports Change_Feed
begin

text \<open>
  Webhook delivery: \<open>crates/tellurion-core/src/webhooks.rs\<close> (retries, the dead-letter ring, the runtime of a
  subscription, one drain pass), the rebinding of \<open>tellurion-server/src/webhook_consumer.rs\<close> and the page of
  \<open>webhook_admin.rs\<close>. Whether an attempt reaches the endpoint is an argument; signing and metrics have no
  effect here. Ordinals and durations are natural numbers: an ordinal counts the dead letters of one process,
  and the code stops at \<open>u64::MAX\<close>.
\<close>

section \<open>Retries\<close>

record webhook_retry_policy =
  rp_max_attempts :: nat
  rp_base_backoff_ms :: nat
  rp_max_backoff_ms :: nat

definition backoff_delay :: "nat \<Rightarrow> nat \<Rightarrow> nat \<Rightarrow> nat" where
  "backoff_delay attempt base_ms max_ms =
     (let shift = min (attempt - 1) 32; scaled = min (base_ms * 2 ^ shift) U64_MAX in min scaled max_ms)"

record dead_letter_entry =
  de_entry :: feed_entry
  de_attempts :: nat
  de_last_error :: string
  de_failed_at :: string

text \<open>The loop over the attempts; the result with the pauses taken.\<close>

fun try_deliver :: "webhook_retry_policy \<Rightarrow> (nat \<Rightarrow> bool) \<Rightarrow> nat \<Rightarrow> nat \<Rightarrow> nat \<Rightarrow> bool \<times> nat list" where
  "try_deliver retry deliver max_attempts attempt 0 = (False, [])"
| "try_deliver retry deliver max_attempts attempt (Suc left) =
     (if deliver attempt then (True, [])
      else if attempt < max_attempts
      then apsnd (Cons (backoff_delay attempt (rp_base_backoff_ms retry) (rp_max_backoff_ms retry)))
             (try_deliver retry deliver max_attempts (attempt + 1) left)
      else (False, []))"

definition attempt_error :: "nat \<Rightarrow> nat \<Rightarrow> string" where
  "attempt_error attempt max_attempts =
     ''delivery attempt '' @ show_nat attempt @ ''/'' @ show_nat max_attempts @ '' failed''"

definition deliver_with_retries ::
  "feed_entry \<Rightarrow> (nat \<Rightarrow> bool) \<Rightarrow> webhook_retry_policy \<Rightarrow> int \<Rightarrow> (dead_letter_entry + unit) \<times> nat list" where
  "deliver_with_retries entry deliver retry now =
     (let max_attempts = max (rp_max_attempts retry) 1 in
      case try_deliver retry deliver max_attempts 1 max_attempts of
        (True, pauses) \<Rightarrow> (Inr (), pauses)
      | (False, pauses) \<Rightarrow>
          (Inl \<lparr>de_entry = entry, de_attempts = max_attempts, de_last_error = attempt_error max_attempts max_attempts,
                de_failed_at = format_rfc3339_millis now\<rparr>, pauses))"

section \<open>The dead-letter ring\<close>

record dead_letter_ring =
  dr_generation :: string
  dr_next_ordinal :: nat
  dr_entries :: "(nat \<times> dead_letter_entry) list"
  dr_capacity :: nat

definition ring_new :: "string \<Rightarrow> nat \<Rightarrow> dead_letter_ring" where
  "ring_new generation capacity =
     \<lparr>dr_generation = generation, dr_next_ordinal = 0, dr_entries = [], dr_capacity = max capacity 1\<rparr>"

definition ring_push :: "dead_letter_entry \<Rightarrow> dead_letter_ring \<Rightarrow> dead_letter_ring" where
  "ring_push entry ring =
     (let ordinal = dr_next_ordinal ring + 1;
          kept = (if dr_capacity ring \<le> length (dr_entries ring) then tl (dr_entries ring) else dr_entries ring)
      in ring\<lparr>dr_next_ordinal := ordinal, dr_entries := kept @ [(ordinal, entry)]\<rparr>)"

datatype dead_cursor_error = Not_A_Cursor | Runtime_Changed

definition ring_encode_cursor :: "dead_letter_ring \<Rightarrow> nat \<Rightarrow> string" where
  "ring_encode_cursor ring ordinal = dr_generation ring @ '':'' @ show_nat ordinal"

definition ring_decode_cursor :: "dead_letter_ring \<Rightarrow> string \<Rightarrow> dead_cursor_error + nat" where
  "ring_decode_cursor ring cursor =
     (case split_once CHR '':'' cursor of
        None \<Rightarrow> Inl Not_A_Cursor
      | Some (generation, ordinal) \<Rightarrow>
          if generation \<noteq> dr_generation ring then Inl Runtime_Changed
          else ok_or (parse_unsigned U64_MAX ordinal) Not_A_Cursor)"

definition ring_page ::
  "dead_letter_ring \<Rightarrow> string option \<Rightarrow> nat \<Rightarrow> dead_cursor_error + dead_letter_entry list \<times> string option" where
  "ring_page ring since limit =
     and_then (case since of Some cursor \<Rightarrow> ring_decode_cursor ring cursor | None \<Rightarrow> Inr 0) (\<lambda>after.
       let matched = take (limit + 1) (filter (\<lambda>(ordinal, _). after < ordinal) (dr_entries ring));
           has_more = limit < length matched;
           page = take limit matched
       in Inr (map snd page, if has_more \<and> page \<noteq> [] then Some (ring_encode_cursor ring (fst (last page))) else None))"

section \<open>Subscriptions\<close>

record webhook_runtime =
  wr_id :: string
  wr_url :: string
  wr_secret :: string
  wr_operations :: "feed_operation list"
  wr_cursors :: "string \<Rightarrow> nat option"
  wr_dead_letters :: dead_letter_ring

definition runtime_new ::
  "string \<Rightarrow> string \<Rightarrow> string \<Rightarrow> feed_operation list \<Rightarrow> string list \<Rightarrow> dead_letter_ring \<Rightarrow> webhook_runtime" where
  "runtime_new i url secret operations collection_ids ring =
     \<lparr>wr_id = i, wr_url = url, wr_secret = secret, wr_operations = operations,
      wr_cursors = (\<lambda>c. if c \<in> set collection_ids then Some 0 else None), wr_dead_letters = ring\<rparr>"

definition wr_cursor :: "webhook_runtime \<Rightarrow> string \<Rightarrow> nat" where
  "wr_cursor runtime collection_id = (case wr_cursors runtime collection_id of Some n \<Rightarrow> n | None \<Rightarrow> 0)"

definition advance_cursor :: "string \<Rightarrow> nat \<Rightarrow> webhook_runtime \<Rightarrow> webhook_runtime" where
  "advance_cursor collection_id sequence runtime =
     (if wr_cursors runtime collection_id = None then runtime
      else runtime\<lparr>wr_cursors := (wr_cursors runtime)(collection_id \<mapsto> sequence)\<rparr>)"

definition ensure_collection :: "string \<Rightarrow> nat \<Rightarrow> webhook_runtime \<Rightarrow> webhook_runtime" where
  "ensure_collection collection_id initial runtime =
     (if wr_cursors runtime collection_id = None
      then runtime\<lparr>wr_cursors := (wr_cursors runtime)(collection_id \<mapsto> initial)\<rparr> else runtime)"

definition remove_collection :: "string \<Rightarrow> webhook_runtime \<Rightarrow> webhook_runtime" where
  "remove_collection collection_id runtime = runtime\<lparr>wr_cursors := (wr_cursors runtime)(collection_id := None)\<rparr>"

definition is_registered :: "webhook_runtime \<Rightarrow> string \<Rightarrow> bool" where
  "is_registered runtime collection_id \<longleftrightarrow> wr_cursors runtime collection_id \<noteq> None"

definition accepts_operation :: "feed_operation list \<Rightarrow> feed_operation \<Rightarrow> bool" where
  "accepts_operation operations operation \<longleftrightarrow> operations = [] \<or> operation \<in> set operations"

definition record_dead_letter :: "dead_letter_entry \<Rightarrow> webhook_runtime \<Rightarrow> webhook_runtime" where
  "record_dead_letter entry runtime = runtime\<lparr>wr_dead_letters := ring_push entry (wr_dead_letters runtime)\<rparr>"

definition dead_letter_count :: "webhook_runtime \<Rightarrow> nat" where
  "dead_letter_count runtime = length (dr_entries (wr_dead_letters runtime))"

definition webhook_lag :: "webhook_runtime \<Rightarrow> string \<Rightarrow> nat \<Rightarrow> nat option" where
  "webhook_lag runtime collection_id high_water = map_option (\<lambda>cursor. high_water - cursor) (wr_cursors runtime collection_id)"

section \<open>One pass\<close>

text \<open>
  What a pass does with the obligations it read: the entries the endpoint took, the dead letters, and the
  runtime after it. \<open>deliver\<close> is the outcome of an attempt, \<open>now\<close> the clock when the last attempt failed.
\<close>

fun deliver_all ::
  "string \<Rightarrow> webhook_retry_policy \<Rightarrow> (feed_entry \<Rightarrow> nat \<Rightarrow> bool) \<Rightarrow> (feed_entry \<Rightarrow> int) \<Rightarrow>
   ('d, 'x) stamped_scheme list \<Rightarrow> webhook_runtime \<Rightarrow> feed_entry list \<times> dead_letter_entry list \<times> webhook_runtime" where
  "deliver_all collection_id retry deliver now [] runtime = ([], [], runtime)"
| "deliver_all collection_id retry deliver now (o' # obligations) runtime =
     (let entry = from_obligation collection_id o' in
      if \<not> accepts_operation (wr_operations runtime) (fe_operation entry)
      then deliver_all collection_id retry deliver now obligations runtime
      else (case deliver_with_retries entry (deliver entry) retry (now entry) of
          (Inr _, _) \<Rightarrow> apfst (Cons entry) (deliver_all collection_id retry deliver now obligations runtime)
        | (Inl dead, _) \<Rightarrow>
            apsnd (apfst (Cons dead)) (deliver_all collection_id retry deliver now obligations (record_dead_letter dead runtime))))"

definition webhook_drain_once ::
  "string \<Rightarrow> webhook_retry_policy \<Rightarrow> (feed_entry \<Rightarrow> nat \<Rightarrow> bool) \<Rightarrow> (feed_entry \<Rightarrow> int) \<Rightarrow> nat \<Rightarrow>
   ('d, 'x) stamped_scheme list \<Rightarrow> webhook_runtime \<Rightarrow> nat \<times> feed_entry list \<times> dead_letter_entry list \<times> webhook_runtime" where
  "webhook_drain_once collection_id retry deliver now batch_size outbox runtime =
     (let obligations = read_after outbox (wr_cursor runtime collection_id) batch_size in
      if obligations = [] then (0, [], [], runtime)
      else (case deliver_all collection_id retry deliver now obligations runtime of
         (delivered, dead, runtime) \<Rightarrow>
           (length obligations, delivered, dead,
            advance_cursor collection_id (foldr (\<lambda>o'. max (ob_sequence o')) obligations 0) runtime)))"

section \<open>Rebinding\<close>

record webhook_decl =
  whd_id :: string
  whd_url :: string
  whd_scope :: grant_scope
  whd_operations :: "feed_operation list"
  whd_secret_env :: string
  whd_enabled :: bool

text \<open>
  What a replica keeps of a subscription between two configurations. An identity (\<open>'i\<close>) is what has to be
  the same of tenant, collection and write storage for a cursor to be carried over.
\<close>

record 'i managed_subscription =
  ms_declaration :: webhook_decl
  ms_dead_letter_capacity :: nat
  ms_runtime :: webhook_runtime
  ms_pair_identities :: "string \<Rightarrow> 'i option"

definition reconcile_cursor ::
  "webhook_runtime option \<Rightarrow> string \<Rightarrow> bool \<Rightarrow> webhook_runtime \<Rightarrow> webhook_runtime" where
  "reconcile_cursor previous_runtime collection_id identity_unchanged runtime =
     (let runtime = (if \<not> identity_unchanged \<and> is_registered runtime collection_id
                     then remove_collection collection_id runtime else runtime) in
      if is_registered runtime collection_id then runtime
      else ensure_collection collection_id
        (case previous_runtime of
           Some previous \<Rightarrow> if identity_unchanged \<and> is_registered previous collection_id
             then wr_cursor previous collection_id else 0
         | None \<Rightarrow> 0) runtime)"

text \<open>
  \<open>collections\<close> are the collections of the configuration with their catalog and the identity of the pair,
  \<open>None\<close> where the catalog is unknown; \<open>generation\<close> is the identifier a new ring is given.
\<close>

definition rebind_subscription ::
  "webhook_decl \<Rightarrow> string \<Rightarrow> nat \<Rightarrow> string \<Rightarrow> (string \<times> string \<times> 'i option) list \<Rightarrow>
   'i managed_subscription option \<Rightarrow> 'i managed_subscription" where
  "rebind_subscription decl secret capacity generation collections existing =
     (let matched = filter (\<lambda>(c, catalog, _). grant_scope_matches (whd_scope decl) catalog c) collections;
          previous_runtime = map_option ms_runtime existing;
          identities = (case existing of Some e \<Rightarrow> ms_pair_identities e | None \<Rightarrow> (\<lambda>_. None));
          fresh = runtime_new (whd_id decl) (whd_url decl) secret (whd_operations decl) [] (ring_new generation capacity);
          runtime = (case existing of
              Some e \<Rightarrow> if ms_declaration e = decl \<and> ms_dead_letter_capacity e = capacity then ms_runtime e else fresh
            | None \<Rightarrow> fresh);
          runtime = runtime\<lparr>wr_cursors := (\<lambda>c. if c \<in> set (map fst matched) then wr_cursors runtime c else None)\<rparr>;
          known = List.map_filter (\<lambda>(c, _, i). map_option (Pair c) i) matched
      in \<lparr>ms_declaration = decl, ms_dead_letter_capacity = capacity,
          ms_runtime = fold (\<lambda>(c, i). reconcile_cursor previous_runtime c (identities c = Some i)) known runtime,
          ms_pair_identities = fold (\<lambda>(c, i) m. m(c \<mapsto> i)) known (\<lambda>_. None)\<rparr>)"

text \<open>All subscriptions of a configuration; \<open>secrets\<close> reads the environment.\<close>

definition rebind ::
  "bool \<Rightarrow> webhook_decl list \<Rightarrow> (string \<Rightarrow> string option) \<Rightarrow> nat \<Rightarrow> (string \<Rightarrow> string) \<Rightarrow>
   (string \<times> string \<times> 'i option) list \<Rightarrow> (string \<Rightarrow> 'i managed_subscription option) \<Rightarrow>
   string \<Rightarrow> 'i managed_subscription option" where
  "rebind enabled decls secrets capacity generation collections managed =
     (if \<not> enabled then (\<lambda>_. None)
      else snd (fold (\<lambda>decl (previous, subs).
          if \<not> whd_enabled decl then (previous, subs)
          else (case secrets (whd_secret_env decl) of
             None \<Rightarrow> (previous, subs)
           | Some secret \<Rightarrow>
               (previous(whd_id decl := None),
                subs(whd_id decl \<mapsto> rebind_subscription decl secret capacity (generation (whd_id decl)) collections
                  (previous (whd_id decl)))))) decls (managed, (\<lambda>_. None))))"

section \<open>The page of dead letters\<close>

datatype dead_letter_problem = Subscription_Not_Running string | Invalid_Page_Limit nat | Invalid_Dead_Cursor dead_cursor_error

definition list_dead_letters ::
  "(string \<Rightarrow> 'i managed_subscription option) \<Rightarrow> nat \<Rightarrow> nat \<Rightarrow> string \<Rightarrow> nat option \<Rightarrow> string option \<Rightarrow>
   dead_letter_problem + dead_letter_entry list \<times> string option" where
  "list_dead_letters registry default_page_size max_page_size subscription limit since =
     (case registry subscription of
        None \<Rightarrow> Inl (Subscription_Not_Running subscription)
      | Some managed \<Rightarrow>
          (let limit = (case limit of Some l \<Rightarrow> l | None \<Rightarrow> default_page_size) in
           if limit = 0 \<or> max_page_size < limit then Inl (Invalid_Page_Limit max_page_size)
           else map_err Invalid_Dead_Cursor (ring_page (wr_dead_letters (ms_runtime managed)) since limit)))"

section \<open>Backing off\<close>

text \<open>The pause doubles from the base, up to the cap, and never shrinks.\<close>

lemma backoff_bounds: "backoff_delay attempt base_ms max_ms \<le> max_ms"
  by (simp add: backoff_delay_def Let_def)

lemma backoff_mono: "a \<le> b \<Longrightarrow> backoff_delay a base_ms max_ms \<le> backoff_delay b base_ms max_ms"
proof -
  assume "a \<le> b"
  then have "base_ms * 2 ^ min (a - 1) 32 \<le> base_ms * 2 ^ min (b - 1) 32" by (intro mult_le_mono2 power_increasing) auto
  then show ?thesis unfolding backoff_delay_def Let_def by linarith
qed

lemma backoff_doubles:
  "1 \<le> attempt \<Longrightarrow> attempt \<le> 33 \<Longrightarrow> max_ms \<le> U64_MAX \<Longrightarrow> backoff_delay attempt base_ms max_ms = min (base_ms * 2 ^ (attempt - 1)) max_ms"
proof -
  assume "1 \<le> attempt" "attempt \<le> 33" "max_ms \<le> U64_MAX"
  then have "min (attempt - 1) 32 = attempt - 1" "min U64_MAX max_ms = max_ms" by simp_all
  then show ?thesis unfolding backoff_delay_def Let_def min.assoc by simp
qed

lemma try_deliver_result:
  "fst (try_deliver retry deliver (attempt + left - 1) attempt left) \<longleftrightarrow> (\<exists>k < left. deliver (attempt + k))"
proof (induction left arbitrary: attempt)
  case (Suc left)
  show ?case
  proof (cases "deliver attempt")
    case True
    then show ?thesis by (auto intro: exI [of _ 0])
  next
    case False
    then have "(\<exists>k < Suc left. deliver (attempt + k)) \<longleftrightarrow> (\<exists>k < left. deliver (attempt + 1 + k))"
      by (metis Suc_less_eq add.assoc add_0_right less_Suc_eq_0_disj plus_1_eq_Suc)
    moreover have "attempt + Suc left - 1 = attempt + 1 + left - 1" by simp
    ultimately show ?thesis using False Suc.IH [of "attempt + 1"] by (cases left) (auto simp: apsnd_def map_prod_def split: prod.splits)
  qed
qed simp

text \<open>A delivery succeeds when one of its attempts does, and takes at most one pause fewer than attempts.\<close>

lemma deliver_with_retries_result:
  "(\<exists>u. fst (deliver_with_retries entry deliver retry now) = Inr u) \<longleftrightarrow>
     (\<exists>k < max (rp_max_attempts retry) 1. deliver (1 + k))"
  using try_deliver_result [of retry deliver 1 "max (rp_max_attempts retry) 1"]
  by (auto simp: deliver_with_retries_def Let_def split: prod.splits bool.splits)

lemma pauses_bounded:
  "attempt + left = Suc m \<Longrightarrow> length (snd (try_deliver retry deliver m attempt left)) \<le> left - 1
    \<and> (\<forall>p \<in> set (snd (try_deliver retry deliver m attempt left)). p \<le> rp_max_backoff_ms retry)"
proof (induction left arbitrary: attempt)
  case (Suc left)
  then show ?case
    using Suc.IH [of "Suc attempt"] by (cases left) (auto simp: backoff_bounds apsnd_def map_prod_def split: prod.splits)
qed simp

end
