(* ===== verification/Webhook_Claims.thy ===== *)
theory Webhook_Claims
  imports Webhooks Index_Convergence
begin

text \<open>
  The replicas that deliver one subscription of one collection, their outbox with its retention, and what the
  endpoint has received, as a transition system; that no accepted change is lost; and the listing of dead letters.
\<close>

section \<open>The replicas of a subscription\<close>

record ('d, 'i) hook_world =
  hw_log :: "'d stamped list"
  hw_outbox :: "'d stamped list"
  hw_replicas :: "(nat \<times> 'i managed_subscription) list"
  hw_delivered :: "feed_entry list"
  hw_dead :: "feed_entry list"

text \<open>
  A pass may be cut off (\<open>Hook_Abort\<close>) after some obligations of its batch: rebinding aborts the delivery
  tasks and a process may die. A rebinding of a replica that holds nothing yet is its start.
\<close>

datatype ('d, 'i) hook_event =
    Hook_Commit "'d stamped"
  | Hook_Pass nat nat "feed_entry \<Rightarrow> nat \<Rightarrow> bool" "feed_entry \<Rightarrow> int"
  | Hook_Abort nat nat nat "feed_entry \<Rightarrow> nat \<Rightarrow> bool" "feed_entry \<Rightarrow> int"
  | Hook_Prune nat "(string \<times> nat) list" nat
  | Hook_Rebind nat webhook_decl string nat string "(string \<times> string \<times> 'i option) list"
  | Hook_Stop nat

definition empty_hook_world :: "('d, 'i) hook_world" where
  "empty_hook_world = \<lparr>hw_log = [], hw_outbox = [], hw_replicas = [], hw_delivered = [], hw_dead = []\<rparr>"

definition hook_floor :: "string \<Rightarrow> webhook_runtime \<Rightarrow> (string \<times> nat) list \<Rightarrow> ('d, 'x) obligation_scheme list \<Rightarrow> nat" where
  "hook_floor collection runtime consumers outbox =
     rf_floor (compute_floor (primary_high_water outbox) ((if is_registered runtime collection then [(''webhook:'' @ wr_id runtime, wr_cursor runtime collection)] else []) @ consumers))"

text \<open>The batch of a pass cut off after \<open>k\<close> obligations: dead letters stay recorded, the cursor does not move.\<close>

definition aborted_pass ::
  "string \<Rightarrow> webhook_retry_policy \<Rightarrow> (feed_entry \<Rightarrow> nat \<Rightarrow> bool) \<Rightarrow> (feed_entry \<Rightarrow> int) \<Rightarrow> nat \<Rightarrow> nat \<Rightarrow>
   ('d, 'x) stamped_scheme list \<Rightarrow> webhook_runtime \<Rightarrow> feed_entry list \<times> dead_letter_entry list \<times> webhook_runtime" where
  "aborted_pass collection retry deliver now batch_size k outbox runtime =
     deliver_all collection retry deliver now (take k (read_after outbox (wr_cursor runtime collection) batch_size)) runtime"

fun hook_step ::
  "string \<Rightarrow> webhook_retry_policy \<Rightarrow> ('d, 'i) hook_event \<Rightarrow> ('d, 'i) hook_world \<Rightarrow> ('d, 'i) hook_world option" where
  "hook_step c retry (Hook_Commit o') w = Some (w\<lparr>hw_log := hw_log w @ [o'], hw_outbox := hw_outbox w @ [o']\<rparr>)"
| "hook_step c retry (Hook_Pass r batch_size deliver now) w =
     map_option (\<lambda>m.
       (case webhook_drain_once c retry deliver now batch_size (hw_outbox w) (ms_runtime m) of
          (_, delivered, dead, runtime) \<Rightarrow>
            w\<lparr>hw_replicas := AList.update r (m\<lparr>ms_runtime := runtime\<rparr>) (hw_replicas w),
              hw_delivered := hw_delivered w @ delivered, hw_dead := hw_dead w @ map de_entry dead\<rparr>))
       (map_of (hw_replicas w) r)"
| "hook_step c retry (Hook_Abort r batch_size k deliver now) w =
     map_option (\<lambda>m.
       (case aborted_pass c retry deliver now batch_size k (hw_outbox w) (ms_runtime m) of
          (delivered, dead, runtime) \<Rightarrow>
            w\<lparr>hw_replicas := AList.update r (m\<lparr>ms_runtime := runtime\<rparr>) (hw_replicas w),
              hw_delivered := hw_delivered w @ delivered, hw_dead := hw_dead w @ map de_entry dead\<rparr>))
       (map_of (hw_replicas w) r)"
| "hook_step c retry (Hook_Prune r consumers batch_size) w =
     map_option (\<lambda>m. w\<lparr>hw_outbox := prune_before (hook_floor c (ms_runtime m) consumers (hw_outbox w)) batch_size (hw_outbox w)\<rparr>)
       (map_of (hw_replicas w) r)"
| "hook_step c retry (Hook_Rebind r decl secret capacity generation collections) w =
     Some (w\<lparr>hw_replicas := AList.update r
       (rebind_subscription decl secret capacity generation collections (map_of (hw_replicas w) r)) (hw_replicas w)\<rparr>)"
| "hook_step c retry (Hook_Stop r) w = Some (w\<lparr>hw_replicas := AList.delete r (hw_replicas w)\<rparr>)"

fun run_hooks ::
  "string \<Rightarrow> webhook_retry_policy \<Rightarrow> ('d, 'i) hook_event list \<Rightarrow> ('d, 'i) hook_world \<Rightarrow> ('d, 'i) hook_world option" where
  "run_hooks c retry [] w = Some w"
| "run_hooks c retry (e # es) w = Option.bind (hook_step c retry e w) (run_hooks c retry es)"

text \<open>
  Commits come in the order of their sequence numbers, every configuration declares the same operations, and
  a replica prunes only while it is subscribed (retention starts after the subscriptions are bound).
\<close>

definition hook_careful :: "string \<Rightarrow> feed_operation list \<Rightarrow> ('d, 'i) hook_event \<Rightarrow> ('d, 'i) hook_world \<Rightarrow> bool" where
  "hook_careful c operations e w =
     (case e of
        Hook_Commit o' \<Rightarrow> 0 < ob_sequence o' \<and> list_all (\<lambda>p. ob_sequence p < ob_sequence o') (hw_log w)
      | Hook_Prune r _ _ \<Rightarrow>
          (case map_of (hw_replicas w) r of Some m \<Rightarrow> is_registered (ms_runtime m) c | None \<Rightarrow> True)
      | Hook_Rebind _ decl _ _ _ _ \<Rightarrow> whd_operations decl = operations
      | _ \<Rightarrow> True)"

fun hooks_careful ::
  "string \<Rightarrow> webhook_retry_policy \<Rightarrow> feed_operation list \<Rightarrow> ('d, 'i) hook_event list \<Rightarrow> ('d, 'i) hook_world \<Rightarrow> bool" where
  "hooks_careful c retry operations [] w = True"
| "hooks_careful c retry operations (e # es) w =
     (hook_careful c operations e w
      \<and> (case hook_step c retry e w of Some w' \<Rightarrow> hooks_careful c retry operations es w' | None \<Rightarrow> True))"

section \<open>What a pass does\<close>

definition wanted :: "feed_operation list \<Rightarrow> 'd stamped \<Rightarrow> bool" where
  "wanted operations o' \<longleftrightarrow> accepts_operation operations (feed_operation_of (ob_kind o'))"

definition attended :: "string \<Rightarrow> ('d, 'i) hook_world \<Rightarrow> 'd stamped \<Rightarrow> bool" where
  "attended c w o' \<longleftrightarrow> from_obligation c o' \<in> set (hw_delivered w) \<or> from_obligation c o' \<in> set (hw_dead w)"

lemma dead_letter_is_the_entry: "deliver_with_retries entry deliver retry now = (Inl dead, pauses) \<Longrightarrow> de_entry dead = entry"
  by (auto simp: deliver_with_retries_def Let_def split: prod.splits bool.splits)

lemma record_dead_letter_keeps [simp]:
  "wr_operations (record_dead_letter dead runtime) = wr_operations runtime"
  "wr_cursors (record_dead_letter dead runtime) = wr_cursors runtime"
  by (simp_all add: record_dead_letter_def)

lemma deliver_all_attends:
  assumes "deliver_all c retry deliver now obligations runtime = (delivered, dead, runtime')"
  shows "wr_operations runtime' = wr_operations runtime" "wr_cursors runtime' = wr_cursors runtime"
    and "o' \<in> set obligations \<Longrightarrow> accepts_operation (wr_operations runtime) (feed_operation_of (ob_kind o')) \<Longrightarrow>
      from_obligation c o' \<in> set delivered \<union> de_entry ` set dead"
proof -
  have "wr_operations runtime' = wr_operations runtime \<and> wr_cursors runtime' = wr_cursors runtime
    \<and> (\<forall>o' \<in> set obligations. accepts_operation (wr_operations runtime) (feed_operation_of (ob_kind o')) \<longrightarrow>
      from_obligation c o' \<in> set delivered \<union> de_entry ` set dead)"
    using assms
  proof (induction obligations arbitrary: runtime delivered dead runtime')
    case (Cons p obligations)
    let ?entry = "from_obligation c p"
    have op: "fe_operation ?entry = feed_operation_of (ob_kind p)" by (simp add: from_obligation_def)
    show ?case
    proof (cases "accepts_operation (wr_operations runtime) (fe_operation ?entry)")
      case False
      then show ?thesis using Cons.prems Cons.IH [of runtime] by (simp add: op Let_def)
    next
      case True
      obtain result pauses where result: "deliver_with_retries ?entry (deliver ?entry) retry (now ?entry) = (result, pauses)"
        by (cases "deliver_with_retries ?entry (deliver ?entry) retry (now ?entry)")
      show ?thesis
      proof (cases result)
        case (Inl d)
        with result have d: "de_entry d = ?entry" by (simp add: dead_letter_is_the_entry)
        obtain ys zs rt where rest: "deliver_all c retry deliver now obligations (record_dead_letter d runtime) = (ys, zs, rt)"
          by (cases "deliver_all c retry deliver now obligations (record_dead_letter d runtime)")
        then show ?thesis using Cons.prems Cons.IH [OF rest] True d by (auto simp: Let_def result Inl)
      next
        case (Inr u)
        obtain ys zs rt where rest: "deliver_all c retry deliver now obligations runtime = (ys, zs, rt)"
          by (cases "deliver_all c retry deliver now obligations runtime")
        then show ?thesis using Cons.prems Cons.IH [OF rest] True by (auto simp: Let_def result Inr)
      qed
    qed
  qed simp
  then show "wr_operations runtime' = wr_operations runtime" "wr_cursors runtime' = wr_cursors runtime"
    "o' \<in> set obligations \<Longrightarrow> accepts_operation (wr_operations runtime) (feed_operation_of (ob_kind o')) \<Longrightarrow>
      from_obligation c o' \<in> set delivered \<union> de_entry ` set dead" by blast+
qed

lemma high_water_last:
  assumes "sorted_wrt (\<lambda>a b. ob_sequence a < ob_sequence b) os" "os \<noteq> []"
  shows "foldr (\<lambda>o'. max (ob_sequence o')) os 0 = ob_sequence (last os)"
  using assms
proof (induction os)
  case (Cons a os)
  show ?case
  proof (cases "os = []")
    case False
    then have le: "ob_sequence a \<le> ob_sequence (last os)" using Cons.prems last_in_set [OF False] by (simp add: less_imp_le)
    have "foldr (\<lambda>o'. max (ob_sequence o')) (a # os) 0 = max (ob_sequence a) (ob_sequence (last os))"
      using False Cons by simp
    then show ?thesis using False by (simp add: max_absorb2 [OF le])
  qed simp
qed simp

text \<open>A pass that reads something moves past it, also when nothing could be delivered.\<close>

lemma pass_advances:
  assumes "ascending outbox" "is_registered runtime c" "read_after outbox (wr_cursor runtime c) n \<noteq> []"
    and "webhook_drain_once c retry deliver now n outbox runtime = (read, delivered, dead, runtime')"
  shows "wr_cursor runtime' c = ob_sequence (last (read_after outbox (wr_cursor runtime c) n))"
    and "wr_cursor runtime c < wr_cursor runtime' c"
proof -
  let ?batch = "read_after outbox (wr_cursor runtime c) n"
  obtain rt where rt: "deliver_all c retry deliver now ?batch runtime = (delivered, dead, rt)"
    "runtime' = advance_cursor c (foldr (\<lambda>o'. max (ob_sequence o')) ?batch 0) rt"
    using assms(3,4) by (auto simp: webhook_drain_once_def Let_def split: prod.splits)
  have "foldr (\<lambda>o'. max (ob_sequence o')) ?batch 0 = ob_sequence (last ?batch)"
    by (rule high_water_last [OF outbox.read_ascending [OF ascending_distinct [OF assms(1)]] assms(3)])
  then show "wr_cursor runtime' c = ob_sequence (last ?batch)"
    using assms(2) deliver_all_attends(2) [OF rt(1)] by (auto simp: rt(2) advance_cursor_def wr_cursor_def is_registered_def)
  then show "wr_cursor runtime c < wr_cursor runtime' c"
    using outbox.read_sound [OF last_in_set [OF assms(3)]] by simp
qed

section \<open>The invariant\<close>

text \<open>Everything up to a cursor, and everything pruned, has been attended to.\<close>

definition runtime_ok :: "string \<Rightarrow> feed_operation list \<Rightarrow> ('d, 'i) hook_world \<Rightarrow> webhook_runtime \<Rightarrow> bool" where
  "runtime_ok c operations w runtime \<longleftrightarrow>
     wr_operations runtime = operations
     \<and> (wr_cursor runtime c = 0 \<or> (\<exists>p \<in> set (hw_log w). wr_cursor runtime c = ob_sequence p))
     \<and> (\<forall>o' \<in> set (hw_log w). ob_sequence o' \<le> wr_cursor runtime c \<longrightarrow> wanted operations o' \<longrightarrow> attended c w o')"

definition hooks_ok :: "string \<Rightarrow> feed_operation list \<Rightarrow> ('d, 'i) hook_world \<Rightarrow> bool" where
  "hooks_ok c operations w \<longleftrightarrow>
     ascending (hw_log w) \<and> (\<forall>o' \<in> set (hw_log w). 0 < ob_sequence o')
     \<and> (\<exists>j. hw_outbox w = drop j (hw_log w) \<and> (\<forall>o' \<in> set (take j (hw_log w)). wanted operations o' \<longrightarrow> attended c w o'))
     \<and> (\<forall>r m. map_of (hw_replicas w) r = Some m \<longrightarrow> runtime_ok c operations w (ms_runtime m))"

lemma attended_update [simp]:
  "attended c (w\<lparr>hw_log := commits, hw_outbox := kept\<rparr>) o' = attended c w o'"
  "attended c (w\<lparr>hw_log := commits\<rparr>) o' = attended c w o'"
  "attended c (w\<lparr>hw_outbox := kept\<rparr>) o' = attended c w o'"
  "attended c (w\<lparr>hw_replicas := replicas\<rparr>) o' = attended c w o'"
  by (simp_all add: attended_def)

lemma attended_mono:
  "attended c w o' \<Longrightarrow> set (hw_delivered w) \<subseteq> set (hw_delivered w') \<Longrightarrow> set (hw_dead w) \<subseteq> set (hw_dead w') \<Longrightarrow> attended c w' o'"
  by (auto simp: attended_def)

lemma runtime_ok_later:
  assumes "runtime_ok c operations w runtime" "hw_log w' = hw_log w"
    and "set (hw_delivered w) \<subseteq> set (hw_delivered w')" "set (hw_dead w) \<subseteq> set (hw_dead w')"
    and "wr_operations runtime' = wr_operations runtime" "wr_cursor runtime' c = wr_cursor runtime c"
  shows "runtime_ok c operations w' runtime'"
  using assms attended_mono [OF _ assms(3,4)] unfolding runtime_ok_def by metis

lemma reconcile_keeps:
  "wr_operations (reconcile_cursor previous c' unchanged runtime) = wr_operations runtime"
  "wr_cursor (reconcile_cursor previous c' unchanged runtime) c \<in>
     {0, wr_cursor runtime c} \<union> (case previous of Some p \<Rightarrow> {wr_cursor p c} | None \<Rightarrow> {})"
  by (auto simp: reconcile_cursor_def Let_def remove_collection_def ensure_collection_def is_registered_def wr_cursor_def
      split: option.splits)

lemma reconciled_all:
  assumes "runtime' = fold (\<lambda>(c', i). reconcile_cursor previous c' (unchanged c' i)) pairs runtime"
  shows "wr_operations runtime' = wr_operations runtime"
    and "wr_cursor runtime' c \<in> {0, wr_cursor runtime c} \<union> (case previous of Some p \<Rightarrow> {wr_cursor p c} | None \<Rightarrow> {})"
proof -
  have "wr_operations runtime' = wr_operations runtime
    \<and> wr_cursor runtime' c \<in> {0, wr_cursor runtime c} \<union> (case previous of Some p \<Rightarrow> {wr_cursor p c} | None \<Rightarrow> {})"
    using assms
  proof (induction pairs arbitrary: runtime)
    case (Cons pair pairs)
    obtain c' i where pair: "pair = (c', i)" by (cases pair)
    have step: "runtime' = fold (\<lambda>(c', i). reconcile_cursor previous c' (unchanged c' i)) pairs
        (reconcile_cursor previous c' (unchanged c' i) runtime)"
      using Cons.prems by (simp add: pair)
    let ?next = "reconcile_cursor previous c' (unchanged c' i) runtime"
    have "wr_operations ?next = wr_operations runtime"
      "wr_cursor ?next c \<in> {0, wr_cursor runtime c} \<union> (case previous of Some p \<Rightarrow> {wr_cursor p c} | None \<Rightarrow> {})"
      by (rule reconcile_keeps)+
    with Cons.IH [OF step] show ?case by (cases previous) auto
  qed simp
  then show "wr_operations runtime' = wr_operations runtime"
    "wr_cursor runtime' c \<in> {0, wr_cursor runtime c} \<union> (case previous of Some p \<Rightarrow> {wr_cursor p c} | None \<Rightarrow> {})" by blast+
qed

text \<open>Whatever the configurations, a rebound cursor is the one there was or starts over.\<close>

lemma rebound_cursor:
  fixes existing :: "'i managed_subscription option" and secret capacity generation collections
  assumes "\<And>e. existing = Some e \<Longrightarrow> wr_operations (ms_runtime e) = whd_operations decl"
  defines "runtime' \<equiv> ms_runtime (rebind_subscription decl secret capacity generation collections existing)"
  shows "wr_operations runtime' = whd_operations decl"
    and "wr_cursor runtime' c = 0 \<or> (\<exists>e. existing = Some e \<and> wr_cursor runtime' c = wr_cursor (ms_runtime e) c)"
proof -
  let ?identities = "case existing of Some e \<Rightarrow> ms_pair_identities e | None \<Rightarrow> (\<lambda>_. None)"
  obtain runtime pairs where fold: "runtime' = fold (\<lambda>(c', i). reconcile_cursor (map_option ms_runtime existing) c' (?identities c' = Some i)) pairs runtime"
    and start: "wr_operations runtime = whd_operations decl"
      "wr_cursor runtime c = 0 \<or> (\<exists>e. existing = Some e \<and> wr_cursor runtime c = wr_cursor (ms_runtime e) c)"
  proof (rule that)
    show "runtime' = fold (\<lambda>(c', i). reconcile_cursor (map_option ms_runtime existing) c' (?identities c' = Some i))
        (List.map_filter (\<lambda>(c, _, i). map_option (Pair c) i) (filter (\<lambda>(c, catalog, _). grant_scope_matches (whd_scope decl) catalog c) collections))
        (let r = (case existing of
              Some e \<Rightarrow> if ms_declaration e = decl \<and> ms_dead_letter_capacity e = capacity then ms_runtime e
                else runtime_new (whd_id decl) (whd_url decl) secret (whd_operations decl) [] (ring_new generation capacity)
            | None \<Rightarrow> runtime_new (whd_id decl) (whd_url decl) secret (whd_operations decl) [] (ring_new generation capacity))
         in r\<lparr>wr_cursors := (\<lambda>c. if c \<in> set (map fst (filter (\<lambda>(c, catalog, _). grant_scope_matches (whd_scope decl) catalog c) collections))
              then wr_cursors r c else None)\<rparr>)"
      unfolding runtime'_def rebind_subscription_def Let_def by simp
  qed (auto simp: Let_def runtime_new_def wr_cursor_def assms(1) split: option.split)
  note all = reconciled_all [OF fold]
  show "wr_operations runtime' = whd_operations decl" using all(1) start(1) by simp
  show "wr_cursor runtime' c = 0 \<or> (\<exists>e. existing = Some e \<and> wr_cursor runtime' c = wr_cursor (ms_runtime e) c)"
    using all(2) [of c] start(2) by (auto split: option.splits)
qed

lemma commit_hook_ok:
  assumes "hooks_ok c operations w" "0 < ob_sequence o'" "\<forall>p \<in> set (hw_log w). ob_sequence p < ob_sequence o'"
  shows "hooks_ok c operations (w\<lparr>hw_log := hw_log w @ [o'], hw_outbox := hw_outbox w @ [o']\<rparr>)"
proof -
  let ?w = "w\<lparr>hw_log := hw_log w @ [o'], hw_outbox := hw_outbox w @ [o']\<rparr>"
  from assms(1) obtain j where w: "ascending (hw_log w)" "\<forall>o' \<in> set (hw_log w). 0 < ob_sequence o'"
    "hw_outbox w = drop j (hw_log w)" "\<forall>o' \<in> set (take j (hw_log w)). wanted operations o' \<longrightarrow> attended c w o'"
    "\<And>r m. map_of (hw_replicas w) r = Some m \<Longrightarrow> runtime_ok c operations w (ms_runtime m)"
    unfolding hooks_ok_def by blast
  define i where "i = min j (length (hw_log w))"
  have i: "hw_outbox w = drop i (hw_log w)" "take i (hw_log w) = take j (hw_log w)" "i \<le> length (hw_log w)"
    by (simp_all add: i_def w(3) min_def)
  have "runtime_ok c operations ?w runtime" if "runtime_ok c operations w runtime" for runtime
  proof -
    from that have "wr_cursor runtime c < ob_sequence o'" using assms(2,3) by (auto simp: runtime_ok_def)
    with that show ?thesis by (auto simp: runtime_ok_def)
  qed
  moreover have "ascending (hw_log w @ [o'])" using w(1) assms(3) by (auto simp: ascending_def sorted_wrt_append)
  ultimately show ?thesis unfolding hooks_ok_def using w(2,4,5) i assms(2) by (auto intro!: exI [of _ i])
qed

text \<open>A replica whose new runtime is in order, with more delivered or dead, changes nothing for the others.\<close>

lemma replica_step_ok:
  assumes "hooks_ok c operations w"
    and "hw_log w' = hw_log w" "hw_outbox w' = hw_outbox w" "hw_replicas w' = AList.update r m (hw_replicas w)"
    and "set (hw_delivered w) \<subseteq> set (hw_delivered w')" "set (hw_dead w) \<subseteq> set (hw_dead w')"
    and "runtime_ok c operations w' (ms_runtime m)"
  shows "hooks_ok c operations w'"
proof -
  from assms(1) obtain j where w: "ascending (hw_log w)" "\<forall>o' \<in> set (hw_log w). 0 < ob_sequence o'"
    "hw_outbox w = drop j (hw_log w)" "\<forall>o' \<in> set (take j (hw_log w)). wanted operations o' \<longrightarrow> attended c w o'"
    "\<And>r m. map_of (hw_replicas w) r = Some m \<Longrightarrow> runtime_ok c operations w (ms_runtime m)"
    unfolding hooks_ok_def by blast
  have "runtime_ok c operations w' (ms_runtime m')" if "map_of (hw_replicas w') q = Some m'" for q m'
  proof (cases "q = r")
    case True
    with that assms(4,7) show ?thesis by (simp add: update_conv')
  next
    case False
    with that assms(4) have "map_of (hw_replicas w) q = Some m'" by (simp add: update_conv')
    from runtime_ok_later [OF w(5) [OF this] assms(2,5,6)] show ?thesis by simp
  qed
  moreover have "\<forall>o' \<in> set (take j (hw_log w')). wanted operations o' \<longrightarrow> attended c w' o'"
    using w(4) attended_mono [OF _ assms(5,6)] assms(2) by simp
  ultimately show ?thesis unfolding hooks_ok_def using w(1-3) assms(2,3) by metis
qed

lemma pass_ok:
  assumes "hooks_ok c operations w" "map_of (hw_replicas w) r = Some m"
    and "webhook_drain_once c retry deliver now n (hw_outbox w) (ms_runtime m) = (read, delivered, dead, runtime)"
    and "hw_log w' = hw_log w" "hw_delivered w' = hw_delivered w @ delivered" "hw_dead w' = hw_dead w @ map de_entry dead"
  shows "runtime_ok c operations w' runtime"
proof -
  from assms(1) obtain j where w: "ascending (hw_log w)" "hw_outbox w = drop j (hw_log w)"
    "\<forall>o' \<in> set (take j (hw_log w)). wanted operations o' \<longrightarrow> attended c w o'"
    and runtime: "runtime_ok c operations w (ms_runtime m)"
    using assms(2) unfolding hooks_ok_def by blast
  have grown: "set (hw_delivered w) \<subseteq> set (hw_delivered w')" "set (hw_dead w) \<subseteq> set (hw_dead w')" using assms(5,6) by auto
  let ?batch = "read_after (hw_outbox w) (wr_cursor (ms_runtime m) c) n"
  have asc: "ascending (hw_outbox w)" using w(1,2) by (simp add: ascending_def sorted_wrt_drop)
  show ?thesis
  proof (cases "?batch = []")
    case True
    then have "runtime = ms_runtime m" using assms(3) by (simp add: webhook_drain_once_def)
    with runtime_ok_later [OF runtime assms(4) grown] show ?thesis by simp
  next
    case False
    obtain rt where rt: "deliver_all c retry deliver now ?batch (ms_runtime m) = (delivered, dead, rt)"
      "runtime = advance_cursor c (foldr (\<lambda>o'. max (ob_sequence o')) ?batch 0) rt"
      using False assms(3) by (auto simp: webhook_drain_once_def Let_def split: prod.splits)
    have ops: "wr_operations (ms_runtime m) = operations" using runtime by (simp add: runtime_ok_def)
    then have "wr_operations runtime = operations" using deliver_all_attends(1) [OF rt(1)] by (simp add: rt(2) advance_cursor_def)
    show ?thesis
    proof (cases "is_registered (ms_runtime m) c")
      case False
      then have "wr_cursor runtime c = wr_cursor (ms_runtime m) c" "wr_operations runtime = wr_operations (ms_runtime m)"
        using deliver_all_attends(1,2) [OF rt(1)] by (simp_all add: rt(2) advance_cursor_def wr_cursor_def is_registered_def)
      with runtime_ok_later [OF runtime assms(4) grown] show ?thesis by simp
    next
      case True
      have cursor: "wr_cursor runtime c = ob_sequence (last ?batch)" by (rule pass_advances(1) [OF asc True False assms(3)])
      have "attended c w' o'" if o': "o' \<in> set (hw_log w)" "ob_sequence o' \<le> wr_cursor runtime c" "wanted operations o'" for o'
      proof (cases "ob_sequence o' \<le> wr_cursor (ms_runtime m) c \<or> o' \<in> set (take j (hw_log w))")
        case True
        then have "attended c w o'" using o' runtime w(3) by (auto simp: runtime_ok_def)
        then show ?thesis by (rule attended_mono [OF _ grown])
      next
        case False
        then have "o' \<in> set (hw_outbox w)" using o'(1) unfolding w(2) by (metis Un_iff append_take_drop_id set_append)
        with False o'(2) have "o' \<in> set ?batch"
          unfolding cursor outbox.read_interval [OF ascending_distinct [OF asc] \<open>?batch \<noteq> []\<close>] by simp
        then show ?thesis using deliver_all_attends(3) [OF rt(1)] o'(3) assms(5,6) by (auto simp: attended_def wanted_def ops)
      qed
      moreover have "last ?batch \<in> set (hw_log w)"
        using outbox.read_sound [OF last_in_set [OF False]] unfolding w(2) by (meson in_set_dropD)
      ultimately show ?thesis using \<open>wr_operations runtime = operations\<close> unfolding runtime_ok_def assms(4) cursor by blast
    qed
  qed
qed

lemma prune_hook_ok:
  assumes "hooks_ok c operations w" "map_of (hw_replicas w) r = Some m" "is_registered (ms_runtime m) c"
  shows "hooks_ok c operations (w\<lparr>hw_outbox := prune_before (hook_floor c (ms_runtime m) consumers (hw_outbox w)) n (hw_outbox w)\<rparr>)"
proof -
  let ?floor = "hook_floor c (ms_runtime m) consumers (hw_outbox w)"
  let ?w = "w\<lparr>hw_outbox := prune_before ?floor n (hw_outbox w)\<rparr>"
  from assms(1,2) obtain j where w: "ascending (hw_log w)" "\<forall>o' \<in> set (hw_log w). 0 < ob_sequence o'"
    "hw_outbox w = drop j (hw_log w)" "\<forall>o' \<in> set (take j (hw_log w)). wanted operations o' \<longrightarrow> attended c w o'"
    "\<And>r m. map_of (hw_replicas w) r = Some m \<Longrightarrow> runtime_ok c operations w (ms_runtime m)"
    unfolding hooks_ok_def by blast
  have floor: "?floor \<le> wr_cursor (ms_runtime m) c" using assms(3) floor_le by (simp add: hook_floor_def)
  have "sorted_wrt (\<lambda>a b. ob_sequence a < ob_sequence b) (drop j (hw_log w))" using w(1) by (simp add: ascending_def sorted_wrt_drop)
  from pruned [OF this, of ?floor n] obtain k where k: "hw_outbox ?w = drop k (drop j (hw_log w))"
    "\<forall>o' \<in> set (take k (drop j (hw_log w))). ob_sequence o' \<le> ?floor" by (auto simp: w(3))
  have "wanted operations o' \<longrightarrow> attended c w o'" if "o' \<in> set (take (j + k) (hw_log w))" for o'
  proof -
    from that have "o' \<in> set (take j (hw_log w)) \<or> o' \<in> set (take k (drop j (hw_log w)))" by (simp add: take_add)
    moreover have "o' \<in> set (hw_log w)" using that by (rule in_set_takeD)
    ultimately show ?thesis using w(4) w(5) [OF assms(2)] k(2) floor unfolding runtime_ok_def by (meson le_trans)
  qed
  then have "\<exists>i. hw_outbox ?w = drop i (hw_log w) \<and> (\<forall>o' \<in> set (take i (hw_log w)). wanted operations o' \<longrightarrow> attended c w o')"
    using k(1) by (intro exI [of _ "j + k"]) (simp add: add.commute)
  moreover have "attended c ?w = attended c w" by (rule ext) (simp add: attended_def)
  moreover have "runtime_ok c operations ?w = runtime_ok c operations w"
    by (rule ext) (simp add: runtime_ok_def attended_def)
  ultimately show ?thesis unfolding hooks_ok_def using w(1,2,5) by simp
qed

lemma hook_step_ok:
  assumes "hooks_ok c operations w" "hook_careful c operations e w" "hook_step c retry e w = Some w'"
  shows "hooks_ok c operations w'"
proof (cases e)
  case (Hook_Commit o')
  with assms show ?thesis using commit_hook_ok [OF assms(1), of o'] by (simp add: hook_careful_def list_all_iff)
next
  case (Hook_Pass r n deliver now)
  then obtain m where m: "map_of (hw_replicas w) r = Some m" using assms(3) by auto
  obtain k delivered dead runtime where pass: "webhook_drain_once c retry deliver now n (hw_outbox w) (ms_runtime m)
      = (k, delivered, dead, runtime)" by (metis prod_cases4)
  have w': "w' = w\<lparr>hw_replicas := AList.update r (m\<lparr>ms_runtime := runtime\<rparr>) (hw_replicas w),
      hw_delivered := hw_delivered w @ delivered, hw_dead := hw_dead w @ map de_entry dead\<rparr>"
    using assms(3) by (simp add: Hook_Pass m pass)
  have "runtime_ok c operations w' runtime" by (rule pass_ok [OF assms(1) m pass]) (simp_all add: w')
  then show ?thesis by (intro replica_step_ok [OF assms(1), of _ r "m\<lparr>ms_runtime := runtime\<rparr>"]) (simp_all add: w')
next
  case (Hook_Abort r n k deliver now)
  then obtain m where m: "map_of (hw_replicas w) r = Some m" using assms(3) by auto
  obtain delivered dead runtime where pass: "aborted_pass c retry deliver now n k (hw_outbox w) (ms_runtime m)
      = (delivered, dead, runtime)" by (metis prod_cases3)
  have w': "w' = w\<lparr>hw_replicas := AList.update r (m\<lparr>ms_runtime := runtime\<rparr>) (hw_replicas w),
      hw_delivered := hw_delivered w @ delivered, hw_dead := hw_dead w @ map de_entry dead\<rparr>"
    using assms(3) by (simp add: Hook_Abort m pass)
  have "runtime_ok c operations w (ms_runtime m)" using assms(1) m by (simp add: hooks_ok_def)
  then have "runtime_ok c operations w' runtime"
    by (rule runtime_ok_later) (simp_all add: w' wr_cursor_def deliver_all_attends(1,2) [OF pass [unfolded aborted_pass_def]])
  then show ?thesis by (intro replica_step_ok [OF assms(1), of _ r "m\<lparr>ms_runtime := runtime\<rparr>"]) (simp_all add: w')
next
  case (Hook_Prune r consumers n)
  then obtain m where m: "map_of (hw_replicas w) r = Some m" using assms(3) by auto
  with assms(2) Hook_Prune have "is_registered (ms_runtime m) c" by (simp add: hook_careful_def)
  from prune_hook_ok [OF assms(1) m this, of consumers n] show ?thesis using assms(3) by (auto simp: Hook_Prune m)
next
  case (Hook_Rebind r decl secret capacity generation collections)
  let ?m = "rebind_subscription decl secret capacity generation collections (map_of (hw_replicas w) r)"
  have w': "w' = w\<lparr>hw_replicas := AList.update r ?m (hw_replicas w)\<rparr>" using assms(3) by (simp add: Hook_Rebind)
  have ops: "whd_operations decl = operations" using assms(2) by (simp add: Hook_Rebind hook_careful_def)
  have old: "map_of (hw_replicas w) r = Some m \<Longrightarrow> runtime_ok c operations w (ms_runtime m)" for m
    using assms(1) by (simp add: hooks_ok_def)
  have "wr_operations (ms_runtime m) = whd_operations decl" if "map_of (hw_replicas w) r = Some m" for m
    using old [OF that] by (simp add: runtime_ok_def ops)
  note rebound = rebound_cursor(1) [where secret = secret and capacity = capacity and generation = generation
      and collections = collections and existing = "map_of (hw_replicas w) r", OF this, simplified]
    rebound_cursor(2) [where secret = secret and capacity = capacity and generation = generation
      and collections = collections and c = c and existing = "map_of (hw_replicas w) r", OF this, simplified]
  have "runtime_ok c operations w (ms_runtime ?m)"
  proof (cases "wr_cursor (ms_runtime ?m) c = 0")
    case True
    have "\<forall>o' \<in> set (hw_log w). 0 < ob_sequence o'" using assms(1) by (simp add: hooks_ok_def)
    then show ?thesis unfolding runtime_ok_def True rebound(1) ops by auto
  next
    case False
    with rebound(2) obtain m where "map_of (hw_replicas w) r = Some m" "wr_cursor (ms_runtime ?m) c = wr_cursor (ms_runtime m) c"
      by auto
    with old [OF this(1)] rebound(1) show ?thesis by (simp add: runtime_ok_def ops)
  qed
  then have "runtime_ok c operations w' (ms_runtime ?m)" by (rule runtime_ok_later) (simp_all add: w')
  then show ?thesis by (intro replica_step_ok [OF assms(1), of _ r ?m]) (simp_all add: w')
next
  case (Hook_Stop r)
  then have w': "w' = w\<lparr>hw_replicas := AList.delete r (hw_replicas w)\<rparr>" using assms(3) by simp
  have "runtime_ok c operations w' = runtime_ok c operations w" by (rule ext) (simp add: runtime_ok_def w')
  with assms(1) show ?thesis by (auto simp: hooks_ok_def w' delete_conv' split: if_splits)
qed

lemma run_hooks_ok:
  "hooks_ok c operations w \<Longrightarrow> hooks_careful c retry operations es w \<Longrightarrow> run_hooks c retry es w = Some w' \<Longrightarrow>
     hooks_ok c operations w'"
proof (induction es arbitrary: w)
  case (Cons e es)
  then obtain v where v: "hook_step c retry e w = Some v" "run_hooks c retry es v = Some w'" by (auto simp: bind_eq_Some_conv)
  with Cons.prems have "hook_careful c operations e w" "hooks_careful c retry operations es v" by simp_all
  with hook_step_ok [OF Cons.prems(1) this(1) v(1)] Cons.IH v(2) show ?case by blast
qed simp

lemma empty_hooks_ok: "hooks_ok c operations empty_hook_world"
  by (simp add: hooks_ok_def empty_hook_world_def ascending_def)

section \<open>No change is lost\<close>

text \<open>
  C23. However the replicas that deliver a subscription commit, pass, fail, are cut off, rebind, start, stop and
  prune, each committed change whose operation the subscription wants has reached the endpoint, or was
  recorded as a dead letter, or is still in the outbox after the cursor of every replica: pruning behind the
  pruner's own cursor is enough, as long as commits come in the order of their sequence numbers, the
  declared operations stay the same, and a replica prunes only while its own subscription is registered for the
  collection (without that, \<open>unregistered_pruning_loses\<close>).\<close>

theorem no_wanted_change_is_lost:
  assumes "run_hooks c retry es empty_hook_world = Some w" "hooks_careful c retry operations es empty_hook_world"
    and "o' \<in> set (hw_log w)" "wanted operations o'"
  shows "from_obligation c o' \<in> set (hw_delivered w) \<or> from_obligation c o' \<in> set (hw_dead w)
    \<or> o' \<in> set (hw_outbox w) \<and> (\<forall>r m. map_of (hw_replicas w) r = Some m \<longrightarrow> wr_cursor (ms_runtime m) c < ob_sequence o')"
proof -
  have "hooks_ok c operations w" by (rule run_hooks_ok [OF empty_hooks_ok assms(2,1)])
  then obtain j where w: "hw_outbox w = drop j (hw_log w)" "\<forall>o' \<in> set (take j (hw_log w)). wanted operations o' \<longrightarrow> attended c w o'"
    "\<And>r m. map_of (hw_replicas w) r = Some m \<Longrightarrow> runtime_ok c operations w (ms_runtime m)" unfolding hooks_ok_def by blast
  show ?thesis
  proof (cases "attended c w o'")
    case False
    then have "o' \<notin> set (take j (hw_log w))" using w(2) assms(4) by blast
    then have "o' \<in> set (hw_outbox w)" using assms(3) unfolding w(1) by (metis Un_iff append_take_drop_id set_append)
    moreover have "wr_cursor (ms_runtime m) c < ob_sequence o'" if "map_of (hw_replicas w) r = Some m" for r m
      using w(3) [OF that] assms(3,4) False unfolding runtime_ok_def by (meson not_le)
    ultimately show ?thesis by blast
  qed (auto simp: attended_def)
qed

definition sample_hook :: webhook_decl where
  "sample_hook = \<lparr>whd_id = ''h'', whd_url = ''u'', whd_scope = \<lparr>gs_catalogs = [], gs_collections = []\<rparr>, whd_operations = [],
     whd_secret_env = ''S'', whd_enabled = True\<rparr>"

definition sample_hook_run :: "(unit, unit) hook_event list" where
  "sample_hook_run =
     [Hook_Rebind 1 sample_hook ''k'' 1 ''g'' [(''c'', ''cat'', Some ())], Hook_Commit (sample_stamped 1),
      Hook_Pass 1 9 (\<lambda>_ _. True) (\<lambda>_. 0), Hook_Prune 1 [] 9, Hook_Commit (sample_stamped 2)]"

lemmas hook_run_simps = sample_hook_run_def sample_hook_def empty_hook_world_def rebind_subscription_def runtime_new_def
  reconcile_cursor_def is_registered_def ensure_collection_def remove_collection_def grant_scope_matches_def
  map_filter_simps webhook_drain_once_def read_after_def wr_cursor_def sample_stamped_def accepts_operation_def
  deliver_with_retries_def advance_cursor_def

theorem no_wanted_change_is_lost_witness:
  "\<exists>w :: (unit, unit) hook_world. run_hooks ''c'' \<lparr>rp_max_attempts = 1, rp_base_backoff_ms = 1, rp_max_backoff_ms = 9\<rparr> sample_hook_run empty_hook_world = Some w
     \<and> (from_obligation ''c'' (sample_stamped 2) \<in> set (hw_delivered w) \<or> from_obligation ''c'' (sample_stamped 2) \<in> set (hw_dead w)
       \<or> sample_stamped 2 \<in> set (hw_outbox w)
         \<and> (\<forall>r m. map_of (hw_replicas w) r = Some m \<longrightarrow> wr_cursor (ms_runtime m) ''c'' < ob_sequence (sample_stamped 2)))"
proof -
  let ?retry = "\<lparr>rp_max_attempts = 1, rp_base_backoff_ms = 1, rp_max_backoff_ms = 9\<rparr>"
  obtain w :: "(unit, unit) hook_world" where w: "run_hooks ''c'' ?retry sample_hook_run empty_hook_world = Some w"
    "hw_log w = [sample_stamped 1, sample_stamped 2]"
    by (simp add: hook_run_simps)
  have "hooks_careful ''c'' ?retry [] sample_hook_run empty_hook_world"
    by (simp add: hook_run_simps hook_careful_def)
  from no_wanted_change_is_lost [OF w(1) this, of "sample_stamped 2"] w show ?thesis
    by (simp add: wanted_def accepts_operation_def)
qed

text \<open>
  Retention counts the cursors of registered subscriptions only. Where a configuration leaves the collection out,
  a prune, and the next configuration brings it back, a change committed before is neither delivered nor dead nor
  in the outbox.
\<close>

definition unregistered_run :: "(unit, unit) hook_event list" where
  "unregistered_run =
     [Hook_Rebind 1 sample_hook ''k'' 1 ''g'' [(''c'', ''cat'', Some ())], Hook_Commit (sample_stamped 1),
      Hook_Rebind 1 sample_hook ''k'' 1 ''g'' [], Hook_Prune 1 [] 9,
      Hook_Rebind 1 sample_hook ''k'' 1 ''g'' [(''c'', ''cat'', Some ())]]"

lemma unregistered_pruning_loses:
  "map_option (\<lambda>w. (hw_log w, hw_outbox w, hw_delivered w, hw_dead w)) (run_hooks ''c'' retry unregistered_run empty_hook_world)
     = Some ([sample_stamped 1], [], [], [])"
  by (simp add: hook_run_simps unregistered_run_def prune_before_def hook_floor_def compute_floor_def primary_high_water_def)

section \<open>The name a delivery gives the collection\<close>

text \<open>
  An envelope of the feed names its collection by the external identifier; the handler says that an internal
  one is never serialized. A delivery of the same change names it by the internal identifier.
\<close>

lemma feed_names_external_id:
  "changes_page (collection_external_id decl) outbox since limit = Inr page \<Longrightarrow> entry \<in> set (fp_entries page) \<Longrightarrow>
     fe_collection entry = collection_external_id decl"
  by (auto simp: changes_page_def build_page_def from_obligation_def and_then_Inr_iff)

lemma webhook_names_internal_id:
  "deliver_all (cl_id decl) retry deliver now obligations runtime = (delivered, dead, runtime') \<Longrightarrow>
     \<forall>entry \<in> set delivered. fe_collection entry = cl_id decl"
proof (induction obligations arbitrary: runtime delivered dead runtime')
  case (Cons p obligations)
  then show ?case by (fastforce simp: Let_def apfst_def apsnd_def map_prod_def from_obligation_def split: if_splits prod.splits sum.splits)
qed simp

section \<open>Listing the dead letters\<close>

definition ring_ok :: "dead_letter_ring \<Rightarrow> bool" where
  "ring_ok ring \<longleftrightarrow> sorted_wrt (\<lambda>a b. fst a < fst b) (dr_entries ring)
     \<and> (\<forall>d \<in> set (dr_entries ring). 0 < fst d \<and> fst d \<le> dr_next_ordinal ring)
     \<and> length (dr_entries ring) \<le> dr_capacity ring \<and> 1 \<le> dr_capacity ring \<and> dr_next_ordinal ring \<le> U64_MAX
     \<and> CHR '':'' \<notin> set (dr_generation ring)"

lemma ring_new_ok: "CHR '':'' \<notin> set generation \<Longrightarrow> ring_ok (ring_new generation capacity)"
  by (simp add: ring_ok_def ring_new_def)

lemma ring_push_ok:
  assumes "ring_ok ring" "dr_next_ordinal ring < U64_MAX"
  shows "ring_ok (ring_push entry ring)"
proof -
  let ?kept = "if dr_capacity ring \<le> length (dr_entries ring) then tl (dr_entries ring) else dr_entries ring"
  have sub: "set ?kept \<subseteq> set (dr_entries ring)" by (auto dest: list.set_sel(2) [rotated] intro: list.set_sel(2))
  have "sorted_wrt (\<lambda>a b. fst a < fst b) ?kept" using assms(1) by (cases "dr_entries ring") (auto simp: ring_ok_def)
  moreover have "length ?kept < dr_capacity ring" using assms(1) by (auto simp: ring_ok_def)
  ultimately show ?thesis using assms sub
    by (fastforce simp: ring_ok_def ring_push_def Let_def sorted_wrt_append)
qed

lemma ring_cursor_round_trip:
  "CHR '':'' \<notin> set (dr_generation ring) \<Longrightarrow> n \<le> U64_MAX \<Longrightarrow> ring_decode_cursor ring (ring_encode_cursor ring n) = Inr n"
  using decode_encode [of n] by (simp add: ring_decode_cursor_def ring_encode_cursor_def split_once_at decode_cursor_def
      encode_cursor_def ok_or_def split: option.splits)

text \<open>A cursor of another runtime, whose generation differs, is refused.\<close>

lemma foreign_cursor_is_refused:
  "CHR '':'' \<notin> set (dr_generation other) \<Longrightarrow> dr_generation ring \<noteq> dr_generation other \<Longrightarrow>
     ring_page ring (Some (ring_encode_cursor other n)) limit = Inl Runtime_Changed"
  by (simp add: ring_page_def ring_decode_cursor_def ring_encode_cursor_def split_once_at)

fun follow_ring :: "nat \<Rightarrow> dead_letter_ring \<Rightarrow> nat \<Rightarrow> string option \<Rightarrow> dead_letter_entry list \<times> bool" where
  "follow_ring 0 ring limit since = ([], False)"
| "follow_ring (Suc n) ring limit since =
     (case ring_page ring since limit of
        Inl _ \<Rightarrow> ([], False)
      | Inr (entries, None) \<Rightarrow> (entries, True)
      | Inr (entries, Some cursor) \<Rightarrow> apfst (append entries) (follow_ring n ring limit (Some cursor)))"

lemma after_nth:
  fixes xs :: "(nat \<times> 'a) list"
  assumes "sorted_wrt (\<lambda>a b. fst a < fst b) xs" "i < length xs"
  shows "filter (\<lambda>(ordinal, _). fst (xs ! i) < ordinal) xs = drop (Suc i) xs"
proof -
  have xs: "xs = take i xs @ xs ! i # drop (Suc i) xs" by (rule id_take_nth_drop [OF assms(2)])
  with assms(1) have s: "sorted_wrt (\<lambda>a b. fst a < fst b) (take i xs @ xs ! i # drop (Suc i) xs)" by simp
  then have sides: "\<forall>d \<in> set (take i xs). fst d < fst (xs ! i)" "\<forall>d \<in> set (drop (Suc i) xs). fst (xs ! i) < fst d"
    unfolding sorted_wrt_append sorted_wrt.simps by simp_all
  have "\<not> fst (xs ! i) < fst d" if "d \<in> set (take i xs)" for d 
    using bspec [OF sides(1) that] by simp
  then have "\<forall>d \<in> set (take (Suc i) xs). \<not> fst (xs ! i) < fst d" using assms(2) by (simp add: take_Suc_conv_app_nth)
  note this sides(2)
  moreover have "filter P xs = filter P (take (Suc i) xs) @ filter P (drop (Suc i) xs)" for P
    by (simp only: filter_append [symmetric] append_take_drop_id)
  ultimately show ?thesis by (simp add: case_prod_unfold)
qed

lemma follow_ring_from:
  assumes "ring_ok ring" "0 < limit" "i < length (dr_entries ring)" "length (dr_entries ring) - i \<le> n"
  shows "follow_ring n ring limit (Some (ring_encode_cursor ring (fst (dr_entries ring ! i))))
     = (map snd (drop (Suc i) (dr_entries ring)), True)"
  using assms(3,4)
proof (induction n arbitrary: i)
  case (Suc n)
  let ?entries = "dr_entries ring"
  have sorted: "sorted_wrt (\<lambda>a b. fst a < fst b) ?entries" using assms(1) by (simp add: ring_ok_def)
  have "fst (?entries ! i) \<le> U64_MAX" using assms(1) Suc.prems(1) nth_mem by (fastforce simp: ring_ok_def)
  then have decode: "ring_decode_cursor ring (ring_encode_cursor ring (fst (?entries ! i))) = Inr (fst (?entries ! i))"
    using assms(1) by (intro ring_cursor_round_trip) (simp_all add: ring_ok_def)
  let ?rest = "drop (Suc i) ?entries"
  show ?case
  proof (cases "limit < length ?rest")
    case False
    then show ?thesis by (simp add: ring_page_def decode after_nth [OF sorted Suc.prems(1)])
  next
    case True
    let ?k = "i + limit"
    have k: "?k < length ?entries" using True by simp
    have "last (take limit ?rest) = ?entries ! ?k"
      using assms(2) True by (simp add: last_conv_nth add.commute)
    then have "ring_page ring (Some (ring_encode_cursor ring (fst (?entries ! i)))) limit
        = Inr (map snd (take limit ?rest), Some (ring_encode_cursor ring (fst (?entries ! ?k))))"
      using True assms(2) by (simp add: ring_page_def decode after_nth [OF sorted Suc.prems(1)] take_map [symmetric])
    moreover have "follow_ring n ring limit (Some (ring_encode_cursor ring (fst (?entries ! ?k)))) = (map snd (drop (Suc ?k) ?entries), True)"
      using Suc.prems assms(2) k by (intro Suc.IH) simp_all
    moreover have "take limit ?rest @ drop (Suc ?k) ?entries = ?rest"
      using append_take_drop_id [of limit ?rest] by (simp add: add.commute)
    then have "map snd (take limit ?rest) @ map snd (drop (Suc ?k) ?entries) = map snd ?rest" by (metis map_append)
    ultimately show ?thesis by simp
  qed
qed simp

text \<open>Following the cursors of the dead-letter page lists every dead letter a subscription holds, once and in the
  order they were recorded, and comes to an end: the last page has no cursor, and no more requests are needed
  than there are entries and one.\<close>

lemma dead_letters_are_listed_once:
  assumes "ring_ok ring" "0 < limit" "length (dr_entries ring) < n"
  shows "follow_ring n ring limit None = (map snd (dr_entries ring), True)"
proof -
  let ?entries = "dr_entries ring"
  have all: "filter (\<lambda>(ordinal, _). 0 < ordinal) ?entries = ?entries"
    using assms(1) by (intro filter_True) (auto simp: ring_ok_def)
  obtain n' where n: "n = Suc n'" using assms(3) by (cases n) simp_all
  show ?thesis
  proof (cases "limit < length ?entries")
    case False
    then show ?thesis by (simp add: n ring_page_def all)
  next
    case True
    let ?k = "limit - 1"
    have "take limit ?entries \<noteq> []" using True assms(2) by auto
    from last_conv_nth [OF this] have last: "last (take limit ?entries) = ?entries ! ?k" using True assms(2) by simp
    have "ring_page ring None limit = Inr (map snd (take limit ?entries), Some (ring_encode_cursor ring (fst (?entries ! ?k))))"
      using True \<open>take limit ?entries \<noteq> []\<close> last by (simp add: ring_page_def all Let_def)
    moreover have "follow_ring n' ring limit (Some (ring_encode_cursor ring (fst (?entries ! ?k)))) = (map snd (drop (Suc ?k) ?entries), True)"
      using True assms(2,3) n by (intro follow_ring_from [OF assms(1,2)]) simp_all
    moreover have "map snd (take limit ?entries) @ map snd (drop (Suc ?k) ?entries) = map snd ?entries"
      using assms(2) by (simp add: map_append [symmetric] del: map_append)
    ultimately show ?thesis by (simp add: n)
  qed
qed

definition sample_dead :: "nat \<Rightarrow> dead_letter_entry" where
  "sample_dead n = \<lparr>de_entry = from_obligation ''c'' (sample_stamped n), de_attempts = 1, de_last_error = [], de_failed_at = []\<rparr>"

lemma dead_letters_are_listed_once_example:
  "follow_ring 3 (ring_push (sample_dead 3) (ring_push (sample_dead 2) (ring_push (sample_dead 1) (ring_new ''g'' 2)))) 1 None
     = ([sample_dead 2, sample_dead 3], True)"
proof -
  let ?ring = "ring_push (sample_dead 3) (ring_push (sample_dead 2) (ring_push (sample_dead 1) (ring_new ''g'' 2)))"
  have entries: "dr_entries ?ring = [(2, sample_dead 2), (3, sample_dead 3)]" by (simp add: ring_push_def ring_new_def)
  have "ring_ok ?ring" by (intro ring_push_ok ring_new_ok) (simp_all add: ring_push_def ring_new_def U64_MAX_def)
  from dead_letters_are_listed_once [OF this, of 1 3, unfolded entries] show ?thesis by simp
qed

end
