(* ===== verification/Crs.thy ===== *)
theory Crs
  imports Fingerprint
begin

text \<open>
  Coordinate reference systems of the items lane: \<open>crates/tellurion-core/src/crs.rs\<close>, the geometry
  expressions PostGIS reads and writes with (\<open>reprojected_geom_expr\<close> of \<open>crates/tellurion-postgis/src/sql.rs\<close>,
  \<open>input_geom_expr\<close> of \<open>write_sql.rs\<close>) and the write conversion of \<open>crates/tellurion-geopackage/src/crs.rs\<close>.
  A geometry of PostGIS is its SRID with its coordinates. The spatial functions of the database, the GeoJSON
  reader of the \<open>geozero\<close> crate and the Mercator formulas, which are floating point arithmetic, are arguments.
\<close>

section \<open>Identifiers\<close>

datatype requested_crs = Omitted | Crs84 | Storage_Crs

definition CRS84_URI :: string where "CRS84_URI = ''http://www.opengis.net/def/crs/OGC/1.3/CRS84''"
definition EPSG_4326_SRID :: int where "EPSG_4326_SRID = 4326"

definition show_int :: "int \<Rightarrow> string" where
  "show_int i = (if i < 0 then CHR ''-'' # show_nat (nat (- i)) else show_nat (nat i))"

definition epsg_uri :: "int \<Rightarrow> string" where
  "epsg_uri srid = ''http://www.opengis.net/def/crs/EPSG/0/'' @ show_int srid"

definition supported_crs :: "int option \<Rightarrow> string list" where
  "supported_crs storage_srid =
     (case storage_srid of
        Some srid \<Rightarrow> if epsg_uri srid = CRS84_URI then [CRS84_URI] else [CRS84_URI, epsg_uri srid]
      | None \<Rightarrow> [CRS84_URI])"

definition is_lat_lon_order :: "int \<Rightarrow> bool" where "is_lat_lon_order srid = (srid = EPSG_4326_SRID)"

definition crs84_literals_need_transform :: "int option \<Rightarrow> bool" where
  "crs84_literals_need_transform storage_srid = (case storage_srid of Some srid \<Rightarrow> srid \<noteq> EPSG_4326_SRID | None \<Rightarrow> False)"

fun can_serve :: "requested_crs \<Rightarrow> int option \<Rightarrow> bool \<Rightarrow> bool" where
  "can_serve Omitted storage_srid crs_capable = True"
| "can_serve Crs84 storage_srid crs_capable = (crs_capable \<or> \<not> crs84_literals_need_transform storage_srid)"
| "can_serve Storage_Crs storage_srid crs_capable =
     (crs_capable \<or> \<not> (case storage_srid of Some srid \<Rightarrow> is_lat_lon_order srid | None \<Rightarrow> False))"

text \<open>The error names the list of the supported identifiers.\<close>

datatype crs_error = Unsupported_Crs string "string list" | Malformed_Content_Crs string

definition resolve_crs :: "string option \<Rightarrow> int option \<Rightarrow> crs_error + requested_crs" where
  "resolve_crs requested storage_srid =
     (case requested of
        None \<Rightarrow> Inr Omitted
      | Some uri \<Rightarrow>
          if uri = CRS84_URI then Inr Crs84
          else if (case storage_srid of Some srid \<Rightarrow> uri = epsg_uri srid | None \<Rightarrow> False) then Inr Storage_Crs
          else Inl (Unsupported_Crs uri (supported_crs storage_srid)))"

definition advertised_crs :: "int option \<Rightarrow> bool \<Rightarrow> string list" where
  "advertised_crs storage_srid crs_capable =
     filter (\<lambda>uri. case resolve_crs (Some uri) storage_srid of
         Inr resolved \<Rightarrow> can_serve resolved storage_srid crs_capable
       | Inl _ \<Rightarrow> False) (supported_crs storage_srid)"

definition advertised_storage_crs :: "int option \<Rightarrow> bool \<Rightarrow> string option" where
  "advertised_storage_crs storage_srid crs_capable =
     Option.bind storage_srid (\<lambda>srid.
       if epsg_uri srid \<in> set (advertised_crs storage_srid crs_capable) then Some (epsg_uri srid) else None)"

definition storage_uri :: "int option \<Rightarrow> string" where
  "storage_uri storage_srid = (case storage_srid of Some srid \<Rightarrow> epsg_uri srid | None \<Rightarrow> CRS84_URI)"

definition content_crs_uri :: "requested_crs \<Rightarrow> int option \<Rightarrow> bool \<Rightarrow> string" where
  "content_crs_uri resolved storage_srid crs_capable =
     (if resolved = Storage_Crs then storage_uri storage_srid
      else if resolved = Crs84 \<and> crs_capable then CRS84_URI
      else if crs84_literals_need_transform storage_srid then storage_uri storage_srid
      else CRS84_URI)"

text \<open>
  \<open>str::trim\<close> of a header value: its text is visible ASCII (\<open>HeaderValue::to_str\<close>), where the only white
  space is the space and the tab.
\<close>

definition trim_text :: "string \<Rightarrow> string" where
  "trim_text s =
     (let blank = (\<lambda>c. ascii_space (of_char c)) in rev (dropWhile blank (rev (dropWhile blank s))))"

definition parse_content_crs_header :: "string \<Rightarrow> crs_error + string" where
  "parse_content_crs_header raw =
     (case Option.bind (strip_prefix ''<'' (trim_text raw)) (strip_suffix ''>'') of
        Some uri \<Rightarrow> if uri \<noteq> [] then Inr uri else Inl (Malformed_Content_Crs raw)
      | None \<Rightarrow> Inl (Malformed_Content_Crs raw))"

section \<open>The geometries of PostGIS\<close>

type_synonym 'c pg_geometry = "int \<times> 'c"

record 'c postgis =
  pg_transform :: "int \<Rightarrow> int \<Rightarrow> 'c \<Rightarrow> 'c"
  pg_flip :: "'c \<Rightarrow> 'c"
  pg_as_geojson :: "int \<times> 'c \<Rightarrow> json"
  pg_from_geojson :: "json \<Rightarrow> (int \<times> 'c) option"

definition st_set_srid :: "'c pg_geometry \<Rightarrow> int \<Rightarrow> 'c pg_geometry" where
  "st_set_srid g srid = (srid, snd g)"

definition st_transform :: "('c, 'x) postgis_scheme \<Rightarrow> 'c pg_geometry \<Rightarrow> int \<Rightarrow> 'c pg_geometry" where
  "st_transform pg g srid = (srid, pg_transform pg (fst g) srid (snd g))"

definition st_flip_coordinates :: "('c, 'x) postgis_scheme \<Rightarrow> 'c pg_geometry \<Rightarrow> 'c pg_geometry" where
  "st_flip_coordinates pg g = (fst g, pg_flip pg (snd g))"

definition reprojected_geom ::
  "('c, 'x) postgis_scheme \<Rightarrow> requested_crs \<Rightarrow> int option \<Rightarrow> 'c pg_geometry \<Rightarrow> 'c pg_geometry" where
  "reprojected_geom pg requested storage_srid geom =
     (case requested of
        Omitted \<Rightarrow> geom
      | Crs84 \<Rightarrow> (case storage_srid of Some srid \<Rightarrow> if srid \<noteq> 4326 then st_transform pg geom 4326 else geom | None \<Rightarrow> geom)
      | Storage_Crs \<Rightarrow> if storage_srid = Some 4326 then st_flip_coordinates pg geom else geom)"

text \<open>The argument is what \<open>ST_GeomFromGeoJSON\<close> read.\<close>

definition input_geom ::
  "('c, 'x) postgis_scheme \<Rightarrow> requested_crs \<Rightarrow> int option \<Rightarrow> 'c pg_geometry \<Rightarrow> 'c pg_geometry" where
  "input_geom pg requested storage_srid parsed =
     (case requested of
        Storage_Crs \<Rightarrow>
          (case storage_srid of
             Some srid \<Rightarrow> if is_lat_lon_order srid then st_set_srid (st_flip_coordinates pg parsed) srid else st_set_srid parsed srid
           | None \<Rightarrow> st_set_srid parsed 4326)
      | _ \<Rightarrow>
          (case storage_srid of
             None \<Rightarrow> st_set_srid parsed 4326
           | Some srid \<Rightarrow>
               if srid = 4326 then st_set_srid parsed 4326
               else if is_lat_lon_order srid
               then st_flip_coordinates pg (st_transform pg (st_set_srid parsed 4326) srid)
               else st_transform pg (st_set_srid parsed 4326) srid))"

section \<open>The geometries of a GeoPackage\<close>

definition ensure_write_srid :: "int option \<Rightarrow> requested_crs \<Rightarrow> bool \<Rightarrow> int option + int" where
  "ensure_write_srid storage_srid requested has_geometry =
     (let srid = (case storage_srid of Some srid \<Rightarrow> srid | None \<Rightarrow> 4326) in
      if \<not> has_geometry \<or> requested = Storage_Crs \<or> srid = 4326 \<or> srid = 3857 then Inr srid else Inl storage_srid)"

text \<open>
  The vertices of a geometry, as it was read from GeoJSON, become those of the stored one; \<open>mercator\<close> is
  \<open>lonlat_to_web_mercator\<close>. The last branch is the one \<open>ensure_write_srid\<close> excludes, where the code panics.
\<close>

definition geometry_for_write ::
  "('n \<times> 'n \<Rightarrow> 'n \<times> 'n) \<Rightarrow> int \<Rightarrow> requested_crs \<Rightarrow> ('n \<times> 'n) list \<Rightarrow> ('n \<times> 'n) list option" where
  "geometry_for_write mercator storage_srid requested vertices =
     (if requested = Storage_Crs then Some (if storage_srid = 4326 then map prod.swap vertices else vertices)
      else if storage_srid = 4326 then Some vertices
      else if storage_srid = 3857 then Some (map mercator vertices)
      else None)"

section \<open>Identifiers, requests and headers agree\<close>

lemma epsg_is_not_crs84 [simp]: "epsg_uri srid \<noteq> CRS84_URI" "CRS84_URI \<noteq> epsg_uri srid"
  by (simp_all add: epsg_uri_def CRS84_URI_def)

lemma resolve_crs_simps [simp]:
  "resolve_crs None s = Inr Omitted"
  "resolve_crs (Some CRS84_URI) s = Inr Crs84"
  "resolve_crs (Some (epsg_uri srid)) (Some srid) = Inr Storage_Crs"
  by (simp_all add: resolve_crs_def)

lemma resolve_crs_inv:
  assumes "resolve_crs (Some uri) s = Inr r"
  obtains (crs84) "uri = CRS84_URI" "r = Crs84"
    | (storage) srid where "s = Some srid" "uri = epsg_uri srid" "r = Storage_Crs"
  using assms by (auto simp: resolve_crs_def split: if_splits option.splits)

lemma resolved_is_supported: "resolve_crs (Some uri) s = Inr r \<Longrightarrow> uri \<in> set (supported_crs s)"
  by (elim resolve_crs_inv) (auto simp: supported_crs_def split: option.splits)

lemma advertised_crs_iff:
  "uri \<in> set (advertised_crs s cap) \<longleftrightarrow> (\<exists>r. resolve_crs (Some uri) s = Inr r \<and> can_serve r s cap)"
  by (auto simp: advertised_crs_def resolved_is_supported split: sum.splits)

lemma served_is_named:
  "resolve_crs (Some uri) s = Inr r \<Longrightarrow> can_serve r s cap \<Longrightarrow> content_crs_uri r s cap = uri"
  by (elim resolve_crs_inv) (auto simp: content_crs_uri_def storage_uri_def)

lemma advertised_crs_nonempty: "advertised_crs s cap \<noteq> []"
proof (cases "crs84_literals_need_transform s")
  case False
  then have "CRS84_URI \<in> set (advertised_crs s cap)" by (simp add: advertised_crs_iff)
  then show ?thesis by force
next
  case True
  then obtain srid where "s = Some srid" "\<not> is_lat_lon_order srid"
    by (auto simp: crs84_literals_need_transform_def is_lat_lon_order_def split: option.splits)
  then have "epsg_uri srid \<in> set (advertised_crs s cap)" by (simp add: advertised_crs_iff)
  then show ?thesis by force
qed

text \<open>A client can take a collection at its word about coordinate reference systems: the identifiers the
  collection lists are exactly those a request may name and be served in, a response to such a request is
  labelled with the very identifier it named, the storage identifier, when it is published, is one of the list,
  and the list is never empty.\<close>

lemma advertised_crs_is_served_and_named:
  "advertised_crs storage_srid crs_capable \<noteq> []
   \<and> uri \<in> set (advertised_crs storage_srid crs_capable) =
       (\<exists>resolved. resolve_crs (Some uri) storage_srid = Inr resolved \<and> can_serve resolved storage_srid crs_capable
          \<and> content_crs_uri resolved storage_srid crs_capable = uri)
   \<and> set_option (advertised_storage_crs storage_srid crs_capable) \<subseteq> set (advertised_crs storage_srid crs_capable)"
  using served_is_named
  by (auto simp: advertised_crs_nonempty advertised_crs_iff advertised_storage_crs_def bind_eq_Some_conv split: if_splits)

section \<open>Reading a geometry and writing it back\<close>

text \<open>
  The coordinates a transformation to CRS84 brings back and a second flip restores; a transformation of
  the database rounds, so this is a condition on the coordinates.
\<close>

definition returns_from_crs84 :: "('c, 'x) postgis_scheme \<Rightarrow> int option \<Rightarrow> 'c \<Rightarrow> bool" where
  "returns_from_crs84 pg storage_srid c =
     (case storage_srid of Some srid \<Rightarrow> srid \<noteq> 4326 \<longrightarrow> pg_transform pg 4326 srid (pg_transform pg srid 4326 c) = c | None \<Rightarrow> True)"

lemma input_of_reprojected:
  assumes "returns_from_crs84 pg s c" "requested = Crs84 \<or> requested = Storage_Crs \<and> pg_flip pg (pg_flip pg c) = c"
  shows "input_geom pg requested s (reprojected_geom pg requested s (case s of Some srid \<Rightarrow> srid | None \<Rightarrow> 4326, c))
    = (case s of Some srid \<Rightarrow> srid | None \<Rightarrow> 4326, c)"
  using assms
  by (auto simp: input_geom_def reprojected_geom_def returns_from_crs84_def st_transform_def st_set_srid_def
      st_flip_coordinates_def is_lat_lon_order_def EPSG_4326_SRID_def split: option.splits)

text \<open>Without a request the database reads a geometry as it is stored and takes it for CRS84 when it is written back.\<close>

lemma omitted_is_not_a_round_trip:
  "input_geom pg Omitted (Some 3857) (reprojected_geom pg Omitted (Some 3857) (3857, c)) = (3857, pg_transform pg 4326 3857 c)"
  by (simp add: input_geom_def reprojected_geom_def st_transform_def st_set_srid_def is_lat_lon_order_def EPSG_4326_SRID_def)

text \<open>
  A GeoPackage serves the vertices it stores; a sink that is given them without a CRS, or with CRS84, projects
  them once more when the storage is Web Mercator.
\<close>

lemma geopackage_projects_again:
  "requested \<noteq> Storage_Crs \<Longrightarrow> geometry_for_write mercator 3857 requested vertices = Some (map mercator vertices)"
  by (simp add: geometry_for_write_def)

end
