(* ===== verification/Locking.thy ===== *)
theory Locking
  imports Crs Batch_Lane
begin

text \<open>
  Optimistic locking: \<open>crates/tellurion-core/src/locking.rs\<close> and the evaluation of the preconditions of a write,
  the first part of \<open>crates/tellurion-features/src/write_handlers.rs\<close>. The digest (the \<open>sha2\<close> crate), the text
  of a JSON value (\<open>serde_json\<close>) and the parsers of dates (\<open>chrono\<close>, \<open>httpdate\<close>) are arguments. An instant is
  a number of nanoseconds since the Unix epoch; a row version is the number of the transaction that wrote the
  row. A header is its value, which is \<open>None\<close> when it is not visible ASCII.
\<close>

section \<open>Entity tags\<close>

record lock_env =
  lk_to_vec :: "json \<Rightarrow> string"
  lk_sha256 :: "string \<Rightarrow> string"
  lk_rfc3339 :: "string \<Rightarrow> (int \<times> nat) option"
  lk_http_date :: "string \<Rightarrow> int option"

definition hex_lower :: "nat \<Rightarrow> char" where
  "hex_lower n = char_of (if n < 10 then 48 + n else 87 + n)"

definition hex_encode :: "string \<Rightarrow> string" where
  "hex_encode bytes = concat (map (\<lambda>b. [hex_lower (of_char b div 16), hex_lower (of_char b mod 16)]) bytes)"

definition compute_feature_etag :: "('x) lock_env_scheme \<Rightarrow> json \<Rightarrow> string" where
  "compute_feature_etag lk feature = CHR 0x22 # hex_encode (lk_sha256 lk (lk_to_vec lk feature)) @ [CHR 0x22]"

definition trim_quotes :: "string \<Rightarrow> string" where
  "trim_quotes s = rev (dropWhile ((=) CHR 0x22) (rev (dropWhile ((=) CHR 0x22) s)))"

definition unquote_etag :: "string \<Rightarrow> string" where
  "unquote_etag raw =
     trim_quotes (case strip_prefix ''W/'' (trim_text raw) of Some rest \<Rightarrow> rest | None \<Rightarrow> trim_text raw)"

definition if_match_satisfied :: "string \<Rightarrow> string \<Rightarrow> bool" where
  "if_match_satisfied header_value current_etag =
     (trim_text header_value = ''*''
      \<or> list_ex (\<lambda>raw. unquote_etag raw = unquote_etag current_etag) (split_on CHR '','' (trim_text header_value)))"

section \<open>Timestamps\<close>

text \<open>The parser of \<open>chrono\<close> gives seconds and nanoseconds; an instant before the epoch has no \<open>u64\<close> seconds.\<close>

definition parse_stored_timestamp :: "('x) lock_env_scheme \<Rightarrow> string \<Rightarrow> int option" where
  "parse_stored_timestamp lk text' =
     (case lk_rfc3339 lk text' of
        Some (secs, nanos) \<Rightarrow> if 0 \<le> secs then Some (secs * 1000000000 + int nanos) else None
      | None \<Rightarrow> None)"

definition truncate_to_seconds :: "int \<Rightarrow> int" where
  "truncate_to_seconds time = (if time < 0 then 0 else time div 1000000000 * 1000000000)"

definition is_unmodified_since :: "int \<Rightarrow> int \<Rightarrow> bool" where
  "is_unmodified_since stored since = (truncate_to_seconds stored \<le> truncate_to_seconds since)"

section \<open>Tags of representations\<close>

lemma hex_lower_plain:
  "n < 16 \<Longrightarrow> hex_lower n \<notin> {CHR 0x22, CHR '','', CHR ''*'', CHR ''W''} \<and> \<not> ascii_space (of_char (hex_lower n))"
proof -
  assume "n < 16"
  then have "n \<in> set [0..<16]" by simp
  moreover have "\<forall>n \<in> set [0..<16]. hex_lower n \<notin> {CHR 0x22, CHR '','', CHR ''*'', CHR ''W''} \<and> \<not> ascii_space (of_char (hex_lower n))"
    by code_simp
  ultimately show ?thesis by blast
qed

lemma hex_encode_plain:
  assumes "c \<in> set (hex_encode bytes)"
  shows "c \<notin> {CHR 0x22, CHR '','', CHR ''*'', CHR ''W''} \<and> \<not> ascii_space (of_char c)"
proof -
  obtain b where "c = hex_lower (of_char b div 16) \<or> c = hex_lower (of_char b mod 16)"
    using assms by (auto simp: hex_encode_def)
  moreover have "(of_char b :: nat) div 16 < 16"
    using nat_of_char_less_256 [of b] by (intro less_mult_imp_div_less) simp
  ultimately show ?thesis using hex_lower_plain by (metis mod_less_divisor zero_less_numeral)
qed

lemma trim_text_quoted [simp]: "trim_text (CHR 0x22 # s @ [CHR 0x22]) = CHR 0x22 # s @ [CHR 0x22]"
  by (simp add: trim_text_def ascii_space_def)

lemma trim_quotes_quoted: "CHR 0x22 \<notin> set h \<Longrightarrow> trim_quotes (CHR 0x22 # h @ [CHR 0x22]) = h"
proof (cases h)
  case (Cons c cs)
  assume h: "CHR 0x22 \<notin> set h"
  then have "dropWhile ((=) CHR 0x22) (CHR 0x22 # h @ [CHR 0x22]) = h @ [CHR 0x22]" using Cons by auto
  moreover have "dropWhile ((=) CHR 0x22) (rev h) = rev h"
    using h by (cases "rev h") (auto simp: rev_eq_Cons_iff)
  ultimately show ?thesis by (simp add: trim_quotes_def)
qed (simp add: trim_quotes_def)

lemma unquote_own_etag [simp]: "unquote_etag (compute_feature_etag lk d) = hex_encode (lk_sha256 lk (lk_to_vec lk d))"
proof -
  let ?h = "hex_encode (lk_sha256 lk (lk_to_vec lk d))"
  have "CHR 0x22 \<notin> set ?h" using hex_encode_plain by blast
  then show ?thesis
    by (simp add: unquote_etag_def compute_feature_etag_def strip_prefix_def starts_with_def trim_quotes_quoted)
qed

lemma own_etag_satisfied_iff:
  "if_match_satisfied (compute_feature_etag lk d) (compute_feature_etag lk d')
     \<longleftrightarrow> hex_encode (lk_sha256 lk (lk_to_vec lk d)) = hex_encode (lk_sha256 lk (lk_to_vec lk d'))"
proof -
  let ?e = "compute_feature_etag lk d"
  have "trim_text ?e = ?e" by (simp add: compute_feature_etag_def)
  moreover have "CHR '','' \<notin> set (hex_encode (lk_sha256 lk (lk_to_vec lk d)))" using hex_encode_plain by blast
  then have "CHR '','' \<notin> set ?e" by (simp add: compute_feature_etag_def)
  then have "split_on CHR '','' ?e = [?e]" by (rule split_on_word)
  moreover have "?e \<noteq> ''*''" by (simp add: compute_feature_etag_def)
  ultimately show ?thesis by (simp add: if_match_satisfied_def)
qed

section \<open>The preconditions of a write\<close>

record write_headers =
  hd_if_match :: "string option option"
  hd_if_unmodified_since :: "string option option"
  hd_content_type :: "string option option"
  hd_content_crs :: "string option option"

text \<open>
  The answers with status 412 are the first five; \<open>Refused_By\<close> is an error of the schema, the geometry parser
  or the backend.
\<close>

datatype 'b write_error =
    Missing_Target
  | Stale_Etag
  | Modified_Since
  | Created_Concurrently
  | Changed_Before_Write
  | Header_Not_Ascii string
  | Capability_Unsupported string
  | Feature_Not_Found
  | Unsupported_Media_Type
  | Crs_Refused crs_error
  | Content_Crs_Not_Writable
  | Body_Not_Object
  | Feature_Type_Lost
  | Geometry_Lost
  | Feature_Properties_Lost
  | Feature_Properties_Not_Object
  | Refused_By 'b

definition precondition_is_enforceable :: "('x) lock_env_scheme \<Rightarrow> ('y) write_headers_scheme \<Rightarrow> string option \<Rightarrow> bool" where
  "precondition_is_enforceable lk headers modified_column =
     (hd_if_match headers \<noteq> None
      \<or> (case hd_if_unmodified_since headers of
           None \<Rightarrow> False
         | Some since \<Rightarrow> modified_column \<noteq> None \<and> Option.bind since (lk_http_date lk) \<noteq> None))"

text \<open>\<open>current["properties"][column].as_str()\<close>.\<close>

definition stored_text :: "json \<Rightarrow> string \<Rightarrow> string option" where
  "stored_text current column =
     (case Option.bind (json_get current ''properties'') (\<lambda>properties. json_get properties column) of
        Some (JString text') \<Rightarrow> Some text'
      | _ \<Rightarrow> None)"

definition evaluate_if_match ::
  "('x) lock_env_scheme \<Rightarrow> string option \<Rightarrow> json option \<Rightarrow> 'b write_error + bool" where
  "evaluate_if_match lk if_match current =
     and_then (ok_or current Missing_Target) (\<lambda>current.
     and_then (ok_or if_match (Header_Not_Ascii ''If-Match'')) (\<lambda>raw.
     and_then (ensure (if_match_satisfied raw (compute_feature_etag lk current)) Stale_Etag) (\<lambda>_.
     Inr True)))"

definition evaluate_unmodified_since ::
  "('x) lock_env_scheme \<Rightarrow> string option \<Rightarrow> string option \<Rightarrow> json option \<Rightarrow> 'b write_error + bool" where
  "evaluate_unmodified_since lk since_header modified_column current =
     (case modified_column of None \<Rightarrow> Inr False | Some column \<Rightarrow>
      case current of None \<Rightarrow> Inr False | Some current \<Rightarrow>
      case Option.bind since_header (lk_http_date lk) of None \<Rightarrow> Inr False | Some since \<Rightarrow>
      case Option.bind (stored_text current column) (parse_stored_timestamp lk) of None \<Rightarrow> Inr False | Some modified_at \<Rightarrow>
        and_then (ensure (is_unmodified_since modified_at since) Modified_Since) (\<lambda>_. Inr True))"

definition evaluate_write_preconditions_against ::
  "('x) lock_env_scheme \<Rightarrow> ('y) write_headers_scheme \<Rightarrow> string option \<Rightarrow> json option \<Rightarrow> 'b write_error + bool" where
  "evaluate_write_preconditions_against lk headers modified_column current =
     (case hd_if_match headers of
        Some if_match \<Rightarrow> evaluate_if_match lk if_match current
      | None \<Rightarrow>
          (case hd_if_unmodified_since headers of
             Some since \<Rightarrow> evaluate_unmodified_since lk since modified_column current
           | None \<Rightarrow> Inr False))"

definition resolve_witness :: "bool \<Rightarrow> nat option \<Rightarrow> 'b write_error + nat option" where
  "resolve_witness enforced witness =
     (if \<not> enforced then Inr None
      else case witness of Some v \<Rightarrow> Inr (Some v) | None \<Rightarrow> Inl Created_Concurrently)"

text \<open>Whether the representation is one the client may write over.\<close>

definition entitled :: "('x) lock_env_scheme \<Rightarrow> ('y) write_headers_scheme \<Rightarrow> string option \<Rightarrow> json \<Rightarrow> bool" where
  "entitled lk headers modified_column current =
     (case hd_if_match headers of
        Some if_match \<Rightarrow>
          (case if_match of Some raw \<Rightarrow> if_match_satisfied raw (compute_feature_etag lk current) | None \<Rightarrow> False)
      | None \<Rightarrow>
          (case Option.bind (Option.bind (hd_if_unmodified_since headers) id) (lk_http_date lk) of
             None \<Rightarrow> True
           | Some since \<Rightarrow>
               (case Option.bind modified_column (stored_text current) of
                  None \<Rightarrow> True
                | Some text' \<Rightarrow>
                    (case parse_stored_timestamp lk text' of
                       None \<Rightarrow> True
                     | Some modified_at \<Rightarrow> is_unmodified_since modified_at since))))"

lemma evaluated_is_entitled:
  assumes "evaluate_write_preconditions_against lk headers modified_column (Some current) = Inr enforced"
  shows "entitled lk headers modified_column current"
  using assms
  by (auto simp: evaluate_write_preconditions_against_def evaluate_if_match_def evaluate_unmodified_since_def
      entitled_def ensure_def result_simps Let_def split: option.splits if_splits)

lemma enforced_iff_enforceable:
  assumes "evaluate_write_preconditions_against lk headers modified_column current = Inr True"
  shows "precondition_is_enforceable lk headers modified_column" and "current \<noteq> None"
  using assms
  by (auto simp: evaluate_write_preconditions_against_def evaluate_if_match_def evaluate_unmodified_since_def
      precondition_is_enforceable_def ensure_def result_simps split: option.splits if_splits)

lemma not_enforced_if_match:
  assumes "evaluate_write_preconditions_against lk headers modified_column current = Inr enforced"
    and "hd_if_match headers \<noteq> None"
  shows "enforced"
  using assms by (auto simp: evaluate_write_preconditions_against_def evaluate_if_match_def result_simps)

text \<open>A date that would be compared is called enforceable although the row is missing, and nothing is enforced.\<close>

lemma enforceable_without_a_row:
  assumes "hd_if_match headers = None" "hd_if_unmodified_since headers = Some (Some raw)" "lk_http_date lk raw = Some since"
  shows "precondition_is_enforceable lk headers (Some column)"
    and "evaluate_write_preconditions_against lk headers (Some column) None = Inr False"
  using assms by (simp_all add: precondition_is_enforceable_def evaluate_write_preconditions_against_def
      evaluate_unmodified_since_def)

lemma resolve_witness_Inr:
  "resolve_witness enforced witness = Inr expected \<longleftrightarrow> (if enforced then witness \<noteq> None \<and> expected = witness else expected = None)"
  by (auto simp: resolve_witness_def split: option.splits)

end
