(* ===== verification/Merge_Patch.thy ===== *)
theory Merge_Patch
  imports Locking
begin

text \<open>
  The bodies of writes: the merge patch of RFC 7396 and the checks of \<open>write_handlers.rs\<close>, and the flat
  schema of \<open>crates/tellurion-core/src/config.rs\<close>. The members of an object are the entries of a \<open>BTreeMap\<close>, a
  list sorted by name. The parsers of JSON text and of a GeoJSON geometry (the \<open>geojson\<close> crate) and the
  integer test of \<open>serde_json\<close> numbers are arguments.
\<close>

section \<open>Members\<close>

fun member_insert :: "string \<Rightarrow> 'v \<Rightarrow> (string \<times> 'v) list \<Rightarrow> (string \<times> 'v) list" where
  "member_insert k v [] = [(k, v)]"
| "member_insert k v ((j, u) # ms) =
     (if k < j then (k, v) # (j, u) # ms else if k = j then (k, v) # ms else (j, u) # member_insert k v ms)"

definition member_remove :: "string \<Rightarrow> (string \<times> 'v) list \<Rightarrow> (string \<times> 'v) list" where
  "member_remove k ms = filter (\<lambda>(j, _). j \<noteq> k) ms"

definition members_of :: "json \<Rightarrow> (string \<times> json) list" where
  "members_of value = (case value of JObject ms \<Rightarrow> ms | _ \<Rightarrow> [])"

abbreviation ordered :: "(string \<times> 'v) list \<Rightarrow> bool" where
  "ordered ms \<equiv> sorted_wrt (<) (map fst ms)"

fun well_formed :: "json \<Rightarrow> bool" where
  "well_formed (JObject ms) = (ordered ms \<and> list_all (\<lambda>(_, v). well_formed v) ms)"
| "well_formed (JArray vs) = list_all well_formed vs"
| "well_formed _ = True"

section \<open>The merge\<close>

fun apply_json_merge_patch :: "json \<Rightarrow> json \<Rightarrow> json"
  and merge_members :: "(string \<times> json) list \<Rightarrow> (string \<times> json) list \<Rightarrow> (string \<times> json) list" where
  "apply_json_merge_patch target patch =
     (case patch of JObject patch_members \<Rightarrow> JObject (merge_members patch_members (members_of target)) | _ \<Rightarrow> patch)"
| "merge_members [] target_members = target_members"
| "merge_members ((name, patch_value) # patch_members) target_members =
     merge_members patch_members
       (if patch_value = JNull then member_remove name target_members
        else member_insert name
          (apply_json_merge_patch (case map_of target_members name of Some v \<Rightarrow> v | None \<Rightarrow> JNull) patch_value)
          target_members)"

declare apply_json_merge_patch.simps [simp del]

section \<open>The feature\<close>

definition property_tombstones :: "json \<Rightarrow> json \<Rightarrow> string list" where
  "property_tombstones current patch =
     (case (json_get patch ''properties'', json_get current ''properties'') of
        (Some (JObject properties), Some (JObject current_properties)) \<Rightarrow>
          map fst (filter (\<lambda>(name, v). v = JNull \<and> map_of current_properties name \<noteq> None) properties)
      | _ \<Rightarrow> [])"

definition preserve_relational_property_tombstones :: "json \<Rightarrow> string list \<Rightarrow> json" where
  "preserve_relational_property_tombstones feature tombstones =
     (case feature of
        JObject ms \<Rightarrow>
          if tombstones = [] then feature
          else let properties = (case map_of ms ''properties'' of Some v \<Rightarrow> members_of v | None \<Rightarrow> [])
               in JObject (member_insert ''properties'' (JObject (fold (\<lambda>name. member_insert name JNull) tombstones properties)) ms)
      | _ \<Rightarrow> feature)"

text \<open>\<open>geometry_error\<close> is the refusal of the \<open>geojson\<close> crate, if it refuses the geometry.\<close>

definition validate_patched_feature ::
  "(json \<Rightarrow> 'b option) \<Rightarrow> json \<Rightarrow> string \<Rightarrow> 'b write_error + json \<times> (string \<times> json) list" where
  "validate_patched_feature geometry_error feature fid =
     (case feature of
        JObject object \<Rightarrow>
          and_then (ensure (map_of object ''type'' = Some (JString ''Feature'')) Feature_Type_Lost) (\<lambda>_.
          and_then (case map_of object ''geometry'' of
              Some JNull \<Rightarrow> Inr ()
            | Some (JObject geometry) \<Rightarrow>
                (case geometry_error (JObject geometry) of Some message \<Rightarrow> Inl (Refused_By message) | None \<Rightarrow> Inr ())
            | _ \<Rightarrow> Inl Geometry_Lost) (\<lambda>_.
          let object = member_insert ''id'' (JString fid) object in
          and_then (case map_of object ''properties'' of
              None \<Rightarrow> Inl Feature_Properties_Lost
            | Some JNull \<Rightarrow> Inr []
            | Some (JObject properties) \<Rightarrow> Inr properties
            | Some _ \<Rightarrow> Inl Feature_Properties_Not_Object) (\<lambda>properties.
          Inr (JObject object, properties))))
      | _ \<Rightarrow> Inl Body_Not_Object)"

text \<open>\<open>parse_feature_body\<close> on the value its text was parsed to.\<close>

definition parse_feature_body :: "json \<Rightarrow> 'b write_error + json \<times> (string \<times> json) list" where
  "parse_feature_body value =
     (case value of
        JObject ms \<Rightarrow>
          (case map_of ms ''properties'' of
             None \<Rightarrow> Inr (value, [])
           | Some JNull \<Rightarrow> Inr (value, [])
           | Some (JObject properties) \<Rightarrow> Inr (value, properties)
           | Some _ \<Rightarrow> Inl Feature_Properties_Not_Object)
      | _ \<Rightarrow> Inl Body_Not_Object)"

definition ascii_lower :: "char \<Rightarrow> char" where
  "ascii_lower c = (let n = of_char c in if 65 \<le> n \<and> n \<le> (90 :: nat) then char_of (n + 32) else c)"

definition require_merge_patch_content_type :: "('x) write_headers_scheme \<Rightarrow> 'b write_error + unit" where
  "require_merge_patch_content_type headers =
     ensure (case Option.bind (hd_content_type headers) id of
         Some text' \<Rightarrow> map ascii_lower (trim_text (hd (split_on CHR '';'' text'))) = ''application/merge-patch+json''
       | None \<Rightarrow> False) Unsupported_Media_Type"

section \<open>The declared schema\<close>

datatype property_type = Ty_String | Ty_Integer | Ty_Number | Ty_Boolean | Ty_Date | Ty_DateTime

record property_decl =
  pd_name :: string
  pd_type :: property_type
  pd_required :: bool

record schema_decl =
  sd_properties :: "property_decl list"
  sd_additional_properties :: bool

datatype schema_problem =
    Required string
  | Mistyped string property_type json
  | Undeclared string

definition from_sql_type :: "string \<Rightarrow> property_type" where
  "from_sql_type sql_type =
     (if sql_type \<in> {''boolean'', ''bool''} then Ty_Boolean
      else if sql_type \<in> {''smallint'', ''integer'', ''bigint'', ''int2'', ''int4'', ''int8'', ''serial'', ''bigserial'', ''smallserial''}
      then Ty_Integer
      else if sql_type \<in> {''real'', ''double precision'', ''numeric'', ''decimal'', ''float4'', ''float8''} then Ty_Number
      else if sql_type = ''date'' then Ty_Date
      else if sql_type \<in> {''timestamp without time zone'', ''timestamp with time zone'', ''timestamptz'', ''timestamp''}
      then Ty_DateTime
      else Ty_String)"

definition matches_json_value :: "(string \<Rightarrow> bool) \<Rightarrow> property_type \<Rightarrow> json \<Rightarrow> bool" where
  "matches_json_value is_integer ty value =
     (case value of
        JString _ \<Rightarrow> ty \<in> {Ty_String, Ty_Date, Ty_DateTime}
      | JNumber n \<Rightarrow> ty = Ty_Number \<or> ty = Ty_Integer \<and> is_integer n
      | JBool _ \<Rightarrow> ty = Ty_Boolean
      | _ \<Rightarrow> False)"

definition property_problems ::
  "(string \<Rightarrow> bool) \<Rightarrow> (string \<times> json) list \<Rightarrow> property_decl \<Rightarrow> schema_problem list" where
  "property_problems is_integer properties decl =
     (case map_of properties (pd_name decl) of
        None \<Rightarrow> if pd_required decl then [Required (pd_name decl)] else []
      | Some JNull \<Rightarrow> if pd_required decl then [Required (pd_name decl)] else []
      | Some value \<Rightarrow>
          if matches_json_value is_integer (pd_type decl) value then [] else [Mistyped (pd_name decl) (pd_type decl) value])"

definition validate_feature_properties ::
  "(string \<Rightarrow> bool) \<Rightarrow> schema_decl \<Rightarrow> (string \<times> json) list \<Rightarrow> schema_problem list + unit" where
  "validate_feature_properties is_integer schema properties =
     (let problems = concat (map (property_problems is_integer properties) (sd_properties schema))
            @ (if sd_additional_properties schema then []
               else map (\<lambda>(key, _). Undeclared key)
                 (filter (\<lambda>(key, _). key \<notin> pd_name ` set (sd_properties schema)) properties))
      in if problems = [] then Inr () else Inl problems)"

section \<open>Members, lemmas\<close>

lemma map_of_member_insert [simp]: "map_of (member_insert k v ms) = (map_of ms)(k \<mapsto> v)"
  by (induction k v ms rule: member_insert.induct) auto

lemma fst_member_insert [simp]: "fst ` set (member_insert k v ms) = insert k (fst ` set ms)"
  by (induction k v ms rule: member_insert.induct) auto

lemma set_member_insert: "set (member_insert k v ms) \<subseteq> insert (k, v) (set ms)"
  by (induction k v ms rule: member_insert.induct) auto

lemma ordered_member_insert [simp]: "ordered ms \<Longrightarrow> ordered (member_insert k v ms)"
proof (induction k v ms rule: member_insert.induct)
  case (2 k v j u ms)
  then show ?case by (cases k j rule: linorder_cases) (force simp: image_iff)+
qed simp

lemma map_of_member_remove [simp]: "map_of (member_remove k ms) = (map_of ms)(k := None)"
  by (induction ms) (auto simp: member_remove_def)

lemma ordered_member_remove [simp]: "ordered ms \<Longrightarrow> ordered (member_remove k ms)"
  by (induction ms) (auto simp: member_remove_def)

lemma set_member_remove: "set (member_remove k ms) \<subseteq> set ms"
  by (auto simp: member_remove_def)

text \<open>Two ordered lists with the same entries are one list.\<close>

lemma ordered_eqI:
  assumes "ordered ms" "ordered ns" "map_of ms = map_of ns"
  shows "ms = ns"
proof -
  have s: "sorted (map fst ms)" "distinct (map fst ms)" "sorted (map fst ns)" "distinct (map fst ns)"
    using assms strict_sorted_iff by blast+
  then have "set ms = set ns"
    using assms(3) by (metis map_of_eq_Some_iff subset_antisym subrelI)
  then show ?thesis
    using s by (intro map_sorted_distinct_set_unique [of fst]) (auto simp: distinct_map)
qed

lemma json_get_member [simp]: "json_get (JObject ms) k = map_of ms k"
  by (simp add: json_get_def)

lemma members_of_simps [simp]: "members_of (JObject ms) = ms" "members_of JNull = []"
  by (simp_all add: members_of_def)

section \<open>The laws of the merge\<close>

lemma merge_patch_simps [simp]:
  "apply_json_merge_patch target (JObject ps) = JObject (merge_members ps (members_of target))"
  "apply_json_merge_patch target JNull = JNull"
  "apply_json_merge_patch target (JBool b) = JBool b"
  "apply_json_merge_patch target (JNumber n) = JNumber n"
  "apply_json_merge_patch target (JString s) = JString s"
  "apply_json_merge_patch target (JArray vs) = JArray vs"
  by (simp_all add: apply_json_merge_patch.simps)

lemma ordered_distinct: "ordered ms \<Longrightarrow> distinct (map fst ms)"
  by (metis strict_sorted_iff)

lemma map_of_merge_members:
  "distinct (map fst ps) \<Longrightarrow> map_of (merge_members ps ts) name =
     (case map_of ps name of
        None \<Rightarrow> map_of ts name
      | Some v \<Rightarrow>
          if v = JNull then None
          else Some (apply_json_merge_patch (case map_of ts name of Some t \<Rightarrow> t | None \<Rightarrow> JNull) v))"
proof (induction ps arbitrary: ts)
  case (Cons p ps)
  obtain k v where p: "p = (k, v)" by (cases p)
  then have "k \<notin> fst ` set ps" and d: "distinct (map fst ps)" using Cons.prems by auto
  then have k: "map_of ps k = None" by (simp add: map_of_eq_None_iff)
  show ?case
  proof (cases "name = k")
    case True
    then show ?thesis using k Cons.IH [OF d] by (simp add: p del: merge_patch_simps)
  next
    case False
    then show ?thesis
      by (cases "map_of ps name") (simp_all add: p Cons.IH [OF d] del: merge_patch_simps)
  qed
qed simp

lemma ordered_merge_members: "ordered ts \<Longrightarrow> ordered (merge_members ps ts)"
  by (induction ps arbitrary: ts) (auto simp del: merge_patch_simps)

lemma well_formed_member: "well_formed (JObject ms) \<Longrightarrow> map_of ms k = Some v \<Longrightarrow> well_formed v"
  by (auto dest: map_of_SomeD simp: list_all_iff)

lemma well_formed_insert: "well_formed (JObject ms) \<Longrightarrow> well_formed v \<Longrightarrow> well_formed (JObject (member_insert k v ms))"
  using set_member_insert [of k v ms] by (fastforce simp: list_all_iff)

lemma well_formed_remove: "well_formed (JObject ms) \<Longrightarrow> well_formed (JObject (member_remove k ms))"
  using set_member_remove [of k ms] by (auto simp: list_all_iff)

lemma well_formed_members_of: "well_formed t \<Longrightarrow> well_formed (JObject (members_of t))"
  by (cases t) (simp_all add: members_of_def)

lemma well_formed_merge:
  "well_formed target \<Longrightarrow> well_formed patch \<Longrightarrow> well_formed (apply_json_merge_patch target patch)"
  "well_formed (JObject ts) \<Longrightarrow> list_all (\<lambda>(_, v). well_formed v) ps \<Longrightarrow> well_formed (JObject (merge_members ps ts))"
proof (induction target patch and ps ts rule: apply_json_merge_patch_merge_members.induct)
  case (1 target patch)
  then show ?case
    by (cases patch) (simp_all add: well_formed_members_of del: well_formed.simps(1), simp_all)
next
  case (3 name v ps ts)
  show ?case
  proof (cases "v = JNull")
    case True
    then show ?thesis using 3 well_formed_remove by (simp del: well_formed.simps)
  next
    case False
    have "well_formed (case map_of ts name of Some v \<Rightarrow> v | None \<Rightarrow> JNull)"
      using well_formed_member [OF 3(3)] by (auto split: option.splits)
    then show ?thesis
      using False 3 well_formed_insert by (simp del: well_formed.simps merge_patch_simps)
  qed
qed simp

text \<open>A patch that is applied twice changes nothing the second time.\<close>

lemma merge_patch_idempotent:
  "well_formed target \<Longrightarrow> well_formed patch \<Longrightarrow>
   apply_json_merge_patch (apply_json_merge_patch target patch) patch = apply_json_merge_patch target patch"
proof (induction patch arbitrary: target)
  case (JObject ps)
  let ?m = "merge_members ps (members_of target)"
  have o: "ordered (members_of target)" using JObject.prems(1) well_formed_members_of by fastforce
  have d: "distinct (map fst ps)" using JObject.prems(2) by (intro ordered_distinct) simp
  have wt: "well_formed (case map_of (members_of target) k of Some t \<Rightarrow> t | None \<Rightarrow> JNull)" for k
    using well_formed_member [OF well_formed_members_of [OF JObject.prems(1)]] by (auto split: option.splits)
  have "map_of (merge_members ps ?m) = map_of ?m"
  proof
    fix k
    show "map_of (merge_members ps ?m) k = map_of ?m k"
    proof (cases "map_of ps k")
      case (Some v)
      then have "v \<in> Basic_BNFs.snds (k, v)" "(k, v) \<in> set ps" by (auto dest: map_of_SomeD)
      then have "apply_json_merge_patch (apply_json_merge_patch t v) v = apply_json_merge_patch t v" if "well_formed t" for t
        using JObject.IH that well_formed_member [OF JObject.prems(2) Some] by blast
      then show ?thesis using Some wt d by (simp add: map_of_merge_members del: merge_patch_simps)
    qed (simp add: map_of_merge_members d)
  qed
  then show ?case using o by (simp add: ordered_eqI ordered_merge_members)
qed simp_all

end
