(* ===== verification/Feature_Rows.thy ===== *)
theory Feature_Rows
  imports Merge_Patch
begin

text \<open>
  A row of a PostGIS table: how it is read as a feature (\<open>feature_expr\<close> of \<open>crates/tellurion-postgis/src/sql.rs\<close>),
  what an upsert makes of it (\<open>resolve_property_types\<close> and \<open>write_apply_inner\<close> of \<open>driver.rs\<close>,
  \<open>build_upsert_plan\<close> of \<open>write_sql.rs\<close>) and the merge a PATCH stages between the two. The casts of the
  database, its constraints and its spatial functions are arguments. A feature id is the text of its key.
  The budget of vertices of a collection, over which reading an item is an error, is left out.
\<close>

section \<open>Tables and rows\<close>

record 'c table_env =
  te_postgis :: "'c postgis"
  te_srid :: "int option"
  te_columns :: "(string \<times> string) list"
  te_schema :: "schema_decl option"
  te_is_integer :: "string \<Rightarrow> bool"
  te_geometry_error :: "json \<Rightarrow> string option"
  te_nullable :: "string \<Rightarrow> bool"
  te_cast :: "string \<Rightarrow> property_type \<Rightarrow> string \<Rightarrow> json option"

datatype refusal =
    Bad_Geometry_Member string
  | Schema_Violated "schema_problem list"
  | Unwritable_Property string
  | Invalid_Identifier string
  | Unsupported_Property_Value string
  | Database_Refuses string
  | Database_Geometry

text \<open>The properties are the attribute columns, by name; \<open>NULL\<close> is \<open>JNull\<close>.\<close>

record 'c stored_row =
  sr_geometry :: "'c pg_geometry option"
  sr_properties :: "(string \<times> json) list"

definition item_feature :: "'c table_env \<Rightarrow> string \<Rightarrow> requested_crs \<Rightarrow> 'c stored_row \<Rightarrow> json" where
  "item_feature te fid requested row =
     JObject
       [(''geometry'', case sr_geometry row of
           None \<Rightarrow> JNull
         | Some g \<Rightarrow> pg_as_geojson (te_postgis te) (reprojected_geom (te_postgis te) requested (te_srid te) g)),
        (''id'', JString fid),
        (''properties'', JObject (sr_properties row)),
        (''type'', JString ''Feature'')]"

section \<open>The data statement\<close>

definition ident_start :: "char \<Rightarrow> bool" where
  "ident_start c =
     (let b = of_char c :: nat in b = 95 \<or> b \<in> {97..122} \<or> b \<in> {65..90})"

definition ident_part :: "char \<Rightarrow> bool" where
  "ident_part c = (ident_start c \<or> of_char c \<in> {48..57 :: nat})"

definition validate_charset :: "string \<Rightarrow> bool" where
  "validate_charset name =
     (case name of [] \<Rightarrow> False | c # cs \<Rightarrow> length name \<le> 63 \<and> ident_start c \<and> list_all ident_part cs)"

definition property_type_of :: "'c table_env \<Rightarrow> string \<Rightarrow> property_type option" where
  "property_type_of te key =
     (case Option.bind (te_schema te) (\<lambda>schema. List.find (\<lambda>p. pd_name p = key) (sd_properties schema)) of
        Some property \<Rightarrow> Some (pd_type property)
      | None \<Rightarrow> map_option from_sql_type (map_of (te_columns te) key))"

definition resolve_property_types ::
  "'c table_env \<Rightarrow> (string \<times> json) list \<Rightarrow> refusal + (string \<times> property_type \<times> json) list" where
  "resolve_property_types te =
     traverse (\<lambda>(key, v). and_then (ok_or (property_type_of te key) (Unwritable_Property key)) (\<lambda>ty. Inr (key, ty, v)))"

definition scalar_as_text :: "string \<Rightarrow> json \<Rightarrow> refusal + string option" where
  "scalar_as_text key value =
     (case value of
        JNull \<Rightarrow> Inr None
      | JString s \<Rightarrow> Inr (Some s)
      | JNumber n \<Rightarrow> Inr (Some n)
      | JBool b \<Rightarrow> Inr (Some (if b then ''true'' else ''false''))
      | _ \<Rightarrow> Inl (Unsupported_Property_Value key))"

definition plan_property :: "string \<times> property_type \<times> json \<Rightarrow> refusal + (string \<times> property_type \<times> string option)" where
  "plan_property = (\<lambda>(key, ty, v).
     and_then (ensure (validate_charset key) (Invalid_Identifier key)) (\<lambda>_.
     and_then (scalar_as_text key v) (\<lambda>text'. Inr (key, ty, text'))))"

text \<open>What the database makes of a literal: the value the column is read as afterwards.\<close>

definition store_property :: "'c table_env \<Rightarrow> string \<times> property_type \<times> string option \<Rightarrow> refusal + (string \<times> json)" where
  "store_property te = (\<lambda>(key, ty, text').
     case text' of
       None \<Rightarrow> and_then (ensure (te_nullable te key) (Database_Refuses key)) (\<lambda>_. Inr (key, JNull))
     | Some s \<Rightarrow> and_then (ok_or (te_cast te key ty s) (Database_Refuses key)) (\<lambda>v. Inr (key, v)))"

definition store_geometry :: "'c table_env \<Rightarrow> requested_crs \<Rightarrow> json option \<Rightarrow> refusal + 'c pg_geometry option" where
  "store_geometry te requested geometry =
     (case geometry of
        None \<Rightarrow> Inr None
      | Some value \<Rightarrow>
          if value = JNull then Inr None
          else map_sum id (\<lambda>g. Some (input_geom (te_postgis te) requested (te_srid te) g))
            (ok_or (pg_from_geojson (te_postgis te) value) Database_Geometry))"

text \<open>
  An update sets the columns the feature names and the geometry; an insert leaves the others \<open>NULL\<close>, which
  stands for their defaults.
\<close>

definition null_columns :: "'c table_env \<Rightarrow> (string \<times> json) list" where
  "null_columns te = fold (\<lambda>(c, _). member_insert c JNull) (te_columns te) []"

definition feature_properties :: "json \<Rightarrow> (string \<times> json) list" where
  "feature_properties feature = (case json_get feature ''properties'' of Some v \<Rightarrow> members_of v | None \<Rightarrow> [])"

definition upsert_row ::
  "'c table_env \<Rightarrow> requested_crs \<Rightarrow> json \<Rightarrow> 'c stored_row option \<Rightarrow> refusal + 'c stored_row" where
  "upsert_row te requested feature row =
     and_then (resolve_property_types te (feature_properties feature)) (\<lambda>typed.
     and_then (traverse plan_property typed) (\<lambda>planned.
     and_then (store_geometry te requested (json_get feature ''geometry'')) (\<lambda>geometry.
     and_then (traverse (store_property te) planned) (\<lambda>values.
     Inr \<lparr>sr_geometry = geometry,
          sr_properties = fold (\<lambda>(key, v). member_insert key v) values
            (case row of Some row \<Rightarrow> sr_properties row | None \<Rightarrow> null_columns te)\<rparr>))))"

section \<open>The body of a PUT and the merge of a PATCH\<close>

definition check_schema :: "'c table_env \<Rightarrow> (string \<times> json) list \<Rightarrow> refusal write_error + unit" where
  "check_schema te properties =
     (case te_schema te of
        None \<Rightarrow> Inr ()
      | Some schema \<Rightarrow>
          map_err (\<lambda>problems. Refused_By (Schema_Violated problems))
            (validate_feature_properties (te_is_integer te) schema properties))"

definition put_feature :: "'c table_env \<Rightarrow> json \<Rightarrow> refusal write_error + json" where
  "put_feature te body =
     and_then (parse_feature_body body) (\<lambda>(feature, properties).
     and_then (check_schema te properties) (\<lambda>_. Inr feature))"

definition patch_document :: "json \<Rightarrow> json" where
  "patch_document patch = (case patch of JObject ms \<Rightarrow> JObject (member_remove ''id'' ms) | _ \<Rightarrow> patch)"

definition patched_feature :: "'c table_env \<Rightarrow> json \<Rightarrow> string \<Rightarrow> json \<Rightarrow> refusal write_error + json" where
  "patched_feature te patch fid current =
     and_then (validate_patched_feature (\<lambda>g. map_option Bad_Geometry_Member (te_geometry_error te g))
       (preserve_relational_property_tombstones (apply_json_merge_patch current patch) (property_tombstones current patch))
       fid) (\<lambda>(feature, properties).
     and_then (check_schema te properties) (\<lambda>_. Inr feature))"

definition mutation_crs :: "json \<Rightarrow> requested_crs \<Rightarrow> requested_crs \<Rightarrow> requested_crs" where
  "mutation_crs patch resolved working = (if json_get patch ''geometry'' \<noteq> None then resolved else working)"

section \<open>What an upsert writes\<close>

definition written :: "'c table_env \<Rightarrow> string \<Rightarrow> json \<Rightarrow> refusal + json" where
  "written te key v =
     and_then (ok_or (property_type_of te key) (Unwritable_Property key)) (\<lambda>ty.
     and_then (plan_property (key, ty, v)) (\<lambda>planned.
     and_then (store_property te planned) (\<lambda>(_, u). Inr u)))"

lemma map_of_list_all2:
  "list_all2 (\<lambda>(j, v) (j', u). j' = j \<and> P j v u) xs ys \<Longrightarrow> rel_option (P k) (map_of xs k) (map_of ys k)"
  by (induction xs ys rule: list_all2_induct) auto

lemma map_of_fold_insert:
  "map_of (fold (\<lambda>(k, v). member_insert k v) vs base) = map_of base ++ map_of (rev vs)"
proof (induction vs arbitrary: base)
  case (Cons p vs)
  then show ?case by (cases p) (simp add: map_add_def fun_eq_iff split: option.splits)
qed simp

lemma ordered_fold_insert: "ordered base \<Longrightarrow> ordered (fold (\<lambda>(k, v). member_insert k v) vs base)"
  by (induction vs arbitrary: base) (auto simp: case_prod_unfold)

lemma upsert_row_values:
  assumes "upsert_row te requested feature row = Inr row'"
  obtains stored where
    "list_all2 (\<lambda>(key, v) (key', u). key' = key \<and> written te key v = Inr u) (feature_properties feature) stored"
    "sr_properties row' = fold (\<lambda>(key, v). member_insert key v) stored
       (case row of Some row \<Rightarrow> sr_properties row | None \<Rightarrow> null_columns te)"
    "store_geometry te requested (json_get feature ''geometry'') = Inr (sr_geometry row')"
proof -
  let ?resolve = "\<lambda>(key, v). and_then (ok_or (property_type_of te key) (Unwritable_Property key)) (\<lambda>ty. Inr (key, ty, v))"
  from assms obtain typed planned geometry stored where
    t: "list_all2 (\<lambda>x y. ?resolve x = Inr y) (feature_properties feature) typed"
    and p: "list_all2 (\<lambda>x y. plan_property x = Inr y) typed planned"
    and g: "store_geometry te requested (json_get feature ''geometry'') = Inr geometry"
    and v: "list_all2 (\<lambda>x y. store_property te x = Inr y) planned stored"
    and row': "row' = \<lparr>sr_geometry = geometry, sr_properties = fold (\<lambda>(key, v). member_insert key v) stored
            (case row of Some row \<Rightarrow> sr_properties row | None \<Rightarrow> null_columns te)\<rparr>"
    unfolding upsert_row_def resolve_property_types_def and_then_Inr_iff traverse_Inr_iff by blast
  have one: "key' = key \<and> written te key v = Inr u"
    if "?resolve (key, v) = Inr y" "plan_property y = Inr z" "store_property te z = Inr (key', u)" for key v y z key' u
    using that unfolding written_def store_property_def plan_property_def
    by (cases "scalar_as_text key v") (auto simp: result_simps split: option.splits)
  have pv: "list_all2 (\<lambda>y (key', u). \<exists>z. plan_property y = Inr z \<and> store_property te z = Inr (key', u)) typed stored"
    by (rule list_all2_trans [OF _ p v]) auto
  have "list_all2 (\<lambda>(key, v) (key', u). key' = key \<and> written te key v = Inr u) (feature_properties feature) stored"
    by (rule list_all2_trans [OF _ t pv]) (use one in blast)
  with g row' that show thesis by simp
qed

lemma upsert_row_lookup:
  assumes "upsert_row te requested feature (Some row) = Inr row'" and "ordered (feature_properties feature)"
  shows "case map_of (feature_properties feature) k of
      None \<Rightarrow> map_of (sr_properties row') k = map_of (sr_properties row) k
    | Some v \<Rightarrow> \<exists>u. written te k v = Inr u \<and> map_of (sr_properties row') k = Some u"
proof -
  from assms(1) obtain stored where
    l: "list_all2 (\<lambda>(key, v) (key', u). key' = key \<and> written te key v = Inr u) (feature_properties feature) stored"
    and r: "sr_properties row' = fold (\<lambda>(key, v). member_insert key v) stored (sr_properties row)"
    by (rule upsert_row_values) simp
  from l have "map fst stored = map fst (feature_properties feature)"
    by (induction rule: list_all2_induct) auto
  then have d: "distinct (map fst stored)" using ordered_distinct [OF assms(2)] by simp
  have "map_of (sr_properties row') k = (case map_of stored k of None \<Rightarrow> map_of (sr_properties row) k | Some u \<Rightarrow> Some u)"
    using map_of_inject_set [of "rev stored" stored] d by (simp add: r map_of_fold_insert map_add_def rev_map [symmetric])
  with map_of_list_all2 [OF l, of k] show ?thesis
    by (auto split: option.splits elim!: option.rel_cases)
qed

text \<open>A PUT replaces the columns it names: a property its body leaves out is still there afterwards.\<close>

lemma upsert_keeps_unnamed_properties:
  assumes "upsert_row te requested feature (Some row) = Inr row'" and "ordered (feature_properties feature)"
    and "map_of (feature_properties feature) k = None"
  shows "map_of (sr_properties row') k = map_of (sr_properties row) k"
  using upsert_row_lookup [OF assms(1,2), of k] assms(3) by simp

section \<open>What a merge stages\<close>

lemma ordered_feature_members:
  "ordered [(''geometry'', a), (''id'', b), (''properties'', c), (''type'', d)]"
  by code_simp

definition patch_properties :: "json \<Rightarrow> (string \<times> json) list" where
  "patch_properties patch = (case json_get patch ''properties'' of Some v \<Rightarrow> members_of v | None \<Rightarrow> [])"

lemma map_of_fold_tombstones:
  "map_of (fold (\<lambda>name. member_insert name JNull) names ms) k = (if k \<in> set names then Some JNull else map_of ms k)"
  by (induction names arbitrary: ms) auto

lemma ordered_fold_tombstones: "ordered ms \<Longrightarrow> ordered (fold (\<lambda>name. member_insert name JNull) names ms)"
  by (induction names arbitrary: ms) auto

lemma validated_feature:
  assumes "validate_patched_feature g feature fid = Inr (feature', properties)"
  obtains object where "feature = JObject object" "feature' = JObject (member_insert ''id'' (JString fid) object)"
    "map_of object ''properties'' = Some JNull \<and> properties = []
      \<or> map_of object ''properties'' = Some (JObject properties)"
    "map_of object ''type'' = Some (JString ''Feature'')"
    "map_of object ''geometry'' = Some JNull \<or> (\<exists>geometry. map_of object ''geometry'' = Some (JObject geometry) \<and> g (JObject geometry) = None)"
  using assms unfolding validate_patched_feature_def
  by (auto simp: result_simps ensure_def Let_def split: json.splits option.splits if_splits)

text \<open>The object a merge leaves, before the identifier is written over it.\<close>

lemma patched_object:
  assumes "patched_feature te patch fid (item_feature te fid requested row) = Inr feature"
    and "well_formed patch" "ordered (sr_properties row)"
  obtains ms properties where "patch = JObject ms"
    "json_get feature ''properties'' = Some (JObject properties)"
    "properties = fold (\<lambda>name. member_insert name JNull) (property_tombstones (item_feature te fid requested row) patch)
       (merge_members (patch_properties patch) (sr_properties row))"
    "json_get patch ''geometry'' = None \<longrightarrow> json_get feature ''geometry'' = json_get (item_feature te fid requested row) ''geometry''"
proof -
  let ?item = "item_feature te fid requested row"
  let ?t = "property_tombstones ?item patch"
  let ?f = "preserve_relational_property_tombstones (apply_json_merge_patch ?item patch) ?t"
  from assms(1) obtain properties' where
    v: "validate_patched_feature (\<lambda>g. map_option Bad_Geometry_Member (te_geometry_error te g)) ?f fid = Inr (feature, properties')"
    unfolding patched_feature_def and_then_Inr_iff by (auto simp: result_simps split: prod.splits)
  then obtain object where object: "?f = JObject object" "feature = JObject (member_insert ''id'' (JString fid) object)"
    "map_of object ''properties'' = Some JNull \<or> map_of object ''properties'' = Some (JObject properties')"
    by (rule validated_feature) auto
  obtain ms where ms: "patch = JObject ms"
    using object(1) by (cases patch) (simp_all add: preserve_relational_property_tombstones_def)
  have d: "distinct (map fst ms)" using assms(2) ms by (intro ordered_distinct) simp
  let ?item_members = "members_of ?item"
  have item: "map_of ?item_members ''properties'' = Some (JObject (sr_properties row))"
    by (simp add: item_feature_def)
  let ?m = "merge_members ms ?item_members"
  have f: "?f = preserve_relational_property_tombstones (JObject ?m) ?t" by (simp add: ms)
  have geometry: "json_get patch ''geometry'' = None \<longrightarrow> map_of object ''geometry'' = json_get ?item ''geometry''"
    using object(1) unfolding f
    by (auto simp: preserve_relational_property_tombstones_def Let_def ms map_of_merge_members d item_feature_def split: if_splits)
  have mp: "map_of ?m ''properties'' = (case map_of ms ''properties'' of
      None \<Rightarrow> Some (JObject (sr_properties row))
    | Some v \<Rightarrow> if v = JNull then None else Some (apply_json_merge_patch (JObject (sr_properties row)) v))"
    by (cases "map_of ms ''properties''") (simp_all add: map_of_merge_members d item del: merge_patch_simps)
  have "map_of object ''properties'' =
    Some (JObject (fold (\<lambda>name. member_insert name JNull) ?t (merge_members (patch_properties patch) (sr_properties row))))"
  proof (cases "map_of ms ''properties''")
    case None
    then have "?t = []" "patch_properties patch = []"
      by (simp_all add: property_tombstones_def patch_properties_def ms)
    then show ?thesis using object(1) mp None unfolding f by (simp add: preserve_relational_property_tombstones_def)
  next
    case (Some v)
    have "\<exists>ps. v = JObject ps"
    proof (rule ccontr)
      assume v: "\<nexists>ps. v = JObject ps"
      then have "?t = []" by (cases v) (simp_all add: property_tombstones_def ms Some)
      then have "object = ?m" using object(1) unfolding f by (simp add: preserve_relational_property_tombstones_def)
      then show False using object(3) mp Some v by (cases v) (auto split: if_splits)
    qed
    then obtain ps where ps: "v = JObject ps" ..
    then have "patch_properties patch = ps" by (simp add: patch_properties_def ms Some)
    then show ?thesis using object(1) mp Some ps unfolding f
      by (auto simp: preserve_relational_property_tombstones_def Let_def split: if_splits)
  qed
  then show thesis using that [OF ms _ refl] object(2) geometry by simp
qed

lemma patched_properties:
  assumes "patched_feature te patch fid (item_feature te fid requested row) = Inr feature"
    and "well_formed patch" "ordered (sr_properties row)"
  shows "ordered (feature_properties feature)"
    and "map_of (feature_properties feature) k =
      (case map_of (patch_properties patch) k of
         None \<Rightarrow> map_of (sr_properties row) k
       | Some v \<Rightarrow>
           if v = JNull then map_option (\<lambda>_. JNull) (map_of (sr_properties row) k)
           else Some (apply_json_merge_patch (case map_of (sr_properties row) k of Some t \<Rightarrow> t | None \<Rightarrow> JNull) v))"
proof -
  from assms obtain ms properties where ms: "patch = JObject ms"
    and f: "json_get feature ''properties'' = Some (JObject properties)"
    and p: "properties = fold (\<lambda>name. member_insert name JNull) (property_tombstones (item_feature te fid requested row) patch)
       (merge_members (patch_properties patch) (sr_properties row))"
    by (rule patched_object) blast
  have fp: "feature_properties feature = properties" by (simp add: feature_properties_def f)
  show "ordered (feature_properties feature)"
    unfolding fp p by (intro ordered_fold_tombstones ordered_merge_members assms)
  have "well_formed (JObject (patch_properties patch))"
    using assms(2) well_formed_member [of ms "''properties''"]
    by (auto simp: patch_properties_def ms split: option.splits intro!: well_formed_members_of simp del: well_formed.simps)
       simp
  then have d: "distinct (map fst (patch_properties patch))" by (intro ordered_distinct) simp
  have t: "k \<in> set (property_tombstones (item_feature te fid requested row) patch)
      \<longleftrightarrow> map_of (patch_properties patch) k = Some JNull \<and> map_of (sr_properties row) k \<noteq> None"
  proof -
    have "set (property_tombstones (item_feature te fid requested row) patch)
      = {k. (k, JNull) \<in> set (patch_properties patch) \<and> map_of (sr_properties row) k \<noteq> None}"
      by (force simp: property_tombstones_def patch_properties_def item_feature_def split: option.splits json.splits
          simp: members_of_def)
    then show ?thesis using d by (auto simp: map_of_eq_Some_iff)
  qed
  show "map_of (feature_properties feature) k =
      (case map_of (patch_properties patch) k of
         None \<Rightarrow> map_of (sr_properties row) k
       | Some v \<Rightarrow>
           if v = JNull then map_option (\<lambda>_. JNull) (map_of (sr_properties row) k)
           else Some (apply_json_merge_patch (case map_of (sr_properties row) k of Some t \<Rightarrow> t | None \<Rightarrow> JNull) v))"
    unfolding fp p map_of_fold_tombstones t map_of_merge_members [OF d]
    by (auto split: option.splits)
qed

text \<open>A value of a row that can be written back as it was read.\<close>

definition writes_back :: "'c table_env \<Rightarrow> 'c stored_row \<Rightarrow> bool" where
  "writes_back te row = list_all (\<lambda>(k, v). written te k v = Inr v) (sr_properties row)"

definition geometry_writes_back :: "'c table_env \<Rightarrow> 'c stored_row \<Rightarrow> bool" where
  "geometry_writes_back te row =
     (case sr_geometry row of
        None \<Rightarrow> True
      | Some (srid, c) \<Rightarrow>
          srid = (case te_srid te of Some s \<Rightarrow> s | None \<Rightarrow> 4326)
          \<and> returns_from_crs84 (te_postgis te) (te_srid te) c
          \<and> (let g = reprojected_geom (te_postgis te) Crs84 (te_srid te) (srid, c) in
             pg_as_geojson (te_postgis te) g \<noteq> JNull
             \<and> map_option snd (pg_from_geojson (te_postgis te) (pg_as_geojson (te_postgis te) g)) = Some (snd g)))"

lemma input_geom_coordinates: "snd g = snd h \<Longrightarrow> input_geom pg requested s g = input_geom pg requested s h"
  by (auto simp: input_geom_def st_set_srid_def st_flip_coordinates_def st_transform_def
      split: option.splits requested_crs.splits)

lemma stored_geometry_returns:
  assumes "geometry_writes_back te row"
  shows "store_geometry te Crs84 (json_get (item_feature te fid Crs84 row) ''geometry'') = Inr (sr_geometry row)"
proof (cases "sr_geometry row")
  case (Some g)
  obtain c where g: "g = (case te_srid te of Some s \<Rightarrow> s | None \<Rightarrow> 4326, c)"
    and r: "returns_from_crs84 (te_postgis te) (te_srid te) c"
    and nonnull: "pg_as_geojson (te_postgis te) (reprojected_geom (te_postgis te) Crs84 (te_srid te) g) \<noteq> JNull"
    and p: "map_option snd (pg_from_geojson (te_postgis te) (pg_as_geojson (te_postgis te)
      (reprojected_geom (te_postgis te) Crs84 (te_srid te) g))) = Some (snd (reprojected_geom (te_postgis te) Crs84 (te_srid te) g))"
    using assms Some by (cases g) (auto simp: geometry_writes_back_def Let_def)
  from p obtain h where h: "pg_from_geojson (te_postgis te) (pg_as_geojson (te_postgis te)
      (reprojected_geom (te_postgis te) Crs84 (te_srid te) g)) = Some h"
    and hs: "snd h = snd (reprojected_geom (te_postgis te) Crs84 (te_srid te) g)" by auto
  have "input_geom (te_postgis te) Crs84 (te_srid te) h = g"
    unfolding input_geom_coordinates [OF hs] g by (rule input_of_reprojected [OF r]) simp
  then show ?thesis by (simp add: store_geometry_def item_feature_def Some nonnull h)
qed (simp add: store_geometry_def item_feature_def)

section \<open>A PATCH changes what it names\<close>

text \<open>
  C13. A PATCH changes what its document names and nothing else. When the merge is staged on the feature a row is
  read as and the upsert of the result succeeds on that row, a property the document does not name keeps its
  value, one it sets to null becomes null, and any other takes what the database makes of the merged value;
  the geometry is kept when the document has none. The values of the row must be ones that can be written back as they
  were read, and its coordinates ones that the transformation to CRS84 and GeoJSON bring back.\<close>

theorem patch_changes_what_it_names:
  assumes "patched_feature te patch fid (item_feature te fid Crs84 row) = Inr feature"
    and "upsert_row te (mutation_crs patch resolved Crs84) feature (Some row) = Inr row'"
    and "well_formed patch" "ordered (sr_properties row)"
    and "writes_back te row" "geometry_writes_back te row"
  shows "(json_get patch ''geometry'' = None \<longrightarrow> sr_geometry row' = sr_geometry row)
    \<and> (case map_of (patch_properties patch) k of
         None \<Rightarrow> map_of (sr_properties row') k = map_of (sr_properties row) k
       | Some JNull \<Rightarrow> map_of (sr_properties row') k = map_option (\<lambda>_. JNull) (map_of (sr_properties row) k)
       | Some v \<Rightarrow> \<exists>u. written te k (apply_json_merge_patch
             (case map_of (sr_properties row) k of Some t \<Rightarrow> t | None \<Rightarrow> JNull) v) = Inr u
           \<and> map_of (sr_properties row') k = Some u)"
proof -
  note pp = patched_properties [OF assms(1,3,4)]
  have k: "case map_of (feature_properties feature) k of
      None \<Rightarrow> map_of (sr_properties row') k = map_of (sr_properties row) k
    | Some v \<Rightarrow> \<exists>u. written te k v = Inr u \<and> map_of (sr_properties row') k = Some u"
    by (rule upsert_row_lookup [OF assms(2) pp(1)])
  have same: "written te k v = Inr v" if "map_of (sr_properties row) k = Some v" for v
    using assms(5) that by (auto simp: writes_back_def list_all_iff dest!: map_of_SomeD)
  have null: "written te k JNull = Inr u \<Longrightarrow> u = JNull" for u
    by (auto simp: written_def plan_property_def scalar_as_text_def store_property_def result_simps)
  have "sr_geometry row' = sr_geometry row" if "json_get patch ''geometry'' = None"
  proof -
    have "json_get feature ''geometry'' = json_get (item_feature te fid Crs84 row) ''geometry''"
      using assms(1,3,4) by (rule patched_object) (use that in blast)
    moreover have "store_geometry te Crs84 (json_get feature ''geometry'') = Inr (sr_geometry row')"
      using assms(2) by (rule upsert_row_values) (simp add: mutation_crs_def that)
    ultimately show ?thesis using stored_geometry_returns [OF assms(6), of fid] by simp
  qed
  moreover have "case map_of (patch_properties patch) k of
         None \<Rightarrow> map_of (sr_properties row') k = map_of (sr_properties row) k
       | Some v \<Rightarrow> if v = JNull then map_of (sr_properties row') k = map_option (\<lambda>_. JNull) (map_of (sr_properties row) k)
         else \<exists>u. written te k (apply_json_merge_patch
             (case map_of (sr_properties row) k of Some t \<Rightarrow> t | None \<Rightarrow> JNull) v) = Inr u
           \<and> map_of (sr_properties row') k = Some u"
    using k same null unfolding pp(2) by (auto split: option.splits if_splits)
  ultimately show ?thesis by (auto split: option.splits json.splits)
qed

definition example_postgis :: "string postgis" where
  "example_postgis = \<lparr>pg_transform = (\<lambda>s t c. if t = 4326 then CHR ''w'' # c else tl c), pg_flip = rev,
     pg_as_geojson = (\<lambda>(s, c). JObject [(''c'', JString c)]),
     pg_from_geojson = (\<lambda>v. case v of JObject ((k, JString c) # ms) \<Rightarrow> Some (4326, c) | _ \<Rightarrow> None)\<rparr>"

definition example_table :: "string table_env" where
  "example_table = \<lparr>te_postgis = example_postgis, te_srid = Some 3857,
     te_columns = [(''name'', ''text''), (''pop'', ''integer'')], te_schema = None, te_is_integer = (\<lambda>_. True),
     te_geometry_error = (\<lambda>_. None), te_nullable = (\<lambda>_. True),
     te_cast = (\<lambda>key ty s. Some (if ty = Ty_String then JString s else JNumber s))\<rparr>"

definition example_row :: "string stored_row" where
  "example_row = \<lparr>sr_geometry = Some (3857, ''xy''), sr_properties = [(''name'', JString ''a''), (''pop'', JNumber ''7'')]\<rparr>"

definition example_patch :: json where
  "example_patch = JObject [(''properties'', JObject [(''pop'', JNull)])]"

definition example_feature :: json where
  "example_feature =
     (case patched_feature example_table example_patch ''1'' (item_feature example_table ''1'' Crs84 example_row) of Inr f \<Rightarrow> f | _ \<Rightarrow> JNull)"

definition example_row_after :: "string stored_row" where
  "example_row_after = \<lparr>sr_geometry = Some (3857, ''xy''), sr_properties = [(''name'', JString ''a''), (''pop'', JNull)]\<rparr>"

theorem patch_changes_what_it_names_witness:
  "sr_geometry example_row_after = Some (3857, ''xy'')
   \<and> map_of (sr_properties example_row_after) ''name'' = Some (JString ''a'')
   \<and> map_of (sr_properties example_row_after) ''pop'' = Some JNull"
proof -
  have p: "patched_feature example_table example_patch ''1'' (item_feature example_table ''1'' Crs84 example_row) = Inr example_feature"
    by code_simp
  have u: "upsert_row example_table (mutation_crs example_patch Omitted Crs84) example_feature (Some example_row) = Inr example_row_after"
    by code_simp
  have w: "well_formed example_patch" "ordered (sr_properties example_row)" "writes_back example_table example_row"
    "geometry_writes_back example_table example_row" by code_simp+
  from patch_changes_what_it_names [OF p u w, of "''name''"] patch_changes_what_it_names [OF p u w, of "''pop''"]
  show ?thesis by (simp add: example_patch_def example_row_def patch_properties_def)
qed

end
