(* ===== verification/Conditional_Writes.thy ===== *)
theory Conditional_Writes
  imports Feature_Rows
begin

text \<open>
  The handlers \<open>put_item\<close>, \<open>patch_item\<close> and \<open>delete_item\<close> of \<open>crates/tellurion-features/src/write_handlers.rs\<close>, from
  their preconditions on, on one collection whose features lane and write lane are one PostGIS table. The requests of
  several clients interleave between their round trips to the database; a phase is what a handler holds
  between two of them. A write is one step: its data statement locks the row and tests the row version in the same
  statement, and its transaction ends in \<open>commit\<close> or leaves nothing. Resolution of the collection,
  authorization and the reading of the body come before and are other theories. A feature id that the type of the key
  cannot hold, and an error of the database, end a request without an effect and are left out.
\<close>

section \<open>Requests\<close>

datatype write_op = Put json | Patch json | Remove

record write_request =
  wr_feature_id :: string
  wr_headers :: write_headers
  wr_op :: write_op

record 'c write_env =
  we_table :: "'c table_env"
  we_lock :: lock_env
  we_modified_column :: "string option"
  we_row_versions :: bool
  we_read_crs_capable :: bool
  we_write_crs_capable :: bool

datatype response = No_Content | Patched json string

datatype phase =
    Received
  | Captured "nat option"
  | Admitted "nat option"
  | Merging "nat option"
  | Merged "nat option" json requested_crs
  | Written
  | Confirmed json
  | Answered "refusal write_error + response"

datatype 'c effect = Nothing | Store "'c stored_row" | Erase

type_synonym 'c versioned_rows = "string \<Rightarrow> ('c stored_row \<times> nat) option"

section \<open>Guards\<close>

definition resolve_content_crs :: "write_headers \<Rightarrow> int option \<Rightarrow> refusal write_error + requested_crs" where
  "resolve_content_crs headers storage_srid =
     (case hd_content_crs headers of
        None \<Rightarrow> Inr Omitted
      | Some value' \<Rightarrow>
          and_then (ok_or value' (Header_Not_Ascii ''Content-Crs'')) (\<lambda>raw.
          and_then (map_err Crs_Refused (parse_content_crs_header raw)) (\<lambda>uri.
          map_err Crs_Refused (resolve_crs (Some uri) storage_srid))))"

definition refuse_unreprojectable_content_crs :: "requested_crs \<Rightarrow> bool \<Rightarrow> refusal write_error + unit" where
  "refuse_unreprojectable_content_crs resolved crs_capable =
     ensure (\<not> (resolved = Storage_Crs \<and> \<not> crs_capable)) Content_Crs_Not_Writable"

definition write_crs :: "'c write_env \<Rightarrow> write_headers \<Rightarrow> refusal write_error + requested_crs" where
  "write_crs env headers =
     and_then (resolve_content_crs headers (te_srid (we_table env))) (\<lambda>resolved.
     and_then (refuse_unreprojectable_content_crs resolved (we_write_crs_capable env)) (\<lambda>_. Inr resolved))"

definition capture_row_version :: "'c write_env \<Rightarrow> write_request \<Rightarrow> 'c versioned_rows \<Rightarrow> refusal write_error + nat option" where
  "capture_row_version env req rows =
     (if \<not> precondition_is_enforceable (we_lock env) (wr_headers req) (we_modified_column env) then Inr None
      else and_then (ensure (we_row_versions env) (Capability_Unsupported ''optimistic-locking'')) (\<lambda>_.
        Inr (map_option snd (rows (wr_feature_id req)))))"

definition read_item :: "'c write_env \<Rightarrow> write_request \<Rightarrow> requested_crs \<Rightarrow> 'c versioned_rows \<Rightarrow> json option" where
  "read_item env req requested rows =
     map_option (\<lambda>(row, _). item_feature (we_table env) (wr_feature_id req) requested row) (rows (wr_feature_id req))"

definition check_preconditions ::
  "'c write_env \<Rightarrow> write_request \<Rightarrow> nat option \<Rightarrow> json option \<Rightarrow> refusal write_error + nat option" where
  "check_preconditions env req witness current =
     and_then (evaluate_write_preconditions_against (we_lock env) (wr_headers req) (we_modified_column env) current)
       (\<lambda>enforced. resolve_witness enforced witness)"

definition sends_precondition :: "write_headers \<Rightarrow> bool" where
  "sends_precondition headers = (hd_if_match headers \<noteq> None \<or> hd_if_unmodified_since headers \<noteq> None)"

section \<open>The write\<close>

text \<open>
  A conditional statement that finds another version, or no row, writes nothing, whatever its values.
  The constructor of the result names what the handler goes on with.
\<close>

definition witness_holds :: "nat option \<Rightarrow> ('c stored_row \<times> nat) option \<Rightarrow> bool" where
  "witness_holds expected row = (case expected of None \<Rightarrow> True | Some v \<Rightarrow> map_option snd row = Some v)"

definition apply_upsert ::
  "'c write_env \<Rightarrow> write_request \<Rightarrow> nat option \<Rightarrow> json \<Rightarrow> requested_crs \<Rightarrow> 'c versioned_rows \<Rightarrow> phase \<Rightarrow> phase \<times> 'c effect" where
  "apply_upsert env req expected feature requested rows continue =
     (let row = rows (wr_feature_id req) in
      if \<not> witness_holds expected row then (Answered (Inl Changed_Before_Write), Nothing)
      else case upsert_row (we_table env) requested feature (map_option fst row) of
             Inl e \<Rightarrow> (Answered (Inl (Refused_By e)), Nothing)
           | Inr row' \<Rightarrow> (continue, Store row'))"

definition apply_delete :: "write_request \<Rightarrow> nat option \<Rightarrow> 'c versioned_rows \<Rightarrow> phase \<times> 'c effect" where
  "apply_delete req expected rows =
     (if \<not> witness_holds expected (rows (wr_feature_id req)) then (Answered (Inl Changed_Before_Write), Nothing)
      else (Answered (Inr No_Content), Erase))"

section \<open>The handlers\<close>

definition working_crs :: "'c write_env \<Rightarrow> requested_crs" where
  "working_crs env = (if we_read_crs_capable env then Crs84 else Omitted)"

definition continue_or :: "refusal write_error + phase \<Rightarrow> phase" where
  "continue_or r = (case r of Inl e \<Rightarrow> Answered (Inl e) | Inr phase \<Rightarrow> phase)"

definition stage_patch :: "'c write_env \<Rightarrow> write_request \<Rightarrow> nat option \<Rightarrow> json \<Rightarrow> json \<Rightarrow> refusal write_error + phase" where
  "stage_patch env req expected patch current =
     and_then (write_crs env (wr_headers req)) (\<lambda>resolved.
     and_then (patched_feature (we_table env) patch (wr_feature_id req) current) (\<lambda>feature.
     Inr (Merged expected feature (mutation_crs patch resolved (working_crs env)))))"

definition begin_request :: "'c write_env \<Rightarrow> write_request \<Rightarrow> 'c versioned_rows \<Rightarrow> phase" where
  "begin_request env req rows =
     (case wr_op req of
        Patch _ \<Rightarrow>
          continue_or (and_then (require_merge_patch_content_type (wr_headers req)) (\<lambda>_.
            map_sum id Captured (capture_row_version env req rows)))
      | _ \<Rightarrow>
          if \<not> sends_precondition (wr_headers req) then Admitted None
          else continue_or (map_sum id Captured (capture_row_version env req rows)))"

definition check_request :: "'c write_env \<Rightarrow> write_request \<Rightarrow> nat option \<Rightarrow> 'c versioned_rows \<Rightarrow> phase" where
  "check_request env req witness rows =
     (let current = read_item env req Omitted rows in
      case wr_op req of
        Patch patch \<Rightarrow>
          continue_or (and_then (ok_or current Feature_Not_Found) (\<lambda>canonical.
            and_then (check_preconditions env req witness (Some canonical)) (\<lambda>expected.
            if we_read_crs_capable env then and_then (write_crs env (wr_headers req)) (\<lambda>_. Inr (Merging expected))
            else stage_patch env req expected (patch_document patch) canonical)))
      | _ \<Rightarrow> continue_or (map_sum id Admitted (check_preconditions env req witness current)))"

definition merge_request :: "'c write_env \<Rightarrow> write_request \<Rightarrow> nat option \<Rightarrow> 'c versioned_rows \<Rightarrow> phase" where
  "merge_request env req expected rows =
     (case wr_op req of
        Patch patch \<Rightarrow>
          continue_or (and_then (ok_or (read_item env req (working_crs env) rows) Feature_Not_Found) (\<lambda>current.
            stage_patch env req expected (patch_document patch) current))
      | _ \<Rightarrow> Answered (Inl Feature_Not_Found))"

definition write_request_step :: "'c write_env \<Rightarrow> write_request \<Rightarrow> nat option \<Rightarrow> 'c versioned_rows \<Rightarrow> phase \<times> 'c effect" where
  "write_request_step env req expected rows =
     (case wr_op req of
        Put body \<Rightarrow>
          (case and_then (write_crs env (wr_headers req)) (\<lambda>resolved.
                and_then (put_feature (we_table env) body) (\<lambda>feature. Inr (resolved, feature))) of
             Inl e \<Rightarrow> (Answered (Inl e), Nothing)
           | Inr (resolved, feature) \<Rightarrow> apply_upsert env req expected feature resolved rows (Answered (Inr No_Content)))
      | Remove \<Rightarrow> apply_delete req expected rows
      | Patch _ \<Rightarrow> (Answered (Inl Feature_Not_Found), Nothing))"

text \<open>A handler that reads the feature back twice answers with the second, and with the tag of the first.\<close>

definition confirm_request :: "'c write_env \<Rightarrow> write_request \<Rightarrow> 'c versioned_rows \<Rightarrow> phase" where
  "confirm_request env req rows =
     continue_or (and_then (ok_or (read_item env req Omitted rows) Feature_Not_Found) (\<lambda>canonical.
       Inr (if we_read_crs_capable env then Confirmed canonical
            else Answered (Inr (Patched canonical (compute_feature_etag (we_lock env) canonical))))))"

definition answer_request :: "'c write_env \<Rightarrow> write_request \<Rightarrow> json \<Rightarrow> 'c versioned_rows \<Rightarrow> phase" where
  "answer_request env req canonical rows =
     continue_or (and_then (ok_or (read_item env req (working_crs env) rows) Feature_Not_Found) (\<lambda>feature.
       Inr (Answered (Inr (Patched feature (compute_feature_etag (we_lock env) canonical))))))"

fun client_step :: "'c write_env \<Rightarrow> write_request \<Rightarrow> 'c versioned_rows \<Rightarrow> phase \<Rightarrow> phase \<times> 'c effect" where
  "client_step env req rows Received = (begin_request env req rows, Nothing)"
| "client_step env req rows (Captured witness) = (check_request env req witness rows, Nothing)"
| "client_step env req rows (Admitted expected) = write_request_step env req expected rows"
| "client_step env req rows (Merging expected) = (merge_request env req expected rows, Nothing)"
| "client_step env req rows (Merged expected feature requested) = apply_upsert env req expected feature requested rows Written"
| "client_step env req rows Written = (confirm_request env req rows, Nothing)"
| "client_step env req rows (Confirmed canonical) = (answer_request env req canonical rows, Nothing)"
| "client_step env req rows (Answered r) = (Answered r, Nothing)"

section \<open>The table and its clients\<close>

record 'c commit =
  cm_client :: nat
  cm_feature_id :: string
  cm_guarded :: bool
  cm_replaced :: "'c stored_row option"
  cm_left :: "'c stored_row option"

record 'c write_world =
  ww_rows :: "'c versioned_rows"
  ww_next :: nat
  ww_phases :: "nat \<Rightarrow> phase"
  ww_log :: "'c commit list"

definition guarded :: "phase \<Rightarrow> bool" where
  "guarded phase = (case phase of Admitted expected \<Rightarrow> expected \<noteq> None | Merged expected _ _ \<Rightarrow> expected \<noteq> None | _ \<Rightarrow> False)"

definition commit_row :: "nat \<Rightarrow> string \<Rightarrow> bool \<Rightarrow> 'c stored_row option \<Rightarrow> 'c write_world \<Rightarrow> 'c write_world" where
  "commit_row c fid g left w =
     w\<lparr>ww_rows := (ww_rows w)(fid := map_option (\<lambda>row. (row, ww_next w)) left),
       ww_next := ww_next w + 1,
       ww_log := ww_log w @ [\<lparr>cm_client = c, cm_feature_id = fid, cm_guarded = g,
         cm_replaced = map_option fst (ww_rows w fid), cm_left = left\<rparr>]\<rparr>"

definition world_step :: "'c write_env \<Rightarrow> (nat \<Rightarrow> write_request) \<Rightarrow> nat \<Rightarrow> 'c write_world \<Rightarrow> 'c write_world" where
  "world_step env reqs c w =
     (let req = reqs c; before = ww_phases w c;
          (phase, effect) = client_step env req (ww_rows w) before;
          w' = w\<lparr>ww_phases := (ww_phases w)(c := phase)\<rparr>
      in case effect of
           Nothing \<Rightarrow> w'
         | Store row \<Rightarrow> commit_row c (wr_feature_id req) (guarded before) (Some row) w'
         | Erase \<Rightarrow> commit_row c (wr_feature_id req) (guarded before) None w')"

definition run_clients :: "'c write_env \<Rightarrow> (nat \<Rightarrow> write_request) \<Rightarrow> nat list \<Rightarrow> 'c write_world \<Rightarrow> 'c write_world" where
  "run_clients env reqs schedule w = fold (world_step env reqs) schedule w"

definition table_world :: "(string \<times> 'c stored_row) list \<Rightarrow> 'c write_world" where
  "table_world rows = \<lparr>ww_rows = (\<lambda>fid. map_option (\<lambda>row. (row, 0)) (map_of rows fid)), ww_next = 1,
     ww_phases = (\<lambda>_. Received), ww_log = []\<rparr>"

section \<open>What a guard knows\<close>

text \<open>The representation an entity tag is computed from.\<close>

definition representation :: "'c write_env \<Rightarrow> string \<Rightarrow> 'c stored_row \<Rightarrow> json" where
  "representation env fid row = item_feature (we_table env) fid Omitted row"

definition may_replace :: "'c write_env \<Rightarrow> write_request \<Rightarrow> 'c stored_row \<Rightarrow> bool" where
  "may_replace env req row =
     entitled (we_lock env) (wr_headers req) (we_modified_column env) (representation env (wr_feature_id req) row)"

definition guard_ok :: "'c write_env \<Rightarrow> write_request \<Rightarrow> 'c versioned_rows \<Rightarrow> nat \<Rightarrow> nat option \<Rightarrow> bool" where
  "guard_ok env req rows next' expected \<longleftrightarrow>
     (hd_if_match (wr_headers req) \<noteq> None \<longrightarrow> expected \<noteq> None)
     \<and> (\<forall>v. expected = Some v \<longrightarrow> v < next' \<and> (\<forall>row. rows (wr_feature_id req) = Some (row, v) \<longrightarrow> may_replace env req row))"

definition phase_ok :: "'c write_env \<Rightarrow> write_request \<Rightarrow> 'c versioned_rows \<Rightarrow> nat \<Rightarrow> phase \<Rightarrow> bool" where
  "phase_ok env req rows next' phase \<longleftrightarrow>
     (case phase of
        Captured witness \<Rightarrow> (\<forall>v. witness = Some v \<longrightarrow> v < next')
      | Admitted expected \<Rightarrow> guard_ok env req rows next' expected
      | Merging expected \<Rightarrow> guard_ok env req rows next' expected
      | Merged expected _ _ \<Rightarrow> guard_ok env req rows next' expected
      | _ \<Rightarrow> True)"

definition commit_ok :: "'c write_env \<Rightarrow> (nat \<Rightarrow> write_request) \<Rightarrow> 'c commit \<Rightarrow> bool" where
  "commit_ok env reqs cm \<longleftrightarrow>
     cm_feature_id cm = wr_feature_id (reqs (cm_client cm))
     \<and> (hd_if_match (wr_headers (reqs (cm_client cm))) \<noteq> None \<longrightarrow> cm_guarded cm)
     \<and> (cm_guarded cm \<longrightarrow> (\<exists>row. cm_replaced cm = Some row \<and> may_replace env (reqs (cm_client cm)) row))"

definition versions_ok :: "'c versioned_rows \<Rightarrow> nat \<Rightarrow> bool" where
  "versions_ok rows next' \<longleftrightarrow> (\<forall>fid row v. rows fid = Some (row, v) \<longrightarrow> v < next')"

definition write_inv :: "'c write_env \<Rightarrow> (nat \<Rightarrow> write_request) \<Rightarrow> 'c write_world \<Rightarrow> bool" where
  "write_inv env reqs w \<longleftrightarrow>
     versions_ok (ww_rows w) (ww_next w)
     \<and> (\<forall>c. phase_ok env (reqs c) (ww_rows w) (ww_next w) (ww_phases w c))
     \<and> (\<forall>cm \<in> set (ww_log w). commit_ok env reqs cm)"

lemma checked_guard_ok:
  assumes "check_preconditions env req witness (read_item env req Omitted rows) = Inr expected"
    and "\<forall>v. witness = Some v \<longrightarrow> v < next'"
  shows "guard_ok env req rows next' expected"
proof -
  from assms(1) obtain enforced where
    e: "evaluate_write_preconditions_against (we_lock env) (wr_headers req) (we_modified_column env)
          (read_item env req Omitted rows) = (Inr enforced :: refusal write_error + bool)"
    and r: "resolve_witness enforced witness = (Inr expected :: refusal write_error + nat option)"
    unfolding check_preconditions_def and_then_Inr_iff by blast
  have "may_replace env req row" if "rows (wr_feature_id req) = Some (row, v)" for row v
  proof -
    have "read_item env req Omitted rows = Some (representation env (wr_feature_id req) row)"
      using that by (simp add: read_item_def representation_def)
    then show ?thesis using evaluated_is_entitled e by (simp add: may_replace_def)
  qed
  then show ?thesis
    using r not_enforced_if_match [OF e] assms(2) by (auto simp: guard_ok_def resolve_witness_Inr split: if_splits)
qed

lemma continue_or_cases:
  "continue_or r = phase \<Longrightarrow> (\<exists>e. phase = Answered (Inl e)) \<or> r = Inr phase"
  by (auto simp: continue_or_def split: sum.splits)

lemma begin_request_ok:
  assumes "versions_ok rows next'"
  shows "phase_ok env req rows next' (begin_request env req rows)"
proof -
  have "(\<exists>witness. begin_request env req rows = Captured witness \<and> (\<forall>v. witness = Some v \<longrightarrow> v < next'))
      \<or> (\<exists>e. begin_request env req rows = Answered (Inl e))
      \<or> begin_request env req rows = Admitted None \<and> \<not> sends_precondition (wr_headers req)"
    using assms
    by (auto simp: begin_request_def continue_or_def capture_row_version_def versions_ok_def ensure_def and_then_def
        split: write_op.splits sum.splits if_splits)
  then show ?thesis by (auto simp: phase_ok_def guard_ok_def sends_precondition_def)
qed

lemma stage_patch_ok:
  "stage_patch env req expected patch current = Inr phase \<Longrightarrow> \<exists>feature requested. phase = Merged expected feature requested"
  by (auto simp: stage_patch_def result_simps)

lemma check_request_ok:
  assumes "\<forall>v. witness = Some v \<longrightarrow> v < next'"
  shows "phase_ok env req rows next' (check_request env req witness rows)"
proof (cases "wr_op req")
  case (Patch patch)
  show ?thesis
  proof (cases "read_item env req Omitted rows")
    case None
    then show ?thesis by (simp add: check_request_def Patch continue_or_def phase_ok_def)
  next
    case (Some canonical)
    note read = Some
    show ?thesis
    proof (cases "check_preconditions env req witness (Some canonical)")
      case (Inl e)
      then show ?thesis by (simp add: check_request_def Patch continue_or_def phase_ok_def read)
    next
      case (Inr expected)
      then have g: "guard_ok env req rows next' expected" using checked_guard_ok [of env req witness rows expected next'] read assms by simp
      show ?thesis
      proof (cases "we_read_crs_capable env")
        case True
        then show ?thesis using g Inr
          by (cases "write_crs env (wr_headers req)")
            (simp_all add: check_request_def Patch continue_or_def phase_ok_def read)
      next
        case False
        then show ?thesis using g Inr stage_patch_ok [of env req expected "patch_document patch" canonical]
          by (cases "stage_patch env req expected (patch_document patch) canonical")
            (auto simp: check_request_def Patch continue_or_def phase_ok_def read)
      qed
    qed
  qed
next
  case (Put body)
  then show ?thesis using checked_guard_ok assms
    by (cases "check_preconditions env req witness (read_item env req Omitted rows)")
      (auto simp: check_request_def continue_or_def phase_ok_def Let_def)
next
  case Remove
  then show ?thesis using checked_guard_ok assms
    by (cases "check_preconditions env req witness (read_item env req Omitted rows)")
      (auto simp: check_request_def continue_or_def phase_ok_def Let_def)
qed

lemma merge_request_ok:
  assumes "guard_ok env req rows next' expected"
  shows "phase_ok env req rows next' (merge_request env req expected rows)"
proof (cases "wr_op req")
  case (Patch patch)
  show ?thesis
  proof (cases "read_item env req (working_crs env) rows")
    case (Some current)
    then show ?thesis using assms stage_patch_ok [of env req expected "patch_document patch" current]
      by (cases "stage_patch env req expected (patch_document patch) current")
        (auto simp: merge_request_def Patch continue_or_def phase_ok_def)
  qed (simp add: merge_request_def Patch continue_or_def phase_ok_def)
qed (simp_all add: merge_request_def phase_ok_def)

lemma read_back_ok:
  "phase_ok env req rows next' (confirm_request env req rows)"
  "phase_ok env req rows next' (answer_request env req canonical rows)"
  by (cases "read_item env req Omitted rows"; simp add: confirm_request_def continue_or_def phase_ok_def)
    (cases "read_item env req (working_crs env) rows"; simp add: answer_request_def continue_or_def phase_ok_def)

section \<open>The invariant of the clients\<close>

definition expected_of :: "phase \<Rightarrow> nat option" where
  "expected_of phase = (case phase of Admitted expected \<Rightarrow> expected | Merged expected _ _ \<Rightarrow> expected | _ \<Rightarrow> None)"

lemma apply_upsert_cases:
  assumes "apply_upsert env req expected feature requested rows continue = (phase, effect)"
  obtains e where "phase = Answered (Inl e)" "effect = Nothing"
    | row where "phase = continue" "effect = Store row" "witness_holds expected (rows (wr_feature_id req))"
  using assms by (auto simp: apply_upsert_def Let_def split: if_splits sum.splits)

lemma client_step_cases:
  assumes "client_step env req rows before = (phase, effect)"
    and "phase_ok env req rows next' before" "versions_ok rows next'"
  obtains (reads) "effect = Nothing" "phase_ok env req rows next' phase"
    | (writes) "effect \<noteq> Nothing" "phase = Written \<or> (\<exists>r. phase = Answered r)"
        "guard_ok env req rows next' (expected_of before)"
        "witness_holds (expected_of before) (rows (wr_feature_id req))"
        "guarded before \<longleftrightarrow> expected_of before \<noteq> None"
proof (cases before)
  case (Admitted expected)
  then have g: "guard_ok env req rows next' expected" using assms(2) by (simp add: phase_ok_def)
  have e: "expected_of before = expected" "guarded before \<longleftrightarrow> expected \<noteq> None"
    by (simp_all add: Admitted expected_of_def guarded_def)
  have s: "write_request_step env req expected rows = (phase, effect)" using assms(1) Admitted by simp
  show ?thesis
  proof (cases "wr_op req")
    case (Put body)
    show ?thesis
      using s unfolding write_request_step_def Put
      by (auto split: sum.splits elim!: apply_upsert_cases intro: reads writes simp: phase_ok_def e g)
  next
    case Remove
    then show ?thesis using s
      by (auto simp: write_request_step_def apply_delete_def phase_ok_def e g split: if_splits intro: reads writes)
  qed (use s in \<open>auto simp: write_request_step_def phase_ok_def intro: reads\<close>)
next
  case (Merged expected feature requested)
  then have g: "guard_ok env req rows next' expected" using assms(2) by (simp add: phase_ok_def)
  have e: "expected_of before = expected" "guarded before \<longleftrightarrow> expected \<noteq> None"
    by (simp_all add: Merged expected_of_def guarded_def)
  have "apply_upsert env req expected feature requested rows Written = (phase, effect)"
    using assms(1) Merged by simp
  then show ?thesis by (rule apply_upsert_cases) (auto intro: reads writes simp: phase_ok_def e g)
next
  case (Captured witness)
  then show ?thesis using assms check_request_ok [of witness next' env req rows] by (intro reads) (auto simp: phase_ok_def)
next
  case (Merging expected)
  then show ?thesis using assms merge_request_ok [of env req rows next' expected] by (intro reads) (auto simp: phase_ok_def)
qed (use assms begin_request_ok read_back_ok in \<open>auto intro!: reads simp: phase_ok_def\<close>)

lemma guard_ok_later:
  assumes "guard_ok env req rows next' expected"
  shows "guard_ok env req (rows(fid := map_option (\<lambda>row. (row, next')) left)) (next' + 1) expected"
  using assms by (auto simp: guard_ok_def)

lemma phase_ok_later:
  assumes "phase_ok env req rows next' phase"
  shows "phase_ok env req (rows(fid := map_option (\<lambda>row. (row, next')) left)) (next' + 1) phase"
  using assms guard_ok_later [of env req rows next' _ fid left]
  by (auto simp: phase_ok_def simp del: fun_upd_apply split: phase.splits)

lemma versions_ok_later:
  "versions_ok rows next' \<Longrightarrow> versions_ok (rows(fid := map_option (\<lambda>row. (row, next')) left)) (next' + 1)"
  by (auto simp: versions_ok_def less_Suc_eq)

lemma commit_row_inv:
  assumes "versions_ok (ww_rows w) (ww_next w)"
    and "\<forall>c. phase_ok env (reqs c) (ww_rows w) (ww_next w) (ww_phases w c)"
    and "\<forall>cm \<in> set (ww_log w). commit_ok env reqs cm"
    and "guard_ok env (reqs c) (ww_rows w) (ww_next w) expected"
    and "witness_holds expected (ww_rows w (wr_feature_id (reqs c)))" "g \<longleftrightarrow> expected \<noteq> None"
  shows "write_inv env reqs (commit_row c (wr_feature_id (reqs c)) g left w)"
proof -
  have "commit_ok env reqs \<lparr>cm_client = c, cm_feature_id = wr_feature_id (reqs c), cm_guarded = g,
         cm_replaced = map_option fst (ww_rows w (wr_feature_id (reqs c))), cm_left = left\<rparr>"
    using assms(4-6) by (auto simp: commit_ok_def guard_ok_def witness_holds_def)
  moreover have "phase_ok env (reqs d) ((ww_rows w)(wr_feature_id (reqs c) := map_option (\<lambda>row. (row, ww_next w)) left))
      (ww_next w + 1) (ww_phases w d)" for d
    using assms(2) by (intro phase_ok_later) simp
  ultimately show ?thesis
    using assms(3) versions_ok_later [OF assms(1)] by (simp add: write_inv_def commit_row_def)
qed

lemma world_step_inv:
  assumes "write_inv env reqs w"
  shows "write_inv env reqs (world_step env reqs c w)"
proof -
  obtain phase effect where s: "client_step env (reqs c) (ww_rows w) (ww_phases w c) = (phase, effect)"
    by (cases "client_step env (reqs c) (ww_rows w) (ww_phases w c)")
  let ?w = "w\<lparr>ww_phases := (ww_phases w)(c := phase)\<rparr>"
  have i: "phase_ok env (reqs c) (ww_rows w) (ww_next w) (ww_phases w c)" "versions_ok (ww_rows w) (ww_next w)"
    "\<forall>cm \<in> set (ww_log w). commit_ok env reqs cm"
    "\<forall>c. phase_ok env (reqs c) (ww_rows w) (ww_next w) (ww_phases w c)"
    using assms by (simp_all add: write_inv_def)
  from s i(1,2) show ?thesis
  proof (cases rule: client_step_cases)
    case reads
    then show ?thesis using i by (simp add: world_step_def s write_inv_def)
  next
    case writes
    have p: "\<forall>d. phase_ok env (reqs d) (ww_rows ?w) (ww_next ?w) (ww_phases ?w d)"
      using i(4) writes(2) by (auto simp: phase_ok_def)
    have "write_inv env reqs (commit_row c (wr_feature_id (reqs c)) (guarded (ww_phases w c)) left ?w)" for left
      using i(2,3) p writes(3-5) by (intro commit_row_inv [where expected = "expected_of (ww_phases w c)"]) simp_all
    then show ?thesis using writes(1) by (cases effect) (simp_all add: world_step_def s)
  qed
qed

lemma table_world_inv: "write_inv env reqs (table_world rows)"
  by (auto simp: write_inv_def table_world_def versions_ok_def phase_ok_def)

lemma run_clients_inv: "write_inv env reqs w \<Longrightarrow> write_inv env reqs (run_clients env reqs schedule w)"
  unfolding run_clients_def by (induction schedule arbitrary: w) (simp_all add: world_step_inv)

section \<open>The log tells what every write replaced\<close>

definition last_left :: "(string \<Rightarrow> 'c stored_row option) \<Rightarrow> 'c commit list \<Rightarrow> string \<Rightarrow> 'c stored_row option" where
  "last_left rows log = fold (\<lambda>cm rows. rows(cm_feature_id cm := cm_left cm)) log rows"

definition log_inv :: "(string \<Rightarrow> 'c stored_row option) \<Rightarrow> 'c write_world \<Rightarrow> bool" where
  "log_inv rows w \<longleftrightarrow>
     (\<forall>fid. map_option fst (ww_rows w fid) = last_left rows (ww_log w) fid)
     \<and> (\<forall>xs cm ys. ww_log w = xs @ cm # ys \<longrightarrow> cm_replaced cm = last_left rows xs (cm_feature_id cm))"

lemma commit_row_log_inv: "log_inv rows w \<Longrightarrow> log_inv rows (commit_row c fid g left w)"
  unfolding log_inv_def
proof (intro conjI allI impI)
  assume i: "(\<forall>fid. map_option fst (ww_rows w fid) = last_left rows (ww_log w) fid)
     \<and> (\<forall>xs cm ys. ww_log w = xs @ cm # ys \<longrightarrow> cm_replaced cm = last_left rows xs (cm_feature_id cm))"
  then show "map_option fst (ww_rows (commit_row c fid g left w) f) = last_left rows (ww_log (commit_row c fid g left w)) f" for f
    by (simp add: commit_row_def last_left_def option.map_comp comp_def option.map_ident)
  show "cm_replaced cm = last_left rows xs (cm_feature_id cm)"
    if "ww_log (commit_row c fid g left w) = xs @ cm # ys" for xs cm ys
    using that i by (cases ys rule: rev_cases) (auto simp: commit_row_def)
qed

lemma run_clients_log_inv: "log_inv rows w \<Longrightarrow> log_inv rows (run_clients env reqs schedule w)"
  unfolding run_clients_def
proof (induction schedule arbitrary: w)
  case (Cons c schedule)
  have "log_inv rows (w\<lparr>ww_phases := p\<rparr>)" for p using Cons.prems by (simp add: log_inv_def)
  then have "log_inv rows (world_step env reqs c w)"
    by (simp add: world_step_def Let_def commit_row_log_inv split: prod.splits effect.splits)
  then show ?case using Cons.IH by simp
qed simp

lemma last_left_written:
  "cm \<in> set xs \<Longrightarrow> \<exists>cm' \<in> set xs. cm_feature_id cm' = cm_feature_id cm \<and> last_left rows xs (cm_feature_id cm) = cm_left cm'"
proof (induction xs rule: rev_induct)
  case (snoc x xs)
  show ?case
  proof (cases "cm_feature_id x = cm_feature_id cm")
    case False
    then have "cm \<in> set xs" using snoc.prems by auto
    then show ?thesis using snoc.IH False by (auto simp: last_left_def)
  qed (simp add: last_left_def)
qed simp

lemma table_world_log_inv: "log_inv (map_of rows) (table_world rows)"
  by (simp add: log_inv_def table_world_def last_left_def option.map_comp comp_def option.map_ident)

lemma logged_commit:
  assumes "ww_log (run_clients env reqs schedule (table_world rows)) = xs @ cm # ys"
  shows "commit_ok env reqs cm" and "cm_replaced cm = last_left (map_of rows) xs (cm_feature_id cm)"
  using run_clients_inv [OF table_world_inv, of env reqs schedule rows]
    run_clients_log_inv [OF table_world_log_inv, of rows env reqs schedule] assms
  by (auto simp: write_inv_def log_inv_def)

lemma may_replace_if_match:
  "may_replace env req row \<Longrightarrow> hd_if_match (wr_headers req) = Some (Some h) \<Longrightarrow>
   if_match_satisfied h (compute_feature_etag (we_lock env) (representation env (wr_feature_id req) row))"
  by (simp add: may_replace_def entitled_def)

section \<open>A PATCH of a GeoPackage\<close>

text \<open>
  The source of a GeoPackage is not CRS capable, so a PATCH merges into the vertices as they are stored and writes
  them back without a CRS: a document that does not touch the geometry has the sink project it again.
\<close>

lemma patch_projects_a_geopackage_again:
  assumes "\<not> we_read_crs_capable env" "json_get patch ''geometry'' = None"
  shows "geometry_for_write mercator 3857 (mutation_crs patch resolved (working_crs env)) vertices = Some (map mercator vertices)"
  using assms by (simp add: mutation_crs_def working_crs_def geopackage_projects_again)

text \<open>
  A document that names some member of the geometry has all of it taken for the CRS of the request, also the
  coordinates it left as they were read, in CRS84.
\<close>

lemma patch_relabels_a_geometry:
  "json_get patch ''geometry'' \<noteq> None \<Longrightarrow> mutation_crs patch Storage_Crs Crs84 = Storage_Crs"
  by (simp add: mutation_crs_def)

section \<open>An example\<close>

text \<open>Two clients replace one feature with the tag both have read; the digest of a feature is its name here.\<close>

definition example_lock :: lock_env where
  "example_lock = \<lparr>lk_to_vec = (\<lambda>v. case stored_text v ''name'' of Some s \<Rightarrow> s | None \<Rightarrow> ''?''), lk_sha256 = id,
     lk_rfc3339 = (\<lambda>_. None), lk_http_date = (\<lambda>_. None)\<rparr>"

definition example_write_env :: "string write_env" where
  "example_write_env = \<lparr>we_table = example_table, we_lock = example_lock, we_modified_column = None,
     we_row_versions = True, we_read_crs_capable = True, we_write_crs_capable = True\<rparr>"

definition example_tag :: string where "example_tag = CHR 0x22 # ''61'' @ [CHR 0x22]"

definition example_headers :: write_headers where
  "example_headers = \<lparr>hd_if_match = Some (Some example_tag), hd_if_unmodified_since = None, hd_content_type = None,
     hd_content_crs = None\<rparr>"

definition example_body :: "string \<Rightarrow> json" where
  "example_body name = JObject [(''geometry'', JNull), (''properties'', JObject [(''name'', JString name)])]"

definition example_requests :: "nat \<Rightarrow> write_request" where
  "example_requests c = \<lparr>wr_feature_id = ''1'', wr_headers = example_headers,
     wr_op = Put (example_body (if c = 2 then ''b'' else ''c''))\<rparr>"

definition example_commit :: "string commit" where
  "example_commit = \<lparr>cm_client = 2, cm_feature_id = ''1'', cm_guarded = True, cm_replaced = Some example_row,
     cm_left = Some \<lparr>sr_geometry = None, sr_properties = [(''name'', JString ''b''), (''pop'', JNumber ''7'')]\<rparr>\<rparr>"

lemma example_steps:
  assumes "rows ''1'' = Some (row, v)"
  shows "client_step example_write_env (example_requests c) rows Received = (Captured (Some v), Nothing)"
    and "row = example_row \<Longrightarrow>
      client_step example_write_env (example_requests c) rows (Captured (Some v)) = (Admitted (Some v), Nothing)"
    and "row = example_row \<Longrightarrow>
      client_step example_write_env (example_requests 2) rows (Admitted (Some v)) =
        (Answered (Inr No_Content), Store (the (cm_left example_commit)))"
    and "u \<noteq> v \<Longrightarrow>
      client_step example_write_env (example_requests 3) rows (Admitted (Some u)) = (Answered (Inl Changed_Before_Write), Nothing)"
proof -
  note defs = example_write_env_def example_requests_def example_headers_def
  show "client_step example_write_env (example_requests c) rows Received = (Captured (Some v), Nothing)"
    by (simp add: defs begin_request_def sends_precondition_def capture_row_version_def precondition_is_enforceable_def
        continue_or_def assms ensure_def)
  have tag: "if_match_satisfied example_tag (compute_feature_etag example_lock (item_feature example_table ''1'' Omitted example_row))"
    by code_simp
  show "client_step example_write_env (example_requests c) rows (Captured (Some v)) = (Admitted (Some v), Nothing)"
    if "row = example_row"
    using tag that
    by (simp add: defs check_request_def read_item_def check_preconditions_def evaluate_write_preconditions_against_def
        evaluate_if_match_def resolve_witness_def continue_or_def assms ensure_def)
  have put: "put_feature example_table (example_body name) = Inr (example_body name)" for name
    by (simp add: put_feature_def parse_feature_body_def example_body_def check_schema_def example_table_def)
  have "upsert_row example_table Omitted (example_body ''b'') (Some example_row) = Inr (the (cm_left example_commit))"
    by code_simp
  then show "client_step example_write_env (example_requests 2) rows (Admitted (Some v)) =
      (Answered (Inr No_Content), Store (the (cm_left example_commit)))" if "row = example_row"
    using that put
    by (simp add: defs write_request_step_def write_crs_def resolve_content_crs_def refuse_unreprojectable_content_crs_def
        ensure_def apply_upsert_def witness_holds_def assms)
  show "client_step example_write_env (example_requests 3) rows (Admitted (Some u)) = (Answered (Inl Changed_Before_Write), Nothing)"
    if "u \<noteq> v"
    using that put
    by (simp add: defs write_request_step_def write_crs_def resolve_content_crs_def refuse_unreprojectable_content_crs_def
        ensure_def apply_upsert_def witness_holds_def assms)
qed

lemma example_run:
  "ww_log (run_clients example_write_env example_requests [2, 3, 2, 3, 2, 3] (table_world [(''1'', example_row)])) = [example_commit]"
  "ww_phases (run_clients example_write_env example_requests [2, 3, 2, 3, 2, 3] (table_world [(''1'', example_row)])) 3
     = Answered (Inl Changed_Before_Write)"
proof -
  let ?step = "world_step example_write_env example_requests"
  define w0 where "w0 = (table_world [(''1'', example_row)] :: string write_world)"
  define p where "p = (\<lambda>_ :: nat. Received)"
  define rows where "rows = ww_rows w0"
  have w0: "w0 = \<lparr>ww_rows = rows, ww_next = 1, ww_phases = p, ww_log = []\<rparr>"
    by (simp add: w0_def rows_def p_def table_world_def)
  have r: "rows ''1'' = Some (example_row, 0)" by (simp add: rows_def w0_def table_world_def)
  have id: "wr_feature_id (example_requests c) = ''1''" for c by (simp add: example_requests_def)
  define rows' where "rows' = rows(''1'' := Some (the (cm_left example_commit), 1))"
  have r': "rows' ''1'' = Some (the (cm_left example_commit), 1)" by (simp add: rows'_def)
  note steps = world_step_def Let_def example_steps(1) [of rows, OF r] example_steps(2) [of rows, OF r refl]
    example_steps(3) [of rows, OF r refl] example_steps(4) [of rows', OF r']
  have "?step 2 w0 = \<lparr>ww_rows = rows, ww_next = 1, ww_phases = p(2 := Captured (Some 0)), ww_log = []\<rparr>" (is "_ = ?w1")
    by (simp add: w0 p_def steps del: client_step.simps)
  moreover have "?step 3 ?w1 = \<lparr>ww_rows = rows, ww_next = 1,
      ww_phases = p(2 := Captured (Some 0), 3 := Captured (Some 0)), ww_log = []\<rparr>" (is "_ = ?w2")
    by (simp add: p_def steps del: client_step.simps)
  moreover have "?step 2 ?w2 = \<lparr>ww_rows = rows, ww_next = 1,
      ww_phases = p(3 := Captured (Some 0), 2 := Admitted (Some 0)), ww_log = []\<rparr>" (is "_ = ?w3")
    by (simp add: steps fun_upd_twist del: client_step.simps)
  moreover have "?step 3 ?w3 = \<lparr>ww_rows = rows, ww_next = 1,
      ww_phases = p(2 := Admitted (Some 0), 3 := Admitted (Some 0)), ww_log = []\<rparr>" (is "_ = ?w4")
    by (simp add: steps fun_upd_twist del: client_step.simps)
  moreover have "?step 2 ?w4 = \<lparr>ww_rows = rows', ww_next = 2,
      ww_phases = p(3 := Admitted (Some 0), 2 := Answered (Inr No_Content)), ww_log = [example_commit]\<rparr>" (is "_ = ?w5")
    by (simp add: steps fun_upd_twist commit_row_def guarded_def rows'_def id r del: client_step.simps) (simp add: example_commit_def)
  moreover have "?step 3 ?w5 = \<lparr>ww_rows = rows', ww_next = 2,
      ww_phases = p(2 := Answered (Inr No_Content), 3 := Answered (Inl Changed_Before_Write)), ww_log = [example_commit]\<rparr>"
    by (simp add: steps fun_upd_twist del: client_step.simps)
  ultimately have run: "run_clients example_write_env example_requests [2, 3, 2, 3, 2, 3] w0 = \<lparr>ww_rows = rows', ww_next = 2,
      ww_phases = p(2 := Answered (Inr No_Content), 3 := Answered (Inl Changed_Before_Write)), ww_log = [example_commit]\<rparr>"
    by (simp add: run_clients_def)
  show "ww_log (run_clients example_write_env example_requests [2, 3, 2, 3, 2, 3] (table_world [(''1'', example_row)])) = [example_commit]"
    "ww_phases (run_clients example_write_env example_requests [2, 3, 2, 3, 2, 3] (table_world [(''1'', example_row)])) 3
     = Answered (Inl Changed_Before_Write)"
    using run unfolding w0_def by simp_all
qed

text \<open>
  C12. A guarded write replaces what its client named. However the requests of any number of clients
  interleave, a PUT, PATCH or DELETE that commits with an \<open>If-Match\<close> header found in its transaction a row whose
  entity tag the header lists: the row the last write before it left, not the one that was there when the
  precondition was evaluated. The same holds of every write that carries a row version.\<close>

theorem guarded_write_replaces_what_was_named:
  assumes "ww_log (run_clients env reqs schedule (table_world rows)) = before @ cm # after"
  shows "(hd_if_match (wr_headers (reqs (cm_client cm))) = Some (Some h) \<longrightarrow>
       (\<exists>row. last_left (map_of rows) before (cm_feature_id cm) = Some row
          \<and> if_match_satisfied h (compute_feature_etag (we_lock env) (representation env (cm_feature_id cm) row))))
    \<and> (cm_guarded cm \<longrightarrow>
       (\<exists>row. last_left (map_of rows) before (cm_feature_id cm) = Some row
          \<and> entitled (we_lock env) (wr_headers (reqs (cm_client cm))) (we_modified_column env)
              (representation env (cm_feature_id cm) row)))"
  using logged_commit [OF assms] may_replace_if_match [of env "reqs (cm_client cm)" _ h]
  by (auto simp: commit_ok_def may_replace_def)

theorem guarded_write_replaces_what_was_named_witness:
  "\<exists>row. last_left (map_of [(''1'', example_row)]) [] ''1'' = Some row
     \<and> if_match_satisfied example_tag (compute_feature_etag example_lock (representation example_write_env ''1'' row))"
  using guarded_write_replaces_what_was_named
    [where before = "[]" and cm = example_commit and after = "[]" and h = example_tag, unfolded append_Nil, OF example_run(1)]
  by (simp add: example_commit_def example_requests_def example_headers_def example_write_env_def)

text \<open>
  C11. No update is lost: of any number of clients that send the same \<open>If-Match\<close> value for one feature, at most one
  commits, as long as no write restores a representation with a tag of that value. The second writer is answered
  with a refusal, never with a silent overwrite of the first.\<close>

theorem no_update_is_lost:
  assumes "\<forall>cm \<in> set (ww_log (run_clients env reqs schedule (table_world rows))).
      cm_feature_id cm = fid \<longrightarrow> (\<forall>row. cm_left cm = Some row \<longrightarrow>
        \<not> if_match_satisfied h (compute_feature_etag (we_lock env) (representation env fid row)))"
  shows "length (filter (\<lambda>cm. cm_feature_id cm = fid \<and> hd_if_match (wr_headers (reqs (cm_client cm))) = Some (Some h))
      (ww_log (run_clients env reqs schedule (table_world rows)))) \<le> 1"
proof (rule ccontr)
  let ?log = "ww_log (run_clients env reqs schedule (table_world rows))"
  let ?P = "\<lambda>cm. cm_feature_id cm = fid \<and> hd_if_match (wr_headers (reqs (cm_client cm))) = Some (Some h)"
  assume "\<not> length (filter ?P ?log) \<le> 1"
  then obtain a b rest where ab: "filter ?P ?log = a # b # rest"
    by (cases "filter ?P ?log" rule: remdups_adj.cases) auto
  obtain us vs where u: "?log = us @ a # vs" "?P a" "b # rest = filter ?P vs"
    using filter_eq_ConsD [OF ab] by blast
  obtain xs ys where v: "vs = xs @ b # ys" "?P b"
    using filter_eq_ConsD [OF u(3) [symmetric]] by blast
  have log: "?log = (us @ a # xs) @ b # ys" using u v by simp
  obtain cm where cm: "cm \<in> set ?log" "cm_feature_id cm = fid" "last_left (map_of rows) (us @ a # xs) fid = cm_left cm"
    using last_left_written [of a "us @ a # xs" "map_of rows"] u(2) log by auto
  obtain row where "cm_replaced b = Some row" "may_replace env (reqs (cm_client b)) row" "cm_feature_id b = wr_feature_id (reqs (cm_client b))"
    using logged_commit(1) [OF log] v(2) by (auto simp: commit_ok_def)
  then have "cm_left cm = Some row"
    "if_match_satisfied h (compute_feature_etag (we_lock env) (representation env fid row))"
    using logged_commit(2) [OF log] v(2) cm(3) may_replace_if_match by auto
  then show False using assms cm by blast
qed

theorem no_update_is_lost_witness:
  "length (filter (\<lambda>cm. cm_feature_id cm = ''1'' \<and> hd_if_match (wr_headers (example_requests (cm_client cm))) = Some (Some example_tag))
      [example_commit]) \<le> 1"
proof -
  have "\<not> if_match_satisfied example_tag (compute_feature_etag (we_lock example_write_env) (representation example_write_env ''1''
      (the (cm_left example_commit))))"
    by code_simp
  then have "\<forall>cm \<in> set [example_commit]. cm_feature_id cm = ''1'' \<longrightarrow> (\<forall>row. cm_left cm = Some row \<longrightarrow>
        \<not> if_match_satisfied example_tag (compute_feature_etag (we_lock example_write_env) (representation example_write_env ''1'' row)))"
    by (simp add: example_commit_def)
  then have "\<forall>cm \<in> set (ww_log (run_clients example_write_env example_requests [2, 3, 2, 3, 2, 3] (table_world [(''1'', example_row)]))).
      cm_feature_id cm = ''1'' \<longrightarrow> (\<forall>row. cm_left cm = Some row \<longrightarrow>
        \<not> if_match_satisfied example_tag (compute_feature_etag (we_lock example_write_env) (representation example_write_env ''1'' row)))"
    unfolding example_run(1) .
  from no_update_is_lost [OF this] show ?thesis unfolding example_run(1) .
qed

end
