(* ===== verification/Spec2Isabelle.thy ===== *)
theory Spec2Isabelle
  imports Torn_Reads Checkpoint Data_Policy Batch_Lane Job_Claims Index_Claims Tile_Claims Tile_Cache Webhook_Claims
    Conditional_Writes
begin

text \<open>
  A verification development for tellurion: who may read or change what, what a change does to the recorded
  state of the control plane, and what the write path of the data plane and its background work promise.

  The program. A geospatial server keeps one configuration document (tenants, their catalogs, the
  catalogs' collections, storages, settings, policies) together with role bindings, path policies and
  tombstones: the control snapshot. Administrators edit it through a control API under
  \<open>/_control/v1\<close>. A request is canonicalized, matched with a registered route, resolved to a scope,
  decided against the compiled snapshot, bound to that snapshot as an authorized mutation, and committed by
  a store as the next revision, with an event, an audit record and a replay record. Every replica follows the
  events of the store and activates newer snapshots. Older administrative routes pass a separate
  checkpoint over the same policies; reads of data pass the policy of the data plane with its row filters
  and rate ceilings.

  Theories and sources (file names are under \<open>src/crates\<close>).

  \<^item> \<open>Prelude\<close>: results as sums with their combinators, lists, strings as byte lists, UTF-8
    validity, decimal printing; \<open>Samples\<close>: a small valid snapshot for the witnesses.

  \<^item> \<open>Admin_Path\<close> and \<open>Control_Path\<close>: \<open>tellurion-core/src/control_admin_path.rs\<close> and
    \<open>control_path.rs\<close>, the canonical control path, the two pattern languages, and the cover, overlap and
    intersection of compiled patterns.

  \<^item> \<open>App_Config\<close> and \<open>Config_Integrity\<close>: the declarations of \<open>config.rs\<close> the control plane edits
    and \<open>AppConfig::validate\<close> over them, and what an accepted document satisfies.

  \<^item> \<open>Control_Scope\<close>, \<open>Path_Policy\<close>, \<open>Control_Snapshot\<close>, \<open>Change_Set\<close>,
    \<open>Apply_Changes\<close>, \<open>Apply_Facts\<close>, \<open>Confinement\<close>: \<open>control_model.rs\<close>, from scopes, bindings
    and policies to the snapshot, the changeset and \<open>apply_control_changes\<close>, with its preview.

  \<^item> \<open>Control_Evaluate\<close>, \<open>Delegation\<close>, \<open>Control_Route\<close>, \<open>Fingerprint\<close>,
    \<open>Mutation_Authority\<close>, \<open>Mutation_Claims\<close>: \<open>control_admin_policy.rs\<close>, the default-deny
    evaluation and its explanation, the delegation and removal checks, the route registry, the canonical JSON
    and preimages that are hashed, and the authorized mutation.

  \<^item> \<open>Control_Store\<close>, \<open>Control_Feed\<close>, \<open>Control_Consumer\<close>, \<open>Store_Invariant\<close>,
    \<open>Store_Claims\<close>: \<open>control_store.rs\<close> (the in-memory store), \<open>control_runtime.rs\<close> and
    \<open>tellurion-server/src/control_consumer.rs\<close>: the state \<open>control_state\<close>, its operations
    \<open>mem_bootstrap\<close>, \<open>mem_transact\<close>, \<open>mem_changes_since\<close> and the others, the refresh of a replica and the
    pace of its loop.

  \<^item> \<open>Sqlite_Store\<close>, \<open>Sqlite_Refinement\<close>, \<open>Sqlite_Claims\<close>, \<open>Torn_Reads\<close>:
    \<open>tellurion-control-sqlite/src/store.rs\<close>, tables as finite maps and every writing operation as a
    transaction, shown to refine the in-memory store; what loading a snapshot outside a transaction can see.

  \<^item> \<open>Resolver\<close>, \<open>Checkpoint_Policy\<close>, \<open>Checkpoint\<close>: \<open>resolver.rs\<close>,
    \<open>control_policy.rs\<close>, \<open>tellurion-control/src/middleware.rs\<close> and
    \<open>tellurion-server/src/control_checkpoint.rs\<close>, what stands in front of the handlers.

  \<^item> \<open>Rate_Limit\<close> and \<open>Data_Policy\<close>: \<open>rate_limit.rs\<close> and \<open>policy.rs\<close>, the policy of the
    data plane and its fixed-window ceilings.

  \<^item> \<open>Settings\<close>: \<open>settings.rs\<close> and the part of \<open>router.rs\<close> that materializes them, the settings a
    collection inherits from its catalog, its tenant, the platform and their profiles.

  \<^item> \<open>Json_Sequence\<close> and \<open>Batch_Lane\<close>: \<open>batch.rs\<close> and
    \<open>tellurion-features/src/batch_handlers.rs\<close>, the incremental decoder of a GeoJSON text sequence
    with the reader that feeds it (\<open>sequence_decoder\<close>, \<open>seq_reader\<close>), and the run of a batch in chunks
    (\<open>run_batch\<close>, \<open>batch_run\<close>).

  \<^item> \<open>Jobs\<close>, \<open>Job_Ledger\<close>, \<open>Job_Claims\<close>: \<open>job.rs\<close> and its PostgreSQL form in
    \<open>tellurion-postgis/src/job_sql.rs\<close> and \<open>driver.rs\<close>: one list of rows (\<open>ledger\<close>) for both, the
    in-memory operations \<open>mem_enqueue\<close> to \<open>mem_dismiss\<close>, the statements \<open>enqueue_plan\<close> to
    \<open>dismiss_plan\<close> and the driver's operations \<open>sql_enqueue\<close> to \<open>sql_dismiss\<close> over them.

  \<^item> \<open>Outbox\<close>, \<open>Index_Convergence\<close>, \<open>Index_Claims\<close>: the transactional outbox
    (\<open>outbox.rs\<close>, \<open>tellurion-postgis/src/write_sql.rs\<close>, \<open>driver.rs\<close>), the derived index
    (\<open>index_sql.rs\<close>), the applier (\<open>applier.rs\<close>), the rebuild job
    (\<open>tellurion-server/src/process_lane.rs\<close>) and the retention floor (\<open>retention.rs\<close>). The state
    \<open>world\<close> holds one collection with its rows (columns and values, of which an upsert sets those its document
    names), its open transactions, its outbox, its index and the batches in
    flight; \<open>event_step\<close> is one statement, commit, read, application or pruning of any client.

  \<^item> \<open>Outbox_Reader\<close>: the contract of \<open>read_after\<close>, which every reader of an outbox relies on.
    \<open>Invalidation\<close>, \<open>Tile_Freshness\<close>, \<open>Tile_Claims\<close>: \<open>invalidation.rs\<close> and the tile generations of
    \<open>context.rs\<close>, buckets and the generations a consumer advances, and the replicas over one outbox and one
    cache (\<open>tile_world\<close>, \<open>tile_step\<close>) with the pruning of \<open>tellurion-server/src/retention_consumer.rs\<close>.
    \<open>Tile_Key\<close> and \<open>Tile_Cache\<close>: \<open>cache.rs\<close>, \<open>cache_l2_valkey.rs\<close>, \<open>tms.rs\<close>, \<open>AppContext::fetch_mvt\<close> and
    \<open>build_cache\<close> of \<open>main.rs\<close>: keys and the strings that stand for them in the second tier, layers and their
    composition, and the concurrent calls of a process (\<open>cache_world\<close>, \<open>cache_step\<close>) with their coalescing.

  \<^item> \<open>Timefmt\<close> and \<open>Change_Feed\<close>: \<open>timefmt.rs\<close>, \<open>feed.rs\<close>, \<open>query_params.rs\<close> and
    \<open>tellurion-features/src/feed_handlers.rs\<close>, timestamps, envelopes, pages and the handler \<open>list_changes\<close>.
    \<open>Webhooks\<close> and \<open>Webhook_Claims\<close>: \<open>webhooks.rs\<close>, \<open>tellurion-server/src/webhook_consumer.rs\<close> and
    \<open>webhook_admin.rs\<close>, retries, dead letters, a drain pass, rebinding, and the replicas that deliver one
    subscription (\<open>hook_world\<close>, \<open>hook_step\<close>).

  \<^item> \<open>Crs\<close>, \<open>Locking\<close>, \<open>Merge_Patch\<close>, \<open>Feature_Rows\<close>, \<open>Conditional_Writes\<close>: \<open>crs.rs\<close>,
    \<open>locking.rs\<close>, the schema of \<open>config.rs\<close>, \<open>tellurion-features/src/write_handlers.rs\<close> and the statements of
    \<open>tellurion-postgis/src/sql.rs\<close> and \<open>write_sql.rs\<close> behind it: coordinate reference systems, entity tags and
    preconditions, merge patches, the row an upsert leaves (\<open>stored_row\<close>), and the handlers of PUT, PATCH and DELETE as
    phases of interleaved requests (\<open>phase\<close>, \<open>write_world\<close>, \<open>client_step\<close>).

  Interfaces. \<open>control_feed\<close> (in \<open>Control_Feed\<close>) states what a consumer relies on: moves only append
  to the feed, the feed of revision \<open>r\<close> is numbered 1 to \<open>r\<close>, a page is the next events after the cursor.
  The consumer's lemmas are proved once in it and hold of the in-memory store (\<open>mem\<close>) and of the SQLite
  store (\<open>sqlite\<close>). \<open>id_resolver\<close> (in \<open>Resolver\<close>) states that a resolved identifier names back
  the external one; the index of an accepted document (\<open>config\<close>) implements it.
  \<open>job_store\<close> (in \<open>Job_Ledger\<close>) states how each call moves the row it names and leaves the others;
  what holds of jobs is proved in it. \<open>oldest_pick\<close> (in \<open>Job_Claims\<close>) is a database that picks one of the
  oldest rows; every such database is a job store, PostgreSQL (\<open>postgres\<close>) and the in-memory store
  (\<open>memory\<close>) among them. \<open>outbox_source\<close> (in \<open>Outbox_Reader\<close>) states what a batch read from an outbox is;
  the statement of the driver (\<open>outbox\<close>) keeps it, and the tile generations, the feed and the webhooks rest on it.

  What the lemmas show. Delegation: a policy or a binding an administrator may write grants nothing the
  administrator is denied, and a binding that may be removed blocks nothing beyond the remover's own
  authority. Evaluation: default deny, deny overrides, the explanation agrees with the decision.
  Application: a changeset leaves everything outside the authorized scope alone, leaves a valid snapshot,
  moves exactly the versions of the reported resources and refuses stale ones. Stores: the reachable
  states are numbered histories, a retried request commits once, of two mutations authorized at one revision
  one commits, and SQLite refines this, errors included. Consumers: a refresh always returns, and converges
  without a gap. Checkpoints: the handler runs exactly under the stated decision, and the resolver in front of
  it changes no answer. Data plane: a row is let through exactly when a grant gives it, a ceiling bounds every
  window, a claim cannot leave its literal. Settings: a final key has below its level the value that level
  gives it, but for the tile caps a collection has of its own. An accepted document's references resolve, those of
  the routing lanes included. Batch ingest: the items read are the records of the delivered bytes, however they are
  cut into chunks, of a body cut off those up to its last separator, and every item of a run is answered by one line. Jobs: the ledger stays well-formed, a finished job
  is final, a claim is exclusive in its window and a backlog drains oldest first; the statement that a stale
  claimant's outcome is refused does not hold. Index: as long as commits come in the order of their sequence
  numbers, and no delete that found nothing commits after a row is there, it shows the documents of an earlier state
  of the primary and never goes back, and a rebuild catches up; two
  interleavings of writers that the code admits break that order and the index with it. A document is the row
  where upserts name all columns. Tiles: an answer of the
  in-process cache is of its key; through the second tier it may be that of another row filter, whose key has the
  same string, and of nothing else; a tile found is as new as what the replica has drained, unless the outbox was pruned
  ahead of it by another replica, which the code admits. Feed and webhooks: following the links reads every
  change once and in order, as long as commits come in order and nothing is pruned ahead of the client; no change a
  subscription wants is lost, also across rebinding and replicas, as long as commits come in order and nothing is
  pruned by a replica whose subscription is not registered.
  Writes: a write with If-Match replaces a representation its client named, so of the clients that saw one tag
  one commits; a PATCH changes what it names; a collection serves the reference systems it lists and labels
  them as they are. Geometries of a GeoPackage in Web Mercator are the exception to the second, and a PUT
  keeps the columns it leaves out.

  Parameters, with what is relied on. \<open>config_env\<close>: the numeric, URL and shape checks of the document
  that do not concern references, as predicates. \<open>digest_env\<close>: SHA-256 and the serialization of a
  changeset. \<open>sqlite_codec\<close>: the JSON texts of the SQLite store; \<open>codec_ok\<close> says that a written text
  reads back as the value. \<open>parse\<close>: the CQL2 parser in \<open>Data_Policy\<close>, the JSON parser in
  \<open>Json_Sequence\<close>. \<open>stage_env\<close> and \<open>apply_batch\<close>: the geometry parser, the schema of the collection and
  the backend of a batch. The clock, the entropy of the jitter, the
  \<open>project\<close>: the floating-point projection of a box to world fractions. \<open>postgis\<close> and \<open>table_env\<close>: the spatial functions, casts and
  constraints of the database; \<open>lock_env\<close>: the digest of a representation and the parsers of dates; nothing is assumed of
  them but, where a PATCH is to keep a row, that the values of that row survive being read and written back. The outcome of an attempt to deliver, the outbox
  a collection resolves to, the
  activation of a candidate snapshot, the row a database picks and the rows it finds locked, handlers and the authenticated subject are arguments. Opaque parts of
  declarations are the type parameter \<open>'x\<close>.

  Bounds and termination. Revisions, ordinals and counts are words of their width; 64-bit wrap-around of a
  revision is the checked addition of the code. The page loop of the consumer is a
  \<open>partial_function\<close> and is shown to return for every store. All other recursions are total; durations
  are nanoseconds that saturate at \<open>Duration::MAX\<close>. Instants and attempts of jobs and the sequence numbers
  of an outbox, 64-bit and 32-bit integers that only count up, are natural numbers. A rebuild makes at most
  1000 passes of 200 obligations, so up to 199800 unread ones are applied before the pass that finds none.

  Not modelled. Row locks of PostgreSQL beyond the one a write holds on its feature and serialization failures.
  The byte budget of the moka cache, but as evictions at any time; signing and the HTTP client of webhooks; the creation of features by POST; timers of background tasks. The client of a batch going away, its buffered form and the headers of its request. Failures of the SQLite driver beyond its constraints (busy, disk) end in an error and a
  rollback, which is no step of the model; opening and migrating a database; the PostgreSQL store; TLS,
  tokens and OIDC; metrics, logs and audit transport; the visiting order of hash sets, which no modelled
  result depends on; drivers, renderers, vector tiles and the OGC front ends.
\<close>

end
